(* ===== verification/Prelude.thy ===== *)
theory Prelude
  imports
    Main
    "HOL-Library.Char_ord"
    "HOL-Library.List_Lexorder"
    "HOL-Library.Multiset"
begin

text \<open>
  Shared vocabulary of the development.  The C++ code reports failure with
  \<open>std::expected\<close>; a result is a sum here, with the failure on the left.  A
  \<open>std::string\<close> or \<open>std::string_view\<close> is a list of characters, one per byte.  A
  \<open>std::map\<close> is an association list that is strictly sorted by key, because the code
  iterates over its maps in key order and the reports depend on that order.  The
  theory collects the operations of the C++ standard library the sources use on
  these types, the sorting and lookup contracts stated as locales, and the lemmas every
  component shares.
\<close>

section \<open>Collections of simplification rules\<close>

named_theorems result_simps \<open>unfolding of the early-return combinators\<close>
named_theorems string_simps \<open>unfolding of the string operations\<close>

section \<open>Results: early return as a sum\<close>

definition rbind :: "'e + 'a \<Rightarrow> ('a \<Rightarrow> 'e + 'b) \<Rightarrow> 'e + 'b" where
  "rbind r f = (case r of Inl e \<Rightarrow> Inl e | Inr x \<Rightarrow> f x)"

lemma rbind_simps [simp, result_simps]:
  "rbind (Inl e) f = Inl e"
  "rbind (Inr x) f = f x"
  by (simp_all add: rbind_def)

lemma rbind_Inr_iff: "rbind r f = Inr y \<longleftrightarrow> (\<exists>x. r = Inr x \<and> f x = Inr y)"
  by (cases r) simp_all

lemma rbind_Inl_iff: "rbind r f = Inl e \<longleftrightarrow> r = Inl e \<or> (\<exists>x. r = Inr x \<and> f x = Inl e)"
  by (cases r) simp_all

lemma rbind_InrE [elim!]:
  assumes "rbind r f = Inr y"
  obtains x where "r = Inr x" and "f x = Inr y"
  using assms by (auto simp: rbind_Inr_iff)

lemma rbind_cong [fundef_cong]:
  assumes "r = r'" and "\<And>x. r' = Inr x \<Longrightarrow> f x = g x"
  shows "rbind r f = rbind r' g"
  using assms by (cases r') simp_all

lemma rbind_assoc: "rbind (rbind r f) g = rbind r (\<lambda>x. rbind (f x) g)"
  by (cases r) simp_all

lemma rbind_Inr_right [simp]: "rbind r Inr = r"
  by (cases r) simp_all

text \<open>Failures can be rewritten on the way out (the code fills in the path, for example).\<close>

definition rmap_failure :: "('e \<Rightarrow> 'f) \<Rightarrow> 'e + 'a \<Rightarrow> 'f + 'a" where
  "rmap_failure h r = (case r of Inl e \<Rightarrow> Inl (h e) | Inr x \<Rightarrow> Inr x)"

lemma rmap_failure_simps [simp, result_simps]:
  "rmap_failure h (Inl e) = Inl (h e)"
  "rmap_failure h (Inr x) = Inr x"
  by (simp_all add: rmap_failure_def)

lemma rmap_failure_Inr [simp]: "rmap_failure h r = Inr x \<longleftrightarrow> r = Inr x"
  by (cases r) simp_all

definition is_ok :: "'e + 'a \<Rightarrow> bool" where
  "is_ok r = (case r of Inl _ \<Rightarrow> False | Inr _ \<Rightarrow> True)"

lemma is_ok_simps [simp]: "\<not> is_ok (Inl e)" "is_ok (Inr x)"
  by (simp_all add: is_ok_def)

lemma is_ok_iff: "is_ok r \<longleftrightarrow> (\<exists>x. r = Inr x)"
  by (cases r) simp_all

subsection \<open>Loops that may return early\<close>

fun rfold :: "('s \<Rightarrow> 'a \<Rightarrow> 'e + 's) \<Rightarrow> 's \<Rightarrow> 'a list \<Rightarrow> 'e + 's" where
  "rfold f s [] = Inr s"
| "rfold f s (x # xs) = rbind (f s x) (\<lambda>s'. rfold f s' xs)"

lemma rfold_cong [fundef_cong]:
  assumes "s = s'" and "xs = ys" and "\<And>s x. x \<in> set ys \<Longrightarrow> f s x = g s x"
  shows "rfold f s xs = rfold g s' ys"
  using assms(3) unfolding assms(1,2)
  by (induction ys arbitrary: s') (auto intro!: rbind_cong)

lemma rfold_append:
  "rfold f s (xs @ ys) = rbind (rfold f s xs) (\<lambda>s'. rfold f s' ys)"
  by (induction xs arbitrary: s) (simp_all add: rbind_assoc)

text \<open>A loop invariant that only has to hold along the iterations that do not return.\<close>

lemma rfold_invariant:
  assumes "rfold f s xs = Inr t" and "P s"
    and "\<And>x s s'. x \<in> set xs \<Longrightarrow> P s \<Longrightarrow> f s x = Inr s' \<Longrightarrow> P s'"
  shows "P t"
  using assms
proof (induction xs arbitrary: s)
  case Nil
  then show ?case by simp
next
  case (Cons x xs)
  from Cons.prems(1) obtain s' where s': "f s x = Inr s'" and t: "rfold f s' xs = Inr t"
    by auto
  have "P s'" using Cons.prems(2) s' by (rule Cons.prems(3) [rotated 1]) simp
  with t show ?case by (rule Cons.IH) (auto intro: Cons.prems(3))
qed

text \<open>The same with the prefix already processed visible to the invariant.\<close>

lemma rfold_prefix_invariant:
  assumes "rfold f s xs = Inr t" and "P [] s"
    and "\<And>ys x s s'. \<exists>zs. xs = ys @ x # zs \<Longrightarrow> P ys s \<Longrightarrow> f s x = Inr s' \<Longrightarrow> P (ys @ [x]) s'"
  shows "P xs t"
proof -
  have "P (ys @ zs) t" if "rfold f s zs = Inr t" and "P ys s" and "xs = ys @ zs" for ys zs s
    using that
  proof (induction zs arbitrary: ys s)
    case Nil
    then show ?case by simp
  next
    case (Cons x zs)
    from Cons.prems(1) obtain s' where s': "f s x = Inr s'" and t: "rfold f s' zs = Inr t"
      by auto
    have "P (ys @ [x]) s'"
      using Cons.prems(2) s' by (rule assms(3) [rotated 1]) (use Cons.prems(3) in blast)
    from Cons.IH [OF t this] Cons.prems(3) show ?case by simp
  qed
  from this [of s xs "[]"] assms(1,2) show ?thesis by simp
qed

fun rmap :: "('a \<Rightarrow> 'e + 'b) \<Rightarrow> 'a list \<Rightarrow> 'e + 'b list" where
  "rmap f [] = Inr []"
| "rmap f (x # xs) = rbind (f x) (\<lambda>y. rbind (rmap f xs) (\<lambda>ys. Inr (y # ys)))"

lemma rmap_cong [fundef_cong]:
  assumes "xs = ys" and "\<And>x. x \<in> set ys \<Longrightarrow> f x = g x"
  shows "rmap f xs = rmap g ys"
  using assms(2) unfolding assms(1) by (induction ys) (auto intro!: rbind_cong)

lemma rmap_Inr_iff: "rmap f xs = Inr ys \<longleftrightarrow> list_all2 (\<lambda>x y. f x = Inr y) xs ys"
  by (induction xs arbitrary: ys) (auto simp: rbind_Inr_iff list_all2_Cons1)

lemma rmap_length: "rmap f xs = Inr ys \<Longrightarrow> length ys = length xs"
  by (simp add: rmap_Inr_iff list_all2_lengthD)

lemma rmap_nth: "rmap f xs = Inr ys \<Longrightarrow> i < length xs \<Longrightarrow> f (xs ! i) = Inr (ys ! i)"
  by (auto simp: rmap_Inr_iff dest: list_all2_nthD)

lemma rmap_in_set: "rmap f xs = Inr ys \<Longrightarrow> y \<in> set ys \<Longrightarrow> \<exists>x\<in>set xs. f x = Inr y"
  by (metis in_set_conv_nth rmap_length rmap_nth nth_mem)

section \<open>Strings\<close>

type_synonym bytes = string

text \<open>\<open>std::string_view::starts_with\<close>, \<open>ends_with\<close> and \<open>substr\<close>.\<close>

definition starts_with :: "string \<Rightarrow> string \<Rightarrow> bool" where
  "starts_with s p \<longleftrightarrow> take (length p) s = p"

definition ends_with :: "string \<Rightarrow> string \<Rightarrow> bool" where
  "ends_with s p \<longleftrightarrow> length p \<le> length s \<and> drop (length s - length p) s = p"

definition substr :: "string \<Rightarrow> nat \<Rightarrow> nat \<Rightarrow> string" where
  "substr s pos n = take n (drop pos s)"

text \<open>\<open>parent_path\<close>; a path without one has the empty text.\<close>

definition parent_path :: "string \<Rightarrow> string" where
  "parent_path path =
     (let directory = rev (dropWhile (\<lambda>c. c \<noteq> CHR ''/'') (rev path));
          trimmed = rev (dropWhile (\<lambda>c. c = CHR ''/'') (rev directory))
      in if trimmed = [] \<and> directory \<noteq> [] then ''/'' else trimmed)"

lemma starts_with_iff: "starts_with s p \<longleftrightarrow> (\<exists>t. s = p @ t)"
  unfolding starts_with_def by (metis append_eq_conv_conj append_take_drop_id)

lemma starts_with_append [simp]: "starts_with (p @ t) p"
  by (simp add: starts_with_def)

lemma starts_with_Cons [simp, string_simps]:
  "starts_with (c # s) (d # p) \<longleftrightarrow> c = d \<and> starts_with s p"
  "starts_with [] (d # p) \<longleftrightarrow> False"
  "starts_with s [] \<longleftrightarrow> True"
  by (simp_all add: starts_with_def)

lemma ends_with_iff: "ends_with s p \<longleftrightarrow> (\<exists>t. s = t @ p)"
proof
  assume "ends_with s p"
  then have "s = take (length s - length p) s @ p"
    unfolding ends_with_def by (metis append_take_drop_id)
  then show "\<exists>t. s = t @ p" by blast
next
  assume "\<exists>t. s = t @ p"
  then show "ends_with s p" by (auto simp: ends_with_def)
qed

text \<open>
  \<open>find\<close> with a character or a string, from an offset.  \<open>None\<close> is \<open>npos\<close>.
\<close>

fun index_of :: "char \<Rightarrow> string \<Rightarrow> nat option" where
  "index_of c [] = None"
| "index_of c (x # xs) = (if x = c then Some 0 else map_option Suc (index_of c xs))"

definition find_char_from :: "char \<Rightarrow> string \<Rightarrow> nat \<Rightarrow> nat option" where
  "find_char_from c s off = map_option ((+) off) (index_of c (drop off s))"

fun index_of_str :: "string \<Rightarrow> string \<Rightarrow> nat option" where
  "index_of_str p [] = (if p = [] then Some 0 else None)"
| "index_of_str p (x # xs) =
     (if starts_with (x # xs) p then Some 0 else map_option Suc (index_of_str p xs))"

definition find_str_from :: "string \<Rightarrow> string \<Rightarrow> nat \<Rightarrow> nat option" where
  "find_str_from p s off =
     (if off \<le> length s then map_option ((+) off) (index_of_str p (drop off s)) else None)"

definition contains_str :: "string \<Rightarrow> string \<Rightarrow> bool" where
  "contains_str s p \<longleftrightarrow> index_of_str p s \<noteq> None"

definition contains_char :: "string \<Rightarrow> char \<Rightarrow> bool" where
  "contains_char s c \<longleftrightarrow> c \<in> set s"

definition rindex_of :: "char \<Rightarrow> string \<Rightarrow> nat option" where
  "rindex_of c s = map_option (\<lambda>k. length s - 1 - k) (index_of c (rev s))"

lemma index_of_Some_iff:
  "index_of c s = Some i \<longleftrightarrow> i < length s \<and> s ! i = c \<and> c \<notin> set (take i s)"
proof (induction s arbitrary: i)
  case Nil
  then show ?case by simp
next
  case (Cons x s)
  then show ?case by (cases i) auto
qed

lemma index_of_None_iff: "index_of c s = None \<longleftrightarrow> c \<notin> set s"
  by (induction s) auto

lemma index_of_append_new: "c \<notin> set s \<Longrightarrow> index_of c (s @ c # t) = Some (length s)"
  by (induction s) auto

lemma index_of_str_Some: "index_of_str p s = Some i \<Longrightarrow> i \<le> length s \<and> starts_with (drop i s) p"
  by (induction p s arbitrary: i rule: index_of_str.induct) (auto split: if_splits)

lemma index_of_str_None: "index_of_str p s = None \<longleftrightarrow> (\<forall>i\<le>length s. \<not> starts_with (drop i s) p)"
proof (induction p s rule: index_of_str.induct)
  case (1 p)
  then show ?case by (simp add: starts_with_def)
next
  case (2 p x xs)
  have "(\<forall>i\<le>length (x # xs). \<not> starts_with (drop i (x # xs)) p) \<longleftrightarrow>
        \<not> starts_with (x # xs) p \<and> (\<forall>i\<le>length xs. \<not> starts_with (drop i xs) p)"
    by (simp add: All_less_Suc2 flip: less_Suc_eq_le)
  with 2 show ?case by auto
qed

lemma contains_str_iff: "contains_str s p \<longleftrightarrow> (\<exists>u v. s = u @ p @ v)"
proof
  assume "contains_str s p"
  then obtain i where "starts_with (drop i s) p"
    unfolding contains_str_def using index_of_str_Some by fastforce
  then obtain v where "drop i s = p @ v" by (auto simp: starts_with_iff)
  then have "s = take i s @ p @ v" by (metis append_take_drop_id)
  then show "\<exists>u v. s = u @ p @ v" by blast
next
  assume "\<exists>u v. s = u @ p @ v"
  then obtain u v where s: "s = u @ p @ v" by blast
  then have "starts_with (drop (length u) s) p" and "length u \<le> length s" by simp_all
  then show "contains_str s p"
    unfolding contains_str_def using index_of_str_None by blast
qed

subsection \<open>Splitting at a separator\<close>

text \<open>
  Several parsers of the repository walk over a buffer with the same loop: find the next
  separator from an offset, take the piece up to it, and go on after it until the offset
  has passed the end.  \<open>pieces_from\<close> is that loop; \<open>split_at_char\<close> is what it
  computes from offset zero.
\<close>

function pieces_from :: "char \<Rightarrow> string \<Rightarrow> nat \<Rightarrow> string list" where
  "pieces_from c s off =
     (if off \<le> length s then
        (case find_char_from c s off of
           None \<Rightarrow> [substr s off (length s - off)]
         | Some k \<Rightarrow> substr s off (k - off) # pieces_from c s (k + 1))
      else [])"
  by pat_completeness auto
termination
  by (relation "measure (\<lambda>(c, s, off). Suc (length s) - off)")
    (auto simp: find_char_from_def)

declare pieces_from.simps [simp del]

fun split_at_char :: "char \<Rightarrow> string \<Rightarrow> string list" where
  "split_at_char c [] = [[]]"
| "split_at_char c (x # xs) =
     (if x = c then [] # split_at_char c xs
      else (case split_at_char c xs of [] \<Rightarrow> [[x]] | p # ps \<Rightarrow> (x # p) # ps))"

lemma split_at_char_nonempty [simp]: "split_at_char c s \<noteq> []"
  by (cases s) (auto split: list.splits)

lemma split_at_char_no_sep: "c \<notin> set s \<Longrightarrow> split_at_char c s = [s]"
  by (induction s) auto

lemma split_at_char_append:
  "c \<notin> set s \<Longrightarrow> split_at_char c (s @ c # t) = s # split_at_char c t"
  by (induction s) auto

lemma split_at_char_parts_clean: "p \<in> set (split_at_char c s) \<Longrightarrow> c \<notin> set p"
  by (induction s arbitrary: p) (auto split: if_splits list.splits)

lemma pieces_from_eq_split:
  "off \<le> length s \<Longrightarrow> pieces_from c s off = split_at_char c (drop off s)"
proof (induction c s off rule: pieces_from.induct)
  case (1 c s off)
  show ?case
  proof (cases "index_of c (drop off s)")
    case None
    then have "c \<notin> set (drop off s)" by (simp add: index_of_None_iff)
    then show ?thesis
      using None "1.prems"
      by (simp add: pieces_from.simps [of c s off] find_char_from_def substr_def
          split_at_char_no_sep)
  next
    case (Some k)
    then have k: "k < length s - off" "drop off s ! k = c" "c \<notin> set (take k (drop off s))"
      by (auto simp: index_of_Some_iff)
    have "drop off s = take k (drop off s) @ c # drop (Suc k) (drop off s)"
      using k id_take_nth_drop [of k "drop off s"] by simp
    then have split: "split_at_char c (drop off s)
        = take k (drop off s) # split_at_char c (drop (off + k + 1) s)"
      using k(3) split_at_char_append [of c "take k (drop off s)" "drop (Suc k) (drop off s)"]
      by (simp add: add.commute)
    have rec: "pieces_from c s (off + k + 1) = split_at_char c (drop (off + k + 1) s)"
      using "1.IH" [OF "1.prems", of "off + k"] Some k(1) "1.prems"
      by (simp add: find_char_from_def)
    show ?thesis
      using Some "1.prems" split rec
      by (simp add: pieces_from.simps [of c s off] find_char_from_def substr_def)
  qed
qed

lemma pieces_from_start: "pieces_from c s 0 = split_at_char c s"
  using pieces_from_eq_split [of 0 s c] by simp

end
