(* ===== verification/Containers.thy ===== *)
theory Containers
  imports Prelude
begin

text \<open>
  The containers and algorithms of the C++ standard library whose contracts the sources
  rely on: \<open>std::map\<close> (strictly sorted association lists, iterated in key order),
  \<open>std::ranges::sort\<close> and \<open>stable_sort\<close> with a comparator, \<open>std::ranges::lower_bound\<close>,
  and sort followed by unique.  The contracts are locales; the development interprets
  them on the concrete operations below and on every comparator the sources sort with.
\<close>

section \<open>Ordered maps\<close>

type_synonym ('k, 'v) omap = "('k \<times> 'v) list"

fun omap_put :: "'k::linorder \<Rightarrow> 'v \<Rightarrow> ('k, 'v) omap \<Rightarrow> ('k, 'v) omap" where
  "omap_put k v [] = [(k, v)]"
| "omap_put k v ((a, b) # m) =
     (if k < a then (k, v) # (a, b) # m
      else if k = a then (k, v) # m
      else (a, b) # omap_put k v m)"

definition omap_ok :: "('k::linorder, 'v) omap \<Rightarrow> bool" where
  "omap_ok m \<longleftrightarrow> sorted_wrt (<) (map fst m)"

text \<open>\<open>emplace\<close> keeps the entry that is already there; \<open>operator[]\<close> creates a default one.\<close>

definition omap_emplace :: "'k::linorder \<Rightarrow> 'v \<Rightarrow> ('k, 'v) omap \<Rightarrow> ('k, 'v) omap" where
  "omap_emplace k v m = (case map_of m k of None \<Rightarrow> omap_put k v m | Some _ \<Rightarrow> m)"

definition omap_at :: "'v \<Rightarrow> ('k, 'v) omap \<Rightarrow> 'k \<Rightarrow> 'v" where
  "omap_at d m k = (case map_of m k of None \<Rightarrow> d | Some v \<Rightarrow> v)"

locale ordered_map =
  fixes empty :: "'m"
    and put :: "'k::linorder \<Rightarrow> 'v \<Rightarrow> 'm \<Rightarrow> 'm"
    and get :: "'m \<Rightarrow> 'k \<Rightarrow> 'v option"
    and keys :: "'m \<Rightarrow> 'k list"
    and ok :: "'m \<Rightarrow> bool"
  assumes get_empty: "get empty k = None"
    and get_put: "get (put k v m) k' = (if k' = k then Some v else get m k')"
    and ok_empty: "ok empty"
    and ok_put: "ok m \<Longrightarrow> ok (put k v m)"
    and keys_sorted: "ok m \<Longrightarrow> sorted_wrt (<) (keys m)"
    and keys_iff: "k \<in> set (keys m) \<longleftrightarrow> get m k \<noteq> None"
begin

lemma keys_empty: "keys empty = []"
  using keys_iff [of _ empty] get_empty by (metis list.set_intros(1) neq_Nil_conv)

lemma keys_distinct: "ok m \<Longrightarrow> distinct (keys m)"
  using keys_sorted strict_sorted_iff by blast

text \<open>Iteration order is a function of the contents: this is what makes reports reproducible.\<close>

lemma keys_determined:
  assumes "ok m" and "ok n" and "\<And>k. get m k = get n k"
  shows "keys m = keys n"
proof -
  have "set (keys m) = set (keys n)"
    using assms(3) by (auto simp: keys_iff)
  then show ?thesis
    using keys_sorted [OF assms(1)] keys_sorted [OF assms(2)]
    by (metis strict_sorted_equal)
qed

lemma keys_put: "set (keys (put k v m)) = insert k (set (keys m))"
  by (auto simp: keys_iff get_put split: if_splits)

lemma get_fold_put_notin:
  "k \<notin> fst ` set kvs \<Longrightarrow> get (fold (\<lambda>(k, v). put k v) kvs m) k = get m k"
  by (induction kvs arbitrary: m) (auto simp: get_put)

lemma ok_fold_put: "ok m \<Longrightarrow> ok (fold (\<lambda>(k, v). put k v) kvs m)"
  by (induction kvs arbitrary: m) (auto simp: ok_put)

lemma get_fold_put:
  "get (fold (\<lambda>(k, v). put k v) kvs m) k =
     (case map_of (rev kvs) k of None \<Rightarrow> get m k | Some v \<Rightarrow> Some v)"
  by (induction kvs arbitrary: m) (auto simp: get_put map_add_def split: option.splits)

end

lemma omap_put_set: "fst ` set (omap_put k v m) = insert k (fst ` set m)"
  by (induction k v m rule: omap_put.induct) auto

lemma omap_put_ok: "omap_ok m \<Longrightarrow> omap_ok (omap_put k v m)"
  unfolding omap_ok_def
proof (induction k v m rule: omap_put.induct)
  case (1 k v)
  then show ?case by simp
next
  case (2 k v a b m)
  then have a: "\<forall>x\<in>fst ` set m. a < x" and m: "sorted_wrt (<) (map fst m)" by auto
  show ?case
  proof (cases "k < a")
    case True
    with 2 a show ?thesis by (auto intro: less_trans)
  next
    case False
    with 2 a m omap_put_set [of k v m] show ?thesis
      by (cases "k = a") (auto simp flip: image_iff)
  qed
qed

lemma map_of_omap_put:
  "map_of (omap_put k v m) = (map_of m)(k \<mapsto> v)"
  by (induction k v m rule: omap_put.induct) (auto simp: fun_eq_iff)

interpretation omap: ordered_map "[]" omap_put map_of "map fst" omap_ok
  by unfold_locales
    (auto simp: map_of_omap_put map_of_eq_None_iff intro: omap_put_ok [unfolded omap_ok_def]
      simp: omap_ok_def)

lemma omap_ok_Nil [simp]: "omap_ok []"
  by (rule omap.ok_empty)

lemma omap_ok_distinct: "omap_ok m \<Longrightarrow> distinct (map fst m)"
  by (rule omap.keys_distinct)

lemma omap_ok_emplace: "omap_ok m \<Longrightarrow> omap_ok (omap_emplace k v m)"
  by (simp add: omap_emplace_def omap_put_ok split: option.splits)

lemma map_of_omap_emplace:
  "map_of (omap_emplace k v m) k' =
     (if k' = k \<and> map_of m k = None then Some v else map_of m k')"
  by (auto simp: omap_emplace_def map_of_omap_put split: option.splits)

text \<open>Two ordered maps with the same contents are the same list of entries.\<close>

lemma omap_eqI:
  assumes "omap_ok m" and "omap_ok n" and "map_of m = map_of n"
  shows "m = n"
proof -
  have keys: "map fst m = map fst n"
    by (rule omap.keys_determined) (use assms in auto)
  have "map_of m k = map_of n k" if "k \<in> set (map fst m)" for k
    using assms(3) by simp
  have d: "distinct (map fst m)" using assms(1) by (rule omap_ok_distinct)
  show ?thesis
  proof (rule nth_equalityI)
    from keys show len: "length m = length n" by (metis length_map)
    fix i assume i: "i < length m"
    with len have i': "i < length n" by simp
    have fst_eq: "fst (m ! i) = fst (n ! i)" using keys i i' by (metis nth_map)
    have "map_of m (fst (m ! i)) = Some (snd (m ! i))"
      using d i by (simp add: map_of_eq_Some_iff)
    moreover have "map_of n (fst (n ! i)) = Some (snd (n ! i))"
      using d keys i' by (simp add: map_of_eq_Some_iff)
    ultimately show "m ! i = n ! i" using fst_eq assms(3) by (simp add: prod_eq_iff)
  qed
qed

subsection \<open>Maps of sets\<close>

text \<open>
  \<open>std::map<K, std::set<V>>\<close>: a set is its strictly sorted list, and inserting through
  \<open>operator[]\<close> creates the entry.  \<open>represents\<close> says which sets such a map holds; a key with no
  elements has no entry.
\<close>

definition omap_insert :: "'k::linorder \<Rightarrow> 'v::linorder \<Rightarrow> ('k, 'v list) omap \<Rightarrow> ('k, 'v list) omap" where
  "omap_insert k v m = omap_put k (insort_insert v (omap_at [] m k)) m"

definition represents :: "('k::linorder, 'v::linorder list) omap \<Rightarrow> ('k \<Rightarrow> 'v set) \<Rightarrow> bool" where
  "represents m M \<longleftrightarrow> omap_ok m \<and> (\<forall>k. finite (M k)) \<and>
     map_of m = (\<lambda>k. if M k = {} then None else Some (sorted_list_of_set (M k)))"

lemma insort_insert_sorted_list_of_set:
  "finite A \<Longrightarrow> insort_insert x (sorted_list_of_set A) = sorted_list_of_set (insert x A)"
proof (rule sorted_distinct_set_unique)
  assume fin: "finite A"
  show "sorted (insort_insert x (sorted_list_of_set A))"
    by (rule sorted_insort_insert [OF sorted_sorted_list_of_set])
  show "distinct (insort_insert x (sorted_list_of_set A))"
    by (rule distinct_insort_insert [OF distinct_sorted_list_of_set])
  show "set (insort_insert x (sorted_list_of_set A)) = set (sorted_list_of_set (insert x A))"
    using fin by (simp only: set_insort_insert set_sorted_list_of_set finite_insert)
qed (simp_all only: sorted_sorted_list_of_set distinct_sorted_list_of_set)

lemma represents_Nil [simp]: "represents [] (\<lambda>_. {})"
  by (simp add: represents_def fun_eq_iff)

lemma represents_at: "represents m M \<Longrightarrow> omap_at [] m k = sorted_list_of_set (M k)"
  by (simp add: omap_at_def represents_def)

lemma represents_insert: "represents m M \<Longrightarrow> represents (omap_insert k v m) (M(k := insert v (M k)))"
  using represents_at [of m M k]
  by (auto simp: represents_def omap_insert_def omap_put_ok map_of_omap_put
      insort_insert_sorted_list_of_set fun_eq_iff)

lemma represents_keys:
  assumes "represents m M"
  shows "set (map fst m) = {k. M k \<noteq> {}}" and "map fst m = sorted_list_of_set {k. M k \<noteq> {}}"
proof -
  show keys: "set (map fst m) = {k. M k \<noteq> {}}"
    unfolding set_eq_iff omap.keys_iff using assms by (simp add: represents_def)
  have "finite {k. M k \<noteq> {}}" unfolding keys [symmetric] by simp
  with keys show "map fst m = sorted_list_of_set {k. M k \<noteq> {}}"
    by (intro strict_sorted_equal) (use assms in \<open>auto simp: represents_def omap_ok_def\<close>)
qed

lemma represents_length: "represents m M \<Longrightarrow> length m = card {k. M k \<noteq> {}}"
  using represents_keys(1) [of m M] omap_ok_distinct [of m]
  by (metis represents_def distinct_card length_map)

section \<open>Sorting with a comparator\<close>

text \<open>
  \<open>sort_by\<close> is a stable insertion sort.  Where the sources call \<open>std::ranges::sort\<close>, which
  need not be stable, the lemma \<open>sort_by_unique\<close> below says that elements with distinct keys
  have only one sorted arrangement, so that any sorting algorithm gives this result.
\<close>

fun insert_by :: "('a \<Rightarrow> 'a \<Rightarrow> bool) \<Rightarrow> 'a \<Rightarrow> 'a list \<Rightarrow> 'a list" where
  "insert_by lt x [] = [x]"
| "insert_by lt x (y # ys) = (if lt y x then y # insert_by lt x ys else x # y # ys)"

fun sort_by :: "('a \<Rightarrow> 'a \<Rightarrow> bool) \<Rightarrow> 'a list \<Rightarrow> 'a list" where
  "sort_by lt [] = []"
| "sort_by lt (x # xs) = insert_by lt x (sort_by lt xs)"

lemma mset_insert_by [simp]: "mset (insert_by lt x xs) = add_mset x (mset xs)"
  by (induction xs) auto

lemma mset_sort_by [simp]: "mset (sort_by lt xs) = mset xs"
  by (induction xs) auto

lemma set_sort_by [simp]: "set (sort_by lt xs) = set xs"
  by (metis mset_sort_by set_mset_mset)

lemma length_sort_by [simp]: "length (sort_by lt xs) = length xs"
  by (metis mset_sort_by size_mset)

lemma distinct_map_sort_by [simp]: "distinct (map k (sort_by lt xs)) \<longleftrightarrow> distinct (map k xs)"
  by (metis mset_sort_by mset_map mset_eq_imp_distinct_iff)

text \<open>\<open>lower_bound\<close>: from the first element that does not compare less than the key sought.\<close>

definition lower_bound_from :: "('a \<Rightarrow> bool) \<Rightarrow> 'a list \<Rightarrow> 'a list" where
  "lower_bound_from before xs = dropWhile before xs"

locale key_order =
  fixes lt :: "'k \<Rightarrow> 'k \<Rightarrow> bool"
    and valid :: "'k \<Rightarrow> bool"
  assumes irrefl: "valid x \<Longrightarrow> \<not> lt x x"
    and trans: "valid x \<Longrightarrow> valid y \<Longrightarrow> valid z \<Longrightarrow> lt x y \<Longrightarrow> lt y z \<Longrightarrow> lt x z"
    and total: "valid x \<Longrightarrow> valid y \<Longrightarrow> x \<noteq> y \<Longrightarrow> lt x y \<or> lt y x"
begin

definition keyed :: "('a \<Rightarrow> 'k) \<Rightarrow> 'a \<Rightarrow> 'a \<Rightarrow> bool" where
  "keyed key a b = lt (key a) (key b)"

lemma asym: "valid x \<Longrightarrow> valid y \<Longrightarrow> lt x y \<Longrightarrow> \<not> lt y x"
  using irrefl trans by blast

lemma insert_by_sorted:
  assumes "\<forall>y\<in>set (x # ys). valid (key y)" and "key x \<notin> key ` set ys"
    and "sorted_wrt (\<lambda>a b. lt (key a) (key b)) ys"
  shows "sorted_wrt (\<lambda>a b. lt (key a) (key b)) (insert_by (\<lambda>a b. lt (key a) (key b)) x ys)"
  using assms
proof (induction ys)
  case Nil
  then show ?case by simp
next
  case (Cons y ys)
  let ?lt = "\<lambda>a b. lt (key a) (key b)"
  have v: "valid (key x)" "valid (key y)" and ne: "key x \<noteq> key y"
    using Cons.prems by auto
  have set: "set (insert_by ?lt x ys) = insert x (set ys)"
    by (metis mset_insert_by set_mset_add_mset_insert set_mset_mset)
  show ?case
  proof (cases "?lt y x")
    case True
    then show ?thesis using Cons by (simp add: set)
  next
    case False
    then have xy: "?lt x y" using total [OF v ne] by blast
    have "?lt x z" if "z \<in> set ys" for z
      using that xy Cons.prems v by (auto intro: trans)
    with False xy Cons.prems show ?thesis by simp
  qed
qed

lemma sort_by_sorted:
  assumes "\<forall>y\<in>set xs. valid (key y)" and "distinct (map key xs)"
  shows "sorted_wrt (\<lambda>a b. lt (key a) (key b)) (sort_by (\<lambda>a b. lt (key a) (key b)) xs)"
  using assms by (induction xs) (auto intro!: insert_by_sorted)

lemma sorted_distinct_keys:
  assumes "\<forall>y\<in>set xs. valid (key y)" and "sorted_wrt (\<lambda>a b. lt (key a) (key b)) xs"
  shows "distinct (map key xs)"
  using assms
proof (induction xs)
  case Nil
  then show ?case by simp
next
  case (Cons x xs)
  then show ?case by (auto dest: irrefl)
qed

text \<open>Elements with distinct keys have one sorted arrangement.\<close>

lemma sorted_unique:
  assumes "mset xs = mset ys" and "\<forall>y\<in>set xs. valid (key y)"
    and "sorted_wrt (\<lambda>a b. lt (key a) (key b)) xs"
    and "sorted_wrt (\<lambda>a b. lt (key a) (key b)) ys"
  shows "xs = ys"
  using assms
proof (induction xs arbitrary: ys)
  case Nil
  then show ?case by simp
next
  case (Cons x xs)
  then obtain y ys' where ys: "ys = y # ys'" by (cases ys) auto
  have v: "valid (key z)" if "z \<in> set (x # xs)" for z using Cons.prems(2) that by blast
  have set: "set (x # xs) = set ys" using Cons.prems(1) by (metis set_mset_mset)
  have "x = y"
  proof (rule ccontr)
    assume ne: "x \<noteq> y"
    with set ys have "y \<in> set xs" and "x \<in> set ys'" by auto
    with Cons.prems(3,4) ys have "lt (key x) (key y)" and "lt (key y) (key x)" by auto
    with v set ys asym [of "key x" "key y"] show False by auto
  qed
  with Cons ys show ?case by auto
qed

lemma sort_by_unique:
  assumes "mset xs = mset ys" and "\<forall>y\<in>set xs. valid (key y)"
    and "distinct (map key xs)" and "sorted_wrt (\<lambda>a b. lt (key a) (key b)) ys"
  shows "sort_by (\<lambda>a b. lt (key a) (key b)) xs = ys"
  by (rule sorted_unique [where key = key]) (use assms sort_by_sorted in auto)

text \<open>The order in which the elements were supplied does not matter.\<close>

lemma sort_by_permutation:
  assumes "mset xs = mset ys" and "\<forall>y\<in>set xs. valid (key y)" and "distinct (map key xs)"
  shows "sort_by (\<lambda>a b. lt (key a) (key b)) xs = sort_by (\<lambda>a b. lt (key a) (key b)) ys"
proof (rule sort_by_unique)
  have "\<forall>y\<in>set ys. valid (key y)" using assms(1,2) by (metis set_mset_mset)
  moreover have "distinct (map key ys)"
    using assms(1,3) by (metis mset_eq_imp_distinct_iff mset_map)
  ultimately show "sorted_wrt (\<lambda>a b. lt (key a) (key b)) (sort_by (\<lambda>a b. lt (key a) (key b)) ys)"
    by (rule sort_by_sorted)
qed (use assms in auto)

text \<open>Binary search in sorted entries finds exactly what a linear search finds.\<close>

lemma lower_bound_find:
  assumes "\<forall>m\<in>set ms. valid (fst m)" and "valid q"
    and "sorted_wrt (\<lambda>a b. lt (fst a) (fst b)) ms"
  shows "(case lower_bound_from (\<lambda>m. lt (fst m) q) ms of [] \<Rightarrow> None
           | m # _ \<Rightarrow> if fst m = q then Some (snd m) else None) = map_of ms q"
  using assms
proof (induction ms)
  case Nil
  then show ?case by (simp add: lower_bound_from_def)
next
  case (Cons m ms)
  have v: "valid (fst m)" using Cons.prems by simp
  show ?case
  proof (cases "lt (fst m) q")
    case True
    then have "fst m \<noteq> q" using v irrefl by auto
    with True Cons show ?thesis
      by (cases m) (simp add: lower_bound_from_def)
  next
    case False
    have "q \<notin> fst ` set ms" if "fst m \<noteq> q"
    proof
      assume "q \<in> fst ` set ms"
      with Cons.prems(3) have "lt (fst m) q" by auto
      with False show False by blast
    qed
    then have "map_of ms q = None" if "fst m \<noteq> q"
      using that by (simp add: map_of_eq_None_iff)
    with False show ?thesis by (cases m) (simp add: lower_bound_from_def)
  qed
qed

end

text \<open>The built-in order of a linearly ordered key type is such an order.\<close>

interpretation linear_keys: key_order "(<) :: 'k::linorder \<Rightarrow> 'k \<Rightarrow> bool" "\<lambda>_. True"
  by unfold_locales auto

text \<open>Sort, then erase adjacent duplicates: the idiom that turns a list into a set report.\<close>

definition sort_unique :: "'a::linorder list \<Rightarrow> 'a list" where
  "sort_unique xs = remdups_adj (sort xs)"

lemma set_sort_unique [simp]: "set (sort_unique xs) = set xs"
  by (simp add: sort_unique_def)

lemma sorted_remdups_adj_distinct: "sorted xs \<Longrightarrow> distinct (remdups_adj xs)"
  by (induction xs rule: remdups_adj.induct) (fastforce simp: less_le)+

lemma sorted_sort_unique: "sorted_wrt (<) (sort_unique xs)"
proof -
  have "sorted (sort_unique xs)" by (simp add: sort_unique_def sorted_remdups_adj)
  moreover have "distinct (sort_unique xs)"
    by (simp add: sort_unique_def sorted_remdups_adj_distinct)
  ultimately show ?thesis by (simp add: strict_sorted_iff)
qed

lemma sort_unique_set: "sort_unique xs = sorted_list_of_set (set xs)"
  by (rule strict_sorted_equal [OF _ _ ])
    (auto simp: sorted_sort_unique)

end
