(* ===== verification/Numbers.thy ===== *)
theory Numbers
  imports Prelude
begin

text \<open>
  Decimal and hexadecimal text.  \<open>std::to_string\<close>, \<open>std::to_chars\<close> and stream
  insertion of an integer write the shortest decimal form; \<open>std::from_chars\<close> reads the
  longest decimal prefix (a minus sign only for signed types, never a plus sign or white
  space) and reports a value that does not fit its type.  Every caller in the repository
  accepts the result only when the whole text was consumed, so \<open>from_chars_i64\<close> and
  \<open>from_chars_u32\<close> are the two calls with that test included.
\<close>

section \<open>Digits\<close>

definition is_digit :: "char \<Rightarrow> bool" where
  "is_digit c \<longleftrightarrow> 48 \<le> (of_char c :: nat) \<and> (of_char c :: nat) \<le> 57"

definition digit_value :: "char \<Rightarrow> nat" where
  "digit_value c = of_char c - 48"

definition digit_char :: "nat \<Rightarrow> char" where
  "digit_char d = char_of (48 + d)"

lemma of_char_less_256 [simp]: "(of_char c :: nat) < 256"
  by simp

lemma of_char_digit_char: "d < 10 \<Longrightarrow> (of_char (digit_char d) :: nat) = 48 + d"
  by (simp add: digit_char_def)

lemma digit_char_value [simp]: "d < 10 \<Longrightarrow> digit_value (digit_char d) = d"
  by (simp add: digit_value_def of_char_digit_char)

lemma is_digit_digit_char [simp]: "d < 10 \<Longrightarrow> is_digit (digit_char d)"
  by (simp add: is_digit_def of_char_digit_char)

lemma digit_value_char [simp]: "is_digit c \<Longrightarrow> digit_char (digit_value c) = c"
  by (simp add: is_digit_def digit_value_def digit_char_def)

lemma digit_value_less [simp]: "is_digit c \<Longrightarrow> digit_value c < 10"
  by (auto simp: is_digit_def digit_value_def)

lemma digit_char_inj: "d < 10 \<Longrightarrow> e < 10 \<Longrightarrow> digit_char d = digit_char e \<longleftrightarrow> d = e"
  by (metis digit_char_value)

lemma digit_char_values:
  "digit_char 0 = CHR ''0''" "digit_char 1 = CHR ''1''" "digit_char 2 = CHR ''2''" "digit_char 3 = CHR ''3''"
  "digit_char 4 = CHR ''4''" "digit_char 5 = CHR ''5''" "digit_char 6 = CHR ''6''" "digit_char 7 = CHR ''7''"
  "digit_char 8 = CHR ''8''" "digit_char 9 = CHR ''9''" "digit_char (Suc 0) = CHR ''1''"
  by (simp_all add: digit_char_def char_of_eq_iff)

section \<open>Decimal text\<close>

fun nat_to_string :: "nat \<Rightarrow> string" where
  "nat_to_string n = (if n < 10 then [digit_char n]
     else nat_to_string (n div 10) @ [digit_char (n mod 10)])"

declare nat_to_string.simps [simp del]

definition int_to_string :: "int \<Rightarrow> string" where
  "int_to_string i = (if i < 0 then CHR ''-'' # nat_to_string (nat (- i)) else nat_to_string (nat i))"

definition digits_value :: "string \<Rightarrow> nat" where
  "digits_value s = foldl (\<lambda>a c. 10 * a + digit_value c) 0 s"

lemma digits_value_snoc [simp]: "digits_value (s @ [c]) = 10 * digits_value s + digit_value c"
  by (simp add: digits_value_def)

lemma digits_value_Nil [simp]: "digits_value [] = 0"
  by (simp add: digits_value_def)

lemma nat_to_string_digits: "\<forall>c\<in>set (nat_to_string n). is_digit c"
proof (induction n rule: nat_to_string.induct)
  case (1 n)
  then show ?case by (subst nat_to_string.simps) auto
qed

lemma nat_to_string_nonempty [simp]: "nat_to_string n \<noteq> []"
  by (subst nat_to_string.simps) simp

lemma digits_value_nat_to_string [simp]: "digits_value (nat_to_string n) = n"
proof (induction n rule: nat_to_string.induct)
  case (1 n)
  then show ?case
    by (subst nat_to_string.simps) (auto simp: digits_value_def)
qed

lemma nat_to_string_hd_zero: "hd (nat_to_string n) = CHR ''0'' \<longleftrightarrow> n = 0"
proof (induction n rule: nat_to_string.induct)
  case (1 n)
  have zero: "digit_char d = CHR ''0'' \<longleftrightarrow> d = 0" if "d < 10" for d
  proof -
    have "digit_char 0 = CHR ''0''"
      by (simp add: digit_char_def char_of_eq_iff)
    with digit_char_inj [OF that, of 0] show ?thesis by simp
  qed
  show ?case
  proof (cases "n < 10")
    case True
    then show ?thesis by (subst nat_to_string.simps) (simp add: zero)
  next
    case False
    with 1 have "hd (nat_to_string (n div 10)) = CHR ''0'' \<longleftrightarrow> n div 10 = 0" by simp
    with False show ?thesis by (subst nat_to_string.simps) (simp add: hd_append)
  qed
qed

lemma nat_to_string_length1: "length (nat_to_string n) = 1 \<longleftrightarrow> n < 10"
  by (subst nat_to_string.simps) simp

lemma digits_value_length: "\<forall>c\<in>set s. is_digit c \<Longrightarrow> digits_value s < 10 ^ length s"
proof (induction s rule: rev_induct)
  case Nil
  then show ?case by simp
next
  case (snoc c s)
  then have "digits_value s < 10 ^ length s" and "digit_value c < 10" by simp_all
  then show ?case by simp
qed

text \<open>The decimal form is the only digit string without a leading zero that has a given value.\<close>

lemma digits_value_canonical:
  assumes "\<forall>c\<in>set s. is_digit c" and "s \<noteq> []" and "length s = 1 \<or> hd s \<noteq> CHR ''0''"
  shows "nat_to_string (digits_value s) = s"
  using assms
proof (induction s rule: rev_induct)
  case Nil
  then show ?case by simp
next
  case (snoc c s)
  then have c: "is_digit c" and s: "\<forall>c\<in>set s. is_digit c" by simp_all
  show ?case
  proof (cases "s = []")
    case True
    with c show ?thesis
      by (subst nat_to_string.simps) (simp add: digits_value_def)
  next
    case False
    with snoc.prems(3) have hd: "hd s \<noteq> CHR ''0''" by (cases s) simp_all
    from snoc.IH [OF s False] hd have IH: "nat_to_string (digits_value s) = s" by blast
    with hd have "digits_value s \<noteq> 0" by (metis nat_to_string_hd_zero)
    then have ge: "\<not> 10 * digits_value s + digit_value c < 10" by simp
    have "(10 * digits_value s + digit_value c) div 10 = digits_value s"
      and "(10 * digits_value s + digit_value c) mod 10 = digit_value c"
      using c digit_value_less [OF c] by simp_all
    with IH ge c show ?thesis by (subst nat_to_string.simps) simp
  qed
qed

lemma nat_to_string_inj: "nat_to_string m = nat_to_string n \<longleftrightarrow> m = n"
  by (metis digits_value_nat_to_string)

section \<open>std::from_chars with the whole text consumed\<close>

definition all_digits :: "string \<Rightarrow> bool" where
  "all_digits s \<longleftrightarrow> s \<noteq> [] \<and> list_all is_digit s"

definition int64_min :: int where "int64_min = - (2 ^ 63)"
definition int64_max :: int where "int64_max = 2 ^ 63 - 1"

definition from_chars_i64 :: "string \<Rightarrow> int option" where
  "from_chars_i64 s =
     (case s of
        [] \<Rightarrow> None
      | c # ds \<Rightarrow>
          (if c = CHR ''-''
           then (if all_digits ds \<and> int64_min \<le> - int (digits_value ds)
                 then Some (- int (digits_value ds)) else None)
           else (if all_digits s \<and> int (digits_value s) \<le> int64_max
                 then Some (int (digits_value s)) else None)))"

definition from_chars_u32 :: "string \<Rightarrow> nat option" where
  "from_chars_u32 s = (if all_digits s \<and> digits_value s < 2 ^ 32 then Some (digits_value s) else None)"

lemma all_digits_nat_to_string [simp]: "all_digits (nat_to_string n)"
  using nat_to_string_digits by (auto simp: all_digits_def list_all_iff)

lemma minus_not_digit [simp]: "\<not> is_digit (CHR ''-'')"
  by (simp add: is_digit_def)

lemma nat_to_string_no_minus: "hd (nat_to_string n) \<noteq> CHR ''-''"
  using nat_to_string_digits [of n] by (metis hd_in_set minus_not_digit nat_to_string_nonempty)

lemma from_chars_i64_range:
  "from_chars_i64 s = Some i \<Longrightarrow> int64_min \<le> i \<and> i \<le> int64_max"
  by (auto simp: from_chars_i64_def int64_min_def int64_max_def split: list.splits if_splits)

lemma from_chars_u32_range: "from_chars_u32 s = Some n \<Longrightarrow> n < 2 ^ 32"
  by (auto simp: from_chars_u32_def split: if_splits)

lemma from_chars_u32_to_string:
  "n < 2 ^ 32 \<Longrightarrow> from_chars_u32 (nat_to_string n) = Some n"
  by (simp add: from_chars_u32_def)

lemma from_chars_i64_to_string:
  assumes "int64_min \<le> i" and "i \<le> int64_max"
  shows "from_chars_i64 (int_to_string i) = Some i"
proof (cases "i < 0")
  case True
  with assms show ?thesis by (simp add: from_chars_i64_def int_to_string_def)
next
  case False
  obtain c ds where s: "nat_to_string (nat i) = c # ds"
    by (cases "nat_to_string (nat i)") simp_all
  have c: "c \<noteq> CHR ''-''" using nat_to_string_no_minus [of "nat i"] s by simp
  have "digits_value (c # ds) = nat i" and "all_digits (c # ds)"
    using s digits_value_nat_to_string [of "nat i"] all_digits_nat_to_string [of "nat i"] by simp_all
  with False assms c show ?thesis by (simp add: from_chars_i64_def int_to_string_def s)
qed

lemma int_to_string_inj: "int_to_string i = int_to_string j \<longleftrightarrow> i = j"
proof
  assume eq: "int_to_string i = int_to_string j"
  have hd: "hd (int_to_string k) = CHR ''-'' \<longleftrightarrow> k < 0" for k
    by (simp add: int_to_string_def nat_to_string_no_minus)
  from eq hd [of i] hd [of j] have "i < 0 \<longleftrightarrow> j < 0" by simp
  with eq show "i = j" by (auto simp: int_to_string_def nat_to_string_inj split: if_splits)
qed simp

lemma int_to_string_nonempty [simp]: "int_to_string i \<noteq> []"
  by (simp add: int_to_string_def)

section \<open>Hexadecimal digits\<close>

definition hex_digits :: string where
  "hex_digits = ''0123456789abcdef''"

definition hex_char :: "nat \<Rightarrow> char" where
  "hex_char d = hex_digits ! d"

definition hex_value :: "char \<Rightarrow> nat option" where
  "hex_value c =
     (if CHR ''0'' \<le> c \<and> c \<le> CHR ''9'' then Some (of_char c - 48)
      else if CHR ''a'' \<le> c \<and> c \<le> CHR ''f'' then Some (of_char c - 97 + 10)
      else None)"

lemma of_char_hex_char:
  assumes "d < 16"
  shows "(of_char (hex_char d) :: nat) = (if d < 10 then 48 + d else 87 + d)"
proof -
  have "d \<in> {0,1,2,3,4,5,6,7,8,9,10,11,12,13,14,15}"
    using assms by (simp del: One_nat_def) arith
  then show ?thesis by (auto simp: hex_char_def hex_digits_def)
qed

lemma hex_value_alt:
  "hex_value c =
     (let n = of_char c in
      if 48 \<le> n \<and> n \<le> 57 then Some (n - 48)
      else if 97 \<le> n \<and> n \<le> 102 then Some (n - 87) else None)"
  by (simp add: hex_value_def less_eq_char_def Let_def)

lemma hex_value_hex_char [simp]: "d < 16 \<Longrightarrow> hex_value (hex_char d) = Some d"
  by (simp add: hex_value_alt of_char_hex_char)

lemma hex_value_Some:
  assumes "hex_value c = Some d"
  shows "d < 16 \<and> hex_char d = c"
proof -
  from assms have d: "d < 16" and "(of_char c :: nat) = (if d < 10 then 48 + d else 87 + d)"
    by (auto simp: hex_value_alt Let_def split: if_splits)
  then have "(of_char (hex_char d) :: nat) = of_char c" by (simp add: of_char_hex_char)
  with d show ?thesis by simp
qed

lemma hex_char_inj_iff: "d < 16 \<Longrightarrow> e < 16 \<Longrightarrow> hex_char d = hex_char e \<longleftrightarrow> d = e"
  by (metis hex_value_hex_char option.inject)

lemma hex_char_less_iff: "d < 16 \<Longrightarrow> e < 16 \<Longrightarrow> hex_char d < hex_char e \<longleftrightarrow> d < e"
  by (auto simp: less_char_def of_char_hex_char)

end
