(* ===== verification/Evidence_Utf.thy ===== *)
theory Evidence_Utf
  imports Containers Numbers
begin

unbundle bit_operations_syntax

text \<open>
  The bs layer of \<open>tools/rf_evidence/src/canonical_json.cpp\<close>: the strict UTF-8 decoder, the
  UTF-16 code units derived from it, and the RFC 8785 member order.  A string and an offset
  into it are modelled by the suffix that starts at the offset.
\<close>

section \<open>Decoder\<close>

fun decodeContinuation :: "nat \<Rightarrow> nat \<Rightarrow> bytes \<Rightarrow> nat option" where
  "decodeContinuation 0 v bs = Some v"
| "decodeContinuation (Suc n) v [] = None"
| "decodeContinuation (Suc n) v (c # bs) =
     (if (of_char c :: nat) AND 0xC0 \<noteq> 0x80 then None
      else decodeContinuation n (push_bit 6 v OR (of_char c AND 0x3F)) bs)"

definition decodeLead :: "nat \<Rightarrow> (nat \<times> nat) option" where
  "decodeLead kLead =
     (if kLead AND 0xE0 = 0xC0 then Some (1, kLead AND 0x1F)
      else if kLead AND 0xF0 = 0xE0 then Some (2, kLead AND 0x0F)
      else if kLead AND 0xF8 = 0xF0 then Some (3, kLead AND 0x07)
      else None)"

fun decodeCodePoint :: "bytes \<Rightarrow> (nat \<times> bytes) option" where
  "decodeCodePoint [] = None"
| "decodeCodePoint (c # bs) =
     (let kLead = of_char c in
      if kLead < 0x80 then Some (kLead, bs)
      else (case decodeLead kLead of
              None \<Rightarrow> None
            | Some (extra, v) \<Rightarrow>
                (if length bs < extra then None
                 else (case decodeContinuation extra v bs of
                         None \<Rightarrow> None
                       | Some cp \<Rightarrow>
                           (if (extra = 1 \<and> cp < 0x80) \<or> (extra = 2 \<and> cp < 0x800)
                                \<or> (extra = 3 \<and> cp < 0x10000) then None
                            else if 0x10FFFF < cp \<or> (0xD800 \<le> cp \<and> cp \<le> 0xDFFF) then None
                            else Some (cp, drop extra bs))))))"

text \<open>The loop both string checks of the parser run: decode until the bs is used up.\<close>

function utf8Valid :: "bytes \<Rightarrow> bool" where
  "utf8Valid bs =
     (if bs = [] then True
      else (case decodeCodePoint bs of
              None \<Rightarrow> False
            | Some (cp, rest) \<Rightarrow> utf8Valid rest))"
  by pat_completeness auto

lemma decodeCodePoint_shorter:
  "decodeCodePoint bs = Some (cp, rest) \<Longrightarrow> length rest < length bs"
  by (cases bs) (auto simp: Let_def split: if_splits option.splits prod.splits)

termination utf8Valid
  by (relation "measure length") (auto dest: decodeCodePoint_shorter)

declare utf8Valid.simps [simp del]

section \<open>Code units and the member order\<close>

text \<open>A pending low surrogate of zero means there is none.\<close>

fun nextCodeUnit :: "bytes \<Rightarrow> nat \<Rightarrow> (nat \<times> bytes \<times> nat) option" where
  "nextCodeUnit bs pending =
     (if pending \<noteq> 0 then Some (pending, bs, 0)
      else (case decodeCodePoint bs of
              None \<Rightarrow> None
            | Some (cp, rest) \<Rightarrow>
                (if cp < 0x10000 then Some (cp, rest, 0)
                 else let kAdjusted = cp - 0x10000
                      in Some (0xD800 + drop_bit 10 kAdjusted, rest, 0xDC00 + (kAdjusted AND 0x3FF)))))"

declare nextCodeUnit.simps [simp del]

definition unit_measure :: "bytes \<Rightarrow> nat \<Rightarrow> nat" where
  "unit_measure bs pending = 2 * length bs + (if pending = 0 then 0 else 1)"

lemma nextCodeUnit_measure:
  "nextCodeUnit bs pending = Some (unit, bs', pending') \<Longrightarrow>
   unit_measure bs' pending' < unit_measure bs pending"
  by (auto simp: nextCodeUnit.simps unit_measure_def Let_def
      split: if_splits option.splits prod.splits dest!: decodeCodePoint_shorter)

text \<open>
  \<open>fallback\<close> is the answer on undecodable bs: the byte order of the two whole keys.
\<close>

function jcsLoop :: "bool \<Rightarrow> bytes \<Rightarrow> nat \<Rightarrow> bytes \<Rightarrow> nat \<Rightarrow> bool" where
  "jcsLoop fallback left leftPending right rightPending =
     (let kLeftDone = (left = [] \<and> leftPending = 0);
          kRightDone = (right = [] \<and> rightPending = 0)
      in if kLeftDone \<or> kRightDone then kLeftDone \<and> \<not> kRightDone
         else (case nextCodeUnit left leftPending of
                 None \<Rightarrow> fallback
               | Some (leftUnit, left', leftPending') \<Rightarrow>
                   (case nextCodeUnit right rightPending of
                      None \<Rightarrow> fallback
                    | Some (rightUnit, right', rightPending') \<Rightarrow>
                        (if leftUnit \<noteq> rightUnit then leftUnit < rightUnit
                         else jcsLoop fallback left' leftPending' right' rightPending'))))"
  by pat_completeness auto
termination
  by (relation "measure (\<lambda>(f, l, lp, r, rp). unit_measure l lp)") (auto dest: nextCodeUnit_measure)

declare jcsLoop.simps [simp del]

definition jcsKeyLess :: "bytes \<Rightarrow> bytes \<Rightarrow> bool" where
  "jcsKeyLess left right = jcsLoop (left < right) left 0 right 0"

section \<open>The masks as arithmetic on bytes\<close>

lemma and_low_mask: "(n :: nat) AND (2 ^ k - 1) = n mod 2 ^ k"
proof -
  have "n AND mask k = take_bit k n"
    by (simp add: take_bit_eq_mask)
  then show ?thesis
    by (simp add: take_bit_eq_mod mask_eq_exp_minus_1)
qed

lemma and_high_mask:
  assumes "n < 2 ^ (k + j)"
  shows "(n :: nat) AND push_bit k (2 ^ j - 1) = 2 ^ k * (n div 2 ^ k)"
proof -
  have "n AND push_bit k (2 ^ j - 1) = push_bit k (drop_bit k n AND (2 ^ j - 1))"
    by (rule bit_eqI) (auto simp: bit_simps)
  also have "drop_bit k n AND (2 ^ j - 1) = drop_bit k n"
    using assms by (simp add: and_low_mask [unfolded One_nat_def] drop_bit_eq_div less_mult_imp_div_less power_add mult.commute)
  finally show ?thesis
    by (simp add: push_bit_eq_mult drop_bit_eq_div mult.commute)
qed

lemma and_masks:
  "(n :: nat) AND 0x3F = n mod 64" "n AND 0x1F = n mod 32" "n AND 0x0F = n mod 16"
  "n AND 0x07 = n mod 8" "n AND 0x3FF = n mod 1024"
  using and_low_mask [of n 6] and_low_mask [of n 5] and_low_mask [of n 4] and_low_mask [of n 3]
    and_low_mask [of n 10] by simp_all

lemma byte_high_masks:
  assumes "n < 256"
  shows "(n :: nat) AND 0xC0 = 64 * (n div 64)" "n AND 0xE0 = 32 * (n div 32)"
    "n AND 0xF0 = 16 * (n div 16)" "n AND 0xF8 = 8 * (n div 8)"
  using assms and_high_mask [of n 6 2] and_high_mask [of n 5 3] and_high_mask [of n 4 4]
    and_high_mask [of n 3 5] by (simp_all add: push_bit_eq_mult)

lemma push_or:
  assumes "(w :: nat) < 2 ^ k"
  shows "push_bit k v OR w = 2 ^ k * v + w"
proof -
  have w: "take_bit k w = w"
    using assms by (simp add: take_bit_eq_mod)
  have "push_bit k v AND take_bit k w = 0"
    by (rule bit_eqI) (auto simp: bit_simps)
  then have "push_bit k v + take_bit k w = push_bit k v OR take_bit k w"
    by (rule disjunctive_add_eq_or)
  then show ?thesis
    using w by (simp add: push_bit_eq_mult mult.commute)
qed

lemma byte_bound: "(of_char (c :: char) :: nat) < 256"
  by simp

lemma decodeContinuation_Cons:
  "decodeContinuation (Suc n) v (c # bs) =
     (if (of_char c :: nat) div 64 \<noteq> 2 then None
      else decodeContinuation n (64 * v + of_char c mod 64) bs)"
  using push_or [of "of_char c mod 64" 6 v]
  by (simp add: and_masks byte_high_masks [OF byte_bound])

declare decodeContinuation.simps(3) [simp del]

lemma decodeLead_arith:
  "k < 256 \<Longrightarrow> decodeLead k =
     (if k div 32 = 6 then Some (1, k mod 32)
      else if k div 16 = 14 then Some (2, k mod 16)
      else if k div 8 = 30 then Some (3, k mod 8)
      else None)"
  by (simp add: decodeLead_def and_masks byte_high_masks)

section \<open>The decoder inverts UTF-8\<close>

definition is_scalar :: "nat \<Rightarrow> bool" where
  "is_scalar cp \<longleftrightarrow> cp \<le> 0x10FFFF \<and> \<not> (0xD800 \<le> cp \<and> cp \<le> 0xDFFF)"

definition utf8_encode :: "nat \<Rightarrow> bytes" where
  "utf8_encode cp =
     (if cp < 0x80 then [char_of cp]
      else if cp < 0x800 then [char_of (0xC0 + cp div 64), char_of (0x80 + cp mod 64)]
      else if cp < 0x10000 then
        [char_of (0xE0 + cp div 4096), char_of (0x80 + cp div 64 mod 64), char_of (0x80 + cp mod 64)]
      else [char_of (0xF0 + cp div 262144), char_of (0x80 + cp div 4096 mod 64),
            char_of (0x80 + cp div 64 mod 64), char_of (0x80 + cp mod 64)])"

lemma of_char_char_of_small: "n < 256 \<Longrightarrow> of_char (char_of n :: char) = (n :: nat)"
  by simp

lemma char_of_eqI: "of_char c = (n :: nat) \<Longrightarrow> char_of n = c"
  by auto

lemma offset_div_mod:
  assumes "(v :: nat) < m"
  shows "(m * q + v) div m = q" "(m * q + v) mod m = v"
  using assms by simp_all

lemma decodeLead_encode_1:
  assumes "v < 32"
  shows "decodeLead (0xC0 + v) = Some (1, v)"
proof -
  have "(0xC0 + v) div 32 = 6" "(0xC0 + v) mod 32 = v"
    using offset_div_mod [of v 32 6] assms by simp_all
  then show ?thesis
    using assms by (simp add: decodeLead_arith)
qed

lemma decodeLead_encode_2:
  assumes "v < 16"
  shows "decodeLead (0xE0 + v) = Some (2, v)"
proof -
  have "(0xE0 + v) div 32 = 7" "(0xE0 + v) div 16 = 14" "(0xE0 + v) mod 16 = v"
    using offset_div_mod [of v 32 7] offset_div_mod [of v 16 14] assms by simp_all
  then show ?thesis
    using assms by (simp add: decodeLead_arith)
qed

lemma decodeLead_encode_3:
  assumes "v < 8"
  shows "decodeLead (0xF0 + v) = Some (3, v)"
proof -
  have "(0xF0 + v) div 32 = 7" "(0xF0 + v) div 16 = 15" "(0xF0 + v) div 8 = 30" "(0xF0 + v) mod 8 = v"
    using offset_div_mod(1) [of "16 + v" 32 7] offset_div_mod [of v 16 15] offset_div_mod [of v 8 30]
      assms by (simp_all add: add.assoc [symmetric])
  then show ?thesis
    using assms by (simp add: decodeLead_arith)
qed

lemmas decodeLead_encode = decodeLead_encode_1 decodeLead_encode_2 decodeLead_encode_3

lemma decodeContinuation_encode:
  assumes "0 < n" "w < 64"
  shows "decodeContinuation n v (char_of (0x80 + w) # bs) = decodeContinuation (n - 1) (64 * v + w) bs"
  using offset_div_mod [of w 64 2] assms
  by (cases n) (simp_all add: decodeContinuation_Cons of_char_char_of_small del: of_char_mod_256 decodeContinuation.simps)

lemma decode_encode:
  assumes "is_scalar cp"
  shows "decodeCodePoint (utf8_encode cp @ rest) = Some (cp, rest)"
proof -
  have parts: "cp div 4096 = cp div 64 div 64" "cp div 262144 = cp div 64 div 64 div 64"
    by (simp_all add: div_mult2_eq [symmetric])
  have two: "64 * (cp div 64) + cp mod 64 = cp"
    and "64 * (cp div 64 div 64) + cp div 64 mod 64 = cp div 64"
    and "64 * (cp div 64 div 64 div 64) + cp div 64 div 64 mod 64 = cp div 64 div 64"
    by (rule mult_div_mod_eq)+
  then have three: "4096 * (cp div 64 div 64) + 64 * (cp div 64 mod 64) + cp mod 64 = cp"
    and four: "262144 * (cp div 64 div 64 div 64) + 4096 * (cp div 64 div 64 mod 64)
      + 64 * (cp div 64 mod 64) + cp mod 64 = cp"
    by linarith+
  consider "cp < 0x80" | "0x80 \<le> cp" "cp < 0x800" | "0x800 \<le> cp" "cp < 0x10000"
    | "0x10000 \<le> cp" "cp \<le> 0x10FFFF"
    using assms unfolding is_scalar_def by linarith
  then show ?thesis
  proof cases
    case 1
    then show ?thesis by (simp add: utf8_encode_def)
  next
    case 2
    then have "cp div 64 < 32"
      by (simp add: div_less_iff_less_mult)
    then show ?thesis
      using 2 assms
      by (simp add: utf8_encode_def Let_def decodeLead_encode decodeContinuation_encode is_scalar_def)
  next
    case 3
    then have "cp div 4096 < 16"
      by (simp add: div_less_iff_less_mult)
    then show ?thesis
      using 3 assms
      by (simp add: utf8_encode_def Let_def decodeLead_encode decodeContinuation_encode parts is_scalar_def three)
  next
    case 4
    then have "cp div 262144 < 8"
      by (simp add: div_less_iff_less_mult)
    then show ?thesis
      using 4 assms
      by (simp add: utf8_encode_def Let_def decodeLead_encode decodeContinuation_encode parts is_scalar_def four)
  qed
qed

lemma decodeContinuation_Some:
  assumes "decodeContinuation n v bs = Some r" "0 < n"
  shows "\<exists>w bs'. w < 64 \<and> bs = char_of (0x80 + w) # bs'
    \<and> decodeContinuation (n - 1) (64 * v + w) bs' = Some r"
proof (cases bs)
  case Nil
  then show ?thesis
    using assms by (cases n) simp_all
next
  case (Cons c bs')
  then have k: "(of_char c :: nat) div 64 = 2"
    and r: "decodeContinuation (n - 1) (64 * v + of_char c mod 64) bs' = Some r"
    using assms by (cases n; auto simp: decodeContinuation_Cons split: if_splits)+
  have "(of_char c :: nat) = 64 * 2 + of_char c mod 64"
    using k mult_div_mod_eq [of 64 "of_char c :: nat"] by simp
  then have "c = char_of (0x80 + of_char c mod 64 :: nat)"
    by (metis char_of_eqI mult_2_right numeral_Bit0)
  then show ?thesis
    using r Cons by (intro exI [of _ "of_char c mod 64"]) simp
qed

lemma div_eq_split: "(k :: nat) div m = q \<Longrightarrow> k = m * q + k mod m"
  by (metis mult_div_mod_eq)

lemma decodeLead_Some:
  assumes "k < 256" "decodeLead k = Some (e, v)"
  shows "(e = 1 \<and> v < 32 \<and> k = 0xC0 + v) \<or> (e = 2 \<and> v < 16 \<and> k = 0xE0 + v) \<or> (e = 3 \<and> v < 8 \<and> k = 0xF0 + v)"
proof -
  have "k div 32 = 6 \<Longrightarrow> k = 0xC0 + k mod 32" "k div 16 = 14 \<Longrightarrow> k = 0xE0 + k mod 16"
    "k div 8 = 30 \<Longrightarrow> k = 0xF0 + k mod 8"
    using div_eq_split [of k 32 6] div_eq_split [of k 16 14] div_eq_split [of k 8 30] by simp_all
  then show ?thesis
    using assms by (auto simp: decodeLead_arith split: if_splits)
qed

lemma encode_three:
  assumes "v < 16" "w < 64" "w' < 64" "cp = 64 * (64 * v + w) + w'" "\<not> cp < 0x800"
  shows "utf8_encode cp = [char_of (0xE0 + v), char_of (0x80 + w), char_of (0x80 + w')]"
proof -
  have "cp div 64 = 64 * v + w" "cp mod 64 = w'"
    unfolding assms(4) by (rule offset_div_mod [OF assms(3)])+
  moreover have "(64 * v + w) div 64 = v" "(64 * v + w) mod 64 = w"
    by (rule offset_div_mod [OF assms(2)])+
  moreover have "cp div 4096 = cp div 64 div 64"
    by (simp add: div_mult2_eq [symmetric])
  moreover have "cp < 0x10000"
    using assms by simp
  ultimately show ?thesis
    using assms(5) by (simp add: utf8_encode_def)
qed

lemma encode_four:
  assumes "w < 64" "w' < 64" "w'' < 64" "cp = 64 * (64 * (64 * v + w) + w') + w''"
    "\<not> cp < 0x10000"
  shows "utf8_encode cp = [char_of (0xF0 + v), char_of (0x80 + w), char_of (0x80 + w'), char_of (0x80 + w'')]"
proof -
  let ?a = "64 * v + w"
  have "cp div 64 = 64 * ?a + w'" "cp mod 64 = w''"
    unfolding assms(4) by (rule offset_div_mod [OF assms(3)])+
  moreover have "(64 * ?a + w') div 64 = ?a" "(64 * ?a + w') mod 64 = w'"
    by (rule offset_div_mod [OF assms(2)])+
  moreover have "?a div 64 = v" "?a mod 64 = w"
    by (rule offset_div_mod [OF assms(1)])+
  moreover have "cp div 4096 = cp div 64 div 64" "cp div 262144 = cp div 64 div 64 div 64"
    by (simp_all add: div_mult2_eq [symmetric])
  ultimately show ?thesis
    using assms(5) by (simp add: utf8_encode_def)
qed

text \<open>A lead byte and the continuations after it are the encoding of what they decode to.\<close>

lemma encode_decode_two:
  assumes "decodeContinuation 1 v bs = Some cp" and "v < 32" and "\<not> cp < 0x80"
  shows "char_of (0xC0 + v) # bs = utf8_encode cp @ drop 1 bs"
proof -
  obtain w bs1 where "w < 64" "bs = char_of (0x80 + w) # bs1" "cp = 64 * v + w"
    using decodeContinuation_Some [OF assms(1)] by auto
  then show ?thesis using assms(2,3) by (simp add: utf8_encode_def)
qed

lemma encode_decode_three:
  assumes "decodeContinuation 2 v bs = Some cp" and "v < 16" and "\<not> cp < 0x800"
  shows "char_of (0xE0 + v) # bs = utf8_encode cp @ drop 2 bs"
proof -
  obtain w bs1 where 1: "w < 64" "bs = char_of (0x80 + w) # bs1" "decodeContinuation 1 (64 * v + w) bs1 = Some cp"
    using decodeContinuation_Some [OF assms(1)] by auto
  obtain w' bs2 where "w' < 64" "bs1 = char_of (0x80 + w') # bs2" "cp = 64 * (64 * v + w) + w'"
    using decodeContinuation_Some [OF 1(3)] by auto
  with 1 show ?thesis using assms(2,3) by (simp add: encode_three)
qed

lemma encode_decode_four:
  assumes "decodeContinuation 3 v bs = Some cp" and "\<not> cp < 0x10000"
  shows "char_of (0xF0 + v) # bs = utf8_encode cp @ drop 3 bs"
proof -
  obtain w bs1 where 1: "w < 64" "bs = char_of (0x80 + w) # bs1" "decodeContinuation 2 (64 * v + w) bs1 = Some cp"
    using decodeContinuation_Some [OF assms(1)] by auto
  then obtain w' bs2 where 2: "w' < 64" "bs1 = char_of (0x80 + w') # bs2"
    "decodeContinuation 1 (64 * (64 * v + w) + w') bs2 = Some cp"
    using decodeContinuation_Some [OF 1(3)] by auto
  obtain w'' bs3 where "w'' < 64" "bs2 = char_of (0x80 + w'') # bs3" "cp = 64 * (64 * (64 * v + w) + w') + w''"
    using decodeContinuation_Some [OF 2(3)] by auto
  with 1 2 show ?thesis using assms(2) by (simp add: encode_four)
qed

lemma encode_decode:
  assumes "decodeCodePoint bs = Some (cp, rest)"
  shows "is_scalar cp \<and> bs = utf8_encode cp @ rest"
proof (cases bs)
  case Nil
  then show ?thesis
    using assms by simp
next
  case (Cons c bs')
  show ?thesis
  proof (cases "(of_char c :: nat) < 0x80")
    case True
    then show ?thesis
      using assms Cons by (auto simp: is_scalar_def utf8_encode_def)
  next
    case False
    then obtain e v where lead: "decodeLead (of_char c) = Some (e, v)"
      and cont: "decodeContinuation e v bs' = Some cp" and rest: "rest = drop e bs'"
      and range: "\<not> (e = 1 \<and> cp < 0x80)" "\<not> (e = 2 \<and> cp < 0x800)" "\<not> (e = 3 \<and> cp < 0x10000)"
        "is_scalar cp"
      using assms Cons by (auto simp: Let_def is_scalar_def split: option.splits if_splits prod.splits)
    have "c # bs' = utf8_encode cp @ drop e bs'"
      using decodeLead_Some [OF byte_bound lead] cont range
        encode_decode_two [of v bs' cp] encode_decode_three [of v bs' cp] encode_decode_four [of v bs' cp]
      by (auto dest!: char_of_eqI)
    then show ?thesis using range(4) rest Cons by simp
  qed
qed

lemma decodeCodePoint_iff:
  "decodeCodePoint bs = Some (cp, rest) \<longleftrightarrow> is_scalar cp \<and> bs = utf8_encode cp @ rest"
  using decode_encode encode_decode by blast

definition utf8_text :: "nat list \<Rightarrow> bytes" where
  "utf8_text cps = concat (map utf8_encode cps)"

lemma utf8_text_simps [simp]:
  "utf8_text [] = []" "utf8_text (cp # cps) = utf8_encode cp @ utf8_text cps"
  by (simp_all add: utf8_text_def)

lemma utf8_encode_not_Nil [simp]: "utf8_encode cp \<noteq> []"
  by (simp add: utf8_encode_def)

lemma utf8Valid_iff:
  "utf8Valid bs \<longleftrightarrow> (\<exists>cps. list_all is_scalar cps \<and> bs = utf8_text cps)"
proof (induction bs rule: utf8Valid.induct)
  case (1 bs)
  show ?case
  proof (cases "decodeCodePoint bs")
    case None
    have "bs \<noteq> utf8_text (cp # cps)" if "is_scalar cp" for cp cps
      using None decode_encode [OF that, of "utf8_text cps"] by auto
    then have "bs = utf8_text cps \<longleftrightarrow> bs = [] \<and> cps = []" if "list_all is_scalar cps" for cps
      using that by (cases cps) auto
    then show ?thesis
      using None by (subst utf8Valid.simps) (auto intro: exI [of _ "[]"])
  next
    case (Some p)
    then obtain cp rest where p: "p = (cp, rest)" and cp: "is_scalar cp" and bs: "bs = utf8_encode cp @ rest"
      by (cases p) (auto simp: decodeCodePoint_iff)
    have *: "list_all is_scalar cps \<and> bs = utf8_text cps \<longleftrightarrow>
        (\<exists>cps'. cps = cp # cps' \<and> list_all is_scalar cps' \<and> rest = utf8_text cps')" for cps
    proof (cases cps)
      case Nil
      then show ?thesis using bs by simp
    next
      case (Cons c cps')
      have "bs = utf8_encode c @ utf8_text cps' \<longleftrightarrow> c = cp \<and> rest = utf8_text cps'" if "is_scalar c"
        using decode_encode [OF that, of "utf8_text cps'"] Some p bs
        by (metis option.inject prod.inject)
      then show ?thesis
        using Cons cp by auto
    qed
    have "bs \<noteq> []"
      using bs by simp
    then have "utf8Valid bs = utf8Valid rest"
      using Some p by (subst utf8Valid.simps) simp
    also have "\<dots> = (\<exists>cps. list_all is_scalar cps \<and> rest = utf8_text cps)"
      using 1 [OF \<open>bs \<noteq> []\<close> Some, of cp rest] p by simp
    finally show ?thesis
      using * by auto
  qed
qed

lemma utf8Valid_ascii:
  assumes "list_all (\<lambda>c. (of_char c :: nat) < 128) s"
  shows "utf8Valid s"
proof -
  have "list_all is_scalar (map of_char s) \<and> s = utf8_text (map of_char s)"
    using assms by (induction s) (auto simp: is_scalar_def utf8_encode_def)
  then show ?thesis
    using utf8Valid_iff by blast
qed

section \<open>The member order is the order of UTF-16 code units\<close>

definition utf16_encode :: "nat \<Rightarrow> nat list" where
  "utf16_encode cp =
     (if cp < 0x10000 then [cp]
      else [0xD800 + (cp - 0x10000) div 1024, 0xDC00 + (cp - 0x10000) mod 1024])"

definition utf16_text :: "nat list \<Rightarrow> nat list" where
  "utf16_text cps = concat (map utf16_encode cps)"

lemma utf16_text_simps [simp]:
  "utf16_text [] = []" "utf16_text (cp # cps) = utf16_encode cp @ utf16_text cps"
  by (simp_all add: utf16_text_def)

lemma utf16_encode_not_Nil [simp]: "utf16_encode cp \<noteq> []"
  by (simp add: utf16_encode_def)

lemma utf16_text_Nil_iff [simp]: "utf16_text cps = [] \<longleftrightarrow> cps = []" "[] = utf16_text cps \<longleftrightarrow> cps = []"
  by (cases cps; simp)+

lemma utf16_encode_prefix:
  assumes "is_scalar c" "is_scalar d" "utf16_encode c @ us = utf16_encode d @ vs"
  shows "c = d \<and> us = vs"
proof -
  have pair: "c = d" if "(c - 0x10000) div 1024 = (d - 0x10000) div 1024"
    "(c - 0x10000) mod 1024 = (d - 0x10000) mod 1024" "0x10000 \<le> c" "0x10000 \<le> d"
  proof -
    have "c - 0x10000 = d - 0x10000"
      using that(1,2) by (metis mult_div_mod_eq)
    then show ?thesis
      using that(3,4) by linarith
  qed
  have high: "(x - 0x10000) div 1024 < 1024" if "is_scalar x" for x
    using that by (auto simp: is_scalar_def div_less_iff_less_mult)
  show ?thesis
    using assms pair high [OF assms(1)] high [OF assms(2)]
    by (auto simp: utf16_encode_def is_scalar_def split: if_splits)
qed

lemma utf16_text_inj:
  "list_all is_scalar cs \<Longrightarrow> list_all is_scalar ds \<Longrightarrow> utf16_text cs = utf16_text ds \<Longrightarrow> cs = ds"
proof (induction cs arbitrary: ds)
  case Nil
  then show ?case by simp
next
  case (Cons c cs)
  show ?case
  proof (cases ds)
    case Nil
    then show ?thesis
      using Cons.prems by simp
  next
    case (Cons d ds')
    then have *: "is_scalar c" "is_scalar d" "list_all is_scalar cs" "list_all is_scalar ds'"
      "utf16_encode c @ utf16_text cs = utf16_encode d @ utf16_text ds'"
      using Cons.prems by auto
    then show ?thesis
      using Cons.IH [OF *(3,4)] utf16_encode_prefix [OF *(1,2,5)] \<open>ds = d # ds'\<close> by simp
  qed
qed

text \<open>The units still to come at a loop head: the pending low surrogate, then the rest.\<close>

definition units_ahead :: "nat \<Rightarrow> nat list \<Rightarrow> nat list" where
  "units_ahead pending cps = (if pending = 0 then [] else [pending]) @ utf16_text cps"

lemma nextCodeUnit_units:
  assumes "list_all is_scalar cps" "\<not> (cps = [] \<and> pending = 0)"
  obtains unit cps' pending' where
    "nextCodeUnit (utf8_text cps) pending = Some (unit, utf8_text cps', pending')"
    "list_all is_scalar cps'" "units_ahead pending cps = unit # units_ahead pending' cps'"
proof (cases "pending = 0")
  case False
  then show thesis
    using that [of pending cps 0] assms(1) by (simp add: nextCodeUnit.simps units_ahead_def)
next
  case True
  then obtain cp cps' where cps: "cps = cp # cps'"
    using assms(2) by (auto simp: neq_Nil_conv)
  then have "decodeCodePoint (utf8_text cps) = Some (cp, utf8_text cps')"
    using assms(1) decode_encode by simp
  then show thesis
    using assms(1) True cps
      that [of cp cps' 0]
      that [of "0xD800 + (cp - 0x10000) div 1024" cps' "0xDC00 + (cp - 0x10000) mod 1024"]
    by (cases "cp < 0x10000")
      (simp_all add: nextCodeUnit.simps units_ahead_def utf16_encode_def Let_def and_masks drop_bit_eq_div)
qed

lemma jcsLoop_units:
  assumes "list_all is_scalar cs" "list_all is_scalar ds"
  shows "jcsLoop f (utf8_text cs) p (utf8_text ds) q \<longleftrightarrow> units_ahead p cs < units_ahead q ds"
  using assms
proof (induction "unit_measure (utf8_text cs) p" arbitrary: cs ds p q rule: less_induct)
  case less
  have done_iff: "utf8_text xs = [] \<and> r = 0 \<longleftrightarrow> units_ahead r xs = []" for xs r
    by (cases xs; simp add: units_ahead_def utf16_encode_def)
  show ?case
  proof (cases "units_ahead p cs = [] \<or> units_ahead q ds = []")
    case True
    then show ?thesis
      by (subst jcsLoop.simps) (cases "units_ahead q ds", auto simp: Let_def done_iff)
  next
    case False
    then have "\<not> (cs = [] \<and> p = 0)" "\<not> (ds = [] \<and> q = 0)"
      by (auto simp: units_ahead_def split: if_splits)
    then obtain u cs' p' v ds' q' where
      l: "nextCodeUnit (utf8_text cs) p = Some (u, utf8_text cs', p')" "list_all is_scalar cs'"
        "units_ahead p cs = u # units_ahead p' cs'" and
      r: "nextCodeUnit (utf8_text ds) q = Some (v, utf8_text ds', q')" "list_all is_scalar ds'"
        "units_ahead q ds = v # units_ahead q' ds'"
      using less.prems by (metis nextCodeUnit_units)
    have "jcsLoop f (utf8_text cs') p' (utf8_text ds') q' \<longleftrightarrow> units_ahead p' cs' < units_ahead q' ds'"
      using less.hyps [OF nextCodeUnit_measure [OF l(1)] l(2) r(2)] .
    then show ?thesis
      using False l r by (subst jcsLoop.simps) (auto simp: Let_def done_iff)
  qed
qed

lemma jcsKeyLess_units:
  assumes "list_all is_scalar cs" "list_all is_scalar ds"
  shows "jcsKeyLess (utf8_text cs) (utf8_text ds) \<longleftrightarrow> utf16_text cs < utf16_text ds"
  using jcsLoop_units [OF assms] by (simp add: jcsKeyLess_def units_ahead_def)

interpretation jcs: key_order jcsKeyLess utf8Valid
proof unfold_locales
  show "\<not> jcsKeyLess a a" if "utf8Valid a" for a
    using that by (auto simp: utf8Valid_iff jcsKeyLess_units)
  show "jcsKeyLess a c" if "utf8Valid a" "utf8Valid b" "utf8Valid c" "jcsKeyLess a b" "jcsKeyLess b c" for a b c
    using that by (auto simp: utf8Valid_iff jcsKeyLess_units)
  show "jcsKeyLess a b \<or> jcsKeyLess b a" if v: "utf8Valid a" "utf8Valid b" "a \<noteq> b" for a b
  proof -
    obtain cs ds where "list_all is_scalar cs" "a = utf8_text cs" "list_all is_scalar ds" "b = utf8_text ds"
      using v by (auto simp: utf8Valid_iff)
    then show ?thesis
      using v(3) utf16_text_inj [of cs ds] linorder_neqE [of "utf16_text cs" "utf16_text ds"]
      by (auto simp: jcsKeyLess_units)
  qed
qed

section \<open>The order as the specification states it\<close>

text \<open>
  On the UTF-8 of any two sequences of Unicode scalar values the member order is exactly the
  lexicographic order of their UTF-16 code units (RFC 8785), and it orders any two different
  sequences one way or the other.
\<close>

theorem jcs_order_is_utf16_order:
  assumes "list_all is_scalar cs" and "list_all is_scalar ds"
  shows "(jcsKeyLess (utf8_text cs) (utf8_text ds) \<longleftrightarrow> utf16_text cs < utf16_text ds)
    \<and> (jcsKeyLess (utf8_text cs) (utf8_text ds) \<or> jcsKeyLess (utf8_text ds) (utf8_text cs) \<longleftrightarrow> cs \<noteq> ds)"
  using assms utf16_text_inj [OF assms] linorder_neqE [of "utf16_text cs" "utf16_text ds"]
  by (auto simp: jcsKeyLess_units)

theorem jcs_order_is_utf16_order_witness:
  "jcsKeyLess (utf8_text [0x1F600]) (utf8_text [0xE000])"
proof -
  have "jcsKeyLess (utf8_text [0x1F600]) (utf8_text [0xE000]) \<longleftrightarrow> utf16_text [0x1F600] < utf16_text [0xE000]"
    by (rule conjunct1 [OF jcs_order_is_utf16_order]) (simp_all add: is_scalar_def)
  then show ?thesis
    by (simp add: utf16_encode_def)
qed

lemma decodeContinuation_step:
  "0 < n \<Longrightarrow> decodeContinuation n v (c # bs) =
     (if (of_char c :: nat) AND 0xC0 \<noteq> 0x80 then None
      else decodeContinuation (n - 1) (push_bit 6 v OR (of_char c AND 0x3F)) bs)"
  by (cases n) (simp_all add: decodeContinuation.simps)

lemmas jcs_eval = jcsKeyLess_def jcsLoop.simps nextCodeUnit.simps Let_def decodeLead_def
  decodeContinuation_step less_char_def

text \<open>
  The fallback for undecodable text does not keep the order total: U+10000, U+E000 and the
  lone byte \<open>EF\<close> compare in a cycle.
\<close>

theorem jcs_order_cycle_on_raw_bytes:
  "jcsKeyLess [CHR 0xF0, CHR 0x90, CHR 0x80, CHR 0x80] [CHR 0xEE, CHR 0x80, CHR 0x80]
   \<and> jcsKeyLess [CHR 0xEE, CHR 0x80, CHR 0x80] [CHR 0xEF]
   \<and> jcsKeyLess [CHR 0xEF] [CHR 0xF0, CHR 0x90, CHR 0x80, CHR 0x80]"
  by (simp add: jcs_eval)

end
