(* ===== verification/Simdjson.thy ===== *)
theory Simdjson
  imports Prelude
begin

text \<open>
  What the three JSON readers of the repository observe of the \<open>simdjson\<close> on-demand API.  The
  library itself is third-party code and stays a parameter (a function from bytes to
  \<open>sj_document\<close>); these types only list the answers its calls can give to the readers, in
  the order the readers ask: the type of a value, then the object, array, token, string or
  boolean behind it, and for every step of an iteration either an error text or the next child.
\<close>

datatype sj_value =
    SjUnreadable string        \<comment> \<open>\<open>value.type()\<close> reports an error\<close>
  | SjObject "sj_field list"
  | SjObjectRefused            \<comment> \<open>\<open>get_object\<close> reports an error\<close>
  | SjArray "sj_element list"
  | SjArrayRefused
  | SjNumber string            \<comment> \<open>\<open>raw_json_token\<close>\<close>
  | SjString string            \<comment> \<open>the unescaped text\<close>
  | SjStringRefused string
  | SjBool bool
  | SjBoolRefused
  | SjNull
  | SjUnknown
and sj_field =
    SjField string sj_value    \<comment> \<open>unescaped key and value\<close>
  | SjKeyError string
  | SjValueError string string \<comment> \<open>unescaped key, then an error for the value\<close>
and sj_element =
    SjElement sj_value
  | SjElementError string

datatype sj_document =
    SjNotJson string           \<comment> \<open>\<open>parser.iterate\<close> reports an error\<close>
  | SjNoRoot string            \<comment> \<open>\<open>document.get_value\<close> reports an error\<close>
  | SjDocument sj_value bool   \<comment> \<open>the root, and what \<open>at_end\<close> answers after it was read\<close>

end
