(* ===== verification/Escaping.thy ===== *)
theory Escaping
  imports Numbers
begin

text \<open>
  Quoted text.  Several writers of the repository put a text between quotation marks after
  escaping its characters one by one.  The locale states what such an escaping must promise for the
  quoted text to be readable again; what follows from it is that quoted texts form a prefix code,
  which the round trips of the writers rest on.
\<close>

locale text_escape =
  fixes esc :: "char \<Rightarrow> string"
    and next_char :: "string \<Rightarrow> (char \<times> string) option"
  assumes next_esc: "next_char (esc c @ rest) = Some (c, rest)"
    and next_quote: "next_char (CHR 0x22 # rest) = None"
begin

definition quoted :: "string \<Rightarrow> string" where
  "quoted s = CHR 0x22 # concat (map esc s) @ [CHR 0x22]"

lemma escaped_prefix:
  "concat (map esc s) @ CHR 0x22 # r = concat (map esc t) @ CHR 0x22 # r' \<Longrightarrow> s = t \<and> r = r'"
proof (induction s arbitrary: t)
  case Nil
  then show ?case
  proof (cases t)
    case (Cons d ds)
    have "next_char (CHR 0x22 # r) = Some (d, concat (map esc ds) @ CHR 0x22 # r')"
      using Nil Cons next_esc [of d] by simp
    then show ?thesis by (simp add: next_quote)
  qed simp
next
  case (Cons c s)
  note prems = Cons.prems
  show ?case
  proof (cases t)
    case Nil
    have "next_char (CHR 0x22 # r') = Some (c, concat (map esc s) @ CHR 0x22 # r)"
      using prems Nil next_esc [of c, symmetric] by simp
    then show ?thesis by (simp add: next_quote)
  next
    case (Cons d ds)
    have "Some (c, concat (map esc s) @ CHR 0x22 # r) = Some (d, concat (map esc ds) @ CHR 0x22 # r')"
      using prems Cons next_esc [of c] next_esc [of d] by (metis append_assoc concat.simps(2) list.simps(9))
    then show ?thesis
      using Cons.IH [of ds] Cons by simp
  qed
qed

lemma quoted_prefix: "quoted s @ r = quoted t @ r' \<Longrightarrow> s = t \<and> r = r'"
  using escaped_prefix [of s r t r'] by (simp add: quoted_def)

end

section \<open>The escaping of JSON text with its short forms\<close>

definition json_escape :: "char \<Rightarrow> string" where
  "json_escape c =
     (if c = CHR 0x22 then [CHR 0x5C, CHR 0x22]
      else if c = CHR 0x5C then [CHR 0x5C, CHR 0x5C]
      else if c = CHR 0x08 then [CHR 0x5C, CHR ''b'']
      else if c = CHR 0x09 then [CHR 0x5C, CHR ''t'']
      else if c = CHR 0x0A then [CHR 0x5C, CHR ''n'']
      else if c = CHR 0x0C then [CHR 0x5C, CHR ''f'']
      else if c = CHR 0x0D then [CHR 0x5C, CHR ''r'']
      else if (of_char c :: nat) < 0x20
      then CHR 0x5C # ''u00'' @ [hex_char (of_char c div 16), hex_char (of_char c mod 16)]
      else [c])"

fun unescape :: "string \<Rightarrow> (char \<times> string) option" where
  "unescape [] = None"
| "unescape (c # cs) =
     (if c = CHR 0x22 then None
      else if c \<noteq> CHR 0x5C then Some (c, cs)
      else case cs of
        [] \<Rightarrow> None
      | e # rest \<Rightarrow>
          if e = CHR ''b'' then Some (CHR 0x08, rest)
          else if e = CHR ''t'' then Some (CHR 0x09, rest)
          else if e = CHR ''n'' then Some (CHR 0x0A, rest)
          else if e = CHR ''f'' then Some (CHR 0x0C, rest)
          else if e = CHR ''r'' then Some (CHR 0x0D, rest)
          else if e = CHR ''u''
          then (case (hex_value (rest ! 2), hex_value (rest ! 3)) of
                  (Some h, Some l) \<Rightarrow> Some (char_of (16 * h + l), drop 4 rest)
                | _ \<Rightarrow> None)
          else Some (e, rest))"

lemma unescape_escape: "unescape (json_escape c @ rest) = Some (c, rest)"
proof -
  have "char_of (16 * (of_char c div 16) + of_char c mod 16 :: nat) = c"
    by simp
  moreover have "(of_char c :: nat) div 16 < 16"
    by (simp add: div_less_iff_less_mult)
  ultimately show ?thesis
    by (auto simp: json_escape_def)
qed

interpretation json_text: text_escape json_escape unescape
  by unfold_locales (simp_all add: unescape_escape)

lemma control_codes:
  "(of_char c :: nat) = 8 \<longleftrightarrow> c = CHR 0x08" "(of_char c :: nat) = 9 \<longleftrightarrow> c = CHR 0x09"
  "(of_char c :: nat) = 10 \<longleftrightarrow> c = CHR 0x0A" "(of_char c :: nat) = 12 \<longleftrightarrow> c = CHR 0x0C"
  "(of_char c :: nat) = 13 \<longleftrightarrow> c = CHR 0x0D"
  using of_char_eq_iff [of c "CHR 0x08"] of_char_eq_iff [of c "CHR 0x09"]
    of_char_eq_iff [of c "CHR 0x0A"] of_char_eq_iff [of c "CHR 0x0C"] of_char_eq_iff [of c "CHR 0x0D"]
  by simp_all

lemma high_nibble: "(of_char c :: nat) div 16 mod 16 = of_char c div 16"
  by (simp add: div_less_iff_less_mult)

end
