(* ===== verification/Evidence_Json.thy ===== *)
theory Evidence_Json
  imports Evidence_Utf Simdjson Escaping
begin

text \<open>
  \<open>tools/rf_evidence/src/canonical_json.{h,cpp}\<close>: the accepted JSON subset of the evidence
  records, its strict parser, its canonical writer and the ingest gate that compares the two.
  The on-demand parser is the parameter \<open>iterate\<close>; see theory Simdjson.
\<close>

section \<open>Failures and values\<close>

datatype RecordRejection =
    RecMalformedInput | RecNoncanonicalBytes | RecSchemaInvalid | RecDescriptorMismatch | RecLimitExceeded

fun recordRejectionName :: "RecordRejection \<Rightarrow> string" where
  "recordRejectionName RecMalformedInput = ''malformed_input''"
| "recordRejectionName RecNoncanonicalBytes = ''noncanonical_bytes''"
| "recordRejectionName RecSchemaInvalid = ''schema_invalid''"
| "recordRejectionName RecDescriptorMismatch = ''descriptor_mismatch''"
| "recordRejectionName RecLimitExceeded = ''limit_exceeded''"

record RecordFailure =
  rf_rejection :: RecordRejection
  rf_detail :: string

type_synonym 'a RecordResult = "RecordFailure + 'a"
type_synonym RecordStatus = "RecordFailure + unit"

definition reject :: "RecordRejection \<Rightarrow> string \<Rightarrow> 'a RecordResult" where
  "reject rejection detail = Inl \<lparr>rf_rejection = rejection, rf_detail = detail\<rparr>"

lemma reject_simps [simp]: "reject r d \<noteq> Inr x" "Inr x \<noteq> reject r d" "\<not> is_ok (reject r d)"
  by (simp_all add: reject_def)

lemma reject_bind [simp]: "rbind (reject r d) f = reject r d"
  by (simp add: reject_def)

definition kMaximumRecordBytes :: nat where "kMaximumRecordBytes = 1048576"
definition kMaximumRecordDepth :: nat where "kMaximumRecordDepth = 32"
definition kMaximumRecordNodes :: nat where "kMaximumRecordNodes = 65536"
definition kMaximumRecordStringBytes :: nat where "kMaximumRecordStringBytes = 4096"
definition kMaximumRecordMembers :: nat where "kMaximumRecordMembers = 4096"
definition kSafeIntegerBound :: int where "kSafeIntegerBound = 9007199254740991"

datatype CanonicalValue =
    CNull
  | CBoolean bool
  | CInteger int
  | CString bytes
  | CArray "CanonicalValue list"
  | CObject "(bytes \<times> CanonicalValue) list"

type_synonym Member = "bytes \<times> CanonicalValue"

text \<open>Every accessor of the class answers, whatever the kind: an unset field has its default.\<close>

datatype Kind = KNull | KBoolean | KInteger | KString | KArray | KObject

fun value_kind :: "CanonicalValue \<Rightarrow> Kind" where
  "value_kind CNull = KNull" | "value_kind (CBoolean b) = KBoolean" | "value_kind (CInteger i) = KInteger"
| "value_kind (CString t) = KString" | "value_kind (CArray xs) = KArray" | "value_kind (CObject ms) = KObject"

fun value_boolean :: "CanonicalValue \<Rightarrow> bool" where
  "value_boolean (CBoolean b) = b" | "value_boolean _ = False"
fun value_integer :: "CanonicalValue \<Rightarrow> int" where
  "value_integer (CInteger i) = i" | "value_integer _ = 0"
fun value_text :: "CanonicalValue \<Rightarrow> bytes" where
  "value_text (CString t) = t" | "value_text _ = []"
fun value_elements :: "CanonicalValue \<Rightarrow> CanonicalValue list" where
  "value_elements (CArray xs) = xs" | "value_elements _ = []"
fun value_members :: "CanonicalValue \<Rightarrow> Member list" where
  "value_members (CObject ms) = ms" | "value_members _ = []"

definition makeObject :: "Member list \<Rightarrow> CanonicalValue" where
  "makeObject members = CObject (sort_by (\<lambda>left right. jcsKeyLess (fst left) (fst right)) members)"

definition find_member :: "CanonicalValue \<Rightarrow> bytes \<Rightarrow> CanonicalValue option" where
  "find_member v name =
     (case lower_bound_from (\<lambda>m. jcsKeyLess (fst m) name) (value_members v) of
        [] \<Rightarrow> None
      | kFound # _ \<Rightarrow> if fst kFound \<noteq> name then None else Some (snd kFound))"

section \<open>Numbers\<close>

fun integerTokenLoop :: "bytes \<Rightarrow> bytes \<Rightarrow> RecordStatus" where
  "integerTokenLoop token [] = Inr ()"
| "integerTokenLoop token (c # cs) =
     (if c = CHR ''.'' then reject RecMalformedInput (''numeric token carries a fraction: '' @ token)
      else if c = CHR ''e'' \<or> c = CHR ''E''
      then reject RecMalformedInput (''numeric token carries an exponent: '' @ token)
      else if c < CHR ''0'' \<or> CHR ''9'' < c
      then reject RecMalformedInput (''numeric token is not an integer: '' @ token)
      else integerTokenLoop token cs)"

definition checkIntegerToken :: "bytes \<Rightarrow> RecordStatus" where
  "checkIntegerToken token =
     (if token = [] then reject RecMalformedInput ''empty numeric token''
      else let kFirstDigit = (if hd token = CHR ''-'' then 1 else 0);
               kDigits = drop kFirstDigit token
      in if hd token = CHR ''-'' \<and> length token = 1
      then reject RecMalformedInput ''numeric token is a bare minus sign''
      else if hd kDigits = CHR ''+''
      then reject RecMalformedInput (''numeric token carries a leading plus: '' @ token)
      else rbind (integerTokenLoop token kDigits) (\<lambda>_.
        if 1 < length kDigits \<and> hd kDigits = CHR ''0''
        then reject RecMalformedInput (''numeric token has a leading zero: '' @ token)
        else if kFirstDigit = 1 \<and> kDigits = ''0''
        then reject RecMalformedInput ''numeric token is negative zero''
        else Inr ()))"

definition token_padding :: "char \<Rightarrow> bool" where
  "token_padding c \<longleftrightarrow> c \<in> {CHR '' '', CHR 0x09, CHR 0x0A, CHR 0x0D, CHR '','', CHR ''}'', CHR '']''}"

definition trim_token :: "bytes \<Rightarrow> bytes" where
  "trim_token token = rev (dropWhile token_padding (rev token))"

definition parseNumber :: "bytes \<Rightarrow> CanonicalValue RecordResult" where
  "parseNumber raw_json_token =
     (let token = trim_token raw_json_token
      in rbind (checkIntegerToken token) (\<lambda>_.
        case from_chars_i64 token of
          None \<Rightarrow> reject RecMalformedInput (''numeric token does not fit an integer: '' @ token)
        | Some parsed \<Rightarrow>
            if kSafeIntegerBound < parsed \<or> parsed < - kSafeIntegerBound
            then reject RecLimitExceeded (''integer outside the safe range: '' @ token)
            else Inr (CInteger parsed)))"

section \<open>The parser\<close>

definition parseString :: "string + bytes \<Rightarrow> CanonicalValue RecordResult" where
  "parseString answer =
     (case answer of
        Inl kError \<Rightarrow> reject RecMalformedInput (''string is not valid: '' @ kError)
      | Inr t \<Rightarrow>
          if kMaximumRecordStringBytes < length t
          then reject RecLimitExceeded ''string exceeds the record string limit''
          else if \<not> utf8Valid t
          then reject RecMalformedInput ''string contains malformed UTF-8 or a surrogate''
          else Inr (CString t))"

definition admitKey :: "Member list \<Rightarrow> bytes \<Rightarrow> RecordStatus" where
  "admitKey members key =
     (if kMaximumRecordStringBytes < length key
      then reject RecLimitExceeded ''member name exceeds the record string limit''
      else if \<not> utf8Valid key
      then reject RecMalformedInput ''member name contains malformed UTF-8 or a surrogate''
      else if list_ex (\<lambda>member. fst member = key) members
      then reject RecMalformedInput (''duplicate decoded member name: '' @ key)
      else if kMaximumRecordMembers \<le> length members
      then reject RecLimitExceeded ''object exceeds the record member limit''
      else Inr ())"

text \<open>
  \<open>nodes\<close> is the counter of the \<open>Parser\<close> object, threaded through the calls; \<open>parseValue\<close>
  enters with the count so far and returns it with the value.
\<close>

fun parseValue :: "nat \<Rightarrow> sj_value \<Rightarrow> nat \<Rightarrow> (CanonicalValue \<times> nat) RecordResult"
  and parseArray :: "nat \<Rightarrow> sj_element list \<Rightarrow> nat \<Rightarrow> CanonicalValue list
    \<Rightarrow> (CanonicalValue \<times> nat) RecordResult"
  and parseObject :: "nat \<Rightarrow> sj_field list \<Rightarrow> nat \<Rightarrow> Member list
    \<Rightarrow> (CanonicalValue \<times> nat) RecordResult"
where
  "parseValue nodes v depth =
     (if kMaximumRecordDepth < depth
      then reject RecLimitExceeded ''record nesting exceeds the depth limit''
      else if kMaximumRecordNodes < nodes + 1
      then reject RecLimitExceeded ''record exceeds the node limit''
      else case v of
        SjUnreadable kError \<Rightarrow> reject RecMalformedInput (''malformed value: '' @ kError)
      | SjObject fs \<Rightarrow> parseObject (nodes + 1) fs depth []
      | SjObjectRefused \<Rightarrow> reject RecMalformedInput ''malformed object''
      | SjArray es \<Rightarrow> parseArray (nodes + 1) es depth []
      | SjArrayRefused \<Rightarrow> reject RecMalformedInput ''malformed array''
      | SjNumber token \<Rightarrow> rbind (parseNumber token) (\<lambda>n. Inr (n, nodes + 1))
      | SjString t \<Rightarrow> rbind (parseString (Inr t)) (\<lambda>s. Inr (s, nodes + 1))
      | SjStringRefused kError \<Rightarrow> rbind (parseString (Inl kError)) (\<lambda>s. Inr (s, nodes + 1))
      | SjBool b \<Rightarrow> Inr (CBoolean b, nodes + 1)
      | SjBoolRefused \<Rightarrow> reject RecMalformedInput ''malformed boolean''
      | SjNull \<Rightarrow> Inr (CNull, nodes + 1)
      | SjUnknown \<Rightarrow> reject RecMalformedInput ''value is outside the accepted subset'')"
| "parseArray nodes [] depth kept = Inr (CArray kept, nodes)"
| "parseArray nodes (e # es) depth kept =
     (case e of
        SjElementError kError \<Rightarrow> reject RecMalformedInput (''malformed array element: '' @ kError)
      | SjElement child \<Rightarrow>
          rbind (parseValue nodes child (depth + 1)) (\<lambda>(parsed, nodes').
            parseArray nodes' es depth (kept @ [parsed])))"
| "parseObject nodes [] depth members = Inr (makeObject members, nodes)"
| "parseObject nodes (f # fs) depth members =
     (case f of
        SjKeyError kError \<Rightarrow> reject RecMalformedInput (''malformed member name: '' @ kError)
      | SjValueError key kError \<Rightarrow>
          rbind (admitKey members key) (\<lambda>_.
            reject RecMalformedInput (''malformed member value: '' @ kError))
      | SjField key child \<Rightarrow>
          rbind (admitKey members key) (\<lambda>_.
            rbind (parseValue nodes child (depth + 1)) (\<lambda>(parsed, nodes').
              parseObject nodes' fs depth (members @ [(key, parsed)]))))"

definition parseCanonicalSubset :: "(bytes \<Rightarrow> sj_document) \<Rightarrow> bytes \<Rightarrow> CanonicalValue RecordResult" where
  "parseCanonicalSubset iterate bytes =
     (if kMaximumRecordBytes < length bytes
      then reject RecLimitExceeded ''record exceeds the byte limit''
      else if starts_with bytes [CHR 0xEF, CHR 0xBB, CHR 0xBF]
      then reject RecMalformedInput ''record starts with a byte order mark''
      else if bytes = [] then reject RecMalformedInput ''record is empty''
      else if hd bytes \<noteq> CHR ''{''
      then reject RecMalformedInput ''record does not begin with an object''
      else if last bytes \<noteq> CHR ''}''
      then reject RecMalformedInput ''record does not end with an object''
      else case iterate bytes of
        SjNotJson kError \<Rightarrow> reject RecMalformedInput (''record is not JSON: '' @ kError)
      | SjNoRoot kError \<Rightarrow> reject RecMalformedInput (''record has no value: '' @ kError)
      | SjDocument root at_end \<Rightarrow>
          rbind (parseValue 0 root 1) (\<lambda>(parsed, nodes).
            if \<not> at_end then reject RecMalformedInput ''record carries trailing content''
            else Inr parsed))"

section \<open>The canonical writer\<close>

definition escape_char :: "char \<Rightarrow> bytes" where
  "escape_char kCharacter =
     (let kByte = (of_char kCharacter :: nat) in
      if kCharacter = CHR 0x22 then [CHR 0x5C, CHR 0x22]
      else if kCharacter = CHR 0x5C then [CHR 0x5C, CHR 0x5C]
      else if kByte = 0x08 then [CHR 0x5C, CHR ''b'']
      else if kByte = 0x09 then [CHR 0x5C, CHR ''t'']
      else if kByte = 0x0A then [CHR 0x5C, CHR ''n'']
      else if kByte = 0x0C then [CHR 0x5C, CHR ''f'']
      else if kByte = 0x0D then [CHR 0x5C, CHR ''r'']
      else if kByte < 0x20
      then CHR 0x5C # ''u00'' @ [hex_char (kByte div 16 mod 16), hex_char (kByte mod 16)]
      else [kCharacter])"

definition appendEscapedString :: "bytes \<Rightarrow> bytes" where
  "appendEscapedString s = CHR 0x22 # concat (map escape_char s) @ [CHR 0x22]"

fun separate :: "bytes list \<Rightarrow> bytes" where
  "separate [] = []"
| "separate [x] = x"
| "separate (x # y # ys) = x @ CHR '','' # separate (y # ys)"

fun appendCanonical :: "CanonicalValue \<Rightarrow> bytes" where
  "appendCanonical CNull = ''null''"
| "appendCanonical (CBoolean b) = (if b then ''true'' else ''false'')"
| "appendCanonical (CInteger i) = int_to_string i"
| "appendCanonical (CString s) = appendEscapedString s"
| "appendCanonical (CArray es) = CHR ''['' # separate (map appendCanonical es) @ '']''"
| "appendCanonical (CObject ms) =
     CHR ''{'' # separate (map (\<lambda>m. appendEscapedString (fst m) @ CHR '':'' # appendCanonical (snd m)) ms)
     @ ''}''"

definition serializeCanonical :: "CanonicalValue \<Rightarrow> bytes" where
  "serializeCanonical v = appendCanonical v"

definition ingestCanonicalBytes :: "(bytes \<Rightarrow> sj_document) \<Rightarrow> bytes \<Rightarrow> CanonicalValue RecordResult" where
  "ingestCanonicalBytes iterate claimed =
     rbind (parseCanonicalSubset iterate claimed) (\<lambda>parsed.
       if serializeCanonical parsed \<noteq> claimed
       then reject RecNoncanonicalBytes ''submitted bytes are not the canonical form of themselves''
       else Inr parsed)"

section \<open>Integer tokens\<close>

lemma is_digit_alt: "is_digit c \<longleftrightarrow> \<not> (c < CHR ''0'' \<or> CHR ''9'' < c)"
  by (auto simp: is_digit_def less_char_def)

lemma integerTokenLoop_iff: "integerTokenLoop token cs = Inr () \<longleftrightarrow> list_all is_digit cs"
proof (induction cs)
  case (Cons c cs)
  have "c = CHR ''.'' \<or> c = CHR ''e'' \<or> c = CHR ''E'' \<Longrightarrow> \<not> is_digit c"
    by (auto simp: is_digit_def)
  with Cons show ?case
    by (auto simp: is_digit_alt)
qed simp

lemma canonical_digits_iff:
  "list_all is_digit ds \<and> ds \<noteq> [] \<and> \<not> (1 < length ds \<and> hd ds = CHR ''0'') \<longleftrightarrow> (\<exists>n. ds = nat_to_string n)"
proof
  assume "list_all is_digit ds \<and> ds \<noteq> [] \<and> \<not> (1 < length ds \<and> hd ds = CHR ''0'')"
  then have "nat_to_string (digits_value ds) = ds"
    by (intro digits_value_canonical) (cases ds; auto simp: list_all_iff)+
  then show "\<exists>n. ds = nat_to_string n"
    by metis
next
  assume "\<exists>n. ds = nat_to_string n"
  then obtain n where n: "ds = nat_to_string n" ..
  have "length (nat_to_string n) = 1" if "n = 0"
    using that nat_to_string_length1 [of n] by simp
  then show "list_all is_digit ds \<and> ds \<noteq> [] \<and> \<not> (1 < length ds \<and> hd ds = CHR ''0'')"
    using n nat_to_string_hd_zero [of n] nat_to_string_digits [of n] by (auto simp: list_all_iff)
qed

lemma nat_to_string_zero_iff: "nat_to_string n = ''0'' \<longleftrightarrow> n = 0"
proof -
  have "nat_to_string 0 = ''0''"
    by (simp add: nat_to_string.simps digit_char_def char_of_eq_iff)
  then show ?thesis
    using nat_to_string_inj [of n 0] by simp
qed

lemma int_to_string_minus: "hd (int_to_string k) = CHR ''-'' \<longleftrightarrow> k < 0"
  by (simp add: int_to_string_def nat_to_string_no_minus)

lemma plus_is_no_digit: "ds \<noteq> [] \<Longrightarrow> hd ds = CHR ''+'' \<Longrightarrow> \<not> list_all is_digit ds"
  by (cases ds) (auto simp: is_digit_def)

lemma negative_text: "(\<exists>n. cs = nat_to_string n \<and> n \<noteq> 0) \<longleftrightarrow> (\<exists>k. CHR ''-'' # cs = int_to_string k)"
proof
  assume "\<exists>n. cs = nat_to_string n \<and> n \<noteq> 0"
  then obtain n where "cs = nat_to_string n" "n \<noteq> 0" by blast
  then have "CHR ''-'' # cs = int_to_string (- int n)"
    by (simp add: int_to_string_def)
  then show "\<exists>k. CHR ''-'' # cs = int_to_string k" ..
next
  assume "\<exists>k. CHR ''-'' # cs = int_to_string k"
  then obtain k where k: "CHR ''-'' # cs = int_to_string k" ..
  then have "k < 0"
    using int_to_string_minus [of k] by (metis list.sel(1))
  then have "cs = nat_to_string (nat (- k))" "nat (- k) \<noteq> 0"
    using k by (simp_all add: int_to_string_def)
  then show "\<exists>n. cs = nat_to_string n \<and> n \<noteq> 0" by blast
qed

lemma positive_text:
  assumes "hd cs \<noteq> CHR ''-''"
  shows "(\<exists>n. cs = nat_to_string n) \<longleftrightarrow> (\<exists>k. cs = int_to_string k)"
proof
  assume "\<exists>n. cs = nat_to_string n"
  then obtain n where "cs = nat_to_string n" ..
  then have "cs = int_to_string (int n)" by (simp add: int_to_string_def)
  then show "\<exists>k. cs = int_to_string k" ..
next
  assume "\<exists>k. cs = int_to_string k"
  then show "\<exists>n. cs = nat_to_string n"
    using assms by (auto simp: int_to_string_def split: if_splits)
qed

lemma checkIntegerToken_iff:
  "checkIntegerToken token = Inr () \<longleftrightarrow> (\<exists>k. token = int_to_string k)"
proof (cases token)
  case Nil
  then show ?thesis by (auto simp: checkIntegerToken_def dest: sym)
next
  case (Cons c cs)
  show ?thesis
  proof (cases "c = CHR ''-''")
    case True
    have "checkIntegerToken token = Inr () \<longleftrightarrow>
        (list_all is_digit cs \<and> cs \<noteq> [] \<and> \<not> (1 < length cs \<and> hd cs = CHR ''0'')) \<and> cs \<noteq> ''0''"
      using Cons True plus_is_no_digit [of cs]
      by (auto simp: checkIntegerToken_def Let_def rbind_Inr_iff integerTokenLoop_iff split: if_splits)
    also have "\<dots> \<longleftrightarrow> (\<exists>n. cs = nat_to_string n \<and> n \<noteq> 0)"
      unfolding canonical_digits_iff by (auto simp: nat_to_string_zero_iff)
    finally show ?thesis unfolding negative_text Cons True .
  next
    case False
    have "checkIntegerToken token = Inr () \<longleftrightarrow>
        (list_all is_digit token \<and> token \<noteq> [] \<and> \<not> (1 < length token \<and> hd token = CHR ''0''))"
      using Cons False plus_is_no_digit [of token]
      by (simp add: checkIntegerToken_def Let_def rbind_Inr_iff integerTokenLoop_iff
          del: integerTokenLoop.simps list.pred_inject)
    also have "\<dots> \<longleftrightarrow> (\<exists>n. token = nat_to_string n)"
      by (rule canonical_digits_iff)
    finally show ?thesis using positive_text [of token] Cons False by simp
  qed
qed

section \<open>Members of an object\<close>

abbreviation members_sorted :: "Member list \<Rightarrow> bool" where
  "members_sorted \<equiv> sorted_wrt (\<lambda>a b. jcsKeyLess (fst a) (fst b))"

lemma find_member_map_of:
  assumes "\<forall>m\<in>set ms. utf8Valid (fst m)" "members_sorted ms" "utf8Valid name"
  shows "find_member (CObject ms) name = map_of ms name"
  using jcs.lower_bound_find [OF assms(1,3,2)]
  by (cases "lower_bound_from (\<lambda>m. jcsKeyLess (fst m) name) ms") (auto simp: find_member_def)

lemma makeObject_sorted:
  assumes "\<forall>m\<in>set ms. utf8Valid (fst m)" "distinct (map fst ms)"
  shows "members_sorted (value_members (makeObject ms))"
  using jcs.sort_by_sorted [OF assms] by (simp add: makeObject_def)

lemma makeObject_permutation:
  assumes "mset ms = mset ns" "\<forall>m\<in>set ms. utf8Valid (fst m)" "distinct (map fst ms)"
  shows "makeObject ms = makeObject ns"
  using jcs.sort_by_permutation [OF assms] by (simp add: makeObject_def)

lemma map_of_mset: "mset ms = mset ns \<Longrightarrow> distinct (map fst ms) \<Longrightarrow> map_of ms = map_of ns"
  by (metis map_of_inject_set mset_eq_imp_distinct_iff mset_map set_mset_mset)

lemma find_makeObject:
  assumes "\<forall>m\<in>set ms. utf8Valid (fst m)" "distinct (map fst ms)" "utf8Valid name"
  shows "find_member (makeObject ms) name = map_of ms name"
proof -
  let ?sorted = "sort_by (\<lambda>left right. jcsKeyLess (fst left) (fst right)) ms"
  have "find_member (CObject ?sorted) name = map_of ?sorted name"
    using find_member_map_of [of ?sorted name] makeObject_sorted [OF assms(1,2)] assms(1,3)
    by (simp add: makeObject_def)
  also have "\<dots> = map_of ms name"
    using map_of_mset [of ?sorted ms] assms(2) by simp
  finally show ?thesis
    by (simp add: makeObject_def)
qed

section \<open>What the parser admits\<close>

fun value_nodes :: "CanonicalValue \<Rightarrow> nat" where
  "value_nodes (CArray es) = 1 + sum_list (map value_nodes es)"
| "value_nodes (CObject ms) = 1 + sum_list (map (\<lambda>m. value_nodes (snd m)) ms)"
| "value_nodes _ = 1"

fun value_depth :: "CanonicalValue \<Rightarrow> nat" where
  "value_depth (CArray es) = 1 + fold (\<lambda>e d. max (value_depth e) d) es 0"
| "value_depth (CObject ms) = 1 + fold (\<lambda>m d. max (value_depth (snd m)) d) ms 0"
| "value_depth _ = 1"

fun value_ok :: "CanonicalValue \<Rightarrow> bool" where
  "value_ok (CInteger i) \<longleftrightarrow> - kSafeIntegerBound \<le> i \<and> i \<le> kSafeIntegerBound"
| "value_ok (CString t) \<longleftrightarrow> length t \<le> kMaximumRecordStringBytes \<and> utf8Valid t"
| "value_ok (CArray es) \<longleftrightarrow> (\<forall>e\<in>set es. value_ok e)"
| "value_ok (CObject ms) \<longleftrightarrow> members_sorted ms \<and> length ms \<le> kMaximumRecordMembers
     \<and> (\<forall>m\<in>set ms. length (fst m) \<le> kMaximumRecordStringBytes \<and> utf8Valid (fst m) \<and> value_ok (snd m))"
| "value_ok CNull \<longleftrightarrow> True"
| "value_ok (CBoolean b) \<longleftrightarrow> True"

definition record_ok :: "CanonicalValue \<Rightarrow> bool" where
  "record_ok v \<longleftrightarrow> value_ok v \<and> value_depth v \<le> kMaximumRecordDepth \<and> value_nodes v \<le> kMaximumRecordNodes"

lemma fold_max_le_iff:
  "fold (\<lambda>e d. max (f e) d) es a \<le> (b :: nat) \<longleftrightarrow> a \<le> b \<and> (\<forall>e\<in>set es. f e \<le> b)"
  by (induction es arbitrary: a) auto

lemma fold_max_add_le_iff:
  assumes "(a :: nat) \<le> b"
  shows "a + fold (\<lambda>e d. max (f e) d) es 0 \<le> b \<longleftrightarrow> (\<forall>e\<in>set es. a + f e \<le> b)"
proof -
  have "a + fold (\<lambda>e d. max (f e) d) es 0 \<le> b \<longleftrightarrow> fold (\<lambda>e d. max (f e) d) es 0 \<le> b - a"
    using assms by auto
  then show ?thesis
    using assms by (auto simp: fold_max_le_iff le_diff_conv2 add.commute)
qed

lemma sum_list_sort_by [simp]: "sum_list (map (f :: 'a \<Rightarrow> nat) (sort_by lt xs)) = sum_list (map f xs)"
  by (metis mset_map mset_sort_by sum_mset_sum_list)

lemma parseNumber_ok: "parseNumber t = Inr v \<Longrightarrow> \<exists>i. v = CInteger i \<and> value_ok v"
  by (auto simp: parseNumber_def Let_def split: option.splits if_splits)

lemma parseString_ok: "parseString a = Inr v \<Longrightarrow> \<exists>t. v = CString t \<and> value_ok v"
  by (auto simp: parseString_def split: sum.splits if_splits)

lemma admitKey_ok:
  "admitKey ms k = Inr u \<longleftrightarrow> length k \<le> kMaximumRecordStringBytes \<and> utf8Valid k
     \<and> k \<notin> fst ` set ms \<and> length ms < kMaximumRecordMembers"
  by (auto simp: admitKey_def list_ex_iff)

abbreviation below :: "nat \<Rightarrow> CanonicalValue \<Rightarrow> bool" where
  "below depth v \<equiv> value_ok v \<and> depth + value_depth v \<le> kMaximumRecordDepth + 1"

lemma parse_ok:
  "parseValue nodes v depth = Inr (w, n) \<Longrightarrow>
     below depth w \<and> n = nodes + value_nodes w \<and> n \<le> kMaximumRecordNodes"
  "parseArray nodes es depth kept = Inr (w, n) \<Longrightarrow> nodes \<le> kMaximumRecordNodes \<Longrightarrow>
     depth \<le> kMaximumRecordDepth \<Longrightarrow> \<forall>e\<in>set kept. below (depth + 1) e \<Longrightarrow>
     below depth w \<and> n + 1 + sum_list (map value_nodes kept) = nodes + value_nodes w
     \<and> n \<le> kMaximumRecordNodes"
  "parseObject nodes fs depth ms = Inr (w, n) \<Longrightarrow> nodes \<le> kMaximumRecordNodes \<Longrightarrow>
     depth \<le> kMaximumRecordDepth \<Longrightarrow> length ms \<le> kMaximumRecordMembers \<Longrightarrow>
     \<forall>m\<in>set ms. admitKey [] (fst m) = Inr () \<and> below (depth + 1) (snd m) \<Longrightarrow>
     distinct (map fst ms) \<Longrightarrow>
     below depth w \<and> n + 1 + sum_list (map (\<lambda>m. value_nodes (snd m)) ms) = nodes + value_nodes w
     \<and> n \<le> kMaximumRecordNodes"
proof (induction nodes v depth and nodes es depth kept and nodes fs depth ms
    arbitrary: w n and w n and w n rule: parseValue_parseArray_parseObject.induct)
  case (1 nodes v depth)
  show ?case
  proof -
    have d: "\<not> kMaximumRecordDepth < depth" "\<not> kMaximumRecordNodes < nodes + 1"
      using 1(3) by (auto split: if_splits)
    show ?thesis
    proof (cases v)
      case (SjObject fs)
      then have *: "parseObject (nodes + 1) fs depth [] = Inr (w, n)"
        using 1(3) d by simp
      show ?thesis
        using 1(1) [OF d SjObject *] d by simp
    next
      case (SjArray es)
      then have *: "parseArray (nodes + 1) es depth [] = Inr (w, n)"
        using 1(3) d by simp
      show ?thesis
        using 1(2) [OF d SjArray *] d by simp
    qed (use 1(3) d in \<open>auto dest!: parseNumber_ok parseString_ok\<close>)
  qed
next
  case (2 nodes depth kept)
  then show ?case by (auto simp: fold_max_add_le_iff)
next
  case (3 nodes e es depth kept)
  show ?case
  proof (cases e)
    case (SjElement child)
    with 3(3) obtain p n' where p: "parseValue nodes child (depth + 1) = Inr (p, n')"
      and rest: "parseArray n' es depth (kept @ [p]) = Inr (w, n)"
      by auto
    have "below (depth + 1) p \<and> n' = nodes + value_nodes p \<and> n' \<le> kMaximumRecordNodes"
      by (rule 3(1) [OF SjElement p])
    then show ?thesis
      using 3(2) [OF SjElement p refl rest] 3(5,6) by auto
  qed (use 3(3) in simp)
next
  case (4 nodes depth ms)
  then show ?case
    using makeObject_sorted [of ms]
    by (auto simp: makeObject_def fold_max_add_le_iff admitKey_ok)
next
  case (5 nodes f fs depth ms)
  show ?case
  proof (cases f)
    case (SjField key child)
    with 5(3) obtain p n' where key: "admitKey ms key = Inr ()"
      and p: "parseValue nodes child (depth + 1) = Inr (p, n')"
      and rest: "parseObject n' fs depth (ms @ [(key, p)]) = Inr (w, n)"
      by auto
    have "below (depth + 1) p \<and> n' = nodes + value_nodes p \<and> n' \<le> kMaximumRecordNodes"
      by (rule 5(1) [OF SjField key p])
    then show ?thesis
      using 5(2) [OF SjField key p refl rest] 5(5-8) key by (auto simp: admitKey_ok)
  qed (use 5(3) in auto)
qed

section \<open>The writer is a prefix code\<close>

lemma escape_char_json: "escape_char = json_escape"
  by (simp add: fun_eq_iff escape_char_def json_escape_def Let_def control_codes high_nibble)

interpretation jcs_text: text_escape escape_char unescape
  by unfold_locales (simp_all add: escape_char_json unescape_escape)

lemma appendEscapedString_prefix:
  "appendEscapedString s @ r = appendEscapedString t @ r' \<Longrightarrow> s = t \<and> r = r'"
  using jcs_text.escaped_prefix [of s r t r'] by (simp add: appendEscapedString_def)

text \<open>What may follow a value in canonical text: nothing, or a character no number contains.\<close>

definition follows :: "bytes \<Rightarrow> bool" where
  "follows r \<longleftrightarrow> r = [] \<or> hd r \<in> {CHR '','', CHR '']'', CHR ''}''}"

lemma follows_no_digit: "follows (c # r) \<Longrightarrow> \<not> is_digit c"
  by (auto simp: follows_def is_digit_def)

lemma digits_prefix:
  assumes "list_all is_digit s" "list_all is_digit t" "follows r" "follows r'" "s @ r = t @ r'"
  shows "s = t \<and> r = r'"
  using assms
proof (induction s arbitrary: t)
  case Nil
  then show ?case using follows_no_digit by (cases t) auto
next
  case (Cons c s)
  then show ?case using follows_no_digit by (cases t) auto
qed

lemma int_to_string_prefix:
  assumes "follows r" "follows r'" "int_to_string i @ r = int_to_string j @ r'"
  shows "i = j \<and> r = r'"
proof -
  have nat_prefix: "m = n \<and> r = r'" if "nat_to_string m @ r = nat_to_string n @ r'" for m n
    using digits_prefix [OF _ _ assms(1,2) that] nat_to_string_digits [of m] nat_to_string_digits [of n]
    by (simp add: list_all_iff nat_to_string_inj)
  have "hd (int_to_string i) = hd (int_to_string j)"
    using arg_cong [OF assms(3), of hd] by simp
  then have sign: "i < 0 \<longleftrightarrow> j < 0"
    using int_to_string_minus by metis
  show ?thesis
  proof (cases "i < 0")
    case True
    then have "nat_to_string (nat (- i)) @ r = nat_to_string (nat (- j)) @ r'"
      using assms(3) sign by (simp add: int_to_string_def)
    from nat_prefix [OF this] show ?thesis
      using True sign by auto
  next
    case False
    then have "nat_to_string (nat i) @ r = nat_to_string (nat j) @ r'"
      using assms(3) sign by (simp add: int_to_string_def)
    from nat_prefix [OF this] show ?thesis
      using False sign by auto
  qed
qed

lemma int_to_string_hd: "hd (int_to_string i) = CHR ''-'' \<or> is_digit (hd (int_to_string i))"
  using nat_to_string_digits [of "nat i"] by (simp add: int_to_string_def)

lemma separate_Cons: "separate (x # xs) = x @ (case xs of [] \<Rightarrow> [] | _ \<Rightarrow> CHR '','' # separate xs)"
  by (cases xs) simp_all

text \<open>The first character tells which kind of value begins.\<close>

definition kind_char :: "CanonicalValue \<Rightarrow> char \<Rightarrow> bool" where
  "kind_char v c \<longleftrightarrow> (case v of
     CNull \<Rightarrow> c = CHR ''n'' | CBoolean b \<Rightarrow> c = (if b then CHR ''t'' else CHR ''f'')
   | CInteger i \<Rightarrow> c = CHR ''-'' \<or> is_digit c | CString t \<Rightarrow> c = CHR 0x22
   | CArray es \<Rightarrow> c = CHR ''['' | CObject ms \<Rightarrow> c = CHR ''{'')"

lemma appendCanonical_not_Nil [simp]: "appendCanonical v \<noteq> []"
  by (cases v) (simp_all add: appendEscapedString_def)

lemma appendCanonical_hd: "kind_char v (hd (appendCanonical v))"
  by (cases v) (simp_all add: kind_char_def appendEscapedString_def int_to_string_hd)

lemma kind_char_values [simp]:
  "\<not> is_digit (CHR ''n'')" "\<not> is_digit (CHR ''t'')" "\<not> is_digit (CHR ''f'')" "\<not> is_digit (CHR 0x22)"
  "\<not> is_digit (CHR ''['')" "\<not> is_digit (CHR ''{'')" "\<not> is_digit (CHR '']'')" "\<not> is_digit (CHR ''}'')"
  "\<not> is_digit (CHR '','')"
  by (simp_all add: is_digit_def)

lemma kind_char_kind: "kind_char v c \<Longrightarrow> kind_char w c \<Longrightarrow>
   value_kind v = value_kind w \<and> value_boolean v = value_boolean w"
  by (cases v; cases w) (auto simp: kind_char_def split: if_splits)

lemma kind_char_open: "kind_char v c \<Longrightarrow> c \<notin> {CHR '']'', CHR ''}'', CHR '',''}"
  by (cases v) (auto simp: kind_char_def split: if_splits)

text \<open>A separated list of items from a prefix code is again a prefix code, up to its closer.\<close>

lemma separate_prefix:
  assumes "separate (map f xs) @ c # r = separate (map f ys) @ c # r'"
    and "c \<in> {CHR '']'', CHR ''}''}"
    and item: "\<And>x y s s'. x \<in> set xs \<Longrightarrow> y \<in> set ys \<Longrightarrow> follows s \<Longrightarrow> follows s' \<Longrightarrow> f x @ s = f y @ s' \<Longrightarrow> x = y \<and> s = s'"
    and item_hd: "\<And>x. x \<in> set xs \<union> set ys \<Longrightarrow> f x \<noteq> [] \<and> hd (f x) \<notin> {CHR '']'', CHR ''}'', CHR '',''}"
  shows "xs = ys \<and> r = r'"
  using assms
proof (induction xs arbitrary: ys)
  case Nil
  then show ?case
  proof (cases ys)
    case (Cons y ys')
    have "hd (f y) = c"
      using arg_cong [OF Nil.prems(1), of hd] Nil.prems(4) [of y] Cons by (simp add: separate_Cons)
    then show ?thesis
      using Nil.prems(2) Nil.prems(4) [of y] Cons by auto
  qed simp
next
  case (Cons x xs)
  note prems = Cons.prems
  show ?case
  proof (cases ys)
    case Nil
    have "hd (f x) = c"
      using arg_cong [OF prems(1), of hd] prems(4) [of x] Nil by (simp add: separate_Cons)
    then show ?thesis
      using prems(2) prems(4) [of x] by auto
  next
    case (Cons y ys')
    let ?tail = "\<lambda>zs. case map f zs of [] \<Rightarrow> [] | _ \<Rightarrow> CHR '','' # separate (map f zs)"
    have "follows (?tail zs @ c # r'')" for zs r''
      using prems(2) by (auto simp: follows_def split: list.splits)
    moreover have eq: "f x @ (?tail xs @ c # r) = f y @ (?tail ys' @ c # r')"
      using prems(1) unfolding Cons by (simp only: separate_Cons list.map append_assoc)
    ultimately have "x = y" and tail: "?tail xs @ c # r = ?tail ys' @ c # r'"
      using prems(3) [OF _ _ _ _ eq] Cons by auto
    have "separate (map f xs) @ c # r = separate (map f ys') @ c # r'"
      using tail prems(2) by (cases xs; cases ys') auto
    then have "xs = ys' \<and> r = r'"
      using Cons.IH [of ys'] prems(2-4) Cons by auto
    then show ?thesis
      using \<open>x = y\<close> Cons by simp
  qed
qed

lemma size_member [termination_simp]: "m \<in> set ms \<Longrightarrow> size (snd m) < size (CObject ms)"
proof (induction ms)
  case (Cons n ms)
  then show ?case by (cases n) auto
qed simp

lemma size_element [termination_simp]: "e \<in> set es \<Longrightarrow> size e < size (CArray es)"
  by (induction es) auto

lemma appendCanonical_prefix:
  "follows r \<Longrightarrow> follows r' \<Longrightarrow> appendCanonical v @ r = appendCanonical w @ r' \<Longrightarrow> v = w \<and> r = r'"
proof (induction v arbitrary: w r r' rule: measure_induct_rule [of size])
  case (less v)
  note eq = less.prems(3)
  have "hd (appendCanonical v) = hd (appendCanonical w)"
    using arg_cong [OF eq, of hd] by simp
  then have same: "value_kind v = value_kind w" "value_boolean v = value_boolean w"
    using appendCanonical_hd kind_char_kind by metis+
  show ?case
  proof (cases v)
    case CNull
    then show ?thesis using same eq by (cases w) simp_all
  next
    case (CBoolean b)
    then show ?thesis using same eq by (cases w) (simp_all split: if_splits)
  next
    case (CInteger i)
    then obtain j where "w = CInteger j" using same by (cases w) auto
    then show ?thesis
      using CInteger eq int_to_string_prefix [OF less.prems(1,2)] by simp
  next
    case (CString t)
    then obtain u where "w = CString u" using same by (cases w) auto
    then show ?thesis
      using CString eq appendEscapedString_prefix [of t r u r'] by simp
  next
    case (CArray es)
    then obtain fs where w: "w = CArray fs" using same by (cases w) auto
    have "es = fs \<and> r = r'"
    proof (rule separate_prefix [where f = appendCanonical and c = "CHR '']''"])
      show "separate (map appendCanonical es) @ CHR '']'' # r = separate (map appendCanonical fs) @ CHR '']'' # r'"
        using eq CArray w by simp
      show "x = y \<and> s = s'"
        if "x \<in> set es" "follows s" "follows s'" "appendCanonical x @ s = appendCanonical y @ s'" for x y s s'
        using less.IH [of x s s' y] that CArray size_element [OF that(1)] by simp
      show "appendCanonical x \<noteq> [] \<and> hd (appendCanonical x) \<notin> {CHR '']'', CHR ''}'', CHR '',''}" for x
        using kind_char_open [OF appendCanonical_hd] by simp
    qed simp
    then show ?thesis using CArray w by simp
  next
    case (CObject ms)
    then obtain ns where w: "w = CObject ns" using same by (cases w) auto
    let ?f = "\<lambda>m. appendEscapedString (fst m) @ CHR '':'' # appendCanonical (snd m)"
    have "ms = ns \<and> r = r'"
    proof (rule separate_prefix [where f = ?f and c = "CHR ''}''"])
      show "separate (map ?f ms) @ CHR ''}'' # r = separate (map ?f ns) @ CHR ''}'' # r'"
        using eq CObject w by simp
      show "x = y \<and> s = s'"
        if "x \<in> set ms" "follows s" "follows s'" "?f x @ s = ?f y @ s'" for x y s s'
      proof -
        have "size (snd x) < size v"
          using size_member [OF that(1)] CObject by simp
        moreover have "fst x = fst y \<and> appendCanonical (snd x) @ s = appendCanonical (snd y) @ s'"
          using that(4) appendEscapedString_prefix [of "fst x" "CHR '':'' # appendCanonical (snd x) @ s"
              "fst y" "CHR '':'' # appendCanonical (snd y) @ s'"] by simp
        ultimately show ?thesis
          using less.IH [of "snd x" s s' "snd y"] that(2,3) by (simp add: prod_eq_iff)
      qed
      show "?f x \<noteq> [] \<and> hd (?f x) \<notin> {CHR '']'', CHR ''}'', CHR '',''}" for x
        by (simp add: appendEscapedString_def)
    qed simp
    then show ?thesis using CObject w by simp
  qed
qed

section \<open>Reading back canonical text\<close>

text \<open>What the on-demand API documents to answer on the canonical text of a value.\<close>

fun sj_of :: "CanonicalValue \<Rightarrow> sj_value" where
  "sj_of CNull = SjNull"
| "sj_of (CBoolean b) = SjBool b"
| "sj_of (CInteger i) = SjNumber (int_to_string i)"
| "sj_of (CString t) = SjString t"
| "sj_of (CArray es) = SjArray (map (\<lambda>e. SjElement (sj_of e)) es)"
| "sj_of (CObject ms) = SjObject (map (\<lambda>m. SjField (fst m) (sj_of (snd m))) ms)"

lemma trim_int_to_string: "trim_token (int_to_string i) = int_to_string i"
proof -
  obtain cs c where "int_to_string i = cs @ [c]"
    using int_to_string_nonempty [of i] by (metis rev_exhaust)
  moreover have "is_digit (last (int_to_string i))"
    using nat_to_string_digits [of "nat i"] nat_to_string_digits [of "nat (- i)"]
    by (simp add: int_to_string_def)
  moreover have "\<not> token_padding d" if "is_digit d" for d
    using that by (auto simp: token_padding_def is_digit_def)
  ultimately show ?thesis
    by (simp add: trim_token_def)
qed

lemma parseNumber_int_to_string:
  assumes "value_ok (CInteger i)"
  shows "parseNumber (int_to_string i) = Inr (CInteger i)"
proof -
  have "checkIntegerToken (int_to_string i) = Inr ()"
    using checkIntegerToken_iff by blast
  moreover have "from_chars_i64 (int_to_string i) = Some i"
    using assms by (intro from_chars_i64_to_string) (auto simp: kSafeIntegerBound_def int64_min_def int64_max_def)
  ultimately show ?thesis
    using assms by (simp add: parseNumber_def trim_int_to_string)
qed

lemma makeObject_sorted_id:
  assumes "\<forall>m\<in>set ms. utf8Valid (fst m)" "members_sorted ms"
  shows "makeObject ms = CObject ms"
  using jcs.sort_by_unique [OF refl assms(1) _ assms(2)] jcs.sorted_distinct_keys [OF assms]
  by (simp add: makeObject_def)

lemma parseArray_sj_of:
  assumes "\<And>e n. e \<in> set es \<Longrightarrow> n + value_nodes e \<le> kMaximumRecordNodes \<Longrightarrow>
      parseValue n (sj_of e) (depth + 1) = Inr (e, n + value_nodes e)"
    and "nodes + sum_list (map value_nodes es) \<le> kMaximumRecordNodes"
  shows "parseArray nodes (map (\<lambda>e. SjElement (sj_of e)) es) depth kept
    = Inr (CArray (kept @ es), nodes + sum_list (map value_nodes es))"
  using assms
proof (induction es arbitrary: nodes kept)
  case (Cons e es)
  have "parseValue nodes (sj_of e) (depth + 1) = Inr (e, nodes + value_nodes e)"
    using Cons.prems by simp
  then show ?case
    using Cons by (simp add: add.assoc)
qed simp

lemma parseObject_sj_of:
  assumes "\<And>m n. m \<in> set ms \<Longrightarrow> n + value_nodes (snd m) \<le> kMaximumRecordNodes \<Longrightarrow>
      parseValue n (sj_of (snd m)) (depth + 1) = Inr (snd m, n + value_nodes (snd m))"
    and "nodes + sum_list (map (\<lambda>m. value_nodes (snd m)) ms) \<le> kMaximumRecordNodes"
    and "distinct (map fst (kept @ ms))" "length (kept @ ms) \<le> kMaximumRecordMembers"
    and "\<forall>m\<in>set ms. length (fst m) \<le> kMaximumRecordStringBytes \<and> utf8Valid (fst m)"
  shows "parseObject nodes (map (\<lambda>m. SjField (fst m) (sj_of (snd m))) ms) depth kept
    = Inr (makeObject (kept @ ms), nodes + sum_list (map (\<lambda>m. value_nodes (snd m)) ms))"
  using assms
proof (induction ms arbitrary: nodes kept)
  case (Cons m ms)
  have "parseValue nodes (sj_of (snd m)) (depth + 1) = Inr (snd m, nodes + value_nodes (snd m))"
    using Cons.prems by simp
  moreover have "admitKey kept (fst m) = Inr ()"
    using Cons.prems by (auto simp: admitKey_ok)
  ultimately show ?case
    using Cons by (simp add: add.assoc)
qed simp

lemma parseValue_sj_of:
  assumes "below depth v" "nodes + value_nodes v \<le> kMaximumRecordNodes"
  shows "parseValue nodes (sj_of v) depth = Inr (v, nodes + value_nodes v)"
  using assms
proof (induction v arbitrary: nodes depth rule: measure_induct_rule [of size])
  case (less v)
  show ?case
  proof (cases v)
    case (CArray es)
    have d: "depth \<le> kMaximumRecordDepth" and below: "\<forall>e\<in>set es. below (depth + 1) e"
      using less.prems(1) CArray fold_max_add_le_iff [of depth kMaximumRecordDepth value_depth es]
      by (auto dest: order_trans [OF le_add1])
    have "parseArray (nodes + 1) (map (\<lambda>e. SjElement (sj_of e)) es) depth []
        = Inr (CArray ([] @ es), nodes + 1 + sum_list (map value_nodes es))"
    proof (rule parseArray_sj_of)
      fix e n assume e: "e \<in> set es" "n + value_nodes e \<le> kMaximumRecordNodes"
      have "size e < size v"
        using size_element [OF e(1)] CArray by simp
      then show "parseValue n (sj_of e) (depth + 1) = Inr (e, n + value_nodes e)"
        using less.IH e below by blast
    qed (use less.prems CArray in simp)
    then show ?thesis
      using d less.prems CArray by simp
  next
    case (CObject ms)
    have d: "depth \<le> kMaximumRecordDepth" and below: "\<forall>m\<in>set ms. below (depth + 1) (snd m)"
      using less.prems(1) CObject fold_max_add_le_iff [of depth kMaximumRecordDepth "\<lambda>m. value_depth (snd m)" ms]
      by (auto dest: order_trans [OF le_add1])
    have ok: "\<forall>m\<in>set ms. utf8Valid (fst m)" "members_sorted ms"
      using less.prems(1) CObject by auto
    have "parseObject (nodes + 1) (map (\<lambda>m. SjField (fst m) (sj_of (snd m))) ms) depth []
        = Inr (makeObject ([] @ ms), nodes + 1 + sum_list (map (\<lambda>m. value_nodes (snd m)) ms))"
    proof (rule parseObject_sj_of)
      fix m n assume m: "m \<in> set ms" "n + value_nodes (snd m) \<le> kMaximumRecordNodes"
      have "size (snd m) < size v"
        using size_member [OF m(1)] CObject by simp
      then show "parseValue n (sj_of (snd m)) (depth + 1) = Inr (snd m, n + value_nodes (snd m))"
        using less.IH m below by blast
    qed (use less.prems CObject jcs.sorted_distinct_keys [OF ok] in simp_all)
    then show ?thesis
      using d less.prems CObject makeObject_sorted_id [OF ok] by simp
  qed (use less.prems parseNumber_int_to_string in \<open>auto simp: parseString_def\<close>)
qed

lemma parse_canonical:
  assumes "iterate (serializeCanonical v) = SjDocument (sj_of v) True"
    and "record_ok v" and "value_kind v = KObject"
    and "length (serializeCanonical v) \<le> kMaximumRecordBytes"
  shows "parseCanonicalSubset iterate (serializeCanonical v) = Inr v"
proof -
  obtain ms where v: "v = CObject ms"
    using assms(3) by (cases v) simp_all
  have "parseValue 0 (sj_of v) 1 = Inr (v, 0 + value_nodes v)"
    using assms(2) by (intro parseValue_sj_of) (simp_all add: record_ok_def)
  moreover have "hd (serializeCanonical v) = CHR ''{''" "last (serializeCanonical v) = CHR ''}''"
    "serializeCanonical v \<noteq> []" "\<not> starts_with (serializeCanonical v) [CHR 0xEF, CHR 0xBB, CHR 0xBF]"
    by (simp_all add: v serializeCanonical_def starts_with_def)
  ultimately show ?thesis
    using assms(1,4) by (simp add: parseCanonicalSubset_def)
qed

text \<open>A concrete record and a parser that answers for it.\<close>

definition demo_value :: CanonicalValue where
  "demo_value = CObject [(''a'', CInteger (-7)), (''b'', CArray [CNull, CString ''x''])]"

definition demo_iterate :: "bytes \<Rightarrow> sj_document" where
  "demo_iterate b = SjDocument (sj_of demo_value) True"

lemma utf8Valid_Cons: "utf8Valid (c # bs) \<longleftrightarrow>
  (case decodeCodePoint (c # bs) of None \<Rightarrow> False | Some (cp, rest) \<Rightarrow> utf8Valid rest)"
  by (subst utf8Valid.simps) simp

lemma utf8Valid_Nil [simp]: "utf8Valid []"
  by (simp add: utf8Valid.simps)

lemma demo_value_ok: "record_ok demo_value"
  by (simp add: record_ok_def demo_value_def kSafeIntegerBound_def kMaximumRecordStringBytes_def
      kMaximumRecordMembers_def kMaximumRecordDepth_def kMaximumRecordNodes_def utf8Valid_Cons jcs_eval)

lemma demo_text: "serializeCanonical demo_value = ''{'' @ [CHR 0x22] @ ''a'' @ [CHR 0x22] @ '':-7,'' @ [CHR 0x22]
  @ ''b'' @ [CHR 0x22] @ '':[null,'' @ [CHR 0x22] @ ''x'' @ [CHR 0x22] @ '']}''"
  by (simp add: serializeCanonical_def demo_value_def appendEscapedString_def escape_char_def
      int_to_string_def nat_to_string.simps digit_char_def char_of_eq_iff)

lemma demo_iterate_parses:
  "parseCanonicalSubset demo_iterate (serializeCanonical demo_value) = Inr demo_value"
proof (rule parse_canonical)
  show "length (serializeCanonical demo_value) \<le> kMaximumRecordBytes"
    by (simp add: demo_text kMaximumRecordBytes_def)
qed (simp_all add: demo_iterate_def demo_value_ok, simp add: demo_value_def)

section \<open>Properties of the record gate\<close>

text \<open>
  The lexical gate for numbers accepts exactly the shortest decimal forms of the integers:
  no fraction, no exponent, no sign but a minus, no leading zero and no negative zero.
\<close>

theorem integer_tokens_are_canonical:
  "checkIntegerToken token = Inr () \<longleftrightarrow> (\<exists>k. token = int_to_string k)"
  by (rule checkIntegerToken_iff)

text \<open>
  Whatever the JSON parser answers, a record the strict parser admits stays within every
  limit: integers in the safe range, strings and names short and valid UTF-8, at most 4096
  members per object, strictly sorted, depth at most 32 and at most 65536 nodes.
\<close>

theorem parsed_record_within_limits:
  assumes "parseCanonicalSubset iterate bytes = Inr v"
  shows "record_ok v \<and> length bytes \<le> kMaximumRecordBytes \<and> hd bytes = CHR ''{'' \<and> last bytes = CHR ''}''"
proof -
  obtain root n where "parseValue 0 root 1 = Inr (v, n)"
    and ends: "length bytes \<le> kMaximumRecordBytes" "hd bytes = CHR ''{''" "last bytes = CHR ''}''"
    using assms by (auto simp: parseCanonicalSubset_def split: if_splits sj_document.splits)
  from parse_ok(1) [OF this(1)] ends show ?thesis
    by (simp add: record_ok_def)
qed

theorem parsed_record_within_limits_witness:
  "record_ok demo_value"
  using parsed_record_within_limits [OF demo_iterate_parses] by simp

text \<open>
  C24. Two values have the same canonical bytes only if they are the same value, so a digest of
  the bytes identifies the value.
\<close>

theorem canonical_bytes_identify_value:
  "serializeCanonical v = serializeCanonical w \<longleftrightarrow> v = w"
  using appendCanonical_prefix [of "[]" "[]" v w] by (auto simp: serializeCanonical_def follows_def)

text \<open>
  C21. The ingest gate admits only bytes that are the canonical form of the value it returns, so
  any two JSON parsers that admit the same bytes agree on the value.
\<close>

theorem ingest_is_unambiguous:
  assumes "ingestCanonicalBytes iterate bytes = Inr v"
  shows "bytes = serializeCanonical v \<and> record_ok v
    \<and> (\<forall>other w. ingestCanonicalBytes other bytes = Inr w \<longrightarrow> w = v)"
proof -
  have canonical: "serializeCanonical w = bytes" if "ingestCanonicalBytes it bytes = Inr w" for it w
    using that by (auto simp: ingestCanonicalBytes_def split: if_splits)
  have same: "w = v" if "ingestCanonicalBytes other bytes = Inr w" for other w
    using canonical [OF that] canonical [OF assms] appendCanonical_prefix [of "[]" "[]" v w]
    by (simp add: serializeCanonical_def follows_def)
  obtain root n where "parseValue 0 root 1 = Inr (v, n)"
    using assms by (auto simp: ingestCanonicalBytes_def parseCanonicalSubset_def split: if_splits sj_document.splits)
  from parse_ok(1) [OF this] canonical [OF assms] same show ?thesis
    by (simp add: record_ok_def)
qed

theorem ingest_is_unambiguous_witness:
  "record_ok demo_value"
proof -
  have "ingestCanonicalBytes demo_iterate (serializeCanonical demo_value) = Inr demo_value"
    using demo_iterate_parses by (simp add: ingestCanonicalBytes_def)
  from ingest_is_unambiguous [OF this] show ?thesis by simp
qed

text \<open>
  The ingest gate admits the canonical bytes of every object within the limits, provided
  the JSON parser reads those bytes as the value they denote.
\<close>

theorem ingest_accepts_canonical:
  assumes "iterate (serializeCanonical v) = SjDocument (sj_of v) True"
    and "record_ok v" and "value_kind v = KObject"
    and "length (serializeCanonical v) \<le> kMaximumRecordBytes"
  shows "ingestCanonicalBytes iterate (serializeCanonical v) = Inr v"
  using parse_canonical [of iterate v] assms by (simp add: ingestCanonicalBytes_def)

theorem ingest_accepts_canonical_witness:
  "ingestCanonicalBytes demo_iterate (serializeCanonical demo_value) = Inr demo_value"
proof (rule ingest_accepts_canonical)
  show "length (serializeCanonical demo_value) \<le> kMaximumRecordBytes"
    by (simp add: demo_text kMaximumRecordBytes_def)
qed (simp_all add: demo_iterate_def demo_value_ok, simp add: demo_value_def)

text \<open>
  Building an object from members with different valid names gives the same object in
  whatever order the members are supplied, and looking a name up finds the member supplied.
\<close>

theorem object_lookup_is_map:
  assumes "\<forall>m\<in>set ms. utf8Valid (fst m)" and "distinct (map fst ms)" and "utf8Valid name"
    and "mset ns = mset ms"
  shows "makeObject ns = makeObject ms \<and> find_member (makeObject ns) name = map_of ms name"
proof -
  have "makeObject ns = makeObject ms"
    using makeObject_permutation [OF assms(4) [symmetric] assms(1,2)] by simp
  then show ?thesis
    using find_makeObject [OF assms(1-3)] by simp
qed

theorem object_lookup_is_map_witness:
  "makeObject [(''b'', CNull), (''a'', CBoolean True)] = makeObject [(''a'', CBoolean True), (''b'', CNull)]
   \<and> find_member (makeObject [(''b'', CNull), (''a'', CBoolean True)]) ''b''
     = map_of [(''a'', CBoolean True), (''b'', CNull)] ''b''"
  by (rule object_lookup_is_map) (simp_all add: utf8Valid_Cons jcs_eval add_mset_commute)

end
