(* ===== verification/Evidence_Sha256.thy ===== *)
theory Evidence_Sha256
  imports Numbers
begin

text \<open>
  \<open>tools/rf_evidence/src/failure.h\<close> and \<open>sha256.{h,cpp}\<close>: the tool-wide failure type and the
  streaming digest.  OpenSSL is third-party: a provider is a parameter that says whether each
  call succeeds and which digest bytes it produces for the content it was fed.
\<close>

section \<open>Failures\<close>

datatype FailureCode =
    InvalidArguments | InvalidJson | InvalidManifest | InvalidPath | IoFailure | LimitExceeded
  | MissingInput | OwnershipCollision | UnsupportedHost | VerificationFailed

record Failure =
  f_code :: FailureCode
  f_path :: string
  f_message :: string

type_synonym 'a Result = "Failure + 'a"
type_synonym Status = "Failure + unit"

fun failureCodeName :: "FailureCode \<Rightarrow> string" where
  "failureCodeName InvalidArguments = ''invalid_arguments''"
| "failureCodeName InvalidJson = ''invalid_json''"
| "failureCodeName InvalidManifest = ''invalid_manifest''"
| "failureCodeName InvalidPath = ''invalid_path''"
| "failureCodeName IoFailure = ''io_failure''"
| "failureCodeName LimitExceeded = ''limit_exceeded''"
| "failureCodeName MissingInput = ''missing_input''"
| "failureCodeName OwnershipCollision = ''ownership_collision''"
| "failureCodeName UnsupportedHost = ''unsupported_host''"
| "failureCodeName VerificationFailed = ''verification_failed''"

definition fail :: "FailureCode \<Rightarrow> string \<Rightarrow> string \<Rightarrow> 'a Result" where
  "fail code path message = Inl \<lparr>f_code = code, f_path = path, f_message = message\<rparr>"

lemma fail_simps [simp]: "fail c p m \<noteq> Inr x" "Inr x \<noteq> fail c p m" "rbind (fail c p m) f = fail c p m"
  by (simp_all add: fail_def)

section \<open>The stream\<close>

text \<open>
  The provider: whether a context can be allocated and initialised, whether it takes a chunk
  after the content so far, and the digest bytes it finalises for all the content.
\<close>

record Provider =
  evp_new :: bool
  evp_init :: bool
  evp_update :: "bytes \<Rightarrow> bytes \<Rightarrow> bool"
  evp_final :: "bytes \<Rightarrow> nat list option"

record Sha256Stream =
  s_subject :: string
  s_context :: bool
  s_content :: bytes   \<comment> \<open>what the provider's context has been fed\<close>
  s_started :: bool
  s_finished :: bool

definition sha256_stream :: "Provider \<Rightarrow> string \<Rightarrow> Sha256Stream" where
  "sha256_stream evp subject =
     \<lparr>s_subject = subject, s_context = evp_new evp, s_content = [], s_started = False, s_finished = False\<rparr>"

definition sha256_begin :: "Provider \<Rightarrow> Sha256Stream \<Rightarrow> Sha256Stream Result" where
  "sha256_begin evp st =
     (if \<not> s_context st \<or> s_started st \<or> \<not> evp_init evp
      then fail VerificationFailed (s_subject st) ''failed to initialize SHA-256''
      else Inr (st\<lparr>s_started := True\<rparr>))"

definition sha256_update :: "Provider \<Rightarrow> Sha256Stream \<Rightarrow> bytes \<Rightarrow> Sha256Stream Result" where
  "sha256_update evp st bytes =
     (if \<not> s_started st \<or> s_finished st
      then fail VerificationFailed (s_subject st) ''SHA-256 stream is not accepting content''
      else if bytes = [] then Inr st
      else if \<not> evp_update evp (s_content st) bytes
      then fail VerificationFailed (s_subject st) ''failed while hashing content''
      else Inr (st\<lparr>s_content := s_content st @ bytes\<rparr>))"

definition hex_text :: "nat list \<Rightarrow> string" where
  "hex_text digest = concat (map (\<lambda>b. [hex_char (b div 16), hex_char (b mod 16)]) digest)"

text \<open>\<open>finish\<close> marks the stream finished before it can fail; the stream is returned with the answer.\<close>

definition sha256_finish :: "Provider \<Rightarrow> Sha256Stream \<Rightarrow> string Result \<times> Sha256Stream" where
  "sha256_finish evp st =
     (if \<not> s_started st \<or> s_finished st
      then (fail VerificationFailed (s_subject st) ''SHA-256 stream cannot be finished twice'', st)
      else let st' = st\<lparr>s_finished := True\<rparr>
      in (case evp_final evp (s_content st) of
            None \<Rightarrow> (fail VerificationFailed (s_subject st) ''failed to finalize SHA-256'', st')
          | Some digest \<Rightarrow>
              if length digest \<noteq> 32
              then (fail VerificationFailed (s_subject st) ''failed to finalize SHA-256'', st')
              else (Inr (hex_text digest), st')))"

definition sha256Bytes :: "Provider \<Rightarrow> bytes \<Rightarrow> string Result" where
  "sha256Bytes evp bytes =
     rbind (sha256_begin evp (sha256_stream evp ''<memory>'')) (\<lambda>st.
     rbind (sha256_update evp st bytes) (\<lambda>st'.
     fst (sha256_finish evp st')))"

text \<open>
  A file as the reading loop sees it: whether it opens, the chunks the reads deliver and
  whether the last read ended at the end of the file.
\<close>

record FileReads =
  fr_opens :: bool
  fr_chunks :: "bytes list"
  fr_eof :: bool

definition sha256File :: "Provider \<Rightarrow> string \<Rightarrow> FileReads \<Rightarrow> string Result" where
  "sha256File evp path reads =
     rbind (sha256_begin evp (sha256_stream evp path)) (\<lambda>st.
       if \<not> fr_opens reads then fail MissingInput path ''cache object is missing''
       else rbind (rfold (\<lambda>st kChunk. if kChunk = [] then Inr st else sha256_update evp st kChunk)
                     st (fr_chunks reads)) (\<lambda>st'.
         if \<not> fr_eof reads then fail IoFailure path ''failed while reading cache object''
         else fst (sha256_finish evp st')))"

section \<open>One digest for every way of feeding the content\<close>

definition provider_ok :: "Provider \<Rightarrow> bool" where
  "provider_ok evp \<longleftrightarrow> (\<forall>content digest. evp_final evp content = Some digest \<longrightarrow> (\<forall>b\<in>set digest. b < 256))"

lemma length_hex_text [simp]: "length (hex_text digest) = 2 * length digest"
  by (induction digest) (simp_all add: hex_text_def)

lemma update_content:
  assumes "sha256_update evp st chunk = Inr st'"
  shows "st' = st\<lparr>s_content := s_content st @ chunk\<rparr>" and "s_started st" and "\<not> s_finished st"
  using assms by (auto simp: sha256_update_def split: if_splits)

lemma updates_content:
  assumes "rfold (\<lambda>st kChunk. if kChunk = [] then Inr st else sha256_update evp st kChunk) st chunks = Inr st'"
  shows "st' = st\<lparr>s_content := s_content st @ concat chunks\<rparr>"
  using assms
proof (induction chunks arbitrary: st)
  case (Cons c cs)
  then obtain s where s: "(if c = [] then Inr st else sha256_update evp st c) = Inr s"
    and rest: "rfold (\<lambda>st kChunk. if kChunk = [] then Inr st else sha256_update evp st kChunk) s cs = Inr st'"
    by auto
  have "s = st\<lparr>s_content := s_content st @ c\<rparr>"
    using s update_content(1) by (auto split: if_splits)
  then show ?case
    using Cons.IH [OF rest] by simp
qed simp

lemma sha256Bytes_Inr:
  "sha256Bytes evp bytes = Inr h \<Longrightarrow>
   \<exists>digest. evp_final evp bytes = Some digest \<and> length digest = 32 \<and> h = hex_text digest"
  by (auto simp: sha256Bytes_def sha256_begin_def sha256_stream_def sha256_finish_def Let_def
      dest!: update_content(1) split: if_splits option.splits)

lemma sha256File_Inr:
  "sha256File evp path reads = Inr h \<Longrightarrow>
   \<exists>digest. evp_final evp (concat (fr_chunks reads)) = Some digest \<and> length digest = 32 \<and> h = hex_text digest"
  by (auto simp: sha256File_def sha256_begin_def sha256_stream_def sha256_finish_def Let_def
      dest!: updates_content split: if_splits option.splits)

lemma hex_text_lowercase:
  assumes "\<forall>b\<in>set digest. b < 256" and "c \<in> set (hex_text digest)"
  shows "hex_value c \<noteq> None"
proof -
  obtain b where b: "b < 256" "c = hex_char (b div 16) \<or> c = hex_char (b mod 16)"
    using assms by (auto simp: hex_text_def)
  then have "b div 16 < 16" "b mod 16 < 16"
    by (simp_all add: div_less_iff_less_mult)
  then show ?thesis
    using b(2) by auto
qed

text \<open>
  The digest of a file is the digest of its content in memory, however the reads split the
  content: whenever both report a digest the two are equal.
\<close>

theorem file_digest_is_content_digest:
  assumes "sha256File evp path reads = Inr h"
    and "sha256Bytes evp (concat (fr_chunks reads)) = Inr h'"
  shows "h = h' \<and> length h = 64"
  using sha256File_Inr [OF assms(1)] sha256Bytes_Inr [OF assms(2)] by auto

theorem file_digest_is_content_digest_witness:
  "length (hex_text (replicate 32 0)) = 64"
proof -
  let ?evp = "\<lparr>evp_new = True, evp_init = True, evp_update = \<lambda>_ _. True,
    evp_final = \<lambda>_. Some (replicate 32 0)\<rparr>"
  let ?reads = "\<lparr>fr_opens = True, fr_chunks = [''ab'', ''c''], fr_eof = True\<rparr>"
  have "sha256File ?evp ''p'' ?reads = Inr (hex_text (replicate 32 0))"
    by (simp add: sha256File_def sha256_begin_def sha256_stream_def sha256_update_def sha256_finish_def)
  moreover have "sha256Bytes ?evp (concat (fr_chunks ?reads)) = Inr (hex_text (replicate 32 0))"
    by (simp add: sha256Bytes_def sha256_begin_def sha256_stream_def sha256_update_def sha256_finish_def)
  ultimately show ?thesis
    by (rule conjunct2 [OF file_digest_is_content_digest])
qed

text \<open>
  A finished stream accepts nothing more: after \<open>finish\<close>, whatever it answered, every
  further update and every further finish fails.
\<close>

theorem finished_stream_is_closed:
  "sha256_finish evp st = (r, st') \<and> s_started st \<Longrightarrow>
   \<not> is_ok (sha256_update evp st' chunk) \<and> \<not> is_ok (fst (sha256_finish evp st')) \<and> \<not> is_ok (sha256_begin evp st')"
  by (auto simp: sha256_finish_def sha256_update_def sha256_begin_def fail_def Let_def
      split: if_splits option.splits)

theorem finished_stream_is_closed_witness:
  "\<exists>evp st. \<not> is_ok (sha256_update evp (snd (sha256_finish evp st)) ''x'')"
proof -
  let ?evp = "\<lparr>evp_new = True, evp_init = True, evp_update = \<lambda>_ _. True, evp_final = \<lambda>_. None\<rparr>"
  let ?st = "(sha256_stream ?evp ''s'')\<lparr>s_started := True\<rparr>"
  have "\<not> is_ok (sha256_update ?evp (snd (sha256_finish ?evp ?st)) ''x'')"
    by (rule conjunct1 [OF finished_stream_is_closed [of ?evp ?st "fst (sha256_finish ?evp ?st)"]])
      (simp add: sha256_stream_def)
  then show ?thesis by blast
qed

end
