(* ===== verification/Evidence_Descriptor.thy ===== *)
theory Evidence_Descriptor
  imports Evidence_Json Evidence_Sha256
begin

text \<open>
  \<open>descriptor.cpp\<close>, \<open>record_gate.cpp\<close>, \<open>schema_oracle.cpp\<close> (its call) and
  \<open>raw_run_receipt.cpp\<close> of \<open>tools/rf_evidence/src\<close>: external content identity, the checks
  every evidence record passes because it is one, and the receipt that composes them.
\<close>

section \<open>Descriptors\<close>

definition kDigestPrefix :: string where "kDigestPrefix = ''sha256:''"
definition kDigestHexLength :: nat where "kDigestHexLength = 64"

record Descriptor =
  d_mediaType :: bytes
  d_byteLength :: nat   \<comment> \<open>\<open>std::uint64_t\<close>\<close>
  d_digest :: bytes

text \<open>\<open>static_cast\<close> between \<open>std::uint64_t\<close> and \<open>std::int64_t\<close>.\<close>

definition to_int64 :: "nat \<Rightarrow> int" where
  "to_int64 n = (if n < 2 ^ 63 then int n else int n - 2 ^ 64)"

definition mismatch :: "string \<Rightarrow> 'a RecordResult" where
  "mismatch detail = reject RecDescriptorMismatch detail"

lemma mismatch_simps [simp]: "mismatch d \<noteq> Inr x" "Inr x \<noteq> mismatch d" "rbind (mismatch d) f = mismatch d"
  by (simp_all add: mismatch_def)

definition isLowercaseHex :: "bytes \<Rightarrow> bool" where
  "isLowercaseHex t =
     list_all (\<lambda>c. (CHR ''0'' \<le> c \<and> c \<le> CHR ''9'') \<or> (CHR ''a'' \<le> c \<and> c \<le> CHR ''f'')) t"

definition checkDigestForm :: "bytes \<Rightarrow> RecordStatus" where
  "checkDigestForm digest =
     (if \<not> starts_with digest kDigestPrefix
      then (case index_of CHR '':'' digest of
              None \<Rightarrow> mismatch (''digest carries no algorithm prefix: '' @ digest)
            | Some kSeparator \<Rightarrow> mismatch (''unsupported digest algorithm: '' @ take kSeparator digest))
      else let kHex = drop (length kDigestPrefix) digest in
        if length kHex \<noteq> kDigestHexLength then mismatch ''digest is not 64 hexadecimal characters''
        else if \<not> isLowercaseHex kHex then mismatch ''digest is not lowercase hexadecimal''
        else Inr ())"

definition describeBytes :: "Provider \<Rightarrow> bytes \<Rightarrow> bytes \<Rightarrow> Descriptor RecordResult" where
  "describeBytes evp bytes mediaType =
     (if mediaType = [] then mismatch ''media type is empty''
      else (case sha256Bytes evp bytes of
              Inl e \<Rightarrow> mismatch (''failed to digest content: '' @ f_message e)
            | Inr digest \<Rightarrow> Inr \<lparr>d_mediaType = mediaType, d_byteLength = length bytes,
                               d_digest = kDigestPrefix @ digest\<rparr>))"

definition parseDescriptor :: "CanonicalValue \<Rightarrow> Descriptor RecordResult" where
  "parseDescriptor v =
     (if value_kind v \<noteq> KObject then mismatch ''descriptor is not an object''
      else if length (value_members v) \<noteq> 3
      then mismatch ''descriptor must carry exactly mediaType, byteLength, and digest''
      else (case (find_member v ''mediaType'', find_member v ''byteLength'', find_member v ''digest'') of
              (Some kMediaType, Some kByteLength, Some kDigest) \<Rightarrow>
                (if value_kind kMediaType \<noteq> KString then mismatch ''descriptor mediaType is not a string''
                 else if value_kind kDigest \<noteq> KString then mismatch ''descriptor digest is not a string''
                 else if value_kind kByteLength \<noteq> KInteger \<or> value_integer kByteLength < 0
                 then mismatch ''descriptor byteLength is not a non-negative integer''
                 else rbind (checkDigestForm (value_text kDigest)) (\<lambda>_.
                   Inr \<lparr>d_mediaType = value_text kMediaType, d_byteLength = nat (value_integer kByteLength),
                        d_digest = value_text kDigest\<rparr>))
            | _ \<Rightarrow> mismatch ''descriptor is missing a required member''))"

definition verifyDescriptor :: "Provider \<Rightarrow> Descriptor \<Rightarrow> bytes \<Rightarrow> bytes \<Rightarrow> RecordStatus" where
  "verifyDescriptor evp descriptor bytes expectedMediaType =
     (if expectedMediaType \<noteq> [] \<and> d_mediaType descriptor \<noteq> expectedMediaType
      then mismatch (''descriptor media type is '' @ d_mediaType descriptor @ '', expected '' @ expectedMediaType)
      else rbind (checkDigestForm (d_digest descriptor)) (\<lambda>_.
        if d_byteLength descriptor \<noteq> length bytes
        then mismatch ''descriptor byte length disagrees with the content''
        else (case sha256Bytes evp bytes of
                Inl e \<Rightarrow> mismatch (''failed to digest content: '' @ f_message e)
              | Inr digest \<Rightarrow>
                  if d_digest descriptor \<noteq> kDigestPrefix @ digest
                  then mismatch ''descriptor digest disagrees with the content''
                  else Inr ())))"

definition describeAsValue :: "Descriptor \<Rightarrow> CanonicalValue" where
  "describeAsValue descriptor =
     makeObject [(''mediaType'', CString (d_mediaType descriptor)),
                 (''byteLength'', CInteger (to_int64 (d_byteLength descriptor))),
                 (''digest'', CString (d_digest descriptor))]"

section \<open>The gate every record passes\<close>

definition kForbiddenMemberNames :: "bytes list" where
  "kForbiddenMemberNames = [''accepted'', ''baseline'', ''fail'', ''failed'', ''pass'', ''passed'',
     ''promoted'', ''regressed'', ''verdict'']"

fun walkMemberNames :: "CanonicalValue \<Rightarrow> RecordStatus"
  and walkElements :: "CanonicalValue list \<Rightarrow> RecordStatus"
  and walkMembers :: "Member list \<Rightarrow> RecordStatus"
where
  "walkMemberNames v =
     (case v of
        CArray es \<Rightarrow> walkElements es
      | CObject ms \<Rightarrow> walkMembers ms
      | _ \<Rightarrow> Inr ())"
| "walkElements [] = Inr ()"
| "walkElements (kElement # es) = rbind (walkMemberNames kElement) (\<lambda>_. walkElements es)"
| "walkMembers [] = Inr ()"
| "walkMembers ((name, child) # ms) =
     (if name \<in> set kForbiddenMemberNames
      then reject RecSchemaInvalid (''an evidence record may not carry a verdict member: '' @ name)
      else rbind (walkMemberNames child) (\<lambda>_. walkMembers ms))"

definition checkProducerAuthority :: "CanonicalValue \<Rightarrow> RecordStatus" where
  "checkProducerAuthority record = walkMemberNames record"

definition rindex_of_str :: "string \<Rightarrow> string \<Rightarrow> nat option" where
  "rindex_of_str p s = map_option (\<lambda>k. length s - length p - k) (index_of_str (rev p) (rev s))"

definition mediaTypeGeneration :: "bytes \<Rightarrow> int RecordResult" where
  "mediaTypeGeneration mediaType =
     (if \<not> ends_with mediaType ''+json''
      then reject RecDescriptorMismatch ''media type does not name a JSON record''
      else let body = take (length mediaType - length ''+json'') mediaType
      in (case rindex_of_str ''.v'' body of
            None \<Rightarrow> reject RecDescriptorMismatch ''media type carries no format generation''
          | Some kMarker \<Rightarrow>
              let kDigits = drop (kMarker + 2) body
              in if kDigits = [] \<or> \<not> list_all is_digit kDigits
              then reject RecDescriptorMismatch ''media type generation is not a number''
              else (case from_chars_i64 kDigits of
                      None \<Rightarrow> reject RecDescriptorMismatch ''media type generation is out of range''
                    | Some generation \<Rightarrow> Inr generation)))"

definition readRecordKind :: "CanonicalValue \<Rightarrow> bytes RecordResult" where
  "readRecordKind record =
     (case find_member record ''recordKind'' of
        None \<Rightarrow> reject RecSchemaInvalid ''record carries no recordKind''
      | Some kKind \<Rightarrow>
          if value_kind kKind \<noteq> KString then reject RecSchemaInvalid ''record carries no recordKind''
          else Inr (value_text kKind))"

definition checkRecordKind :: "CanonicalValue \<Rightarrow> bytes \<Rightarrow> RecordStatus" where
  "checkRecordKind record expectedKind =
     rbind (readRecordKind record) (\<lambda>declared.
       if declared \<noteq> expectedKind
       then reject RecDescriptorMismatch
         (''record declares kind '' @ declared @ '' where '' @ expectedKind @ '' was required'')
       else Inr ())"

definition checkGenerationMatches :: "CanonicalValue \<Rightarrow> bytes \<Rightarrow> int \<Rightarrow> RecordStatus" where
  "checkGenerationMatches record mediaType expectedGeneration =
     (case find_member record ''schemaVersion'' of
        None \<Rightarrow> reject RecSchemaInvalid ''record carries no integer schemaVersion''
      | Some kVersion \<Rightarrow>
          if value_kind kVersion \<noteq> KInteger
          then reject RecSchemaInvalid ''record carries no integer schemaVersion''
          else rbind (mediaTypeGeneration mediaType) (\<lambda>declared.
            if value_integer kVersion \<noteq> declared
            then reject RecDescriptorMismatch ''record schemaVersion and media type generation disagree''
            else if value_integer kVersion \<noteq> expectedGeneration
            then reject RecSchemaInvalid ''record is not a generation 1 evidence record''
            else Inr ()))"

text \<open>
  The schema oracle is an external process: the parameter says which files pass the JSON
  admission policy and how a bounded run with given arguments ends.
\<close>

record Oracle =
  or_admission :: "string \<Rightarrow> Status"
  or_run :: "string list \<Rightarrow> int Result"   \<comment> \<open>exit code\<close>

definition oraclePath :: "string \<Rightarrow> string" where
  "oraclePath root = root @ ''/out/prepared/linux-x86_64/tools/jsonschema/bin/jsonschema''"

definition validateJsonShape :: "Oracle \<Rightarrow> string \<Rightarrow> string \<Rightarrow> string \<Rightarrow> string list \<Rightarrow> Status" where
  "validateJsonShape oracle root schemaPath instancePath imports =
     rbind (or_admission oracle schemaPath) (\<lambda>_.
     rbind (or_admission oracle instancePath) (\<lambda>_.
     rbind (rfold (\<lambda>arguments kImport.
              rbind (or_admission oracle kImport) (\<lambda>_. Inr (arguments @ [''--resolve'', kImport])))
            [''validate'', schemaPath, instancePath] imports) (\<lambda>arguments.
     rbind (or_run oracle arguments) (\<lambda>exitCode.
       if exitCode = 0 then Inr ()
       else if exitCode = 2
       then fail InvalidManifest instancePath ''generic Draft 2020-12 shape validation failed''
       else fail VerificationFailed (oraclePath root)
         ''schema oracle terminated with an unexpected exit code''))))"

definition kEvidenceCommonSchemaPath :: string where
  "kEvidenceCommonSchemaPath = ''schemas/evidence-common-v1.schema.json''"

definition path_join :: "string \<Rightarrow> string \<Rightarrow> string" where
  "path_join root rel = root @ ''/'' @ rel"

definition validateAgainstSchema :: "Oracle \<Rightarrow> string \<Rightarrow> string \<Rightarrow> string \<Rightarrow> RecordStatus" where
  "validateAgainstSchema oracle root schemaRelativePath instancePath =
     (case validateJsonShape oracle root (path_join root schemaRelativePath) instancePath
             [path_join root kEvidenceCommonSchemaPath] of
        Inr _ \<Rightarrow> Inr ()
      | Inl e \<Rightarrow>
          if f_code e = InvalidManifest
          then reject RecSchemaInvalid ''the record does not satisfy its schema''
          else reject RecSchemaInvalid (''schema validation could not be performed: '' @ f_message e))"

section \<open>The raw run receipt\<close>

record RawRunReceiptSummary =
  rr_runId :: bytes
  rr_status :: bytes
  rr_provenance :: bytes
  rr_metricCount :: nat
  rr_lifecycleEventCount :: nat
  rr_attachmentCount :: nat

definition countAt :: "CanonicalValue \<Rightarrow> bytes \<Rightarrow> bytes \<Rightarrow> nat" where
  "countAt record grp member =
     (case find_member record grp of
        None \<Rightarrow> 0
      | Some kGroup \<Rightarrow>
          (case find_member kGroup member of
             None \<Rightarrow> 0
           | Some kArray \<Rightarrow> if value_kind kArray \<noteq> KArray then 0 else length (value_elements kArray)))"

definition textAt :: "CanonicalValue \<Rightarrow> bytes \<Rightarrow> bytes \<Rightarrow> bytes" where
  "textAt record grp member =
     (let kValue = (if grp = [] then find_member record member
                    else (case find_member record grp of
                            None \<Rightarrow> None
                          | Some kGroup \<Rightarrow> find_member kGroup member))
      in (case kValue of
            None \<Rightarrow> []
          | Some v \<Rightarrow> if value_kind v \<noteq> KString then [] else value_text v))"

definition summarizeRawRunReceipt :: "CanonicalValue \<Rightarrow> RawRunReceiptSummary RecordResult" where
  "summarizeRawRunReceipt record =
     (if value_kind record \<noteq> KObject then reject RecSchemaInvalid ''record is not an object''
      else let summary = \<lparr>rr_runId = textAt record [] ''runId'', rr_status = textAt record [] ''status'',
             rr_provenance = textAt record ''trust'' ''provenance'',
             rr_metricCount = countAt record ''observations'' ''metrics'',
             rr_lifecycleEventCount = countAt record ''observations'' ''lifecycleEvents'',
             rr_attachmentCount = countAt record ''observations'' ''attachments''\<rparr>
      in if rr_runId summary = [] \<or> rr_status summary = [] \<or> rr_provenance summary = []
      then reject RecSchemaInvalid ''record is missing a required identity member''
      else Inr summary)"

definition kRawRunReceiptMediaType :: bytes where
  "kRawRunReceiptMediaType = ''application/vnd.rawframe.evidence.raw-run-receipt.v1+json''"

definition validateRawRunReceipt ::
  "Oracle \<Rightarrow> string \<Rightarrow> string \<Rightarrow> CanonicalValue \<Rightarrow> bytes \<Rightarrow> RawRunReceiptSummary RecordResult" where
  "validateRawRunReceipt oracle root instancePath record mediaType =
     rbind (checkProducerAuthority record) (\<lambda>_.
     rbind (checkRecordKind record ''raw_run_receipt'') (\<lambda>_.
     rbind (validateAgainstSchema oracle root ''schemas/raw-run-receipt-v1.schema.json'' instancePath) (\<lambda>_.
     rbind (checkGenerationMatches record mediaType 1) (\<lambda>_.
       summarizeRawRunReceipt record))))"

definition summaryMembers :: "Descriptor \<Rightarrow> RawRunReceiptSummary \<Rightarrow> Member list" where
  "summaryMembers descriptor summary =
     [(''ok'', CBoolean True), (''descriptor'', describeAsValue descriptor),
      (''runId'', CString (rr_runId summary)), (''status'', CString (rr_status summary)),
      (''provenance'', CString (rr_provenance summary)),
      (''metricCount'', CInteger (to_int64 (rr_metricCount summary))),
      (''lifecycleEventCount'', CInteger (to_int64 (rr_lifecycleEventCount summary))),
      (''attachmentCount'', CInteger (to_int64 (rr_attachmentCount summary)))]"

definition emitObject :: "Member list \<Rightarrow> bytes" where
  "emitObject members = serializeCanonical (makeObject members)"

definition buildCanonicalizeOutput :: "Descriptor \<Rightarrow> RawRunReceiptSummary \<Rightarrow> bytes" where
  "buildCanonicalizeOutput descriptor summary =
     emitObject (summaryMembers descriptor summary @ [(''operation'', CString ''canonicalize'')])"

definition buildValidateOutput :: "Descriptor \<Rightarrow> RawRunReceiptSummary \<Rightarrow> bytes" where
  "buildValidateOutput descriptor summary =
     emitObject (summaryMembers descriptor summary @ [(''operation'', CString ''validate'')])"

definition buildRejectionOutput :: "RecordFailure \<Rightarrow> bytes" where
  "buildRejectionOutput failure =
     emitObject [(''ok'', CBoolean False),
       (''rejection'', CString (recordRejectionName (rf_rejection failure))),
       (''detail'', CString (rf_detail failure))]"

section \<open>Properties\<close>

fun member_names :: "CanonicalValue \<Rightarrow> bytes set" where
  "member_names (CArray es) = (\<Union>e\<in>set es. member_names e)"
| "member_names (CObject ms) = (\<Union>m\<in>set ms. insert (fst m) (member_names (snd m)))"
| "member_names _ = {}"

lemma walk_iff:
  "walkMemberNames v = Inr () \<longleftrightarrow> member_names v \<inter> set kForbiddenMemberNames = {}"
  "walkElements es = Inr () \<longleftrightarrow> (\<Union>e\<in>set es. member_names e) \<inter> set kForbiddenMemberNames = {}"
  "walkMembers ms = Inr () \<longleftrightarrow>
     (\<Union>m\<in>set ms. insert (fst m) (member_names (snd m))) \<inter> set kForbiddenMemberNames = {}"
proof (induction v and es and ms rule: walkMemberNames_walkElements_walkMembers.induct)
  case (1 v)
  then show ?case by (cases v) auto
qed (auto simp: rbind_Inr_iff)

lemma isLowercaseHex_iff: "isLowercaseHex t \<longleftrightarrow> (\<forall>c\<in>set t. hex_value c \<noteq> None)"
  by (auto simp: isLowercaseHex_def list_all_iff hex_value_def)

lemma checkDigestForm_iff:
  "checkDigestForm digest = Inr () \<longleftrightarrow>
     (\<exists>h. digest = kDigestPrefix @ h \<and> length h = 64 \<and> (\<forall>c\<in>set h. hex_value c \<noteq> None))"
  by (auto simp: checkDigestForm_def starts_with_iff Let_def isLowercaseHex_iff kDigestHexLength_def
      split: option.splits)

lemma sha256Bytes_form:
  assumes "provider_ok evp" "sha256Bytes evp bytes = Inr h"
  shows "checkDigestForm (kDigestPrefix @ h) = Inr ()"
proof -
  obtain digest where "evp_final evp bytes = Some digest" "length digest = 32" "h = hex_text digest"
    using sha256Bytes_Inr [OF assms(2)] by blast
  then show ?thesis
    using assms(1) hex_text_lowercase [of digest] unfolding checkDigestForm_iff provider_ok_def
    by (intro exI [of _ h]) auto
qed

lemma verifyDescriptor_iff:
  assumes "provider_ok evp"
  shows "verifyDescriptor evp d bytes expected = Inr () \<longleftrightarrow>
    (expected = [] \<or> d_mediaType d = expected) \<and> d_byteLength d = length bytes
    \<and> (\<exists>h. sha256Bytes evp bytes = Inr h \<and> d_digest d = kDigestPrefix @ h)"
  using sha256Bytes_form [OF assms, of bytes]
  by (auto simp: verifyDescriptor_def rbind_Inr_iff split: sum.splits)

lemma index_of_str_first:
  "c \<notin> set xs \<Longrightarrow> index_of_str (c # p) (xs @ c # p @ ys) = Some (length xs)"
  by (induction xs) (auto simp: starts_with_def)

lemma mediaTypeGeneration_number:
  assumes "int n \<le> int64_max"
  shows "mediaTypeGeneration (u @ ''.v'' @ nat_to_string n @ ''+json'') = Inr (int n)"
proof -
  have digits: "list_all is_digit (nat_to_string n)"
    using nat_to_string_digits [of n] by (simp add: list_all_iff)
  have "\<not> is_digit (CHR ''v'')"
    by (simp add: is_digit_def)
  then have "CHR ''v'' \<notin> set (rev (nat_to_string n))"
    using digits by (auto simp: list_all_iff)
  from index_of_str_first [OF this, of "''.''" "rev u"]
  have marker: "rindex_of_str ''.v'' (u @ ''.v'' @ nat_to_string n) = Some (length u)"
    by (simp add: rindex_of_str_def)
  have body: "take (length (u @ ''.v'' @ nat_to_string n @ ''+json'') - length ''+json'')
      (u @ ''.v'' @ nat_to_string n @ ''+json'') = u @ ''.v'' @ nat_to_string n"
    by simp
  have "from_chars_i64 (nat_to_string n) = Some (int n)"
    using from_chars_i64_to_string [of "int n"] assms by (simp add: int_to_string_def int64_min_def)
  moreover have "ends_with (u @ ''.v'' @ nat_to_string n @ ''+json'') ''+json''"
    by (simp add: ends_with_iff)
  ultimately show ?thesis
    unfolding mediaTypeGeneration_def body Let_def marker using digits by simp
qed

lemma describeAsValue_find:
  "find_member (describeAsValue d) ''mediaType'' = Some (CString (d_mediaType d))"
  "find_member (describeAsValue d) ''byteLength'' = Some (CInteger (to_int64 (d_byteLength d)))"
  "find_member (describeAsValue d) ''digest'' = Some (CString (d_digest d))"
  by (simp_all add: describeAsValue_def find_makeObject utf8Valid_ascii)

lemma describeAsValue_shape [simp]:
  "value_kind (describeAsValue d) = KObject" "length (value_members (describeAsValue d)) = 3"
  by (simp_all add: describeAsValue_def makeObject_def)

lemma parse_describeAsValue:
  assumes "checkDigestForm (d_digest d) = Inr ()" "d_byteLength d < 2 ^ 63"
  shows "parseDescriptor (describeAsValue d) = Inr d"
  using assms by (simp add: parseDescriptor_def describeAsValue_find to_int64_def)

text \<open>
  A record passes the producer-authority gate exactly when no member name at any depth is
  one of the verdict words.
\<close>

theorem producer_authority_exact:
  "checkProducerAuthority record = Inr () \<longleftrightarrow> member_names record \<inter> set kForbiddenMemberNames = {}"
  by (simp only: checkProducerAuthority_def walk_iff)

text \<open>
  A descriptor verifies exactly the bytes it names: the media type asked for (if any), the
  length and the SHA-256 digest of the content must all agree, and nothing else is accepted.
\<close>

theorem descriptor_identifies_bytes:
  assumes "provider_ok evp"
  shows "verifyDescriptor evp d bytes expected = Inr () \<longleftrightarrow>
    (expected = [] \<or> d_mediaType d = expected) \<and> d_byteLength d = length bytes
    \<and> (\<exists>h. sha256Bytes evp bytes = Inr h \<and> d_digest d = kDigestPrefix @ h)"
  using assms by (rule verifyDescriptor_iff)

definition demo_provider :: Provider where
  "demo_provider = \<lparr>evp_new = True, evp_init = True, evp_update = \<lambda>_ _. True,
     evp_final = \<lambda>content. Some (replicate 31 7 @ [length content mod 256])\<rparr>"

lemma demo_provider_ok: "provider_ok demo_provider"
  by (auto simp: provider_ok_def demo_provider_def)

lemma demo_provider_digest:
  "sha256Bytes demo_provider c = Inr (hex_text (replicate 31 7 @ [length c mod 256]))"
  by (simp add: demo_provider_def sha256Bytes_def sha256_begin_def sha256_stream_def sha256_update_def
      sha256_finish_def)

theorem descriptor_identifies_bytes_witness:
  "\<not> is_ok (verifyDescriptor demo_provider
      \<lparr>d_mediaType = ''m'', d_byteLength = 3, d_digest = ''sha256:''\<rparr> ''ab'' [])"
  using descriptor_identifies_bytes [OF demo_provider_ok,
      of "\<lparr>d_mediaType = ''m'', d_byteLength = 3, d_digest = ''sha256:''\<rparr>" "''ab''" "[]"]
  by (simp add: is_ok_iff)

text \<open>
  Content that was just described survives the round trip: its descriptor, written into a
  record and read back, is the same descriptor and verifies the content it was made from.
\<close>

theorem descriptor_roundtrip:
  assumes "provider_ok evp" and "describeBytes evp bytes mediaType = Inr d" and "length bytes < 2 ^ 63"
  shows "parseDescriptor (describeAsValue d) = Inr d \<and> verifyDescriptor evp d bytes mediaType = Inr ()"
proof -
  obtain h where h: "sha256Bytes evp bytes = Inr h"
    and d: "d = \<lparr>d_mediaType = mediaType, d_byteLength = length bytes, d_digest = kDigestPrefix @ h\<rparr>"
    using assms(2) by (auto simp: describeBytes_def split: if_splits sum.splits)
  have "checkDigestForm (d_digest d) = Inr ()"
    using sha256Bytes_form [OF assms(1) h] d by simp
  then show ?thesis
    using parse_describeAsValue [of d] verifyDescriptor_iff [OF assms(1)] assms(3) d h by simp
qed

theorem descriptor_roundtrip_witness:
  "\<exists>d. describeBytes demo_provider ''ab'' ''m'' = Inr d \<and> parseDescriptor (describeAsValue d) = Inr d"
proof -
  obtain d where d: "describeBytes demo_provider ''ab'' ''m'' = Inr d"
    by (simp add: describeBytes_def demo_provider_digest)
  have "parseDescriptor (describeAsValue d) = Inr d \<and> verifyDescriptor demo_provider d ''ab'' ''m'' = Inr ()"
    by (rule descriptor_roundtrip [OF demo_provider_ok d]) simp
  then show ?thesis
    using d by blast
qed

text \<open>
  For a media type that ends in a generation number, the generation gate accepts a record
  exactly when its own schemaVersion is that number and the number is the generation asked for.
\<close>

theorem generation_gate_exact:
  assumes "int n \<le> int64_max"
  shows "checkGenerationMatches record (prefix @ ''.v'' @ nat_to_string n @ ''+json'') g = Inr () \<longleftrightarrow>
    find_member record ''schemaVersion'' = Some (CInteger (int n)) \<and> g = int n"
proof (cases "find_member record ''schemaVersion''")
  case (Some v)
  then show ?thesis
    using mediaTypeGeneration_number [OF assms, of "prefix"]
    by (cases v) (auto simp: checkGenerationMatches_def)
qed (simp add: checkGenerationMatches_def)

theorem generation_gate_exact_witness:
  "\<not> is_ok (checkGenerationMatches CNull kRawRunReceiptMediaType 1)"
proof -
  have "kRawRunReceiptMediaType = ''application/vnd.rawframe.evidence.raw-run-receipt'' @ ''.v'' @ nat_to_string 1 @ ''+json''"
    by (simp add: kRawRunReceiptMediaType_def nat_to_string.simps digit_char_values)
  then show ?thesis
    using generation_gate_exact [of 1 CNull "''application/vnd.rawframe.evidence.raw-run-receipt''" 1]
    by (simp add: is_ok_iff int64_max_def find_member_def lower_bound_from_def)
qed

end
