(* ===== verification/Evidence_Files.thy ===== *)
theory Evidence_Files
  imports Evidence_Descriptor
begin

text \<open>
  \<open>tools/rf_evidence/src/file_reader.cpp\<close> and the interface of \<open>process_runner.h\<close>: the bounded
  read of a maintained file, and the request and answer of a bounded child process.  What the file
  system answers about a path is a record; the run of a process is a parameter of those that ask for it.
\<close>

record FileProbe =
  pb_exists :: bool               \<comment> \<open>\<open>status\<close> succeeds and something is there\<close>
  pb_regular :: bool
  pb_size :: "nat option"         \<comment> \<open>\<open>None\<close>: the size cannot be told\<close>
  pb_opens :: bool
  pb_content :: "bytes option"    \<comment> \<open>what a read of that many bytes delivers; \<open>None\<close>: the read fails\<close>

definition kMaximumMaintainedJsonBytes :: nat where "kMaximumMaintainedJsonBytes = 1048576"

definition readBoundedFile :: "(bytes \<Rightarrow> bool) \<Rightarrow> FileProbe \<Rightarrow> string \<Rightarrow> nat \<Rightarrow> bytes Result" where
  "readBoundedFile validate_utf8 probe path maximumBytes =
     (if \<not> pb_exists probe then fail MissingInput path ''file is missing or unreadable''
      else if \<not> pb_regular probe then fail InvalidPath path ''path does not name a regular file''
      else case pb_size probe of
        None \<Rightarrow> fail MissingInput path ''file is missing or unreadable''
      | Some kSize \<Rightarrow>
          if maximumBytes < kSize then fail LimitExceeded path ''file exceeds its byte limit''
          else if \<not> pb_opens probe then fail IoFailure path ''failed to open file''
          else (case (if kSize = 0 then Some [] else pb_content probe) of
              None \<Rightarrow> fail IoFailure path ''failed to read exact file bytes''
            | Some bytes \<Rightarrow>
                if length bytes \<noteq> kSize then fail IoFailure path ''failed to read exact file bytes''
                else if \<not> validate_utf8 bytes then fail InvalidJson path ''text is not valid UTF-8''
                else if starts_with bytes [CHR 0xEF, CHR 0xBB, CHR 0xBF]
                then fail InvalidJson path ''UTF-8 BOM is forbidden''
                else Inr bytes))"

record ProcessRequest =
  pr_executable :: string
  pr_arguments :: "string list"
  pr_workingDirectory :: string
  pr_captureDirectory :: string
  pr_timeout :: nat   \<comment> \<open>milliseconds\<close>
  pr_maximumStandardOutputBytes :: nat
  pr_maximumStandardErrorBytes :: nat
  pr_maximumPrivateMemoryBytes :: nat

record ProcessResult =
  ps_exitCode :: int
  ps_standardOutput :: bytes
  ps_standardError :: bytes

definition processRequest :: ProcessRequest where
  "processRequest = \<lparr>pr_executable = [], pr_arguments = [], pr_workingDirectory = [], pr_captureDirectory = [],
     pr_timeout = 15000, pr_maximumStandardOutputBytes = 1048576, pr_maximumStandardErrorBytes = 1048576,
     pr_maximumPrivateMemoryBytes = 268435456\<rparr>"

lemma readBoundedFile_ok:
  assumes "readBoundedFile validate_utf8 probe path limit = Inr bytes"
  shows "length bytes \<le> limit" and "validate_utf8 bytes" and "pb_regular probe"
    and "bytes \<noteq> [] \<Longrightarrow> pb_content probe = Some bytes"
  using assms by (auto simp: readBoundedFile_def split: if_splits option.splits)

end
