(* ===== verification/Evidence_Attestation.thy ===== *)
theory Evidence_Attestation
  imports Evidence_Files "HOL-Library.Word"
begin

unbundle bit_operations_syntax

text \<open>
  \<open>tools/rf_evidence/src/attestation.{h,cpp}\<close>: the claim of a record about its own provenance, the
  decoding of the bundle that should prove it, and the policy that compares the two.  The signature
  itself is verified by an external tool: its run is a parameter, and so are the file system and the
  two parsers below the code (the JSON parser and the hash).
\<close>

section \<open>Why an attestation is refused\<close>

datatype AttestationRejection =
    ClaimMalformed | BundleUnreadable | BundleMalformed | EnvelopeMismatch | StatementMismatch | SubjectMismatch
  | BuilderMismatch | SourceMismatch | WorkflowMismatch | RunIdentityMissing | RunIdentityReplayed
  | RunnerEnvironmentUnadmitted | SignatureInvalid | VerifierUnavailable

fun attestationRejectionName :: "AttestationRejection \<Rightarrow> string" where
  "attestationRejectionName ClaimMalformed = ''claim_malformed''"
| "attestationRejectionName BundleUnreadable = ''bundle_unreadable''"
| "attestationRejectionName BundleMalformed = ''bundle_malformed''"
| "attestationRejectionName EnvelopeMismatch = ''envelope_mismatch''"
| "attestationRejectionName StatementMismatch = ''statement_mismatch''"
| "attestationRejectionName SubjectMismatch = ''subject_mismatch''"
| "attestationRejectionName BuilderMismatch = ''builder_mismatch''"
| "attestationRejectionName SourceMismatch = ''source_mismatch''"
| "attestationRejectionName WorkflowMismatch = ''workflow_mismatch''"
| "attestationRejectionName RunIdentityMissing = ''run_identity_missing''"
| "attestationRejectionName RunIdentityReplayed = ''run_identity_replayed''"
| "attestationRejectionName RunnerEnvironmentUnadmitted = ''runner_environment_unadmitted''"
| "attestationRejectionName SignatureInvalid = ''signature_invalid''"
| "attestationRejectionName VerifierUnavailable = ''verifier_unavailable''"

record AttestationFailure =
  af_rejection :: AttestationRejection
  af_detail :: string

type_synonym 'a AttestationResult = "AttestationFailure + 'a"

definition attRefuse :: "AttestationRejection \<Rightarrow> string \<Rightarrow> 'a AttestationResult" where
  "attRefuse rejection detail = Inl \<lparr>af_rejection = rejection, af_detail = detail\<rparr>"

lemma attRefuse_simps [simp]: "attRefuse r d \<noteq> Inr x" "Inr x \<noteq> attRefuse r d" "rbind (attRefuse r d) f = attRefuse r d"
  by (simp_all add: attRefuse_def)

section \<open>The accepted identities\<close>

definition kSigstoreBundleMediaType :: string where
  "kSigstoreBundleMediaType = ''application/vnd.dev.sigstore.bundle.v0.3+json''"
definition kInTotoPayloadType :: string where "kInTotoPayloadType = ''application/vnd.in-toto+json''"
definition kInTotoStatementType :: string where "kInTotoStatementType = ''https://in-toto.io/Statement/v1''"
definition kSlsaProvenancePredicateType :: string where
  "kSlsaProvenancePredicateType = ''https://slsa.dev/provenance/v1''"
definition kMaximumBundleBytes :: nat where "kMaximumBundleBytes = 262144"
definition kVerifierTimeout :: nat where "kVerifierTimeout = 120000"
definition kTrustedCertificateIssuer :: string where
  "kTrustedCertificateIssuer = ''https://token.actions.githubusercontent.com''"
definition kTrustedSourceRepositoryUri :: string where
  "kTrustedSourceRepositoryUri = ''https://github.com/Rawframe-Project/rawframe''"
definition kTrustedSourceRepositoryPath :: string where
  "kTrustedSourceRepositoryPath = ''Rawframe-Project/rawframe''"
definition kTrustedProtectedRef :: string where "kTrustedProtectedRef = ''refs/heads/main''"
definition kTrustedProducerWorkflowPath :: string where
  "kTrustedProducerWorkflowPath = ''.github/workflows/trusted-verification.yml''"
definition kTrustedEntryWorkflowPath :: string where
  "kTrustedEntryWorkflowPath = ''.github/workflows/verify-main.yml''"
definition kTrustedRunnerEnvironment :: string where "kTrustedRunnerEnvironment = ''github-hosted''"
definition kTrustedCertificateIdentity :: string where
  "kTrustedCertificateIdentity =
     ''https://github.com/Rawframe-Project/rawframe/.github/workflows/trusted-verification.yml@refs/heads/main''"

record AttestationClaim =
  cl_bundle :: Descriptor
  cl_subjectName :: bytes
  cl_subjectDigest :: bytes
  cl_builderId :: bytes
  cl_sourceRepository :: bytes
  cl_sourceCommit :: bytes
  cl_sourceRef :: bytes
  cl_workflowPath :: bytes
  cl_workflowRef :: bytes
  cl_runId :: int        \<comment> \<open>\<open>std::int64_t\<close>\<close>
  cl_runAttempt :: int

record DecodedProvenance =
  dp_subjectName :: bytes
  dp_subjectDigest :: bytes
  dp_builderId :: bytes
  dp_sourceRepository :: bytes
  dp_sourceCommit :: bytes
  dp_sourceRef :: bytes
  dp_workflowPath :: bytes
  dp_workflowRef :: bytes
  dp_runId :: int
  dp_runAttempt :: int

record AttestationInputs =
  ai_bundlePath :: string
  ai_subjectPath :: string
  ai_cosign :: string
  ai_trustedRoot :: string

section \<open>Base64\<close>

definition kAlphabet :: string where
  "kAlphabet = ''ABCDEFGHIJKLMNOPQRSTUVWXYZabcdefghijklmnopqrstuvwxyz0123456789+/''"

definition kReverse :: "char \<Rightarrow> nat option" where
  "kReverse c = index_of c kAlphabet"

fun quantumLoop :: "bool \<Rightarrow> nat \<Rightarrow> string \<Rightarrow> 32 word list \<Rightarrow> nat \<Rightarrow> (32 word list \<times> nat) AttestationResult" where
  "quantumLoop at_end index [] quantum padding = Inr (quantum, padding)"
| "quantumLoop at_end index (kCharacter # cs) quantum padding =
     (if kCharacter = CHR ''=''
      then if \<not> at_end \<or> index < 2 then attRefuse BundleMalformed ''payload padding is misplaced''
           else quantumLoop at_end (index + 1) cs (quantum @ [0]) (padding + 1)
      else if padding \<noteq> 0 then attRefuse BundleMalformed ''payload has data after padding''
      else (case kReverse kCharacter of
              None \<Rightarrow> attRefuse BundleMalformed ''payload carries a character outside base64''
            | Some kValue \<Rightarrow> quantumLoop at_end (index + 1) cs (quantum @ [word_of_nat kValue]) padding))"

definition kTriple :: "32 word list \<Rightarrow> 32 word" where
  "kTriple quantum = push_bit 18 (quantum ! 0) OR push_bit 12 (quantum ! 1) OR push_bit 6 (quantum ! 2) OR quantum ! 3"

definition low_byte :: "32 word \<Rightarrow> char" where
  "low_byte w = char_of (unat (w AND 0xFF))"

definition tripleBytes :: "32 word \<Rightarrow> nat \<Rightarrow> bytes" where
  "tripleBytes triple padding =
     [low_byte (drop_bit 16 triple)] @
     (if padding < 2 then [low_byte (drop_bit 8 triple)] else []) @
     (if padding < 1 then [low_byte triple] else [])"

function quantumsLoop :: "bytes \<Rightarrow> bytes \<Rightarrow> bytes AttestationResult" where
  "quantumsLoop encoded decoded =
     (if encoded = [] then Inr decoded
      else rbind (quantumLoop (length encoded = 4) 0 (take 4 encoded) [] 0) (\<lambda>(quantum, padding).
        quantumsLoop (drop 4 encoded) (decoded @ tripleBytes (kTriple quantum) padding)))"
  by pat_completeness auto
termination by (relation "measure (\<lambda>(encoded, decoded). length encoded)") auto

declare quantumsLoop.simps [simp del]

definition decodeBase64 :: "bytes \<Rightarrow> bytes AttestationResult" where
  "decodeBase64 encoded =
     (if encoded = [] \<or> length encoded mod 4 \<noteq> 0
      then attRefuse BundleMalformed ''payload is not a padded base64 quantum sequence''
      else if kMaximumBundleBytes < length encoded
      then attRefuse BundleMalformed ''payload exceeds the accepted bundle ceiling''
      else quantumsLoop encoded [])"

section \<open>Members\<close>

definition attRequireString :: "CanonicalValue \<Rightarrow> bytes \<Rightarrow> AttestationRejection \<Rightarrow> bytes AttestationResult" where
  "attRequireString parent name rejection =
     (case find_member parent name of
        None \<Rightarrow> attRefuse rejection (''missing string member: '' @ name)
      | Some member \<Rightarrow>
          if value_kind member \<noteq> KString then attRefuse rejection (''missing string member: '' @ name)
          else Inr (value_text member))"

definition attRequireObject :: "CanonicalValue \<Rightarrow> bytes \<Rightarrow> AttestationRejection \<Rightarrow> CanonicalValue AttestationResult" where
  "attRequireObject parent name rejection =
     (case find_member parent name of
        None \<Rightarrow> attRefuse rejection (''missing object member: '' @ name)
      | Some member \<Rightarrow>
          if value_kind member \<noteq> KObject then attRefuse rejection (''missing object member: '' @ name)
          else Inr member)"

section \<open>One member of the bundle\<close>

definition bundle_space :: "char \<Rightarrow> bool" where
  "bundle_space c \<longleftrightarrow> c = CHR '' '' \<or> c = CHR 0x09 \<or> c = CHR 0x0A \<or> c = CHR 0x0D"

text \<open>The text up to the closing quotation mark, and what follows the mark.\<close>

fun scanKey :: "string \<Rightarrow> (string \<times> string) option" where
  "scanKey [] = None"
| "scanKey (c # cs) =
     (if c = CHR 0x22 then Some ([], cs)
      else if c = CHR 0x5C
      then (case cs of [] \<Rightarrow> None | d # ds \<Rightarrow> map_option (apfst (\<lambda>key. c # d # key)) (scanKey ds))
      else map_option (apfst (Cons c)) (scanKey cs))"

text \<open>The value up to where it ends, what follows, and the depth and string state at the end.\<close>

fun scanValue :: "nat \<Rightarrow> bool \<Rightarrow> string \<Rightarrow> string \<times> string \<times> nat \<times> bool" where
  "scanValue depth inString [] = ([], [], depth, inString)"
| "scanValue depth inString (c # cs) =
     (if inString
      then if c = CHR 0x5C
           then (case cs of [] \<Rightarrow> ([c], [], depth, True)
                 | d # ds \<Rightarrow> apfst (\<lambda>v. c # d # v) (scanValue depth True ds))
           else apfst (Cons c) (scanValue depth (c \<noteq> CHR 0x22) cs)
      else if c = CHR 0x22 then apfst (Cons c) (scanValue depth True cs)
      else if c = CHR ''{'' \<or> c = CHR ''['' then apfst (Cons c) (scanValue (depth + 1) False cs)
      else if c = CHR ''}'' \<or> c = CHR '']''
      then if depth = 0 then ([], c # cs, 0, False)
           else apfst (Cons c) (scanValue (depth - 1) False cs)
      else if c = CHR '','' \<and> depth = 0 then ([], c # cs, 0, False)
      else apfst (Cons c) (scanValue depth False cs))"

declare scanKey.simps(2) [simp del] scanValue.simps(2) [simp del]

lemma scanKey_shorter: "scanKey s = Some (key, rest) \<Longrightarrow> length rest < length s"
proof (induction s arbitrary: key rest rule: length_induct)
  case (1 s)
  show ?case
  proof (cases s)
    case (Cons c cs)
    have shorter: "length r \<le> length cs" if "scanKey t = Some (k, r)" "length t \<le> length cs" for t k r
    proof -
      have "length t < length s" using that(2) Cons by simp
      with 1(1) that(1) have "length r < length t" by blast
      with that(2) show ?thesis by simp
    qed
    show ?thesis
      using 1(2) shorter [of cs] shorter [of "tl cs"]
      by (auto simp: Cons scanKey.simps(2) less_Suc_eq_le split: if_split_asm list.split_asm)
  qed (use 1(2) in simp)
qed

definition scan_goes_on :: "string \<Rightarrow> string \<times> string \<times> nat \<times> bool \<Rightarrow> bool" where
  "scan_goes_on s r \<longleftrightarrow> (\<exists>d b. r = ([], s, d, b)) \<or> (\<exists>f d b t. r = apfst f (scanValue d b t) \<and> length t < length s)"

lemma scan_goes_onI:
  "scan_goes_on s ([], s, d, b)" "length t < length s \<Longrightarrow> scan_goes_on s (apfst f (scanValue d b t))"
  "s \<noteq> [] \<Longrightarrow> scan_goes_on s ([c], [], d, b)"
  unfolding scan_goes_on_def
  by (blast, blast, metis apfst_conv length_greater_0_conv list.size(3) scanValue.simps(1))

lemma scan_goes_on_if: "scan_goes_on s a \<Longrightarrow> scan_goes_on s b \<Longrightarrow> scan_goes_on s (if c then a else b)"
  by simp

lemma scanValue_step: "scan_goes_on (c # cs) (scanValue depth inString (c # cs))"
proof -
  have "scan_goes_on (c # cs) (case cs of [] \<Rightarrow> ([c], [], depth, True) | d # ds \<Rightarrow> apfst (\<lambda>v. c # d # v) (scanValue depth True ds))"
    by (cases cs) (simp_all add: scan_goes_onI)
  then show ?thesis
    unfolding scanValue.simps(2) by (intro scan_goes_on_if) (simp_all only: scan_goes_onI length_Cons lessI)
qed

lemma scanValue_shorter: "length (fst (snd (scanValue depth inString s))) \<le> length s"
proof (induction s arbitrary: depth inString rule: length_induct)
  case (1 s)
  show ?case
  proof (cases s)
    case (Cons c cs)
    from scanValue_step [of c cs depth inString] show ?thesis
      unfolding scan_goes_on_def
    proof (elim disjE exE conjE)
      fix f d b t assume step: "scanValue depth inString (c # cs) = apfst f (scanValue d b t)" "length t < length (c # cs)"
      then have "length (fst (snd (scanValue d b t))) \<le> length t" using 1 Cons by simp
      with step show ?thesis by (simp add: Cons)
    qed (simp add: Cons)
  qed simp
qed

definition trim_back :: "string \<Rightarrow> string" where
  "trim_back s = rev (dropWhile bundle_space (rev s))"

definition foundValue :: "bytes \<Rightarrow> bytes \<Rightarrow> bytes AttestationResult" where
  "foundValue name found =
     (let trimmed = trim_back found
      in if trimmed = [] then attRefuse BundleMalformed (''the bundle member '' @ name @ '' carries no value'')
         else Inr trimmed)"

lemma comma_shorter: "dropWhile bundle_space s = c # cs \<Longrightarrow> length cs < length s"
  using length_dropWhile_le [of bundle_space s] by simp

lemma member_shorter:
  assumes "dropWhile bundle_space s = c # cs" and "scanKey cs = Some (key, after_key)"
    and "dropWhile bundle_space after_key = colon # after_colon"
    and "scanValue 0 False (dropWhile bundle_space after_colon) = (found, rest, d, b)"
  shows "length rest < length s"
proof -
  have "length rest \<le> length (dropWhile bundle_space after_colon)"
    using scanValue_shorter [of 0 False "dropWhile bundle_space after_colon"] by (simp add: assms(4))
  also have "\<dots> \<le> length after_colon" by (rule length_dropWhile_le)
  also have "\<dots> < length after_key" by (rule comma_shorter [OF assms(3)])
  also have "\<dots> < length cs" by (rule scanKey_shorter [OF assms(2)])
  also have "\<dots> < length s" by (rule comma_shorter [OF assms(1)])
  finally show ?thesis .
qed

function scanMembers :: "bytes \<Rightarrow> string \<Rightarrow> bytes AttestationResult" where
  "scanMembers name s =
     (case dropWhile bundle_space s of
        [] \<Rightarrow> attRefuse EnvelopeMismatch (''the bundle carries no '' @ name @ '' member'')
      | c # cs \<Rightarrow>
          if c = CHR ''}'' then attRefuse EnvelopeMismatch (''the bundle carries no '' @ name @ '' member'')
          else if c = CHR '','' then scanMembers name cs
          else if c \<noteq> CHR 0x22 then attRefuse BundleMalformed ''a bundle member name is not a string''
          else (case scanKey cs of
                  None \<Rightarrow> attRefuse BundleMalformed ''a bundle member name is unterminated''
                | Some (kKey, after_key) \<Rightarrow>
                    (case dropWhile bundle_space after_key of
                       [] \<Rightarrow> attRefuse BundleMalformed ''a bundle member carries no value''
                     | colon # after_colon \<Rightarrow>
                         if colon \<noteq> CHR '':'' then attRefuse BundleMalformed ''a bundle member carries no value''
                         else (case scanValue 0 False (dropWhile bundle_space after_colon) of
                                 (found, rest, depth, inString) \<Rightarrow>
                                   if inString \<or> depth \<noteq> 0
                                   then attRefuse BundleMalformed ''a bundle member value is unterminated''
                                   else if kKey = name then foundValue name found
                                   else scanMembers name rest))))"
  by pat_completeness auto
termination
  by (relation "measure (\<lambda>(name, s). length s)") (auto intro: comma_shorter member_shorter [OF _ _ _ sym])

declare scanMembers.simps [simp del]

definition extractTopLevelValue :: "bytes \<Rightarrow> bytes \<Rightarrow> bytes AttestationResult" where
  "extractTopLevelValue document name =
     (if length document < 2 \<or> hd document \<noteq> CHR ''{'' \<or> last document \<noteq> CHR ''}''
      then attRefuse BundleMalformed ''the bundle is not one JSON object''
      else scanMembers name (tl document))"

definition requireTopLevelString :: "bytes \<Rightarrow> bytes \<Rightarrow> bytes \<Rightarrow> unit AttestationResult" where
  "requireTopLevelString document name expected =
     rbind (extractTopLevelValue document name) (\<lambda>found.
       if found \<noteq> CHR 0x22 # expected @ [CHR 0x22]
       then attRefuse EnvelopeMismatch (''the bundle '' @ name @ '' is '' @ found)
       else Inr ())"

definition requireStatementDigest :: "CanonicalValue \<Rightarrow> bytes AttestationResult" where
  "requireStatementDigest digests =
     rbind (attRequireString digests ''sha256'' SubjectMismatch) (\<lambda>hex.
       if length hex \<noteq> 64 \<or> \<not> isLowercaseHex hex
       then attRefuse SubjectMismatch
         (''the attested subject digest is not sixty-four lowercase hexadecimal characters: '' @ hex)
       else Inr (kDigestPrefix @ hex))"

section \<open>The claim\<close>

definition requireRunMember :: "CanonicalValue \<Rightarrow> bytes \<Rightarrow> int AttestationResult" where
  "requireRunMember attestation name =
     (case find_member attestation name of
        None \<Rightarrow> attRefuse RunIdentityMissing (''run identity member is absent or negative: '' @ name)
      | Some v \<Rightarrow>
          if value_kind v \<noteq> KInteger \<or> value_integer v < 0
          then attRefuse RunIdentityMissing (''run identity member is absent or negative: '' @ name)
          else Inr (value_integer v))"

definition kTextMembers :: "bytes list" where
  "kTextMembers = [''subjectName'', ''subjectDigest'', ''builderId'', ''sourceRepository'', ''sourceCommit'',
     ''sourceRef'', ''workflowPath'', ''workflowRef'']"

definition parseAttestationClaim :: "CanonicalValue \<Rightarrow> AttestationClaim AttestationResult" where
  "parseAttestationClaim attestation =
     (if value_kind attestation \<noteq> KObject then attRefuse ClaimMalformed ''attestation claim is not an object''
      else case find_member attestation ''bundle'' of
        None \<Rightarrow> attRefuse ClaimMalformed ''attestation claim carries no bundle descriptor''
      | Some bundle \<Rightarrow>
          (case parseDescriptor bundle of
             Inl failure \<Rightarrow> attRefuse ClaimMalformed (''bundle descriptor is unusable: '' @ rf_detail failure)
           | Inr parsedBundle \<Rightarrow>
               rbind (rmap (\<lambda>name. attRequireString attestation name ClaimMalformed) kTextMembers) (\<lambda>texts.
               rbind (requireRunMember attestation ''runId'') (\<lambda>runId.
               rbind (requireRunMember attestation ''runAttempt'') (\<lambda>runAttempt.
                 if runId = 0 \<or> runAttempt = 0
                 then attRefuse RunIdentityMissing ''run identity is present but zero''
                 else Inr \<lparr>cl_bundle = parsedBundle, cl_subjectName = texts ! 0, cl_subjectDigest = texts ! 1,
                   cl_builderId = texts ! 2, cl_sourceRepository = texts ! 3, cl_sourceCommit = texts ! 4,
                   cl_sourceRef = texts ! 5, cl_workflowPath = texts ! 6, cl_workflowRef = texts ! 7,
                   cl_runId = runId, cl_runAttempt = runAttempt\<rparr>)))))"

section \<open>The bundle\<close>

definition firstElement :: "CanonicalValue \<Rightarrow> bytes \<Rightarrow> CanonicalValue option" where
  "firstElement parent name =
     (case find_member parent name of
        None \<Rightarrow> None
      | Some v \<Rightarrow> if value_kind v \<noteq> KArray \<or> value_elements v = [] then None else Some (hd (value_elements v)))"

definition onlyElement :: "CanonicalValue \<Rightarrow> bytes \<Rightarrow> CanonicalValue option" where
  "onlyElement parent name =
     (case find_member parent name of
        None \<Rightarrow> None
      | Some v \<Rightarrow> if value_kind v \<noteq> KArray \<or> length (value_elements v) \<noteq> 1 then None else Some (hd (value_elements v)))"

text \<open>From the bytes of the bundle to the payload of its envelope.\<close>

definition decodePayload :: "(bytes \<Rightarrow> sj_document) \<Rightarrow> bytes \<Rightarrow> bytes AttestationResult" where
  "decodePayload iterate bundleBytes =
     (if kMaximumBundleBytes < length bundleBytes
      then attRefuse BundleMalformed ''bundle exceeds the accepted ceiling''
      else let trimmed = trim_back bundleBytes in
        rbind (requireTopLevelString trimmed ''mediaType'' kSigstoreBundleMediaType) (\<lambda>_.
        rbind (extractTopLevelValue trimmed ''dsseEnvelope'') (\<lambda>envelopeText.
        case parseCanonicalSubset iterate envelopeText of
          Inl failure \<Rightarrow> attRefuse BundleMalformed (''the envelope is not parsable: '' @ rf_detail failure)
        | Inr envelope \<Rightarrow>
            rbind (attRequireString envelope ''payloadType'' EnvelopeMismatch) (\<lambda>payloadType.
            if payloadType \<noteq> kInTotoPayloadType
            then attRefuse EnvelopeMismatch (''unexpected payload type: '' @ payloadType)
            else if onlyElement envelope ''signatures'' = None
            then attRefuse EnvelopeMismatch ''the envelope must carry exactly one signature''
            else rbind (attRequireString envelope ''payload'' EnvelopeMismatch) decodeBase64))))"

definition decodeStatement :: "(bytes \<Rightarrow> sj_document) \<Rightarrow> bytes \<Rightarrow> CanonicalValue AttestationResult" where
  "decodeStatement iterate payloadBytes =
     (case parseCanonicalSubset iterate payloadBytes of
        Inl failure \<Rightarrow> attRefuse StatementMismatch (''statement is not parsable: '' @ rf_detail failure)
      | Inr statement \<Rightarrow>
          rbind (attRequireString statement ''_type'' StatementMismatch) (\<lambda>statementType.
          rbind (attRequireString statement ''predicateType'' StatementMismatch) (\<lambda>predicateType.
            if statementType \<noteq> kInTotoStatementType \<or> predicateType \<noteq> kSlsaProvenancePredicateType
            then attRefuse StatementMismatch (''statement or predicate type is not the accepted one: '' @
              statementType @ '' / '' @ predicateType)
            else Inr statement)))"

definition decodeSubject :: "CanonicalValue \<Rightarrow> (bytes \<times> bytes) AttestationResult" where
  "decodeSubject statement =
     (case onlyElement statement ''subject'' of
        None \<Rightarrow> attRefuse SubjectMismatch ''the statement must bind exactly one subject''
      | Some subject \<Rightarrow>
          rbind (attRequireString subject ''name'' SubjectMismatch) (\<lambda>subjectName.
          rbind (attRequireObject subject ''digest'' SubjectMismatch) (\<lambda>subjectDigests.
          rbind (requireStatementDigest subjectDigests) (\<lambda>subjectDigest.
            Inr (subjectName, subjectDigest)))))"

text \<open>The repository, the path and the ref of the workflow that entered.\<close>

definition decodeWorkflow :: "CanonicalValue \<Rightarrow> (bytes \<times> bytes \<times> bytes) AttestationResult" where
  "decodeWorkflow buildDefinition =
     rbind (attRequireObject buildDefinition ''externalParameters'' WorkflowMismatch) (\<lambda>externalParameters.
     rbind (attRequireObject externalParameters ''workflow'' WorkflowMismatch) (\<lambda>workflow.
     rbind (attRequireString workflow ''repository'' SourceMismatch) (\<lambda>workflowRepository.
     rbind (attRequireString workflow ''path'' WorkflowMismatch) (\<lambda>workflowPath.
     rbind (attRequireString workflow ''ref'' WorkflowMismatch) (\<lambda>workflowRef.
       Inr (workflowRepository, workflowPath, workflowRef))))))"

definition checkRunner :: "CanonicalValue \<Rightarrow> unit AttestationResult" where
  "checkRunner buildDefinition =
     rbind (attRequireObject buildDefinition ''internalParameters'' RunIdentityMissing) (\<lambda>internalParameters.
     rbind (attRequireObject internalParameters ''github'' RunIdentityMissing) (\<lambda>github.
     rbind (attRequireString github ''runner_environment'' RunnerEnvironmentUnadmitted) (\<lambda>runnerEnvironment.
       if runnerEnvironment \<noteq> kTrustedRunnerEnvironment
       then attRefuse RunnerEnvironmentUnadmitted
         (''the run was not produced on an admitted runner environment: '' @ runnerEnvironment)
       else Inr ())))"

text \<open>The commit and the ref of the source.\<close>

definition decodeSource :: "CanonicalValue \<Rightarrow> (bytes \<times> bytes) AttestationResult" where
  "decodeSource buildDefinition =
     (case firstElement buildDefinition ''resolvedDependencies'' of
        None \<Rightarrow> attRefuse SourceMismatch ''the statement resolves no source dependency''
      | Some source \<Rightarrow>
          rbind (attRequireString source ''uri'' SourceMismatch) (\<lambda>kUri.
          rbind (attRequireObject source ''digest'' SourceMismatch) (\<lambda>sourceDigests.
          rbind (attRequireString sourceDigests ''gitCommit'' SourceMismatch) (\<lambda>sourceCommit.
            case rindex_of CHR ''@'' kUri of
              None \<Rightarrow> attRefuse SourceMismatch (''the resolved source URI carries no ref: '' @ kUri)
            | Some kSeparator \<Rightarrow>
                if length kUri \<le> kSeparator + 1
                then attRefuse SourceMismatch (''the resolved source URI carries no ref: '' @ kUri)
                else Inr (sourceCommit, drop (kSeparator + 1) kUri)))))"

definition kRunsMarker :: string where "kRunsMarker = ''/actions/runs/''"
definition kAttemptsMarker :: string where "kAttemptsMarker = ''/attempts/''"

definition kParsePositive :: "string \<Rightarrow> int option" where
  "kParsePositive t =
     (if t = [] \<or> 18 < length t then None
      else if \<not> list_all is_digit t then None
      else if digits_value t = 0 then None
      else Some (int (digits_value t)))"

definition decodeInvocation :: "bytes \<Rightarrow> (int \<times> int) AttestationResult" where
  "decodeInvocation kInvocation =
     (case (rindex_of_str kRunsMarker kInvocation, rindex_of_str kAttemptsMarker kInvocation) of
        (Some kRunsOffset, Some kAttemptsOffset) \<Rightarrow>
          if kAttemptsOffset \<le> kRunsOffset + length kRunsMarker
          then attRefuse RunIdentityMissing (''invocation identity is not a run attempt URL: '' @ kInvocation)
          else let first_digit = kRunsOffset + length kRunsMarker in
            (case (kParsePositive (substr kInvocation first_digit (kAttemptsOffset - kRunsOffset - length kRunsMarker)),
                   kParsePositive (drop (kAttemptsOffset + length kAttemptsMarker) kInvocation)) of
               (Some runId, Some runAttempt) \<Rightarrow> Inr (runId, runAttempt)
             | _ \<Rightarrow> attRefuse RunIdentityMissing
                 (''invocation identity does not name a positive run and attempt: '' @ kInvocation))
      | _ \<Rightarrow> attRefuse RunIdentityMissing (''invocation identity is not a run attempt URL: '' @ kInvocation))"

definition decodeRun :: "CanonicalValue \<Rightarrow> (bytes \<times> int \<times> int) AttestationResult" where
  "decodeRun predicate =
     rbind (attRequireObject predicate ''runDetails'' BuilderMismatch) (\<lambda>runDetails.
     rbind (attRequireObject runDetails ''builder'' BuilderMismatch) (\<lambda>builder.
     rbind (attRequireString builder ''id'' BuilderMismatch) (\<lambda>builderId.
     rbind (attRequireObject runDetails ''metadata'' RunIdentityMissing) (\<lambda>metadata.
     rbind (attRequireString metadata ''invocationId'' RunIdentityMissing) (\<lambda>invocationId.
     rbind (decodeInvocation invocationId) (\<lambda>run_identity.
       Inr (builderId, run_identity)))))))"

definition decodeProvenanceBundle :: "(bytes \<Rightarrow> sj_document) \<Rightarrow> bytes \<Rightarrow> DecodedProvenance AttestationResult" where
  "decodeProvenanceBundle iterate bundleBytes =
     rbind (decodePayload iterate bundleBytes) (\<lambda>payloadBytes.
     rbind (decodeStatement iterate payloadBytes) (\<lambda>statement.
     rbind (decodeSubject statement) (\<lambda>(subjectName, subjectDigest).
     rbind (attRequireObject statement ''predicate'' StatementMismatch) (\<lambda>predicate.
     rbind (attRequireObject predicate ''buildDefinition'' StatementMismatch) (\<lambda>buildDefinition.
     rbind (decodeWorkflow buildDefinition) (\<lambda>(repository, path, ref).
     rbind (checkRunner buildDefinition) (\<lambda>_.
     rbind (decodeSource buildDefinition) (\<lambda>(sourceCommit, sourceRef).
     rbind (decodeRun predicate) (\<lambda>(builderId, runId, runAttempt).
       Inr \<lparr>dp_subjectName = subjectName, dp_subjectDigest = subjectDigest, dp_builderId = builderId,
         dp_sourceRepository = repository, dp_sourceCommit = sourceCommit, dp_sourceRef = sourceRef,
         dp_workflowPath = path, dp_workflowRef = ref, dp_runId = runId, dp_runAttempt = runAttempt\<rparr>)))))))))"

section \<open>The verification\<close>

text \<open>What surrounds a verification: files, the child process, and the two parsers below the code.\<close>

record Surroundings =
  su_probe :: "string \<Rightarrow> FileProbe"
  su_reads :: "string \<Rightarrow> FileReads"
  su_regular :: "string \<Rightarrow> bool"
  su_run :: "ProcessRequest \<Rightarrow> ProcessResult Result"
  su_provider :: Provider
  su_iterate :: "bytes \<Rightarrow> sj_document"
  su_utf8 :: "bytes \<Rightarrow> bool"

definition digestSubject :: "Surroundings \<Rightarrow> string \<Rightarrow> bytes AttestationResult" where
  "digestSubject su subjectPath =
     (case sha256File (su_provider su) subjectPath (su_reads su subjectPath) of
        Inl failure \<Rightarrow> attRefuse BundleUnreadable (''cannot digest the subject: '' @ f_message failure)
      | Inr digest \<Rightarrow> Inr (kDigestPrefix @ digest))"

definition verifierRequest :: "AttestationInputs \<Rightarrow> bytes \<Rightarrow> ProcessRequest" where
  "verifierRequest inputs subjectDigest = processRequest
     \<lparr>pr_executable := ai_cosign inputs,
      pr_workingDirectory := parent_path (ai_cosign inputs),
      pr_arguments := [''verify-blob-attestation'', ''--bundle'', ai_bundlePath inputs,
        ''--trusted-root'', ai_trustedRoot inputs,
        ''--digest'', (if starts_with subjectDigest kDigestPrefix then drop (length kDigestPrefix) subjectDigest
                      else subjectDigest),
        ''--digestAlg'', ''sha256'', ''--type'', ''slsaprovenance1'',
        ''--certificate-identity'', kTrustedCertificateIdentity,
        ''--certificate-oidc-issuer'', kTrustedCertificateIssuer],
      pr_timeout := kVerifierTimeout\<rparr>"

definition verifyBundleSignature :: "Surroundings \<Rightarrow> AttestationInputs \<Rightarrow> bytes \<Rightarrow> unit AttestationResult" where
  "verifyBundleSignature su inputs subjectDigest =
     (if \<not> su_regular su (ai_cosign inputs)
      then attRefuse VerifierUnavailable (''the locked verifier is absent at '' @ ai_cosign inputs)
      else if \<not> su_regular su (ai_trustedRoot inputs)
      then attRefuse VerifierUnavailable (''the pinned trusted root is absent at '' @ ai_trustedRoot inputs)
      else case su_run su (verifierRequest inputs subjectDigest) of
        Inl failure \<Rightarrow> attRefuse VerifierUnavailable (''the verifier could not be run: '' @ f_message failure)
      | Inr result \<Rightarrow>
          if ps_exitCode result \<noteq> 0
          then attRefuse SignatureInvalid (''the verifier refused the bundle: '' @ ps_standardError result)
          else if \<not> contains_str (ps_standardOutput result @ ps_standardError result) ''Verified OK''
          then attRefuse SignatureInvalid ''the verifier did not report a verified bundle''
          else Inr ())"

definition checkSubject :: "AttestationClaim \<Rightarrow> DecodedProvenance \<Rightarrow> bytes \<Rightarrow> unit AttestationResult" where
  "checkSubject claim decoded measured =
     (if measured \<noteq> cl_subjectDigest claim \<or> measured \<noteq> dp_subjectDigest decoded
      then attRefuse SubjectMismatch (''the subject digest measured locally is '' @ measured @
        '' and the claim says '' @ cl_subjectDigest claim)
      else if dp_subjectName decoded \<noteq> cl_subjectName claim
      then attRefuse SubjectMismatch (''the attested subject name is '' @ dp_subjectName decoded)
      else Inr ())"

definition checkOrigin :: "AttestationClaim \<Rightarrow> DecodedProvenance \<Rightarrow> unit AttestationResult" where
  "checkOrigin claim decoded =
     (if dp_sourceRepository decoded \<noteq> kTrustedSourceRepositoryUri \<or> dp_sourceRef decoded \<noteq> kTrustedProtectedRef \<or>
         cl_sourceRepository claim \<noteq> kTrustedSourceRepositoryPath \<or> cl_sourceCommit claim \<noteq> dp_sourceCommit decoded \<or>
         cl_sourceRef claim \<noteq> dp_sourceRef decoded
      then attRefuse SourceMismatch
        (''the attested source is '' @ dp_sourceRepository decoded @ ''@'' @ dp_sourceRef decoded)
      else if dp_workflowPath decoded \<noteq> kTrustedEntryWorkflowPath \<or> dp_workflowRef decoded \<noteq> kTrustedProtectedRef \<or>
         cl_workflowPath claim \<noteq> dp_workflowPath decoded \<or> cl_workflowRef claim \<noteq> dp_workflowRef decoded
      then attRefuse WorkflowMismatch
        (''the attested workflow is '' @ dp_workflowPath decoded @ ''@'' @ dp_workflowRef decoded)
      else if dp_builderId decoded \<noteq> kTrustedCertificateIdentity \<or> cl_builderId claim \<noteq> dp_builderId decoded
      then attRefuse BuilderMismatch (''the attested builder is '' @ dp_builderId decoded)
      else if cl_runId claim \<noteq> dp_runId decoded \<or> cl_runAttempt claim \<noteq> dp_runAttempt decoded
      then attRefuse RunIdentityMissing ''the claimed run identity is not the attested one''
      else Inr ())"

definition verifyAttestation ::
  "Surroundings \<Rightarrow> AttestationClaim \<Rightarrow> AttestationInputs \<Rightarrow> DecodedProvenance AttestationResult" where
  "verifyAttestation su claim inputs =
     (case readBoundedFile (su_utf8 su) (su_probe su (ai_bundlePath inputs)) (ai_bundlePath inputs) kMaximumBundleBytes of
        Inl failure \<Rightarrow> attRefuse BundleUnreadable (''cannot read the bundle: '' @ f_message failure)
      | Inr bundleBytes \<Rightarrow>
          (case verifyDescriptor (su_provider su) (cl_bundle claim) bundleBytes (d_mediaType (cl_bundle claim)) of
             Inl failure \<Rightarrow> attRefuse ClaimMalformed
               (''the bundle descriptor does not identify the bundle: '' @ rf_detail failure)
           | Inr _ \<Rightarrow>
               rbind (decodeProvenanceBundle (su_iterate su) bundleBytes) (\<lambda>decoded.
               rbind (digestSubject su (ai_subjectPath inputs)) (\<lambda>measured.
               rbind (checkSubject claim decoded measured) (\<lambda>_.
               rbind (checkOrigin claim decoded) (\<lambda>_.
               rbind (verifyBundleSignature su inputs measured) (\<lambda>_.
                 Inr decoded)))))))"

end
