(* ===== verification/Evidence_Bundle.thy ===== *)
theory Evidence_Bundle
  imports Evidence_Attestation
begin

text \<open>
  What the two readers of \<open>attestation.cpp\<close> compute: the payload decoder inverts base64, and the scanner
  that isolates a member of the bundle agrees with the canonical writer on every object.
\<close>

section \<open>Base64 and back\<close>

definition triple_of :: "char \<Rightarrow> char \<Rightarrow> char \<Rightarrow> 32 word" where
  "triple_of a b c = push_bit 16 (of_char a) OR push_bit 8 (of_char b) OR of_char c"

definition encodeTriple :: "char \<Rightarrow> char \<Rightarrow> char \<Rightarrow> string" where
  "encodeTriple a b c =
     map (\<lambda>k. kAlphabet ! unat (drop_bit k (triple_of a b c) AND 63)) [18, 12, 6, 0]"

fun encodeBase64 :: "bytes \<Rightarrow> string" where
  "encodeBase64 [] = []"
| "encodeBase64 [a] = take 2 (encodeTriple a (CHR 0x00) (CHR 0x00)) @ ''==''"
| "encodeBase64 [a, b] = take 3 (encodeTriple a b (CHR 0x00)) @ ''=''"
| "encodeBase64 (a # b # c # rest) = encodeTriple a b c @ encodeBase64 rest"

lemma of_char_word: "(of_char c :: 32 word) = word_of_nat (of_char c)"
  by (metis of_nat_of_char)

lemma unat_of_char: "unat (of_char c :: 32 word) = of_char c"
proof -
  have "(of_char c :: nat) < 2 ^ 32" by (rule order_less_trans [OF of_char_less_256]) simp
  then show ?thesis by (simp add: of_char_word unsigned_of_nat take_bit_nat_eq_self)
qed

lemma bit_of_char: "bit (of_char c :: 32 word) n \<Longrightarrow> n < 8"
proof -
  assume bit': "bit (of_char c :: 32 word) n"
  have "(of_char c :: nat) < 2 ^ 8" using of_char_less_256 [of c] by simp
  then have "take_bit 8 (of_char c :: nat) = of_char c" by (simp add: take_bit_nat_eq_self)
  then have "take_bit 8 (of_char c :: 32 word) = of_char c"
    by (metis of_char_word take_bit_of_nat)
  with bit' show "n < 8" by (metis bit_take_bit_iff)
qed

lemma low_byte_char: "(\<And>n. n < 8 \<Longrightarrow> bit w n \<longleftrightarrow> bit (of_char c :: 32 word) n) \<Longrightarrow> low_byte w = c"
proof -
  assume same: "\<And>n. n < 8 \<Longrightarrow> bit w n \<longleftrightarrow> bit (of_char c :: 32 word) n"
  have "w AND 0xFF = take_bit 8 w"
    by (simp add: take_bit_eq_mask mask_eq_exp_minus_1)
  also have "\<dots> = of_char c"
    by (rule bit_word_eqI) (use same bit_of_char in \<open>auto simp: bit_take_bit_iff\<close>)
  finally show ?thesis
    by (simp add: low_byte_def unat_of_char)
qed

lemma bit_triple:
  "bit (triple_of a b c) n \<longleftrightarrow>
     n < 32 \<and> ((16 \<le> n \<and> bit (of_char a :: 32 word) (n - 16)) \<or> (8 \<le> n \<and> bit (of_char b :: 32 word) (n - 8)) \<or>
       bit (of_char c :: 32 word) n)"
  by (auto simp: triple_of_def bit_or_iff bit_push_bit_iff dest: bit_of_char)

lemma triple_bytes:
  "low_byte (drop_bit 16 (triple_of a b c)) = a" "low_byte (drop_bit 8 (triple_of a b c)) = b"
  "low_byte (triple_of a b c) = c"
  by (rule low_byte_char; auto simp: bit_drop_bit_eq bit_triple dest: bit_of_char)+

definition sextet :: "32 word \<Rightarrow> nat \<Rightarrow> 32 word" where
  "sextet w k = drop_bit k w AND 63"

lemma bit_sextet: "bit (sextet w k) n \<longleftrightarrow> n < 6 \<and> bit w (k + n)"
proof -
  have "sextet w k = take_bit 6 (drop_bit k w)"
    by (simp add: sextet_def take_bit_eq_mask mask_eq_exp_minus_1)
  then show ?thesis by (simp add: bit_take_bit_iff bit_drop_bit_eq)
qed

lemma unat_sextet: "unat (sextet w k) < 64"
proof -
  have "sextet w k \<le> 63" by (simp add: sextet_def word_and_le1)
  then show ?thesis by (simp add: word_le_nat_alt)
qed

lemma kTriple_sextets:
  "kTriple [sextet (triple_of a b c) 18, sextet (triple_of a b c) 12, sextet (triple_of a b c) 6, sextet (triple_of a b c) 0]
     = triple_of a b c"
proof (rule bit_word_eqI)
  fix n assume "n < LENGTH(32)"
  then have n: "n < 32" by simp
  have high: "bit (triple_of a b c) n \<Longrightarrow> n < 24"
    by (auto simp: bit_triple dest!: bit_of_char)
  show "bit (kTriple [sextet (triple_of a b c) 18, sextet (triple_of a b c) 12, sextet (triple_of a b c) 6,
      sextet (triple_of a b c) 0]) n = bit (triple_of a b c) n"
  proof (cases "n < 24")
    case True
    then consider "n < 6" | "6 \<le> n" "n < 12" | "12 \<le> n" "n < 18" | "18 \<le> n" "n < 24" by linarith
    then show ?thesis
      by cases (auto simp: kTriple_def bit_or_iff bit_push_bit_iff bit_sextet)
  qed (use n high in \<open>auto simp: kTriple_def bit_or_iff bit_push_bit_iff bit_sextet\<close>)
qed

lemma sextet_zero: "sextet (triple_of a b (CHR 0x00)) 0 = 0" "sextet (triple_of a (CHR 0x00) (CHR 0x00)) 6 = 0"
  by (rule bit_word_eqI; auto simp: bit_sextet bit_triple dest: bit_of_char)+

lemma kAlphabet_facts: "length kAlphabet = 64" "distinct kAlphabet" "CHR ''='' \<notin> set kAlphabet"
  by (simp_all add: kAlphabet_def)

lemma index_of_nth: "distinct s \<Longrightarrow> k < length s \<Longrightarrow> index_of (s ! k) s = Some k"
  by (auto simp: index_of_Some_iff in_set_conv_nth nth_eq_iff_index_eq)

lemma kReverse_alphabet:
  "kReverse (kAlphabet ! unat (sextet w k)) = Some (unat (sextet w k))" "kAlphabet ! unat (sextet w k) \<noteq> CHR ''=''"
proof -
  have small: "unat (sextet w k) < length kAlphabet" by (simp add: kAlphabet_facts unat_sextet)
  then show "kReverse (kAlphabet ! unat (sextet w k)) = Some (unat (sextet w k))"
    unfolding kReverse_def by (rule index_of_nth [OF kAlphabet_facts(2)])
  show "kAlphabet ! unat (sextet w k) \<noteq> CHR ''=''"
    using nth_mem [OF small] kAlphabet_facts(3) by metis
qed

definition letter :: "char \<Rightarrow> char \<Rightarrow> char \<Rightarrow> nat \<Rightarrow> char" where
  "letter a b c k = kAlphabet ! unat (sextet (triple_of a b c) k)"

lemma encodeTriple_letters: "encodeTriple a b c = [letter a b c 18, letter a b c 12, letter a b c 6, letter a b c 0]"
  by (simp add: encodeTriple_def letter_def sextet_def)

lemma quantum_letter:
  "quantumLoop e i (letter a b c k # cs) q 0 = quantumLoop e (i + 1) cs (q @ [sextet (triple_of a b c) k]) 0"
  by (simp add: letter_def kReverse_alphabet)

lemma quantums_step:
  assumes "length q = 4" and "quantumLoop (rest = []) 0 q [] 0 = Inr (quantum, padding)"
  shows "quantumsLoop (q @ rest) acc = quantumsLoop rest (acc @ tripleBytes (kTriple quantum) padding)"
  using assms by (subst quantumsLoop.simps) auto

lemma encode_length: "length (encodeBase64 b) mod 4 = 0" "b \<noteq> [] \<Longrightarrow> encodeBase64 b \<noteq> []"
  by (induction b rule: encodeBase64.induct) (simp_all add: encodeTriple_letters)

lemma quantums_encode: "quantumsLoop (encodeBase64 b) acc = Inr (acc @ b)"
proof (induction b arbitrary: acc rule: encodeBase64.induct)
  case 1
  show ?case by (subst quantumsLoop.simps) simp
next
  case (2 a)
  let ?z = "CHR 0x00"
  have "quantumLoop True 0 (take 2 (encodeTriple a ?z ?z) @ ''=='') [] 0 =
      Inr ([sextet (triple_of a ?z ?z) 18, sextet (triple_of a ?z ?z) 12, 0, 0], 2)"
    by (simp add: encodeTriple_letters quantum_letter del: quantumLoop.simps(2)) simp
  from quantums_step [of "take 2 (encodeTriple a ?z ?z) @ ''==''" "[]" _ 2 acc] this
    kTriple_sextets [of a ?z ?z] show ?case
    by (simp add: encodeTriple_letters sextet_zero tripleBytes_def triple_bytes quantumsLoop.simps [of "[]"])
next
  case (3 a b)
  let ?z = "CHR 0x00"
  have "quantumLoop True 0 (take 3 (encodeTriple a b ?z) @ ''='') [] 0 =
      Inr ([sextet (triple_of a b ?z) 18, sextet (triple_of a b ?z) 12, sextet (triple_of a b ?z) 6, 0], 1)"
    by (simp add: encodeTriple_letters quantum_letter del: quantumLoop.simps(2)) simp
  from quantums_step [of "take 3 (encodeTriple a b ?z) @ ''=''" "[]" _ 1 acc] this
    kTriple_sextets [of a b ?z] show ?case
    by (simp add: encodeTriple_letters sextet_zero tripleBytes_def triple_bytes quantumsLoop.simps [of "[]"])
next
  case (4 a b c rest)
  have "quantumLoop (encodeBase64 rest = []) 0 (encodeTriple a b c) [] 0 =
      Inr (map (sextet (triple_of a b c)) [18, 12, 6, 0], 0)"
    by (simp add: encodeTriple_letters quantum_letter del: quantumLoop.simps(2))
  from quantums_step [of "encodeTriple a b c" "encodeBase64 rest" _ 0 acc] this kTriple_sextets [of a b c] 4
  show ?case
    by (simp add: encodeTriple_letters tripleBytes_def triple_bytes)
qed

text \<open>
  The payload decoder inverts base64: the encoding of any bytes, padded as the standard says and no
  longer than the bundle ceiling, is decoded to those bytes.
\<close>

theorem base64_roundtrip:
  "b \<noteq> [] \<Longrightarrow> length (encodeBase64 b) \<le> kMaximumBundleBytes \<Longrightarrow> decodeBase64 (encodeBase64 b) = Inr b"
  using encode_length [of b] quantums_encode [of b "[]"] by (simp add: decodeBase64_def)

theorem base64_roundtrip_witness: "decodeBase64 (encodeBase64 ''hi'') = Inr ''hi''"
  by (rule base64_roundtrip) (simp_all add: encodeTriple_letters kMaximumBundleBytes_def)

text \<open>
  The decoder does not look at the bits of the last letter that no byte takes, so the same payload has
  several texts, although the comments of the source want one encoding only.
\<close>

lemma payload_has_two_texts:
  "decodeBase64 ''QQ=='' = Inr ''A''" "decodeBase64 ''QR=='' = Inr ''A''"
  by (simp_all add: decodeBase64_def kMaximumBundleBytes_def quantumsLoop.simps kReverse_def kAlphabet_def kTriple_def
      tripleBytes_def low_byte_def char_of_def bit_0)

section \<open>The scanner on canonical text\<close>

definition no_quote :: "char \<Rightarrow> bool" where
  "no_quote c \<longleftrightarrow> c \<noteq> CHR 0x22 \<and> c \<noteq> CHR 0x5C"

lemma hex_char_no_quote: "n < 16 \<Longrightarrow> no_quote (hex_char n)"
proof -
  assume "n < 16"
  then have "n < length hex_digits" by (simp add: hex_digits_def)
  then have "hex_char n \<in> set hex_digits" by (simp only: hex_char_def nth_mem)
  then show ?thesis by (auto simp: hex_digits_def no_quote_def)
qed

lemma escape_char_shape:
  "(escape_char c = [c] \<and> no_quote c) \<or> (\<exists>x u. escape_char c = CHR 0x5C # x # u \<and> list_all no_quote u)"
proof -
  have "(of_char c :: nat) div 16 < 16"
    using of_char_less_256 [of c] by (simp add: div_less_iff_less_mult)
  then have "no_quote (hex_char (of_char c div 16))" "no_quote (hex_char (of_char c mod 16))"
    by (simp_all add: hex_char_no_quote)
  then show ?thesis
    by (simp add: escape_char_def Let_def) (simp add: no_quote_def)
qed

lemma scanKey_plain: "list_all no_quote u \<Longrightarrow> scanKey (u @ s) = map_option (apfst ((@) u)) (scanKey s)"
  by (induction u) (auto simp: scanKey.simps(2) no_quote_def map_option_case split: option.splits)

lemma scanKey_escaped: "scanKey (concat (map escape_char t) @ CHR 0x22 # s) = Some (concat (map escape_char t), s)"
proof (induction t)
  case (Cons c t)
  from escape_char_shape [of c] show ?case
  proof (elim disjE exE conjE)
    fix x u assume "escape_char c = CHR 0x5C # x # u" and "list_all no_quote u"
    with Cons show ?thesis by (simp add: scanKey.simps(2) scanKey_plain)
  qed (use Cons scanKey_plain [of "[c]"] in simp)
qed (simp add: scanKey.simps(2))

lemma scanText_plain: "list_all no_quote u \<Longrightarrow> scanValue d True (u @ s) = apfst ((@) u) (scanValue d True s)"
  by (induction u) (auto simp: scanValue.simps(2) no_quote_def apfst_def map_prod_def split: prod.splits)

lemma scanText_escaped:
  "scanValue d True (concat (map escape_char t) @ CHR 0x22 # s) =
     apfst ((@) (concat (map escape_char t) @ [CHR 0x22])) (scanValue d False s)"
proof (induction t)
  case Nil
  show ?case by (simp add: scanValue.simps(2))
next
  case (Cons c t)
  from escape_char_shape [of c] show ?case
  proof (elim disjE exE conjE)
    fix x u assume shape: "escape_char c = CHR 0x5C # x # u" and plain: "list_all no_quote u"
    have "scanValue d True (escape_char c @ r) = apfst ((@) (escape_char c)) (scanValue d True r)" for r
      using scanText_plain [OF plain, of d r]
      by (simp add: shape scanValue.simps(2) [of d True "CHR 0x5C"] apfst_def map_prod_def split: prod.splits)
    with Cons show ?thesis by (simp add: apfst_def map_prod_def split: prod.splits)
  next
    assume "escape_char c = [c]" and "no_quote c"
    with Cons scanText_plain [of "[c]" d] show ?thesis
      by (simp add: apfst_def map_prod_def split: prod.splits)
  qed
qed

text \<open>The text is passed over at a depth, whatever follows.\<close>

definition passed :: "nat \<Rightarrow> string \<Rightarrow> bool" where
  "passed d u \<longleftrightarrow> (\<forall>s. scanValue d False (u @ s) = apfst ((@) u) (scanValue d False s))"

lemma passed_Nil: "passed d []"
  by (simp add: passed_def apfst_def map_prod_def split: prod.splits)

lemma passed_append: "passed d u \<Longrightarrow> passed d v \<Longrightarrow> passed d (u @ v)"
  by (simp add: passed_def apfst_def map_prod_def split: prod.splits)

definition plain_char :: "nat \<Rightarrow> char \<Rightarrow> bool" where
  "plain_char d c \<longleftrightarrow> c \<notin> {CHR 0x22, CHR ''{'', CHR ''['', CHR ''}'', CHR '']''} \<and> (c = CHR '','' \<longrightarrow> 0 < d)"

lemma scanValue_one:
  "plain_char d c \<Longrightarrow> scanValue d False (c # s) = apfst (Cons c) (scanValue d False s)"
  "c = CHR ''{'' \<or> c = CHR ''['' \<Longrightarrow> scanValue d False (c # s) = apfst (Cons c) (scanValue (Suc d) False s)"
  "c = CHR ''}'' \<or> c = CHR '']'' \<Longrightarrow> scanValue (Suc d) False (c # s) = apfst (Cons c) (scanValue d False s)"
  "scanValue d False (CHR 0x22 # s) = apfst (Cons (CHR 0x22)) (scanValue d True s)"
  by (subst scanValue.simps, auto simp: plain_char_def)+

lemma passed_plain: "list_all (plain_char d) u \<Longrightarrow> passed d u"
proof (induction u)
  case (Cons c u)
  have "passed d [c]"
    using Cons.prems by (simp add: passed_def scanValue_one(1) apfst_def map_prod_def)
  with Cons show ?case using passed_append [of d "[c]" u] by simp
qed (rule passed_Nil)

lemma passed_quoted: "passed d (appendEscapedString t)"
  by (simp add: passed_def appendEscapedString_def scanValue_one(4) scanText_escaped apfst_def map_prod_def
      split: prod.splits)

lemma passed_bracket:
  assumes "passed (Suc d) u" and "opens = CHR ''{'' \<or> opens = CHR ''[''" and "closes = CHR ''}'' \<or> closes = CHR '']''"
  shows "passed d (opens # u @ [closes])"
  using assms(1) by (simp add: passed_def scanValue_one(2) [OF assms(2)] scanValue_one(3) [OF assms(3)]
      apfst_def map_prod_def split: prod.splits)

lemma passed_separate: "(\<And>u. u \<in> set us \<Longrightarrow> passed (Suc d) u) \<Longrightarrow> passed (Suc d) (separate us)"
proof (induction us rule: separate.induct)
  case (3 x y ys)
  have "passed (Suc d) '',''" by (rule passed_plain) (simp add: plain_char_def)
  with 3 show ?case
    using passed_append [of "Suc d" x "'','' @ separate (y # ys)"] passed_append [of "Suc d" "'',''" "separate (y # ys)"]
    by simp
qed (simp_all add: passed_Nil)

lemma digits_plain: "list_all (plain_char d) (nat_to_string n)"
  using nat_to_string_digits [of n] by (auto simp: list_all_iff plain_char_def is_digit_def)

lemma passed_canonical: "passed d (appendCanonical v)"
proof (induction v arbitrary: d)
  case (CInteger i)
  show ?case
    using digits_plain [of d "nat i"] digits_plain [of d "nat (- i)"]
    by (intro passed_plain) (simp add: int_to_string_def plain_char_def [of d "CHR ''-''"])
next
  case (CArray es)
  have "passed (Suc d) (separate (map appendCanonical es))"
    by (rule passed_separate) (use CArray in auto)
  from passed_bracket [OF this, of "CHR ''[''" "CHR '']''"] show ?case by simp
next
  case (CObject ms)
  have colon: "passed (Suc d) '':''" by (rule passed_plain) (simp add: plain_char_def)
  have "passed (Suc d) (separate (map (\<lambda>m. appendEscapedString (fst m) @ CHR '':'' # appendCanonical (snd m)) ms))"
  proof (rule passed_separate)
    fix u assume "u \<in> set (map (\<lambda>m. appendEscapedString (fst m) @ CHR '':'' # appendCanonical (snd m)) ms)"
    then obtain m where m: "m \<in> set ms" and u: "u = appendEscapedString (fst m) @ '':'' @ appendCanonical (snd m)"
      by auto
    have "passed (Suc d) (appendCanonical (snd m))"
      using CObject [of m "snd m"] m by (cases m) auto
    then show "passed (Suc d) u"
      unfolding u by (intro passed_append passed_quoted colon)
  qed
  from passed_bracket [OF this, of "CHR ''{''" "CHR ''}''"] show ?case by simp
qed (simp_all add: passed_plain passed_quoted plain_char_def)

section \<open>Extraction from canonical objects\<close>

lemma appendCanonical_first: "\<not> bundle_space (hd (appendCanonical v))"
  using appendCanonical_hd [of v] by (cases v) (auto simp: kind_char_def bundle_space_def is_digit_def)

lemma digit_no_space: "is_digit c \<Longrightarrow> \<not> bundle_space c"
  by (auto simp: bundle_space_def is_digit_def)

lemma appendCanonical_last: "\<not> bundle_space (last (appendCanonical v))"
proof (cases v)
  case (CInteger i)
  have "is_digit (last (nat_to_string n))" for n
    using nat_to_string_digits [of n] by simp
  then have "\<not> bundle_space (last (nat_to_string n))" for n
    by (rule digit_no_space)
  then show ?thesis
    unfolding CInteger by (simp add: int_to_string_def)
qed (simp_all add: bundle_space_def appendEscapedString_def)

lemma trim_back_id: "s \<noteq> [] \<Longrightarrow> \<not> bundle_space (last s) \<Longrightarrow> trim_back s = s"
  by (cases s rule: rev_cases) (simp_all add: trim_back_def)

definition memberText :: "Member \<Rightarrow> bytes" where
  "memberText m = appendEscapedString (fst m) @ CHR '':'' # appendCanonical (snd m)"

text \<open>The name of a member as it stands in the text.\<close>

definition rawName :: "bytes \<Rightarrow> bytes" where
  "rawName name = concat (map escape_char name)"

lemma scanMembers_member:
  assumes "c = CHR '','' \<or> c = CHR ''}''"
  shows "scanMembers name (memberText m @ c # s) =
    (if rawName (fst m) = name then Inr (appendCanonical (snd m)) else scanMembers name (c # s))"
proof -
  let ?v = "appendCanonical (snd m)"
  have nospace: "\<not> bundle_space (CHR 0x22)" "\<not> bundle_space (CHR '':'')"
    by (simp_all add: bundle_space_def)
  have trim: "dropWhile bundle_space (?v @ c # s) = ?v @ c # s"
    using appendCanonical_first [of "snd m"] by (cases ?v) simp_all
  have stop: "scanValue 0 False (?v @ c # s) = (?v, c # s, 0, False)"
    using passed_canonical [of 0 "snd m"] assms by (auto simp: passed_def scanValue.simps(2))
  have found: "foundValue name ?v = Inr ?v"
    by (simp add: foundValue_def trim_back_id appendCanonical_last)
  have text': "memberText m @ c # s = CHR 0x22 # rawName (fst m) @ CHR 0x22 # CHR '':'' # ?v @ c # s"
    by (simp add: memberText_def appendEscapedString_def rawName_def)
  show ?thesis
    unfolding text' rawName_def
    by (subst scanMembers.simps) (simp add: nospace scanKey_escaped trim stop found)
qed

lemma scanMembers_comma: "scanMembers name (CHR '','' # s) = scanMembers name s"
  by (subst scanMembers.simps) (simp add: bundle_space_def)

lemma scanMembers_end:
  "scanMembers name ''}'' = attRefuse EnvelopeMismatch (''the bundle carries no '' @ name @ '' member'')"
  by (subst scanMembers.simps) (simp add: bundle_space_def)

lemma scanMembers_object:
  "scanMembers name (separate (map memberText ms) @ ''}'') =
     (case map_of (map (\<lambda>m. (rawName (fst m), snd m)) ms) name of
        None \<Rightarrow> attRefuse EnvelopeMismatch (''the bundle carries no '' @ name @ '' member'')
      | Some v \<Rightarrow> Inr (appendCanonical v))"
proof (induction ms)
  case Nil
  show ?case by (simp add: scanMembers_end)
next
  case (Cons m ms)
  show ?case
  proof (cases ms)
    case Nil
    then show ?thesis using scanMembers_member [of "CHR ''}''" name m "[]"] by (simp add: scanMembers_end)
  next
    case (Cons n ns)
    have "separate (map memberText (m # ms)) @ ''}'' = memberText m @ CHR '','' # separate (map memberText ms) @ ''}''"
      by (simp add: Cons)
    with Cons.IH scanMembers_member [of "CHR '',''" name m] show ?thesis
      by (simp add: scanMembers_comma)
  qed
qed

text \<open>
  C27. The scanner that isolates a member of the bundle reads canonical objects exactly: on the canonical
  text of any object it returns the text of the first member whose name, as it stands in the text, is
  the one asked for, and refuses when there is none.  Nested objects, arrays, strings with quotation
  marks, braces or commas in them never confuse it.
\<close>

theorem extraction_reads_canonical_objects:
  "extractTopLevelValue (appendCanonical (CObject ms)) name =
     (case map_of (map (\<lambda>m. (rawName (fst m), snd m)) ms) name of
        None \<Rightarrow> attRefuse EnvelopeMismatch (''the bundle carries no '' @ name @ '' member'')
      | Some v \<Rightarrow> Inr (appendCanonical v))"
proof -
  have "appendCanonical (CObject ms) = CHR ''{'' # separate (map memberText ms) @ ''}''"
    by (simp add: memberText_def [abs_def])
  then show ?thesis
    by (simp add: extractTopLevelValue_def scanMembers_object)
qed

end
