(* ===== verification/Simdjson_Dom.thy ===== *)
theory Simdjson_Dom
  imports Prelude
begin

text \<open>
  What the validators of \<open>tools/rf_evidence\<close> observe of the \<open>simdjson\<close> document object model.  The
  parser is third-party and stays a parameter (a function from bytes to an error or a tree); the tree
  and its accessors list the answers the documented interface gives: a member is looked up by the first
  key that matches, and an accessor of another type answers with an error code.
\<close>

datatype dom_error = NoSuchField | IncorrectType | NumberOutOfRange | ParserRefused nat

datatype dom_value =
    DObject "(string \<times> dom_value) list"
  | DArray "dom_value list"
  | DString string
  | DInteger int
  | DDouble
  | DBoolean bool
  | DNull

type_synonym dom_object = "(string \<times> dom_value) list"
type_synonym 'a dom_result = "dom_error + 'a"

definition dom_at_key :: "dom_object \<Rightarrow> string \<Rightarrow> dom_value dom_result" where
  "dom_at_key object k = (case map_of object k of None \<Rightarrow> Inl NoSuchField | Some v \<Rightarrow> Inr v)"

fun dom_get_object :: "dom_value \<Rightarrow> dom_object dom_result" where
  "dom_get_object (DObject members) = Inr members"
| "dom_get_object v = Inl IncorrectType"

fun dom_get_array :: "dom_value \<Rightarrow> dom_value list dom_result" where
  "dom_get_array (DArray elements) = Inr elements"
| "dom_get_array v = Inl IncorrectType"

fun dom_get_string :: "dom_value \<Rightarrow> string dom_result" where
  "dom_get_string (DString t) = Inr t"
| "dom_get_string v = Inl IncorrectType"

fun dom_get_bool :: "dom_value \<Rightarrow> bool dom_result" where
  "dom_get_bool (DBoolean b) = Inr b"
| "dom_get_bool v = Inl IncorrectType"

fun dom_get_int64 :: "dom_value \<Rightarrow> int dom_result" where
  "dom_get_int64 (DInteger i) = (if - (2 ^ 63) \<le> i \<and> i < 2 ^ 63 then Inr i else Inl NumberOutOfRange)"
| "dom_get_int64 v = Inl IncorrectType"

fun dom_get_uint64 :: "dom_value \<Rightarrow> nat dom_result" where
  "dom_get_uint64 (DInteger i) = (if 0 \<le> i \<and> i < 2 ^ 64 then Inr (nat i) else Inl NumberOutOfRange)"
| "dom_get_uint64 v = Inl IncorrectType"

text \<open>The chain \<open>object.at_key(k).get_...()\<close>.\<close>

definition dom_object_at :: "dom_object \<Rightarrow> string \<Rightarrow> dom_object dom_result" where
  "dom_object_at object k = rbind (dom_at_key object k) dom_get_object"

definition dom_array_at :: "dom_object \<Rightarrow> string \<Rightarrow> dom_value list dom_result" where
  "dom_array_at object k = rbind (dom_at_key object k) dom_get_array"

definition dom_string_at :: "dom_object \<Rightarrow> string \<Rightarrow> string dom_result" where
  "dom_string_at object k = rbind (dom_at_key object k) dom_get_string"

definition dom_bool_at :: "dom_object \<Rightarrow> string \<Rightarrow> bool dom_result" where
  "dom_bool_at object k = rbind (dom_at_key object k) dom_get_bool"

definition dom_int64_at :: "dom_object \<Rightarrow> string \<Rightarrow> int dom_result" where
  "dom_int64_at object k = rbind (dom_at_key object k) dom_get_int64"

definition dom_uint64_at :: "dom_object \<Rightarrow> string \<Rightarrow> nat dom_result" where
  "dom_uint64_at object k = rbind (dom_at_key object k) dom_get_uint64"

lemma dom_get_iff:
  "dom_get_object v = Inr ms \<longleftrightarrow> v = DObject ms"
  "dom_get_array v = Inr es \<longleftrightarrow> v = DArray es"
  "dom_get_string v = Inr t \<longleftrightarrow> v = DString t"
  "dom_get_bool v = Inr b \<longleftrightarrow> v = DBoolean b"
  by (cases v; simp; blast)+

lemma dom_get_int64_iff: "dom_get_int64 v = Inr i \<longleftrightarrow> v = DInteger i \<and> - (2 ^ 63) \<le> i \<and> i < 2 ^ 63"
  by (cases v) auto

lemma dom_at_iff:
  "dom_at_key object k = Inr v \<longleftrightarrow> map_of object k = Some v"
  "dom_object_at object k = Inr ms \<longleftrightarrow> map_of object k = Some (DObject ms)"
  "dom_array_at object k = Inr es \<longleftrightarrow> map_of object k = Some (DArray es)"
  "dom_string_at object k = Inr t \<longleftrightarrow> map_of object k = Some (DString t)"
  "dom_bool_at object k = Inr b \<longleftrightarrow> map_of object k = Some (DBoolean b)"
  by (auto simp: dom_at_key_def dom_object_at_def dom_array_at_def dom_string_at_def dom_bool_at_def rbind_Inr_iff
      dom_get_iff split: option.splits)

end
