(* ===== verification/Evidence_Blob.thy ===== *)
theory Evidence_Blob
  imports Evidence_Descriptor
begin

text \<open>
  \<open>tools/rf_evidence/src/file_security.{h,cpp}\<close> and \<open>blob_store.{h,cpp}\<close>: what a path names, the
  exclusive staged file, the move without replacement, and the content-addressed store with its
  operations put, verify and get.

  The host is explicit state: what each path names, a clock that counts system calls, and the number
  of staged names taken.  A machine says what surrounds the process: the digest provider, the
  process number, what other processes do to the disk before each call, and which calls the operating
  system fails.  Every call is one turn of the host; the two calls of the move are two turns, so
  other processes can act between them.
\<close>

section \<open>What the store refuses\<close>

datatype BlobRejection =
    InvalidDigest | SourceNotPermitted | UnsafePath | BlobLimitExceeded | StagingCollision
  | StagedVerificationFailed | CorruptStoredBlob | MissingBlob | StoreIoFailure

fun blobRejectionName :: "BlobRejection \<Rightarrow> string" where
  "blobRejectionName InvalidDigest = ''invalid_digest''"
| "blobRejectionName SourceNotPermitted = ''source_not_permitted''"
| "blobRejectionName UnsafePath = ''unsafe_path''"
| "blobRejectionName BlobLimitExceeded = ''limit_exceeded''"
| "blobRejectionName StagingCollision = ''staging_collision''"
| "blobRejectionName StagedVerificationFailed = ''staged_verification_failed''"
| "blobRejectionName CorruptStoredBlob = ''corrupt_stored_blob''"
| "blobRejectionName MissingBlob = ''missing_blob''"
| "blobRejectionName StoreIoFailure = ''store_io_failure''"

record BlobFailure =
  bf_rejection :: BlobRejection
  bf_subject :: string
  bf_detail :: string

type_synonym 'a BlobResult = "BlobFailure + 'a"

text \<open>The two operations a reader of the store uses.\<close>

record BlobStore =
  bs_get :: "bytes \<Rightarrow> bytes BlobResult"
  bs_pathFor :: "bytes \<Rightarrow> string BlobResult"

definition blobReject :: "BlobRejection \<Rightarrow> string \<Rightarrow> string \<Rightarrow> 'a BlobResult" where
  "blobReject rejection subject detail =
     Inl \<lparr>bf_rejection = rejection, bf_subject = subject, bf_detail = detail\<rparr>"

definition fromFailure :: "Failure \<Rightarrow> BlobRejection \<Rightarrow> BlobFailure" where
  "fromFailure failure rejection =
     \<lparr>bf_rejection = rejection, bf_subject = f_path failure, bf_detail = f_message failure\<rparr>"

lemma blobReject_simps [simp]: "blobReject r s d \<noteq> Inr x" "Inr x \<noteq> blobReject r s d"
  "rbind (blobReject r s d) f = blobReject r s d" "\<not> is_ok (blobReject r s d)"
  by (simp_all add: blobReject_def)

definition kMaximumBlobBytes :: nat where "kMaximumBlobBytes = 16777216"
definition kStagingCollisionRetries :: nat where "kStagingCollisionRetries = 4"
definition kDigestTextLength :: nat where "kDigestTextLength = 71"
definition kBucketNameLength :: nat where "kBucketNameLength = 2"
definition kSha256ChunkBytes :: nat where "kSha256ChunkBytes = 1048576"
definition kBlobStoreRelativeRoot :: string where "kBlobStoreRelativeRoot = ''out/evidence/v1/blobs''"

record BlobIdentity =
  bi_byteLength :: nat   \<comment> \<open>\<open>std::uint64_t\<close>\<close>
  bi_digest :: bytes

record StagedBlob =
  st_path :: string
  st_identity :: BlobIdentity

section \<open>The host\<close>

datatype FileKind = KindMissing | KindRegular | KindDirectory | KindReparse | KindSpecial

fun fileKindName :: "FileKind \<Rightarrow> string" where
  "fileKindName KindMissing = ''missing''"
| "fileKindName KindRegular = ''regular file''"
| "fileKindName KindDirectory = ''directory''"
| "fileKindName KindReparse = ''symbolic link or reparse point''"
| "fileKindName KindSpecial = ''special file''"

text \<open>What a path names; a link carries the content a reader that follows it gets, if any.\<close>

datatype DiskNode = FileNode bytes | DirectoryNode | LinkNode "bytes option" | SpecialNode

type_synonym Disk = "string \<rightharpoonup> DiskNode"

record Host =
  ho_disk :: Disk
  ho_clock :: nat
  ho_stagings :: nat

record Machine =
  mc_provider :: Provider
  mc_process :: nat
  mc_others :: "nat \<Rightarrow> Disk \<Rightarrow> Disk"
  mc_fault :: "nat \<Rightarrow> (string \<times> nat) option"   \<comment> \<open>the error text and how many bytes got through\<close>

text \<open>One system call: the others act, then the call is performed or fails.\<close>

definition system_call ::
  "Machine \<Rightarrow> (string \<Rightarrow> nat \<Rightarrow> Disk \<Rightarrow> 'a \<times> Disk) \<Rightarrow> (Disk \<Rightarrow> 'a \<times> Disk) \<Rightarrow> Host \<Rightarrow> 'a \<times> Host" where
  "system_call mc failing performed h =
     (let disk = mc_others mc (ho_clock h) (ho_disk h);
          (answer, disk') = (case mc_fault mc (ho_clock h) of
             None \<Rightarrow> performed disk | Some (message, progress) \<Rightarrow> failing message progress disk)
      in (answer, h\<lparr>ho_disk := disk', ho_clock := Suc (ho_clock h)\<rparr>))"

definition kind_of_node :: "DiskNode option \<Rightarrow> FileKind" where
  "kind_of_node node =
     (case node of None \<Rightarrow> KindMissing | Some (FileNode b) \<Rightarrow> KindRegular | Some DirectoryNode \<Rightarrow> KindDirectory
      | Some (LinkNode target) \<Rightarrow> KindReparse | Some SpecialNode \<Rightarrow> KindSpecial)"

definition classifyPath :: "Machine \<Rightarrow> string \<Rightarrow> Host \<Rightarrow> FileKind Result \<times> Host" where
  "classifyPath mc path = system_call mc
     (\<lambda>message progress disk. (fail IoFailure path message, disk))
     (\<lambda>disk. (Inr (kind_of_node (disk path)), disk))"

section \<open>The exclusive file and the move\<close>

text \<open>\<open>open\<close> with \<open>O_CREAT | O_EXCL\<close>: it does not follow a link in the last place.\<close>

definition createExclusive :: "Machine \<Rightarrow> string \<Rightarrow> Host \<Rightarrow> unit Result \<times> Host" where
  "createExclusive mc path = system_call mc
     (\<lambda>message progress disk. (fail IoFailure path message, disk))
     (\<lambda>disk. if disk path \<noteq> None then (fail OwnershipCollision path ''the path already exists'', disk)
             else if disk (parent_path path) \<noteq> Some DirectoryNode then (fail IoFailure path ''errno 2'', disk)
             else (Inr (), disk(path \<mapsto> FileNode [])))"

definition append_to :: "string \<Rightarrow> bytes \<Rightarrow> Disk \<Rightarrow> Disk" where
  "append_to path bytes disk = (case disk path of Some (FileNode b) \<Rightarrow> disk(path \<mapsto> FileNode (b @ bytes)) | _ \<Rightarrow> disk)"

text \<open>The loop that writes one chunk; when it fails, some of the bytes may have got through.\<close>

definition writeChunk :: "Machine \<Rightarrow> string \<Rightarrow> bytes \<Rightarrow> Host \<Rightarrow> unit Result \<times> Host" where
  "writeChunk mc path bytes h =
     (if bytes = [] then (Inr (), h)
      else system_call mc
        (\<lambda>message progress disk. (fail IoFailure path message, append_to path (take progress bytes) disk))
        (\<lambda>disk. (Inr (), append_to path bytes disk)) h)"

definition closeFile :: "Machine \<Rightarrow> string \<Rightarrow> Host \<Rightarrow> unit Result \<times> Host" where
  "closeFile mc path = system_call mc
     (\<lambda>message progress disk. (fail IoFailure path message, disk)) (\<lambda>disk. (Inr (), disk))"

definition linkFile :: "Machine \<Rightarrow> string \<Rightarrow> string \<Rightarrow> Host \<Rightarrow> unit Result \<times> Host" where
  "linkFile mc staged destination = system_call mc
     (\<lambda>message progress disk. (fail IoFailure destination message, disk))
     (\<lambda>disk. case disk staged of
        None \<Rightarrow> (fail IoFailure destination ''errno 2'', disk)
      | Some node \<Rightarrow>
          if disk destination \<noteq> None
          then (fail OwnershipCollision destination ''the destination already exists'', disk)
          else if node = DirectoryNode then (fail IoFailure destination ''errno 1'', disk)
          else if disk (parent_path destination) \<noteq> Some DirectoryNode
          then (fail IoFailure destination ''errno 2'', disk)
          else (Inr (), disk(destination \<mapsto> node)))"

definition unlinkFile :: "Machine \<Rightarrow> string \<Rightarrow> Host \<Rightarrow> unit Result \<times> Host" where
  "unlinkFile mc staged = system_call mc
     (\<lambda>message progress disk. (fail IoFailure staged message, disk))
     (\<lambda>disk. case disk staged of
        None \<Rightarrow> (fail IoFailure staged ''errno 2'', disk)
      | Some node \<Rightarrow>
          if node = DirectoryNode then (fail IoFailure staged ''errno 21'', disk)
          else (Inr (), disk(staged := None)))"

definition publishWithoutReplacement :: "Machine \<Rightarrow> string \<Rightarrow> string \<Rightarrow> Host \<Rightarrow> unit Result \<times> Host" where
  "publishWithoutReplacement mc staged destination h =
     (case linkFile mc staged destination h of
        (Inl failure, h') \<Rightarrow> (Inl failure, h')
      | (Inr _, h') \<Rightarrow> unlinkFile mc staged h')"

text \<open>\<open>std::filesystem::remove\<close> on a file this process staged, its error ignored.\<close>

definition discardStaged :: "Machine \<Rightarrow> string \<Rightarrow> Host \<Rightarrow> Host" where
  "discardStaged mc staged h = snd (system_call mc
     (\<lambda>message progress disk. ((), disk))
     (\<lambda>disk. ((), if disk staged = Some DirectoryNode then disk else disk(staged := None))) h)"

section \<open>Reading\<close>

text \<open>The chunks the read loop gets from some content.\<close>

function chunks_of :: "nat \<Rightarrow> bytes \<Rightarrow> bytes list" where
  "chunks_of n b = (if n = 0 \<or> b = [] then [] else take n b # chunks_of n (drop n b))"
  by pat_completeness auto
termination by (relation "measure (\<lambda>(n, b). length b)") auto

declare chunks_of.simps [simp del]

text \<open>
  Opening a path and reading it to the end.  A call that fails either did not open the file, or
  stopped after some bytes without reaching the end.
\<close>

definition reads_of :: "DiskNode option \<Rightarrow> FileReads" where
  "reads_of node =
     (case node of
        Some (FileNode b) \<Rightarrow> \<lparr>fr_opens = True, fr_chunks = chunks_of kSha256ChunkBytes b, fr_eof = True\<rparr>
      | Some (LinkNode (Some b)) \<Rightarrow> \<lparr>fr_opens = True, fr_chunks = chunks_of kSha256ChunkBytes b, fr_eof = True\<rparr>
      | Some DirectoryNode \<Rightarrow> \<lparr>fr_opens = True, fr_chunks = [], fr_eof = False\<rparr>
      | _ \<Rightarrow> \<lparr>fr_opens = False, fr_chunks = [], fr_eof = False\<rparr>)"

definition readPath :: "Machine \<Rightarrow> string \<Rightarrow> Host \<Rightarrow> FileReads \<times> Host" where
  "readPath mc path = system_call mc
     (\<lambda>message progress disk.
        (\<lparr>fr_opens = 0 < progress,
          fr_chunks = chunks_of kSha256ChunkBytes (take (progress - 1) (concat (fr_chunks (reads_of (disk path))))),
          fr_eof = False\<rparr>, disk))
     (\<lambda>disk. (reads_of (disk path), disk))"

definition measureChunk :: "Provider \<Rightarrow> string \<Rightarrow> Sha256Stream \<times> nat \<Rightarrow> bytes \<Rightarrow> (Sha256Stream \<times> nat) BlobResult" where
  "measureChunk evp kSubject = (\<lambda>(digest, total) kChunk.
     if kChunk = [] then Inr (digest, total)
     else if kMaximumBlobBytes < total + length kChunk
     then blobReject BlobLimitExceeded kSubject
       (''content exceeds the '' @ nat_to_string kMaximumBlobBytes @ '' byte blob ceiling'')
     else (case sha256_update evp digest kChunk of
             Inl failure \<Rightarrow> Inl (fromFailure failure StoreIoFailure)
           | Inr digest' \<Rightarrow> Inr (digest', total + length kChunk)))"

definition measureReads :: "Provider \<Rightarrow> string \<Rightarrow> FileReads \<Rightarrow> BlobIdentity BlobResult" where
  "measureReads evp kSubject reads =
     (if \<not> fr_opens reads then blobReject StoreIoFailure kSubject ''failed to open the content''
      else case sha256_begin evp (sha256_stream evp kSubject) of
        Inl failure \<Rightarrow> Inl (fromFailure failure StoreIoFailure)
      | Inr digest \<Rightarrow> rbind (rfold (measureChunk evp kSubject) (digest, 0) (fr_chunks reads)) (\<lambda>(digest, total).
          if \<not> fr_eof reads then blobReject StoreIoFailure kSubject ''failed while reading the content''
          else (case fst (sha256_finish evp digest) of
                  Inl failure \<Rightarrow> Inl (fromFailure failure StoreIoFailure)
                | Inr hex \<Rightarrow> Inr \<lparr>bi_byteLength = total, bi_digest = kDigestPrefix @ hex\<rparr>)))"

section \<open>Steps of the store\<close>

type_synonym 'a store_step = "Host \<Rightarrow> 'a BlobResult \<times> Host"

definition answer :: "'a BlobResult \<Rightarrow> 'a store_step" where
  "answer result h = (result, h)"

definition sbind :: "'a store_step \<Rightarrow> ('a \<Rightarrow> 'b store_step) \<Rightarrow> 'b store_step" where
  "sbind first_step next_step h =
     (case first_step h of (Inl failure, h') \<Rightarrow> (Inl failure, h') | (Inr x, h') \<Rightarrow> next_step x h')"

definition mapped :: "BlobRejection \<Rightarrow> (Host \<Rightarrow> 'a Result \<times> Host) \<Rightarrow> 'a store_step" where
  "mapped rejection call h =
     (case call h of (Inl failure, h') \<Rightarrow> (Inl (fromFailure failure rejection), h') | (Inr x, h') \<Rightarrow> (Inr x, h'))"

definition orDiscard :: "Machine \<Rightarrow> string \<Rightarrow> 'a store_step \<Rightarrow> 'a store_step" where
  "orDiscard mc staged first_step h =
     (case first_step h of
        (Inl failure, h') \<Rightarrow> (Inl failure, discardStaged mc staged h')
      | (Inr x, h') \<Rightarrow> (Inr x, h'))"

definition measureFile :: "Machine \<Rightarrow> string \<Rightarrow> BlobIdentity store_step" where
  "measureFile mc path h =
     (case readPath mc path h of (reads, h') \<Rightarrow> (measureReads (mc_provider mc) path reads, h'))"

definition validateBlobDigest :: "bytes \<Rightarrow> unit BlobResult" where
  "validateBlobDigest digest =
     (if length digest \<noteq> kDigestTextLength
      then blobReject InvalidDigest digest (''a digest is exactly '' @ nat_to_string kDigestTextLength @ '' characters'')
      else if \<not> starts_with digest kDigestPrefix
      then blobReject InvalidDigest digest ''the digest carries no sha256: algorithm prefix''
      else if \<not> isLowercaseHex (drop (length kDigestPrefix) digest)
      then blobReject InvalidDigest digest ''the digest is not sixty-four lowercase hexadecimal characters''
      else Inr ())"

definition pathFor :: "string \<Rightarrow> bytes \<Rightarrow> string BlobResult" where
  "pathFor root digest = rbind (validateBlobDigest digest) (\<lambda>_.
     let kHex = drop (length kDigestPrefix) digest
     in Inr (root @ ''/sha256/'' @ take kBucketNameLength kHex @ ''/'' @ drop kBucketNameLength kHex))"

text \<open>The path and every directory above it.\<close>

definition directories_to :: "string \<Rightarrow> string list" where
  "directories_to path =
     filter (\<lambda>p. p \<noteq> []) (map (\<lambda>k. take k path) (filter (\<lambda>k. path ! k = CHR ''/'') [0..<length path])) @ [path]"

definition createDirectories :: "Machine \<Rightarrow> string \<Rightarrow> Host \<Rightarrow> string option \<times> Host" where
  "createDirectories mc path = system_call mc
     (\<lambda>message progress disk. (Some message, disk))
     (\<lambda>disk. if list_all (\<lambda>p. disk p = None \<or> disk p = Some DirectoryNode) (directories_to path)
             then (None, \<lambda>p. if p \<in> set (directories_to path) then Some DirectoryNode else disk p)
             else (Some ''Not a directory'', disk))"

definition isDirectory :: "Machine \<Rightarrow> string \<Rightarrow> Host \<Rightarrow> bool \<times> Host" where
  "isDirectory mc path = system_call mc
     (\<lambda>message progress disk. (False, disk)) (\<lambda>disk. (disk path = Some DirectoryNode, disk))"

definition makeDirectory :: "Machine \<Rightarrow> string \<Rightarrow> unit store_step" where
  "makeDirectory mc directory h =
     (case createDirectories mc directory h of
        (None, h') \<Rightarrow> (Inr (), h')
      | (Some message, h') \<Rightarrow>
          (case isDirectory mc directory h' of
             (True, h'') \<Rightarrow> (Inr (), h'')
           | (False, h'') \<Rightarrow> (blobReject StoreIoFailure directory message, h'')))"

definition enterDirectory :: "Machine \<Rightarrow> bool \<Rightarrow> string \<Rightarrow> unit store_step" where
  "enterDirectory mc create directory =
     sbind (mapped StoreIoFailure (classifyPath mc directory)) (\<lambda>kind.
       case kind of
         KindDirectory \<Rightarrow> answer (Inr ())
       | KindMissing \<Rightarrow>
           if \<not> create then answer (blobReject MissingBlob directory ''the store has no such bucket'')
           else makeDirectory mc directory
       | _ \<Rightarrow> answer (blobReject UnsafePath directory (''the store path is a '' @ fileKindName kind)))"

definition walkStoreChain :: "Machine \<Rightarrow> string \<Rightarrow> bool \<Rightarrow> unit store_step" where
  "walkStoreChain mc blobPath create =
     (let kBucket = parent_path blobPath; kAlgorithm = parent_path kBucket; kRoot = parent_path kAlgorithm
      in sbind (enterDirectory mc create kRoot) (\<lambda>_.
         sbind (enterDirectory mc create kAlgorithm) (\<lambda>_.
         enterDirectory mc create kBucket)))"

definition confirmStoredContent :: "Machine \<Rightarrow> string \<Rightarrow> BlobIdentity \<Rightarrow> BlobRejection \<Rightarrow> unit store_step" where
  "confirmStoredContent mc path expected rejection =
     sbind (measureFile mc path) (\<lambda>observed. answer
       (if bi_byteLength observed \<noteq> bi_byteLength expected
        then blobReject rejection path (''stored byte length '' @ nat_to_string (bi_byteLength observed) @
          '' disagrees with '' @ nat_to_string (bi_byteLength expected))
        else if bi_digest observed \<noteq> bi_digest expected
        then blobReject rejection path (''stored digest disagrees with '' @ bi_digest expected)
        else Inr ()))"

section \<open>Staging\<close>

definition stagingSuffix :: "Machine \<Rightarrow> nat \<Rightarrow> Host \<Rightarrow> string \<times> Host" where
  "stagingSuffix mc attempt h =
     (''.'' @ nat_to_string (mc_process mc) @ ''.'' @ nat_to_string (ho_stagings h) @ ''.'' @ nat_to_string attempt @ ''.tmp'',
      h\<lparr>ho_stagings := Suc (ho_stagings h)\<rparr>)"

fun claimStaging :: "Machine \<Rightarrow> string \<Rightarrow> nat \<Rightarrow> nat \<Rightarrow> string store_step" where
  "claimStaging mc destination attempt remaining h =
     (case stagingSuffix mc attempt h of (suffix, h1) \<Rightarrow>
      (case createExclusive mc (destination @ suffix) h1 of
         (Inr _, h2) \<Rightarrow> (Inr (destination @ suffix), h2)
       | (Inl failure, h2) \<Rightarrow>
           if f_code failure \<noteq> OwnershipCollision then (Inl (fromFailure failure StoreIoFailure), h2)
           else (case remaining of
                   0 \<Rightarrow> (blobReject StagingCollision (destination @ suffix)
                          (''no unused staging name after '' @ nat_to_string (kStagingCollisionRetries + 1) @ '' attempts''), h2)
                 | Suc remaining' \<Rightarrow> claimStaging mc destination (attempt + 1) remaining' h2)))"

declare claimStaging.simps [simp del]

fun writeChunks :: "Machine \<Rightarrow> string \<Rightarrow> bytes list \<Rightarrow> unit store_step" where
  "writeChunks mc staged [] h = (Inr (), h)"
| "writeChunks mc staged (kChunk # rest) h =
     sbind (mapped StoreIoFailure (writeChunk mc staged kChunk)) (\<lambda>_. writeChunks mc staged rest) h"

definition copySource :: "Machine \<Rightarrow> string \<Rightarrow> string \<Rightarrow> unit store_step" where
  "copySource mc source staged h =
     (case readPath mc source h of (reads, h') \<Rightarrow>
        if \<not> fr_opens reads then (blobReject StoreIoFailure source ''failed to reopen the source'', h')
        else sbind (writeChunks mc staged (fr_chunks reads)) (\<lambda>_. answer
          (if \<not> fr_eof reads then blobReject StoreIoFailure source ''failed while reading the source'' else Inr ())) h')"

definition stage :: "Machine \<Rightarrow> string \<Rightarrow> string \<Rightarrow> StagedBlob store_step" where
  "stage mc root source =
     sbind (mapped StoreIoFailure (classifyPath mc source)) (\<lambda>kind.
       if kind \<noteq> KindRegular
       then answer (blobReject SourceNotPermitted source (''the source is a '' @ fileKindName kind))
       else sbind (measureFile mc source) (\<lambda>identity.
         sbind (answer (pathFor root (bi_digest identity))) (\<lambda>destination.
         sbind (walkStoreChain mc destination True) (\<lambda>_.
         sbind (claimStaging mc destination 0 kStagingCollisionRetries) (\<lambda>staged.
         sbind (orDiscard mc staged (copySource mc source staged)) (\<lambda>_.
         sbind (orDiscard mc staged (mapped StoreIoFailure (closeFile mc staged))) (\<lambda>_.
         answer (Inr \<lparr>st_path = staged, st_identity = identity\<rparr>))))))))"

section \<open>Publishing, verifying and reading back\<close>

text \<open>What is done with a destination that is there.\<close>

definition settle :: "Machine \<Rightarrow> StagedBlob \<Rightarrow> string \<Rightarrow> FileKind \<Rightarrow> BlobIdentity store_step" where
  "settle mc staged destination kind h =
     (let h' = discardStaged mc (st_path staged) h
      in if kind \<noteq> KindRegular
         then (blobReject UnsafePath destination (''the destination is a '' @ fileKindName kind), h')
         else sbind (confirmStoredContent mc destination (st_identity staged) CorruptStoredBlob) (\<lambda>_.
           answer (Inr (st_identity staged))) h')"

definition moveInto :: "Machine \<Rightarrow> StagedBlob \<Rightarrow> string \<Rightarrow> BlobIdentity store_step" where
  "moveInto mc staged destination h =
     (case publishWithoutReplacement mc (st_path staged) destination h of
        (Inr _, h') \<Rightarrow> (Inr (st_identity staged), h')
      | (Inl failure, h') \<Rightarrow>
          if f_code failure \<noteq> OwnershipCollision
          then (Inl (fromFailure failure StoreIoFailure), discardStaged mc (st_path staged) h')
          else sbind (orDiscard mc (st_path staged) (mapped StoreIoFailure (classifyPath mc destination)))
            (settle mc staged destination) h')"

definition publish :: "Machine \<Rightarrow> string \<Rightarrow> StagedBlob \<Rightarrow> BlobIdentity store_step" where
  "publish mc root staged =
     sbind (orDiscard mc (st_path staged)
       (confirmStoredContent mc (st_path staged) (st_identity staged) StagedVerificationFailed)) (\<lambda>_.
     sbind (orDiscard mc (st_path staged) (answer (pathFor root (bi_digest (st_identity staged))))) (\<lambda>destination.
     sbind (orDiscard mc (st_path staged) (mapped StoreIoFailure (classifyPath mc destination))) (\<lambda>kind.
       if kind = KindMissing then moveInto mc staged destination else settle mc staged destination kind)))"

definition putBlob :: "Machine \<Rightarrow> string \<Rightarrow> string \<Rightarrow> BlobIdentity store_step" where
  "putBlob mc root source = sbind (stage mc root source) (publish mc root)"

definition verifyBlob :: "Machine \<Rightarrow> string \<Rightarrow> bytes \<Rightarrow> BlobIdentity store_step" where
  "verifyBlob mc root digest =
     sbind (answer (pathFor root digest)) (\<lambda>path.
     sbind (walkStoreChain mc path False) (\<lambda>_.
     sbind (mapped StoreIoFailure (classifyPath mc path)) (\<lambda>kind.
       if kind = KindMissing then answer (blobReject MissingBlob path ''the store holds no such blob'')
       else if kind \<noteq> KindRegular
       then answer (blobReject UnsafePath path (''the stored path is a '' @ fileKindName kind))
       else sbind (measureFile mc path) (\<lambda>observed. answer
         (if bi_digest observed \<noteq> digest
          then blobReject CorruptStoredBlob path
            (''stored bytes hash to '' @ bi_digest observed @ '' rather than '' @ digest)
          else Inr observed)))))"

text \<open>The second read takes as many bytes as the verified length says, and hashes them again.\<close>

definition rereadBlob :: "Machine \<Rightarrow> string \<Rightarrow> BlobIdentity \<Rightarrow> bytes store_step" where
  "rereadBlob mc path identity h =
     (case readPath mc path h of (reads, h') \<Rightarrow>
        (let bytes = take (bi_byteLength identity) (concat (fr_chunks reads))
         in if \<not> fr_opens reads then (blobReject StoreIoFailure path ''failed to open the blob'', h')
            else if 0 < bi_byteLength identity \<and> length bytes \<noteq> bi_byteLength identity
            then (blobReject CorruptStoredBlob path ''the blob changed length between verification and read'', h')
            else case sha256Bytes (mc_provider mc) bytes of
              Inl failure \<Rightarrow> (Inl (fromFailure failure StoreIoFailure), h')
            | Inr reread \<Rightarrow>
                if kDigestPrefix @ reread \<noteq> bi_digest identity
                then (blobReject CorruptStoredBlob path ''the blob changed between verification and read'', h')
                else (Inr bytes, h')))"

definition getBlob :: "Machine \<Rightarrow> string \<Rightarrow> bytes \<Rightarrow> bytes store_step" where
  "getBlob mc root digest =
     sbind (verifyBlob mc root digest) (\<lambda>identity.
     sbind (answer (pathFor root digest)) (\<lambda>path. rereadBlob mc path identity))"

end
