(* ===== verification/Evidence_Trust.thy ===== *)
theory Evidence_Trust
  imports Evidence_Attestation Evidence_Blob
begin

text \<open>
  \<open>tools/rf_evidence/src/trust_policy.{h,cpp}\<close>: the trust class of a record, derived from its claim,
  the bundle and subject the store holds under the digests the claim names, and the runs admitted
  before; and the arguments that ask for authority and are refused.
\<close>

datatype TrustClass = DiagnosticUntrusted | TrustedCi

fun trustClassName :: "TrustClass \<Rightarrow> string" where
  "trustClassName DiagnosticUntrusted = ''diagnostic_untrusted''"
| "trustClassName TrustedCi = ''trusted_ci''"

datatype TrustRejection = MalformedTrustBlock | ProvenanceUnavailable | TrustClaimUnsupported | AttestationRefused

fun trustRejectionName :: "TrustRejection \<Rightarrow> string" where
  "trustRejectionName MalformedTrustBlock = ''malformed_trust_block''"
| "trustRejectionName ProvenanceUnavailable = ''provenance_unavailable''"
| "trustRejectionName TrustClaimUnsupported = ''trust_claim_unsupported''"
| "trustRejectionName AttestationRefused = ''attestation_refused''"

record TrustFailure =
  tf_rejection :: TrustRejection
  tf_detail :: string

type_synonym 'a TrustResult = "TrustFailure + 'a"

definition trustRefuse :: "TrustRejection \<Rightarrow> string \<Rightarrow> 'a TrustResult" where
  "trustRefuse rejection detail = Inl \<lparr>tf_rejection = rejection, tf_detail = detail\<rparr>"

lemma trustRefuse_simps [simp]: "trustRefuse r d \<noteq> Inr x" "Inr x \<noteq> trustRefuse r d"
  "rbind (trustRefuse r d) f = trustRefuse r d"
  by (simp_all add: trustRefuse_def)

definition refuseAttestation :: "AttestationFailure \<Rightarrow> 'a TrustResult" where
  "refuseAttestation failure =
     trustRefuse AttestationRefused (attestationRejectionName (af_rejection failure) @ '': '' @ af_detail failure)"

lemma refuseAttestation_simps [simp]: "refuseAttestation f \<noteq> Inr x" "Inr x \<noteq> refuseAttestation f"
  by (simp_all add: refuseAttestation_def)

record AdmittedRun =
  ar_runId :: int
  ar_runAttempt :: int
  ar_subjectDigest :: bytes

definition replays :: "DecodedProvenance \<Rightarrow> AdmittedRun \<Rightarrow> bool" where
  "replays verified previous \<longleftrightarrow> ar_runId previous = dp_runId verified \<and>
     ar_runAttempt previous = dp_runAttempt verified \<and> ar_subjectDigest previous \<noteq> dp_subjectDigest verified"

definition deriveTrustClass ::
  "Surroundings \<Rightarrow> CanonicalValue \<Rightarrow> AttestationInputs \<Rightarrow> AdmittedRun list \<Rightarrow> TrustClass TrustResult" where
  "deriveTrustClass su trust inputs admitted =
     (if value_kind trust \<noteq> KObject then trustRefuse MalformedTrustBlock ''the trust block is not an object''
      else case find_member trust ''provenance'' of
        None \<Rightarrow> trustRefuse MalformedTrustBlock ''the trust block carries no provenance string''
      | Some provenance \<Rightarrow>
          if value_kind provenance \<noteq> KString
          then trustRefuse MalformedTrustBlock ''the trust block carries no provenance string''
          else if value_text provenance = trustClassName DiagnosticUntrusted
          then if find_member trust ''attestation'' \<noteq> None
               then trustRefuse MalformedTrustBlock ''an untrusted record carries an attestation it does not claim''
               else Inr DiagnosticUntrusted
          else if value_text provenance \<noteq> trustClassName TrustedCi
          then trustRefuse TrustClaimUnsupported (''unsupported provenance class: '' @ value_text provenance)
          else (case find_member trust ''attestation'' of
              None \<Rightarrow> trustRefuse ProvenanceUnavailable
                ''the record claims trusted_ci and carries nothing that could prove it''
            | Some attestation \<Rightarrow>
                (case parseAttestationClaim attestation of
                   Inl failure \<Rightarrow> refuseAttestation failure
                 | Inr claim \<Rightarrow>
                     (case verifyAttestation su claim inputs of
                        Inl failure \<Rightarrow> refuseAttestation failure
                      | Inr verified \<Rightarrow>
                          (case find (replays verified) admitted of
                             Some previous \<Rightarrow> trustRefuse AttestationRefused
                               (attestationRejectionName RunIdentityReplayed @
                                '': run identity was already admitted for '' @ ar_subjectDigest previous)
                           | None \<Rightarrow> Inr TrustedCi)))))"

definition noInputs :: AttestationInputs where
  "noInputs = \<lparr>ai_bundlePath = [], ai_subjectPath = [], ai_cosign = [], ai_trustedRoot = []\<rparr>"

definition claimsTrust :: "CanonicalValue \<Rightarrow> bool" where
  "claimsTrust trust =
     (case find_member trust ''provenance'' of
        None \<Rightarrow> False
      | Some provenance \<Rightarrow> value_kind provenance = KString \<and> value_text provenance = trustClassName TrustedCi)"

definition storedInputs :: "string \<Rightarrow> string \<Rightarrow> AttestationClaim \<Rightarrow> AttestationInputs TrustResult" where
  "storedInputs preparedToolsRoot storeRoot claim =
     (case pathFor storeRoot (d_digest (cl_bundle claim)) of
        Inl failure \<Rightarrow> trustRefuse ProvenanceUnavailable
          (''the claimed bundle is not addressable in the local store: '' @ bf_detail failure)
      | Inr bundlePath \<Rightarrow>
          (case pathFor storeRoot (cl_subjectDigest claim) of
             Inl failure \<Rightarrow> trustRefuse ProvenanceUnavailable
               (''the claimed subject is not addressable in the local store: '' @ bf_detail failure)
           | Inr subjectPath \<Rightarrow>
               Inr \<lparr>ai_bundlePath = bundlePath, ai_subjectPath = subjectPath,
                 ai_cosign = preparedToolsRoot @ ''/cosign/bin/cosign'',
                 ai_trustedRoot = preparedToolsRoot @ ''/cosign/share/trusted_root.json''\<rparr>))"

definition resolveInputs :: "CanonicalValue \<Rightarrow> string \<Rightarrow> string \<Rightarrow> AttestationInputs TrustResult" where
  "resolveInputs trust preparedToolsRoot storeRoot =
     (case find_member trust ''attestation'' of
        None \<Rightarrow> Inr noInputs
      | Some attestation \<Rightarrow>
          if \<not> claimsTrust trust then Inr noInputs
          else if preparedToolsRoot = []
          then trustRefuse ProvenanceUnavailable (''the record claims trusted_ci and no host was named, so the '' @
            ''offline verifier this generation verifies with could not be located'')
          else (case parseAttestationClaim attestation of
                  Inl failure \<Rightarrow> refuseAttestation failure
                | Inr claim \<Rightarrow> storedInputs preparedToolsRoot storeRoot claim))"

definition deriveRecordTrustClass ::
  "Surroundings \<Rightarrow> CanonicalValue \<Rightarrow> string \<Rightarrow> string \<Rightarrow> AdmittedRun list \<Rightarrow> TrustClass TrustResult" where
  "deriveRecordTrustClass su record preparedToolsRoot storeRoot admitted =
     (case find_member record ''trust'' of
        None \<Rightarrow> Inr DiagnosticUntrusted
      | Some trust \<Rightarrow>
          rbind (resolveInputs trust preparedToolsRoot storeRoot) (\<lambda>inputs.
            deriveTrustClass su trust inputs admitted))"

definition kEscalationVocabulary :: "string list" where
  "kEscalationVocabulary = [''--trust'', ''--tier'', ''--provenance'', ''--trusted'', ''--trusted-ci'', ''--promote'',
     ''--activate-baseline'', ''--force'']"

definition argumentName :: "string \<Rightarrow> string" where
  "argumentName kArgument =
     (case index_of CHR ''='' kArgument of None \<Rightarrow> kArgument | Some kSeparator \<Rightarrow> take kSeparator kArgument)"

definition refusedEscalationRequests :: "string list \<Rightarrow> string list" where
  "refusedEscalationRequests arguments =
     filter (\<lambda>kArgument. argumentName kArgument \<in> set kEscalationVocabulary) arguments"

section \<open>What a verified attestation is\<close>

text \<open>The seven requirements, as one condition on the claim, the bundle, the subject and the verifier.\<close>

definition attested ::
  "Surroundings \<Rightarrow> AttestationClaim \<Rightarrow> AttestationInputs \<Rightarrow> DecodedProvenance \<Rightarrow> bool" where
  "attested su claim inputs p \<longleftrightarrow>
     (\<exists>bundle measured result.
        readBoundedFile (su_utf8 su) (su_probe su (ai_bundlePath inputs)) (ai_bundlePath inputs) kMaximumBundleBytes = Inr bundle \<and>
        verifyDescriptor (su_provider su) (cl_bundle claim) bundle (d_mediaType (cl_bundle claim)) = Inr () \<and>
        decodeProvenanceBundle (su_iterate su) bundle = Inr p \<and>
        sha256File (su_provider su) (ai_subjectPath inputs) (su_reads su (ai_subjectPath inputs)) = Inr measured \<and>
        cl_subjectDigest claim = kDigestPrefix @ measured \<and> dp_subjectDigest p = kDigestPrefix @ measured \<and>
        cl_subjectName claim = dp_subjectName p \<and>
        dp_sourceRepository p = kTrustedSourceRepositoryUri \<and> cl_sourceRepository claim = kTrustedSourceRepositoryPath \<and>
        cl_sourceCommit claim = dp_sourceCommit p \<and>
        dp_sourceRef p = kTrustedProtectedRef \<and> cl_sourceRef claim = kTrustedProtectedRef \<and>
        dp_workflowPath p = kTrustedEntryWorkflowPath \<and> cl_workflowPath claim = kTrustedEntryWorkflowPath \<and>
        dp_workflowRef p = kTrustedProtectedRef \<and> cl_workflowRef claim = kTrustedProtectedRef \<and>
        dp_builderId p = kTrustedCertificateIdentity \<and> cl_builderId claim = kTrustedCertificateIdentity \<and>
        cl_runId claim = dp_runId p \<and> cl_runAttempt claim = dp_runAttempt p \<and>
        su_regular su (ai_cosign inputs) \<and> su_regular su (ai_trustedRoot inputs) \<and>
        su_run su (verifierRequest inputs (kDigestPrefix @ measured)) = Inr result \<and> ps_exitCode result = 0 \<and>
        contains_str (ps_standardOutput result @ ps_standardError result) ''Verified OK'')"

lemma digestSubject_iff:
  "digestSubject su path = Inr measured \<longleftrightarrow>
     (\<exists>hex. sha256File (su_provider su) path (su_reads su path) = Inr hex \<and> measured = kDigestPrefix @ hex)"
  by (auto simp: digestSubject_def split: sum.splits)

lemma verifyBundleSignature_iff:
  "verifyBundleSignature su inputs d = Inr () \<longleftrightarrow>
     su_regular su (ai_cosign inputs) \<and> su_regular su (ai_trustedRoot inputs) \<and>
     (\<exists>result. su_run su (verifierRequest inputs d) = Inr result \<and> ps_exitCode result = 0 \<and>
        contains_str (ps_standardOutput result @ ps_standardError result) ''Verified OK'')"
  by (auto simp: verifyBundleSignature_def split: sum.splits)

lemma checkSubject_iff:
  "checkSubject claim p measured = Inr () \<longleftrightarrow>
     cl_subjectDigest claim = measured \<and> dp_subjectDigest p = measured \<and> cl_subjectName claim = dp_subjectName p"
  by (auto simp: checkSubject_def)

lemma checkOrigin_iff:
  "checkOrigin claim p = Inr () \<longleftrightarrow>
     dp_sourceRepository p = kTrustedSourceRepositoryUri \<and> cl_sourceRepository claim = kTrustedSourceRepositoryPath \<and>
     cl_sourceCommit claim = dp_sourceCommit p \<and>
     dp_sourceRef p = kTrustedProtectedRef \<and> cl_sourceRef claim = kTrustedProtectedRef \<and>
     dp_workflowPath p = kTrustedEntryWorkflowPath \<and> cl_workflowPath claim = kTrustedEntryWorkflowPath \<and>
     dp_workflowRef p = kTrustedProtectedRef \<and> cl_workflowRef claim = kTrustedProtectedRef \<and>
     dp_builderId p = kTrustedCertificateIdentity \<and> cl_builderId claim = kTrustedCertificateIdentity \<and>
     cl_runId claim = dp_runId p \<and> cl_runAttempt claim = dp_runAttempt p"
  by (auto simp: checkOrigin_def)

lemma verifyAttestation_iff: "verifyAttestation su claim inputs = Inr p \<longleftrightarrow> attested su claim inputs p"
proof -
  have "verifyAttestation su claim inputs = Inr p \<longleftrightarrow> (\<exists>bundle measured.
      readBoundedFile (su_utf8 su) (su_probe su (ai_bundlePath inputs)) (ai_bundlePath inputs) kMaximumBundleBytes = Inr bundle \<and>
      verifyDescriptor (su_provider su) (cl_bundle claim) bundle (d_mediaType (cl_bundle claim)) = Inr () \<and>
      decodeProvenanceBundle (su_iterate su) bundle = Inr p \<and> digestSubject su (ai_subjectPath inputs) = Inr measured \<and>
      checkSubject claim p measured = Inr () \<and> checkOrigin claim p = Inr () \<and>
      verifyBundleSignature su inputs measured = Inr ())"
    by (auto simp: verifyAttestation_def rbind_Inr_iff split: sum.splits)
  then show ?thesis
    unfolding attested_def digestSubject_iff verifyBundleSignature_iff checkSubject_iff checkOrigin_iff by blast
qed

lemma find_present: "find P xs = Some x \<Longrightarrow> \<exists>y\<in>set xs. P y"
  by (induction xs) (auto split: if_splits)

lemma deriveTrustClass_trusted:
  "deriveTrustClass su trust inputs admitted = Inr TrustedCi \<longleftrightarrow>
     value_kind trust = KObject \<and> claimsTrust trust \<and>
     (\<exists>attestation claim p. find_member trust ''attestation'' = Some attestation \<and>
        parseAttestationClaim attestation = Inr claim \<and> attested su claim inputs p \<and>
        (\<forall>previous\<in>set admitted. \<not> replays p previous))"
  by (auto simp: deriveTrustClass_def claimsTrust_def verifyAttestation_iff [symmetric] find_None_iff
      dest: find_present split: option.splits sum.splits if_splits)

section \<open>The class a record has\<close>

lemma resolveInputs_trusted:
  assumes "claimsTrust trust" and "find_member trust ''attestation'' = Some attestation"
    and "parseAttestationClaim attestation = Inr claim"
  shows "resolveInputs trust tools store = Inr inputs \<longleftrightarrow>
    tools \<noteq> [] \<and> (\<exists>bundlePath subjectPath. pathFor store (d_digest (cl_bundle claim)) = Inr bundlePath \<and>
      pathFor store (cl_subjectDigest claim) = Inr subjectPath \<and>
      inputs = \<lparr>ai_bundlePath = bundlePath, ai_subjectPath = subjectPath,
        ai_cosign = tools @ ''/cosign/bin/cosign'', ai_trustedRoot = tools @ ''/cosign/share/trusted_root.json''\<rparr>)"
  using assms by (auto simp: resolveInputs_def storedInputs_def split: sum.splits)

lemma deriveTrustClass_untrusted:
  "deriveTrustClass su trust inputs admitted = Inr DiagnosticUntrusted \<longleftrightarrow>
     value_kind trust = KObject \<and> find_member trust ''attestation'' = None \<and>
     (\<exists>t. find_member trust ''provenance'' = Some t \<and> value_kind t = KString \<and> value_text t = ''diagnostic_untrusted'')"
  by (auto simp: deriveTrustClass_def split: option.splits sum.splits)

definition trust_paths :: "string \<Rightarrow> string \<Rightarrow> string \<Rightarrow> AttestationInputs" where
  "trust_paths tools bundlePath subjectPath = \<lparr>ai_bundlePath = bundlePath, ai_subjectPath = subjectPath,
     ai_cosign = tools @ ''/cosign/bin/cosign'', ai_trustedRoot = tools @ ''/cosign/share/trusted_root.json''\<rparr>"

text \<open>
  C8. Trust is earned and never granted.  A record derives the trusted class exactly when its trust
  block claims it, the claim parses, a tools root is named, the bundle and the subject are addressed in
  the store by the digests the claim itself names, and the attestation holds: the descriptor identifies
  the bundle, the subject hashes to what both the claim and the bundle say, the source, the workflow,
  the builder and the run are the fixed ones in claim and bundle alike, the verifier accepts the bundle
  for that digest, the fixed identity and the fixed issuer, and no admitted run with the same identity
  has another subject.  It derives the untrusted class exactly when it makes no claim, or claims just
  that and carries no attestation: a trusted claim that fails is never demoted.
\<close>

theorem trusted_class_is_earned:
  "(deriveRecordTrustClass su record tools store admitted = Inr TrustedCi \<longleftrightarrow>
     (\<exists>trust attestation claim bundlePath subjectPath p.
        find_member record ''trust'' = Some trust \<and> value_kind trust = KObject \<and> claimsTrust trust \<and>
        find_member trust ''attestation'' = Some attestation \<and> parseAttestationClaim attestation = Inr claim \<and>
        tools \<noteq> [] \<and> pathFor store (d_digest (cl_bundle claim)) = Inr bundlePath \<and>
        pathFor store (cl_subjectDigest claim) = Inr subjectPath \<and>
        attested su claim (trust_paths tools bundlePath subjectPath) p \<and>
        list_all (\<lambda>previous. \<not> replays p previous) admitted)) \<and>
   (deriveRecordTrustClass su record tools store admitted = Inr DiagnosticUntrusted \<longleftrightarrow>
     find_member record ''trust'' = None \<or>
     (\<exists>trust t. find_member record ''trust'' = Some trust \<and> value_kind trust = KObject \<and>
        find_member trust ''attestation'' = None \<and> find_member trust ''provenance'' = Some t \<and>
        value_kind t = KString \<and> value_text t = ''diagnostic_untrusted''))"
proof -
  have trusted: "(rbind (resolveInputs trust tools store) (\<lambda>inputs. deriveTrustClass su trust inputs admitted) = Inr TrustedCi) \<longleftrightarrow>
      value_kind trust = KObject \<and> claimsTrust trust \<and> (\<exists>attestation claim bundlePath subjectPath p.
        find_member trust ''attestation'' = Some attestation \<and> parseAttestationClaim attestation = Inr claim \<and>
        tools \<noteq> [] \<and> pathFor store (d_digest (cl_bundle claim)) = Inr bundlePath \<and>
        pathFor store (cl_subjectDigest claim) = Inr subjectPath \<and>
        attested su claim (trust_paths tools bundlePath subjectPath) p \<and>
        list_all (\<lambda>previous. \<not> replays p previous) admitted)" for trust
    unfolding rbind_Inr_iff deriveTrustClass_trusted trust_paths_def list_all_iff
    by (auto simp: resolveInputs_trusted) blast+
  have untrusted: "(rbind (resolveInputs trust tools store) (\<lambda>inputs. deriveTrustClass su trust inputs admitted) = Inr DiagnosticUntrusted) \<longleftrightarrow>
      value_kind trust = KObject \<and> find_member trust ''attestation'' = None \<and>
      (\<exists>t. find_member trust ''provenance'' = Some t \<and> value_kind t = KString \<and> value_text t = ''diagnostic_untrusted'')" for trust
    unfolding rbind_Inr_iff deriveTrustClass_untrusted
    by (auto simp: resolveInputs_def)
  show ?thesis
    using trusted untrusted by (auto simp: deriveRecordTrustClass_def split: option.splits)
qed

end
