(* ===== verification/Evidence_Paths.thy ===== *)
theory Evidence_Paths
  imports Simdjson_Dom Escaping Evidence_Trust
begin

text \<open>
  \<open>tools/rf_evidence/src/diagnostic.{h,cpp}\<close>, \<open>path_policy.cpp\<close>, \<open>json_policy.cpp\<close> and the rest of
  \<open>schema_oracle.cpp\<close>: the lines a command prints, the paths an argument or a manifest may name, and the
  admission of a JSON file before anything reads it.  What the file system and the child processes
  answer is one record, the site, which extends the surroundings of a verification.
\<close>

section \<open>When a guarded step succeeds\<close>

named_theorems accepts \<open>what a step that returned a value has passed\<close>

lemma accepts_case [accepts]:
  "(case r of Inl e \<Rightarrow> fail (c e) (p e) (m e) | Inr x \<Rightarrow> f x) = Inr y \<longleftrightarrow> (\<exists>x. r = Inr x \<and> f x = Inr y)"
  "(case r' of None \<Rightarrow> fail code path message | Some x \<Rightarrow> g x) = Inr y \<longleftrightarrow> (\<exists>x. r' = Some x \<and> g x = Inr y)"
  by (auto split: sum.split option.split)

lemma accepts_if [accepts]:
  "(if b then fail code path message else r) = Inr y \<longleftrightarrow> \<not> b \<and> r = Inr y"
  "(if b then r else fail code path message) = Inr y \<longleftrightarrow> b \<and> r = Inr y"
  by simp_all

declare rbind_Inr_iff [accepts]

section \<open>Diagnostics\<close>

datatype OutputFormat = Human | Json

definition writeJsonString :: "string \<Rightarrow> string" where
  "writeJsonString s = CHR 0x22 # concat (map json_escape s) @ [CHR 0x22]"

definition renderFailure :: "Failure \<Rightarrow> OutputFormat \<Rightarrow> string" where
  "renderFailure failure format =
     (if format = Human
      then failureCodeName (f_code failure) @ '': '' @ f_path failure @ '': '' @ f_message failure @ [CHR 0x0A]
      else ''{'' @ writeJsonString ''ok'' @ '':false,'' @ writeJsonString ''code'' @ '':'' @
        writeJsonString (failureCodeName (f_code failure)) @ '','' @ writeJsonString ''path'' @ '':'' @
        writeJsonString (f_path failure) @ '','' @ writeJsonString ''message'' @ '':'' @
        writeJsonString (f_message failure) @ ''}'' @ [CHR 0x0A])"

definition renderSuccess :: "string \<Rightarrow> string \<Rightarrow> OutputFormat \<Rightarrow> string" where
  "renderSuccess operation details format =
     (if format = Human then operation @ '': '' @ details @ [CHR 0x0A]
      else ''{'' @ writeJsonString ''ok'' @ '':true,'' @ writeJsonString ''operation'' @ '':'' @
        writeJsonString operation @ '','' @ writeJsonString ''details'' @ '':'' @ writeJsonString details @
        ''}'' @ [CHR 0x0A])"

section \<open>The site\<close>

text \<open>
  What surrounds a command: the canonical form of a path (\<open>None\<close>: it cannot be resolved), what a path
  names when links are not followed, whether something is there (\<open>None\<close>: it cannot be told), the entries a recursive iteration
  visits, and the two JSON parsers.  An iteration that fails visits the entries before the failure:
  the iterator becomes the end iterator, which is what the loops of the code compare with.
\<close>

record WalkEntry =
  we_path :: string
  we_depth :: nat
  we_symlink :: bool
  we_regular :: bool
  we_directory :: bool
  we_relative :: "string option"   \<comment> \<open>\<open>std::filesystem::relative\<close> to the root; \<open>None\<close>: it fails\<close>

record Site = Surroundings +
  si_canonical :: "string \<Rightarrow> string option"
  si_node :: "string \<Rightarrow> string + DiskNode option"
  si_status :: "string \<Rightarrow> bool option"
  si_walk :: "string \<Rightarrow> WalkEntry list"
  si_parse :: "bytes \<Rightarrow> dom_value dom_result"
  si_errorText :: "dom_error \<Rightarrow> string"

text \<open>\<open>std::filesystem::exists\<close>: nothing is there when it cannot be told.\<close>

definition si_exists :: "Site \<Rightarrow> string \<Rightarrow> bool" where "si_exists site path \<longleftrightarrow> si_status site path = Some True"

definition surroundings :: "Site \<Rightarrow> Surroundings" where
  "surroundings site = Surroundings.truncate site"

definition readSiteFile :: "Site \<Rightarrow> string \<Rightarrow> nat \<Rightarrow> bytes Result" where
  "readSiteFile site path maximumBytes = readBoundedFile (su_utf8 site) (su_probe site path) path maximumBytes"

definition classifySite :: "Site \<Rightarrow> string \<Rightarrow> FileKind Result" where
  "classifySite site path =
     (case si_node site path of Inl message \<Rightarrow> fail IoFailure path message | Inr node \<Rightarrow> Inr (kind_of_node node))"

section \<open>Paths\<close>

text \<open>\<open>operator/\<close> of a path: an absolute right side replaces the left one.\<close>

definition path_append :: "string \<Rightarrow> string \<Rightarrow> string" where
  "path_append root relative =
     (if starts_with relative ''/'' \<or> root = [] then relative
      else if ends_with root ''/'' then root @ relative else root @ ''/'' @ relative)"

text \<open>
  \<open>lexically_normal\<close>: empty components and dots are dropped, a component is taken back by the two dots
  that follow it, and none is left below the root directory.
\<close>

fun normal_step :: "bool \<Rightarrow> string list \<Rightarrow> string \<Rightarrow> string list" where
  "normal_step absolute kept component =
     (if component = [] \<or> component = ''.'' then kept
      else if component = ''..''
      then (if kept \<noteq> [] \<and> last kept \<noteq> ''..'' then butlast kept else if absolute then kept else kept @ [component])
      else kept @ [component])"

fun join_path :: "string list \<Rightarrow> string" where
  "join_path [] = []"
| "join_path [c] = c"
| "join_path (c # d # cs) = c @ ''/'' @ join_path (d # cs)"

definition lexically_normal :: "string \<Rightarrow> string" where
  "lexically_normal path =
     (if path = [] then []
      else let absolute = starts_with path ''/''; components = split_at_char CHR ''/'' path;
               kept = foldl (normal_step absolute) [] components;
               slash = (last components = [] \<or> last components = ''.'' \<or> last components = ''..'') \<and>
                 kept \<noteq> [] \<and> last kept \<noteq> ''..'';
               result = (if absolute then ''/'' else []) @ join_path kept @ (if slash then ''/'' else [])
           in if result = [] then ''.'' else result)"

text \<open>\<open>std::tolower\<close> in the C locale.\<close>

definition tolower :: "char \<Rightarrow> char" where
  "tolower c = (if CHR ''A'' \<le> c \<and> c \<le> CHR ''Z'' then char_of ((of_char c :: nat) + 32) else c)"

definition portableLowercasePath :: "string \<Rightarrow> string" where
  "portableLowercasePath path = map tolower (lexically_normal path)"

fun componentLoop :: "nat \<Rightarrow> string list \<Rightarrow> nat option" where
  "componentLoop components [] = Some components"
| "componentLoop components (kComponent # rest) =
     (if kComponent = [] \<or> kComponent = ''.'' \<or> kComponent = ''..'' \<or> 128 < length kComponent then None
      else componentLoop (components + 1) rest)"

definition containsForbiddenComponent :: "string \<Rightarrow> bool" where
  "containsForbiddenComponent path =
     (if path = [] \<or> 1024 < length path \<or> hd path = CHR ''/'' \<or> contains_char path (CHR 0x5C) then True
      else case componentLoop 0 (pieces_from CHR ''/'' path 0) of None \<Rightarrow> True | Some components \<Rightarrow> 128 < components)"

definition resolveRepositoryPath :: "Site \<Rightarrow> string \<Rightarrow> string \<Rightarrow> string Result" where
  "resolveRepositoryPath site repositoryRoot relativePath =
     (if containsForbiddenComponent relativePath
      then fail InvalidPath relativePath ''path is not a safe repository-relative path''
      else let kCandidate = path_append repositoryRoot relativePath
      in case si_canonical site repositoryRoot of
           None \<Rightarrow> fail IoFailure repositoryRoot ''failed to resolve repository root''
         | Some kCanonicalRoot \<Rightarrow>
             (case si_canonical site kCandidate of
                None \<Rightarrow> fail InvalidPath relativePath ''failed to resolve repository path''
              | Some canonicalCandidate \<Rightarrow>
                  let kRootText = portableLowercasePath kCanonicalRoot;
                      kCandidateText = portableLowercasePath canonicalCandidate;
                      kRootPrefix = (if ends_with kRootText ''/'' then kRootText else kRootText @ ''/'')
                  in if kCandidateText \<noteq> kRootText \<and> \<not> starts_with kCandidateText kRootPrefix
                     then fail InvalidPath relativePath ''resolved path escapes the repository''
                     else Inr canonicalCandidate))"

section \<open>The admission of a JSON file\<close>

fun validateElement :: "string \<Rightarrow> nat \<Rightarrow> nat \<Rightarrow> dom_value \<Rightarrow> nat Result"
  and validateMembers :: "string \<Rightarrow> nat \<Rightarrow> nat \<Rightarrow> string list \<Rightarrow> (string \<times> dom_value) list \<Rightarrow> nat Result"
  and validateChildren :: "string \<Rightarrow> nat \<Rightarrow> nat \<Rightarrow> dom_value list \<Rightarrow> nat Result" where
  "validateElement path depth nodes element =
     (if 64 < depth then fail LimitExceeded path ''JSON nesting depth exceeds 64''
      else if 1000000 < nodes + 1 then fail LimitExceeded path ''JSON node count exceeds 1000000''
      else case element of
        DObject members \<Rightarrow> validateMembers path depth (nodes + 1) [] members
      | DArray elements \<Rightarrow> validateChildren path depth (nodes + 1) elements
      | _ \<Rightarrow> Inr (nodes + 1))"
| "validateMembers path depth nodes members [] = Inr nodes"
| "validateMembers path depth nodes members ((kName, v) # rest) =
     (if kName \<in> set members
      then fail InvalidJson path (''JSON object contains duplicate decoded member: '' @ kName)
      else rbind (validateElement path (depth + 1) nodes v) (\<lambda>n.
        validateMembers path depth n (kName # members) rest))"
| "validateChildren path depth nodes [] = Inr nodes"
| "validateChildren path depth nodes (kChild # rest) =
     rbind (validateElement path (depth + 1) nodes kChild) (\<lambda>n. validateChildren path depth n rest)"

declare validateElement.simps [simp del]

definition validateJsonAdmission :: "Site \<Rightarrow> string \<Rightarrow> Status" where
  "validateJsonAdmission site path =
     rbind (readSiteFile site path kMaximumMaintainedJsonBytes) (\<lambda>input.
     case si_parse site input of
       Inl kError \<Rightarrow> fail InvalidJson path (si_errorText site kError)
     | Inr root \<Rightarrow> rbind (validateElement path 1 0 root) (\<lambda>nodes. Inr ()))"

section \<open>The schema oracle\<close>

definition isspace :: "char \<Rightarrow> bool" where
  "isspace c \<longleftrightarrow> c \<in> {CHR '' '', CHR 0x09, CHR 0x0A, CHR 0x0B, CHR 0x0C, CHR 0x0D}"

definition trimAsciiWhitespace :: "string \<Rightarrow> string" where
  "trimAsciiWhitespace s = rev (dropWhile isspace (rev (dropWhile isspace s)))"

definition requestFor :: "string \<Rightarrow> string list \<Rightarrow> ProcessRequest" where
  "requestFor repositoryRoot arguments = processRequest
     \<lparr>pr_executable := oraclePath repositoryRoot, pr_arguments := arguments, pr_workingDirectory := repositoryRoot,
      pr_captureDirectory := repositoryRoot @ ''/out/reports/task-0001/oracle_capture''\<rparr>"

definition verifySchemaOracleVersion :: "Site \<Rightarrow> string \<Rightarrow> Status" where
  "verifySchemaOracleVersion site repositoryRoot =
     rbind (su_run site (requestFor repositoryRoot [''version''])) (\<lambda>result.
       if ps_exitCode result \<noteq> 0 \<or> trimAsciiWhitespace (ps_standardOutput result) \<noteq> ''16.1.0'' \<or>
          trimAsciiWhitespace (ps_standardError result) \<noteq> []
       then fail VerificationFailed (oraclePath repositoryRoot) ''schema oracle identity is not exactly 16.1.0''
       else Inr ())"

text \<open>The oracle the record gates ask: the admission of this section and a bounded run.\<close>

definition siteOracle :: "Site \<Rightarrow> string \<Rightarrow> Oracle" where
  "siteOracle site repositoryRoot =
     \<lparr>or_admission = validateJsonAdmission site,
      or_run = (\<lambda>arguments. rbind (su_run site (requestFor repositoryRoot arguments)) (\<lambda>result.
        Inr (ps_exitCode result)))\<rparr>"

section \<open>What a diagnostic says\<close>

lemma failureCodeName_inject [simp]: "failureCodeName a = failureCodeName b \<longleftrightarrow> a = b"
  by (cases a; cases b) simp_all

lemma writeJsonString_prefix: "writeJsonString s @ r = writeJsonString t @ r' \<longleftrightarrow> s = t \<and> r = r'"
  using json_text.quoted_prefix [of s r t r'] by (auto simp: json_text.quoted_def writeJsonString_def)

lemma writeJsonString_inject: "writeJsonString s = writeJsonString t \<longleftrightarrow> s = t"
  using writeJsonString_prefix [of s "[]" t "[]"] by simp

text \<open>
  A failure printed in the machine-readable form can be read back: two failures print the same line
  exactly when their codes, their paths and their messages are the same, whatever bytes those hold.
\<close>

theorem printed_failure_identifies_failure:
  "renderFailure failure Json = renderFailure other Json \<longleftrightarrow> failure = other"
proof
  assume "renderFailure failure Json = renderFailure other Json"
  then have "f_code failure = f_code other \<and> f_path failure = f_path other \<and> f_message failure = f_message other"
    by (simp add: renderFailure_def writeJsonString_prefix writeJsonString_inject)
  then show "failure = other" by simp
qed simp

section \<open>What a resolved path is\<close>

definition safe_component :: "string \<Rightarrow> bool" where
  "safe_component c \<longleftrightarrow> c \<noteq> [] \<and> c \<noteq> ''.'' \<and> c \<noteq> ''..'' \<and> length c \<le> 128"

definition safe_relative :: "string \<Rightarrow> bool" where
  "safe_relative path \<longleftrightarrow> path \<noteq> [] \<and> length path \<le> 1024 \<and> CHR 0x5C \<notin> set path \<and>
     list_all safe_component (split_at_char CHR ''/'' path) \<and> length (split_at_char CHR ''/'' path) \<le> 128"

lemma componentLoop_iff: "componentLoop n cs = Some m \<longleftrightarrow> list_all safe_component cs \<and> m = n + length cs"
  by (induction cs arbitrary: n) (auto simp: safe_component_def)

lemma componentLoop_None: "componentLoop n cs = None \<longleftrightarrow> \<not> list_all safe_component cs"
  using componentLoop_iff [of n cs "n + length cs"] componentLoop_iff [of n cs] by (metis not_None_eq)

lemma containsForbiddenComponent_iff: "containsForbiddenComponent path \<longleftrightarrow> \<not> safe_relative path"
proof (cases path)
  case Nil
  then show ?thesis by (simp add: containsForbiddenComponent_def safe_relative_def)
next
  case (Cons c cs)
  have "\<not> list_all safe_component (split_at_char CHR ''/'' path)" if "c = CHR ''/''"
    using that Cons by (simp add: safe_component_def)
  then show ?thesis
    using Cons unfolding containsForbiddenComponent_def pieces_from_start
    by (auto simp: safe_relative_def contains_char_def componentLoop_None componentLoop_iff split: option.splits)
qed

lemma normal_safe: "list_all safe_component cs \<Longrightarrow> foldl (normal_step absolute) kept cs = kept @ cs"
  by (induction cs arbitrary: kept) (simp_all add: safe_component_def)

lemma join_split: "join_path (split_at_char CHR ''/'' s) = s"
proof (induction s)
  case (Cons x xs)
  obtain p ps where split: "split_at_char CHR ''/'' xs = p # ps"
    using split_at_char_nonempty [of "CHR ''/''" xs] by (cases "split_at_char CHR ''/'' xs") auto
  show ?case using Cons split by (cases ps) auto
qed simp

text \<open>A safe path is its own normal form, so it stays below whatever it is appended to.\<close>

lemma safe_is_normal:
  assumes "safe_relative path"
  shows "lexically_normal path = path"
proof -
  have safe: "list_all safe_component (split_at_char CHR ''/'' path)" and "path \<noteq> []"
    using assms by (simp_all add: safe_relative_def)
  obtain c cs where path: "path = c # cs" using \<open>path \<noteq> []\<close> by (cases path) auto
  have "c \<noteq> CHR ''/''" using safe path by (auto simp: safe_component_def)
  then have "\<not> starts_with path ''/''" using path by simp
  moreover have "safe_component (last (split_at_char CHR ''/'' path))"
    using safe by (simp add: list_all_iff)
  ultimately show ?thesis
    using \<open>path \<noteq> []\<close> by (simp add: lexically_normal_def normal_safe [OF safe] join_split Let_def safe_component_def)
qed

definition below :: "string \<Rightarrow> string \<Rightarrow> bool" where
  "below root path \<longleftrightarrow> path = root \<or> (\<exists>rest. path = (if ends_with root ''/'' then root else root @ ''/'') @ rest)"

text \<open>
  C32. What a path argument can reach.  A repository path is resolved exactly when it is safe (not
  empty, at most 1024 bytes, no backslash, at most 128 components of at most 128 bytes, none of them
  empty or made of dots), when the repository and the path below it have canonical forms, and when
  the canonical form of the path is the canonical repository or below it, component by component and
  without regard to case; the answer is then that canonical form.
\<close>

theorem resolved_path_is_below_the_repository:
  "resolveRepositoryPath site repositoryRoot relative = Inr path \<longleftrightarrow>
     safe_relative relative \<and>
     (\<exists>root. si_canonical site repositoryRoot = Some root \<and>
        si_canonical site (path_append repositoryRoot relative) = Some path \<and>
        below (portableLowercasePath root) (portableLowercasePath path))"
  unfolding resolveRepositoryPath_def containsForbiddenComponent_iff below_def
  by (auto simp: Let_def starts_with_iff split: option.splits if_splits)

section \<open>What an admitted file holds\<close>

fun dom_nodes :: "dom_value \<Rightarrow> nat" where
  "dom_nodes (DObject members) = Suc (sum_list (map (\<lambda>(k, v). dom_nodes v) members))"
| "dom_nodes (DArray elements) = Suc (sum_list (map dom_nodes elements))"
| "dom_nodes v = 1"

fun dom_depth :: "dom_value \<Rightarrow> nat" where
  "dom_depth (DObject members) = Suc (fold (\<lambda>(k, v) d. max d (dom_depth v)) members 0)"
| "dom_depth (DArray elements) = Suc (fold (\<lambda>v d. max d (dom_depth v)) elements 0)"
| "dom_depth v = 1"

fun dom_unique :: "dom_value \<Rightarrow> bool" where
  "dom_unique (DObject members) = (distinct (map fst members) \<and> list_all (\<lambda>(k, v). dom_unique v) members)"
| "dom_unique (DArray elements) = list_all dom_unique elements"
| "dom_unique v = True"

lemma fold_max_key_bound:
  "fold (\<lambda>x d. max d (f x)) xs a \<le> (b::nat) \<longleftrightarrow> a \<le> b \<and> (\<forall>x\<in>set xs. f x \<le> b)"
  by (induction xs arbitrary: a) auto

lemma dom_depth_bound:
  "dom_depth (DObject members) \<le> Suc b \<longleftrightarrow> (\<forall>(k, v)\<in>set members. dom_depth v \<le> b)"
  "dom_depth (DArray elements) \<le> Suc b \<longleftrightarrow> (\<forall>v\<in>set elements. dom_depth v \<le> b)"
  using fold_max_key_bound [of "\<lambda>(k, v). dom_depth v" members 0 b] fold_max_key_bound [of dom_depth elements 0 b]
  by (simp_all add: case_prod_beta' split_beta)

lemma dom_depth_pos [simp]: "0 < dom_depth v" "dom_depth v \<noteq> 0"
  by (cases v; simp)+

lemma dom_nodes_pos [simp]: "0 < dom_nodes v"
  by (cases v) simp_all

lemma validateElement_iff:
  "validateElement path depth nodes v = Inr m \<longleftrightarrow>
     m = nodes + dom_nodes v \<and> depth + dom_depth v \<le> 65 \<and> m \<le> 1000000 \<and> dom_unique v"
  "validateMembers path depth nodes seen ms = Inr m \<longleftrightarrow>
     m = nodes + sum_list (map (\<lambda>(k, v). dom_nodes v) ms) \<and> (\<forall>(k, v)\<in>set ms. depth + 1 + dom_depth v \<le> 65) \<and>
     (ms = [] \<or> m \<le> 1000000) \<and> distinct (map fst ms) \<and> set seen \<inter> fst ` set ms = {} \<and>
     list_all (\<lambda>(k, v). dom_unique v) ms"
  "validateChildren path depth nodes es = Inr m \<longleftrightarrow>
     m = nodes + sum_list (map dom_nodes es) \<and> (\<forall>v\<in>set es. depth + 1 + dom_depth v \<le> 65) \<and>
     (es = [] \<or> m \<le> 1000000) \<and> list_all dom_unique es"
proof (induction path depth nodes v and path depth nodes seen ms and path depth nodes es
    arbitrary: m and m and m rule: validateElement_validateMembers_validateChildren.induct)
  case (1 path depth nodes element)
  show ?case
  proof (cases "64 < depth \<or> 1000000 < nodes + 1")
    case True
    then show ?thesis
      using dom_depth_pos(1) [of element] dom_nodes_pos [of element]
      by (auto simp: validateElement.simps simp del: dom_depth_pos dom_nodes_pos)
  next
    case False
    then have low: "\<not> 64 < depth" "\<not> 1000000 < nodes + 1" by auto
    have deep: "depth + dom_depth v \<le> 65 \<longleftrightarrow> dom_depth v \<le> Suc (64 - depth)" for v
      using low by linarith
    have inner: "depth + 1 + dom_depth v \<le> 65 \<longleftrightarrow> dom_depth v \<le> 64 - depth" for v
      using low by linarith
    show ?thesis
    proof (cases element)
      case (DObject members)
      show ?thesis
        using low unfolding DObject validateElement.simps deep dom_depth_bound
        by (auto simp: "1.IH"(1) [OF low DObject, simplified] inner)
    next
      case (DArray elements)
      show ?thesis
        using low unfolding DArray validateElement.simps deep dom_depth_bound
        by (auto simp: "1.IH"(2) [OF low DArray, simplified] inner)
    qed (use low in \<open>auto simp: validateElement.simps\<close>)
  qed
next
  case (3 path depth nodes members kName v rest)
  show ?case
  proof (cases "kName \<in> set members")
    case False
    have "validateMembers path depth nodes members ((kName, v) # rest) = Inr m \<longleftrightarrow>
        (\<exists>n. validateElement path (depth + 1) nodes v = Inr n \<and>
             validateMembers path depth n (kName # members) rest = Inr m)"
      using False by (simp add: rbind_Inr_iff)
    also have "\<dots> \<longleftrightarrow> (\<exists>n. validateElement path (depth + 1) nodes v = Inr n \<and>
        m = n + sum_list (map (\<lambda>(k, v). dom_nodes v) rest) \<and> (\<forall>(k, v)\<in>set rest. depth + 1 + dom_depth v \<le> 65) \<and>
        (rest = [] \<or> m \<le> 1000000) \<and> distinct (map fst rest) \<and> set (kName # members) \<inter> fst ` set rest = {} \<and>
        list_all (\<lambda>(k, v). dom_unique v) rest)"
      by (intro ex_cong1 conj_cong refl "3.IH"(2) [OF False])
    finally show ?thesis
      unfolding "3.IH"(1) [OF False] using False by auto
  qed auto
next
  case (5 path depth nodes kChild rest)
  have "validateChildren path depth nodes (kChild # rest) = Inr m \<longleftrightarrow>
      (\<exists>n. validateElement path (depth + 1) nodes kChild = Inr n \<and> validateChildren path depth n rest = Inr m)"
    by (simp add: rbind_Inr_iff)
  also have "\<dots> \<longleftrightarrow> (\<exists>n. validateElement path (depth + 1) nodes kChild = Inr n \<and>
      m = n + sum_list (map dom_nodes rest) \<and> (\<forall>v\<in>set rest. depth + 1 + dom_depth v \<le> 65) \<and>
      (rest = [] \<or> m \<le> 1000000) \<and> list_all dom_unique rest)"
    by (intro ex_cong1 conj_cong refl "5.IH"(2))
  finally show ?case
    unfolding "5.IH"(1) by auto
qed auto

text \<open>
  The admission of a JSON file is exact: a file is admitted exactly when it can be read within one
  megabyte as UTF-8 without a mark, parses, nests at most 64 values, holds at most a million, and no
  object in it, at any depth, names a member twice.
\<close>

theorem admission_exact:
  "validateJsonAdmission site path = Inr () \<longleftrightarrow>
     (\<exists>input root. readSiteFile site path kMaximumMaintainedJsonBytes = Inr input \<and> si_parse site input = Inr root \<and>
        dom_depth root \<le> 64 \<and> dom_nodes root \<le> 1000000 \<and> dom_unique root)"
proof (cases "readSiteFile site path kMaximumMaintainedJsonBytes")
  case (Inr input)
  show ?thesis
    by (cases "si_parse site input") (auto simp: Inr validateJsonAdmission_def rbind_Inr_iff validateElement_iff)
qed (simp add: validateJsonAdmission_def)

end
