(* ===== verification/Evidence_Process.thy ===== *)
theory Evidence_Process
  imports Evidence_Paths
begin

text \<open>
  \<open>tools/rf_evidence/src/process_runner.cpp\<close>: the run of a child process under limits (the POSIX branch), and
  the quoting of a command line (the Windows branch).  The child is what the loop sees of it: whether the
  capture files and the process could be made, what each poll answers, and the captures at the end.
\<close>

section \<open>The child\<close>

datatype ChildStatus = Exited nat | Terminated   \<comment> \<open>\<open>WIFEXITED\<close>, or a signal\<close>

text \<open>One turn of the loop: the answer of \<open>waitpid\<close>, the deadline, and the two sizes (\<open>None\<close>: no answer).\<close>

datatype WaitPoll = PollRunning bool "nat option" "nat option" | PollEnded ChildStatus | PollError

text \<open>A capture at the end: its size and its content (\<open>None\<close>: the size cannot be had, the file not be opened).\<close>

record Capture =
  ca_size :: "nat option"
  ca_content :: "bytes option"

record Child =
  ch_process :: nat
  ch_ordinal :: nat
  ch_opensOutput :: bool
  ch_opensError :: bool
  ch_forks :: bool
  ch_polls :: "WaitPoll list"
  ch_output :: Capture
  ch_error :: Capture

section \<open>Captures\<close>

definition exclusiveCaptureDirectory :: "Child \<Rightarrow> string \<Rightarrow> string" where
  "exclusiveCaptureDirectory child root =
     path_append root (nat_to_string (ch_process child) @ ''-'' @ nat_to_string (ch_ordinal child))"

definition readCapture :: "string \<Rightarrow> nat \<Rightarrow> Capture \<Rightarrow> bytes Result" where
  "readCapture path maximumBytes capture =
     (case ca_size capture of
        None \<Rightarrow> fail LimitExceeded path ''captured process output exceeds its limit''
      | Some kBytes \<Rightarrow>
          if maximumBytes < kBytes then fail LimitExceeded path ''captured process output exceeds its limit''
          else (case ca_content capture of
              None \<Rightarrow> fail IoFailure path ''failed to read captured process output''
            | Some content \<Rightarrow>
                if length content < kBytes then fail IoFailure path ''failed to read captured process output''
                else Inr (take kBytes content)))"

section \<open>The run\<close>

text \<open>\<open>file_size\<close> without an answer is the largest value of its type.\<close>

definition capturedBytes :: "nat option \<Rightarrow> nat" where
  "capturedBytes measured = (case measured of None \<Rightarrow> 2 ^ 64 - 1 | Some n \<Rightarrow> n)"

text \<open>The loop; \<open>None\<close> is a loop that goes on after the polls given.  The status is 0 until a wait fills it.\<close>

fun waitLoop :: "ProcessRequest \<Rightarrow> WaitPoll list \<Rightarrow> ChildStatus Result option" where
  "waitLoop request [] = None"
| "waitLoop request (PollRunning late out err # polls) =
     (if late then Some (fail VerificationFailed (pr_executable request) ''child kProcess timed out'')
      else if pr_maximumStandardOutputBytes request < capturedBytes out \<or>
        pr_maximumStandardErrorBytes request < capturedBytes err
      then Some (fail LimitExceeded (pr_executable request) ''child kProcess output exceeded its limit'')
      else waitLoop request polls)"
| "waitLoop request (PollEnded status # polls) = Some (Inr status)"
| "waitLoop request (PollError # polls) = Some (Inr (Exited 0))"

definition collectResult :: "ProcessRequest \<Rightarrow> Child \<Rightarrow> ChildStatus \<Rightarrow> ProcessResult Result" where
  "collectResult request child status =
     (case status of
        Terminated \<Rightarrow> fail VerificationFailed (pr_executable request) ''child kProcess terminated abnormally''
      | Exited code \<Rightarrow>
          rbind (readCapture (path_append (pr_captureDirectory request) ''stdout.tmp'')
              (pr_maximumStandardOutputBytes request) (ch_output child)) (\<lambda>standardOutput.
          rbind (readCapture (path_append (pr_captureDirectory request) ''stderr.tmp'')
              (pr_maximumStandardErrorBytes request) (ch_error child)) (\<lambda>standardError.
            Inr \<lparr>ps_exitCode = int code, ps_standardOutput = standardOutput, ps_standardError = standardError\<rparr>)))"

definition runPosixProcess :: "Child \<Rightarrow> ProcessRequest \<Rightarrow> ProcessResult Result option" where
  "runPosixProcess child request =
     (if \<not> ch_opensOutput child \<or> \<not> ch_opensError child
      then Some (fail IoFailure (pr_captureDirectory request) ''failed to create capture files'')
      else if \<not> ch_forks child
      then Some (fail VerificationFailed (pr_executable request) ''failed to fork child kProcess'')
      else map_option (\<lambda>status. rbind status (collectResult request child)) (waitLoop request (ch_polls child)))"

definition runBoundedProcess :: "(string \<Rightarrow> bool) \<Rightarrow> Child \<Rightarrow> ProcessRequest \<Rightarrow> ProcessResult Result option" where
  "runBoundedProcess isRegular child request =
     (if \<not> starts_with (pr_executable request) ''/'' \<or> \<not> isRegular (pr_executable request)
      then Some (fail MissingInput (pr_executable request) ''child executable must be an existing absolute path'')
      else runPosixProcess child
        (request\<lparr>pr_captureDirectory := exclusiveCaptureDirectory child (pr_captureDirectory request)\<rparr>))"

section \<open>Quoting a command line\<close>

definition needsQuotes :: "string \<Rightarrow> bool" where
  "needsQuotes argument \<longleftrightarrow> list_ex (\<lambda>c. c \<in> {CHR '' '', CHR 0x09, CHR 0x0A, CHR 0x0B, CHR 0x22}) argument"

fun quoteLoop :: "nat \<Rightarrow> string \<Rightarrow> string" where
  "quoteLoop backslashes [] = replicate (backslashes * 2) (CHR 0x5C) @ [CHR 0x22]"
| "quoteLoop backslashes (kCharacter # rest) =
     (if kCharacter = CHR 0x5C then quoteLoop (backslashes + 1) rest
      else if kCharacter = CHR 0x22
      then replicate (backslashes * 2 + 1) (CHR 0x5C) @ CHR 0x22 # quoteLoop 0 rest
      else replicate backslashes (CHR 0x5C) @ kCharacter # quoteLoop 0 rest)"

definition quoteWindowsArgument :: "string \<Rightarrow> string" where
  "quoteWindowsArgument argument =
     (if \<not> needsQuotes argument then argument else CHR 0x22 # quoteLoop 0 argument)"

definition windowsCommandLine :: "ProcessRequest \<Rightarrow> string" where
  "windowsCommandLine request =
     quoteWindowsArgument (pr_executable request) @
     concat (map (\<lambda>argument. CHR '' '' # quoteWindowsArgument argument) (pr_arguments request))"

section \<open>A run ends and is bounded\<close>

text \<open>A poll after which the loop does not go on.\<close>

definition decisive :: "ProcessRequest \<Rightarrow> WaitPoll \<Rightarrow> bool" where
  "decisive request poll \<longleftrightarrow>
     (case poll of
        PollRunning late out err \<Rightarrow> late \<or> pr_maximumStandardOutputBytes request < capturedBytes out \<or>
          pr_maximumStandardErrorBytes request < capturedBytes err
      | _ \<Rightarrow> True)"

lemma waitLoop_None: "waitLoop request polls = None \<longleftrightarrow> \<not> list_ex (decisive request) polls"
  by (induction request polls rule: waitLoop.induct) (auto simp: decisive_def)

lemma waitLoop_ended:
  "waitLoop request polls = Some (Inr status) \<Longrightarrow>
     (case List.find (decisive request) polls of
        Some (PollEnded ended) \<Rightarrow> status = ended | Some PollError \<Rightarrow> status = Exited 0 | _ \<Rightarrow> False)"
  by (induction request polls rule: waitLoop.induct) (auto simp: decisive_def split: if_split_asm)

lemma readCapture_bounded: "readCapture path n c = Inr output \<Longrightarrow> length output \<le> n"
  by (auto simp: readCapture_def accepts split: option.split_asm if_split_asm)

lemma decisive_capture [simp]: "decisive (request\<lparr>pr_captureDirectory := d\<rparr>) = decisive request"
  by (auto simp: decisive_def fun_eq_iff split: WaitPoll.split)


section \<open>Quoting can be taken back\<close>

text \<open>
  How a program started on Windows splits its command line, as the C runtime documents it: blanks separate
  outside quotation marks, backslashes are literal unless a quotation mark follows, and then every pair is one
  backslash and an odd one makes the mark literal.
\<close>

fun splitCommandLine :: "string \<Rightarrow> nat \<Rightarrow> bool \<Rightarrow> string \<Rightarrow> bool \<Rightarrow> string list" where
  "splitCommandLine [] slashes quoted current started =
     (if started then [current @ replicate slashes (CHR 0x5C)] else [])"
| "splitCommandLine (c # cs) slashes quoted current started =
     (if c = CHR 0x5C then splitCommandLine cs (slashes + 1) quoted current True
      else if c = CHR 0x22
      then (if even slashes
            then splitCommandLine cs 0 (\<not> quoted) (current @ replicate (slashes div 2) (CHR 0x5C)) True
            else splitCommandLine cs 0 quoted (current @ replicate (slashes div 2) (CHR 0x5C) @ [CHR 0x22]) True)
      else if \<not> quoted \<and> (c = CHR '' '' \<or> c = CHR 0x09)
      then (if started then [current @ replicate slashes (CHR 0x5C)] else []) @ splitCommandLine cs 0 False [] False
      else splitCommandLine cs 0 quoted (current @ replicate slashes (CHR 0x5C) @ [c]) True)"

definition argumentsOf :: "string \<Rightarrow> string list" where
  "argumentsOf line = splitCommandLine line 0 False [] False"

lemma split_slashes:
  "splitCommandLine (replicate n (CHR 0x5C) @ rest) k q current True = splitCommandLine rest (n + k) q current True"
  by (induction n arbitrary: k) simp_all

lemma split_quoted:
  "splitCommandLine (quoteLoop k argument @ rest) 0 True current True =
     splitCommandLine rest 0 False (current @ replicate k (CHR 0x5C) @ argument) True"
  by (induction k argument arbitrary: current rule: quoteLoop.induct)
    (simp_all add: split_slashes replicate_app_Cons_same)

lemma split_plain:
  "\<not> needsQuotes argument \<Longrightarrow> started \<or> argument \<noteq> [] \<Longrightarrow>
     splitCommandLine argument k False current started = [current @ replicate k (CHR 0x5C) @ argument] \<and>
     splitCommandLine (argument @ CHR '' '' # rest) k False current started =
       (current @ replicate k (CHR 0x5C) @ argument) # splitCommandLine rest 0 False [] False"
  by (induction argument arbitrary: k current started)
    (auto simp: needsQuotes_def replicate_app_Cons_same)

text \<open>One quoted argument, at the end of the line and before a blank.\<close>

lemma split_argument:
  assumes "argument \<noteq> []"
  shows "argumentsOf (quoteWindowsArgument argument) = [argument]"
    and "argumentsOf (quoteWindowsArgument argument @ CHR '' '' # rest) = argument # argumentsOf rest"
proof -
  have "argumentsOf (quoteWindowsArgument argument) = [argument] \<and>
      argumentsOf (quoteWindowsArgument argument @ CHR '' '' # rest) = argument # argumentsOf rest"
  proof (cases "needsQuotes argument")
    case True
    then show ?thesis
      using split_quoted [of 0 argument "[]" "[]"] split_quoted [of 0 argument "CHR '' '' # rest" "[]"]
      by (simp add: argumentsOf_def quoteWindowsArgument_def)
  next
    case False
    then show ?thesis
      using split_plain [of argument False 0 "[]" rest] assms by (simp add: argumentsOf_def quoteWindowsArgument_def)
  qed
  then show "argumentsOf (quoteWindowsArgument argument) = [argument]"
    "argumentsOf (quoteWindowsArgument argument @ CHR '' '' # rest) = argument # argumentsOf rest" by blast+
qed

lemma split_arguments:
  "argument \<noteq> [] \<Longrightarrow> [] \<notin> set arguments \<Longrightarrow>
     argumentsOf (quoteWindowsArgument argument @ concat (map (\<lambda>a. CHR '' '' # quoteWindowsArgument a) arguments)) =
       argument # arguments"
proof (induction arguments arbitrary: argument)
  case (Cons next_one arguments)
  then show ?case using split_argument(2) [of argument] by auto
qed (simp add: split_argument)

text \<open>
  C28. A command line built from an executable and arguments that are not empty is split by the started program
  into exactly that executable and those arguments, whatever quotation marks, backslashes and blanks they hold.
\<close>

theorem quoted_command_line_round_trips:
  assumes "pr_executable request \<noteq> []" and "[] \<notin> set (pr_arguments request)"
  shows "argumentsOf (windowsCommandLine request) = pr_executable request # pr_arguments request"
  using split_arguments [OF assms] by (simp add: windowsCommandLine_def)

theorem quoted_command_line_round_trips_witness:
  "argumentsOf (windowsCommandLine (processRequest\<lparr>pr_executable := ''a b'', pr_arguments := [[CHR 0x5C, CHR 0x22], ''c'']\<rparr>)) =
     [''a b'', [CHR 0x5C, CHR 0x22], ''c'']"
  using quoted_command_line_round_trips [of "processRequest\<lparr>pr_executable := ''a b'', pr_arguments := [[CHR 0x5C, CHR 0x22], ''c'']\<rparr>"]
  by simp

text \<open>An empty argument is not quoted, so the started program does not see it.\<close>

lemma empty_argument_vanishes:
  "argumentsOf (windowsCommandLine (processRequest\<lparr>pr_executable := ''a'', pr_arguments := [[]]\<rparr>)) = [''a'']"
  by (simp add: argumentsOf_def windowsCommandLine_def quoteWindowsArgument_def needsQuotes_def)

end
