(* ===== verification/Evidence_Windows.thy ===== *)
theory Evidence_Windows
  imports Evidence_Process "HOL-Library.Word"
begin

text \<open>
  \<open>tools/rf_evidence/src/process_runner.cpp\<close>, the Windows branch: the child is created suspended, put into a job with
  its limits, resumed and waited for.  As on the other platform it is what the calls of the system answer.
\<close>

section \<open>The run\<close>

text \<open>One turn of the loop: the wait timed out (the deadline, and the two sizes), or it did not.\<close>

datatype WindowsPoll = TimedOut bool "nat option" "nat option" | WaitOver

text \<open>What each call answered, in the order they are made, and the captures at the end.\<close>

record WindowsChild =
  wc_directory :: bool
  wc_output :: bool
  wc_error :: bool
  wc_input :: bool
  wc_job :: bool
  wc_limits :: bool
  wc_created :: bool
  wc_assigned :: bool
  wc_resumed :: bool
  wc_polls :: "WindowsPoll list"
  wc_exitCode :: "32 word option"
  wc_standardOutput :: Capture
  wc_standardError :: Capture

fun windowsWait :: "ProcessRequest \<Rightarrow> WindowsPoll list \<Rightarrow> Status option" where
  "windowsWait request [] = None"
| "windowsWait request (TimedOut late out err # polls) =
     (if late then Some (fail VerificationFailed (pr_executable request) ''child process timed out'')
      else if pr_maximumStandardOutputBytes request < capturedBytes out \<or>
        pr_maximumStandardErrorBytes request < capturedBytes err
      then Some (fail LimitExceeded (pr_executable request) ''child process output exceeded its limit'')
      else windowsWait request polls)"
| "windowsWait request (WaitOver # polls) = Some (Inr ())"

text \<open>The exit code is 32 bits wide and read as a signed number.\<close>

definition collectWindowsResult :: "WindowsChild \<Rightarrow> ProcessRequest \<Rightarrow> ProcessResult Result" where
  "collectWindowsResult child request =
     (case wc_exitCode child of
        None \<Rightarrow> fail VerificationFailed (pr_executable request) ''failed to read child exit code''
      | Some exitCode \<Rightarrow>
          rbind (readCapture (path_append (pr_captureDirectory request) ''stdout.tmp'')
              (pr_maximumStandardOutputBytes request) (wc_standardOutput child)) (\<lambda>standardOutput.
          rbind (readCapture (path_append (pr_captureDirectory request) ''stderr.tmp'')
              (pr_maximumStandardErrorBytes request) (wc_standardError child)) (\<lambda>standardError.
            Inr \<lparr>ps_exitCode = sint exitCode, ps_standardOutput = standardOutput, ps_standardError = standardError\<rparr>)))"

definition runWindowsProcess :: "WindowsChild \<Rightarrow> ProcessRequest \<Rightarrow> ProcessResult Result option" where
  "runWindowsProcess child request =
     (if \<not> wc_directory child
      then Some (fail IoFailure (pr_captureDirectory request) ''failed to create capture directory'')
      else if \<not> wc_output child \<or> \<not> wc_error child \<or> \<not> wc_input child
      then Some (fail IoFailure (pr_captureDirectory request) ''failed to create process capture handles'')
      else if \<not> wc_job child \<or> \<not> wc_limits child
      then Some (fail VerificationFailed (pr_executable request) ''failed to configure child-process limits'')
      else if \<not> wc_created child
      then Some (fail VerificationFailed (pr_executable request) ''failed to create child process'')
      else if \<not> wc_assigned child \<or> \<not> wc_resumed child
      then Some (fail VerificationFailed (pr_executable request) ''failed to constrain or resume child process'')
      else map_option (\<lambda>status. rbind status (\<lambda>_. collectWindowsResult child request)) (windowsWait request (wc_polls child)))"

section \<open>A run ends, is bounded and is constrained\<close>

text \<open>The child runs, and runs in its job with its limits.\<close>

definition constrained :: "WindowsChild \<Rightarrow> bool" where
  "constrained child \<longleftrightarrow> wc_directory child \<and> wc_output child \<and> wc_error child \<and> wc_input child \<and> wc_job child \<and>
     wc_limits child \<and> wc_created child \<and> wc_assigned child \<and> wc_resumed child"

definition decisive_wait :: "ProcessRequest \<Rightarrow> WindowsPoll \<Rightarrow> bool" where
  "decisive_wait request poll \<longleftrightarrow>
     (case poll of
        TimedOut late out err \<Rightarrow> late \<or> pr_maximumStandardOutputBytes request < capturedBytes out \<or>
          pr_maximumStandardErrorBytes request < capturedBytes err
      | WaitOver \<Rightarrow> True)"

lemma windowsWait_None: "windowsWait request polls = None \<longleftrightarrow> list_all (\<lambda>poll. \<not> decisive_wait request poll) polls"
  by (induction request polls rule: windowsWait.induct) (auto simp: decisive_wait_def)

lemma windowsWait_over:
  "windowsWait request polls = Some (Inr ()) \<Longrightarrow> List.find (decisive_wait request) polls = Some WaitOver"
  by (induction request polls rule: windowsWait.induct) (auto simp: decisive_wait_def split: if_split_asm)

lemma collectWindowsResult_ok:
  "collectWindowsResult child request = Inr result \<Longrightarrow>
     length (ps_standardOutput result) \<le> pr_maximumStandardOutputBytes request \<and>
     length (ps_standardError result) \<le> pr_maximumStandardErrorBytes request \<and>
     map_option sint (wc_exitCode child) = Some (ps_exitCode result)"
  by (auto simp: collectWindowsResult_def rbind_Inr_iff accepts dest!: readCapture_bounded split: option.split_asm)

text \<open>
  On Windows a run goes on only while the child is in its job and no wait finds it ended, late or over its limits.
  A result it returns is of a child that was put into the job with its limits before it ran, after a wait that
  did not time out, with outputs within the limits of the request and the exit code the system gave.
\<close>

theorem windows_run_ends_and_is_bounded:
  "(runWindowsProcess child request = None \<longleftrightarrow>
      constrained child \<and> list_all (\<lambda>poll. \<not> decisive_wait request poll) (wc_polls child)) \<and>
   (case runWindowsProcess child request of
      Some (Inr result) \<Rightarrow>
        constrained child \<and> List.find (decisive_wait request) (wc_polls child) = Some WaitOver \<and>
        length (ps_standardOutput result) \<le> pr_maximumStandardOutputBytes request \<and>
        length (ps_standardError result) \<le> pr_maximumStandardErrorBytes request \<and>
        map_option sint (wc_exitCode child) = Some (ps_exitCode result)
    | _ \<Rightarrow> True)"
proof -
  have result: "constrained child \<and> windowsWait request (wc_polls child) = Some (Inr ()) \<and>
      collectWindowsResult child request = Inr result"
    if "runWindowsProcess child request = Some (Inr result)" for result
    using that by (auto simp: runWindowsProcess_def constrained_def rbind_Inr_iff accepts split: if_split_asm)
  have ends: "runWindowsProcess child request = None \<longleftrightarrow>
      constrained child \<and> list_all (\<lambda>poll. \<not> decisive_wait request poll) (wc_polls child)"
    by (auto simp: runWindowsProcess_def constrained_def windowsWait_None)
  show ?thesis
  proof (cases "\<exists>result. runWindowsProcess child request = Some (Inr result)")
    case True
    then obtain r where r: "runWindowsProcess child request = Some (Inr r)" ..
    show ?thesis
      using result [OF r] windowsWait_over [of request "wc_polls child"] collectWindowsResult_ok [of child request r]
        windowsWait_None [of request "wc_polls child"]
      by (simp add: r)
  next
    case False
    then show ?thesis unfolding ends by (auto split: option.split sum.split)
  qed
qed

end
