(* ===== verification/Evidence_Handles.thy ===== *)
theory Evidence_Handles
  imports Evidence_Blob "HOL-Library.Word"
begin

unbundle bit_operations_syntax

text \<open>
  \<open>tools/rf_evidence/src/file_security.cpp\<close>: the exclusive file as the object it is, with a handle, over the answers
  the operating system gives, on both platforms; the loop that writes; and the two calls whose Windows form
  differs.  \<open>Evidence_Blob\<close> takes a whole write as one call of the host: the refinement below shows that this is
  what the loop does.
\<close>

datatype Platform = Posix | Windows

text \<open>\<open>describeErrno\<close> and \<open>describeLastError\<close>.\<close>

definition describeCode :: "Platform \<Rightarrow> nat \<Rightarrow> string" where
  "describeCode platform code =
     (case platform of Posix \<Rightarrow> ''errno '' | Windows \<Rightarrow> ''operating-system error '') @ nat_to_string code"

definition EINTR :: nat where "EINTR = 4"

text \<open>\<open>EEXIST\<close>; \<open>ERROR_FILE_EXISTS\<close> and \<open>ERROR_ALREADY_EXISTS\<close>.\<close>

definition collisionCodes :: "Platform \<Rightarrow> nat list" where
  "collisionCodes platform = (case platform of Posix \<Rightarrow> [17] | Windows \<Rightarrow> [80, 183])"

section \<open>What a path names, on Windows\<close>

text \<open>\<open>ERROR_FILE_NOT_FOUND\<close>, \<open>PATH_NOT_FOUND\<close>, \<open>INVALID_NAME\<close>, \<open>BAD_NETPATH\<close> and \<open>NOT_READY\<close>.\<close>

definition missingErrors :: "nat list" where "missingErrors = [2, 3, 123, 53, 21]"

definition classifyAttributes :: "string \<Rightarrow> 32 word \<Rightarrow> nat \<Rightarrow> FileKind Result" where
  "classifyAttributes path kAttributes kError =
     (if kAttributes = 0xFFFFFFFF
      then (if kError \<in> set missingErrors then Inr KindMissing else fail IoFailure path (describeCode Windows kError))
      else if kAttributes AND 0x400 \<noteq> 0 then Inr KindReparse
      else if kAttributes AND 0x10 \<noteq> 0 then Inr KindDirectory
      else if kAttributes AND 0x40 \<noteq> 0 then Inr KindSpecial
      else Inr KindRegular)"

text \<open>A junction has the attribute of a directory too; it is never taken for one.\<close>

lemma reparse_point_is_not_followed:
  assumes "kAttributes AND 0x400 \<noteq> 0"
  shows "classifyAttributes path kAttributes kError \<notin> {Inr KindDirectory, Inr KindRegular}"
  using assms by (simp add: classifyAttributes_def fail_def)

text \<open>The move without \<open>MOVEFILE_REPLACE_EXISTING\<close>: nothing, or the error of the call.\<close>

definition publishByMove :: "string \<Rightarrow> nat option \<Rightarrow> Status" where
  "publishByMove destination kError =
     (case kError of
        None \<Rightarrow> Inr ()
      | Some code \<Rightarrow>
          if code \<in> set (collisionCodes Windows) then fail OwnershipCollision destination ''the destination already exists''
          else fail IoFailure destination (describeCode Windows code))"

section \<open>The exclusive file\<close>

text \<open>The handle and the subject, and the handles the system has opened and closed for this file so far.\<close>

record ExclusiveFile =
  xf_handle :: int
  xf_subject :: string
  xf_opened :: "int list"
  xf_closed :: "int list"

definition newFile :: ExclusiveFile where
  "newFile = \<lparr>xf_handle = -1, xf_subject = [], xf_opened = [], xf_closed = []\<rparr>"

definition isOpen :: "Platform \<Rightarrow> ExclusiveFile \<Rightarrow> bool" where
  "isOpen platform file \<longleftrightarrow> (case platform of Windows \<Rightarrow> xf_handle file \<noteq> -1 | Posix \<Rightarrow> 0 \<le> xf_handle file)"

text \<open>The answer of the exclusive open: the handle, and the error when it is not valid.\<close>

definition createFile :: "Platform \<Rightarrow> string \<Rightarrow> int \<times> nat \<Rightarrow> ExclusiveFile \<Rightarrow> Status \<times> ExclusiveFile" where
  "createFile platform path = (\<lambda>(handle, kError) file.
     if isOpen platform file then (fail IoFailure path ''the file handle is already open'', file)
     else let opened = file\<lparr>xf_subject := path, xf_handle := handle\<rparr>
       in if \<not> isOpen platform opened
          then (if kError \<in> set (collisionCodes platform) then fail OwnershipCollision path ''the path already exists''
            else fail IoFailure path (describeCode platform kError), opened)
          else (Inr (), opened\<lparr>xf_opened := xf_opened file @ [handle]\<rparr>))"

definition releaseHandle :: "Platform \<Rightarrow> ExclusiveFile \<Rightarrow> ExclusiveFile" where
  "releaseHandle platform file =
     (if \<not> isOpen platform file then file
      else file\<lparr>xf_handle := -1, xf_closed := xf_closed file @ [xf_handle file]\<rparr>)"

text \<open>Nothing, or the error of the close; the handle is given up in either case.\<close>

definition closeHandle :: "Platform \<Rightarrow> nat option \<Rightarrow> ExclusiveFile \<Rightarrow> Status \<times> ExclusiveFile" where
  "closeHandle platform kError file =
     (if \<not> isOpen platform file then (Inr (), file)
      else (case kError of None \<Rightarrow> Inr () | Some code \<Rightarrow> fail IoFailure (xf_subject file) (describeCode platform code),
        releaseHandle platform file))"

section \<open>The loop that writes\<close>

datatype WriteAnswer = Produced nat | WriteFailed nat

definition kMaximumChunk :: nat where "kMaximumChunk = 0x7FFF0000"

text \<open>How many bytes one call is asked to write.\<close>

definition requested :: "Platform \<Rightarrow> nat \<Rightarrow> nat" where
  "requested platform kRemaining = (case platform of Windows \<Rightarrow> min kRemaining kMaximumChunk | Posix \<Rightarrow> kRemaining)"

text \<open>The result and the bytes written; \<open>None\<close>: the loop goes on after the answers there are.\<close>

fun writeLoop :: "Platform \<Rightarrow> string \<Rightarrow> nat \<Rightarrow> nat \<Rightarrow> WriteAnswer list \<Rightarrow> (Status \<times> nat) option" where
  "writeLoop platform subject wanted written answers =
     (if wanted \<le> written then Some (Inr (), written)
      else case answers of
        [] \<Rightarrow> None
      | WriteFailed kError # rest \<Rightarrow>
          if platform = Posix \<and> kError = EINTR then writeLoop platform subject wanted written rest
          else Some (fail IoFailure subject (describeCode platform kError), written)
      | Produced kProduced # rest \<Rightarrow>
          if kProduced = 0 then Some (fail IoFailure subject ''the write made no progress'', written)
          else writeLoop platform subject wanted (written + kProduced) rest)"

declare writeLoop.simps [simp del]

lemma writeLoop_ends: "wanted \<le> written \<Longrightarrow> writeLoop platform subject wanted written answers = Some (Inr (), written)"
  by (subst writeLoop.simps) simp

lemma writeLoop_turn:
  assumes "\<not> wanted \<le> written"
  shows "writeLoop platform subject wanted written [] = None"
    and "writeLoop platform subject wanted written (WriteFailed kError # rest) =
      (if platform = Posix \<and> kError = EINTR then writeLoop platform subject wanted written rest
       else Some (fail IoFailure subject (describeCode platform kError), written))"
    and "writeLoop platform subject wanted written (Produced n # rest) =
      (if n = 0 then Some (fail IoFailure subject ''the write made no progress'', written)
       else writeLoop platform subject wanted (written + n) rest)"
  using assms by (subst writeLoop.simps, simp)+

definition writeBytes :: "Platform \<Rightarrow> bytes \<Rightarrow> WriteAnswer list \<Rightarrow> ExclusiveFile \<Rightarrow> (Status \<times> nat) option" where
  "writeBytes platform bytes answers file =
     (if \<not> isOpen platform file then Some (fail IoFailure (xf_subject file) ''the file handle is not open'', 0)
      else if bytes = [] then Some (Inr (), 0)
      else writeLoop platform (xf_subject file) (length bytes) 0 answers)"

section \<open>A whole write is one call of the host\<close>

text \<open>What the system documents: a call writes no more than it was asked to.\<close>

fun answers_fit :: "Platform \<Rightarrow> nat \<Rightarrow> WriteAnswer list \<Rightarrow> bool" where
  "answers_fit platform remaining [] = True"
| "answers_fit platform remaining (WriteFailed kError # rest) = answers_fit platform remaining rest"
| "answers_fit platform remaining (Produced n # rest) =
     (n \<le> requested platform remaining \<and> answers_fit platform (remaining - n) rest)"

lemma requested_le: "requested platform n \<le> n"
  by (cases platform) (simp_all add: requested_def)

lemma writeLoop_bounded:
  "writeLoop platform subject wanted written answers = Some (result, n) \<Longrightarrow> answers_fit platform (wanted - written) answers \<Longrightarrow>
     written \<le> wanted \<Longrightarrow> written \<le> n \<and> n \<le> wanted \<and>
       (result = Inr () \<and> n = wanted \<or> n < wanted \<and> (\<exists>message. result = fail IoFailure subject message))"
proof (induction answers arbitrary: written)
  case Nil
  then show ?case
    by (cases "wanted \<le> written") (auto simp: writeLoop_ends writeLoop_turn)
next
  case (Cons answer rest)
  show ?case
  proof (cases "wanted \<le> written")
    case True
    then show ?thesis using Cons.prems by (auto simp: writeLoop_ends)
  next
    case False
    show ?thesis
    proof (cases answer)
      case (Produced k)
      then have "written + k \<le> wanted" "answers_fit platform (wanted - (written + k)) rest"
        using Cons.prems(2,3) requested_le [of platform "wanted - written"] by auto
      then show ?thesis
        using Cons.prems Cons.IH [of "written + k"] False Produced by (auto simp: writeLoop_turn split: if_split_asm)
    next
      case (WriteFailed kError)
      then show ?thesis
        using Cons.prems Cons.IH [of written] False by (auto simp: writeLoop_turn split: if_split_asm)
    qed
  qed
qed

text \<open>The loop ends with success when every call makes progress or is interrupted, and enough of them do.\<close>

lemma writeLoop_completes:
  assumes "list_all (\<lambda>a. case a of Produced n \<Rightarrow> 0 < n | WriteFailed code \<Rightarrow> platform = Posix \<and> code = EINTR) answers"
    and "wanted - written \<le> length (filter (\<lambda>a. \<exists>n. a = Produced n) answers)"
  shows "\<exists>n. writeLoop platform subject wanted written answers = Some (Inr (), n)"
  using assms
proof (induction answers arbitrary: written)
  case Nil
  then show ?case by (simp add: writeLoop_ends)
next
  case (Cons a answers)
  show ?case
    using Cons.prems Cons.IH [of written] Cons.IH [of "written + n" for n]
    by (cases "wanted \<le> written"; cases a) (auto simp: writeLoop_ends writeLoop_turn)
qed



section \<open>Every handle is closed once\<close>

datatype FileCall = CallCreate string int nat | CallWrite bytes "WriteAnswer list" | CallClose "nat option"

fun perform :: "Platform \<Rightarrow> FileCall \<Rightarrow> ExclusiveFile \<Rightarrow> ExclusiveFile" where
  "perform platform (CallCreate path handle kError) file = snd (createFile platform path (handle, kError) file)"
| "perform platform (CallWrite bytes answers) file = file"
| "perform platform (CallClose kError) file = snd (closeHandle platform kError file)"

definition handles_accounted :: "Platform \<Rightarrow> ExclusiveFile \<Rightarrow> bool" where
  "handles_accounted platform file \<longleftrightarrow>
     xf_opened file = xf_closed file @ (if isOpen platform file then [xf_handle file] else [])"

lemma perform_accounted: "handles_accounted platform file \<Longrightarrow> handles_accounted platform (perform platform call file)"
  by (cases call; cases platform)
    (auto simp: handles_accounted_def createFile_def closeHandle_def releaseHandle_def isOpen_def Let_def)

lemma calls_accounted: "handles_accounted platform x \<Longrightarrow> handles_accounted platform (fold (perform platform) calls x)"
  by (induction calls arbitrary: x) (auto intro: perform_accounted)

text \<open>
  Whatever is called on an exclusive file, in whatever order and with whatever answers of the system, its
  destructor leaves it with every handle the system opened for it closed exactly once, in the order they were
  opened.
\<close>

theorem every_handle_is_closed_once:
  "let file = releaseHandle platform (fold (perform platform) calls newFile)
   in xf_closed file = xf_opened file \<and> \<not> isOpen platform file"
proof -
  have "handles_accounted platform (fold (perform platform) calls newFile)"
    by (rule calls_accounted) (cases platform; simp add: handles_accounted_def newFile_def isOpen_def)
  then show ?thesis
    by (cases platform) (auto simp: Let_def handles_accounted_def releaseHandle_def isOpen_def)
qed

end
