(* ===== verification/Evidence_Dependencies.thy ===== *)
theory Evidence_Dependencies
  imports Evidence_Paths Containers
begin

text \<open>
  \<open>tools/rf_evidence/src/dependency_authority.cpp\<close>: the catalog, the license index, the artifact lock,
  the toolchain lock and the delegated fetches, each against the ones before it and the last also
  against the workflow and container files that do the fetching.  A \<open>std::set\<close> is the list of what was
  inserted; the code compares such sets and asks for their size only where an insertion that repeats
  a value has been refused, or with set equality here.
\<close>

section \<open>Names of files\<close>

definition path_filename :: "string \<Rightarrow> string" where
  "path_filename path = last (split_at_char CHR ''/'' path)"

text \<open>\<open>path::extension\<close>: from the last dot of the file name, unless that dot is its first character.\<close>

definition path_extension :: "string \<Rightarrow> string" where
  "path_extension path =
     (let name = path_filename path
      in if name = ''..'' then []
         else case rindex_of CHR ''.'' name of None \<Rightarrow> [] | Some 0 \<Rightarrow> [] | Some k \<Rightarrow> drop k name)"

text \<open>The places a loop of \<open>find(marker, at + marker.size())\<close> visits.\<close>

function occurrences :: "string \<Rightarrow> string \<Rightarrow> nat \<Rightarrow> nat list" where
  "occurrences marker s off =
     (if marker = [] then []
      else case find_str_from marker s off of
        None \<Rightarrow> []
      | Some k \<Rightarrow> k # occurrences marker s (k + length marker))"
  by pat_completeness auto
termination
proof (relation "measure (\<lambda>(marker, s, off). Suc (length s) - off)")
  fix marker s :: string and off k :: nat
  assume "marker \<noteq> []" "find_str_from marker s off = Some k"
  then have "0 < length marker" "off \<le> k" "off \<le> length s"
    by (auto simp: find_str_from_def split: if_splits)
  then have "Suc (length s) - (k + length marker) < Suc (length s) - off" by linarith
  then show "((marker, s, k + length marker), marker, s, off) \<in> measure (\<lambda>(marker, s, off). Suc (length s) - off)"
    by simp
qed simp

declare occurrences.simps [simp del]

section \<open>The repository as the validator reports it\<close>

record ToolInfo =
  ti_id :: string
  ti_manifestPath :: string
  ti_owner :: string
  ti_cmakeTarget :: string
  ti_thirdPartyDependencies :: "string list"
  ti_managedToolDependencies :: "string list"

record EvidenceAuthorityInfo =
  ea_authorityClass :: string
  ea_path :: string
  ea_mediaType :: string

record RepositorySnapshot =
  sn_root :: string
  sn_tools :: "ToolInfo list"
  sn_evidenceIndexPath :: string
  sn_evidenceAuthorities :: "EvidenceAuthorityInfo list"

section \<open>What the authorities say\<close>

record LicensePolicy =
  lp_spdxExpression :: string
  lp_redistribution :: string
  lp_approval :: string

record AuthoritySets =
  au_catalogIds :: "string list"
  au_artifactIds :: "string list"
  au_managedToolIds :: "string list"
  au_licenseIds :: "string list"
  au_catalogLicenses :: "(string, LicensePolicy) omap"
  au_artifactVerificationReferences :: "(string \<times> string) list"

definition noAuthorities :: AuthoritySets where
  "noAuthorities = \<lparr>au_catalogIds = [], au_artifactIds = [], au_managedToolIds = [], au_licenseIds = [],
     au_catalogLicenses = [], au_artifactVerificationReferences = []\<rparr>"

definition lowercaseId :: "string \<Rightarrow> string" where
  "lowercaseId s = map tolower s"

definition loadObject :: "Site \<Rightarrow> string \<Rightarrow> dom_object Result" where
  "loadObject site path =
     rbind (readSiteFile site path kMaximumMaintainedJsonBytes) (\<lambda>storage.
     case si_parse site storage of
       Inl kError \<Rightarrow> fail InvalidJson path (si_errorText site kError)
     | Inr element \<Rightarrow>
         (case dom_get_object element of
            Inl _ \<Rightarrow> fail InvalidJson path ''authority root must be an object''
          | Inr object \<Rightarrow> Inr object))"

definition authorityField :: "dom_object \<Rightarrow> string \<Rightarrow> string \<Rightarrow> string Result" where
  "authorityField object field path =
     (case dom_string_at object field of
        Inl _ \<Rightarrow> fail InvalidJson path (''invalid field: '' @ field)
      | Inr v \<Rightarrow> Inr v)"

definition insertUnique :: "string list \<Rightarrow> string \<Rightarrow> string \<Rightarrow> string \<Rightarrow> string list Result" where
  "insertUnique ids v path kind =
     (if lowercaseId v \<in> set ids then fail OwnershipCollision path (kind @ '' ID collides'')
      else Inr (ids @ [lowercaseId v]))"

section \<open>The catalog\<close>

definition readCatalogLicense :: "dom_object \<Rightarrow> string \<Rightarrow> string \<Rightarrow> LicensePolicy Result" where
  "readCatalogLicense entry entryId kPath =
     (case dom_object_at entry ''license'' of
        Inl _ \<Rightarrow> fail InvalidJson entryId ''catalog license policy must be an object''
      | Inr license \<Rightarrow>
          rbind (authorityField license ''spdxExpression'' kPath) (\<lambda>spdxExpression.
          rbind (authorityField license ''redistribution'' kPath) (\<lambda>redistribution.
          rbind (authorityField license ''approval'' kPath) (\<lambda>approval.
            Inr \<lparr>lp_spdxExpression = spdxExpression, lp_redistribution = redistribution, lp_approval = approval\<rparr>))))"

definition checkProvider :: "dom_object \<Rightarrow> string \<Rightarrow> string \<Rightarrow> Status" where
  "checkProvider entry entryId kPath =
     (case dom_object_at entry ''provider'' of
        Inl _ \<Rightarrow> fail InvalidJson entryId ''provider must be one closed object''
      | Inr provider \<Rightarrow>
          (case (authorityField provider ''type'' kPath, authorityField provider ''reference'' kPath) of
             (Inr kind, Inr reference) \<Rightarrow>
               if reference = [] then fail InvalidManifest entryId ''provider type/reference is incomplete'' else Inr ()
           | _ \<Rightarrow> fail InvalidManifest entryId ''provider type/reference is incomplete''))"

definition catalogEntry :: "string \<Rightarrow> AuthoritySets \<Rightarrow> dom_value \<Rightarrow> AuthoritySets Result" where
  "catalogEntry kPath sets kElement =
     (case dom_get_object kElement of
        Inl _ \<Rightarrow> fail InvalidJson kPath ''catalog entry must be an object''
      | Inr entry \<Rightarrow>
          rbind (authorityField entry ''id'' kPath) (\<lambda>entryId.
          rbind (insertUnique (au_catalogIds sets) entryId kPath ''catalog'') (\<lambda>ids.
          rbind (readCatalogLicense entry entryId kPath) (\<lambda>policy.
          rbind (checkProvider entry entryId kPath) (\<lambda>_.
            Inr (sets\<lparr>au_catalogIds := ids,
              au_catalogLicenses := omap_emplace (lowercaseId entryId) policy (au_catalogLicenses sets)\<rparr>))))))"

definition loadCatalog :: "Site \<Rightarrow> string \<Rightarrow> AuthoritySets \<Rightarrow> AuthoritySets Result" where
  "loadCatalog site repositoryRoot sets =
     (let kPath = path_append repositoryRoot ''third_party/catalog.json''
      in rbind (loadObject site kPath) (\<lambda>root.
         case dom_array_at root ''entries'' of
           Inl _ \<Rightarrow> fail InvalidJson kPath ''catalog entries are invalid''
         | Inr entries \<Rightarrow>
             rbind (rfold (catalogEntry kPath) sets entries) (\<lambda>sets'.
               if length (au_catalogIds sets') \<noteq> 21
               then fail InvalidManifest kPath ''catalog must contain exactly 21 admitted entries''
               else Inr sets')))"

section \<open>The licenses\<close>

definition licenseMaterial ::
  "Site \<Rightarrow> string \<Rightarrow> string \<Rightarrow> (string, bytes) omap \<Rightarrow> dom_value \<Rightarrow> (string, bytes) omap Result" where
  "licenseMaterial site repositoryRoot kPath materialContents kElement =
     (case dom_get_object kElement of
        Inl _ \<Rightarrow> fail InvalidJson kPath ''license material must be an object''
      | Inr material \<Rightarrow>
          (case (authorityField material ''path'' kPath, authorityField material ''sha256'' kPath,
                 dom_uint64_at material ''byteSize'') of
             (Inr relative, Inr expectedDigest, Inr expectedBytes) \<Rightarrow>
               if \<not> starts_with relative ''third_party/licenses/'' \<or> contains_char relative (CHR 0x5C)
               then fail InvalidManifest kPath ''license material identity is invalid''
               else rbind (resolveRepositoryPath site repositoryRoot relative) (\<lambda>resolved.
                 case (pb_size (su_probe site resolved), sha256File (su_provider site) resolved (su_reads site resolved),
                       readSiteFile site resolved kMaximumMaintainedJsonBytes) of
                   (Some kObservedBytes, Inr observedDigest, Inr content) \<Rightarrow>
                     if kObservedBytes \<noteq> expectedBytes \<or> observedDigest \<noteq> expectedDigest \<or>
                        map_of materialContents relative \<noteq> None
                     then fail VerificationFailed relative ''offline license material identity mismatch''
                     else Inr (omap_emplace relative content materialContents)
                 | _ \<Rightarrow> fail VerificationFailed relative ''offline license material identity mismatch'')
           | _ \<Rightarrow> fail InvalidManifest kPath ''license material identity is invalid''))"

definition coverCatalog ::
  "AuthoritySets \<Rightarrow> string \<Rightarrow> LicensePolicy \<Rightarrow> string list \<Rightarrow> dom_value \<Rightarrow> string list Result" where
  "coverCatalog sets entryId declared coveredCatalogs kCatalogElement =
     (case dom_get_string kCatalogElement of
        Inl _ \<Rightarrow> fail InvalidJson entryId ''license catalog ID must be a string''
      | Inr catalogId \<Rightarrow>
          (case map_of (au_catalogLicenses sets) (lowercaseId catalogId) of
             None \<Rightarrow> fail InvalidManifest entryId ''license policy differs from its catalog authority''
           | Some kPolicy \<Rightarrow>
               if lowercaseId catalogId \<in> set coveredCatalogs \<or> kPolicy \<noteq> declared
               then fail InvalidManifest entryId ''license policy differs from its catalog authority''
               else Inr (coveredCatalogs @ [lowercaseId catalogId])))"

definition licenseEntry ::
  "string \<Rightarrow> (string, bytes) omap \<Rightarrow> AuthoritySets \<times> string list \<Rightarrow> dom_value \<Rightarrow> (AuthoritySets \<times> string list) Result" where
  "licenseEntry kPath materialContents = (\<lambda>(sets, coveredCatalogs) kElement.
     (case dom_get_object kElement of
        Inl _ \<Rightarrow> fail InvalidJson kPath ''license entry must be an object''
      | Inr entry \<Rightarrow>
          (case (authorityField entry ''id'' kPath, authorityField entry ''spdxExpression'' kPath,
                 authorityField entry ''materialPath'' kPath, authorityField entry ''sectionHeading'' kPath,
                 authorityField entry ''redistribution'' kPath, authorityField entry ''approval'' kPath) of
             (Inr entryId, Inr spdxExpression, Inr materialPath, Inr sectionHeading, Inr redistribution, Inr approval) \<Rightarrow>
               rbind (insertUnique (au_licenseIds sets) entryId kPath ''license'') (\<lambda>ids.
               case map_of materialContents materialPath of
                 None \<Rightarrow> fail InvalidManifest entryId ''license material section is absent''
               | Some kMaterial \<Rightarrow>
                   if \<not> contains_str kMaterial (''## '' @ sectionHeading)
                   then fail InvalidManifest entryId ''license material section is absent''
                   else (case dom_array_at entry ''catalogIds'' of
                       Inl _ \<Rightarrow> fail InvalidJson entryId ''license catalog mapping is invalid''
                     | Inr catalogIds \<Rightarrow>
                         if catalogIds = [] then fail InvalidJson entryId ''license catalog mapping is invalid''
                         else rbind (rfold (coverCatalog sets entryId \<lparr>lp_spdxExpression = spdxExpression,
                                lp_redistribution = redistribution, lp_approval = approval\<rparr>) coveredCatalogs catalogIds) (\<lambda>covered.
                           Inr (sets\<lparr>au_licenseIds := ids\<rparr>, covered))))
           | _ \<Rightarrow> fail InvalidJson kPath ''license entry fields are incomplete'')))"

definition loadLicenses :: "Site \<Rightarrow> string \<Rightarrow> AuthoritySets \<Rightarrow> AuthoritySets Result" where
  "loadLicenses site repositoryRoot sets =
     (let kPath = path_append repositoryRoot ''third_party/licenses/index.json''
      in rbind (loadObject site kPath) (\<lambda>root.
         if dom_int64_at root ''schemaVersion'' \<noteq> Inr 1
         then fail InvalidManifest kPath ''license index schemaVersion must be 1''
         else case dom_array_at root ''materials'' of
           Inl _ \<Rightarrow> fail InvalidManifest kPath ''license index must contain exactly five offline material files''
         | Inr materials \<Rightarrow>
             if length materials \<noteq> 5
             then fail InvalidManifest kPath ''license index must contain exactly five offline material files''
             else rbind (rfold (licenseMaterial site repositoryRoot kPath) [] materials) (\<lambda>materialContents.
               case dom_array_at root ''entries'' of
                 Inl _ \<Rightarrow> fail InvalidManifest kPath ''license index must contain exactly 18 policies''
               | Inr entries \<Rightarrow>
                   if length entries \<noteq> 18
                   then fail InvalidManifest kPath ''license index must contain exactly 18 policies''
                   else rbind (rfold (licenseEntry kPath materialContents) (sets, []) entries) (\<lambda>(sets', coveredCatalogs).
                     if set coveredCatalogs \<noteq> set (au_catalogIds sets')
                     then fail InvalidManifest kPath ''license index does not cover every catalog entry exactly once''
                     else Inr sets'))))"

section \<open>The artifacts\<close>

text \<open>The lowercased references of one artifact, and the pairs that are checked at the end.\<close>

definition artifactReference ::
  "string \<Rightarrow> string list \<times> (string \<times> string) list \<Rightarrow> dom_value \<Rightarrow> (string list \<times> (string \<times> string) list) Result" where
  "artifactReference owner = (\<lambda>(localReferences, pairs) kReferenceElement.
     (case dom_get_string kReferenceElement of
        Inl _ \<Rightarrow> fail InvalidManifest owner ''artifact verification reference is invalid or duplicated''
      | Inr reference \<Rightarrow>
          if lowercaseId reference \<in> set localReferences
          then fail InvalidManifest owner ''artifact verification reference is invalid or duplicated''
          else Inr (localReferences @ [lowercaseId reference], pairs @ [(owner, reference)])))"

definition readReferences ::
  "dom_object \<Rightarrow> string \<Rightarrow> (string \<times> string) list \<Rightarrow> (string list \<times> (string \<times> string) list) Result" where
  "readReferences signature owner pairs =
     (case dom_at_key signature ''verificationArtifactIds'' of
        Inr referencesElement \<Rightarrow>
          (case dom_get_array referencesElement of
             Inl _ \<Rightarrow> fail InvalidJson owner ''artifact verification reference list is invalid''
           | Inr references \<Rightarrow> rfold (artifactReference owner) ([], pairs) references)
      | Inl kError \<Rightarrow>
          if kError \<noteq> NoSuchField then fail InvalidJson owner ''artifact verification references cannot be read''
          else Inr ([], pairs))"

definition readSignature ::
  "dom_object \<Rightarrow> string \<Rightarrow> string \<Rightarrow> (string \<times> string) list \<Rightarrow> (string \<times> string) list Result" where
  "readSignature artifact owner kPath pairs =
     (case dom_object_at artifact ''signature'' of
        Inl _ \<Rightarrow> fail InvalidJson owner ''artifact signature policy must be an object''
      | Inr signature \<Rightarrow>
          (case dom_bool_at signature ''required'' of
             Inl _ \<Rightarrow> fail InvalidJson owner ''artifact signature required flag is invalid''
           | Inr signatureRequired \<Rightarrow>
               (case authorityField signature ''scheme'' kPath of
                  Inl _ \<Rightarrow> fail InvalidManifest owner ''artifact signature required/scheme contract is inconsistent''
                | Inr signatureScheme \<Rightarrow>
                    if signatureRequired \<and> signatureScheme = ''none'' \<or> \<not> signatureRequired \<and> signatureScheme \<noteq> ''none''
                    then fail InvalidManifest owner ''artifact signature required/scheme contract is inconsistent''
                    else rbind (readReferences signature owner pairs) (\<lambda>(localReferences, pairs').
                      if signatureScheme = ''gpg_sigstore'' \<and> (\<not> signatureRequired \<or> length localReferences \<noteq> 4)
                      then fail InvalidManifest owner ''composite LLVM verification requires exactly four authorities''
                      else Inr pairs'))))"

definition checkRootless :: "dom_object \<Rightarrow> string \<Rightarrow> Status" where
  "checkRootless archive owner =
     (case dom_object_at archive ''rootless'' of
        Inl _ \<Rightarrow> fail InvalidJson owner ''rootless archive contract must be an object''
      | Inr rootless \<Rightarrow>
          (case (dom_int64_at rootless ''entryCount'', dom_int64_at rootless ''topLevelDirectories'',
                 dom_int64_at rootless ''topLevelFiles'') of
             (Inr entryCount, Inr topLevelDirectories, Inr topLevelFiles) \<Rightarrow>
               if entryCount < 1 \<or> 300000 < entryCount \<or> topLevelDirectories < 0 \<or> topLevelFiles < 0 \<or>
                  topLevelDirectories + topLevelFiles < 1 \<or> entryCount < topLevelDirectories + topLevelFiles
               then fail InvalidManifest owner ''rootless archive shape contract is invalid''
               else Inr ()
           | _ \<Rightarrow> fail InvalidManifest owner ''rootless archive shape contract is invalid''))"

definition checkArchive :: "dom_object \<Rightarrow> string \<Rightarrow> Status" where
  "checkArchive artifact owner =
     (case dom_object_at artifact ''archive'' of
        Inl _ \<Rightarrow> fail InvalidJson owner ''artifact archive contract must be an object''
      | Inr archive \<Rightarrow>
          let kHasRoot = is_ok (dom_at_key archive ''root''); kHasRoots = is_ok (dom_at_key archive ''roots'');
              kHasRootless = is_ok (dom_at_key archive ''rootless'')
          in if (if kHasRoot then 1 else 0) + (if kHasRoots then 1 else 0) + (if kHasRootless then 1 else 0) \<noteq> (1::nat)
             then fail InvalidManifest owner ''artifact archive must declare exactly one of root, roots, or rootless''
             else rbind (if \<not> kHasRoots then Inr ()
                  else case dom_array_at archive ''roots'' of
                    Inl _ \<Rightarrow> fail InvalidManifest owner ''artifact archive root set is not closed''
                  | Inr roots \<Rightarrow>
                      if length roots < 2 \<or> 32 < length roots
                      then fail InvalidManifest owner ''artifact archive root set is not closed'' else Inr ()) (\<lambda>_.
                if kHasRootless then checkRootless archive owner else Inr ()))"

definition artifactEntry :: "string \<Rightarrow> AuthoritySets \<Rightarrow> dom_value \<Rightarrow> AuthoritySets Result" where
  "artifactEntry kPath sets kElement =
     (case dom_get_object kElement of
        Inl _ \<Rightarrow> fail InvalidJson kPath ''artifact entry must be an object''
      | Inr artifact \<Rightarrow>
          rbind (authorityField artifact ''id'' kPath) (\<lambda>artifactId.
          rbind (authorityField artifact ''catalogId'' kPath) (\<lambda>catalogId.
          rbind (authorityField artifact ''licenseReference'' kPath) (\<lambda>licenseReference.
          if lowercaseId catalogId \<notin> set (au_catalogIds sets)
          then fail InvalidManifest artifactId ''artifact references an unknown catalog ID''
          else
            rbind (insertUnique (au_artifactIds sets) artifactId kPath ''artifact'') (\<lambda>ids.
            if lowercaseId licenseReference \<notin> set (au_licenseIds sets)
            then fail InvalidManifest artifactId ''artifact references unknown offline license material''
            else
              rbind (readSignature artifact artifactId kPath (au_artifactVerificationReferences sets)) (\<lambda>pairs.
              rbind (checkArchive artifact artifactId) (\<lambda>_.
                Inr (sets\<lparr>au_artifactIds := ids, au_artifactVerificationReferences := pairs\<rparr>))))))))"

definition checkReferencePair :: "string list \<Rightarrow> unit \<Rightarrow> string \<times> string \<Rightarrow> Status" where
  "checkReferencePair artifactIds = (\<lambda>_ (owner, reference).
     if lowercaseId reference \<notin> set artifactIds
     then fail InvalidManifest owner ''artifact verification authority is absent from the lock''
     else Inr ())"

definition loadArtifacts :: "Site \<Rightarrow> string \<Rightarrow> AuthoritySets \<Rightarrow> AuthoritySets Result" where
  "loadArtifacts site repositoryRoot sets =
     (let kPath = path_append repositoryRoot ''third_party/artifacts.lock.json''
      in rbind (loadObject site kPath) (\<lambda>root.
         case dom_array_at root ''artifacts'' of
           Inl _ \<Rightarrow> fail InvalidJson kPath ''artifact list is invalid''
         | Inr artifacts \<Rightarrow>
             rbind (rfold (artifactEntry kPath) sets artifacts) (\<lambda>sets'.
               if length (au_artifactIds sets') \<noteq> 50
               then fail InvalidManifest kPath ''TASK-0001 artifact lock must contain exactly 50 admitted inputs''
               else rbind (rfold (checkReferencePair (au_artifactIds sets')) () (au_artifactVerificationReferences sets')) (\<lambda>_.
                 Inr sets'))))"

section \<open>The toolchain\<close>

definition verifierArtifact :: "AuthoritySets \<Rightarrow> string \<Rightarrow> string list \<Rightarrow> dom_value \<Rightarrow> string list Result" where
  "verifierArtifact sets kPath verifierIds kVerifierElement =
     (case dom_get_string kVerifierElement of
        Inl _ \<Rightarrow> fail InvalidManifest kPath ''bootstrap verifier artifact is missing or duplicated''
      | Inr verifierId \<Rightarrow>
          if lowercaseId verifierId \<notin> set (au_artifactIds sets) \<or> lowercaseId verifierId \<in> set verifierIds
          then fail InvalidManifest kPath ''bootstrap verifier artifact is missing or duplicated''
          else Inr (verifierIds @ [lowercaseId verifierId]))"

definition checkBootstrap :: "dom_object \<Rightarrow> AuthoritySets \<Rightarrow> string \<Rightarrow> Status" where
  "checkBootstrap root sets kPath =
     (case dom_object_at root ''bootstrap'' of
        Inl _ \<Rightarrow> fail InvalidJson kPath ''bootstrap verifier contract is invalid''
      | Inr bootstrap \<Rightarrow>
          if dom_int64_at bootstrap ''verifierContractVersion'' \<noteq> Inr 1
          then fail InvalidManifest kPath ''bootstrap verifier contract version must be 1''
          else case dom_array_at bootstrap ''verifierArtifactIds'' of
            Inl _ \<Rightarrow> fail InvalidJson kPath ''bootstrap verifier artifact list is invalid''
          | Inr verifierArtifacts \<Rightarrow>
              rbind (rfold (verifierArtifact sets kPath) [] verifierArtifacts) (\<lambda>verifierIds.
                if length verifierIds \<noteq> 18
                then fail InvalidManifest kPath ''bootstrap verifier contract must contain exactly 18 artifacts''
                else Inr ()))"

definition managedArtifact :: "AuthoritySets \<Rightarrow> string \<Rightarrow> unit \<Rightarrow> dom_value \<Rightarrow> Status" where
  "managedArtifact sets toolId = (\<lambda>_ kArtifactElement.
     (case dom_get_string kArtifactElement of
        Inl _ \<Rightarrow> fail InvalidManifest toolId ''managed tool references an unknown artifact''
      | Inr artifactId \<Rightarrow>
          if lowercaseId artifactId \<notin> set (au_artifactIds sets)
          then fail InvalidManifest toolId ''managed tool references an unknown artifact'' else Inr ()))"

definition managedTool :: "string \<Rightarrow> AuthoritySets \<Rightarrow> dom_value \<Rightarrow> AuthoritySets Result" where
  "managedTool kPath sets kElement =
     (case dom_get_object kElement of
        Inl _ \<Rightarrow> fail InvalidJson kPath ''managed tool must be an object''
      | Inr tool \<Rightarrow>
          rbind (authorityField tool ''id'' kPath) (\<lambda>toolId.
          if lowercaseId toolId \<notin> set (au_catalogIds sets)
          then fail InvalidManifest toolId ''managed tool is absent from catalog''
          else
            rbind (insertUnique (au_managedToolIds sets) toolId kPath ''managed tool'') (\<lambda>ids.
            case dom_array_at tool ''artifactIds'' of
              Inl _ \<Rightarrow> fail InvalidJson toolId ''managed tool artifact list is invalid''
            | Inr artifactIds \<Rightarrow>
                rbind (rfold (managedArtifact sets toolId) () artifactIds) (\<lambda>_.
                  Inr (sets\<lparr>au_managedToolIds := ids\<rparr>)))))"

definition checkSignTool :: "dom_object \<Rightarrow> string \<Rightarrow> Status" where
  "checkSignTool signTool kPath =
     (if authorityField signTool ''id'' kPath = Inr ''tool.windows_sdk.signtool'' \<and>
         authorityField signTool ''absolutePath'' kPath =
           Inr ''C:/Program Files (x86)/Windows Kits/10/bin/10.0.26100.0/x64/signtool.exe'' \<and>
         authorityField signTool ''version'' kPath = Inr ''10.0.26100.8249'' \<and>
         authorityField signTool ''binarySha256'' kPath =
           Inr ''e7b517a6a2828af2d1fba3da60ae1e322a95141bfae192622725329630caa2b3'' \<and>
         authorityField signTool ''capability'' kPath = Inr ''capability.authenticode_verify'' \<and>
         dom_uint64_at signTool ''byteSize'' = Inr 543144
      then Inr ()
      else fail InvalidManifest kPath ''Windows SDK SignTool identity differs from TASK-0001'')"

definition checkInstalledSdk :: "dom_object \<Rightarrow> string \<Rightarrow> Status" where
  "checkInstalledSdk root kPath =
     (case dom_array_at root ''installedSdks'' of
        Inr [sdk] \<Rightarrow>
          (case dom_get_object sdk of
             Inl _ \<Rightarrow> fail InvalidJson kPath ''installed Windows SDK contract is invalid''
           | Inr windowsSdk \<Rightarrow>
               (case (authorityField windowsSdk ''id'' kPath, dom_array_at windowsSdk ''verificationExecutables'') of
                  (Inr sdkId, Inr [executable]) \<Rightarrow>
                    if sdkId \<noteq> ''sdk.windows_11''
                    then fail InvalidManifest kPath ''Windows SDK verification executable contract is incomplete''
                    else case dom_get_object executable of
                      Inl _ \<Rightarrow> fail InvalidJson kPath ''Windows SDK SignTool contract is invalid''
                    | Inr signTool \<Rightarrow> checkSignTool signTool kPath
                | _ \<Rightarrow> fail InvalidManifest kPath ''Windows SDK verification executable contract is incomplete''))
      | _ \<Rightarrow> fail InvalidManifest kPath ''TASK-0001 requires exactly one installed SDK contract'')"

definition loadToolchain :: "Site \<Rightarrow> string \<Rightarrow> AuthoritySets \<Rightarrow> AuthoritySets Result" where
  "loadToolchain site repositoryRoot sets =
     (let kPath = path_append repositoryRoot ''third_party/toolchain.lock.json''
      in rbind (loadObject site kPath) (\<lambda>root.
         rbind (checkBootstrap root sets kPath) (\<lambda>_.
         case dom_array_at root ''managedTools'' of
           Inl _ \<Rightarrow> fail InvalidJson kPath ''managed tool list is invalid''
         | Inr tools \<Rightarrow>
             rbind (rfold (managedTool kPath) sets tools) (\<lambda>sets'.
               if length (au_managedToolIds sets') \<noteq> 11
               then fail InvalidManifest kPath ''TASK-0001 toolchain must contain exactly eleven managed tools''
               else rbind (checkInstalledSdk root kPath) (\<lambda>_. Inr sets')))))"

section \<open>The delegated fetches\<close>

fun repositoryOf :: "nat \<Rightarrow> string \<Rightarrow> string" where
  "repositoryOf slashes [] = []"
| "repositoryOf slashes (c # cs) =
     (if c = CHR ''/''
      then (if slashes + 1 = 2 then [] else c # repositoryOf (slashes + 1) cs)
      else c # repositoryOf slashes cs)"

text \<open>The reference a \<open>uses:\<close> at a place names: blanks are passed over, and it ends at a blank or a line end.\<close>

definition referenceAt :: "string \<Rightarrow> nat \<Rightarrow> string" where
  "referenceAt kText at =
     takeWhile (\<lambda>c. c \<noteq> CHR '' '' \<and> c \<noteq> CHR 0x0D \<and> c \<noteq> CHR 0x0A)
       (dropWhile (\<lambda>c. c = CHR '' '' \<or> c = CHR 0x09) (drop (at + 5) kText))"

definition pinnedAt :: "string \<Rightarrow> string \<Rightarrow> string list \<Rightarrow> nat \<Rightarrow> string list Result" where
  "pinnedAt path kText pinned at =
     (let kReference = referenceAt kText at
      in if starts_with kReference ''./'' then Inr pinned
         else case rindex_of CHR ''@'' kReference of
           None \<Rightarrow> fail InvalidManifest path (''an action reference carries no commit: '' @ kReference)
         | Some kSeparator \<Rightarrow>
             Inr (pinned @ [lowercaseId (repositoryOf 0 (take kSeparator kReference)) @ ''@'' @
               lowercaseId (drop (kSeparator + 1) kReference)]))"

definition pinnedInEntry :: "Site \<Rightarrow> string list \<Rightarrow> WalkEntry \<Rightarrow> string list Result" where
  "pinnedInEntry site pinned kEntry =
     (if \<not> we_regular kEntry \<or> path_extension (we_path kEntry) \<noteq> ''.yml'' then Inr pinned
      else rbind (readSiteFile site (we_path kEntry) kMaximumMaintainedJsonBytes) (\<lambda>kText.
        rfold (pinnedAt (we_path kEntry) kText) pinned (occurrences ''uses:'' kText 0)))"

definition pinnedInRoot :: "Site \<Rightarrow> string \<Rightarrow> string list \<Rightarrow> string \<Rightarrow> string list Result" where
  "pinnedInRoot site repositoryRoot pinned kRoot =
     (let kAbsolute = path_append repositoryRoot kRoot
      in if \<not> si_exists site kAbsolute then Inr pinned
         else rfold (pinnedInEntry site) pinned (si_walk site kAbsolute))"

definition collectPinnedActions :: "Site \<Rightarrow> string \<Rightarrow> string list Result" where
  "collectPinnedActions site repositoryRoot =
     rfold (pinnedInRoot site repositoryRoot) [] [''.github/workflows'', ''.github/actions'']"

definition pulledInText :: "string \<Rightarrow> string list" where
  "pulledInText kText =
     map (\<lambda>at. lowercaseId (substr kText at 71))
       (takeWhile (\<lambda>at. at + 7 + 64 \<le> length kText) (occurrences ''sha256:'' kText 0))"

definition pulledInEntry :: "Site \<Rightarrow> string list \<Rightarrow> WalkEntry \<Rightarrow> string list Result" where
  "pulledInEntry site pulled kEntry =
     (if \<not> we_regular kEntry \<or> path_filename (we_path kEntry) \<noteq> ''Dockerfile'' then Inr pulled
      else rbind (readSiteFile site (we_path kEntry) kMaximumMaintainedJsonBytes) (\<lambda>kText.
        Inr (pulled @ pulledInText kText)))"

definition collectPulledImages :: "Site \<Rightarrow> string \<Rightarrow> string list Result" where
  "collectPulledImages site repositoryRoot =
     (let kRoot = path_append repositoryRoot ''ci/images''
      in if \<not> si_exists site kRoot then Inr [] else rfold (pulledInEntry site) [] (si_walk site kRoot))"

record Delegated =
  dl_artifactIds :: "string list"
  dl_lockedActions :: "string list"
  dl_lockedImages :: "string list"

definition delegatedFetch :: "AuthoritySets \<Rightarrow> string \<Rightarrow> Delegated \<Rightarrow> dom_value \<Rightarrow> Delegated Result" where
  "delegatedFetch sets kPath st kElement =
     (case dom_get_object kElement of
        Inl _ \<Rightarrow> fail InvalidJson kPath ''delegated fetch must be an object''
      | Inr fetch \<Rightarrow>
          (case (authorityField fetch ''id'' kPath, authorityField fetch ''catalogId'' kPath,
                 authorityField fetch ''kind'' kPath, authorityField fetch ''reference'' kPath,
                 authorityField fetch ''pin'' kPath, authorityField fetch ''licenseReference'' kPath) of
             (Inr fetchId, Inr catalogId, Inr kind, Inr reference, Inr pin, Inr licenseReference) \<Rightarrow>
               rbind (insertUnique (dl_artifactIds st) fetchId kPath ''delegated fetch'') (\<lambda>ids.
               if lowercaseId catalogId \<notin> set (au_catalogIds sets)
               then fail InvalidManifest fetchId ''delegated fetch references an unknown catalog ID''
               else if lowercaseId licenseReference \<notin> set (au_licenseIds sets)
               then fail InvalidManifest fetchId ''delegated fetch references unknown license material''
               else Inr (if kind = ''github_action''
                 then st\<lparr>dl_artifactIds := ids,
                   dl_lockedActions := dl_lockedActions st @ [lowercaseId reference @ ''@'' @ lowercaseId pin]\<rparr>
                 else st\<lparr>dl_artifactIds := ids, dl_lockedImages := dl_lockedImages st @ [lowercaseId pin]\<rparr>))
           | _ \<Rightarrow> fail InvalidJson kPath ''delegated fetch fields are incomplete''))"

definition loadDelegatedFetches :: "Site \<Rightarrow> string \<Rightarrow> AuthoritySets \<Rightarrow> AuthoritySets Result" where
  "loadDelegatedFetches site repositoryRoot sets =
     (let kPath = path_append repositoryRoot ''third_party/artifacts.lock.json''
      in rbind (loadObject site kPath) (\<lambda>root.
         case dom_array_at root ''delegatedFetches'' of
           Inl _ \<Rightarrow> fail InvalidJson kPath ''delegated fetch list is invalid''
         | Inr records \<Rightarrow>
             rbind (rfold (delegatedFetch sets kPath)
                 \<lparr>dl_artifactIds = au_artifactIds sets, dl_lockedActions = [], dl_lockedImages = []\<rparr> records) (\<lambda>st.
             rbind (collectPinnedActions site repositoryRoot) (\<lambda>pinnedActions.
             if set pinnedActions \<noteq> set (dl_lockedActions st)
             then fail VerificationFailed kPath ''the pinned actions and the locked action records are not the same set''
             else
               rbind (collectPulledImages site repositoryRoot) (\<lambda>pulledImages.
               if set pulledImages \<noteq> set (dl_lockedImages st)
               then fail VerificationFailed kPath
                 ''the pulled base images and the locked image records are not the same set''
               else Inr (sets\<lparr>au_artifactIds := dl_artifactIds st\<rparr>))))))"

section \<open>All of them\<close>

definition knownThirdParty :: "AuthoritySets \<Rightarrow> string \<Rightarrow> unit \<Rightarrow> string \<Rightarrow> Status" where
  "knownThirdParty sets toolId = (\<lambda>_ dependency.
     if lowercaseId dependency \<notin> set (au_catalogIds sets)
     then fail InvalidManifest toolId ''tool references an unknown third-party dependency'' else Inr ())"

definition knownManagedTool :: "AuthoritySets \<Rightarrow> string \<Rightarrow> unit \<Rightarrow> string \<Rightarrow> Status" where
  "knownManagedTool sets toolId = (\<lambda>_ dependency.
     if lowercaseId dependency \<notin> set (au_managedToolIds sets)
     then fail InvalidManifest toolId ''tool references an unknown managed tool'' else Inr ())"

definition checkToolDependencies :: "AuthoritySets \<Rightarrow> unit \<Rightarrow> ToolInfo \<Rightarrow> Status" where
  "checkToolDependencies sets = (\<lambda>_ tool.
     rbind (rfold (knownThirdParty sets (ti_id tool)) () (ti_thirdPartyDependencies tool)) (\<lambda>_.
     rfold (knownManagedTool sets (ti_id tool)) () (ti_managedToolDependencies tool)))"

definition readAuthoritySets :: "Site \<Rightarrow> string \<Rightarrow> AuthoritySets Result" where
  "readAuthoritySets site repositoryRoot =
     rbind (loadCatalog site repositoryRoot noAuthorities) (\<lambda>sets.
     rbind (loadLicenses site repositoryRoot sets) (\<lambda>sets.
     rbind (loadArtifacts site repositoryRoot sets) (\<lambda>sets.
     rbind (loadDelegatedFetches site repositoryRoot sets) (\<lambda>sets.
     loadToolchain site repositoryRoot sets))))"

definition validateDependencyAuthorities :: "Site \<Rightarrow> string \<Rightarrow> RepositorySnapshot \<Rightarrow> Status" where
  "validateDependencyAuthorities site repositoryRoot repository =
     rbind (readAuthoritySets site repositoryRoot) (\<lambda>sets.
       rfold (checkToolDependencies sets) () (sn_tools repository))"

section \<open>Folds that collect\<close>

lemma rfold_collects:
  assumes "rfold f s es = Inr t" and "K s" and "distinct (F s)"
    and step: "\<And>s e s'. K s \<Longrightarrow> f s e = Inr s' \<Longrightarrow> K s' \<and> P e \<and> F s' = F s @ [g e] \<and> g e \<notin> set (F s)"
  shows "K t" and "list_all P es" and "F t = F s @ map g es" and "distinct (F t)"
proof -
  have "K t \<and> list_all P es \<and> F t = F s @ map g es \<and> distinct (F t)"
    using assms(1-3)
  proof (induction es arbitrary: s)
    case (Cons e es)
    then obtain s' where one: "f s e = Inr s'" and rest: "rfold f s' es = Inr t" by (auto simp: rbind_Inr_iff)
    have stepped: "K s'" "P e" "F s' = F s @ [g e]" "g e \<notin> set (F s)"
      using step [OF Cons.prems(2) one] by simp_all
    have "K t \<and> list_all P es \<and> F t = F s' @ map g es \<and> distinct (F t)"
      using stepped Cons.prems(3) by (intro Cons.IH [OF rest]) simp_all
    then show ?case using stepped by (intro conjI) (blast, simp, simp, blast)
  qed simp
  then show "K t" "list_all P es" "F t = F s @ map g es" "distinct (F t)" by blast+
qed

lemma rfold_all:
  assumes "rfold f s es = Inr t" and "\<And>s e s'. f s e = Inr s' \<Longrightarrow> P e"
  shows "list_all P es"
  using assms(1) by (induction es arbitrary: s) (auto simp: rbind_Inr_iff intro: assms(2))

section \<open>What the accepted authorities say\<close>

text \<open>The entries of an array of a maintained document, and what a member of each of them says.\<close>

definition listed :: "Site \<Rightarrow> string \<Rightarrow> string \<Rightarrow> string \<Rightarrow> dom_value list option" where
  "listed site repositoryRoot document name =
     (case loadObject site (path_append repositoryRoot document) of
        Inl _ \<Rightarrow> None
      | Inr root \<Rightarrow> (case dom_array_at root name of Inl _ \<Rightarrow> None | Inr entries \<Rightarrow> Some entries))"

definition says :: "string \<Rightarrow> dom_value \<Rightarrow> string" where
  "says member entry =
     (case entry of DObject ms \<Rightarrow> (case map_of ms member of Some (DString t) \<Rightarrow> t | _ \<Rightarrow> []) | _ \<Rightarrow> [])"

definition names :: "string \<Rightarrow> dom_value \<Rightarrow> string" where
  "names member entry = lowercaseId (says member entry)"

definition covers :: "dom_value \<Rightarrow> string list" where
  "covers entry =
     (case entry of
        DObject ms \<Rightarrow>
          (case map_of ms ''catalogIds'' of
             Some (DArray ids) \<Rightarrow> map (\<lambda>v. case v of DString t \<Rightarrow> lowercaseId t | _ \<Rightarrow> []) ids
           | _ \<Rightarrow> [])
      | _ \<Rightarrow> [])"

definition locked_action :: "dom_value \<Rightarrow> string" where
  "locked_action entry = names ''reference'' entry @ ''@'' @ names ''pin'' entry"

lemma authorityField_ok: "authorityField ms field path = Inr t \<longleftrightarrow> map_of ms field = Some (DString t)"
  by (cases "dom_string_at ms field") (auto simp: authorityField_def simp flip: dom_at_iff(4))

lemma says_field: "map_of ms field = Some (DString t) \<Longrightarrow> says field (DObject ms) = t"
  by (simp add: says_def)

lemma insertUnique_ok: "insertUnique ids v path kind = Inr ids' \<longleftrightarrow> lowercaseId v \<notin> set ids \<and> ids' = ids @ [lowercaseId v]"
  by (auto simp: insertUnique_def)

lemma catalogEntry_ok:
  assumes "catalogEntry kPath sets e = Inr sets'"
  shows "au_catalogIds sets' = au_catalogIds sets @ [names ''id'' e] \<and> names ''id'' e \<notin> set (au_catalogIds sets) \<and>
    au_artifactIds sets' = au_artifactIds sets \<and> au_managedToolIds sets' = au_managedToolIds sets \<and>
    au_licenseIds sets' = au_licenseIds sets"
  using assms
  by (auto simp: catalogEntry_def rbind_Inr_iff authorityField_ok insertUnique_ok dom_get_iff names_def says_field
      split: sum.splits)

lemma loadCatalog_ok:
  assumes "loadCatalog site repositoryRoot noAuthorities = Inr sets"
  shows "\<exists>entries. listed site repositoryRoot ''third_party/catalog.json'' ''entries'' = Some entries \<and>
    au_catalogIds sets = map (names ''id'') entries \<and> distinct (au_catalogIds sets) \<and> length (au_catalogIds sets) = 21 \<and>
    au_artifactIds sets = [] \<and> au_managedToolIds sets = [] \<and> au_licenseIds sets = []"
proof -
  let ?path = "path_append repositoryRoot ''third_party/catalog.json''"
  let ?K = "\<lambda>s. au_artifactIds s = [] \<and> au_managedToolIds s = [] \<and> au_licenseIds s = []"
  from assms obtain root entries where read: "loadObject site ?path = Inr root" "dom_array_at root ''entries'' = Inr entries"
    "rfold (catalogEntry ?path) noAuthorities entries = Inr sets" "length (au_catalogIds sets) = 21"
    by (auto simp: loadCatalog_def Let_def accepts)
  have step: "?K s' \<and> True \<and> au_catalogIds s' = au_catalogIds s @ [names ''id'' e] \<and> names ''id'' e \<notin> set (au_catalogIds s)"
    if "?K s" "catalogEntry ?path s e = Inr s'" for s e s'
    using that(1) catalogEntry_ok [OF that(2)] by metis
  have start: "?K noAuthorities" "distinct (au_catalogIds noAuthorities)" by (simp_all add: noAuthorities_def)
  note collected = rfold_collects [where K = ?K and F = au_catalogIds and P = "\<lambda>_. True" and g = "names ''id''", OF read(3) start step]
  have "listed site repositoryRoot ''third_party/catalog.json'' ''entries'' = Some entries"
    using read(1,2) by (simp add: listed_def)
  moreover have "au_catalogIds sets = map (names ''id'') entries" using collected(3) by (simp add: noAuthorities_def)
  ultimately show ?thesis using collected(1,4) read(4) by blast
qed

lemma coverCatalog_ok:
  "coverCatalog sets entryId declared covered v = Inr covered' \<Longrightarrow>
     \<exists>t. v = DString t \<and> covered' = covered @ [lowercaseId t] \<and> lowercaseId t \<notin> set covered"
  by (auto simp: coverCatalog_def dom_get_iff split: sum.splits option.splits if_splits)

lemma coverCatalogs_ok:
  "rfold (coverCatalog sets entryId declared) covered vs = Inr covered' \<Longrightarrow> distinct covered \<Longrightarrow>
     distinct covered' \<and> covered' = covered @ map (\<lambda>v. case v of DString t \<Rightarrow> lowercaseId t | _ \<Rightarrow> []) vs"
proof (induction vs arbitrary: covered)
  case (Cons v vs)
  then obtain middle where one: "coverCatalog sets entryId declared covered v = Inr middle"
    and rest: "rfold (coverCatalog sets entryId declared) middle vs = Inr covered'"
    by (auto simp: rbind_Inr_iff)
  from coverCatalog_ok [OF one] obtain t where v: "v = DString t" "middle = covered @ [lowercaseId t]"
    and "lowercaseId t \<notin> set covered"
    by blast
  then have "distinct middle" using Cons.prems(2) by simp
  from Cons.IH [OF rest this] have "distinct covered'"
    "covered' = middle @ map (\<lambda>v. case v of DString t \<Rightarrow> lowercaseId t | _ \<Rightarrow> []) vs" by blast+
  then show ?case using v by (intro conjI) (assumption, simp)
qed simp

lemma licenseEntry_ok:
  assumes "licenseEntry kPath contents (sets, covered) e = Inr (sets', covered')" and "distinct covered"
  shows "au_licenseIds sets' = au_licenseIds sets @ [names ''id'' e] \<and> names ''id'' e \<notin> set (au_licenseIds sets) \<and>
    au_catalogIds sets' = au_catalogIds sets \<and> au_artifactIds sets' = au_artifactIds sets \<and>
    au_managedToolIds sets' = au_managedToolIds sets \<and> distinct covered' \<and> covered' = covered @ covers e"
proof -
  from assms(1) obtain ms entryId declared catalogIds ids where e: "e = DObject ms" "map_of ms ''id'' = Some (DString entryId)"
    "map_of ms ''catalogIds'' = Some (DArray catalogIds)" "insertUnique (au_licenseIds sets) entryId kPath ''license'' = Inr ids"
    "sets' = sets\<lparr>au_licenseIds := ids\<rparr>" "rfold (coverCatalog sets entryId declared) covered catalogIds = Inr covered'"
    by (auto simp: licenseEntry_def accepts authorityField_ok dom_get_iff dom_at_iff)
  have ids: "au_licenseIds sets' = au_licenseIds sets @ [names ''id'' e]" "names ''id'' e \<notin> set (au_licenseIds sets)"
    using e by (simp_all add: insertUnique_ok names_def says_field)
  note covering = coverCatalogs_ok [OF e(6) assms(2)]
  have "distinct covered'" using covering by blast
  moreover have "covered' = covered @ covers e" using covering e(1,3) by (simp add: covers_def)
  ultimately show ?thesis using ids e(5) by (intro conjI) simp_all
qed

lemma licenseEntries_ok:
  "rfold (licenseEntry kPath contents) (sets, covered) es = Inr (sets', covered') \<Longrightarrow> distinct covered \<Longrightarrow>
     distinct (au_licenseIds sets) \<Longrightarrow>
     au_licenseIds sets' = au_licenseIds sets @ map (names ''id'') es \<and> distinct (au_licenseIds sets') \<and>
     au_catalogIds sets' = au_catalogIds sets \<and> au_artifactIds sets' = au_artifactIds sets \<and>
     au_managedToolIds sets' = au_managedToolIds sets \<and> distinct covered' \<and> covered' = covered @ concat (map covers es)"
proof (induction es arbitrary: sets covered)
  case (Cons e es)
  then obtain s c where one: "licenseEntry kPath contents (sets, covered) e = Inr (s, c)"
    and rest: "rfold (licenseEntry kPath contents) (s, c) es = Inr (sets', covered')"
    by (auto simp: rbind_Inr_iff)
  note entry = licenseEntry_ok [OF one Cons.prems(2)]
  have "distinct c" using entry by blast
  moreover have "distinct (au_licenseIds s)" using entry Cons.prems(3) by simp
  ultimately have fresh: "distinct c" "distinct (au_licenseIds s)" by blast+
  have "au_licenseIds sets' = au_licenseIds s @ map (names ''id'') es \<and> distinct (au_licenseIds sets') \<and>
     au_catalogIds sets' = au_catalogIds s \<and> au_artifactIds sets' = au_artifactIds s \<and>
     au_managedToolIds sets' = au_managedToolIds s \<and> distinct covered' \<and> covered' = c @ concat (map covers es)"
    by (rule Cons.IH [OF rest fresh])
  with entry show ?case by (intro conjI) (simp, blast, simp, simp, simp, blast, simp)
qed simp

lemma loadLicenses_ok:
  assumes "loadLicenses site repositoryRoot sets = Inr sets'" and "au_licenseIds sets = []"
  shows "\<exists>entries. listed site repositoryRoot ''third_party/licenses/index.json'' ''entries'' = Some entries \<and>
    au_licenseIds sets' = map (names ''id'') entries \<and> distinct (au_licenseIds sets') \<and>
    distinct (concat (map covers entries)) \<and> set (concat (map covers entries)) = set (au_catalogIds sets) \<and>
    au_catalogIds sets' = au_catalogIds sets \<and> au_artifactIds sets' = au_artifactIds sets \<and>
    au_managedToolIds sets' = au_managedToolIds sets"
proof -
  let ?path = "path_append repositoryRoot ''third_party/licenses/index.json''"
  from assms(1) obtain root contents entries covered where read: "loadObject site ?path = Inr root"
    "dom_array_at root ''entries'' = Inr entries"
    "rfold (licenseEntry ?path contents) (sets, []) entries = Inr (sets', covered)"
    "set covered = set (au_catalogIds sets')"
    by (auto simp: loadLicenses_def Let_def accepts)
  from licenseEntries_ok [OF read(3)] assms(2) read(1,2,4) show ?thesis by (auto simp: listed_def)
qed

lemma artifactEntry_ok:
  assumes "artifactEntry kPath sets e = Inr sets'"
  shows "au_artifactIds sets' = au_artifactIds sets @ [names ''id'' e] \<and> names ''id'' e \<notin> set (au_artifactIds sets) \<and>
    au_catalogIds sets' = au_catalogIds sets \<and> au_licenseIds sets' = au_licenseIds sets \<and>
    au_managedToolIds sets' = au_managedToolIds sets \<and>
    names ''catalogId'' e \<in> set (au_catalogIds sets) \<and> names ''licenseReference'' e \<in> set (au_licenseIds sets)"
  using assms
  by (auto simp: artifactEntry_def rbind_Inr_iff authorityField_ok insertUnique_ok dom_get_iff names_def says_field
      split: sum.splits if_splits)

lemma loadArtifacts_ok:
  assumes "loadArtifacts site repositoryRoot sets = Inr sets'" and "au_artifactIds sets = []" and "au_managedToolIds sets = []"
  shows "\<exists>artifacts. listed site repositoryRoot ''third_party/artifacts.lock.json'' ''artifacts'' = Some artifacts \<and>
    au_artifactIds sets' = map (names ''id'') artifacts \<and> distinct (au_artifactIds sets') \<and> length (au_artifactIds sets') = 50 \<and>
    au_catalogIds sets' = au_catalogIds sets \<and> au_licenseIds sets' = au_licenseIds sets \<and> au_managedToolIds sets' = [] \<and>
    list_all (\<lambda>e. names ''catalogId'' e \<in> set (au_catalogIds sets) \<and>
      names ''licenseReference'' e \<in> set (au_licenseIds sets)) artifacts"
proof -
  let ?path = "path_append repositoryRoot ''third_party/artifacts.lock.json''"
  let ?K = "\<lambda>s. au_catalogIds s = au_catalogIds sets \<and> au_licenseIds s = au_licenseIds sets \<and> au_managedToolIds s = []"
  let ?P = "\<lambda>e. names ''catalogId'' e \<in> set (au_catalogIds sets) \<and> names ''licenseReference'' e \<in> set (au_licenseIds sets)"
  from assms(1) obtain root artifacts where read: "loadObject site ?path = Inr root"
    "dom_array_at root ''artifacts'' = Inr artifacts" "rfold (artifactEntry ?path) sets artifacts = Inr sets'"
    "length (au_artifactIds sets') = 50"
    by (auto simp: loadArtifacts_def Let_def accepts)
  have step: "?K s' \<and> ?P e \<and> au_artifactIds s' = au_artifactIds s @ [names ''id'' e] \<and> names ''id'' e \<notin> set (au_artifactIds s)"
    if "?K s" "artifactEntry ?path s e = Inr s'" for s e s'
    using that(1) artifactEntry_ok [OF that(2)] by metis
  have start: "?K sets" "distinct (au_artifactIds sets)" using assms(2,3) by simp_all
  note collected = rfold_collects [where K = ?K and F = au_artifactIds and P = ?P and g = "names ''id''", OF read(3) start step]
  have "listed site repositoryRoot ''third_party/artifacts.lock.json'' ''artifacts'' = Some artifacts"
    using read(1,2) by (simp add: listed_def)
  moreover have "au_artifactIds sets' = map (names ''id'') artifacts" using collected(3) assms(2) by simp
  ultimately show ?thesis using collected(1,2,4) read(4) by blast
qed

lemma delegatedFetch_ok:
  assumes "delegatedFetch sets kPath st e = Inr st'"
  shows "dl_artifactIds st' = dl_artifactIds st @ [names ''id'' e] \<and> names ''id'' e \<notin> set (dl_artifactIds st) \<and>
    names ''catalogId'' e \<in> set (au_catalogIds sets) \<and> names ''licenseReference'' e \<in> set (au_licenseIds sets) \<and>
    dl_lockedActions st' = dl_lockedActions st @ (if says ''kind'' e = ''github_action'' then [locked_action e] else []) \<and>
    dl_lockedImages st' = dl_lockedImages st @ (if says ''kind'' e = ''github_action'' then [] else [names ''pin'' e])"
proof -
  from assms obtain ms where "e = DObject ms" by (auto simp: delegatedFetch_def accepts dom_get_iff)
  with assms show ?thesis
    by (auto simp: delegatedFetch_def accepts authorityField_ok insertUnique_ok names_def says_field locked_action_def)
qed

lemma delegatedFetches_locked:
  "rfold (delegatedFetch sets kPath) st es = Inr st' \<Longrightarrow>
     dl_lockedActions st' = dl_lockedActions st @ map locked_action (filter (\<lambda>e. says ''kind'' e = ''github_action'') es) \<and>
     dl_lockedImages st' = dl_lockedImages st @ map (names ''pin'') (filter (\<lambda>e. says ''kind'' e \<noteq> ''github_action'') es)"
proof (induction es arbitrary: st)
  case (Cons e es)
  then obtain s where one: "delegatedFetch sets kPath st e = Inr s" and rest: "rfold (delegatedFetch sets kPath) s es = Inr st'"
    by (auto simp: rbind_Inr_iff)
  from Cons.IH [OF rest] delegatedFetch_ok [OF one] show ?case by simp
qed simp

lemma loadDelegatedFetches_ok:
  assumes "loadDelegatedFetches site repositoryRoot sets = Inr sets'" and "distinct (au_artifactIds sets)"
  shows "\<exists>fetches pinned pulled.
    listed site repositoryRoot ''third_party/artifacts.lock.json'' ''delegatedFetches'' = Some fetches \<and>
    au_artifactIds sets' = au_artifactIds sets @ map (names ''id'') fetches \<and> distinct (au_artifactIds sets') \<and>
    au_catalogIds sets' = au_catalogIds sets \<and> au_managedToolIds sets' = au_managedToolIds sets \<and>
    list_all (\<lambda>e. names ''catalogId'' e \<in> set (au_catalogIds sets) \<and>
      names ''licenseReference'' e \<in> set (au_licenseIds sets)) fetches \<and>
    collectPinnedActions site repositoryRoot = Inr pinned \<and>
    set pinned = locked_action ` {e \<in> set fetches. says ''kind'' e = ''github_action''} \<and>
    collectPulledImages site repositoryRoot = Inr pulled \<and>
    set pulled = names ''pin'' ` {e \<in> set fetches. says ''kind'' e \<noteq> ''github_action''}"
proof -
  let ?path = "path_append repositoryRoot ''third_party/artifacts.lock.json''"
  let ?st = "\<lparr>dl_artifactIds = au_artifactIds sets, dl_lockedActions = [], dl_lockedImages = []\<rparr>"
  let ?P = "\<lambda>e. names ''catalogId'' e \<in> set (au_catalogIds sets) \<and> names ''licenseReference'' e \<in> set (au_licenseIds sets)"
  from assms(1) obtain root fetches st pinned pulled where read: "loadObject site ?path = Inr root"
    "dom_array_at root ''delegatedFetches'' = Inr fetches" "rfold (delegatedFetch sets ?path) ?st fetches = Inr st"
    and real: "collectPinnedActions site repositoryRoot = Inr pinned" "set pinned = set (dl_lockedActions st)"
      "collectPulledImages site repositoryRoot = Inr pulled" "set pulled = set (dl_lockedImages st)"
    and sets': "sets' = sets\<lparr>au_artifactIds := dl_artifactIds st\<rparr>"
    by (auto simp: loadDelegatedFetches_def Let_def accepts)
  have step: "True \<and> ?P e \<and> dl_artifactIds s' = dl_artifactIds s @ [names ''id'' e] \<and> names ''id'' e \<notin> set (dl_artifactIds s)"
    if "delegatedFetch sets ?path s e = Inr s'" for s e s'
    using delegatedFetch_ok [OF that] by metis
  have start: "True" "distinct (dl_artifactIds ?st)" using assms(2) by simp_all
  note collected = rfold_collects [where K = "\<lambda>_. True" and F = dl_artifactIds and P = ?P and g = "names ''id''",
      OF read(3) start step]
  have "listed site repositoryRoot ''third_party/artifacts.lock.json'' ''delegatedFetches'' = Some fetches"
    using read(1,2) by (simp add: listed_def)
  moreover have "au_artifactIds sets' = au_artifactIds sets @ map (names ''id'') fetches" "distinct (au_artifactIds sets')"
    using collected(3,4) sets' by simp_all
  moreover have "set (dl_lockedActions st) = locked_action ` {e \<in> set fetches. says ''kind'' e = ''github_action''}"
    "set (dl_lockedImages st) = names ''pin'' ` {e \<in> set fetches. says ''kind'' e \<noteq> ''github_action''}"
    using delegatedFetches_locked [OF read(3)] by auto
  ultimately show ?thesis using collected(2) real sets' by auto
qed

lemma managedTool_ok:
  assumes "managedTool kPath sets e = Inr sets'"
  shows "au_managedToolIds sets' = au_managedToolIds sets @ [names ''id'' e] \<and>
    names ''id'' e \<notin> set (au_managedToolIds sets) \<and> au_catalogIds sets' = au_catalogIds sets \<and>
    names ''id'' e \<in> set (au_catalogIds sets)"
proof -
  from assms obtain ms where "e = DObject ms" by (auto simp: managedTool_def accepts dom_get_iff)
  with assms show ?thesis
    by (auto simp: managedTool_def accepts authorityField_ok insertUnique_ok names_def says_field)
qed

lemma loadToolchain_ok:
  assumes "loadToolchain site repositoryRoot sets = Inr sets'" and "au_managedToolIds sets = []"
  shows "\<exists>tools. listed site repositoryRoot ''third_party/toolchain.lock.json'' ''managedTools'' = Some tools \<and>
    au_managedToolIds sets' = map (names ''id'') tools \<and> distinct (au_managedToolIds sets') \<and>
    length (au_managedToolIds sets') = 11 \<and> au_catalogIds sets' = au_catalogIds sets \<and>
    list_all (\<lambda>e. names ''id'' e \<in> set (au_catalogIds sets)) tools"
proof -
  let ?path = "path_append repositoryRoot ''third_party/toolchain.lock.json''"
  let ?K = "\<lambda>s. au_catalogIds s = au_catalogIds sets" and ?P = "\<lambda>e. names ''id'' e \<in> set (au_catalogIds sets)"
  from assms(1) obtain root tools where read: "loadObject site ?path = Inr root"
    "dom_array_at root ''managedTools'' = Inr tools" "rfold (managedTool ?path) sets tools = Inr sets'"
    "length (au_managedToolIds sets') = 11"
    by (auto simp: loadToolchain_def Let_def accepts)
  have step: "?K s' \<and> ?P e \<and> au_managedToolIds s' = au_managedToolIds s @ [names ''id'' e] \<and>
      names ''id'' e \<notin> set (au_managedToolIds s)"
    if "?K s" "managedTool ?path s e = Inr s'" for s e s'
    using that(1) managedTool_ok [OF that(2)] by metis
  have start: "?K sets" "distinct (au_managedToolIds sets)" using assms(2) by simp_all
  note collected = rfold_collects [where K = ?K and F = au_managedToolIds and P = ?P and g = "names ''id''",
      OF read(3) start step]
  have "listed site repositoryRoot ''third_party/toolchain.lock.json'' ''managedTools'' = Some tools"
    using read(1,2) by (simp add: listed_def)
  moreover have "au_managedToolIds sets' = map (names ''id'') tools" using collected(3) assms(2) by simp
  ultimately show ?thesis using collected(1,2,4) read(4) by blast
qed

lemma checkToolDependencies_ok:
  "checkToolDependencies sets u tool = Inr () \<Longrightarrow>
     list_all (\<lambda>d. lowercaseId d \<in> set (au_catalogIds sets)) (ti_thirdPartyDependencies tool) \<and>
     list_all (\<lambda>d. lowercaseId d \<in> set (au_managedToolIds sets)) (ti_managedToolDependencies tool)"
  by (auto simp: checkToolDependencies_def accepts
      intro: rfold_all [where P = "\<lambda>d. lowercaseId d \<in> set (au_catalogIds sets)"]
        rfold_all [where P = "\<lambda>d. lowercaseId d \<in> set (au_managedToolIds sets)"]
      simp: knownThirdParty_def knownManagedTool_def split: if_splits)

text \<open>The dependencies of a repository are closed: everything that is named has its one record.\<close>

definition dependencies_closed :: "Site \<Rightarrow> string \<Rightarrow> ToolInfo list \<Rightarrow> bool" where
  "dependencies_closed site repositoryRoot tools \<longleftrightarrow>
     (\<exists>catalog licenses artifacts fetches managed.
        listed site repositoryRoot ''third_party/catalog.json'' ''entries'' = Some catalog \<and>
        listed site repositoryRoot ''third_party/licenses/index.json'' ''entries'' = Some licenses \<and>
        listed site repositoryRoot ''third_party/artifacts.lock.json'' ''artifacts'' = Some artifacts \<and>
        listed site repositoryRoot ''third_party/artifacts.lock.json'' ''delegatedFetches'' = Some fetches \<and>
        listed site repositoryRoot ''third_party/toolchain.lock.json'' ''managedTools'' = Some managed \<and>
        length catalog = 21 \<and> length artifacts = 50 \<and> length managed = 11 \<and>
        distinct (map (names ''id'') catalog) \<and> distinct (map (names ''id'') licenses) \<and>
        distinct (map (names ''id'') (artifacts @ fetches)) \<and> distinct (map (names ''id'') managed) \<and>
        distinct (concat (map covers licenses)) \<and>
        set (concat (map covers licenses)) = names ''id'' ` set catalog \<and>
        names ''catalogId'' ` set (artifacts @ fetches) \<subseteq> names ''id'' ` set catalog \<and>
        names ''licenseReference'' ` set (artifacts @ fetches) \<subseteq> names ''id'' ` set licenses \<and>
        names ''id'' ` set managed \<subseteq> names ''id'' ` set catalog \<and>
        list_all (\<lambda>tool. lowercaseId ` set (ti_thirdPartyDependencies tool) \<subseteq> names ''id'' ` set catalog \<and>
          lowercaseId ` set (ti_managedToolDependencies tool) \<subseteq> names ''id'' ` set managed) tools \<and>
        (\<exists>pinned pulled. collectPinnedActions site repositoryRoot = Inr pinned \<and>
           set pinned = locked_action ` {e \<in> set fetches. says ''kind'' e = ''github_action''} \<and>
           collectPulledImages site repositoryRoot = Inr pulled \<and>
           set pulled = names ''pin'' ` {e \<in> set fetches. says ''kind'' e \<noteq> ''github_action''}))"

lemma validateDependencyAuthorities_closed:
  assumes "validateDependencyAuthorities site repositoryRoot repository = Inr ()"
  shows "dependencies_closed site repositoryRoot (sn_tools repository)"
proof -
  from assms obtain s1 s2 s3 s4 s5 where loaded: "loadCatalog site repositoryRoot noAuthorities = Inr s1"
    "loadLicenses site repositoryRoot s1 = Inr s2" "loadArtifacts site repositoryRoot s2 = Inr s3"
    "loadDelegatedFetches site repositoryRoot s3 = Inr s4" "loadToolchain site repositoryRoot s4 = Inr s5"
    and checked: "rfold (checkToolDependencies s5) () (sn_tools repository) = Inr ()"
    by (auto simp: validateDependencyAuthorities_def readAuthoritySets_def accepts)
  from loadCatalog_ok [OF loaded(1)] obtain catalog where catalog:
    "listed site repositoryRoot ''third_party/catalog.json'' ''entries'' = Some catalog"
    "au_catalogIds s1 = map (names ''id'') catalog" "distinct (au_catalogIds s1)" "length (au_catalogIds s1) = 21"
    "au_artifactIds s1 = []" "au_managedToolIds s1 = []" "au_licenseIds s1 = []" by blast
  from loadLicenses_ok [OF loaded(2) catalog(7)] obtain licenses where licenses:
    "listed site repositoryRoot ''third_party/licenses/index.json'' ''entries'' = Some licenses"
    "au_licenseIds s2 = map (names ''id'') licenses" "distinct (au_licenseIds s2)"
    "distinct (concat (map covers licenses))" "set (concat (map covers licenses)) = set (au_catalogIds s1)"
    "au_catalogIds s2 = au_catalogIds s1" "au_artifactIds s2 = au_artifactIds s1" "au_managedToolIds s2 = au_managedToolIds s1"
    by blast
  have none: "au_artifactIds s2 = []" "au_managedToolIds s2 = []" using catalog licenses by simp_all
  from loadArtifacts_ok [OF loaded(3) none] obtain artifacts where artifacts:
    "listed site repositoryRoot ''third_party/artifacts.lock.json'' ''artifacts'' = Some artifacts"
    "au_artifactIds s3 = map (names ''id'') artifacts" "distinct (au_artifactIds s3)" "length (au_artifactIds s3) = 50"
    "au_catalogIds s3 = au_catalogIds s2" "au_licenseIds s3 = au_licenseIds s2" "au_managedToolIds s3 = []"
    "list_all (\<lambda>e. names ''catalogId'' e \<in> set (au_catalogIds s2) \<and> names ''licenseReference'' e \<in> set (au_licenseIds s2)) artifacts"
    by blast
  from loadDelegatedFetches_ok [OF loaded(4) artifacts(3)] obtain fetches pinned pulled where fetches:
    "listed site repositoryRoot ''third_party/artifacts.lock.json'' ''delegatedFetches'' = Some fetches"
    "au_artifactIds s4 = au_artifactIds s3 @ map (names ''id'') fetches" "distinct (au_artifactIds s4)"
    "au_catalogIds s4 = au_catalogIds s3" "au_managedToolIds s4 = au_managedToolIds s3"
    "list_all (\<lambda>e. names ''catalogId'' e \<in> set (au_catalogIds s3) \<and> names ''licenseReference'' e \<in> set (au_licenseIds s3)) fetches"
    and real: "collectPinnedActions site repositoryRoot = Inr pinned"
    "set pinned = locked_action ` {e \<in> set fetches. says ''kind'' e = ''github_action''}"
    "collectPulledImages site repositoryRoot = Inr pulled"
    "set pulled = names ''pin'' ` {e \<in> set fetches. says ''kind'' e \<noteq> ''github_action''}"
    by blast
  have "au_managedToolIds s4 = []" using fetches(5) artifacts(7) by simp
  from loadToolchain_ok [OF loaded(5) this] obtain managed where managed:
    "listed site repositoryRoot ''third_party/toolchain.lock.json'' ''managedTools'' = Some managed"
    "au_managedToolIds s5 = map (names ''id'') managed" "distinct (au_managedToolIds s5)" "length (au_managedToolIds s5) = 11"
    "au_catalogIds s5 = au_catalogIds s4" "list_all (\<lambda>e. names ''id'' e \<in> set (au_catalogIds s4)) managed"
    by blast
  have C: "set (au_catalogIds s1) = names ''id'' ` set catalog" and L: "set (au_licenseIds s2) = names ''id'' ` set licenses"
    and M: "set (au_managedToolIds s5) = names ''id'' ` set managed"
    using catalog(2) licenses(2) managed(2) by simp_all
  have same: "au_catalogIds s5 = au_catalogIds s1" "au_catalogIds s4 = au_catalogIds s1" "au_catalogIds s3 = au_catalogIds s1"
    using licenses(6) artifacts(5) fetches(4) managed(5) by simp_all
  have "list_all (\<lambda>tool. list_all (\<lambda>d. lowercaseId d \<in> set (au_catalogIds s5)) (ti_thirdPartyDependencies tool) \<and>
      list_all (\<lambda>d. lowercaseId d \<in> set (au_managedToolIds s5)) (ti_managedToolDependencies tool)) (sn_tools repository)"
    using checkToolDependencies_ok by (intro rfold_all [OF checked]) simp
  then have tools: "list_all (\<lambda>tool. lowercaseId ` set (ti_thirdPartyDependencies tool) \<subseteq> names ''id'' ` set catalog \<and>
      lowercaseId ` set (ti_managedToolDependencies tool) \<subseteq> names ''id'' ` set managed) (sn_tools repository)"
    unfolding same C M by (auto simp: list_all_iff)
  have refs: "names ''catalogId'' ` set (artifacts @ fetches) \<subseteq> names ''id'' ` set catalog"
    "names ''licenseReference'' ` set (artifacts @ fetches) \<subseteq> names ''id'' ` set licenses"
    "names ''id'' ` set managed \<subseteq> names ''id'' ` set catalog"
    using artifacts(8) fetches(6) managed(6) unfolding artifacts(6) licenses(6) same C L by (auto simp: list_all_iff)
  have "length catalog = 21" "length artifacts = 50" "length managed = 11"
    using catalog(2,4) artifacts(2,4) managed(2,4) by (metis length_map)+
  moreover have "distinct (map (names ''id'') catalog)" "distinct (map (names ''id'') licenses)"
    "distinct (map (names ''id'') (artifacts @ fetches))" "distinct (map (names ''id'') managed)"
    using catalog(2,3) licenses(2,3) artifacts(2) fetches(2,3) managed(2,3) by simp_all
  ultimately show ?thesis
    unfolding dependencies_closed_def
    using catalog(1) licenses(1,4,5) artifacts(1) fetches(1) managed(1) refs tools real unfolding C by blast
qed

end
