(* ===== verification/Evidence_Metrics.thy ===== *)
theory Evidence_Metrics
  imports Evidence_Descriptor "HOL-Library.Signed_Division"
begin

text \<open>
  \<open>tools/rf_evidence/src/metric_registry.{h,cpp}\<close>: the declared meaning of the metrics and the
  exact movement of integers between decimal scales.  \<open>/\<close> and \<open>%\<close> on \<open>std::int64_t\<close> truncate;
  they are \<open>sdiv\<close> and \<open>smod\<close>.
\<close>

section \<open>Required members\<close>

definition kMaximumRegisteredMetrics :: nat where "kMaximumRegisteredMetrics = 1024"
definition kMaximumMetricLabels :: nat where "kMaximumMetricLabels = 64"
definition kMinimumScaleExponent :: int where "kMinimumScaleExponent = -18"
definition kMaximumScaleExponent :: int where "kMaximumScaleExponent = 18"
definition kMaximumSafeInteger :: int where "kMaximumSafeInteger = 9007199254740991"

definition invalid :: "string \<Rightarrow> 'a RecordResult" where
  "invalid detail = reject RecSchemaInvalid detail"
definition exceeded :: "string \<Rightarrow> 'a RecordResult" where
  "exceeded detail = reject RecLimitExceeded detail"

lemma invalid_simps [simp]: "invalid d \<noteq> Inr x" "Inr x \<noteq> invalid d" "rbind (invalid d) f = invalid d"
  by (simp_all add: invalid_def)

lemma exceeded_simps [simp]: "exceeded d \<noteq> Inr x" "Inr x \<noteq> exceeded d" "rbind (exceeded d) f = exceeded d"
  by (simp_all add: exceeded_def)

definition readRequiredText :: "CanonicalValue \<Rightarrow> bytes \<Rightarrow> bytes RecordResult" where
  "readRequiredText v name =
     (case find_member v name of
        None \<Rightarrow> invalid (''record carries no string member named '' @ name)
      | Some kMember \<Rightarrow>
          if value_kind kMember \<noteq> KString then invalid (''record carries no string member named '' @ name)
          else Inr (value_text kMember))"

definition readRequiredInteger :: "CanonicalValue \<Rightarrow> bytes \<Rightarrow> int RecordResult" where
  "readRequiredInteger v name =
     (case find_member v name of
        None \<Rightarrow> invalid (''record carries no integer member named '' @ name)
      | Some kMember \<Rightarrow>
          if value_kind kMember \<noteq> KInteger then invalid (''record carries no integer member named '' @ name)
          else if kMaximumSafeInteger < value_integer kMember \<or> value_integer kMember < - kMaximumSafeInteger
          then exceeded (name @ '' lies outside the safe integer range'')
          else Inr (value_integer kMember))"

section \<open>Metric entries\<close>

datatype MetricStability = Stable | Diagnostic
datatype MetricPolarity = LowerIsBetter | HigherIsBetter
datatype RescaleDirection = BoundToObservation | ObservationToBound
datatype RescaleRounding = RejectInexact | TowardNegativeInfinity | TowardPositiveInfinity

record RescalingRule =
  r_direction :: RescaleDirection
  r_rounding :: RescaleRounding

record MetricEntry =
  m_metricId :: bytes
  m_metricGeneration :: int
  m_stability :: MetricStability
  m_owner :: bytes
  m_scope :: bytes
  m_unit :: bytes
  m_statistic :: bytes
  m_budgetClass :: bytes
  m_queryId :: bytes
  m_scaleExponent :: int
  m_polarity :: MetricPolarity
  m_samplingKind :: bytes
  m_blockLength :: int
  m_rescaling :: RescalingRule
  m_labels :: "bytes list"

record MetricRegistry =
  mr_registryGeneration :: int
  mr_metrics :: "MetricEntry list"

definition readStability :: "CanonicalValue \<Rightarrow> MetricStability RecordResult" where
  "readStability entry = rbind (readRequiredText entry ''stability'') (\<lambda>s.
     if s = ''stable'' then Inr Stable
     else if s = ''diagnostic'' then Inr Diagnostic
     else invalid (''metric declares an unknown stability: '' @ s))"

definition readPolarity :: "CanonicalValue \<Rightarrow> MetricPolarity RecordResult" where
  "readPolarity entry = rbind (readRequiredText entry ''polarity'') (\<lambda>s.
     if s = ''lower_is_better'' then Inr LowerIsBetter
     else if s = ''higher_is_better'' then Inr HigherIsBetter
     else invalid (''metric declares an unknown polarity: '' @ s))"

definition readRescaling :: "CanonicalValue \<Rightarrow> RescalingRule RecordResult" where
  "readRescaling entry =
     (case find_member entry ''rescaling'' of
        None \<Rightarrow> invalid ''metric declares no rescaling rule''
      | Some kRescaling \<Rightarrow>
          if value_kind kRescaling \<noteq> KObject then invalid ''metric declares no rescaling rule''
          else rbind (readRequiredText kRescaling ''direction'') (\<lambda>direction.
          rbind (readRequiredText kRescaling ''rounding'') (\<lambda>rounding.
          rbind (if direction = ''bound_to_observation'' then Inr BoundToObservation
                 else if direction = ''observation_to_bound'' then Inr ObservationToBound
                 else invalid (''metric declares an unknown rescaling direction: '' @ direction)) (\<lambda>d.
          rbind (if rounding = ''reject_inexact'' then Inr RejectInexact
                 else if rounding = ''toward_negative_infinity'' then Inr TowardNegativeInfinity
                 else if rounding = ''toward_positive_infinity'' then Inr TowardPositiveInfinity
                 else invalid (''metric declares an unknown rescaling rounding: '' @ rounding)) (\<lambda>r.
          Inr \<lparr>r_direction = d, r_rounding = r\<rparr>)))))"

definition readLabels :: "CanonicalValue \<Rightarrow> bytes list RecordResult" where
  "readLabels entry =
     (case find_member entry ''labels'' of
        None \<Rightarrow> Inr []
      | Some kLabels \<Rightarrow>
          if value_kind kLabels \<noteq> KArray then invalid ''metric labels must be an array''
          else if kMaximumMetricLabels < length (value_elements kLabels)
          then exceeded ''metric declares more than 64 labels''
          else rfold (\<lambda>labels label.
                 if value_kind label \<noteq> KString then invalid ''metric labels must be strings''
                 else if value_text label \<in> set labels
                 then invalid (''metric repeats the label '' @ value_text label)
                 else Inr (labels @ [value_text label])) [] (value_elements kLabels))"

definition checkScale :: "int \<Rightarrow> string \<Rightarrow> RecordStatus" where
  "checkScale scaleExponent subject =
     (if scaleExponent < kMinimumScaleExponent \<or> kMaximumScaleExponent < scaleExponent
      then exceeded (subject @ '' declares a scale exponent outside the accepted range'')
      else Inr ())"

definition readMetric :: "CanonicalValue \<Rightarrow> MetricEntry RecordResult" where
  "readMetric entry =
     (if value_kind entry \<noteq> KObject then invalid ''a registry entry is not an object''
      else
        rbind (readRequiredText entry ''metricId'') (\<lambda>metricId.
        rbind (readRequiredInteger entry ''metricGeneration'') (\<lambda>generation.
        rbind (if generation < 1 then invalid (''metric '' @ metricId @ '' declares a generation below one'')
               else Inr ()) (\<lambda>_.
        rbind (readStability entry) (\<lambda>stability.
        rbind (readRequiredText entry ''owner'') (\<lambda>owner.
        rbind (readRequiredText entry ''scope'') (\<lambda>scope.
        rbind (readRequiredText entry ''unit'') (\<lambda>unit'.
        rbind (readRequiredText entry ''statistic'') (\<lambda>statistic.
        rbind (readRequiredText entry ''budgetClass'') (\<lambda>budgetClass.
        rbind (readRequiredText entry ''queryId'') (\<lambda>queryId.
        rbind (readRequiredInteger entry ''scaleExponent'') (\<lambda>scaleExponent.
        rbind (checkScale scaleExponent (''metric '' @ metricId)) (\<lambda>_.
        rbind (readPolarity entry) (\<lambda>polarity.
        (case find_member entry ''sampling'' of
           None \<Rightarrow> invalid (''metric '' @ metricId @ '' declares no sampling'')
         | Some kSampling \<Rightarrow>
             if value_kind kSampling \<noteq> KObject
             then invalid (''metric '' @ metricId @ '' declares no sampling'')
             else
               rbind (readRequiredText kSampling ''kind'') (\<lambda>samplingKind.
               rbind (readRequiredInteger kSampling ''blockLength'') (\<lambda>blockLength.
               rbind (if blockLength < 1
                      then invalid (''metric '' @ metricId @ '' declares a block length below one'')
                      else Inr ()) (\<lambda>_.
               rbind (readRescaling entry) (\<lambda>rescaling.
               rbind (readLabels entry) (\<lambda>labels.
               Inr \<lparr>m_metricId = metricId, m_metricGeneration = generation, m_stability = stability,
                    m_owner = owner, m_scope = scope, m_unit = unit', m_statistic = statistic,
                    m_budgetClass = budgetClass, m_queryId = queryId, m_scaleExponent = scaleExponent,
                    m_polarity = polarity, m_samplingKind = samplingKind, m_blockLength = blockLength,
                    m_rescaling = rescaling, m_labels = labels\<rparr>))))))))))))))))))))"

section \<open>The registry\<close>

definition registry_find :: "MetricRegistry \<Rightarrow> bytes \<Rightarrow> int \<Rightarrow> MetricEntry option" where
  "registry_find registry metricId metricGeneration =
     List.find (\<lambda>entry. m_metricId entry = metricId \<and> m_metricGeneration entry = metricGeneration)
       (mr_metrics registry)"

definition kMetricRegistryMediaType :: bytes where
  "kMetricRegistryMediaType = ''application/vnd.rawframe.evidence.metric-registry.v1+json''"

definition readMetrics :: "CanonicalValue list \<Rightarrow> ((bytes \<times> int) list \<times> MetricEntry list) RecordResult" where
  "readMetrics elements =
     rfold (\<lambda>(seen, metrics) element.
        rbind (readMetric element) (\<lambda>metric.
          if (m_metricId metric, m_metricGeneration metric) \<in> set seen
          then invalid (''registry declares '' @ m_metricId metric @ '' twice at one generation'')
          else Inr (seen @ [(m_metricId metric, m_metricGeneration metric)], metrics @ [metric])))
      ([], []) elements"

definition parseMetricRegistry :: "Oracle \<Rightarrow> string \<Rightarrow> string \<Rightarrow> CanonicalValue \<Rightarrow> MetricRegistry RecordResult" where
  "parseMetricRegistry oracle root instancePath record =
     rbind (checkProducerAuthority record) (\<lambda>_.
     rbind (checkRecordKind record ''metric_registry'') (\<lambda>_.
     rbind (validateAgainstSchema oracle root ''schemas/metric-registry-v1.schema.json'' instancePath) (\<lambda>_.
     rbind (checkGenerationMatches record kMetricRegistryMediaType 1) (\<lambda>_.
     rbind (readRequiredInteger record ''registryGeneration'') (\<lambda>generation.
     if generation < 1 then invalid ''registry declares a generation below one''
     else (case find_member record ''metrics'' of
             None \<Rightarrow> invalid ''registry declares no metrics array''
           | Some kMetrics \<Rightarrow>
               if value_kind kMetrics \<noteq> KArray then invalid ''registry declares no metrics array''
               else if kMaximumRegisteredMetrics < length (value_elements kMetrics)
               then exceeded ''registry declares more than 1024 metrics''
               else rbind (readMetrics (value_elements kMetrics)) (\<lambda>(seen, metrics).
                 Inr \<lparr>mr_registryGeneration = generation, mr_metrics = metrics\<rparr>)))))))"

section \<open>Rescaling\<close>

fun rescaleWiden :: "nat \<Rightarrow> int \<Rightarrow> int RecordResult" where
  "rescaleWiden 0 result = Inr result"
| "rescaleWiden (Suc steps) result =
     (if kMaximumSafeInteger sdiv 10 < result \<or> result < - kMaximumSafeInteger sdiv 10
      then exceeded ''rescaling leaves the safe integer range''
      else rescaleWiden steps (result * 10))"

fun rescaleNarrow :: "RescaleRounding \<Rightarrow> nat \<Rightarrow> int \<Rightarrow> int RecordResult" where
  "rescaleNarrow rounding 0 result = Inr result"
| "rescaleNarrow rounding (Suc steps) result =
     (let kRemainder = result smod 10; quotient = result sdiv 10 in
      if kRemainder = 0 then rescaleNarrow rounding steps quotient
      else case rounding of
        RejectInexact \<Rightarrow> invalid ''rescaling is not exact and the metric refuses an inexact bound''
      | TowardNegativeInfinity \<Rightarrow>
          rescaleNarrow rounding steps (if kRemainder < 0 then quotient - 1 else quotient)
      | TowardPositiveInfinity \<Rightarrow>
          rescaleNarrow rounding steps (if 0 < kRemainder then quotient + 1 else quotient))"

text \<open>Both loops of the code run; at most one of them takes steps.\<close>

definition rescaleExact :: "int \<Rightarrow> int \<Rightarrow> int \<Rightarrow> RescaleRounding \<Rightarrow> int RecordResult" where
  "rescaleExact v fromExponent toExponent rounding =
     rbind (checkScale fromExponent ''a value'') (\<lambda>_.
     rbind (checkScale toExponent ''a value'') (\<lambda>_.
     if kMaximumSafeInteger < v \<or> v < - kMaximumSafeInteger
     then exceeded ''a value outside the safe integer range cannot be rescaled''
     else rbind (rescaleWiden (nat (fromExponent - toExponent)) v) (\<lambda>result.
       rescaleNarrow rounding (nat (toExponent - fromExponent)) result)))"

section \<open>Rescaling is exact, floor or ceiling of the scaled value\<close>

lemma sdiv_ten: "v sdiv 10 = (if v < 0 then - ((- v) div 10) else v div (10 :: int))"
  by (simp add: signed_divide_int_def sgn_if)

lemma smod_ten: "v smod 10 = (if v < 0 then - ((- v) mod 10) else v mod (10 :: int))"
  by (simp add: signed_modulo_int_def sgn_if)

lemma narrow_step:
  fixes v :: int
  shows "v smod 10 = 0 \<longleftrightarrow> 10 dvd v"
    and "v smod 10 = 0 \<Longrightarrow> v sdiv 10 = v div 10"
    and "(if v smod 10 < 0 then v sdiv 10 - 1 else v sdiv 10) = v div 10"
    and "(if 0 < v smod 10 then v sdiv 10 + 1 else v sdiv 10) = - ((- v) div 10)"
  unfolding sdiv_ten smod_ten by (simp_all split: if_splits) presburger+

definition scaled_down :: "RescaleRounding \<Rightarrow> nat \<Rightarrow> int \<Rightarrow> int option" where
  "scaled_down rounding k v =
     (case rounding of
        RejectInexact \<Rightarrow> (if 10 ^ k dvd v then Some (v div 10 ^ k) else None)
      | TowardNegativeInfinity \<Rightarrow> Some (v div 10 ^ k)
      | TowardPositiveInfinity \<Rightarrow> Some (- ((- v) div 10 ^ k)))"

lemma dvd_power_Suc: "(10 :: int) ^ Suc k dvd v \<longleftrightarrow> 10 dvd v \<and> 10 ^ k dvd v div 10"
proof (cases "10 dvd v")
  case True
  then obtain u where "v = 10 * u" ..
  then show ?thesis by simp
next
  case False
  then show ?thesis by (auto dest: dvd_mult_left)
qed

lemma div_power_Suc: "(v :: int) div 10 ^ Suc k = v div 10 div 10 ^ k"
  by (simp add: zdiv_zmult2_eq)

lemma rescaleNarrow_iff:
  "rescaleNarrow rounding k v = Inr w \<longleftrightarrow> scaled_down rounding k v = Some w"
proof (induction k arbitrary: v)
  case 0
  then show ?case by (auto simp: scaled_down_def split: RescaleRounding.splits)
next
  case (Suc k)
  show ?case
  proof (cases rounding)
    case RejectInexact
    then show ?thesis
      using Suc.IH [of "v div 10"] narrow_step(1,2) [of v]
      by (cases "10 dvd v") (simp_all add: scaled_down_def Let_def dvd_power_Suc div_power_Suc del: power_Suc)
  next
    case TowardNegativeInfinity
    have "rescaleNarrow rounding (Suc k) v = rescaleNarrow rounding k (v div 10)"
      using TowardNegativeInfinity narrow_step(1-3) [of v] by (simp add: Let_def)
    then show ?thesis
      using Suc.IH [of "v div 10"] TowardNegativeInfinity by (simp add: scaled_down_def div_power_Suc del: power_Suc)
  next
    case TowardPositiveInfinity
    have "rescaleNarrow rounding (Suc k) v = rescaleNarrow rounding k (- ((- v) div 10))"
      using TowardPositiveInfinity narrow_step(1,2,4) [of v] by (cases "10 dvd v") (simp_all add: Let_def)
    then show ?thesis
      using Suc.IH [of "- ((- v) div 10)"] TowardPositiveInfinity
      by (simp add: scaled_down_def div_power_Suc del: power_Suc)
  qed
qed

lemma widen_bound: "kMaximumSafeInteger sdiv 10 < v \<or> v < - kMaximumSafeInteger sdiv 10
  \<longleftrightarrow> kMaximumSafeInteger < \<bar>v * 10\<bar>"
  by (simp add: kMaximumSafeInteger_def sdiv_ten) arith

lemma rescaleWiden_iff:
  "\<bar>v\<bar> \<le> kMaximumSafeInteger \<Longrightarrow>
   rescaleWiden k v = Inr w \<longleftrightarrow> w = v * 10 ^ k \<and> \<bar>w\<bar> \<le> kMaximumSafeInteger"
proof (induction k arbitrary: v)
  case (Suc k)
  have grow: "\<bar>v * 10\<bar> \<le> \<bar>v * 10 * 10 ^ k\<bar>"
    using mult_left_mono [of 1 "10 ^ k" "\<bar>v * 10\<bar>"] by (simp add: abs_mult)
  have "rescaleWiden (Suc k) v = (if kMaximumSafeInteger < \<bar>v * 10\<bar>
      then exceeded ''rescaling leaves the safe integer range'' else rescaleWiden k (v * 10))"
    by (simp only: rescaleWiden.simps widen_bound)
  then show ?case
    using Suc.IH [of "v * 10"] grow by (auto simp: mult.assoc)
qed auto

text \<open>
  C18. Rescaling an integer answers exactly the mathematical result: to a finer scale the exact
  product or a refusal when it leaves the safe range; to a coarser scale the exact quotient,
  its floor or its ceiling by the declared rule, whatever the number of digits dropped.
\<close>

theorem rescale_is_exact:
  "rescaleExact v from_exp to_exp rounding = Inr w \<longleftrightarrow>
     from_exp \<in> {-18..18} \<and> to_exp \<in> {-18..18} \<and> \<bar>v\<bar> \<le> kMaximumSafeInteger
     \<and> (if to_exp \<le> from_exp
        then w = v * 10 ^ nat (from_exp - to_exp) \<and> \<bar>w\<bar> \<le> kMaximumSafeInteger
        else scaled_down rounding (nat (to_exp - from_exp)) v = Some w)"
proof -
  have scale: "checkScale e t = Inr () \<longleftrightarrow> e \<in> {-18..18}" for e t
    by (auto simp: checkScale_def kMinimumScaleExponent_def kMaximumScaleExponent_def)
  have "rescaleExact v from_exp to_exp rounding = Inr w \<longleftrightarrow>
     from_exp \<in> {-18..18} \<and> to_exp \<in> {-18..18} \<and> \<bar>v\<bar> \<le> kMaximumSafeInteger
     \<and> (\<exists>r. rescaleWiden (nat (from_exp - to_exp)) v = Inr r
          \<and> rescaleNarrow rounding (nat (to_exp - from_exp)) r = Inr w)"
    by (auto simp: rescaleExact_def rbind_Inr_iff scale abs_le_iff)
  then show ?thesis
    by (cases "to_exp \<le> from_exp") (auto simp: rescaleWiden_iff rescaleNarrow_iff)
qed

section \<open>Registries\<close>

lemma rfold_labels:
  "rfold (\<lambda>labels label.
     if value_kind label \<noteq> KString then invalid ''metric labels must be strings''
     else if value_text label \<in> set labels then invalid (''metric repeats the label '' @ value_text label)
     else Inr (labels @ [value_text label])) acc es = Inr labels \<Longrightarrow> distinct acc \<Longrightarrow>
   distinct labels \<and> length labels = length acc + length es"
  by (induction es arbitrary: acc) (auto split: if_splits)

lemma readLabels_ok: "readLabels entry = Inr labels \<Longrightarrow> distinct labels \<and> length labels \<le> 64"
  by (auto simp: readLabels_def kMaximumMetricLabels_def dest!: rfold_labels split: option.splits if_splits)

definition metric_ok :: "MetricEntry \<Rightarrow> bool" where
  "metric_ok m \<longleftrightarrow> 1 \<le> m_metricGeneration m \<and> m_metricGeneration m \<le> kMaximumSafeInteger
     \<and> m_scaleExponent m \<in> {-18..18} \<and> 1 \<le> m_blockLength m
     \<and> distinct (m_labels m) \<and> length (m_labels m) \<le> 64"

lemma readRequiredInteger_range: "readRequiredInteger v name = Inr i \<Longrightarrow> \<bar>i\<bar> \<le> kMaximumSafeInteger"
  by (auto simp: readRequiredInteger_def split: option.splits if_splits)

lemma readMetric_ok: "readMetric entry = Inr m \<Longrightarrow> metric_ok m"
  by (auto simp: readMetric_def metric_ok_def checkScale_def kMinimumScaleExponent_def
      kMaximumScaleExponent_def abs_le_iff split: if_splits option.splits
      dest!: readLabels_ok readRequiredInteger_range)

definition metric_key :: "MetricEntry \<Rightarrow> bytes \<times> int" where
  "metric_key m = (m_metricId m, m_metricGeneration m)"

lemma readMetrics_ok:
  assumes "readMetrics es = Inr (seen, metrics)"
  shows "map metric_key metrics = seen \<and> distinct seen \<and> length metrics = length es
    \<and> (\<forall>m\<in>set metrics. metric_ok m)"
proof -
  have "case t of (seen, metrics) \<Rightarrow> map metric_key metrics = seen \<and> distinct seen
      \<and> (\<forall>m\<in>set metrics. metric_ok m) \<and> length metrics = length es"
    if "t = (seen, metrics)" for t
    using assms unfolding readMetrics_def that [symmetric]
    by (rule rfold_prefix_invariant [where P = "\<lambda>done t. case t of (seen, metrics) \<Rightarrow>
          map metric_key metrics = seen \<and> distinct seen \<and> (\<forall>m\<in>set metrics. metric_ok m)
          \<and> length metrics = length done"])
      (auto simp: metric_key_def dest: readMetric_ok split: if_splits prod.splits)
  then show ?thesis by simp
qed

lemma find_key:
  "distinct (map metric_key ms) \<Longrightarrow> m \<in> set ms \<Longrightarrow>
   List.find (\<lambda>e. m_metricId e = m_metricId m \<and> m_metricGeneration e = m_metricGeneration m) ms = Some m"
  by (induction ms) (auto simp: metric_key_def image_iff)

lemma parseMetricRegistry_ok:
  assumes "parseMetricRegistry oracle root path record = Inr registry"
  shows "distinct (map metric_key (mr_metrics registry)) \<and> length (mr_metrics registry) \<le> 1024
    \<and> (\<forall>m\<in>set (mr_metrics registry). metric_ok m)"
  using assms
  by (auto simp: parseMetricRegistry_def kMaximumRegisteredMetrics_def dest!: readMetrics_ok
      split: if_splits option.splits prod.splits)

text \<open>
  In a registry that was accepted every (identifier, generation) pair names exactly one
  metric and looking the pair up returns it; every entry stays within the declared limits.
\<close>

theorem registry_lookup_is_unique:
  assumes "parseMetricRegistry oracle root path record = Inr registry"
  shows "(\<forall>m\<in>set (mr_metrics registry).
      registry_find registry (m_metricId m) (m_metricGeneration m) = Some m \<and> metric_ok m)
    \<and> length (mr_metrics registry) \<le> 1024"
  using parseMetricRegistry_ok [OF assms] find_key by (auto simp: registry_find_def)

definition demo_oracle :: Oracle where
  "demo_oracle = \<lparr>or_admission = \<lambda>_. Inr (), or_run = \<lambda>_. Inr 0\<rparr>"

definition demo_metric :: "bytes \<Rightarrow> int \<Rightarrow> CanonicalValue" where
  "demo_metric name generation = makeObject
     [(''metricId'', CString name), (''metricGeneration'', CInteger generation),
      (''stability'', CString ''stable''), (''owner'', CString ''o''), (''scope'', CString ''s''),
      (''unit'', CString ''ns''), (''statistic'', CString ''median''), (''budgetClass'', CString ''b''),
      (''queryId'', CString ''q''), (''scaleExponent'', CInteger 0),
      (''polarity'', CString ''lower_is_better''),
      (''sampling'', makeObject [(''kind'', CString ''block''), (''blockLength'', CInteger 8)]),
      (''rescaling'', makeObject [(''direction'', CString ''bound_to_observation''),
         (''rounding'', CString ''reject_inexact'')])]"

definition demo_registry_record :: CanonicalValue where
  "demo_registry_record = makeObject
     [(''recordKind'', CString ''metric_registry''), (''schemaVersion'', CInteger 1),
      (''registryGeneration'', CInteger 1), (''metrics'', CArray [demo_metric ''m'' 1, demo_metric ''m'' 2])]"

lemmas find_eval = find_makeObject utf8Valid_ascii

lemma makeObject_kind [simp]: "value_kind (makeObject ms) = KObject"
  by (simp add: makeObject_def)

lemma member_names_makeObject [simp]:
  "member_names (makeObject ms) = (\<Union>m\<in>set ms. insert (fst m) (member_names (snd m)))"
  by (simp add: makeObject_def)

lemma demo_metric_reads:
  "1 \<le> g \<Longrightarrow> g \<le> 1000 \<Longrightarrow> readMetric (demo_metric name g) = Inr \<lparr>m_metricId = name, m_metricGeneration = g,
     m_stability = Stable, m_owner = ''o'', m_scope = ''s'', m_unit = ''ns'', m_statistic = ''median'',
     m_budgetClass = ''b'', m_queryId = ''q'', m_scaleExponent = 0, m_polarity = LowerIsBetter,
     m_samplingKind = ''block'', m_blockLength = 8,
     m_rescaling = \<lparr>r_direction = BoundToObservation, r_rounding = RejectInexact\<rparr>, m_labels = []\<rparr>"
  unfolding readMetric_def demo_metric_def
  by (simp add: find_eval readRequiredText_def readRequiredInteger_def readStability_def readPolarity_def
      readRescaling_def readLabels_def checkScale_def kMinimumScaleExponent_def kMaximumScaleExponent_def
      kMaximumSafeInteger_def)

lemma registry_generation: "mediaTypeGeneration kMetricRegistryMediaType = Inr 1"
  using mediaTypeGeneration_number [of 1 "''application/vnd.rawframe.evidence.metric-registry''"]
  by (simp add: kMetricRegistryMediaType_def nat_to_string.simps digit_char_values int64_max_def)

lemma demo_registry_parses: "is_ok (parseMetricRegistry demo_oracle ''r'' ''p'' demo_registry_record)"
proof -
  have "checkProducerAuthority demo_registry_record = Inr ()"
    by (simp only: checkProducerAuthority_def walk_iff)
      (simp add: demo_registry_record_def demo_metric_def kForbiddenMemberNames_def)
  moreover have "checkRecordKind demo_registry_record ''metric_registry'' = Inr ()"
    by (simp add: checkRecordKind_def readRecordKind_def demo_registry_record_def find_eval)
  moreover have "checkGenerationMatches demo_registry_record kMetricRegistryMediaType 1 = Inr ()"
    by (simp add: checkGenerationMatches_def demo_registry_record_def find_eval registry_generation)
  moreover have "validateAgainstSchema demo_oracle root schema path = Inr ()" for root schema path
    by (simp add: validateAgainstSchema_def validateJsonShape_def demo_oracle_def)
  moreover have "readRequiredInteger demo_registry_record ''registryGeneration'' = Inr 1"
    "find_member demo_registry_record ''metrics'' = Some (CArray [demo_metric ''m'' 1, demo_metric ''m'' 2])"
    by (simp_all add: readRequiredInteger_def demo_registry_record_def find_eval kMaximumSafeInteger_def)
  moreover have "is_ok (readMetrics [demo_metric ''m'' 1, demo_metric ''m'' 2])"
    by (simp add: readMetrics_def demo_metric_reads)
  ultimately show ?thesis
    by (auto simp: parseMetricRegistry_def kMaximumRegisteredMetrics_def is_ok_iff)
qed

theorem registry_lookup_is_unique_witness:
  "\<exists>registry. parseMetricRegistry demo_oracle ''r'' ''p'' demo_registry_record = Inr registry
     \<and> length (mr_metrics registry) \<le> 1024"
proof -
  obtain registry where "parseMetricRegistry demo_oracle ''r'' ''p'' demo_registry_record = Inr registry"
    using demo_registry_parses by (auto simp: is_ok_iff)
  with registry_lookup_is_unique [OF this] show ?thesis by blast
qed

end
