(* ===== verification/Evidence_Policy.thy ===== *)
theory Evidence_Policy
  imports Evidence_Metrics
begin

text \<open>
  \<open>tools/rf_evidence/src/evaluation_policy.{h,cpp}\<close>: the Tier-0 policy, its entries, and their
  resolution against the metric registry the policy names.
\<close>

section \<open>Policies\<close>

definition kMaximumPolicyEntries :: nat where "kMaximumPolicyEntries = 256"
definition kTier0 :: bytes where "kTier0 = ''tier_0''"

datatype CheckClass = ClassCompleteness | ClassCorrectness
datatype Comparison = AtMost | AtLeast

record PolicyEntry =
  pe_policyKey :: bytes
  pe_checkClass :: CheckClass
  pe_metricId :: bytes
  pe_metricGeneration :: int
  pe_comparison :: Comparison
  pe_boundValue :: int
  pe_boundScaleExponent :: int

record EvaluationPolicy =
  ep_policyGeneration :: int
  ep_metricRegistryGeneration :: int
  ep_tier :: bytes
  ep_entries :: "PolicyEntry list"

record BoundPolicyEntry =
  bp_entry :: PolicyEntry
  bp_metric :: MetricEntry
  bp_boundValue :: int
  bp_boundScaleExponent :: int

definition kTier0BudgetClasses :: "bytes list" where
  "kTier0BudgetClasses = [''hard_ceiling'', ''contract_constant'']"

definition readCheckClass :: "CanonicalValue \<Rightarrow> CheckClass RecordResult" where
  "readCheckClass entry = rbind (readRequiredText entry ''checkClass'') (\<lambda>s.
     if s = ''completeness'' then Inr ClassCompleteness
     else if s = ''correctness'' then Inr ClassCorrectness
     else invalid (''policy entry declares an unknown check class: '' @ s))"

definition readComparison :: "CanonicalValue \<Rightarrow> Comparison RecordResult" where
  "readComparison entry = rbind (readRequiredText entry ''comparison'') (\<lambda>s.
     if s = ''at_most'' then Inr AtMost
     else if s = ''at_least'' then Inr AtLeast
     else invalid (''policy entry declares an unknown comparison: '' @ s))"

definition readEntry :: "CanonicalValue \<Rightarrow> PolicyEntry RecordResult" where
  "readEntry element =
     (if value_kind element \<noteq> KObject then invalid ''a policy entry is not an object''
      else
        rbind (readRequiredText element ''policyKey'') (\<lambda>policyKey.
        rbind (readCheckClass element) (\<lambda>checkClass.
        rbind (readRequiredText element ''metricId'') (\<lambda>metricId.
        rbind (readRequiredInteger element ''metricGeneration'') (\<lambda>generation.
        rbind (if generation < 1
               then invalid (''policy entry '' @ policyKey @ '' binds a generation below one'')
               else Inr ()) (\<lambda>_.
        rbind (readComparison element) (\<lambda>comparison.
        (case find_member element ''bound'' of
           None \<Rightarrow> invalid (''policy entry '' @ policyKey @ '' declares no bound'')
         | Some kBound \<Rightarrow>
             if value_kind kBound \<noteq> KObject
             then invalid (''policy entry '' @ policyKey @ '' declares no bound'')
             else
               rbind (readRequiredInteger kBound ''value'') (\<lambda>v.
               rbind (readRequiredInteger kBound ''scaleExponent'') (\<lambda>scaleExponent.
               if scaleExponent < kMinimumScaleExponent \<or> kMaximumScaleExponent < scaleExponent
               then exceeded (''policy entry '' @ policyKey
                 @ '' declares a scale exponent outside the accepted range'')
               else Inr \<lparr>pe_policyKey = policyKey, pe_checkClass = checkClass, pe_metricId = metricId,
                      pe_metricGeneration = generation, pe_comparison = comparison,
                      pe_boundValue = v, pe_boundScaleExponent = scaleExponent\<rparr>))))))))))"

definition readEntries :: "CanonicalValue list \<Rightarrow> (bytes list \<times> PolicyEntry list) RecordResult" where
  "readEntries elements =
     rfold (\<lambda>(keys, entries) element.
        rbind (readEntry element) (\<lambda>entry.
          if pe_policyKey entry \<in> set keys
          then invalid (''policy declares the key '' @ pe_policyKey entry @ '' twice'')
          else Inr (keys @ [pe_policyKey entry], entries @ [entry]))) ([], []) elements"

definition kEvaluationPolicyMediaType :: bytes where
  "kEvaluationPolicyMediaType = ''application/vnd.rawframe.evidence.evaluation-policy.v1+json''"

definition parseEvaluationPolicy ::
  "Oracle \<Rightarrow> string \<Rightarrow> string \<Rightarrow> CanonicalValue \<Rightarrow> EvaluationPolicy RecordResult" where
  "parseEvaluationPolicy oracle root instancePath record =
     rbind (checkProducerAuthority record) (\<lambda>_.
     rbind (checkRecordKind record ''evaluation_policy'') (\<lambda>_.
     rbind (validateAgainstSchema oracle root ''schemas/evaluation-policy-v1.schema.json'' instancePath) (\<lambda>_.
     rbind (checkGenerationMatches record kEvaluationPolicyMediaType 1) (\<lambda>_.
     rbind (readRequiredText record ''tier'') (\<lambda>tier.
     if tier \<noteq> kTier0 then invalid (''policy claims tier '' @ tier @ '', which this gate cannot produce'')
     else (case find_member record ''trust'' of
        None \<Rightarrow> invalid ''policy declares no trust''
      | Some kTrust \<Rightarrow>
          if value_kind kTrust \<noteq> KObject then invalid ''policy declares no trust''
          else
            rbind (readRequiredText kTrust ''provenance'') (\<lambda>trust.
            if trust \<noteq> ''diagnostic_untrusted''
            then invalid (''policy claims provenance '' @ trust @ '', which this gate cannot produce'')
            else
              rbind (readRequiredInteger record ''policyGeneration'') (\<lambda>policyGeneration.
              if policyGeneration < 1 then invalid ''policy declares a generation below one''
              else
                rbind (readRequiredInteger record ''metricRegistryGeneration'') (\<lambda>registryGeneration.
                if registryGeneration < 1 then invalid ''policy names a registry generation below one''
                else (case find_member record ''entries'' of
                   None \<Rightarrow> invalid ''policy declares no entries array''
                 | Some kEntries \<Rightarrow>
                     if value_kind kEntries \<noteq> KArray then invalid ''policy declares no entries array''
                     else if kMaximumPolicyEntries < length (value_elements kEntries)
                     then exceeded ''policy declares more than 256 entries''
                     else rbind (readEntries (value_elements kEntries)) (\<lambda>(keys, entries).
                       Inr \<lparr>ep_policyGeneration = policyGeneration,
                            ep_metricRegistryGeneration = registryGeneration, ep_tier = tier,
                            ep_entries = entries\<rparr>)))))))))))"

section \<open>Binding\<close>

definition bindEntry :: "MetricRegistry \<Rightarrow> PolicyEntry \<Rightarrow> BoundPolicyEntry RecordResult" where
  "bindEntry registry entry =
     (case registry_find registry (pe_metricId entry) (pe_metricGeneration entry) of
        None \<Rightarrow> invalid (''policy entry '' @ pe_policyKey entry @ '' binds an undeclared metric identity'')
      | Some metric \<Rightarrow>
          if m_stability metric \<noteq> Stable
          then invalid (''policy entry '' @ pe_policyKey entry @ '' binds a diagnostic metric'')
          else if m_budgetClass metric \<notin> set kTier0BudgetClasses
          then invalid (''policy entry '' @ pe_policyKey entry @ '' binds a '' @ m_budgetClass metric
                 @ '', which a Tier-0 check may not attach to'')
          else if r_direction (m_rescaling metric) = ObservationToBound
          then Inr \<lparr>bp_entry = entry, bp_metric = metric, bp_boundValue = pe_boundValue entry,
                    bp_boundScaleExponent = pe_boundScaleExponent entry\<rparr>
          else rbind (rescaleExact (pe_boundValue entry) (pe_boundScaleExponent entry)
                        (m_scaleExponent metric) (r_rounding (m_rescaling metric))) (\<lambda>v.
            Inr \<lparr>bp_entry = entry, bp_metric = metric, bp_boundValue = v,
                 bp_boundScaleExponent = m_scaleExponent metric\<rparr>))"

definition bindPolicyToRegistry :: "EvaluationPolicy \<Rightarrow> MetricRegistry \<Rightarrow> BoundPolicyEntry list RecordResult" where
  "bindPolicyToRegistry policy registry =
     (if ep_metricRegistryGeneration policy \<noteq> mr_registryGeneration registry
      then invalid ''policy is written against another registry generation''
      else rfold (\<lambda>bound entry. rbind (bindEntry registry entry) (\<lambda>b. Inr (bound @ [b])))
             [] (ep_entries policy))"

section \<open>Properties\<close>

definition entry_ok :: "PolicyEntry \<Rightarrow> bool" where
  "entry_ok e \<longleftrightarrow> 1 \<le> pe_metricGeneration e \<and> \<bar>pe_boundValue e\<bar> \<le> kMaximumSafeInteger
     \<and> pe_boundScaleExponent e \<in> {-18..18}"

lemma readEntry_ok: "readEntry element = Inr e \<Longrightarrow> entry_ok e"
  by (auto simp: readEntry_def entry_ok_def kMinimumScaleExponent_def kMaximumScaleExponent_def
      split: if_splits option.splits dest!: readRequiredInteger_range)

lemma readEntries_ok:
  assumes "readEntries es = Inr (keys, entries)"
  shows "map pe_policyKey entries = keys \<and> distinct keys \<and> length entries = length es
    \<and> (\<forall>e\<in>set entries. entry_ok e)"
proof -
  have "case t of (keys, entries) \<Rightarrow> map pe_policyKey entries = keys \<and> distinct keys
      \<and> (\<forall>e\<in>set entries. entry_ok e) \<and> length entries = length es"
    if "t = (keys, entries)" for t
    using assms unfolding readEntries_def that [symmetric]
    by (rule rfold_prefix_invariant [where P = "\<lambda>done t. case t of (keys, entries) \<Rightarrow>
          map pe_policyKey entries = keys \<and> distinct keys \<and> (\<forall>e\<in>set entries. entry_ok e)
          \<and> length entries = length done"])
      (auto dest: readEntry_ok split: if_splits prod.splits)
  then show ?thesis by simp
qed

lemma parseEvaluationPolicy_ok:
  assumes "parseEvaluationPolicy oracle root path record = Inr policy"
  shows "ep_tier policy = kTier0 \<and> distinct (map pe_policyKey (ep_entries policy))
    \<and> length (ep_entries policy) \<le> 256 \<and> (\<forall>e\<in>set (ep_entries policy). entry_ok e)"
  using assms
  by (auto simp: parseEvaluationPolicy_def kMaximumPolicyEntries_def dest!: readEntries_ok
      split: if_splits option.splits prod.splits)

lemma rfold_snoc_map:
  "rfold (\<lambda>acc x. rbind (f x) (\<lambda>b. Inr (acc @ [b]))) acc xs = Inr ys \<longleftrightarrow>
     (\<exists>zs. ys = acc @ zs \<and> list_all2 (\<lambda>x z. f x = Inr z) xs zs)"
proof (induction xs arbitrary: acc)
  case (Cons x xs)
  show ?case
    by (cases "f x") (auto simp: Cons.IH list_all2_Cons1)
qed auto

text \<open>What it means that a bound entry is the policy entry resolved against the registry.\<close>

definition resolves :: "MetricRegistry \<Rightarrow> PolicyEntry \<Rightarrow> BoundPolicyEntry \<Rightarrow> bool" where
  "resolves registry e b \<longleftrightarrow> bp_entry b = e
     \<and> registry_find registry (pe_metricId e) (pe_metricGeneration e) = Some (bp_metric b)
     \<and> m_stability (bp_metric b) = Stable \<and> m_budgetClass (bp_metric b) \<in> set kTier0BudgetClasses
     \<and> (if r_direction (m_rescaling (bp_metric b)) = ObservationToBound
        then bp_boundValue b = pe_boundValue e \<and> bp_boundScaleExponent b = pe_boundScaleExponent e
        else bp_boundScaleExponent b = m_scaleExponent (bp_metric b)
          \<and> rescaleExact (pe_boundValue e) (pe_boundScaleExponent e) (m_scaleExponent (bp_metric b))
              (r_rounding (m_rescaling (bp_metric b))) = Inr (bp_boundValue b))"

lemma bindEntry_iff: "bindEntry registry e = Inr b \<longleftrightarrow> resolves registry e b"
  by (cases b; auto simp: bindEntry_def resolves_def split: option.splits if_splits)

lemma bindPolicy_iff:
  "bindPolicyToRegistry policy registry = Inr bound \<longleftrightarrow>
     ep_metricRegistryGeneration policy = mr_registryGeneration registry
     \<and> list_all2 (resolves registry) (ep_entries policy) bound"
  by (simp add: bindPolicyToRegistry_def rfold_snoc_map bindEntry_iff)

text \<open>
  Binding succeeds exactly when the generations agree and every entry resolves, one for one
  and in order, to a declared, stable metric of a Tier-0 budget class, with its bound moved to
  the metric's scale by exact rescaling or left where it was written.
\<close>

theorem policy_binding_exact:
  "bindPolicyToRegistry policy registry = Inr bound \<longleftrightarrow>
     ep_metricRegistryGeneration policy = mr_registryGeneration registry
     \<and> list_all2 (resolves registry) (ep_entries policy) bound"
  by (rule bindPolicy_iff)

end
