(* ===== verification/Evidence_Baseline.thy ===== *)
theory Evidence_Baseline
  imports Evidence_Policy
begin

text \<open>
  \<open>tools/rf_evidence/src/baseline_record.{h,cpp}\<close>: the reader of a baseline record and the promotion
  defects it refuses.  What is read in a row and only handed on is one definition per member of the record.
\<close>

definition kMaximumAffectedMetrics :: nat where "kMaximumAffectedMetrics = 64"
definition kMaximumPredecessorChain :: nat where "kMaximumPredecessorChain = 32"
definition kBaselineRecordMediaType :: bytes where
  "kBaselineRecordMediaType = ''application/vnd.rawframe.evidence.baseline-record.v1+json''"

datatype BaselineDefect =
    SelfUpdate | SelfPromotion | MissingPredecessor | MutableRole | IncompatibleScope | MissingEvidence
  | CandidateControlledPolicy | UnsupportedProvenance | InsufficientTrust

fun baselineDefectName :: "BaselineDefect \<Rightarrow> string" where
  "baselineDefectName SelfUpdate = ''self_update''"
| "baselineDefectName SelfPromotion = ''self_promotion''"
| "baselineDefectName MissingPredecessor = ''missing_predecessor''"
| "baselineDefectName MutableRole = ''mutable_role''"
| "baselineDefectName IncompatibleScope = ''incompatible_scope''"
| "baselineDefectName MissingEvidence = ''missing_evidence''"
| "baselineDefectName CandidateControlledPolicy = ''candidate_controlled_policy''"
| "baselineDefectName UnsupportedProvenance = ''unsupported_provenance''"
| "baselineDefectName InsufficientTrust = ''insufficient_trust''"

datatype BaselineRole = Anchor | RollingMain
datatype BaselineState = ActiveBaseline | SupersededBaseline | RevokedBaseline

record BaselineRecord =
  br_baselineId :: bytes
  br_role :: BaselineRole
  br_profileId :: bytes
  br_evaluationReceiptDigest :: bytes
  br_evidenceSetDigest :: bytes
  br_firstBaseline :: bool
  br_predecessorDigest :: bytes
  br_affectedMetrics :: "bytes list"
  br_state :: BaselineState
  br_approvingProjectOwner :: bytes
  br_approvalTimestamp :: bytes

definition baselineDefect :: "BaselineDefect \<Rightarrow> string \<Rightarrow> 'a RecordResult" where
  "baselineDefect which detail = invalid (baselineDefectName which @ '': '' @ detail)"

lemma baselineDefect_simps [simp]: "baselineDefect w d \<noteq> Inr x" "Inr x \<noteq> baselineDefect w d"
  "rbind (baselineDefect w d) f = baselineDefect w d"
  by (simp_all add: baselineDefect_def)

text \<open>An object member of the record, with the message of the code for one that is not there.\<close>

definition objectMember :: "CanonicalValue \<Rightarrow> bytes \<Rightarrow> string \<Rightarrow> CanonicalValue RecordResult" where
  "objectMember parent name message =
     (case find_member parent name of
        None \<Rightarrow> invalid message
      | Some v \<Rightarrow> if value_kind v \<noteq> KObject then invalid message else Inr v)"

definition readDigest :: "CanonicalValue \<Rightarrow> bytes \<Rightarrow> bytes RecordResult" where
  "readDigest parent name =
     rbind (objectMember parent name (''baseline record declares no '' @ name @ '' descriptor'')) (\<lambda>kDescriptor.
       readRequiredText kDescriptor ''digest'')"

definition readRole :: "CanonicalValue \<Rightarrow> BaselineRole RecordResult" where
  "readRole record =
     rbind (readRequiredText record ''role'') (\<lambda>t.
       if t = ''anchor'' then Inr Anchor
       else if t = ''rolling_main'' then Inr RollingMain
       else invalid (''baseline record declares an unknown role: '' @ t))"

definition readState :: "CanonicalValue \<Rightarrow> BaselineState RecordResult" where
  "readState status =
     rbind (readRequiredText status ''state'') (\<lambda>t.
       if t = ''active'' then Inr ActiveBaseline
       else if t = ''superseded'' then Inr SupersededBaseline
       else if t = ''revoked'' then Inr RevokedBaseline
       else invalid (''baseline record declares an unknown status: '' @ t))"

definition headroomEntry :: "bytes list \<Rightarrow> unit \<Rightarrow> CanonicalValue \<Rightarrow> RecordStatus" where
  "headroomEntry affected = (\<lambda>_ kEntry.
     rbind (readRequiredText kEntry ''metricId'') (\<lambda>metricId.
       if metricId \<notin> set affected
       then baselineDefect IncompatibleScope (''headroom names '' @ metricId @ '', which the record does not affect'')
       else Inr ()))"

definition checkHeadroomScope :: "CanonicalValue \<Rightarrow> bytes \<Rightarrow> bytes list \<Rightarrow> RecordStatus" where
  "checkHeadroomScope headroom grp affected =
     (case find_member headroom grp of
        None \<Rightarrow> invalid (''baseline record declares no '' @ grp @ '' headroom array'')
      | Some kGroup \<Rightarrow>
          if value_kind kGroup \<noteq> KArray then invalid (''baseline record declares no '' @ grp @ '' headroom array'')
          else if grp = ''relative'' \<and> value_elements kGroup \<noteq> []
          then baselineDefect IncompatibleScope ''relative headroom requires a qualified cell, which no tier_0 record has''
          else rfold (headroomEntry affected) () (value_elements kGroup))"

definition checkTier :: "CanonicalValue \<Rightarrow> RecordStatus" where
  "checkTier record =
     rbind (readRequiredText record ''tier'') (\<lambda>tier.
       if tier \<noteq> ''tier_0''
       then baselineDefect IncompatibleScope (''record claims tier '' @ tier @ '', which this gate cannot reach'')
       else Inr ())"

definition checkTrust :: "CanonicalValue \<Rightarrow> RecordStatus" where
  "checkTrust record =
     rbind (objectMember record ''trust'' ''baseline record declares no trust'') (\<lambda>kTrust.
     rbind (readRequiredText kTrust ''provenance'') (\<lambda>provenance.
       if provenance \<noteq> ''diagnostic_untrusted''
       then baselineDefect UnsupportedProvenance
         (''record claims provenance '' @ provenance @ '', which this gate cannot produce'')
       else case find_member kTrust ''reference'' of
         None \<Rightarrow> Inr ()
       | Some kReference \<Rightarrow>
           if contains_str (value_text kReference) ''://''
           then baselineDefect UnsupportedProvenance
             (''provenance points at '' @ value_text kReference @ '', which is not verifiable here'')
           else Inr ()))"

text \<open>The digests of the evaluation receipt and of the evidence set.\<close>

definition readPromoted :: "CanonicalValue \<Rightarrow> (bytes \<times> bytes) RecordResult" where
  "readPromoted record =
     rbind (objectMember record ''promoted'' ''baseline record points at nothing'') (\<lambda>kPromoted.
     rbind (readDigest kPromoted ''evaluationReceipt'') (\<lambda>receiptDigest.
     rbind (readDigest kPromoted ''evidenceSet'') (\<lambda>setDigest.
       if receiptDigest = setDigest
       then baselineDefect MissingEvidence
         ''one artifact stands in for both the evaluation receipt and the evidence set''
       else Inr (receiptDigest, setDigest))))"

text \<open>The owner and the time of the approval.\<close>

definition readPromotion :: "CanonicalValue \<Rightarrow> bytes \<Rightarrow> (bytes \<times> bytes) RecordResult" where
  "readPromotion record receiptDigest =
     rbind (objectMember record ''source'' ''baseline record declares no candidate source'') (\<lambda>kSource.
     rbind (readRequiredText kSource ''revision'') (\<lambda>revision.
     rbind (objectMember record ''promotion'' ''baseline record declares no promotion'') (\<lambda>kPromotion.
     rbind (readRequiredText kPromotion ''reviewReference'') (\<lambda>reviewReference.
     rbind (readRequiredText kPromotion ''protectedChangeReference'') (\<lambda>changeReference.
       if changeReference = revision
       then baselineDefect SelfUpdate ''the protected change being approved is the candidate revision itself''
       else if reviewReference = changeReference
       then baselineDefect SelfPromotion ''the review of the change is the change, so nothing reviewed it''
       else if reviewReference = receiptDigest
       then baselineDefect CandidateControlledPolicy
         ''the candidate's own evaluation stands in for the protected review''
       else rbind (readRequiredText kPromotion ''approvingProjectOwner'') (\<lambda>owner.
         rbind (readRequiredText kPromotion ''approvalTimestamp'') (\<lambda>approvalTimestamp.
           Inr (owner, approvalTimestamp))))))))"

text \<open>Whether it is the first baseline, and the digest of its predecessor.\<close>

definition readPredecessor :: "CanonicalValue \<Rightarrow> (bool \<times> bytes) RecordResult" where
  "readPredecessor record =
     rbind (objectMember record ''predecessor'' ''baseline record declares no predecessor relationship'') (\<lambda>kPredecessor.
       let chain_ok = (\<lambda>result. case find_member kPredecessor ''chain'' of
             None \<Rightarrow> Inr result
           | Some kChain \<Rightarrow>
               if kMaximumPredecessorChain < length (value_elements kChain)
               then exceeded ''baseline record declares more than 32 predecessor chain entries''
               else Inr result)
       in case (find_member kPredecessor ''firstBaseline'', find_member kPredecessor ''descriptor'') of
            (None, None) \<Rightarrow> baselineDefect MissingPredecessor
              ''neither a first-baseline marker nor a predecessor, so the chain has a gap''
          | (Some _, Some _) \<Rightarrow> baselineDefect MissingPredecessor
              ''the record is both the first baseline and a successor to one''
          | (Some _, None) \<Rightarrow> chain_ok (True, [])
          | (None, Some kDescriptor) \<Rightarrow>
              rbind (readRequiredText kDescriptor ''digest'') (\<lambda>digest. chain_ok (False, digest)))"

definition readStatus :: "CanonicalValue \<Rightarrow> BaselineState RecordResult" where
  "readStatus record =
     rbind (objectMember record ''status'' ''baseline record declares no status relationship'') (\<lambda>kStatus.
     rbind (readState kStatus) (\<lambda>state.
       if state = ActiveBaseline \<and> find_member kStatus ''successor'' \<noteq> None
       then baselineDefect MutableRole ''an active baseline names a successor, so one of the two is stale''
       else if state \<noteq> ActiveBaseline \<and> find_member kStatus ''successor'' = None
       then baselineDefect MutableRole ''the status changed without a successor authority naming this record''
       else Inr state))"

definition affectedMetric :: "bytes list \<Rightarrow> CanonicalValue \<Rightarrow> bytes list RecordResult" where
  "affectedMetric affected kMetric =
     (if value_kind kMetric \<noteq> KString then invalid ''baseline record declares a non-string affected metric''
      else if value_text kMetric \<in> set affected
      then invalid (''baseline record names the metric '' @ value_text kMetric @ '' twice'')
      else Inr (affected @ [value_text kMetric]))"

definition readAffected :: "CanonicalValue \<Rightarrow> bytes list RecordResult" where
  "readAffected record =
     rbind (objectMember record ''affected'' ''baseline record declares nothing affected'') (\<lambda>kAffected.
     case find_member kAffected ''metrics'' of
       None \<Rightarrow> invalid ''baseline record declares no affected metrics array''
     | Some kMetrics \<Rightarrow>
         if value_kind kMetrics \<noteq> KArray then invalid ''baseline record declares no affected metrics array''
         else if value_elements kMetrics = []
         then baselineDefect MissingEvidence ''the record affects no metric, so it is a reference for nothing''
         else if kMaximumAffectedMetrics < length (value_elements kMetrics)
         then exceeded ''baseline record declares more than 64 affected metrics''
         else rfold affectedMetric [] (value_elements kMetrics))"

definition checkHeadroom :: "CanonicalValue \<Rightarrow> bytes list \<Rightarrow> RecordStatus" where
  "checkHeadroom record affected =
     rbind (objectMember record ''headroom'' ''baseline record declares no headroom'') (\<lambda>kHeadroom.
     rbind (checkHeadroomScope kHeadroom ''absolute'' affected) (\<lambda>_.
     checkHeadroomScope kHeadroom ''relative'' affected))"

definition parseBaselineRecord ::
  "Oracle \<Rightarrow> string \<Rightarrow> string \<Rightarrow> CanonicalValue \<Rightarrow> BaselineRecord RecordResult" where
  "parseBaselineRecord oracle repositoryRoot instancePath record =
     rbind (checkRecordKind record ''baseline_record'') (\<lambda>_.
     rbind (validateAgainstSchema oracle repositoryRoot ''schemas/baseline-record-v1.schema.json'' instancePath) (\<lambda>_.
     rbind (checkGenerationMatches record kBaselineRecordMediaType 1) (\<lambda>_.
     rbind (readRequiredText record ''baselineId'') (\<lambda>baselineId.
     rbind (readRole record) (\<lambda>role.
     rbind (checkTier record) (\<lambda>_.
     rbind (checkTrust record) (\<lambda>_.
     rbind (objectMember record ''compatibility'' ''baseline record declares no compatibility key'') (\<lambda>kCompatibility.
     rbind (readRequiredText kCompatibility ''profileId'') (\<lambda>profileId.
     rbind (readPromoted record) (\<lambda>(receiptDigest, setDigest).
     rbind (readPromotion record receiptDigest) (\<lambda>(owner, approvalTimestamp).
     rbind (readPredecessor record) (\<lambda>(firstBaseline, predecessorDigest).
     rbind (readStatus record) (\<lambda>state.
     rbind (readAffected record) (\<lambda>affected.
     rbind (checkHeadroom record affected) (\<lambda>_.
       Inr \<lparr>br_baselineId = baselineId, br_role = role, br_profileId = profileId,
         br_evaluationReceiptDigest = receiptDigest, br_evidenceSetDigest = setDigest,
         br_firstBaseline = firstBaseline, br_predecessorDigest = predecessorDigest,
         br_affectedMetrics = affected, br_state = state, br_approvingProjectOwner = owner,
         br_approvalTimestamp = approvalTimestamp\<rparr>)))))))))))))))"

definition promotionRefusal :: "BaselineRecord \<Rightarrow> BaselineDefect" where
  "promotionRefusal record = InsufficientTrust"

section \<open>What an accepted record does not do\<close>

text \<open>A text the record carries at a path of two members.\<close>

definition text_at :: "CanonicalValue \<Rightarrow> bytes \<Rightarrow> bytes \<Rightarrow> bytes \<Rightarrow> bool" where
  "text_at record outer inner t \<longleftrightarrow>
     (\<exists>parent v. find_member record outer = Some parent \<and> find_member parent inner = Some v \<and>
        value_kind v = KString \<and> value_text v = t)"

lemma objectMember_ok: "objectMember parent name message = Inr v \<longleftrightarrow> find_member parent name = Some v \<and> value_kind v = KObject"
  by (auto simp: objectMember_def split: option.splits)

lemma readRequiredText_ok:
  "readRequiredText v name = Inr t \<longleftrightarrow> (\<exists>m. find_member v name = Some m \<and> value_kind m = KString \<and> value_text m = t)"
  by (auto simp: readRequiredText_def split: option.splits)

lemma readPromotion_ok:
  assumes "readPromotion record receiptDigest = Inr result"
  shows "\<exists>revision change review. text_at record ''source'' ''revision'' revision \<and>
    text_at record ''promotion'' ''protectedChangeReference'' change \<and>
    text_at record ''promotion'' ''reviewReference'' review \<and>
    change \<noteq> revision \<and> review \<noteq> change \<and> review \<noteq> receiptDigest"
proof -
  from assms obtain source revision promotion review change where
    "objectMember record ''source'' ''baseline record declares no candidate source'' = Inr source"
    "readRequiredText source ''revision'' = Inr revision"
    "objectMember record ''promotion'' ''baseline record declares no promotion'' = Inr promotion"
    "readRequiredText promotion ''reviewReference'' = Inr review"
    "readRequiredText promotion ''protectedChangeReference'' = Inr change"
    "change \<noteq> revision" "review \<noteq> change" "review \<noteq> receiptDigest"
    by (auto simp: readPromotion_def rbind_Inr_iff split: if_splits)
  then show ?thesis
    unfolding text_at_def objectMember_ok readRequiredText_ok by blast
qed

lemma readPromoted_ok:
  "readPromoted record = Inr (receiptDigest, setDigest) \<Longrightarrow> receiptDigest \<noteq> setDigest"
  by (auto simp: readPromoted_def rbind_Inr_iff split: if_splits)

lemma checkTrust_ok: "checkTrust record = Inr () \<Longrightarrow> text_at record ''trust'' ''provenance'' ''diagnostic_untrusted''"
  by (auto simp: checkTrust_def rbind_Inr_iff text_at_def objectMember_ok readRequiredText_ok split: if_splits)

lemma readPredecessor_ok:
  assumes "readPredecessor record = Inr (first_one, digest)"
  shows "\<exists>p. find_member record ''predecessor'' = Some p \<and>
    (find_member p ''firstBaseline'' \<noteq> None \<longleftrightarrow> first_one) \<and> (find_member p ''descriptor'' = None \<longleftrightarrow> first_one)"
  using assms by (auto simp: readPredecessor_def rbind_Inr_iff objectMember_ok Let_def split: option.splits if_splits)

lemma readStatus_ok:
  assumes "readStatus record = Inr state"
  shows "\<exists>s. find_member record ''status'' = Some s \<and> (find_member s ''successor'' = None \<longleftrightarrow> state = ActiveBaseline)"
  using assms by (auto simp: readStatus_def rbind_Inr_iff objectMember_ok split: if_splits)

lemma affected_distinct:
  "rfold affectedMetric acc es = Inr affected \<Longrightarrow> distinct acc \<Longrightarrow>
     distinct affected \<and> affected = acc @ map value_text es"
proof (induction es arbitrary: acc)
  case (Cons e es)
  from Cons.prems(1) obtain acc' where one: "affectedMetric acc e = Inr acc'" and rest: "rfold affectedMetric acc' es = Inr affected"
    by (auto simp: rbind_Inr_iff)
  from one have acc': "acc' = acc @ [value_text e]" "value_text e \<notin> set acc"
    by (auto simp: affectedMetric_def split: if_splits)
  have "distinct acc'" using acc' Cons.prems(2) by simp
  from Cons.IH [OF rest this] acc'(1) show ?case by (metis append.assoc append_Cons append_Nil list.simps(9))
qed simp

lemma readAffected_ok:
  assumes "readAffected record = Inr affected"
  shows "distinct affected" and "affected \<noteq> []" and "length affected \<le> kMaximumAffectedMetrics"
proof -
  from assms obtain es where "rfold affectedMetric [] es = Inr affected" "es \<noteq> []" "length es \<le> kMaximumAffectedMetrics"
    by (auto simp: readAffected_def rbind_Inr_iff split: option.splits if_splits)
  with affected_distinct [of "[]" es affected]
  show "distinct affected" "affected \<noteq> []" "length affected \<le> kMaximumAffectedMetrics" by auto
qed

lemma headroom_entries:
  "rfold (headroomEntry affected) () es = Inr () \<Longrightarrow>
     list_all (\<lambda>e. \<exists>m. find_member e ''metricId'' = Some m \<and> value_kind m = KString \<and> value_text m \<in> set affected) es"
  by (induction es) (auto simp: headroomEntry_def rbind_Inr_iff readRequiredText_ok split: if_splits)

definition headroom_in_scope :: "CanonicalValue \<Rightarrow> bytes list \<Rightarrow> bool" where
  "headroom_in_scope record affected \<longleftrightarrow>
     (\<exists>h absolute relative. find_member record ''headroom'' = Some h \<and>
        find_member h ''absolute'' = Some absolute \<and> find_member h ''relative'' = Some relative \<and>
        value_elements relative = [] \<and>
        list_all (\<lambda>e. \<exists>m. find_member e ''metricId'' = Some m \<and> value_text m \<in> set affected) (value_elements absolute))"

lemma checkHeadroomScope_ok:
  "checkHeadroomScope h g affected = Inr () \<Longrightarrow> \<exists>entries. find_member h g = Some entries \<and>
     rfold (headroomEntry affected) () (value_elements entries) = Inr () \<and> (g = ''relative'' \<longrightarrow> value_elements entries = [])"
  by (auto simp: checkHeadroomScope_def split: option.splits if_splits)

lemma checkHeadroom_ok:
  assumes "checkHeadroom record affected = Inr ()"
  shows "headroom_in_scope record affected"
proof -
  from assms obtain h where h: "find_member record ''headroom'' = Some h"
    and scopes: "checkHeadroomScope h ''absolute'' affected = Inr ()" "checkHeadroomScope h ''relative'' affected = Inr ()"
    by (auto simp: checkHeadroom_def rbind_Inr_iff objectMember_ok)
  from checkHeadroomScope_ok [OF scopes(1)] obtain absolute where absolute: "find_member h ''absolute'' = Some absolute"
    and entries: "rfold (headroomEntry affected) () (value_elements absolute) = Inr ()"
    by blast
  from checkHeadroomScope_ok [OF scopes(2)] obtain relative where "find_member h ''relative'' = Some relative"
    "value_elements relative = []"
    by blast
  moreover have "list_all (\<lambda>e. \<exists>m. find_member e ''metricId'' = Some m \<and> value_text m \<in> set affected) (value_elements absolute)"
    by (rule list.pred_mono_strong [OF headroom_entries [OF entries]]) blast
  ultimately show ?thesis
    unfolding headroom_in_scope_def using h absolute by blast
qed


end
