(* ===== verification/Evidence_Repository.thy ===== *)
theory Evidence_Repository
  imports Evidence_Dependencies Evidence_Baseline
begin

text \<open>
  \<open>tools/rf_evidence/src/repository_validator.cpp\<close>: the tool manifests the repository lists, the
  evidence index with its authorities, the two walks that refuse what is not listed, and the order in
  which the validation of a repository asks for all of it.
\<close>

section \<open>Reading a manifest\<close>

definition invalidManifestJson :: "Site \<Rightarrow> string \<Rightarrow> string \<Rightarrow> dom_error \<Rightarrow> 'a Result" where
  "invalidManifestJson site path context error = fail InvalidJson path (context @ '': '' @ si_errorText site error)"

lemma invalidManifestJson_simps [simp]: "invalidManifestJson site p c e \<noteq> Inr x" "Inr x \<noteq> invalidManifestJson site p c e"
  "rbind (invalidManifestJson site p c e) f = invalidManifestJson site p c e"
  by (simp_all add: invalidManifestJson_def)

definition parseManifestObject :: "Site \<Rightarrow> bytes \<Rightarrow> string \<Rightarrow> dom_object Result" where
  "parseManifestObject site input path =
     (case si_parse site input of
        Inl kError \<Rightarrow> invalidManifestJson site path ''failed to parse JSON'' kError
      | Inr element \<Rightarrow>
          (case dom_get_object element of
             Inl kError \<Rightarrow> invalidManifestJson site path ''top-level value must be an object'' kError
           | Inr object \<Rightarrow> Inr object))"

definition manifestString :: "Site \<Rightarrow> dom_object \<Rightarrow> string \<Rightarrow> string \<Rightarrow> string Result" where
  "manifestString site object key path =
     (case dom_string_at object key of
        Inl kError \<Rightarrow> invalidManifestJson site path (''missing or invalid string field '' @ key) kError
      | Inr v \<Rightarrow> Inr v)"

definition manifestElement :: "Site \<Rightarrow> string \<Rightarrow> string \<Rightarrow> string list \<Rightarrow> dom_value \<Rightarrow> string list Result" where
  "manifestElement site key path kept kElement =
     (if 4096 \<le> length kept then fail LimitExceeded path ''array exceeds 4096 entries''
      else case dom_get_string kElement of
        Inl kError \<Rightarrow> invalidManifestJson site path (''non-string entry in '' @ key) kError
      | Inr v \<Rightarrow>
          if v \<in> set kept then fail InvalidManifest path ''array contains a duplicate value'' else Inr (kept @ [v]))"

definition manifestStrings :: "Site \<Rightarrow> dom_object \<Rightarrow> string \<Rightarrow> string \<Rightarrow> bool \<Rightarrow> string list Result" where
  "manifestStrings site object key path allowEmpty =
     (case dom_array_at object key of
        Inl kError \<Rightarrow> invalidManifestJson site path (''missing or invalid array field '' @ key) kError
      | Inr elements \<Rightarrow>
          rbind (rfold (manifestElement site key path) [] elements) (\<lambda>texts.
            if \<not> allowEmpty \<and> texts = [] then fail InvalidManifest path ''required array is empty''
            else if \<not> sorted texts then fail InvalidManifest path ''set-like array is not deterministically sorted''
            else Inr texts))"

definition distributionField :: "Site \<Rightarrow> dom_object \<Rightarrow> string \<Rightarrow> unit \<Rightarrow> string \<Rightarrow> Status" where
  "distributionField site distribution path = (\<lambda>_ kField.
     rbind (manifestString site distribution kField path) (\<lambda>v.
       if v \<noteq> ''forbidden'' then fail InvalidManifest path (kField @ '' must be forbidden'') else Inr ()))"

definition validateDistribution :: "Site \<Rightarrow> dom_object \<Rightarrow> string \<Rightarrow> Status" where
  "validateDistribution site root path =
     (case dom_object_at root ''distribution'' of
        Inl kError \<Rightarrow> invalidManifestJson site path ''missing distribution object'' kError
      | Inr distribution \<Rightarrow>
          if dom_bool_at distribution ''repositoryOnly'' \<noteq> Inr True
          then fail InvalidManifest path ''repositoryOnly must be true''
          else rfold (distributionField site distribution path) () [''shippingClosure'', ''sdkExposure'', ''targetRoot''])"

section \<open>The manifest of a tool\<close>

definition readImplementation :: "Site \<Rightarrow> dom_object \<Rightarrow> string \<Rightarrow> string Result" where
  "readImplementation site root manifestPath =
     (case dom_object_at root ''implementation'' of
        Inl kError \<Rightarrow> invalidManifestJson site manifestPath ''missing implementation object'' kError
      | Inr implementation \<Rightarrow>
          (case (manifestString site implementation ''language'' manifestPath,
                 manifestString site implementation ''dialect'' manifestPath,
                 manifestString site implementation ''buildSystem'' manifestPath,
                 manifestString site implementation ''cmakeTarget'' manifestPath,
                 manifestString site implementation ''exceptions'' manifestPath,
                 manifestString site implementation ''rtti'' manifestPath) of
             (Inr language, Inr dialect, Inr buildSystem, Inr target, Inr exceptions, Inr rtti) \<Rightarrow>
               if language \<noteq> ''cpp'' \<or> dialect \<noteq> ''c++23'' \<or> buildSystem \<noteq> ''cmake'' \<or> exceptions \<noteq> ''disabled'' \<or> rtti \<noteq> ''disabled''
               then fail InvalidManifest manifestPath ''implementation policy does not match C++23/no-exception/no-RTTI''
               else Inr target
           | _ \<Rightarrow> fail InvalidManifest manifestPath ''implementation fields are incomplete''))"

text \<open>The third-party and the managed-tool dependencies.\<close>

definition readDependencies :: "Site \<Rightarrow> dom_object \<Rightarrow> string \<Rightarrow> (string list \<times> string list) Result" where
  "readDependencies site root manifestPath =
     (case dom_object_at root ''dependencies'' of
        Inl kError \<Rightarrow> invalidManifestJson site manifestPath ''missing dependencies object'' kError
      | Inr dependencies \<Rightarrow>
          (case (manifestStrings site dependencies ''tools'' manifestPath True,
                 manifestStrings site dependencies ''modules'' manifestPath True,
                 manifestStrings site dependencies ''thirdParty'' manifestPath True,
                 manifestStrings site dependencies ''managedTools'' manifestPath True) of
             (Inr tools, Inr modules, Inr thirdParty, Inr managedTools) \<Rightarrow>
               if modules \<noteq> []
               then fail InvalidManifest manifestPath ''TASK-0001 repository tool cannot depend on a production module''
               else Inr (thirdParty, managedTools)
           | _ \<Rightarrow> fail InvalidManifest manifestPath ''dependency arrays are invalid''))"

definition validateToolManifest :: "Site \<Rightarrow> string \<Rightarrow> string \<Rightarrow> string \<Rightarrow> ToolInfo Result" where
  "validateToolManifest site repositoryRoot manifestPath manifestRelativePath =
     rbind (validateJsonShape (siteOracle site repositoryRoot) repositoryRoot
              (path_append repositoryRoot ''schemas/tool.schema.json'') manifestPath []) (\<lambda>_.
     rbind (readSiteFile site manifestPath kMaximumMaintainedJsonBytes) (\<lambda>input.
     rbind (parseManifestObject site input manifestPath) (\<lambda>kRoot.
     rbind (manifestString site kRoot ''$schema'' manifestPath) (\<lambda>schema.
     rbind (manifestString site kRoot ''id'' manifestPath) (\<lambda>toolId.
     rbind (manifestString site kRoot ''owner'' manifestPath) (\<lambda>owner.
     if schema \<noteq> ''../../schemas/tool.schema.json'' \<or> \<not> starts_with toolId ''rawframe.tool.''
     then fail InvalidManifest manifestPath ''tool schema or ID is invalid''
     else if dom_int64_at kRoot ''schemaVersion'' \<noteq> Inr 1
     then fail InvalidManifest manifestPath ''tool schemaVersion must be 1''
     else
       rbind (readImplementation site kRoot manifestPath) (\<lambda>target.
       rbind (readDependencies site kRoot manifestPath) (\<lambda>(thirdParty, managedTools).
       rbind (validateDistribution site kRoot manifestPath) (\<lambda>_.
         Inr \<lparr>ti_id = toolId, ti_manifestPath = manifestRelativePath, ti_owner = owner, ti_cmakeTarget = target,
           ti_thirdPartyDependencies = thirdParty, ti_managedToolDependencies = managedTools\<rparr>)))))))))"

section \<open>The evidence authorities\<close>

definition expectedMediaType :: "string \<Rightarrow> bytes" where
  "expectedMediaType authorityClass =
     (if authorityClass = ''metric_registry'' then kMetricRegistryMediaType
      else if authorityClass = ''evaluation_policy'' then kEvaluationPolicyMediaType else [])"

definition readAuthority :: "Site \<Rightarrow> string \<Rightarrow> string \<Rightarrow>
    EvidenceAuthorityInfo list \<times> string list \<Rightarrow> dom_value \<Rightarrow> (EvidenceAuthorityInfo list \<times> string list) Result" where
  "readAuthority site repositoryRoot indexPath = (\<lambda>(authorities, ownedPaths) element.
     (case dom_get_object element of
        Inl kError \<Rightarrow> invalidManifestJson site indexPath ''an authority entry is not an object'' kError
      | Inr entry \<Rightarrow>
          rbind (manifestString site entry ''authorityClass'' indexPath) (\<lambda>authorityClass.
          rbind (manifestString site entry ''path'' indexPath) (\<lambda>relativePath.
          rbind (manifestString site entry ''mediaType'' indexPath) (\<lambda>mediaType.
          if expectedMediaType authorityClass = []
          then fail InvalidManifest relativePath ''unknown evidence authority class''
          else if mediaType \<noteq> expectedMediaType authorityClass
          then fail InvalidManifest relativePath ''media type disagrees with the declared authority class''
          else
            rbind (resolveRepositoryPath site repositoryRoot relativePath) (\<lambda>_.
            rbind (classifySite site (path_append repositoryRoot relativePath)) (\<lambda>kind.
            if kind \<noteq> KindRegular
            then fail InvalidPath relativePath (''the evidence authority is a '' @ fileKindName kind)
            else if portableLowercasePath relativePath \<in> set ownedPaths
            then fail OwnershipCollision relativePath ''the index lists this authority twice''
            else Inr (authorities @ [\<lparr>ea_authorityClass = authorityClass, ea_path = relativePath, ea_mediaType = mediaType\<rparr>],
              ownedPaths @ [portableLowercasePath relativePath]))))))))"

definition readEvidenceAuthorities :: "Site \<Rightarrow> string \<Rightarrow> string \<Rightarrow> EvidenceAuthorityInfo list Result" where
  "readEvidenceAuthorities site repositoryRoot indexPath =
     rbind (readSiteFile site indexPath kMaximumMaintainedJsonBytes) (\<lambda>input.
     rbind (parseManifestObject site input indexPath) (\<lambda>indexObject.
     case dom_array_at indexObject ''authorities'' of
       Inl kError \<Rightarrow> invalidManifestJson site indexPath ''missing or invalid array field authorities'' kError
     | Inr entries \<Rightarrow>
         if 256 < length entries
         then fail LimitExceeded ''evidence/evidence.json'' ''the index lists more than 256 authorities''
         else rbind (rfold (readAuthority site repositoryRoot indexPath) ([], []) entries) (\<lambda>(authorities, ownedPaths).
           Inr (sort_key ea_path authorities))))"

section \<open>The walks\<close>

definition relativeText :: "WalkEntry \<Rightarrow> string" where
  "relativeText entry = (case we_relative entry of None \<Rightarrow> [] | Some r \<Rightarrow> r)"

definition unlistedStep :: "string list \<Rightarrow> nat \<Rightarrow> WalkEntry \<Rightarrow> nat Result" where
  "unlistedStep allowed candidates entry =
     (if we_symlink entry then fail InvalidPath (relativeText entry) ''maintained evidence contains a link''
      else if \<not> we_regular entry then Inr candidates
      else if 256 < candidates + 1 then fail LimitExceeded ''evidence'' ''maintained evidence exceeds 256 files''
      else if we_relative entry = None \<or> portableLowercasePath (relativeText entry) \<notin> set allowed
      then fail InvalidManifest (relativeText entry) ''evidence authority is not listed in the evidence index''
      else Inr (candidates + 1))"

definition rejectUnlistedEvidenceAuthorities :: "Site \<Rightarrow> string \<Rightarrow> string \<Rightarrow> EvidenceAuthorityInfo list \<Rightarrow> Status" where
  "rejectUnlistedEvidenceAuthorities site repositoryRoot indexRelativePath authorities =
     (let kEvidenceRoot = path_append repositoryRoot ''evidence'';
          allowed = portableLowercasePath indexRelativePath # map (\<lambda>a. portableLowercasePath (ea_path a)) authorities
      in if \<not> si_exists site kEvidenceRoot then Inr ()
         else rbind (rfold (unlistedStep allowed) 0 (si_walk site kEvidenceRoot)) (\<lambda>candidates. Inr ()))"

definition unlistedToolStep :: "string list \<Rightarrow> nat \<Rightarrow> WalkEntry \<Rightarrow> nat Result" where
  "unlistedToolStep allowed candidates entry =
     (if we_symlink entry then Inr candidates
      else if \<not> we_regular entry \<or> path_filename (we_path entry) \<noteq> ''tool.json'' then Inr candidates
      else if 4096 < candidates + 1 then fail LimitExceeded ''tools'' ''tool candidate count exceeds 4096''
      else if we_relative entry = None \<or> portableLowercasePath (relativeText entry) \<notin> set allowed
      then fail InvalidManifest (relativeText entry) ''tool manifest is not listed in repository.json''
      else Inr (candidates + 1))"

definition rejectUnlistedToolManifests :: "Site \<Rightarrow> string \<Rightarrow> ToolInfo list \<Rightarrow> Status" where
  "rejectUnlistedToolManifests site root tools =
     (let kToolsRoot = path_append root ''tools''; allowed = map (\<lambda>tool. portableLowercasePath (ti_manifestPath tool)) tools
      in if \<not> si_exists site kToolsRoot then Inr ()
         else rbind (rfold (unlistedToolStep allowed) 0 (si_walk site kToolsRoot)) (\<lambda>candidates. Inr ()))"

section \<open>The validation\<close>

definition kShapeAuthorities :: "(string \<times> string) list" where
  "kShapeAuthorities =
     [(''schemas/repository.schema.json'', ''repository.json''),
      (''schemas/dependency-catalog.schema.json'', ''third_party/catalog.json''),
      (''schemas/toolchain-lock.schema.json'', ''third_party/toolchain.lock.json''),
      (''schemas/artifact-lock.schema.json'', ''third_party/artifacts.lock.json'')]"

definition checkShape :: "Site \<Rightarrow> string \<Rightarrow> unit \<Rightarrow> string \<times> string \<Rightarrow> Status" where
  "checkShape site root = (\<lambda>_ (schema, instance_path).
     validateJsonShape (siteOracle site root) root (path_append root schema) (path_append root instance_path) [])"

record Membership =
  mb_tools :: "ToolInfo list"
  mb_ids :: "string list"
  mb_targets :: "string list"
  mb_ownedPaths :: "string list"

definition admitTool :: "Site \<Rightarrow> string \<Rightarrow> Membership \<Rightarrow> string \<Rightarrow> Membership Result" where
  "admitTool site root st relativePath =
     rbind (resolveRepositoryPath site root relativePath) (\<lambda>manifest.
     rbind (validateToolManifest site root manifest relativePath) (\<lambda>tool.
       let kIdKey = portableLowercasePath (ti_id tool); kTargetKey = portableLowercasePath (ti_cmakeTarget tool);
           kPathKey = portableLowercasePath (ti_manifestPath tool)
       in if kIdKey \<in> set (mb_ids st) \<or> kTargetKey \<in> set (mb_targets st) \<or> kPathKey \<in> set (mb_ownedPaths st)
          then fail OwnershipCollision relativePath ''tool ID, target, or path ownership collides''
          else Inr \<lparr>mb_tools = mb_tools st @ [tool], mb_ids = mb_ids st @ [kIdKey],
            mb_targets = mb_targets st @ [kTargetKey], mb_ownedPaths = mb_ownedPaths st @ [kPathKey]\<rparr>))"

text \<open>The tools of the repository, sorted by identity.\<close>

definition validateTools :: "Site \<Rightarrow> string \<Rightarrow> dom_object \<Rightarrow> string \<Rightarrow> ToolInfo list Result" where
  "validateTools site root rootObject path =
     rbind (manifestStrings site rootObject ''tools'' path False) (\<lambda>toolPaths.
     rbind (rfold (admitTool site root) \<lparr>mb_tools = [], mb_ids = [], mb_targets = [], mb_ownedPaths = []\<rparr> toolPaths) (\<lambda>st.
       let tools = sort_key ti_id (mb_tools st)
       in rbind (rejectUnlistedToolManifests site root tools) (\<lambda>_. Inr tools)))"

text \<open>The evidence index and its authorities.\<close>

definition validateEvidence :: "Site \<Rightarrow> string \<Rightarrow> dom_object \<Rightarrow> string \<Rightarrow> (string \<times> EvidenceAuthorityInfo list) Result" where
  "validateEvidence site root rootObject path =
     rbind (manifestString site rootObject ''evidenceIndex'' path) (\<lambda>indexRelativePath.
     rbind (resolveRepositoryPath site root indexRelativePath) (\<lambda>indexPath.
     rbind (classifySite site (path_append root indexRelativePath)) (\<lambda>indexKind.
     if indexKind \<noteq> KindRegular
     then fail InvalidPath indexRelativePath (''the evidence index is a '' @ fileKindName indexKind)
     else
       rbind (validateJsonShape (siteOracle site root) root (path_append root ''schemas/evidence-index-v1.schema.json'')
                indexPath [path_append root ''schemas/evidence-common-v1.schema.json'']) (\<lambda>_.
       rbind (readEvidenceAuthorities site root indexPath) (\<lambda>authorities.
       rbind (rejectUnlistedEvidenceAuthorities site root indexRelativePath authorities) (\<lambda>_.
         Inr (indexRelativePath, authorities)))))))"

definition validateRepository :: "Site \<Rightarrow> string \<Rightarrow> RepositorySnapshot Result" where
  "validateRepository site repositoryRoot =
     (case si_canonical site repositoryRoot of
        None \<Rightarrow> fail InvalidPath repositoryRoot ''repository root cannot be resolved''
      | Some kCanonicalRepository \<Rightarrow>
          rbind (verifySchemaOracleVersion site kCanonicalRepository) (\<lambda>_.
          rbind (rfold (checkShape site kCanonicalRepository) () kShapeAuthorities) (\<lambda>_.
          rbind (resolveRepositoryPath site repositoryRoot ''repository.json'') (\<lambda>root.
          rbind (readSiteFile site root kMaximumMaintainedJsonBytes) (\<lambda>input.
          rbind (parseManifestObject site input root) (\<lambda>rootObject.
          if dom_int64_at rootObject ''schemaVersion'' \<noteq> Inr 4
          then fail InvalidManifest ''repository.json'' ''schemaVersion must be 4''
          else
            rbind (validateTools site kCanonicalRepository rootObject root) (\<lambda>tools.
            rbind (validateEvidence site kCanonicalRepository rootObject root) (\<lambda>(indexPath, authorities).
              let snapshot = \<lparr>sn_root = kCanonicalRepository, sn_tools = tools, sn_evidenceIndexPath = indexPath,
                    sn_evidenceAuthorities = authorities\<rparr>
              in rbind (validateDependencyAuthorities site kCanonicalRepository snapshot) (\<lambda>_. Inr snapshot)))))))))"

section \<open>What a valid repository is\<close>

lemma invalidManifestJson_case [accepts]:
  "(case r of Inl e \<Rightarrow> invalidManifestJson site p c e | Inr x \<Rightarrow> f x) = Inr y \<longleftrightarrow> (\<exists>x. r = Inr x \<and> f x = Inr y)"
  by (auto split: sum.split)

lemma rfold_snapshots:
  assumes "rfold f s xs = Inr t" and "I s" and "\<And>s x s'. I s \<Longrightarrow> f s x = Inr s' \<Longrightarrow> I s'"
  shows "I t"
  using assms(1,2)
proof (induction xs arbitrary: s)
  case (Cons x xs)
  then obtain s' where "f s x = Inr s'" "rfold f s' xs = Inr t" by (auto simp: rbind_Inr_iff)
  with Cons.IH assms(3) [OF Cons.prems(2)] show ?case by blast
qed simp

lemma validateToolManifest_ok:
  assumes "validateToolManifest site root manifest relative = Inr tool"
  shows "ti_manifestPath tool = relative \<and> starts_with (ti_id tool) ''rawframe.tool.''"
  using assms by (auto simp: validateToolManifest_def accepts)

definition tool_member :: "ToolInfo \<Rightarrow> bool" where
  "tool_member tool \<longleftrightarrow> safe_relative (ti_manifestPath tool) \<and> starts_with (ti_id tool) ''rawframe.tool.''"

definition members_ok :: "Membership \<Rightarrow> bool" where
  "members_ok st \<longleftrightarrow> list_all tool_member (mb_tools st) \<and>
     mb_ids st = map (\<lambda>tool. portableLowercasePath (ti_id tool)) (mb_tools st) \<and> distinct (map (\<lambda>tool. portableLowercasePath (ti_id tool)) (mb_tools st)) \<and>
     mb_targets st = map (\<lambda>tool. portableLowercasePath (ti_cmakeTarget tool)) (mb_tools st) \<and> distinct (map (\<lambda>tool. portableLowercasePath (ti_cmakeTarget tool)) (mb_tools st)) \<and>
     mb_ownedPaths st = map (\<lambda>tool. portableLowercasePath (ti_manifestPath tool)) (mb_tools st) \<and> distinct (map (\<lambda>tool. portableLowercasePath (ti_manifestPath tool)) (mb_tools st))"

lemma admitTool_ok:
  assumes "admitTool site root st relative = Inr st'" and "members_ok st"
  shows "members_ok st'"
proof -
  from assms(1) obtain manifest tool where resolved: "resolveRepositoryPath site root relative = Inr manifest"
    and tool: "validateToolManifest site root manifest relative = Inr tool"
    and fresh: "portableLowercasePath (ti_id tool) \<notin> set (mb_ids st)"
      "portableLowercasePath (ti_cmakeTarget tool) \<notin> set (mb_targets st)"
      "portableLowercasePath (ti_manifestPath tool) \<notin> set (mb_ownedPaths st)"
    and st': "st' = \<lparr>mb_tools = mb_tools st @ [tool], mb_ids = mb_ids st @ [portableLowercasePath (ti_id tool)],
      mb_targets = mb_targets st @ [portableLowercasePath (ti_cmakeTarget tool)],
      mb_ownedPaths = mb_ownedPaths st @ [portableLowercasePath (ti_manifestPath tool)]\<rparr>"
    by (auto simp: admitTool_def Let_def accepts)
  have "safe_relative relative"
    using resolved containsForbiddenComponent_iff [of relative] by (auto simp: resolveRepositoryPath_def accepts)
  then have "tool_member tool" using validateToolManifest_ok [OF tool] by (simp add: tool_member_def)
  then show ?thesis using assms(2) fresh unfolding st' members_ok_def by simp
qed

lemma distinct_map_sort: "distinct (map f (sort_key g xs)) \<longleftrightarrow> distinct (map f xs)"
  by (simp add: distinct_map)

definition tree_below :: "Site \<Rightarrow> string \<Rightarrow> WalkEntry list" where
  "tree_below site directory = (if si_exists site directory then si_walk site directory else [])"

lemma rejectUnlistedToolManifests_ok:
  assumes "rejectUnlistedToolManifests site root tools = Inr ()"
  shows "list_all (\<lambda>e. portableLowercasePath (relativeText e) \<in> set (map (\<lambda>tool. portableLowercasePath (ti_manifestPath tool)) tools))
    (filter (\<lambda>e. we_regular e \<and> \<not> we_symlink e \<and> path_filename (we_path e) = ''tool.json'')
      (tree_below site (path_append root ''tools'')))"
proof (cases "si_exists site (path_append root ''tools'')")
  case True
  let ?allowed = "map (\<lambda>tool. portableLowercasePath (ti_manifestPath tool)) tools"
  from assms True obtain n where "rfold (unlistedToolStep ?allowed) 0 (si_walk site (path_append root ''tools'')) = Inr n"
    by (auto simp: rejectUnlistedToolManifests_def Let_def accepts)
  then have "list_all (\<lambda>e. we_regular e \<and> \<not> we_symlink e \<and> path_filename (we_path e) = ''tool.json'' \<longrightarrow>
      portableLowercasePath (relativeText e) \<in> set ?allowed) (si_walk site (path_append root ''tools''))"
    by (rule rfold_all) (auto simp: unlistedToolStep_def split: if_splits)
  then show ?thesis using True by (auto simp: tree_below_def list_all_iff)
qed (simp add: tree_below_def)

lemma validateTools_ok:
  assumes "validateTools site root rootObject path = Inr tools"
  shows "list_all tool_member tools" and "sorted (map ti_id tools)"
    and "distinct (map (\<lambda>tool. portableLowercasePath (ti_id tool)) tools)"
    and "distinct (map (\<lambda>tool. portableLowercasePath (ti_cmakeTarget tool)) tools)"
    and "distinct (map (\<lambda>tool. portableLowercasePath (ti_manifestPath tool)) tools)"
    and "rejectUnlistedToolManifests site root tools = Inr ()"
proof -
  from assms obtain toolPaths st where
    run: "rfold (admitTool site root) \<lparr>mb_tools = [], mb_ids = [], mb_targets = [], mb_ownedPaths = []\<rparr> toolPaths = Inr st"
    and tools: "tools = sort_key ti_id (mb_tools st)" and walked: "rejectUnlistedToolManifests site root tools = Inr ()"
    by (auto simp: validateTools_def Let_def accepts)
  have ok: "members_ok st"
    by (rule rfold_snapshots [OF run]) (simp add: members_ok_def, rule admitTool_ok)
  show "sorted (map ti_id tools)" "rejectUnlistedToolManifests site root tools = Inr ()"
    using walked by (simp_all add: tools)
  show "list_all tool_member tools" using ok by (simp add: tools members_ok_def list_all_iff)
  show "distinct (map (\<lambda>tool. portableLowercasePath (ti_id tool)) tools)"
    "distinct (map (\<lambda>tool. portableLowercasePath (ti_cmakeTarget tool)) tools)"
    "distinct (map (\<lambda>tool. portableLowercasePath (ti_manifestPath tool)) tools)"
    using ok unfolding tools distinct_map_sort members_ok_def by metis+
qed

definition authority_member :: "Site \<Rightarrow> string \<Rightarrow> EvidenceAuthorityInfo \<Rightarrow> bool" where
  "authority_member site root a \<longleftrightarrow> safe_relative (ea_path a) \<and> ea_mediaType a = expectedMediaType (ea_authorityClass a) \<and>
     ea_mediaType a \<noteq> [] \<and> classifySite site (path_append root (ea_path a)) = Inr KindRegular"

lemma readAuthority_ok:
  assumes "readAuthority site root indexPath (authorities, owned) element = Inr (authorities', owned')"
    and "list_all (authority_member site root) authorities \<and> owned = map (\<lambda>a. portableLowercasePath (ea_path a)) authorities \<and>
      distinct (map (\<lambda>a. portableLowercasePath (ea_path a)) authorities)"
  shows "list_all (authority_member site root) authorities' \<and> owned' = map (\<lambda>a. portableLowercasePath (ea_path a)) authorities' \<and>
    distinct (map (\<lambda>a. portableLowercasePath (ea_path a)) authorities')"
proof -
  from assms(1) obtain authorityClass relative resolved where
    resolved: "resolveRepositoryPath site root relative = Inr resolved"
    and a: "authority_member site root \<lparr>ea_authorityClass = authorityClass, ea_path = relative,
      ea_mediaType = expectedMediaType authorityClass\<rparr> \<or> \<not> safe_relative relative"
    and new: "authorities' = authorities @ [\<lparr>ea_authorityClass = authorityClass, ea_path = relative,
      ea_mediaType = expectedMediaType authorityClass\<rparr>]" "owned' = owned @ [portableLowercasePath relative]"
      "portableLowercasePath relative \<notin> set owned"
    by (auto simp: readAuthority_def accepts authority_member_def)
  have "safe_relative relative"
    using resolved containsForbiddenComponent_iff [of relative] by (auto simp: resolveRepositoryPath_def accepts)
  with a new assms(2) show ?thesis by simp
qed

lemma readEvidenceAuthorities_ok:
  assumes "readEvidenceAuthorities site root indexPath = Inr authorities"
  shows "list_all (authority_member site root) authorities"
    and "distinct (map (\<lambda>a. portableLowercasePath (ea_path a)) authorities)"
proof -
  from assms obtain entries kept owned where run: "rfold (readAuthority site root indexPath) ([], []) entries = Inr (kept, owned)"
    and authorities: "authorities = sort_key ea_path kept"
    by (auto simp: readEvidenceAuthorities_def accepts)
  have ok: "case (kept, owned) of (kept, owned) \<Rightarrow> list_all (authority_member site root) kept \<and>
      owned = map (\<lambda>a. portableLowercasePath (ea_path a)) kept \<and>
      distinct (map (\<lambda>a. portableLowercasePath (ea_path a)) kept)"
    by (rule rfold_snapshots [OF run]) (simp, use readAuthority_ok in \<open>fast\<close>)
  show "list_all (authority_member site root) authorities" using ok by (simp add: authorities list_all_iff)
  show "distinct (map (\<lambda>a. portableLowercasePath (ea_path a)) authorities)"
    using ok unfolding authorities distinct_map_sort by simp
qed

lemma rejectUnlistedEvidence_ok:
  assumes "rejectUnlistedEvidenceAuthorities site root indexPath authorities = Inr ()"
  shows "list_all (\<lambda>e. \<not> we_symlink e) (tree_below site (path_append root ''evidence''))"
    and "list_all (\<lambda>e. portableLowercasePath (relativeText e) \<in> set (map portableLowercasePath (indexPath # map ea_path authorities)))
      (filter we_regular (tree_below site (path_append root ''evidence'')))"
proof -
  let ?allowed = "portableLowercasePath indexPath # map (\<lambda>a. portableLowercasePath (ea_path a)) authorities"
  have "list_all (\<lambda>e. \<not> we_symlink e \<and> (we_regular e \<longrightarrow> portableLowercasePath (relativeText e) \<in> set ?allowed))
      (tree_below site (path_append root ''evidence''))"
  proof (cases "si_exists site (path_append root ''evidence'')")
    case True
    with assms obtain n where "rfold (unlistedStep ?allowed) 0 (si_walk site (path_append root ''evidence'')) = Inr n"
      by (auto simp: rejectUnlistedEvidenceAuthorities_def Let_def accepts)
    then show ?thesis
      unfolding tree_below_def if_P [OF True] by (rule rfold_all) (auto simp: unlistedStep_def split: if_splits)
  qed (simp add: tree_below_def)
  then show "list_all (\<lambda>e. \<not> we_symlink e) (tree_below site (path_append root ''evidence''))"
    "list_all (\<lambda>e. portableLowercasePath (relativeText e) \<in> set (map portableLowercasePath (indexPath # map ea_path authorities)))
      (filter we_regular (tree_below site (path_append root ''evidence'')))"
    by (auto simp: list_all_iff)
qed

lemma validateEvidence_ok:
  assumes "validateEvidence site root rootObject path = Inr (indexPath, authorities)"
  shows "\<exists>resolved. resolveRepositoryPath site root indexPath = Inr resolved \<and>
    readEvidenceAuthorities site root resolved = Inr authorities \<and>
    rejectUnlistedEvidenceAuthorities site root indexPath authorities = Inr ()"
  using assms by (auto simp: validateEvidence_def accepts)

lemma validateRepository_ok:
  assumes "validateRepository site repositoryRoot = Inr snapshot"
  shows "\<exists>rootObject path. si_canonical site repositoryRoot = Some (sn_root snapshot) \<and>
    validateTools site (sn_root snapshot) rootObject path = Inr (sn_tools snapshot) \<and>
    validateEvidence site (sn_root snapshot) rootObject path = Inr (sn_evidenceIndexPath snapshot, sn_evidenceAuthorities snapshot) \<and>
    validateDependencyAuthorities site (sn_root snapshot) snapshot = Inr ()"
proof -
  from assms obtain root path rootObject tools indexPath authorities where "si_canonical site repositoryRoot = Some root"
    "validateTools site root rootObject path = Inr tools"
    "validateEvidence site root rootObject path = Inr (indexPath, authorities)"
    "snapshot = \<lparr>sn_root = root, sn_tools = tools, sn_evidenceIndexPath = indexPath, sn_evidenceAuthorities = authorities\<rparr>"
    "validateDependencyAuthorities site root snapshot = Inr ()"
    by (auto simp: validateRepository_def Let_def accepts)
  then show ?thesis by auto
qed


end
