(* ===== verification/Evidence_Licenses.thy ===== *)
theory Evidence_Licenses
  imports Evidence_Repository
begin

text \<open>
  \<open>tools/rf_evidence/src/license_review.cpp\<close>: the review of the license index against the catalog and
  against the bytes of the license material.
\<close>

definition kMaximumLicenseRecords :: nat where "kMaximumLicenseRecords = 256"

record LicenseMaterial =
  lm_path :: string
  lm_byteSize :: nat
  lm_sha256 :: string

record LicenseReviewEntry =
  lr_licenseId :: string
  lr_catalogIds :: "string list"
  lr_spdxExpression :: string
  lr_materialPath :: string
  lr_sectionHeading :: string
  lr_redistribution :: string
  lr_approval :: string
  lr_advisoryPolicy :: string

record LicenseReview =
  lv_materials :: "LicenseMaterial list"
  lv_entries :: "LicenseReviewEntry list"
  lv_catalogEntryCount :: nat
  lv_restrictedCount :: nat

record CatalogLicenseFacts =
  cf_spdxExpression :: string
  cf_redistribution :: string
  cf_approval :: string
  cf_advisoryPolicy :: string

definition licenseString :: "dom_object \<Rightarrow> string \<Rightarrow> string \<Rightarrow> string Result" where
  "licenseString object key path =
     (case dom_string_at object key of
        Inl _ \<Rightarrow> fail InvalidJson path (''missing or invalid string field '' @ key)
      | Inr v \<Rightarrow> Inr v)"

section \<open>The facts of the catalog\<close>

definition catalogFact ::
  "string \<Rightarrow> (string, CatalogLicenseFacts) omap \<Rightarrow> dom_value \<Rightarrow> (string, CatalogLicenseFacts) omap Result" where
  "catalogFact path facts kEntryElement =
     (if kMaximumLicenseRecords \<le> length facts then fail LimitExceeded path ''catalog exceeds the license review limit''
      else case dom_get_object kEntryElement of
        Inl _ \<Rightarrow> fail InvalidJson path ''catalog entry must be an object''
      | Inr entry \<Rightarrow>
          rbind (licenseString entry ''id'' path) (\<lambda>entryId.
          case dom_object_at entry ''license'' of
            Inl _ \<Rightarrow> fail InvalidJson path ''catalog entry lacks a license object''
          | Inr license \<Rightarrow>
              (case dom_object_at entry ''security'' of
                 Inl _ \<Rightarrow> fail InvalidJson path ''catalog entry lacks a security object''
               | Inr security \<Rightarrow>
                   (case (licenseString license ''spdxExpression'' path, licenseString license ''redistribution'' path,
                          licenseString license ''approval'' path, licenseString security ''advisoryPolicy'' path) of
                      (Inr spdx, Inr redistribution, Inr approval, Inr advisoryPolicy) \<Rightarrow>
                        if map_of facts entryId \<noteq> None
                        then fail OwnershipCollision path ''catalog contains a duplicate ID''
                        else Inr (omap_emplace entryId \<lparr>cf_spdxExpression = spdx, cf_redistribution = redistribution,
                          cf_approval = approval, cf_advisoryPolicy = advisoryPolicy\<rparr> facts)
                    | _ \<Rightarrow> fail InvalidJson path ''catalog license/security facts are incomplete''))))"

text \<open>The object at the root of a document the review reads.\<close>

definition readReviewed :: "Site \<Rightarrow> string \<Rightarrow> string \<Rightarrow> string \<Rightarrow> (string \<times> dom_object) Result" where
  "readReviewed site repositoryRoot relative message =
     rbind (resolveRepositoryPath site repositoryRoot relative) (\<lambda>path.
     rbind (validateJsonAdmission site path) (\<lambda>_.
     rbind (readSiteFile site path kMaximumMaintainedJsonBytes) (\<lambda>input.
     case rbind (si_parse site input) dom_get_object of
       Inl _ \<Rightarrow> fail InvalidJson path message
     | Inr root \<Rightarrow> Inr (path, root))))"

definition readCatalogLicenseFacts :: "Site \<Rightarrow> string \<Rightarrow> (string, CatalogLicenseFacts) omap Result" where
  "readCatalogLicenseFacts site repositoryRoot =
     rbind (readReviewed site repositoryRoot ''third_party/catalog.json'' ''catalog must be a JSON object'') (\<lambda>(path, root).
     case dom_array_at root ''entries'' of
       Inl _ \<Rightarrow> fail InvalidJson path ''catalog entries array is missing''
     | Inr entries \<Rightarrow> rfold (catalogFact path) [] entries)"

section \<open>The material\<close>

definition reviewMaterial :: "Site \<Rightarrow> string \<Rightarrow> string \<Rightarrow> LicenseMaterial list \<Rightarrow> dom_value \<Rightarrow> LicenseMaterial list Result" where
  "reviewMaterial site repositoryRoot indexPath materials kMaterialElement =
     (if kMaximumLicenseRecords \<le> length materials
      then fail LimitExceeded indexPath ''license materials exceed the review limit''
      else case dom_get_object kMaterialElement of
        Inl _ \<Rightarrow> fail InvalidJson indexPath ''license material must be an object''
      | Inr material \<Rightarrow>
          rbind (licenseString material ''path'' indexPath) (\<lambda>relativePath.
          rbind (licenseString material ''sha256'' indexPath) (\<lambda>expectedSha256.
          case dom_int64_at material ''byteSize'' of
            Inl _ \<Rightarrow> fail InvalidJson indexPath ''license material byteSize is invalid''
          | Inr expectedBytes \<Rightarrow>
              if expectedBytes \<le> 0 then fail InvalidJson indexPath ''license material byteSize is invalid''
              else if \<not> starts_with relativePath ''third_party/licenses/''
              then fail InvalidPath relativePath ''license material must live under third_party/licenses''
              else if relativePath \<in> lm_path ` set materials
              then fail OwnershipCollision relativePath ''license material path is duplicated''
              else
                rbind (resolveRepositoryPath site repositoryRoot relativePath) (\<lambda>materialFile.
                if pb_size (su_probe site materialFile) \<noteq> Some (nat expectedBytes)
                then fail VerificationFailed relativePath ''license material byte length does not match''
                else
                  rbind (sha256File (su_provider site) materialFile (su_reads site materialFile)) (\<lambda>actualSha256.
                  if actualSha256 \<noteq> expectedSha256
                  then fail VerificationFailed relativePath ''license material digest does not match''
                  else Inr (materials @ [\<lparr>lm_path = relativePath, lm_byteSize = nat expectedBytes,
                    lm_sha256 = actualSha256\<rparr>]))))))"

definition verifyMaterials :: "Site \<Rightarrow> string \<Rightarrow> dom_object \<Rightarrow> string \<Rightarrow> LicenseMaterial list Result" where
  "verifyMaterials site repositoryRoot indexRoot indexPath =
     (case dom_array_at indexRoot ''materials'' of
        Inl _ \<Rightarrow> fail InvalidJson indexPath ''license index lacks a materials array''
      | Inr materialsArray \<Rightarrow>
          rbind (rfold (reviewMaterial site repositoryRoot indexPath) [] materialsArray) (\<lambda>materials.
            if materials = [] then fail InvalidManifest indexPath ''license index lists no material''
            else Inr (sort_key lm_path materials)))"

section \<open>The entries\<close>

definition reviewFields :: "dom_object \<Rightarrow> string \<Rightarrow> LicenseReviewEntry Result" where
  "reviewFields entry indexPath =
     rbind (licenseString entry ''id'' indexPath) (\<lambda>licenseId.
     rbind (licenseString entry ''spdxExpression'' indexPath) (\<lambda>spdx.
     rbind (licenseString entry ''materialPath'' indexPath) (\<lambda>materialPath.
     rbind (licenseString entry ''sectionHeading'' indexPath) (\<lambda>sectionHeading.
     rbind (licenseString entry ''redistribution'' indexPath) (\<lambda>redistribution.
     rbind (licenseString entry ''approval'' indexPath) (\<lambda>approval.
       Inr \<lparr>lr_licenseId = licenseId, lr_catalogIds = [], lr_spdxExpression = spdx, lr_materialPath = materialPath,
         lr_sectionHeading = sectionHeading, lr_redistribution = redistribution, lr_approval = approval,
         lr_advisoryPolicy = []\<rparr>))))))"

definition reviewCatalogId :: "(string, CatalogLicenseFacts) omap \<Rightarrow> string \<Rightarrow>
    LicenseReviewEntry \<times> string list \<Rightarrow> dom_value \<Rightarrow> (LicenseReviewEntry \<times> string list) Result" where
  "reviewCatalogId catalogFacts indexPath = (\<lambda>(reviewEntry, coveredCatalogIds) kCatalogIdElement.
     (case dom_get_string kCatalogIdElement of
        Inl _ \<Rightarrow> fail InvalidJson indexPath ''license catalogIds must be strings''
      | Inr catalogId \<Rightarrow>
          (case map_of catalogFacts catalogId of
             None \<Rightarrow> fail MissingInput catalogId ''license entry references an unknown catalog ID''
           | Some kFacts \<Rightarrow>
               if catalogId \<in> set coveredCatalogIds
               then fail OwnershipCollision catalogId ''catalog ID is covered by more than one license entry''
               else if cf_spdxExpression kFacts \<noteq> lr_spdxExpression reviewEntry \<or>
                 cf_redistribution kFacts \<noteq> lr_redistribution reviewEntry \<or> cf_approval kFacts \<noteq> lr_approval reviewEntry
               then fail VerificationFailed catalogId ''license index disagrees with the catalog license authority''
               else if lr_advisoryPolicy reviewEntry \<noteq> [] \<and> lr_advisoryPolicy reviewEntry \<noteq> cf_advisoryPolicy kFacts
               then fail VerificationFailed catalogId ''license entry spans conflicting advisory policies''
               else Inr (reviewEntry\<lparr>lr_catalogIds := lr_catalogIds reviewEntry @ [catalogId],
                   lr_advisoryPolicy := (if lr_advisoryPolicy reviewEntry = [] then cf_advisoryPolicy kFacts
                     else lr_advisoryPolicy reviewEntry)\<rparr>, coveredCatalogIds @ [catalogId]))))"

definition reviewEntryStep :: "(string, CatalogLicenseFacts) omap \<Rightarrow> string list \<Rightarrow> string \<Rightarrow>
    LicenseReview \<times> string list \<Rightarrow> dom_value \<Rightarrow> (LicenseReview \<times> string list) Result" where
  "reviewEntryStep catalogFacts materialPaths indexPath = (\<lambda>(review, coveredCatalogIds) kEntryElement.
     (if kMaximumLicenseRecords \<le> length (lv_entries review)
      then fail LimitExceeded indexPath ''license entries exceed the review limit''
      else case dom_get_object kEntryElement of
        Inl _ \<Rightarrow> fail InvalidJson indexPath ''license entry must be an object''
      | Inr entry \<Rightarrow>
          rbind (reviewFields entry indexPath) (\<lambda>reviewEntry.
          if lr_materialPath reviewEntry \<notin> set materialPaths
          then fail InvalidManifest (lr_licenseId reviewEntry) ''license entry references unindexed material''
          else if lr_approval reviewEntry \<noteq> ''approved'' \<and> lr_approval reviewEntry \<noteq> ''restricted''
          then fail InvalidManifest (lr_licenseId reviewEntry) ''license approval state is unknown''
          else case dom_array_at entry ''catalogIds'' of
            Inl _ \<Rightarrow> fail InvalidJson indexPath ''license entry lacks catalogIds''
          | Inr catalogIdsArray \<Rightarrow>
              rbind (rfold (reviewCatalogId catalogFacts indexPath) (reviewEntry, coveredCatalogIds) catalogIdsArray)
                (\<lambda>(reviewed, covered).
                if lr_catalogIds reviewed = []
                then fail InvalidManifest (lr_licenseId reviewed) ''license entry covers no catalog ID''
                else Inr (review\<lparr>lv_entries := lv_entries review @ [reviewed\<lparr>lr_catalogIds := sort (lr_catalogIds reviewed)\<rparr>],
                    lv_restrictedCount := lv_restrictedCount review +
                      (if lr_approval reviewed = ''restricted'' then 1 else 0)\<rparr>, covered)))))"

definition coveredStep :: "string list \<Rightarrow> unit \<Rightarrow> string \<times> CatalogLicenseFacts \<Rightarrow> Status" where
  "coveredStep coveredCatalogIds = (\<lambda>_ (catalogId, facts).
     if catalogId \<notin> set coveredCatalogIds then fail MissingInput catalogId ''catalog entry has no license review coverage''
     else Inr ())"

fun adjacentDuplicate :: "LicenseReviewEntry list \<Rightarrow> LicenseReviewEntry option" where
  "adjacentDuplicate (a # b # rest) =
     (if lr_licenseId a = lr_licenseId b then Some a else adjacentDuplicate (b # rest))"
| "adjacentDuplicate _ = None"

definition reviewLicenses :: "Site \<Rightarrow> string \<Rightarrow> LicenseReview Result" where
  "reviewLicenses site repositoryRoot =
     rbind (readCatalogLicenseFacts site repositoryRoot) (\<lambda>catalogFacts.
     rbind (readReviewed site repositoryRoot ''third_party/licenses/index.json'' ''license index must be a JSON object'')
       (\<lambda>(indexPath, indexRoot).
     if dom_int64_at indexRoot ''schemaVersion'' \<noteq> Inr 1
     then fail InvalidJson indexPath ''license index schemaVersion must be 1''
     else
       rbind (verifyMaterials site repositoryRoot indexRoot indexPath) (\<lambda>materials.
       case dom_array_at indexRoot ''entries'' of
         Inl _ \<Rightarrow> fail InvalidJson indexPath ''license index lacks an entries array''
       | Inr entriesArray \<Rightarrow>
           rbind (rfold (reviewEntryStep catalogFacts (map lm_path materials) indexPath)
               (\<lparr>lv_materials = materials, lv_entries = [], lv_catalogEntryCount = length catalogFacts,
                 lv_restrictedCount = 0\<rparr>, []) entriesArray) (\<lambda>(review, coveredCatalogIds).
           rbind (rfold (coveredStep coveredCatalogIds) () catalogFacts) (\<lambda>_.
             let sorted_entries = sort_key lr_licenseId (lv_entries review)
             in case adjacentDuplicate sorted_entries of
                  Some duplicate \<Rightarrow>
                    fail OwnershipCollision (lr_licenseId duplicate) ''license index contains a duplicate entry ID''
                | None \<Rightarrow> Inr (review\<lparr>lv_entries := sorted_entries\<rparr>))))))"

section \<open>What a review that succeeds says\<close>

lemma licenseString_ok: "licenseString ms key path = Inr t \<longleftrightarrow> map_of ms key = Some (DString t)"
  by (cases "dom_string_at ms key") (auto simp: licenseString_def simp flip: dom_at_iff(4))

text \<open>An entry agrees with the catalog about every dependency it names.\<close>

definition entry_agrees :: "(string, CatalogLicenseFacts) omap \<Rightarrow> LicenseReviewEntry \<Rightarrow> bool" where
  "entry_agrees facts entry \<longleftrightarrow>
     list_all (\<lambda>i. map_option (\<lambda>f. (cf_spdxExpression f, cf_redistribution f, cf_approval f)) (map_of facts i) =
       Some (lr_spdxExpression entry, lr_redistribution entry, lr_approval entry)) (lr_catalogIds entry)"

lemma reviewCatalogId_ok:
  assumes "reviewCatalogId facts path (entry, covered) e = Inr (entry', covered')"
  obtains catalogId policy where "entry' = entry\<lparr>lr_catalogIds := lr_catalogIds entry @ [catalogId], lr_advisoryPolicy := policy\<rparr>"
    "covered' = covered @ [catalogId]" "catalogId \<notin> set covered" "entry_agrees facts (entry\<lparr>lr_catalogIds := [catalogId]\<rparr>)"
  using assms by (auto simp: reviewCatalogId_def accepts entry_agrees_def)

lemma reviewCatalogIds_ok:
  "rfold (reviewCatalogId facts path) (entry, covered) es = Inr (entry', covered') \<Longrightarrow>
     entry_agrees facts entry \<and> distinct covered \<Longrightarrow>
     \<exists>ids. lr_catalogIds entry' = lr_catalogIds entry @ ids \<and> covered' = covered @ ids \<and> distinct (covered @ ids) \<and>
       entry_agrees facts entry' \<and> lr_licenseId entry' = lr_licenseId entry \<and> lr_materialPath entry' = lr_materialPath entry \<and>
       lr_approval entry' = lr_approval entry"
proof (induction es arbitrary: entry covered)
  case (Cons e es)
  then obtain one middle where step: "reviewCatalogId facts path (entry, covered) e = Inr (one, middle)"
    and rest: "rfold (reviewCatalogId facts path) (one, middle) es = Inr (entry', covered')"
    by (auto simp: rbind_Inr_iff)
  from reviewCatalogId_ok [OF step] obtain catalogId policy where one:
    "one = entry\<lparr>lr_catalogIds := lr_catalogIds entry @ [catalogId], lr_advisoryPolicy := policy\<rparr>"
    "middle = covered @ [catalogId]" "catalogId \<notin> set covered" "entry_agrees facts (entry\<lparr>lr_catalogIds := [catalogId]\<rparr>)" .
  have "entry_agrees facts one \<and> distinct middle"
    using Cons.prems(2) one by (simp add: entry_agrees_def)
  from Cons.IH [OF rest this] obtain ids where "lr_catalogIds entry' = lr_catalogIds one @ ids" "covered' = middle @ ids"
    "distinct (middle @ ids)" "entry_agrees facts entry'" "lr_licenseId entry' = lr_licenseId one"
    "lr_materialPath entry' = lr_materialPath one" "lr_approval entry' = lr_approval one"
    by blast
  then show ?case using one(1,2) by (intro exI [where x = "catalogId # ids"]) simp
qed (auto intro: exI [where x = "[]"])

text \<open>What the loop over the entries keeps.\<close>

definition review_ok :: "(string, CatalogLicenseFacts) omap \<Rightarrow> string list \<Rightarrow> LicenseReview \<times> string list \<Rightarrow> bool" where
  "review_ok facts paths = (\<lambda>(review, covered).
     list_all (entry_agrees facts) (lv_entries review) \<and>
     list_all (\<lambda>e. lr_materialPath e \<in> set paths \<and> lr_catalogIds e \<noteq> []) (lv_entries review) \<and>
     mset covered = mset (concat (map lr_catalogIds (lv_entries review))) \<and>
     distinct (concat (map lr_catalogIds (lv_entries review))) \<and>
     lv_restrictedCount review = length (filter (\<lambda>e. lr_approval e = ''restricted'') (lv_entries review)))"

lemma entry_agrees_sort [simp]: "entry_agrees facts (e\<lparr>lr_catalogIds := sort ids\<rparr>) \<longleftrightarrow> entry_agrees facts (e\<lparr>lr_catalogIds := ids\<rparr>)"
  by (simp add: entry_agrees_def list_all_iff)

lemma sort_nil_iff [simp]: "sort xs = [] \<longleftrightarrow> xs = []"
  by (metis set_empty set_sort)

lemma reviewEntryStep_ok:
  assumes "reviewEntryStep facts paths indexPath st e = Inr st'" and "review_ok facts paths st"
  shows "review_ok facts paths st' \<and> lv_materials (fst st') = lv_materials (fst st) \<and>
    lv_catalogEntryCount (fst st') = lv_catalogEntryCount (fst st)"
proof -
  obtain review covered where st: "st = (review, covered)" by fastforce
  from assms(1) obtain entry start es reviewed covered' where
    start: "reviewFields entry indexPath = Inr start" "lr_materialPath start \<in> set paths"
    and run: "rfold (reviewCatalogId facts indexPath) (start, covered) es = Inr (reviewed, covered')"
    and filled: "lr_catalogIds reviewed \<noteq> []"
    and st': "st' = (review\<lparr>lv_entries := lv_entries review @ [reviewed\<lparr>lr_catalogIds := sort (lr_catalogIds reviewed)\<rparr>],
        lv_restrictedCount := lv_restrictedCount review + (if lr_approval reviewed = ''restricted'' then 1 else 0)\<rparr>, covered')"
    unfolding st by (auto simp: reviewEntryStep_def accepts simp del: sum.case)
  have none: "lr_catalogIds start = []"
    using start(1) by (auto simp: reviewFields_def accepts)
  have covered_distinct: "distinct covered"
    using assms(2) mset_eq_imp_distinct_iff unfolding st review_ok_def by blast
  have "entry_agrees facts start \<and> distinct covered" using none covered_distinct by (simp add: entry_agrees_def)
  from reviewCatalogIds_ok [OF run this] none obtain ids where ids: "lr_catalogIds reviewed = ids" "covered' = covered @ ids"
    "distinct (covered @ ids)" "entry_agrees facts reviewed" "lr_materialPath reviewed = lr_materialPath start"
    by auto
  have "set covered = set (concat (map lr_catalogIds (lv_entries review)))"
    using assms(2) mset_eq_setD unfolding st review_ok_def by blast
  then show ?thesis
    using assms(2) ids start(2) filled unfolding st st' review_ok_def by (auto simp: entry_agrees_def list_all_iff)
qed

lemma adjacentDuplicate_None:
  "adjacentDuplicate es = None \<Longrightarrow> sorted (map lr_licenseId es) \<Longrightarrow> distinct (map lr_licenseId es)"
proof (induction es rule: adjacentDuplicate.induct)
  case (1 a b rest)
  have ab: "lr_licenseId a \<noteq> lr_licenseId b" and rest: "adjacentDuplicate (b # rest) = None"
    using 1(2) by (auto split: if_splits)
  have "distinct (map lr_licenseId (b # rest))"
    using 1(1) [OF ab rest] 1(3) by simp
  moreover have "lr_licenseId a \<notin> set (map lr_licenseId (b # rest))"
    using 1(3) ab by (fastforce simp: order.antisym)
  ultimately show ?case by simp
qed auto

text \<open>The bytes of a material are the ones the index states.\<close>

definition material_matches :: "Site \<Rightarrow> string \<Rightarrow> LicenseMaterial \<Rightarrow> bool" where
  "material_matches site repositoryRoot m =
     (case resolveRepositoryPath site repositoryRoot (lm_path m) of
        Inl _ \<Rightarrow> False
      | Inr materialFile \<Rightarrow>
          starts_with (lm_path m) ''third_party/licenses/'' \<and>
          pb_size (su_probe site materialFile) = Some (lm_byteSize m) \<and>
          sha256File (su_provider site) materialFile (su_reads site materialFile) = Inr (lm_sha256 m))"

lemma verifyMaterials_ok:
  assumes "verifyMaterials site root ms path = Inr materials"
  shows "list_all (material_matches site root) materials \<and> distinct (map lm_path materials)"
proof -
  from assms obtain es found where run: "rfold (reviewMaterial site root path) [] es = Inr found"
    and materials: "materials = sort_key lm_path found"
    by (auto simp: verifyMaterials_def accepts)
  have "list_all (material_matches site root) found \<and> distinct (map lm_path found)"
  proof (rule rfold_invariant [OF run])
    fix e s s'
    assume "list_all (material_matches site root) s \<and> distinct (map lm_path s)"
      and "reviewMaterial site root path s e = Inr s'"
    then show "list_all (material_matches site root) s' \<and> distinct (map lm_path s')"
      by (auto simp: reviewMaterial_def accepts material_matches_def)
  qed simp
  then show ?thesis
    unfolding materials by (simp add: distinct_map_sort list_all_iff)
qed

text \<open>What a review promises: it is the catalog, covered entry by entry, and the bytes of the material.\<close>

definition review_of :: "Site \<Rightarrow> string \<Rightarrow> (string, CatalogLicenseFacts) omap \<Rightarrow> LicenseReview \<Rightarrow> bool" where
  "review_of site root facts review \<longleftrightarrow>
     list_all (material_matches site root) (lv_materials review) \<and>
     list_all (entry_agrees facts) (lv_entries review) \<and>
     list_all (\<lambda>e. lr_materialPath e \<in> lm_path ` set (lv_materials review)) (lv_entries review) \<and>
     distinct (map lr_licenseId (lv_entries review)) \<and>
     distinct (concat (map lr_catalogIds (lv_entries review))) \<and>
     set (concat (map lr_catalogIds (lv_entries review))) = fst ` set facts \<and>
     lv_catalogEntryCount review = length facts \<and>
     lv_restrictedCount review = length (filter (\<lambda>e. lr_approval e = ''restricted'') (lv_entries review))"

lemma rfold_coveredStep:
  "rfold (coveredStep covered) () facts = Inr () \<longleftrightarrow> fst ` set facts \<subseteq> set covered"
  by (induction facts) (auto simp: coveredStep_def rbind_Inr_iff fail_def split: if_split_asm)

lemma entries_within_the_catalog:
  "list_all (entry_agrees facts) es \<Longrightarrow> set (concat (map lr_catalogIds es)) \<subseteq> fst ` set facts"
  by (fastforce simp: list_all_iff entry_agrees_def dest: map_of_SomeD intro: rev_image_eqI)

lemma distinct_concat_mset:
  "mset es = mset es' \<Longrightarrow> distinct (concat (map f es)) = distinct (concat (map f es'))"
  by (metis mset_concat mset_eq_imp_distinct_iff mset_map sum_mset_sum_list)

lemma reviewLicenses_ok:
  assumes "reviewLicenses site root = Inr review" and "readCatalogLicenseFacts site root = Inr facts"
  shows "review_of site root facts review"
proof -
  from assms obtain ms path es materials review' covered where
    materials: "verifyMaterials site root ms path = Inr materials"
    and run: "rfold (reviewEntryStep facts (map lm_path materials) path)
      (\<lparr>lv_materials = materials, lv_entries = [], lv_catalogEntryCount = length facts, lv_restrictedCount = 0\<rparr>, []) es =
        Inr (review', covered)"
    and covered: "rfold (coveredStep covered) () facts = Inr ()"
    and none: "adjacentDuplicate (sort_key lr_licenseId (lv_entries review')) = None"
    and review: "review = review'\<lparr>lv_entries := sort_key lr_licenseId (lv_entries review')\<rparr>"
    by (auto simp: reviewLicenses_def accepts Let_def split: option.split_asm)
  let ?I = "\<lambda>st. review_ok facts (map lm_path materials) st \<and> lv_materials (fst st) = materials \<and>
    lv_catalogEntryCount (fst st) = length facts"
  have inv: "?I (review', covered)"
    by (rule rfold_invariant [OF run, where P = ?I]) (auto simp: review_ok_def dest: reviewEntryStep_ok)
  have all: "set covered = set (concat (map lr_catalogIds (lv_entries review')))"
    using inv mset_eq_setD unfolding review_ok_def by blast
  have "distinct (map lr_licenseId (sort_key lr_licenseId (lv_entries review')))"
    by (rule adjacentDuplicate_None [OF none]) simp
  moreover have "distinct (concat (map lr_catalogIds (sort_key lr_licenseId (lv_entries review'))))"
    using inv distinct_concat_mset [of "sort_key lr_licenseId (lv_entries review')" "lv_entries review'" lr_catalogIds]
    by (simp add: review_ok_def)
  moreover have "set (concat (map lr_catalogIds (lv_entries review'))) = fst ` set facts"
    using entries_within_the_catalog [of facts "lv_entries review'"] inv covered all
    by (simp add: review_ok_def rfold_coveredStep subset_antisym)
  ultimately show ?thesis
    using verifyMaterials_ok [OF materials] inv
    unfolding review_of_def review review_ok_def by (simp add: list_all_iff filter_sort)
qed


end
