(* ===== verification/Evidence_Sources.thy ===== *)
theory Evidence_Sources
  imports Evidence_Repository
begin

text \<open>
  \<open>tools/rf_evidence/src/source_inspector.cpp\<close> and its header: the physical lines of the maintained source
  below the roots of the tools, their owners, and the gates at 600, 1000 and 1500 lines.
\<close>

section \<open>Gates and classes\<close>

definition kOwnershipReviewLines :: nat where "kOwnershipReviewLines = 600"
definition kFeatureGrowthStopLines :: nat where "kFeatureGrowthStopLines = 1000"
definition kHardFailureLines :: nat where "kHardFailureLines = 1500"

datatype SourceGate = GateOk | OwnershipReviewRequired | FeatureGrowthStopped

definition sourceGateForLines :: "nat \<Rightarrow> SourceGate" where
  "sourceGateForLines lines =
     (if kFeatureGrowthStopLines \<le> lines then FeatureGrowthStopped
      else if kOwnershipReviewLines \<le> lines then OwnershipReviewRequired else GateOk)"

fun sourceGateName :: "SourceGate \<Rightarrow> string" where
  "sourceGateName OwnershipReviewRequired = ''ownership_review_required''"
| "sourceGateName FeatureGrowthStopped = ''feature_growth_stopped''"
| "sourceGateName GateOk = ''ok''"

fun sourceGateSeverity :: "SourceGate \<Rightarrow> string" where
  "sourceGateSeverity OwnershipReviewRequired = ''warning''"
| "sourceGateSeverity FeatureGrowthStopped = ''blocking''"
| "sourceGateSeverity GateOk = ''ok''"

datatype SourceClassification = ClassMaintained | ClassGenerated | ClassVendored

fun sourceClassificationName :: "SourceClassification \<Rightarrow> string" where
  "sourceClassificationName ClassGenerated = ''generated''"
| "sourceClassificationName ClassVendored = ''vendored''"
| "sourceClassificationName ClassMaintained = ''maintained''"

definition isExemptFromLineThresholds :: "SourceClassification \<Rightarrow> bool" where
  "isExemptFromLineThresholds classification \<longleftrightarrow> classification \<noteq> ClassMaintained"

definition classifyRepositoryPath :: "string \<Rightarrow> SourceClassification" where
  "classifyRepositoryPath relativePath =
     (if starts_with relativePath ''out/'' then ClassGenerated
      else if starts_with relativePath ''third_party/'' then ClassVendored else ClassMaintained)"

definition admitPhysicalLineCount :: "string \<Rightarrow> nat \<Rightarrow> Status" where
  "admitPhysicalLineCount path lines =
     (if kHardFailureLines \<le> lines then fail LimitExceeded path ''source file reaches the 1500-line hard failure gate''
      else Inr ())"

record SourceOwnershipEntry =
  so_path :: string
  so_lines :: nat
  so_owner :: string
  so_gate :: SourceGate
  so_classification :: SourceClassification

section \<open>Counting\<close>

text \<open>The lines \<open>getline\<close> extracts: each ends at a terminator or at the end of a text that is not empty.\<close>

function physicalLines :: "bytes \<Rightarrow> nat" where
  "physicalLines content =
     (if content = [] then 0 else Suc (physicalLines (drop 1 (dropWhile (\<lambda>c. c \<noteq> CHR 0x0A) content))))"
  by pat_completeness auto
termination
proof (relation "measure length")
  fix content :: bytes
  assume "content \<noteq> []"
  then show "(drop 1 (dropWhile (\<lambda>c. c \<noteq> CHR 0x0A) content), content) \<in> measure length"
    using length_dropWhile_le [of "\<lambda>c. c \<noteq> CHR 0x0A" content] by (cases content) auto
qed simp

declare physicalLines.simps [simp del]

definition countPhysicalLines :: "Site \<Rightarrow> string \<Rightarrow> nat Result" where
  "countPhysicalLines site path =
     (if \<not> fr_opens (su_reads site path) then fail IoFailure path ''failed to read maintained source''
      else Inr (physicalLines (concat (fr_chunks (su_reads site path)))))"

definition isMaintainedSourceName :: "string \<Rightarrow> bool" where
  "isMaintainedSourceName path \<longleftrightarrow>
     path_extension path = ''.cpp'' \<or> path_extension path = ''.h'' \<or> path_extension path = ''.json'' \<or>
     path_filename path = ''CMakeLists.txt''"

section \<open>Inspecting\<close>

definition inspectSource ::
  "Site \<Rightarrow> string \<Rightarrow> SourceOwnershipEntry list \<Rightarrow> WalkEntry \<Rightarrow> SourceOwnershipEntry list Result" where
  "inspectSource site owner entries entry =
     (if we_symlink entry then fail InvalidPath (we_path entry) ''symlinks are forbidden in maintained tool source''
      else if \<not> we_regular entry \<or> \<not> isMaintainedSourceName (we_path entry) then Inr entries
      else
        rbind (countPhysicalLines site (we_path entry)) (\<lambda>lines.
        case we_relative entry of
          None \<Rightarrow> fail IoFailure (we_path entry) ''failed to calculate source ownership path''
        | Some kRelative \<Rightarrow>
            let kClassification = classifyRepositoryPath kRelative
            in if isExemptFromLineThresholds kClassification
               then Inr (entries @ [\<lparr>so_path = kRelative, so_lines = lines, so_owner = owner, so_gate = GateOk,
                 so_classification = kClassification\<rparr>])
               else rbind (admitPhysicalLineCount kRelative lines) (\<lambda>_.
                 Inr (entries @ [\<lparr>so_path = kRelative, so_lines = lines, so_owner = owner,
                   so_gate = sourceGateForLines lines, so_classification = kClassification\<rparr>]))))"

definition toolRootOf :: "string \<Rightarrow> ToolInfo \<Rightarrow> string" where
  "toolRootOf repositoryRoot tool = parent_path (path_append repositoryRoot (ti_manifestPath tool))"

definition inspectToolRoot ::
  "Site \<Rightarrow> string \<Rightarrow> SourceOwnershipEntry list \<Rightarrow> ToolInfo \<Rightarrow> SourceOwnershipEntry list Result" where
  "inspectToolRoot site repositoryRoot entries tool =
     rfold (inspectSource site (ti_owner tool)) entries (si_walk site (toolRootOf repositoryRoot tool))"

definition inspectSourceOwnership :: "Site \<Rightarrow> string \<Rightarrow> SourceOwnershipEntry list Result" where
  "inspectSourceOwnership site repositoryRoot =
     rbind (validateRepository site repositoryRoot) (\<lambda>snapshot.
     rbind (rfold (inspectToolRoot site repositoryRoot) [] (sn_tools snapshot)) (\<lambda>entries.
       Inr (sort_key so_path entries)))"

section \<open>What the listing is\<close>

text \<open>The number of lines in closed form: the terminators, and one more when text follows the last.\<close>

lemma physicalLines_closed:
  "physicalLines content =
     length (filter (\<lambda>c. c = CHR 0x0A) content) + (if content \<noteq> [] \<and> last content \<noteq> CHR 0x0A then 1 else 0)"
proof (induction content rule: physicalLines.induct)
  case (1 content)
  show ?case
  proof (cases "content = []")
    case False
    let ?rest = "dropWhile (\<lambda>c. c \<noteq> CHR 0x0A) content"
    have "filter (\<lambda>c. c = CHR 0x0A) (takeWhile (\<lambda>c. c \<noteq> CHR 0x0A) content) = []"
      by (auto simp: filter_empty_conv dest: set_takeWhileD)
    then have count: "filter (\<lambda>c. c = CHR 0x0A) content = filter (\<lambda>c. c = CHR 0x0A) ?rest"
      using filter_append [of "\<lambda>c. c = CHR 0x0A" "takeWhile (\<lambda>c. c \<noteq> CHR 0x0A) content" ?rest] by simp
    show ?thesis
    proof (cases ?rest)
      case Nil
      then have "last content \<noteq> CHR 0x0A"
        using False by (auto simp: dropWhile_eq_Nil_conv)
      moreover have "physicalLines content = 1"
        using False by (subst physicalLines.simps) (simp add: Nil physicalLines.simps [of "[]"] del: dropWhile_eq_Nil_conv)
      ultimately show ?thesis using False unfolding count Nil by simp
    next
      case (Cons c rest)
      then have c: "c = CHR 0x0A" using hd_dropWhile [of "\<lambda>c. c \<noteq> CHR 0x0A" content] by simp
      have "last content = last ?rest"
        using last_appendR [of ?rest "takeWhile (\<lambda>c. c \<noteq> CHR 0x0A) content"] Cons
        unfolding takeWhile_dropWhile_id by fastforce
      then show ?thesis
        using 1 [OF False] Cons c False count by (subst physicalLines.simps) (auto split: if_splits)
    qed
  qed (simp add: physicalLines.simps)
qed

text \<open>The entry of a file, when it can be read and its place below the root is known.\<close>

definition maintained_source :: "WalkEntry \<Rightarrow> bool" where
  "maintained_source e \<longleftrightarrow> we_regular e \<and> isMaintainedSourceName (we_path e)"

definition source_entry :: "Site \<Rightarrow> string \<Rightarrow> WalkEntry \<Rightarrow> SourceOwnershipEntry" where
  "source_entry site owner e =
     (let n = physicalLines (concat (fr_chunks (su_reads site (we_path e)))); c = classifyRepositoryPath (relativeText e)
      in \<lparr>so_path = relativeText e, so_lines = n, so_owner = owner,
        so_gate = (if c = ClassMaintained then sourceGateForLines n else GateOk), so_classification = c\<rparr>)"

definition within_gate :: "SourceOwnershipEntry \<Rightarrow> bool" where
  "within_gate e \<longleftrightarrow> isExemptFromLineThresholds (so_classification e) \<or> so_lines e < kHardFailureLines"

lemma inspectSource_ok:
  assumes "inspectSource site owner entries e = Inr entries'"
  shows "\<not> we_symlink e \<and> entries' = entries @ map (source_entry site owner) (filter maintained_source [e]) \<and>
    list_all within_gate (map (source_entry site owner) (filter maintained_source [e]))"
proof (cases "maintained_source e")
  case False
  then show ?thesis
    using assms by (auto simp: inspectSource_def maintained_source_def split: if_split_asm)
next
  case True
  then have link: "\<not> we_symlink e"
    using assms by (auto simp: inspectSource_def)
  have content: "countPhysicalLines site (we_path e) = Inr n \<Longrightarrow> n = physicalLines (concat (fr_chunks (su_reads site (we_path e))))" for n
    by (simp add: countPhysicalLines_def split: if_split_asm)
  from True link assms obtain n rel where lines: "countPhysicalLines site (we_path e) = Inr n" and rel: "we_relative e = Some rel"
    and rest: "(if isExemptFromLineThresholds (classifyRepositoryPath rel)
      then Inr (entries @ [\<lparr>so_path = rel, so_lines = n, so_owner = owner, so_gate = GateOk,
        so_classification = classifyRepositoryPath rel\<rparr>])
      else rbind (admitPhysicalLineCount rel n) (\<lambda>_. Inr (entries @ [\<lparr>so_path = rel, so_lines = n, so_owner = owner,
        so_gate = sourceGateForLines n, so_classification = classifyRepositoryPath rel\<rparr>]))) = Inr entries'"
    by (auto simp: inspectSource_def maintained_source_def rbind_Inr_iff Let_def split: option.split_asm)
  show ?thesis
    using True link rest content [OF lines] rel
    by (cases "isExemptFromLineThresholds (classifyRepositoryPath rel)")
      (auto simp: source_entry_def relativeText_def isExemptFromLineThresholds_def admitPhysicalLineCount_def
        within_gate_def Let_def rbind_Inr_iff split: if_split_asm)
qed

lemma inspectSource_fold:
  "rfold (inspectSource site owner) entries walk = Inr entries' \<Longrightarrow>
     list_all (\<lambda>e. \<not> we_symlink e) walk \<and> entries' = entries @ map (source_entry site owner) (filter maintained_source walk) \<and>
     list_all within_gate (map (source_entry site owner) (filter maintained_source walk))"
proof (induction walk arbitrary: entries)
  case (Cons e walk)
  then obtain one where one: "inspectSource site owner entries e = Inr one"
    and rest: "rfold (inspectSource site owner) one walk = Inr entries'"
    by (auto simp: rbind_Inr_iff)
  show ?case using Cons.IH [OF rest] inspectSource_ok [OF one] by (auto split: if_splits)
qed simp

text \<open>What the tools of a repository own.\<close>

definition owned_by :: "Site \<Rightarrow> string \<Rightarrow> ToolInfo \<Rightarrow> SourceOwnershipEntry list" where
  "owned_by site root tool =
     map (source_entry site (ti_owner tool)) (filter maintained_source (si_walk site (toolRootOf root tool)))"

lemma inspectToolRoot_fold:
  "rfold (inspectToolRoot site root) entries tools = Inr entries' \<Longrightarrow>
     entries' = entries @ concat (map (owned_by site root) tools) \<and>
     list_all within_gate (concat (map (owned_by site root) tools)) \<and>
     list_all (\<lambda>tool. list_all (\<lambda>e. \<not> we_symlink e) (si_walk site (toolRootOf root tool))) tools"
proof (induction tools arbitrary: entries)
  case (Cons tool tools)
  then obtain one where one: "inspectToolRoot site root entries tool = Inr one"
    and rest: "rfold (inspectToolRoot site root) one tools = Inr entries'"
    by (auto simp: rbind_Inr_iff)
  show ?case
    using Cons.IH [OF rest] inspectSource_fold [OF one [unfolded inspectToolRoot_def]] by (simp add: owned_by_def)
qed simp

text \<open>
  A source inspection that succeeds lists, in the order of the paths, every maintained source file below the
  root of every tool of the validated repository and nothing else, each with its number of physical lines, its
  owner, its class and the gate of that number; no file that is not exempt reaches 1500 lines, and there is no
  link below a tool root.
\<close>

theorem source_listing_is_complete:
  "case inspectSourceOwnership site root of
     Inl _ \<Rightarrow> True
   | Inr entries \<Rightarrow>
       (case validateRepository site root of
          Inl _ \<Rightarrow> False
        | Inr snapshot \<Rightarrow>
            entries = sort_key so_path (concat (map (owned_by site root) (sn_tools snapshot))) \<and>
            list_all within_gate entries \<and>
            list_all (\<lambda>tool. list_all (\<lambda>e. \<not> we_symlink e) (si_walk site (toolRootOf root tool))) (sn_tools snapshot))"
proof (cases "inspectSourceOwnership site root")
  case (Inr entries)
  then obtain snapshot found where "validateRepository site root = Inr snapshot"
    and run: "rfold (inspectToolRoot site root) [] (sn_tools snapshot) = Inr found" and "entries = sort_key so_path found"
    by (auto simp: inspectSourceOwnership_def rbind_Inr_iff)
  then show ?thesis
    using inspectToolRoot_fold [OF run] Inr by (simp add: list_all_iff)
qed simp

end
