(* ===== verification/Evidence_Shipping.thy ===== *)
theory Evidence_Shipping
  imports Evidence_Repository "HOL-Library.Product_Lexorder"
begin

text \<open>
  \<open>tools/rf_evidence/src/shipping_closure.cpp\<close>: the audit that keeps repository tools out of what ships.
\<close>

definition kMaximumAuditedFiles :: nat where "kMaximumAuditedFiles = 65536"
definition kRepositoryToolRoot :: string where "kRepositoryToolRoot = ''tools/''"

record ShippingClosureCheck =
  sc_check :: string
  sc_subject :: string
  sc_pass :: bool

record ShippingClosureAudit =
  sa_checks :: "ShippingClosureCheck list"

definition allPassed :: "ShippingClosureAudit \<Rightarrow> bool" where
  "allPassed audit \<longleftrightarrow> list_all sc_pass (sa_checks audit)"

section \<open>Membership\<close>

definition shippedObject :: "Site \<Rightarrow> string \<Rightarrow> string \<Rightarrow> string \<Rightarrow> (string \<times> dom_object) Result" where
  "shippedObject site repositoryRoot relative message =
     rbind (resolveRepositoryPath site repositoryRoot relative) (\<lambda>path.
     rbind (readSiteFile site path kMaximumMaintainedJsonBytes) (\<lambda>input.
     case rbind (si_parse site input) dom_get_object of
       Inl _ \<Rightarrow> fail InvalidJson path message
     | Inr root \<Rightarrow> Inr (path, root)))"

definition readMembers :: "string \<Rightarrow> dom_object \<Rightarrow> string \<Rightarrow> dom_value list Result" where
  "readMembers path root field =
     (case dom_array_at root field of
        Inl _ \<Rightarrow> fail InvalidManifest path (field @ '' membership array is missing'')
      | Inr members \<Rightarrow> Inr members)"

definition memberSide :: "string \<Rightarrow> string \<Rightarrow> bool \<Rightarrow> bool \<Rightarrow> dom_value \<Rightarrow> bool Result" where
  "memberSide path field beneath separated kMember =
     (case dom_get_string kMember of
        Inl _ \<Rightarrow> fail InvalidManifest path (field @ '' membership entries must be strings'')
      | Inr member \<Rightarrow> Inr (separated \<and> starts_with member kRepositoryToolRoot = beneath))"

definition sideOfMembers :: "string \<Rightarrow> dom_object \<Rightarrow> bool \<Rightarrow> bool \<Rightarrow> string \<Rightarrow> bool Result" where
  "sideOfMembers path root beneath separated field =
     rbind (readMembers path root field) (\<lambda>members. rfold (memberSide path field beneath) separated members)"

definition membershipRootsSeparated :: "Site \<Rightarrow> string \<Rightarrow> bool Result" where
  "membershipRootsSeparated site repositoryRoot =
     rbind (shippedObject site repositoryRoot ''repository.json'' ''repository membership must be an object'') (\<lambda>(path, root).
     rbind (rfold (sideOfMembers path root False) True [''modules'', ''targets'', ''packagingPolicies'', ''profiles'']) (\<lambda>separated.
       sideOfMembers path root True separated ''tools''))"

section \<open>Distribution\<close>

definition toolDistributionForbidden :: "Site \<Rightarrow> string \<Rightarrow> ToolInfo \<Rightarrow> bool Result" where
  "toolDistributionForbidden site repositoryRoot tool =
     rbind (shippedObject site repositoryRoot (ti_manifestPath tool) ''tool manifest must be an object'') (\<lambda>(path, root).
     case dom_object_at root ''distribution'' of
       Inl _ \<Rightarrow> Inr False
     | Inr distribution \<Rightarrow>
         Inr (dom_bool_at distribution ''repositoryOnly'' = Inr True \<and>
           list_all (\<lambda>kField. dom_string_at distribution kField = Inr ''forbidden'')
             [''shippingClosure'', ''sdkExposure'', ''targetRoot'']))"

section \<open>The walk over module manifests\<close>

text \<open>
  The entries a loop visits that stops the recursion at some of them.  What lies below such an entry is not
  listed, so a failure of the iteration there is not seen either.
\<close>

function visited :: "(WalkEntry \<Rightarrow> bool) \<Rightarrow> WalkEntry list \<Rightarrow> WalkEntry list" where
  "visited stops [] = []"
| "visited stops (e # rest) =
     e # visited stops (if stops e then dropWhile (\<lambda>x. we_depth e < we_depth x) rest else rest)"
  by pat_completeness auto
termination by (relation "measure (\<lambda>(stops, walk). length walk)") (auto simp: less_Suc_eq_le length_dropWhile_le)

definition outsideAudit :: "WalkEntry \<Rightarrow> bool" where
  "outsideAudit e \<longleftrightarrow> we_depth e = 0 \<and> path_filename (we_path e) \<in> {''out'', ''.git''}"

fun manifestsPlaced :: "string \<Rightarrow> nat \<Rightarrow> WalkEntry list \<Rightarrow> bool Result" where
  "manifestsPlaced root auditedEntries [] = Inr True"
| "manifestsPlaced root auditedEntries (e # rest) =
     (if kMaximumAuditedFiles < auditedEntries + 1 then fail LimitExceeded root ''module audit exceeds the file limit''
      else if outsideAudit e \<or> we_symlink e then manifestsPlaced root (auditedEntries + 1) rest
      else if we_regular e \<and> path_filename (we_path e) = ''module.json''
      then (if we_relative e = None \<or> \<not> starts_with (relativeText e) ''source/'' then Inr False
            else manifestsPlaced root (auditedEntries + 1) rest)
      else manifestsPlaced root (auditedEntries + 1) rest)"

definition moduleManifestsOnlyBeneathSource :: "Site \<Rightarrow> string \<Rightarrow> bool Result" where
  "moduleManifestsOnlyBeneathSource site root =
     manifestsPlaced root 0 (visited (\<lambda>e. outsideAudit e \<or> we_symlink e) (si_walk site root))"

section \<open>Install and export\<close>

definition blank :: "char \<Rightarrow> bool" where "blank c \<longleftrightarrow> c = CHR '' '' \<or> c = CHR 0x09"

definition lineDefinesInstallOrExport :: "string \<Rightarrow> bool" where
  "lineDefinesInstallOrExport line =
     (let kTrimmed = dropWhile blank line
      in list_ex (\<lambda>command. starts_with kTrimmed command \<and>
           starts_with (dropWhile blank (drop (length command) kTrimmed)) ''('') [''install'', ''export''])"

fun noSurfaceIn :: "Site \<Rightarrow> string \<Rightarrow> string list \<Rightarrow> bool Result" where
  "noSurfaceIn site repositoryRoot [] = Inr True"
| "noSurfaceIn site repositoryRoot (buildFile # rest) =
     rbind (resolveRepositoryPath site repositoryRoot buildFile) (\<lambda>buildPath.
     rbind (readSiteFile site buildPath kMaximumMaintainedJsonBytes) (\<lambda>kContent.
       if list_ex lineDefinesInstallOrExport (split_at_char (CHR 0x0A) kContent) then Inr False
       else noSurfaceIn site repositoryRoot rest))"

definition noInstallOrExportSurface :: "Site \<Rightarrow> string \<Rightarrow> ToolInfo \<Rightarrow> bool Result" where
  "noInstallOrExportSurface site repositoryRoot tool =
     noSurfaceIn site repositoryRoot
       (map (\<lambda>kBuildFile. parent_path (ti_manifestPath tool) @ ''/'' @ kBuildFile) [''CMakeLists.txt'', ''tests/CMakeLists.txt''])"

section \<open>The audit\<close>

definition shippingCheck :: "string \<Rightarrow> string \<Rightarrow> bool \<Rightarrow> ShippingClosureCheck" where
  "shippingCheck check subject pass = \<lparr>sc_check = check, sc_subject = subject, sc_pass = pass\<rparr>"

definition auditTool :: "Site \<Rightarrow> string \<Rightarrow> ShippingClosureCheck list \<Rightarrow> ToolInfo \<Rightarrow> ShippingClosureCheck list Result" where
  "auditTool site repositoryRoot checks tool =
     rbind (toolDistributionForbidden site repositoryRoot tool) (\<lambda>distributionForbidden.
     rbind (noInstallOrExportSurface site repositoryRoot tool) (\<lambda>noExportSurface.
       Inr (checks @ [shippingCheck ''tool_distribution_forbidden'' (ti_id tool) distributionForbidden,
         shippingCheck ''no_install_or_export_surface'' (ti_id tool) noExportSurface])))"

definition kForbiddenRoots :: "string list" where
  "kForbiddenRoots = [''apps'', ''games'', ''packages'', ''sdk'']"

definition auditShippingClosure :: "Site \<Rightarrow> string \<Rightarrow> RepositorySnapshot \<Rightarrow> ShippingClosureAudit Result" where
  "auditShippingClosure site repositoryRoot snapshot =
     rbind (membershipRootsSeparated site repositoryRoot) (\<lambda>rootsSeparated.
     rbind (rfold (auditTool site repositoryRoot)
         [shippingCheck ''membership_roots_separated'' ''repository.json'' rootsSeparated] (sn_tools snapshot)) (\<lambda>checks.
       let withRoots = checks @ map (\<lambda>kRoot. shippingCheck ''shipping_root_absent'' kRoot
             (si_status site (path_append repositoryRoot kRoot) = Some False)) kForbiddenRoots
       in rbind (moduleManifestsOnlyBeneathSource site (sn_root snapshot)) (\<lambda>modulesPlacedCorrectly.
            Inr \<lparr>sa_checks = sort_key (\<lambda>c. (sc_check c, sc_subject c))
              (withRoots @ [shippingCheck ''module_manifest_only_beneath_source'' ''module.json'' modulesPlacedCorrectly])\<rparr>)))"

section \<open>What a passed audit says\<close>

lemma memberSide_fold:
  "rfold (memberSide path field beneath) separated members = Inr t \<longleftrightarrow>
     list_all (\<lambda>m. \<exists>s. m = DString s) members \<and>
     (t \<longleftrightarrow> separated \<and> list_all (\<lambda>m. case m of DString s \<Rightarrow> starts_with s kRepositoryToolRoot = beneath | _ \<Rightarrow> False) members)"
  by (induction members arbitrary: separated)
    (auto simp: memberSide_def accepts rbind_Inr_iff split: dom_value.splits)

text \<open>An array of strings, all of them on the given side of the root of the repository tools.\<close>

definition members_on_side :: "dom_object \<Rightarrow> bool \<Rightarrow> string \<Rightarrow> bool" where
  "members_on_side root beneath field \<longleftrightarrow>
     (case map_of root field of
        Some (DArray members) \<Rightarrow>
          list_all (\<lambda>m. case m of DString s \<Rightarrow> starts_with s kRepositoryToolRoot = beneath | _ \<Rightarrow> False) members
      | _ \<Rightarrow> False)"

lemma sideOfMembers_ok:
  "sideOfMembers path root beneath separated field = Inr t \<Longrightarrow> t \<longleftrightarrow> separated \<and> members_on_side root beneath field"
  by (auto simp: sideOfMembers_def readMembers_def accepts members_on_side_def memberSide_fold dom_at_iff)

lemma sidesOfMembers_ok:
  "rfold (sideOfMembers path root beneath) separated fs = Inr t \<Longrightarrow>
     t \<longleftrightarrow> separated \<and> list_all (members_on_side root beneath) fs"
  by (induction fs arbitrary: separated) (auto simp: rbind_Inr_iff dest!: sideOfMembers_ok)

lemma membershipRootsSeparated_ok:
  assumes "membershipRootsSeparated site root = Inr separated"
  shows "\<exists>path members. shippedObject site root ''repository.json'' ''repository membership must be an object'' =
      Inr (path, members) \<and>
    (separated \<longleftrightarrow> list_all (members_on_side members False) [''modules'', ''targets'', ''packagingPolicies'', ''profiles''] \<and>
      members_on_side members True ''tools'')"
proof -
  from assms obtain path members s where "shippedObject site root ''repository.json'' ''repository membership must be an object'' = Inr (path, members)"
    and sides: "rfold (sideOfMembers path members False) True [''modules'', ''targets'', ''packagingPolicies'', ''profiles''] = Inr s"
    and tools: "sideOfMembers path members True s ''tools'' = Inr separated"
    by (auto simp: membershipRootsSeparated_def rbind_Inr_iff simp del: rfold.simps)
  then show ?thesis
    using sidesOfMembers_ok [OF sides] sideOfMembers_ok [OF tools] by blast
qed

text \<open>A module manifest the audit sees and refuses.\<close>

definition misplaced :: "WalkEntry \<Rightarrow> bool" where
  "misplaced e \<longleftrightarrow> \<not> outsideAudit e \<and> \<not> we_symlink e \<and> we_regular e \<and> path_filename (we_path e) = ''module.json'' \<and>
     (we_relative e = None \<or> \<not> starts_with (relativeText e) ''source/'')"

lemma manifestsPlaced_ok:
  "manifestsPlaced root n walk = Inr placed \<Longrightarrow> placed \<longleftrightarrow> list_all (\<lambda>e. \<not> misplaced e) walk"
  by (induction root n walk rule: manifestsPlaced.induct) (auto simp: misplaced_def split: if_split_asm)

lemma auditTool_fold:
  "rfold (auditTool site root) checks tools = Inr checks' \<Longrightarrow>
     \<exists>added. checks' = checks @ added \<and> length added = 2 * length tools \<and>
       (list_all sc_pass added \<longleftrightarrow> list_all (\<lambda>tool. toolDistributionForbidden site root tool = Inr True \<and>
          noInstallOrExportSurface site root tool = Inr True) tools)"
proof (induction tools arbitrary: checks)
  case (Cons tool tools)
  then obtain one where step: "auditTool site root checks tool = Inr one"
    and rest: "rfold (auditTool site root) one tools = Inr checks'"
    by (auto simp: rbind_Inr_iff)
  from step obtain forbidden surface where tool: "toolDistributionForbidden site root tool = Inr forbidden"
      "noInstallOrExportSurface site root tool = Inr surface"
    and one: "one = checks @ [shippingCheck ''tool_distribution_forbidden'' (ti_id tool) forbidden,
         shippingCheck ''no_install_or_export_surface'' (ti_id tool) surface]"
    by (auto simp: auditTool_def rbind_Inr_iff)
  from Cons.IH [OF rest] obtain added where "checks' = one @ added" "length added = 2 * length tools"
    "list_all sc_pass added \<longleftrightarrow> list_all (\<lambda>tool. toolDistributionForbidden site root tool = Inr True \<and>
          noInstallOrExportSurface site root tool = Inr True) tools"
    by blast
  then show ?case
    using tool one by (intro exI [where x = "[shippingCheck ''tool_distribution_forbidden'' (ti_id tool) forbidden,
         shippingCheck ''no_install_or_export_surface'' (ti_id tool) surface] @ added"]) (simp add: shippingCheck_def)
qed simp

text \<open>
  A shipping audit that completes has one check for the membership, two for every tool, one for every product
  root and one for the module manifests, sorted; and all of them pass exactly when the members that ship lie
  outside the root of the repository tools and the tools inside it, every tool manifest forbids distribution, no
  build file of a tool installs or exports, every product root is known to be absent, and every module manifest the audit meets
  lies below \<open>source/\<close>.
\<close>

theorem shipping_audit_passes_exactly:
  "case auditShippingClosure site root snapshot of
     Inl _ \<Rightarrow> True
   | Inr audit \<Rightarrow>
       length (sa_checks audit) = 2 * length (sn_tools snapshot) + 6 \<and>
       sorted (map (\<lambda>c. (sc_check c, sc_subject c)) (sa_checks audit)) \<and>
       (case shippedObject site root ''repository.json'' ''repository membership must be an object'' of
          Inl _ \<Rightarrow> False
        | Inr (path, members) \<Rightarrow>
            allPassed audit \<longleftrightarrow>
              list_all (members_on_side members False) [''modules'', ''targets'', ''packagingPolicies'', ''profiles''] \<and>
              members_on_side members True ''tools'' \<and>
              list_all (\<lambda>tool. toolDistributionForbidden site root tool = Inr True \<and>
                noInstallOrExportSurface site root tool = Inr True) (sn_tools snapshot) \<and>
              list_all (\<lambda>r. si_status site (path_append root r) = Some False) kForbiddenRoots \<and>
              list_all (\<lambda>e. \<not> misplaced e)
                (visited (\<lambda>e. outsideAudit e \<or> we_symlink e) (si_walk site (sn_root snapshot))))"
proof (cases "auditShippingClosure site root snapshot")
  case (Inr audit)
  then obtain separated checks placed where separated: "membershipRootsSeparated site root = Inr separated"
    and tools: "rfold (auditTool site root) [shippingCheck ''membership_roots_separated'' ''repository.json'' separated]
      (sn_tools snapshot) = Inr checks"
    and placed: "moduleManifestsOnlyBeneathSource site (sn_root snapshot) = Inr placed"
    and audit: "sa_checks audit = sort_key (\<lambda>c. (sc_check c, sc_subject c)) ((checks @ map (\<lambda>kRoot.
        shippingCheck ''shipping_root_absent'' kRoot (si_status site (path_append root kRoot) = Some False)) kForbiddenRoots) @
        [shippingCheck ''module_manifest_only_beneath_source'' ''module.json'' placed])"
    by (auto simp: auditShippingClosure_def rbind_Inr_iff Let_def)
  from membershipRootsSeparated_ok [OF separated] obtain path members where
    members: "shippedObject site root ''repository.json'' ''repository membership must be an object'' = Inr (path, members)"
      "separated \<longleftrightarrow> list_all (members_on_side members False) [''modules'', ''targets'', ''packagingPolicies'', ''profiles''] \<and>
        members_on_side members True ''tools''"
    by blast
  have "placed \<longleftrightarrow> list_all (\<lambda>e. \<not> misplaced e)
      (visited (\<lambda>e. outsideAudit e \<or> we_symlink e) (si_walk site (sn_root snapshot)))"
    using placed unfolding moduleManifestsOnlyBeneathSource_def by (rule manifestsPlaced_ok)
  moreover from auditTool_fold [OF tools] obtain added where
    "checks = [shippingCheck ''membership_roots_separated'' ''repository.json'' separated] @ added"
    "length added = 2 * length (sn_tools snapshot)"
    "list_all sc_pass added \<longleftrightarrow> list_all (\<lambda>tool. toolDistributionForbidden site root tool = Inr True \<and>
          noInstallOrExportSurface site root tool = Inr True) (sn_tools snapshot)"
    by blast
  moreover have "allPassed audit \<longleftrightarrow> list_all sc_pass checks \<and>
      list_all (\<lambda>r. si_status site (path_append root r) = Some False) kForbiddenRoots \<and> placed"
    unfolding allPassed_def audit by (auto simp: list_all_iff shippingCheck_def ball_Un)
  moreover have "length (sa_checks audit) = length checks + 5"
    unfolding audit by (simp add: kForbiddenRoots_def)
  moreover have "sorted (map (\<lambda>c. (sc_check c, sc_subject c)) (sa_checks audit))"
    unfolding audit by (rule sorted_sort_key)
  ultimately show ?thesis
    using Inr members by (auto simp: shippingCheck_def)
qed simp

end
