(* ===== verification/Evidence_PathAudit.thy ===== *)
theory Evidence_PathAudit
  imports Evidence_Shipping
begin

text \<open>
  \<open>tools/rf_evidence/src/path_audit.cpp\<close>: every file of the repository against the write envelope and the
  material that was there before.
\<close>

section \<open>The tables\<close>

definition kEnvelopeFiles :: "string list" where
  "kEnvelopeFiles =
     [''.gitignore'', ''.clang-tidy'', ''cmakelists.txt'', ''cmakepresets.json'', ''repository.json'',
      ''schemas/repository.schema.json'', ''schemas/tool.schema.json'', ''schemas/dependency-catalog.schema.json'',
      ''schemas/toolchain-lock.schema.json'', ''schemas/artifact-lock.schema.json'',
      ''schemas/evidence-common-v1.schema.json'', ''schemas/raw-run-receipt-v1.schema.json'',
      ''schemas/attempt-plan-v1.schema.json'', ''schemas/evidence-set-v1.schema.json'',
      ''schemas/evidence-index-v1.schema.json'', ''schemas/metric-registry-v1.schema.json'',
      ''schemas/evaluation-policy-v1.schema.json'', ''schemas/evaluation-receipt-v1.schema.json'',
      ''schemas/baseline-record-v1.schema.json'', ''schemas/archcheck-rules-v1.schema.json'',
      ''schemas/archcheck-findings-v1.schema.json'', ''schemas/module.schema.json'', ''third_party/catalog.json'',
      ''third_party/toolchain.lock.json'', ''third_party/artifacts.lock.json'', ''docs/readme.md'',
      ''docs/plans/plan-0001-evidence-mechanics.md'', ''docs/tasks/readme.md'',
      ''docs/tasks/task-0001-repository-tool-bootstrap-and-offline-authority-validation.md'']"

definition kEnvelopeRoots :: "string list" where
  "kEnvelopeRoots = [''cmake/'', ''third_party/vcpkg/'', ''third_party/licenses/'', ''tools/rf_evidence/'',
     ''tools/rf_archcheck/'', ''tools/rf_verify/'', ''targets/'', ''source/base/'']"

definition kPreexistingFiles :: "string list" where
  "kPreexistingFiles = [''claude.md'', ''readme.md'', ''task-0001-handoff.md'', ''.clang-format'', ''.editorconfig'',
     ''.gitattributes'', ''stylua.toml'']"

definition kStagingRoots :: "string list" where
  "kStagingRoots = [''.agents'', ''.audit-import-stage'', ''.claude-memory-stage'', ''.codex'', ''.codex-doc-stage'',
     ''.codex-doc-stage-2'', ''.codex-doc-stage-3'', ''.docs-reset-staging'', ''.handoff-stage'', ''.remediation-stage'',
     ''.repo-standard-stage'']"

definition kPreexistingRoots :: "string list" where "kPreexistingRoots = [''.claude/'', ''docs/'']"
definition kSkippedRoots :: "string list" where "kSkippedRoots = [''.git'', ''out'']"

definition kKnownTopDirectories :: "string list" where
  "kKnownTopDirectories = [''.claude'', ''cmake'', ''docs'', ''evidence'', ''schemas'', ''source'', ''targets'',
     ''third_party'', ''tools'']"

section \<open>Classes of paths\<close>

definition evidenceClassRoot :: "string \<Rightarrow> string option" where
  "evidenceClassRoot relativePath =
     List.find (\<lambda>kClassRoot. starts_with relativePath kClassRoot \<and> ends_with relativePath ''.json'')
       [''evidence/registries/'', ''evidence/policies/'']"

definition matchesMaintainedEvidence :: "string \<Rightarrow> bool" where
  "matchesMaintainedEvidence relativePath =
     (if relativePath = ''evidence/evidence.json'' then True
      else case evidenceClassRoot relativePath of
        None \<Rightarrow> False
      | Some kClassRoot \<Rightarrow> \<not> contains_char (drop (length kClassRoot) relativePath) CHR ''/'')"

definition matchesEnvelope :: "string \<Rightarrow> bool" where
  "matchesEnvelope relativePath =
     (if relativePath \<in> set kEnvelopeFiles then True
      else if starts_with relativePath ''evidence/'' then matchesMaintainedEvidence relativePath
      else list_ex (starts_with relativePath) kEnvelopeRoots)"

definition matchesPreexisting :: "string \<Rightarrow> bool" where
  "matchesPreexisting relativePath \<longleftrightarrow>
     relativePath \<in> set kPreexistingFiles \<or> list_ex (starts_with relativePath) kPreexistingRoots \<or>
     starts_with relativePath ''schemas/'' \<and> ends_with relativePath ''.schema.json''"

definition isKnownTopDirectory :: "string \<Rightarrow> bool" where
  "isKnownTopDirectory name \<longleftrightarrow> name \<in> set kKnownTopDirectories"

definition hasKnownTopComponent :: "string \<Rightarrow> bool" where
  "hasKnownTopComponent relativePath =
     (case index_of CHR ''/'' relativePath of
        None \<Rightarrow> False | Some kSeparator \<Rightarrow> isKnownTopDirectory (take kSeparator relativePath))"

section \<open>The audit\<close>

record PathAuditEntry =
  px_path :: string
  px_classification :: string

record PathAudit =
  pa_envelopeViolations :: "PathAuditEntry list"
  pa_unclassifiedRootEntries :: "PathAuditEntry list"
  pa_stagingRootEntries :: "PathAuditEntry list"
  pa_envelopeFiles :: "string list"
  pa_envelopeFileCount :: nat
  pa_preexistingFileCount :: nat

definition emptyAudit :: PathAudit where
  "emptyAudit = \<lparr>pa_envelopeViolations = [], pa_unclassifiedRootEntries = [], pa_stagingRootEntries = [],
     pa_envelopeFiles = [], pa_envelopeFileCount = 0, pa_preexistingFileCount = 0\<rparr>"

text \<open>\<open>lexically_relative\<close> of a path the iteration gives: what follows the root it started from.\<close>

definition lexicalRelative :: "string \<Rightarrow> string \<Rightarrow> string" where
  "lexicalRelative root path = drop (if ends_with root ''/'' then length root else Suc (length root)) path"

definition auditedText :: "string \<Rightarrow> WalkEntry \<Rightarrow> string" where
  "auditedText root e = portableLowercasePath (lexicalRelative root (we_path e))"

text \<open>The entries below which the audit does not go.\<close>

definition auditStops :: "string \<Rightarrow> WalkEntry \<Rightarrow> bool" where
  "auditStops root e \<longleftrightarrow>
     we_symlink e \<or>
     we_depth e = 0 \<and> (auditedText root e \<in> set kSkippedRoots \<or> auditedText root e \<in> set kStagingRoots \<or>
       we_directory e \<and> \<not> isKnownTopDirectory (auditedText root e))"

definition auditFile :: "string \<Rightarrow> string \<Rightarrow> PathAudit \<Rightarrow> PathAudit" where
  "auditFile kRelative kRelativeText audit =
     (if matchesEnvelope kRelativeText
      then audit\<lparr>pa_envelopeFileCount := pa_envelopeFileCount audit + 1,
        pa_envelopeFiles := pa_envelopeFiles audit @ [kRelative]\<rparr>
      else if matchesPreexisting kRelativeText
      then audit\<lparr>pa_preexistingFileCount := pa_preexistingFileCount audit + 1\<rparr>
      else if hasKnownTopComponent kRelativeText
      then audit\<lparr>pa_envelopeViolations := pa_envelopeViolations audit @
        [\<lparr>px_path = kRelative, px_classification = ''outside_envelope''\<rparr>]\<rparr>
      else audit\<lparr>pa_unclassifiedRootEntries := pa_unclassifiedRootEntries audit @
        [\<lparr>px_path = kRelative, px_classification = ''unclassified''\<rparr>]\<rparr>)"

definition auditEntry :: "string \<Rightarrow> PathAudit \<times> nat \<Rightarrow> WalkEntry \<Rightarrow> (PathAudit \<times> nat) Result" where
  "auditEntry kRoot = (\<lambda>(audit, auditedFiles) e.
     let kRelative = lexicalRelative kRoot (we_path e); kRelativeText = portableLowercasePath kRelative;
         kIsTopLevel = (we_depth e = 0)
     in if we_symlink e
        then Inr (audit\<lparr>pa_envelopeViolations := pa_envelopeViolations audit @
          [\<lparr>px_path = kRelative, px_classification = ''symlink''\<rparr>]\<rparr>, auditedFiles)
        else if kIsTopLevel \<and> kRelativeText \<in> set kSkippedRoots then Inr (audit, auditedFiles)
        else if kIsTopLevel \<and> kRelativeText \<in> set kStagingRoots
        then Inr (audit\<lparr>pa_stagingRootEntries := pa_stagingRootEntries audit @
          [\<lparr>px_path = kRelative, px_classification = ''historical_staging_landing_excluded''\<rparr>]\<rparr>, auditedFiles)
        else if kIsTopLevel \<and> we_directory e \<and> \<not> isKnownTopDirectory kRelativeText
        then Inr (audit\<lparr>pa_unclassifiedRootEntries := pa_unclassifiedRootEntries audit @
          [\<lparr>px_path = kRelative, px_classification = ''unclassified''\<rparr>]\<rparr>, auditedFiles)
        else if \<not> we_regular e then Inr (audit, auditedFiles)
        else if kMaximumAuditedFiles < auditedFiles + 1
        then fail LimitExceeded kRoot ''repository audit exceeds the file limit''
        else Inr (auditFile kRelative kRelativeText audit, auditedFiles + 1))"

definition auditRepositoryPaths :: "Site \<Rightarrow> string \<Rightarrow> PathAudit Result" where
  "auditRepositoryPaths site repositoryRoot =
     rbind (resolveRepositoryPath site repositoryRoot ''repository.json'') (\<lambda>canonicalRoot.
     let kRoot = parent_path canonicalRoot
     in rbind (rfold (auditEntry kRoot) (emptyAudit, 0) (visited (auditStops kRoot) (si_walk site kRoot))) (\<lambda>(audit, auditedFiles).
          Inr (audit\<lparr>pa_envelopeViolations := sort_key px_path (pa_envelopeViolations audit),
            pa_stagingRootEntries := sort_key px_path (pa_stagingRootEntries audit),
            pa_unclassifiedRootEntries := sort_key px_path (pa_unclassifiedRootEntries audit),
            pa_envelopeFiles := sort (pa_envelopeFiles audit)\<rparr>)))"

section \<open>Every file is in one class\<close>

datatype PathClass = Skipped | Staging | Link | Delivered | Preexisting | OutsideEnvelope | Unclassified | Uncounted

text \<open>The class of an entry, in the order the tests are made.\<close>

definition path_class :: "string \<Rightarrow> WalkEntry \<Rightarrow> PathClass" where
  "path_class root e =
     (let t = auditedText root e
      in if we_symlink e then Link
         else if we_depth e = 0 \<and> t \<in> set kSkippedRoots then Skipped
         else if we_depth e = 0 \<and> t \<in> set kStagingRoots then Staging
         else if we_depth e = 0 \<and> we_directory e \<and> \<not> isKnownTopDirectory t then Unclassified
         else if \<not> we_regular e then Uncounted
         else if matchesEnvelope t then Delivered
         else if matchesPreexisting t then Preexisting
         else if hasKnownTopComponent t then OutsideEnvelope else Unclassified)"

definition in_class :: "string \<Rightarrow> PathClass set \<Rightarrow> WalkEntry list \<Rightarrow> string list" where
  "in_class root cs walk = map (\<lambda>e. lexicalRelative root (we_path e)) (filter (\<lambda>e. path_class root e \<in> cs) walk)"

lemma in_class_simps [simp]:
  "in_class root cs [] = []"
  "in_class root cs (e # walk) =
     (if path_class root e \<in> cs then lexicalRelative root (we_path e) # in_class root cs walk else in_class root cs walk)"
  by (simp_all add: in_class_def)

definition audit_extends :: "string \<Rightarrow> WalkEntry list \<Rightarrow> PathAudit \<Rightarrow> PathAudit \<Rightarrow> bool" where
  "audit_extends root walk audit audit' \<longleftrightarrow>
     map px_path (pa_envelopeViolations audit') = map px_path (pa_envelopeViolations audit) @ in_class root {Link, OutsideEnvelope} walk \<and>
     map px_path (pa_unclassifiedRootEntries audit') = map px_path (pa_unclassifiedRootEntries audit) @ in_class root {Unclassified} walk \<and>
     map px_path (pa_stagingRootEntries audit') = map px_path (pa_stagingRootEntries audit) @ in_class root {Staging} walk \<and>
     pa_envelopeFiles audit' = pa_envelopeFiles audit @ in_class root {Delivered} walk \<and>
     pa_envelopeFileCount audit' = pa_envelopeFileCount audit + length (in_class root {Delivered} walk) \<and>
     pa_preexistingFileCount audit' = pa_preexistingFileCount audit + length (in_class root {Preexisting} walk)"

definition file_class :: "string \<Rightarrow> PathClass" where
  "file_class t =
     (if matchesEnvelope t then Delivered else if matchesPreexisting t then Preexisting
      else if hasKnownTopComponent t then OutsideEnvelope else Unclassified)"

lemma auditFile_ok:
  assumes "path_class root e = file_class t"
  shows "audit_extends root [e] audit (auditFile (lexicalRelative root (we_path e)) t audit)"
  unfolding audit_extends_def in_class_simps assms file_class_def auditFile_def
  by (cases "matchesEnvelope t"; cases "matchesPreexisting t"; cases "hasKnownTopComponent t"; simp)

lemma auditEntry_ok:
  assumes "auditEntry root (audit, n) e = Inr (audit', n')"
  shows "audit_extends root [e] audit audit'"
proof -
  let ?t = "auditedText root e" and ?top = "we_depth e = 0"
  note defs = path_class_def auditEntry_def auditedText_def [symmetric] Let_def prod.case
  consider (link) "we_symlink e" | (skipped) "\<not> we_symlink e" "?top" "?t \<in> set kSkippedRoots"
    | (staging) "\<not> we_symlink e" "?top" "?t \<notin> set kSkippedRoots" "?t \<in> set kStagingRoots"
    | (unknown) "\<not> we_symlink e" "?top" "?t \<notin> set kSkippedRoots" "?t \<notin> set kStagingRoots" "we_directory e" "\<not> isKnownTopDirectory ?t"
    | (other) "\<not> we_symlink e" "\<not> (?top \<and> ?t \<in> set kSkippedRoots)" "\<not> (?top \<and> ?t \<in> set kStagingRoots)"
        "\<not> (?top \<and> we_directory e \<and> \<not> isKnownTopDirectory ?t)"
    by metis
  then show ?thesis
  proof cases
    case other
    show ?thesis
    proof (cases "we_regular e")
      case True
      then have "audit' = auditFile (lexicalRelative root (we_path e)) ?t audit"
        using assms True unfolding defs by (simp add: other True split: if_split_asm)
      moreover have "path_class root e = file_class ?t"
        unfolding path_class_def file_class_def Let_def by (simp add: other True)
      ultimately show ?thesis using auditFile_ok by blast
    next
      case False
      then show ?thesis using assms unfolding defs by (simp add: other audit_extends_def path_class_def Let_def)
    qed
  qed (use assms in \<open>auto simp: defs audit_extends_def\<close>)
qed

lemma auditEntry_fold:
  "rfold (auditEntry root) (audit, n) walk = Inr (audit', n') \<Longrightarrow> audit_extends root walk audit audit'"
proof (induction walk arbitrary: audit n)
  case (Cons e walk)
  then obtain one m where one: "auditEntry root (audit, n) e = Inr (one, m)"
    and rest: "rfold (auditEntry root) (one, m) walk = Inr (audit', n')"
    by (auto simp: rbind_Inr_iff)
  show ?case
    using Cons.IH [OF rest] auditEntry_ok [OF one] by (auto simp: audit_extends_def split: if_splits)
qed (simp add: audit_extends_def)

lemma insort_map_key: "map f (insort_key f x xs) = insort (f x) (map f xs)"
  by (induction xs) auto

lemma sort_map_key: "map f (sort_key f xs) = sort (map f xs)"
  by (induction xs) (auto simp: insort_map_key)

text \<open>
  C19. A path audit that completes accounts for every entry it visits: links and files outside the envelope below
  a known directory are the violations, files of the envelope are listed and counted, files that were there
  before are counted, staging roots and what no rule names are listed; each entry is in the one class its first
  matching rule gives it, nothing else is reported, and the lists are sorted.
\<close>

theorem path_audit_accounts_for_every_entry:
  "case auditRepositoryPaths site repositoryRoot of
     Inl _ \<Rightarrow> True
   | Inr audit \<Rightarrow>
       (case resolveRepositoryPath site repositoryRoot ''repository.json'' of
          Inl _ \<Rightarrow> False
        | Inr index \<Rightarrow>
            (case visited (auditStops (parent_path index)) (si_walk site (parent_path index)) of walk \<Rightarrow>
               map px_path (pa_envelopeViolations audit) = sort (in_class (parent_path index) {Link, OutsideEnvelope} walk) \<and>
               map px_path (pa_unclassifiedRootEntries audit) = sort (in_class (parent_path index) {Unclassified} walk) \<and>
               map px_path (pa_stagingRootEntries audit) = sort (in_class (parent_path index) {Staging} walk) \<and>
               pa_envelopeFiles audit = sort (in_class (parent_path index) {Delivered} walk) \<and>
               pa_envelopeFileCount audit = length (in_class (parent_path index) {Delivered} walk) \<and>
               pa_preexistingFileCount audit = length (in_class (parent_path index) {Preexisting} walk)))"
proof (cases "auditRepositoryPaths site repositoryRoot")
  case (Inr audit)
  then obtain index found n where "resolveRepositoryPath site repositoryRoot ''repository.json'' = Inr index"
    and run: "rfold (auditEntry (parent_path index)) (emptyAudit, 0)
      (visited (auditStops (parent_path index)) (si_walk site (parent_path index))) = Inr (found, n)"
    and "audit = found\<lparr>pa_envelopeViolations := sort_key px_path (pa_envelopeViolations found),
            pa_stagingRootEntries := sort_key px_path (pa_stagingRootEntries found),
            pa_unclassifiedRootEntries := sort_key px_path (pa_unclassifiedRootEntries found),
            pa_envelopeFiles := sort (pa_envelopeFiles found)\<rparr>"
    by (auto simp: auditRepositoryPaths_def rbind_Inr_iff Let_def)
  then show ?thesis
    using auditEntry_fold [OF run] Inr by (simp add: audit_extends_def emptyAudit_def sort_map_key)
qed simp

end
