(* ===== verification/Evidence_Offline.thy ===== *)
theory Evidence_Offline
  imports Evidence_Repository
begin

text \<open>
  \<open>tools/rf_evidence/src/offline_verifier.cpp\<close>: the inputs a host needs without a network, against the
  artifact lock.  The POSIX branch is the one modelled.
\<close>

record OfflineVerificationReport =
  ov_checkedArtifacts :: nat
  ov_checkedBytes :: nat

definition offlineString :: "Site \<Rightarrow> dom_object \<Rightarrow> string \<Rightarrow> string \<Rightarrow> string Result" where
  "offlineString site object field lockPath =
     (case dom_string_at object field of
        Inl kError \<Rightarrow> fail InvalidJson lockPath (''missing string field '' @ field @ '': '' @ si_errorText site kError)
      | Inr v \<Rightarrow> Inr v)"

definition artifactAppliesToHost :: "string \<Rightarrow> string \<Rightarrow> bool" where
  "artifactAppliesToHost platform hostId =
     (if platform = ''platform.any'' then True
      else if hostId = ''windows-x86_64'' then platform = ''platform.windows''
      else platform = ''platform.linux'')"

record PreparedExpectation =
  px_file :: string
  px_bytes :: nat
  px_digest :: string
  px_id :: string

definition verifyFileIdentity :: "Site \<Rightarrow> unit \<Rightarrow> PreparedExpectation \<Rightarrow> Status" where
  "verifyFileIdentity site _ expectation =
     (case pb_size (su_probe site (px_file expectation)) of
        None \<Rightarrow> fail MissingInput (px_id expectation) ''prepared file is absent''
      | Some kBytes \<Rightarrow>
          if kBytes \<noteq> px_bytes expectation
          then fail VerificationFailed (px_id expectation) ''prepared file byte size does not match the lock''
          else rbind (sha256File (su_provider site) (px_file expectation) (su_reads site (px_file expectation))) (\<lambda>digest.
            if digest \<noteq> px_digest expectation
            then fail VerificationFailed (px_id expectation) ''prepared file SHA-256 does not match the lock''
            else Inr ()))"

section \<open>The prepared commands\<close>

fun append_all :: "string \<Rightarrow> string list \<Rightarrow> string" where
  "append_all root [] = root"
| "append_all root (p # ps) = append_all (path_append root p) ps"

definition hostTools :: "string \<Rightarrow> string \<Rightarrow> string" where
  "hostTools repositoryRoot hostId = append_all repositoryRoot [''out'', ''prepared'', hostId, ''tools'']"

definition checkMarker :: "Site \<Rightarrow> string \<Rightarrow> unit \<Rightarrow> string \<Rightarrow> Status" where
  "checkMarker site kToolsRoot _ kTool = validateJsonAdmission site (append_all kToolsRoot [kTool, ''.rf-prepared.json''])"

definition cmakeRequest :: "string \<Rightarrow> string \<Rightarrow> ProcessRequest" where
  "cmakeRequest repositoryRoot kToolsRoot = processRequest
     \<lparr>pr_executable := path_append kToolsRoot ''cmake/bin/cmake'', pr_arguments := [''--version''],
      pr_workingDirectory := repositoryRoot,
      pr_captureDirectory := path_append repositoryRoot ''out/reports/task-0001/offline_cmake_capture''\<rparr>"

definition cosignRequest :: "string \<Rightarrow> string \<Rightarrow> ProcessRequest" where
  "cosignRequest repositoryRoot kToolsRoot = processRequest
     \<lparr>pr_executable := path_append kToolsRoot ''cosign/bin/cosign'',
      pr_arguments := [''verify-blob'', ''--bundle'', path_append kToolsRoot ''cosign/share/cosign.sigstore.json'',
        ''--trusted-root'', path_append kToolsRoot ''cosign/share/trusted_root.json'',
        ''--certificate-identity'', ''keyless@projectsigstore.iam.gserviceaccount.com'',
        ''--certificate-oidc-issuer'', ''https://accounts.google.com'', path_append kToolsRoot ''cosign/bin/cosign''],
      pr_workingDirectory := repositoryRoot,
      pr_captureDirectory := path_append repositoryRoot ''out/reports/task-0001/offline_cosign_capture''\<rparr>"

definition verifyPreparedCommands :: "Site \<Rightarrow> string \<Rightarrow> string \<Rightarrow> Status" where
  "verifyPreparedCommands site repositoryRoot hostId =
     (let kToolsRoot = hostTools repositoryRoot hostId
      in rbind (rfold (checkMarker site kToolsRoot) () [''cmake'', ''cosign'', ''gnupg'', ''seven_zip'']) (\<lambda>_.
         rbind (su_run site (cmakeRequest repositoryRoot kToolsRoot)) (\<lambda>cmakeResult.
         if ps_exitCode cmakeResult \<noteq> 0 \<or>
            \<not> starts_with (ps_standardOutput cmakeResult) (''cmake version 4.4.0'' @ [CHR 0x0A])
         then fail VerificationFailed (path_append kToolsRoot ''cmake/bin/cmake'') ''prepared CMake identity mismatch''
         else
           rbind (su_run site (cosignRequest repositoryRoot kToolsRoot)) (\<lambda>cosignResult.
             if ps_exitCode cosignResult \<noteq> 0
             then fail VerificationFailed (path_append kToolsRoot ''cosign/bin/cosign'')
               ''prepared Cosign offline provenance verification failed''
             else Inr ()))))"

section \<open>The lock\<close>

definition isWindowsHost :: "string \<Rightarrow> bool" where "isWindowsHost hostId \<longleftrightarrow> hostId = ''windows-x86_64''"

definition cacheObject :: "string \<Rightarrow> string \<Rightarrow> string" where
  "cacheObject repositoryRoot digest = append_all repositoryRoot [''out'', ''cache'', ''objects'', take 2 digest, digest]"

text \<open>The file a single artifact is prepared as.\<close>

definition preparedAs :: "string \<Rightarrow> string \<Rightarrow> string option" where
  "preparedAs hostId artifact =
     (if artifact = (if isWindowsHost hostId then ''tool.cosign.windows_x86_64'' else ''tool.cosign.linux_x86_64'')
      then Some ''cosign/bin/cosign''
      else if artifact = (if isWindowsHost hostId then ''tool.cosign.windows_x86_64_bundle'' else ''tool.cosign.linux_x86_64_bundle'')
      then Some ''cosign/share/cosign.sigstore.json''
      else if artifact = ''authority.sigstore_trusted_root.data'' then Some ''cosign/share/trusted_root.json''
      else None)"

definition isPreparedArchive :: "string \<Rightarrow> string \<Rightarrow> bool" where
  "isPreparedArchive hostId artifact \<longleftrightarrow>
     artifact = (if isWindowsHost hostId then ''tool.archive_extractor.windows_x86_64'' else ''tool.archive_extractor.linux_x86_64'')"

definition isPreparedGpg :: "string \<Rightarrow> string \<Rightarrow> bool" where
  "isPreparedGpg hostId artifact \<longleftrightarrow>
     artifact = (if isWindowsHost hostId then ''tool.gnupg.windows_x86_64'' else ''tool.gnupg.linux_x86_64'') \<or>
     hostId = ''linux-x86_64'' \<and> artifact \<in> {''tool.gnupg.linux_x86_64_full'', ''tool.gnupg.linux_x86_64_config''}"

definition requiredFile ::
  "Site \<Rightarrow> string \<Rightarrow> string \<Rightarrow> string \<Rightarrow> string \<Rightarrow> PreparedExpectation list \<Rightarrow> dom_value \<Rightarrow> PreparedExpectation list Result" where
  "requiredFile site kPreparedTools hostId lockPath artifact expectations kRequiredElement =
     (case dom_get_object kRequiredElement of
        Inl _ \<Rightarrow> fail InvalidJson artifact ''required prepared file must be an object''
      | Inr required \<Rightarrow>
          (case (offlineString site required ''path'' lockPath, offlineString site required ''sha256'' lockPath,
                 dom_uint64_at required ''byteSize'') of
             (Inr relative, Inr digest, Inr bytes) \<Rightarrow>
               let kept = (if hostId = ''linux-x86_64'' \<and> starts_with relative ''usr/'' then drop 4 relative else relative);
                   kToolRoot = (if isPreparedArchive hostId artifact then ''seven_zip'' else ''gnupg'')
               in Inr (expectations @ [\<lparr>px_file = append_all kPreparedTools [kToolRoot, kept], px_bytes = bytes,
                    px_digest = digest, px_id = artifact @ '':'' @ kept\<rparr>])
           | _ \<Rightarrow> fail InvalidManifest artifact ''required prepared file identity is incomplete''))"

definition requiredFiles ::
  "Site \<Rightarrow> string \<Rightarrow> string \<Rightarrow> string \<Rightarrow> string \<Rightarrow> dom_object \<Rightarrow> PreparedExpectation list \<Rightarrow> PreparedExpectation list Result" where
  "requiredFiles site kPreparedTools hostId lockPath artifact object expectations =
     (if isPreparedArchive hostId artifact \<or> isPreparedGpg hostId artifact
      then (case rbind (dom_object_at object ''archive'') (\<lambda>archive. dom_array_at archive ''requiredFiles'') of
              Inl _ \<Rightarrow> fail InvalidManifest artifact ''prepared tool lacks required-file identities''
            | Inr files \<Rightarrow> rfold (requiredFile site kPreparedTools hostId lockPath artifact) expectations files)
      else Inr expectations)"

text \<open>A host's own artifact: its object in the cache, and what is prepared from it.\<close>

definition checkObject :: "Site \<Rightarrow> string \<Rightarrow> string \<Rightarrow> string \<Rightarrow> dom_object \<Rightarrow> nat Result" where
  "checkObject site repositoryRoot artifact expectedDigest object =
     (case dom_uint64_at object ''byteSize'' of
        Inl _ \<Rightarrow> fail InvalidJson artifact ''artifact byteSize is missing or invalid''
      | Inr expectedBytes \<Rightarrow>
          (case pb_size (su_probe site (cacheObject repositoryRoot expectedDigest)) of
             None \<Rightarrow> fail MissingInput artifact ''verified cache object is absent''
           | Some kObservedBytes \<Rightarrow>
               if kObservedBytes \<noteq> expectedBytes
               then fail VerificationFailed artifact ''cache object byte size does not match the lock''
               else rbind (sha256File (su_provider site) (cacheObject repositoryRoot expectedDigest)
                   (su_reads site (cacheObject repositoryRoot expectedDigest))) (\<lambda>observedDigest.
                 if observedDigest \<noteq> expectedDigest
                 then fail VerificationFailed artifact ''cache object SHA-256 does not match the lock''
                 else Inr expectedBytes)))"

record OfflineRun =
  of_ids :: "string list"
  of_expectations :: "PreparedExpectation list"
  of_report :: OfflineVerificationReport

definition offlineArtifact :: "Site \<Rightarrow> string \<Rightarrow> string \<Rightarrow> string \<Rightarrow> OfflineRun \<Rightarrow> dom_value \<Rightarrow> OfflineRun Result" where
  "offlineArtifact site repositoryRoot hostId lockPath run kElement =
     (case dom_get_object kElement of
        Inl _ \<Rightarrow> fail InvalidJson lockPath ''artifact entry must be an object''
      | Inr object \<Rightarrow>
          rbind (offlineString site object ''id'' lockPath) (\<lambda>artifact.
          rbind (offlineString site object ''platform'' lockPath) (\<lambda>platform.
          rbind (offlineString site object ''sha256'' lockPath) (\<lambda>expectedDigest.
          if artifact \<in> set (of_ids run) then fail OwnershipCollision artifact ''artifact ID is duplicated''
          else if \<not> artifactAppliesToHost platform hostId then Inr (run\<lparr>of_ids := of_ids run @ [artifact]\<rparr>)
          else
            rbind (checkObject site repositoryRoot artifact expectedDigest object) (\<lambda>kObservedBytes.
            let kPreparedTools = hostTools repositoryRoot hostId;
                single = (case preparedAs hostId artifact of
                    None \<Rightarrow> []
                  | Some kRelative \<Rightarrow> [\<lparr>px_file = path_append kPreparedTools kRelative, px_bytes = kObservedBytes,
                      px_digest = expectedDigest, px_id = artifact\<rparr>])
            in rbind (requiredFiles site kPreparedTools hostId lockPath artifact object (of_expectations run @ single))
                 (\<lambda>expectations.
               Inr \<lparr>of_ids = of_ids run @ [artifact], of_expectations = expectations,
                 of_report = \<lparr>ov_checkedArtifacts = ov_checkedArtifacts (of_report run) + 1,
                   ov_checkedBytes = (ov_checkedBytes (of_report run) + kObservedBytes) mod 2 ^ 64\<rparr>\<rparr>))))))"

text \<open>The artifacts of the lock.\<close>

definition lockedArtifacts :: "Site \<Rightarrow> string \<Rightarrow> (string \<times> dom_value list) Result" where
  "lockedArtifacts site repositoryRoot =
     rbind (resolveRepositoryPath site repositoryRoot ''third_party/artifacts.lock.json'') (\<lambda>lockPath.
     rbind (readSiteFile site lockPath kMaximumMaintainedJsonBytes) (\<lambda>input.
     case si_parse site input of
       Inl kError \<Rightarrow> fail InvalidJson lockPath (si_errorText site kError)
     | Inr rootElement \<Rightarrow>
         (case dom_get_object rootElement of
            Inl _ \<Rightarrow> fail InvalidJson lockPath ''artifact lock must be an object''
          | Inr root \<Rightarrow>
              (case dom_array_at root ''artifacts'' of
                 Inl _ \<Rightarrow> fail InvalidJson lockPath ''artifact lock has no artifacts array''
               | Inr artifacts \<Rightarrow> Inr (lockPath, artifacts)))))"

definition noneChecked :: OfflineRun where
  "noneChecked = \<lparr>of_ids = [], of_expectations = [], of_report = \<lparr>ov_checkedArtifacts = 0, ov_checkedBytes = 0\<rparr>\<rparr>"

definition verifyOfflineInputs :: "Site \<Rightarrow> string \<Rightarrow> string \<Rightarrow> OfflineVerificationReport Result" where
  "verifyOfflineInputs site repositoryRoot hostId =
     (if hostId \<noteq> ''windows-x86_64'' \<and> hostId \<noteq> ''linux-x86_64''
      then fail UnsupportedHost hostId ''host is outside the TASK-0001 matrix''
      else
        rbind (lockedArtifacts site repositoryRoot) (\<lambda>(lockPath, artifacts).
        rbind (rfold (offlineArtifact site repositoryRoot hostId lockPath) noneChecked artifacts) (\<lambda>run.
        if ov_checkedArtifacts (of_report run) = 0
        then fail MissingInput hostId ''artifact lock selects no inputs for host''
        else
          rbind (rfold (verifyFileIdentity site) () (of_expectations run)) (\<lambda>_.
          rbind (verifyPreparedCommands site repositoryRoot hostId) (\<lambda>_. Inr (of_report run))))))"

section \<open>What a verification that succeeds has checked\<close>

text \<open>An artifact of the lock that the host needs: its fields, and its object with that length and digest.\<close>

definition applies :: "string \<Rightarrow> dom_value \<Rightarrow> bool" where
  "applies hostId v \<longleftrightarrow>
     (case v of
        DObject ms \<Rightarrow> (case map_of ms ''platform'' of Some (DString p) \<Rightarrow> artifactAppliesToHost p hostId | _ \<Rightarrow> False)
      | _ \<Rightarrow> False)"

definition object_present :: "Site \<Rightarrow> string \<Rightarrow> dom_value \<Rightarrow> bool" where
  "object_present site root v \<longleftrightarrow>
     (case v of
        DObject ms \<Rightarrow>
          (case (dom_string_at ms ''sha256'', dom_uint64_at ms ''byteSize'') of
             (Inr digest, Inr bytes) \<Rightarrow>
               pb_size (su_probe site (cacheObject root digest)) = Some bytes \<and>
               sha256File (su_provider site) (cacheObject root digest) (su_reads site (cacheObject root digest)) = Inr digest
           | _ \<Rightarrow> False)
      | _ \<Rightarrow> False)"

definition locked_bytes :: "dom_value \<Rightarrow> nat" where
  "locked_bytes v = (case v of DObject ms \<Rightarrow> (case dom_uint64_at ms ''byteSize'' of Inr n \<Rightarrow> n | Inl _ \<Rightarrow> 0) | _ \<Rightarrow> 0)"

definition locked_id :: "dom_value \<Rightarrow> string" where
  "locked_id v = (case v of DObject ms \<Rightarrow> (case dom_string_at ms ''id'' of Inr s \<Rightarrow> s | Inl _ \<Rightarrow> []) | _ \<Rightarrow> [])"

lemma offlineString_ok: "offlineString site ms key path = Inr t \<longleftrightarrow> dom_string_at ms key = Inr t"
  by (auto simp: offlineString_def split: sum.splits)

lemma checkObject_ok:
  "checkObject site root artifact digest ms = Inr n \<Longrightarrow> dom_string_at ms ''sha256'' = Inr digest \<Longrightarrow>
     object_present site root (DObject ms) \<and> locked_bytes (DObject ms) = n"
  by (auto simp: checkObject_def object_present_def locked_bytes_def accepts split: option.split_asm)

lemma offlineArtifact_ok:
  assumes "offlineArtifact site root hostId lockPath run v = Inr run'"
  shows "of_ids run' = of_ids run @ [locked_id v] \<and> locked_id v \<notin> set (of_ids run) \<and>
    (if applies hostId v
     then object_present site root v \<and>
       of_report run' = \<lparr>ov_checkedArtifacts = Suc (ov_checkedArtifacts (of_report run)),
         ov_checkedBytes = (ov_checkedBytes (of_report run) + locked_bytes v) mod 2 ^ 64\<rparr>
     else of_report run' = of_report run)"
proof -
  from assms obtain ms artifact platform digest where v: "v = DObject ms"
    and strings: "dom_string_at ms ''id'' = Inr artifact" "dom_string_at ms ''platform'' = Inr platform"
      "dom_string_at ms ''sha256'' = Inr digest" and fresh: "artifact \<notin> set (of_ids run)"
    by (cases v) (auto simp: offlineArtifact_def accepts offlineString_ok split: if_split_asm)
  have applies: "applies hostId v \<longleftrightarrow> artifactAppliesToHost platform hostId"
    using strings(2) v by (auto simp: applies_def dom_at_iff)
  have locked: "locked_id v = artifact" using strings(1) v by (simp add: locked_id_def)
  show ?thesis
  proof (cases "artifactAppliesToHost platform hostId")
    case True
    from assms True obtain n expectations where check: "checkObject site root artifact digest ms = Inr n"
      and run': "run' = \<lparr>of_ids = of_ids run @ [artifact], of_expectations = expectations,
         of_report = \<lparr>ov_checkedArtifacts = ov_checkedArtifacts (of_report run) + 1,
           ov_checkedBytes = (ov_checkedBytes (of_report run) + n) mod 2 ^ 64\<rparr>\<rparr>"
      unfolding v by (auto simp: offlineArtifact_def accepts offlineString_ok strings fresh rbind_Inr_iff Let_def)
    show ?thesis
      using checkObject_ok [OF check strings(3)] run' applies locked fresh True by (simp add: v)
  next
    case False
    then have "run' = run\<lparr>of_ids := of_ids run @ [artifact]\<rparr>"
      using assms unfolding v by (auto simp: offlineArtifact_def accepts offlineString_ok strings fresh)
    then show ?thesis using applies locked fresh False by simp
  qed
qed

lemma offlineArtifact_fold:
  "rfold (offlineArtifact site root hostId lockPath) run vs = Inr run' \<Longrightarrow> distinct (of_ids run) \<Longrightarrow>
     distinct (of_ids run @ map locked_id vs) \<and> of_ids run' = of_ids run @ map locked_id vs \<and>
     list_all (object_present site root) (filter (applies hostId) vs) \<and>
     ov_checkedArtifacts (of_report run') = ov_checkedArtifacts (of_report run) + length (filter (applies hostId) vs) \<and>
     ov_checkedBytes (of_report run') mod 2 ^ 64 =
       (ov_checkedBytes (of_report run) + sum_list (map locked_bytes (filter (applies hostId) vs))) mod 2 ^ 64"
proof (induction vs arbitrary: run)
  case (Cons v vs)
  then obtain one where one: "offlineArtifact site root hostId lockPath run v = Inr one"
    and rest: "rfold (offlineArtifact site root hostId lockPath) one vs = Inr run'"
    by (auto simp: rbind_Inr_iff)
  note step = offlineArtifact_ok [OF one]
  have "distinct (of_ids one)" using step Cons.prems(2) by simp
  note IH = Cons.IH [OF rest this]
  show ?case
  proof (cases "applies hostId v")
    case True
    then have "ov_checkedBytes (of_report one) = (ov_checkedBytes (of_report run) + locked_bytes v) mod 2 ^ 64"
      using step by simp
    then have "ov_checkedBytes (of_report run') mod 2 ^ 64 =
        (ov_checkedBytes (of_report run) + (locked_bytes v + sum_list (map locked_bytes (filter (applies hostId) vs)))) mod 2 ^ 64"
      using IH by (simp only: mod_add_left_eq add.assoc)
    then show ?thesis using IH step True by simp
  qed (use IH step in simp)
qed simp

definition prepared_present :: "Site \<Rightarrow> PreparedExpectation \<Rightarrow> bool" where
  "prepared_present site x \<longleftrightarrow>
     pb_size (su_probe site (px_file x)) = Some (px_bytes x) \<and>
     sha256File (su_provider site) (px_file x) (su_reads site (px_file x)) = Inr (px_digest x)"

lemma verifyFileIdentity_fold:
  "rfold (verifyFileIdentity site) () xs = Inr () \<longleftrightarrow> list_all (prepared_present site) xs"
  by (induction xs)
    (auto simp: verifyFileIdentity_def prepared_present_def accepts rbind_Inr_iff split: option.splits)

lemma offlineArtifact_bytes:
  "rfold (offlineArtifact site root hostId lockPath) run vs = Inr run' \<Longrightarrow>
     ov_checkedBytes (of_report run) < 2 ^ 64 \<Longrightarrow> ov_checkedBytes (of_report run') < 2 ^ 64"
proof (induction vs arbitrary: run)
  case (Cons v vs)
  then obtain one where one: "offlineArtifact site root hostId lockPath run v = Inr one"
    and rest: "rfold (offlineArtifact site root hostId lockPath) one vs = Inr run'"
    by (auto simp: rbind_Inr_iff)
  have "ov_checkedBytes (of_report one) < 2 ^ 64"
    using offlineArtifact_ok [OF one] Cons.prems(2) by (cases "applies hostId v") simp_all
  with Cons.IH [OF rest] show ?case by simp
qed simp

text \<open>What the lock says is prepared from an artifact: itself, or the files of its archive.\<close>

definition required_file :: "string \<Rightarrow> string \<Rightarrow> string \<Rightarrow> dom_value \<Rightarrow> PreparedExpectation list" where
  "required_file root hostId artifact e =
     (case e of
        DObject ms \<Rightarrow>
          (case (dom_string_at ms ''path'', dom_string_at ms ''sha256'', dom_uint64_at ms ''byteSize'') of
             (Inr relative, Inr digest, Inr bytes) \<Rightarrow>
               let kept = (if hostId = ''linux-x86_64'' \<and> starts_with relative ''usr/'' then drop 4 relative else relative)
               in [\<lparr>px_file = append_all (hostTools root hostId)
                      [if isPreparedArchive hostId artifact then ''seven_zip'' else ''gnupg'', kept],
                    px_bytes = bytes, px_digest = digest, px_id = artifact @ '':'' @ kept\<rparr>]
           | _ \<Rightarrow> [])
      | _ \<Rightarrow> [])"

definition required_of :: "string \<Rightarrow> string \<Rightarrow> string \<Rightarrow> dom_object \<Rightarrow> PreparedExpectation list" where
  "required_of root hostId artifact ms =
     (if isPreparedArchive hostId artifact \<or> isPreparedGpg hostId artifact
      then (case rbind (dom_object_at ms ''archive'') (\<lambda>archive. dom_array_at archive ''requiredFiles'') of
              Inl _ \<Rightarrow> [] | Inr files \<Rightarrow> concat (map (required_file root hostId artifact) files))
      else [])"

definition expected_files :: "string \<Rightarrow> string \<Rightarrow> dom_value \<Rightarrow> PreparedExpectation list" where
  "expected_files root hostId v =
     (case v of
        DObject ms \<Rightarrow>
          (case (preparedAs hostId (locked_id v), dom_string_at ms ''sha256'') of
             (Some kRelative, Inr digest) \<Rightarrow>
               [\<lparr>px_file = path_append (hostTools root hostId) kRelative, px_bytes = locked_bytes v,
                 px_digest = digest, px_id = locked_id v\<rparr>]
           | _ \<Rightarrow> []) @ required_of root hostId (locked_id v) ms
      | _ \<Rightarrow> [])"

lemma requiredFile_adds:
  "requiredFile site (hostTools root hostId) hostId lockPath a xs e = Inr ys \<Longrightarrow> ys = xs @ required_file root hostId a e"
  by (cases e) (auto simp: requiredFile_def required_file_def accepts Let_def offlineString_ok
      split: sum.split_asm)

lemma requiredFile_fold:
  "rfold (requiredFile site (hostTools root hostId) hostId lockPath a) xs es = Inr ys \<Longrightarrow>
     ys = xs @ concat (map (required_file root hostId a) es)"
proof (induction es arbitrary: xs)
  case (Cons e es)
  then obtain one where "requiredFile site (hostTools root hostId) hostId lockPath a xs e = Inr one"
    and "rfold (requiredFile site (hostTools root hostId) hostId lockPath a) one es = Inr ys"
    by (auto simp: rbind_Inr_iff)
  then show ?case using Cons.IH requiredFile_adds by fastforce
qed simp

lemma requiredFiles_add:
  "requiredFiles site (hostTools root hostId) hostId lockPath a ms xs = Inr ys \<Longrightarrow> ys = xs @ required_of root hostId a ms"
  by (auto simp: requiredFiles_def required_of_def dest!: requiredFile_fold split: if_split_asm sum.split_asm)

lemma offlineArtifact_expects:
  assumes "offlineArtifact site root hostId lockPath run v = Inr run'"
  shows "of_expectations run' = of_expectations run @ (if applies hostId v then expected_files root hostId v else [])"
proof -
  from assms obtain ms artifact platform digest where v: "v = DObject ms"
    and strings: "dom_string_at ms ''id'' = Inr artifact" "dom_string_at ms ''platform'' = Inr platform"
      "dom_string_at ms ''sha256'' = Inr digest" and fresh: "artifact \<notin> set (of_ids run)"
    by (cases v) (auto simp: offlineArtifact_def accepts offlineString_ok split: if_split_asm)
  have applies: "applies hostId v \<longleftrightarrow> artifactAppliesToHost platform hostId"
    using strings(2) v by (auto simp: applies_def dom_at_iff)
  show ?thesis
  proof (cases "artifactAppliesToHost platform hostId")
    case True
    with assms obtain n where check: "checkObject site root artifact digest ms = Inr n"
      and grown: "requiredFiles site (hostTools root hostId) hostId lockPath artifact ms (of_expectations run @
        (case preparedAs hostId artifact of None \<Rightarrow> []
         | Some kRelative \<Rightarrow> [\<lparr>px_file = path_append (hostTools root hostId) kRelative, px_bytes = n,
             px_digest = digest, px_id = artifact\<rparr>])) = Inr (of_expectations run')"
      unfolding v by (auto simp: offlineArtifact_def accepts offlineString_ok strings fresh rbind_Inr_iff Let_def)
    have "expected_files root hostId v = (case preparedAs hostId artifact of None \<Rightarrow> []
         | Some kRelative \<Rightarrow> [\<lparr>px_file = path_append (hostTools root hostId) kRelative, px_bytes = n,
             px_digest = digest, px_id = artifact\<rparr>]) @ required_of root hostId artifact ms"
      using checkObject_ok [OF check strings(3)] strings
      by (simp add: expected_files_def v locked_id_def split: option.split)
    then show ?thesis using requiredFiles_add [OF grown] applies True by simp
  next
    case False
    then have "run' = run\<lparr>of_ids := of_ids run @ [artifact]\<rparr>"
      using assms unfolding v by (auto simp: offlineArtifact_def accepts offlineString_ok strings fresh)
    then show ?thesis using applies False by simp
  qed
qed

lemma offlineArtifact_expects_fold:
  "rfold (offlineArtifact site root hostId lockPath) run vs = Inr run' \<Longrightarrow>
     of_expectations run' = of_expectations run @ concat (map (expected_files root hostId) (filter (applies hostId) vs))"
proof (induction vs arbitrary: run)
  case (Cons v vs)
  then obtain one where "offlineArtifact site root hostId lockPath run v = Inr one"
    and "rfold (offlineArtifact site root hostId lockPath) one vs = Inr run'"
    by (auto simp: rbind_Inr_iff)
  then show ?case using Cons.IH offlineArtifact_expects by fastforce
qed simp

lemma verifyPreparedCommands_ok:
  assumes "verifyPreparedCommands site root hostId = Inr ()"
  shows "case su_run site (cmakeRequest root (hostTools root hostId)) of
      Inl _ \<Rightarrow> False
    | Inr cmake \<Rightarrow> ps_exitCode cmake = 0 \<and> starts_with (ps_standardOutput cmake) (''cmake version 4.4.0'' @ [CHR 0x0A])"
    and "case su_run site (cosignRequest root (hostTools root hostId)) of Inl _ \<Rightarrow> False | Inr cosign \<Rightarrow> ps_exitCode cosign = 0"
  using assms by (auto simp: verifyPreparedCommands_def Let_def rbind_Inr_iff simp del: rfold.simps split: if_split_asm)


end
