(* ===== verification/Evidence_Reports.thy ===== *)
theory Evidence_Reports
  imports Evidence_Licenses Evidence_Sources Evidence_PathAudit Evidence_Offline Evidence_Blob
begin

text \<open>
  \<open>tools/rf_evidence/src/report_writer.cpp\<close>: the documents of the audits, the place a report may go to and its
  publication.  A document is what is streamed, field by field; the reference is the canonical printer of
  \<open>Evidence_Json\<close> over a value.
\<close>

section \<open>Fields\<close>

definition textField :: "string \<Rightarrow> string \<Rightarrow> string" where
  "textField key v = writeJsonString key @ '':'' @ writeJsonString v"

definition numberField :: "string \<Rightarrow> nat \<Rightarrow> string" where
  "numberField key n = writeJsonString key @ '':'' @ nat_to_string n"

definition flagField :: "string \<Rightarrow> bool \<Rightarrow> string" where
  "flagField key b = writeJsonString key @ '':'' @ (if b then ''true'' else ''false'')"

definition listField :: "string \<Rightarrow> string list \<Rightarrow> string" where
  "listField key items = writeJsonString key @ '':['' @ separate items @ '']''"

definition textsField :: "string \<Rightarrow> string list \<Rightarrow> string" where
  "textsField key texts = listField key (map writeJsonString texts)"

definition objectText :: "string list \<Rightarrow> string" where
  "objectText members = ''{'' @ separate members @ ''}''"

text \<open>\<open>beginReport\<close>, the fields each after a comma, and \<open>endReport\<close>.\<close>

definition reportText :: "string \<Rightarrow> string list \<Rightarrow> string" where
  "reportText operation members =
     ''{'' @ numberField ''schemaVersion'' 1 @ '','' @ textField ''operation'' operation @
     concat (map (\<lambda>m. CHR '','' # m) members) @ ''}'' @ [CHR 0x0A]"

section \<open>The documents\<close>

definition kValidatedAuthorities :: "string list" where
  "kValidatedAuthorities = [''repository.json'', ''third_party/catalog.json'', ''third_party/toolchain.lock.json'',
     ''third_party/artifacts.lock.json'']"

definition buildAuthorityValidationReport :: "RepositorySnapshot \<Rightarrow> string" where
  "buildAuthorityValidationReport snapshot = reportText ''validate_repository''
     [flagField ''ok'' True,
      textsField ''validatedAuthorities'' (kValidatedAuthorities @ map ti_manifestPath (sn_tools snapshot)),
      flagField ''schemaOracleVerified'' True,
      flagField ''dependencyAuthoritiesValidated'' True,
      listField ''tools'' (map (\<lambda>tool. objectText [textField ''id'' (ti_id tool),
        textField ''manifestPath'' (ti_manifestPath tool), textField ''cmakeTarget'' (ti_cmakeTarget tool)])
        (sn_tools snapshot))]"

definition buildRepositoryGraphReport :: "RepositorySnapshot \<Rightarrow> string" where
  "buildRepositoryGraphReport snapshot = reportText ''graph_repository''
     [flagField ''ok'' True, numberField ''productionModuleCount'' 0,
      listField ''tools'' (map (\<lambda>tool. objectText [textField ''id'' (ti_id tool), textField ''cmakeTarget'' (ti_cmakeTarget tool),
        textsField ''thirdParty'' (ti_thirdPartyDependencies tool), textsField ''managedTools'' (ti_managedToolDependencies tool)])
        (sn_tools snapshot))]"

definition buildDependencyClosureReport :: "ToolInfo \<Rightarrow> string" where
  "buildDependencyClosureReport tool = reportText ''explain_dependency''
     [flagField ''ok'' True, textField ''tool'' (ti_id tool), textsField ''thirdParty'' (ti_thirdPartyDependencies tool),
      textsField ''managedTools'' (ti_managedToolDependencies tool), numberField ''productionReverseEdges'' 0]"

definition buildSourceOwnershipReport :: "SourceOwnershipEntry list \<Rightarrow> string" where
  "buildSourceOwnershipReport entries = reportText ''inspect_source_ownership''
     [flagField ''ok'' True, numberField ''fileCount'' (length entries),
      numberField ''maintainedFileCount'' (length (filter (\<lambda>e. \<not> isExemptFromLineThresholds (so_classification e)) entries)),
      numberField ''exemptFileCount'' (length (filter (\<lambda>e. isExemptFromLineThresholds (so_classification e)) entries)),
      numberField ''ownershipReviewLines'' kOwnershipReviewLines,
      numberField ''featureGrowthStopLines'' kFeatureGrowthStopLines,
      numberField ''hardFailureLines'' kHardFailureLines,
      numberField ''ownershipReviewCount'' (length (filter (\<lambda>e. so_gate e = OwnershipReviewRequired) entries)),
      numberField ''featureGrowthStopCount'' (length (filter (\<lambda>e. so_gate e = FeatureGrowthStopped) entries)),
      listField ''files'' (map (\<lambda>e. objectText [textField ''path'' (so_path e), numberField ''lines'' (so_lines e),
        textField ''owner'' (so_owner e), textField ''classification'' (sourceClassificationName (so_classification e)),
        flagField ''exempt'' (isExemptFromLineThresholds (so_classification e)), textField ''gate'' (sourceGateName (so_gate e)),
        textField ''severity'' (sourceGateSeverity (so_gate e))]) entries)]"

definition buildOfflineVerificationReport :: "string \<Rightarrow> OfflineVerificationReport \<Rightarrow> string" where
  "buildOfflineVerificationReport hostId report = reportText ''verify_offline''
     [flagField ''ok'' True, textField ''host'' hostId, numberField ''checkedArtifacts'' (ov_checkedArtifacts report),
      numberField ''checkedBytes'' (ov_checkedBytes report), flagField ''network'' True]"

definition buildLicenseReviewReport :: "LicenseReview \<Rightarrow> string" where
  "buildLicenseReviewReport review = reportText ''review_licenses''
     [flagField ''ok'' True, numberField ''catalogEntryCount'' (lv_catalogEntryCount review),
      numberField ''restrictedCount'' (lv_restrictedCount review),
      listField ''materials'' (map (\<lambda>m. objectText [textField ''path'' (lm_path m), numberField ''byteSize'' (lm_byteSize m),
        textField ''sha256'' (lm_sha256 m)]) (lv_materials review)),
      listField ''entries'' (map (\<lambda>e. objectText [textField ''id'' (lr_licenseId e), textsField ''catalogIds'' (lr_catalogIds e),
        textField ''spdxExpression'' (lr_spdxExpression e), textField ''materialPath'' (lr_materialPath e),
        textField ''sectionHeading'' (lr_sectionHeading e), textField ''redistribution'' (lr_redistribution e),
        textField ''approval'' (lr_approval e), textField ''advisoryPolicy'' (lr_advisoryPolicy e)]) (lv_entries review))]"

definition writePathEntries :: "string \<Rightarrow> PathAuditEntry list \<Rightarrow> string" where
  "writePathEntries key entries = listField key (map (\<lambda>e. objectText [textField ''path'' (px_path e),
     textField ''classification'' (px_classification e)]) entries)"

definition buildPathAuditReport :: "PathAudit \<Rightarrow> string" where
  "buildPathAuditReport audit = reportText ''audit_paths''
     [flagField ''ok'' (pa_envelopeViolations audit = []), numberField ''envelopeFileCount'' (pa_envelopeFileCount audit),
      numberField ''preexistingFileCount'' (pa_preexistingFileCount audit),
      writePathEntries ''envelopeViolations'' (pa_envelopeViolations audit),
      writePathEntries ''unclassifiedRootEntries'' (pa_unclassifiedRootEntries audit),
      writePathEntries ''stagingExcludedRootEntries'' (pa_stagingRootEntries audit),
      textsField ''envelopeFiles'' (pa_envelopeFiles audit)]"

definition buildShippingClosureReport :: "ShippingClosureAudit \<Rightarrow> string" where
  "buildShippingClosureReport audit = reportText ''audit_shipping_closure''
     [flagField ''ok'' (allPassed audit),
      listField ''checks'' (map (\<lambda>c. objectText [textField ''check'' (sc_check c), textField ''subject'' (sc_subject c),
        flagField ''pass'' (sc_pass c)]) (sa_checks audit))]"

section \<open>Where a report goes\<close>

definition kReportRootPrefix :: string where "kReportRootPrefix = ''out/reports/task-0001/''"

definition resolveReportPath :: "Site \<Rightarrow> string \<Rightarrow> string \<Rightarrow> string Result" where
  "resolveReportPath site repositoryRoot reportArgument =
     (if \<not> starts_with reportArgument kReportRootPrefix
      then fail InvalidPath reportArgument (''reports must stay beneath '' @ kReportRootPrefix)
      else if \<not> ends_with reportArgument ''.json'' then fail InvalidPath reportArgument ''reports must be .json files''
      else resolveRepositoryPath site repositoryRoot reportArgument)"

section \<open>Publication\<close>

text \<open>A stream writes through a link; the link carries the content of what it names.\<close>

definition write_node :: "bytes \<Rightarrow> DiskNode option \<Rightarrow> DiskNode option" where
  "write_node content node =
     (case node of Some (LinkNode _) \<Rightarrow> Some (LinkNode (Some content)) | Some SpecialNode \<Rightarrow> Some SpecialNode
      | _ \<Rightarrow> Some (FileNode content))"

definition openTruncated :: "Machine \<Rightarrow> string \<Rightarrow> Host \<Rightarrow> bool \<times> Host" where
  "openTruncated mc path = system_call mc
     (\<lambda>message progress disk. (False, disk))
     (\<lambda>disk. if disk path = Some DirectoryNode \<or> disk (parent_path path) \<noteq> Some DirectoryNode then (False, disk)
             else (True, disk(path := write_node [] (disk path))))"

definition writeStream :: "Machine \<Rightarrow> string \<Rightarrow> bytes \<Rightarrow> Host \<Rightarrow> bool \<times> Host" where
  "writeStream mc path content = system_call mc
     (\<lambda>message progress disk. (False, disk(path := write_node (take progress content) (disk path))))
     (\<lambda>disk. (True, disk(path := write_node content (disk path))))"

definition renameFile :: "Machine \<Rightarrow> string \<Rightarrow> string \<Rightarrow> Host \<Rightarrow> bool \<times> Host" where
  "renameFile mc staged destination = system_call mc
     (\<lambda>message progress disk. (False, disk))
     (\<lambda>disk. case disk staged of
        None \<Rightarrow> (False, disk)
      | Some node \<Rightarrow>
          if disk destination = Some DirectoryNode then (False, disk)
          else (True, disk(staged := None, destination := Some node)))"

definition writeReportAtomically :: "Machine \<Rightarrow> string \<Rightarrow> bytes \<Rightarrow> Host \<Rightarrow> Status \<times> Host" where
  "writeReportAtomically mc reportPath content h =
     (case createDirectories mc (parent_path reportPath) h of
        (Some _, h1) \<Rightarrow> (fail IoFailure reportPath ''cannot create the report directory'', h1)
      | (None, h1) \<Rightarrow>
          let stagingPath = reportPath @ ''.tmp''
          in (case openTruncated mc stagingPath h1 of
                (False, h2) \<Rightarrow> (fail IoFailure stagingPath ''cannot open the report staging file'', h2)
              | (True, h2) \<Rightarrow>
                  (case writeStream mc stagingPath content h2 of
                     (False, h3) \<Rightarrow> (fail IoFailure stagingPath ''cannot write the report staging file'', h3)
                   | (True, h3) \<Rightarrow>
                       (case renameFile mc stagingPath reportPath h3 of
                          (False, h4) \<Rightarrow>
                            (fail IoFailure reportPath ''cannot publish the report atomically'', discardStaged mc stagingPath h4)
                        | (True, h4) \<Rightarrow> (Inr (), h4)))))"

section \<open>The documents are the canonical text of their values\<close>

lemma writeJsonString_canonical: "writeJsonString = appendEscapedString"
  by (simp add: fun_eq_iff writeJsonString_def appendEscapedString_def escape_char_json)

definition texts :: "string list \<Rightarrow> CanonicalValue" where "texts ts = CArray (map CString ts)"

lemma fields_canonical:
  "textField key v = appendEscapedString key @ CHR '':'' # appendCanonical (CString v)"
  "numberField key n = appendEscapedString key @ CHR '':'' # appendCanonical (CInteger (int n))"
  "flagField key b = appendEscapedString key @ CHR '':'' # appendCanonical (CBoolean b)"
  "listField key (map (\<lambda>x. appendCanonical (f x)) xs) = appendEscapedString key @ CHR '':'' # appendCanonical (CArray (map f xs))"
  "textsField key ts = appendEscapedString key @ CHR '':'' # appendCanonical (texts ts)"
  by (simp_all add: textField_def numberField_def flagField_def listField_def textsField_def texts_def
      writeJsonString_canonical int_to_string_def comp_def)

text \<open>The text of a list of members.\<close>

definition member_text :: "Member \<Rightarrow> string" where
  "member_text m = appendEscapedString (fst m) @ CHR '':'' # appendCanonical (snd m)"

lemma separate_commas: "separate (x # xs) = x @ concat (map (\<lambda>m. CHR '','' # m) xs)"
  by (induction xs arbitrary: x) simp_all

lemma objectText_canonical: "objectText (map member_text ms) = appendCanonical (CObject ms)"
  by (simp add: objectText_def member_text_def [abs_def])

lemma listField_canonical:
  "listField key (map (\<lambda>x. objectText (map member_text (f x))) xs) =
     member_text (key, CArray (map (\<lambda>x. CObject (f x)) xs))"
  by (simp add: objectText_canonical member_text_def listField_def comp_def writeJsonString_canonical)

definition report_value :: "string \<Rightarrow> Member list \<Rightarrow> CanonicalValue" where
  "report_value operation ms = CObject ((''schemaVersion'', CInteger 1) # (''operation'', CString operation) # ms)"

lemma reportText_canonical:
  "reportText operation (map member_text ms) = appendCanonical (report_value operation ms) @ [CHR 0x0A]"
  by (simp add: reportText_def report_value_def fields_canonical separate_commas member_text_def [abs_def] comp_def)

text \<open>A report says what its value says.\<close>

lemma canonical_text_inj: "appendCanonical v = appendCanonical w \<longleftrightarrow> v = w"
  using appendCanonical_prefix [of "[]" "[]" v w] by (auto simp: follows_def)

lemma report_value_inj:
  "reportText o1 (map member_text ms1) = reportText o2 (map member_text ms2) \<longleftrightarrow> o1 = o2 \<and> ms1 = ms2"
  using canonical_text_inj [of "report_value o1 ms1" "report_value o2 ms2"]
  by (auto simp: reportText_canonical report_value_def)

text \<open>The members of the documents.\<close>

lemma member_fields:
  "textField key v = member_text (key, CString v)"
  "numberField key n = member_text (key, CInteger (int n))"
  "flagField key b = member_text (key, CBoolean b)"
  "textsField key ts = member_text (key, texts ts)"
  by (simp_all add: member_text_def fields_canonical)

lemma texts_inj [simp]: "texts ts = texts us \<longleftrightarrow> ts = us"
  using inj_map_eq_map [of CString ts us] by (simp add: texts_def inj_def)

lemma map_as_members: "[] = map member_text []" "member_text m # map member_text ms = map member_text (m # ms)"
  by simp_all

definition material_value :: "LicenseMaterial \<Rightarrow> CanonicalValue" where
  "material_value m = CObject [(''path'', CString (lm_path m)), (''byteSize'', CInteger (int (lm_byteSize m))),
     (''sha256'', CString (lm_sha256 m))]"

definition entry_value :: "LicenseReviewEntry \<Rightarrow> CanonicalValue" where
  "entry_value e = CObject [(''id'', CString (lr_licenseId e)), (''catalogIds'', texts (lr_catalogIds e)),
     (''spdxExpression'', CString (lr_spdxExpression e)), (''materialPath'', CString (lr_materialPath e)),
     (''sectionHeading'', CString (lr_sectionHeading e)), (''redistribution'', CString (lr_redistribution e)),
     (''approval'', CString (lr_approval e)), (''advisoryPolicy'', CString (lr_advisoryPolicy e))]"

definition license_members :: "LicenseReview \<Rightarrow> Member list" where
  "license_members r = [(''ok'', CBoolean True), (''catalogEntryCount'', CInteger (int (lv_catalogEntryCount r))),
     (''restrictedCount'', CInteger (int (lv_restrictedCount r))), (''materials'', CArray (map material_value (lv_materials r))),
     (''entries'', CArray (map entry_value (lv_entries r)))]"

definition path_entry_value :: "PathAuditEntry \<Rightarrow> CanonicalValue" where
  "path_entry_value e = CObject [(''path'', CString (px_path e)), (''classification'', CString (px_classification e))]"

definition path_audit_members :: "PathAudit \<Rightarrow> Member list" where
  "path_audit_members a = [(''ok'', CBoolean (pa_envelopeViolations a = [])),
     (''envelopeFileCount'', CInteger (int (pa_envelopeFileCount a))),
     (''preexistingFileCount'', CInteger (int (pa_preexistingFileCount a))),
     (''envelopeViolations'', CArray (map path_entry_value (pa_envelopeViolations a))),
     (''unclassifiedRootEntries'', CArray (map path_entry_value (pa_unclassifiedRootEntries a))),
     (''stagingExcludedRootEntries'', CArray (map path_entry_value (pa_stagingRootEntries a))),
     (''envelopeFiles'', texts (pa_envelopeFiles a))]"

definition check_value :: "ShippingClosureCheck \<Rightarrow> CanonicalValue" where
  "check_value c = CObject [(''check'', CString (sc_check c)), (''subject'', CString (sc_subject c)), (''pass'', CBoolean (sc_pass c))]"

definition shipping_members :: "ShippingClosureAudit \<Rightarrow> Member list" where
  "shipping_members a = [(''ok'', CBoolean (allPassed a)), (''checks'', CArray (map check_value (sa_checks a)))]"

lemma documents_canonical:
  "buildLicenseReviewReport r = reportText ''review_licenses'' (map member_text (license_members r))"
  "buildPathAuditReport a = reportText ''audit_paths'' (map member_text (path_audit_members a))"
  "buildShippingClosureReport s = reportText ''audit_shipping_closure'' (map member_text (shipping_members s))"
  by (simp_all add: buildLicenseReviewReport_def buildPathAuditReport_def buildShippingClosureReport_def
      writePathEntries_def license_members_def path_audit_members_def shipping_members_def member_fields map_as_members
      listField_canonical material_value_def [abs_def] entry_value_def [abs_def] path_entry_value_def [abs_def]
      check_value_def [abs_def] del: list.map)

lemma values_inj:
  "inj material_value" "inj entry_value" "inj path_entry_value" "inj check_value"
  by (auto intro!: injI simp: material_value_def entry_value_def path_entry_value_def check_value_def
      intro: LicenseMaterial.equality LicenseReviewEntry.equality PathAuditEntry.equality ShippingClosureCheck.equality)

text \<open>
  A document says exactly what was found: two license reviews, two path audits or two shipping audits have the
  same document only if they are the same, and the document of each is the canonical text of its value.
\<close>

theorem reports_identify_what_was_found:
  "(buildLicenseReviewReport r = buildLicenseReviewReport r' \<longleftrightarrow> r = r') \<and>
   (buildPathAuditReport a = buildPathAuditReport a' \<longleftrightarrow> a = a') \<and>
   (buildShippingClosureReport s = buildShippingClosureReport s' \<longleftrightarrow> s = s') \<and>
   buildLicenseReviewReport r = serializeCanonical (report_value ''review_licenses'' (license_members r)) @ [CHR 0x0A] \<and>
   buildPathAuditReport a = serializeCanonical (report_value ''audit_paths'' (path_audit_members a)) @ [CHR 0x0A] \<and>
   buildShippingClosureReport s = serializeCanonical (report_value ''audit_shipping_closure'' (shipping_members s)) @ [CHR 0x0A]"
proof -
  have "license_members r = license_members r' \<longleftrightarrow> r = r'"
    by (auto simp: license_members_def inj_map_eq_map values_inj intro: LicenseReview.equality)
  moreover have "path_audit_members a = path_audit_members a' \<longleftrightarrow> a = a'"
    by (auto simp: path_audit_members_def inj_map_eq_map values_inj intro: PathAudit.equality)
  moreover have "shipping_members s = shipping_members s' \<longleftrightarrow> s = s'"
    by (auto simp: shipping_members_def inj_map_eq_map values_inj intro: ShippingClosureAudit.equality)
  ultimately show ?thesis
    unfolding documents_canonical report_value_inj
    unfolding serializeCanonical_def reportText_canonical by simp
qed

section \<open>Publication is atomic\<close>

text \<open>The other processes leave a path alone.\<close>

definition leaves_alone :: "Machine \<Rightarrow> string \<Rightarrow> bool" where
  "leaves_alone mc p \<longleftrightarrow> (\<forall>t disk. mc_others mc t disk p = disk p)"

lemma call_leaves:
  assumes "leaves_alone mc p" and "system_call mc failing performed h = (r, h')"
    and "\<And>m k d. snd (failing m k d) p = d p" and "\<And>d d'. performed d = (r, d') \<Longrightarrow> d' p = d p"
  shows "ho_disk h' p = ho_disk h p"
proof -
  let ?d = "mc_others mc (ho_clock h) (ho_disk h)"
  have "ho_disk h' p = ?d p"
  proof (cases "mc_fault mc (ho_clock h)")
    case None
    then show ?thesis
      using assms(2) assms(4) [of ?d] by (cases "performed ?d") (auto simp: system_call_def Let_def)
  next
    case (Some fault)
    then show ?thesis
      using assms(2) assms(3) [of "fst fault" "snd fault" ?d]
      by (cases fault; cases "failing (fst fault) (snd fault) ?d") (auto simp: system_call_def Let_def)
  qed
  then show ?thesis using assms(1) by (simp add: leaves_alone_def)
qed

lemma call_through:
  assumes "leaves_alone mc p" and "system_call mc failing performed h = (True, h')"
    and "\<And>m k d. fst (failing m k d) = False"
  obtains d where "d p = ho_disk h p" and "performed d = (True, ho_disk h')"
proof -
  let ?d = "mc_others mc (ho_clock h) (ho_disk h)"
  have "performed ?d = (True, ho_disk h')"
  proof (cases "mc_fault mc (ho_clock h)")
    case None
    then show ?thesis
      using assms(2) by (cases "performed ?d") (auto simp: system_call_def Let_def)
  next
    case (Some fault)
    then show ?thesis
      using assms(2) assms(3) [of "fst fault" "snd fault" ?d]
      by (cases fault; cases "failing (fst fault) (snd fault) ?d") (auto simp: system_call_def Let_def)
  qed
  then show ?thesis using assms(1) that [of ?d] by (simp add: leaves_alone_def)
qed

lemma directories_to_length: "q \<in> set (directories_to d) \<Longrightarrow> length q \<le> length d"
  by (auto simp: directories_to_def)

lemma parent_path_shorter:
  assumes "p \<noteq> []" and "last p \<noteq> CHR ''/''"
  shows "length (parent_path p) < length p"
proof -
  let ?dir = "rev (dropWhile (\<lambda>c. c \<noteq> CHR ''/'') (rev p))"
  obtain q c where p: "p = q @ [c]" "c \<noteq> CHR ''/''" using assms by (cases p rule: rev_cases) auto
  have dir: "length ?dir < length p"
    using length_dropWhile_le [of "\<lambda>c. c \<noteq> CHR ''/''" "rev q"] p by simp
  have trim: "length (rev (dropWhile (\<lambda>c. c = CHR ''/'') (rev ?dir))) \<le> length ?dir"
    using length_dropWhile_le [of "\<lambda>c. c = CHR ''/''" "rev ?dir"] by simp
  have "parent_path p = ''/'' \<and> ?dir \<noteq> [] \<or> parent_path p = rev (dropWhile (\<lambda>c. c = CHR ''/'') (rev ?dir))"
    unfolding parent_path_def Let_def by meson
  then show ?thesis
  proof
    assume root: "parent_path p = ''/'' \<and> ?dir \<noteq> []"
    then have "0 < length ?dir" by blast
    with dir root show ?thesis by (metis One_nat_def length_Cons less_one linorder_neqE_nat list.size(3) not_less_eq)
  next
    assume "parent_path p = rev (dropWhile (\<lambda>c. c = CHR ''/'') (rev ?dir))"
    then have "length (parent_path p) \<le> length ?dir" by (rule ssubst) (rule trim)
    with dir show ?thesis by (rule le_less_trans [rotated])
  qed
qed

lemma createDirectories_leaves:
  assumes "leaves_alone mc q" and "length d < length q"
  shows "ho_disk (snd (createDirectories mc d h)) q = ho_disk h q"
proof -
  have "q \<notin> set (directories_to d)" using directories_to_length assms(2) by (meson not_le)
  then show ?thesis
    unfolding createDirectories_def
    by (intro call_leaves [OF assms(1) surjective_pairing]) (auto split: if_split_asm)
qed

lemma writeStaged_holds:
  assumes "leaves_alone mc s" and "openTruncated mc s h1 = (True, h2)" and "writeStream mc s content h2 = (True, h3)"
    and "ho_disk h1 s = None \<or> (\<exists>b. ho_disk h1 s = Some (FileNode b))"
  shows "ho_disk h3 s = Some (FileNode content)"
proof -
  note through = assms(2,3) [unfolded openTruncated_def writeStream_def]
  from call_through [OF assms(1) through(1) fst_conv] obtain d where d: "d s = ho_disk h1 s"
    "(if d s = Some DirectoryNode \<or> d (parent_path s) \<noteq> Some DirectoryNode then (False, d)
      else (True, d(s := write_node [] (d s)))) = (True, ho_disk h2)" by blast
  from d(2) have "ho_disk h2 = d(s := write_node [] (d s))" by (auto split: if_split_asm)
  then have "ho_disk h2 s = Some (FileNode [])"
    using assms(4) d(1) by (auto simp: write_node_def)
  moreover from call_through [OF assms(1) through(2) fst_conv] obtain e where e: "e s = ho_disk h2 s"
    "(True, e(s := write_node content (e s))) = (True, ho_disk h3)" by blast
  from e(2) have "ho_disk h3 = e(s := write_node content (e s))" by auto
  ultimately show ?thesis using e(1) by (simp add: write_node_def)
qed

lemma renameFile_moves:
  assumes "leaves_alone mc s" and "renameFile mc s p h = (True, h')" and "ho_disk h s = Some node"
  shows "ho_disk h' p = Some node"
proof -
  from call_through [OF assms(1) assms(2) [unfolded renameFile_def] fst_conv] obtain d where d: "d s = ho_disk h s"
    "(case d s of None \<Rightarrow> (False, d)
      | Some node \<Rightarrow> if d p = Some DirectoryNode then (False, d) else (True, d(s := None, p := Some node))) =
        (True, ho_disk h')" by blast
  from d(2) have "\<exists>node. d s = Some node \<and> ho_disk h' = d(s := None, p := Some node)"
    by (auto split: option.split_asm if_split_asm)
  then show ?thesis using d(1) assms(3) by auto
qed

lemma report_calls_leave:
  assumes "leaves_alone mc p"
  shows "openTruncated mc (p @ ''.tmp'') h = (r, h') \<Longrightarrow> ho_disk h' p = ho_disk h p"
    and "writeStream mc (p @ ''.tmp'') content h = (r, h') \<Longrightarrow> ho_disk h' p = ho_disk h p"
    and "renameFile mc (p @ ''.tmp'') p h = (False, h') \<Longrightarrow> ho_disk h' p = ho_disk h p"
    and "ho_disk (discardStaged mc (p @ ''.tmp'') h) p = ho_disk h p"
proof -
  show "openTruncated mc (p @ ''.tmp'') h = (r, h') \<Longrightarrow> ho_disk h' p = ho_disk h p"
    unfolding openTruncated_def by (rule call_leaves [OF assms]) (auto split: if_split_asm)
  show "writeStream mc (p @ ''.tmp'') content h = (r, h') \<Longrightarrow> ho_disk h' p = ho_disk h p"
    unfolding writeStream_def by (rule call_leaves [OF assms]) auto
  show "renameFile mc (p @ ''.tmp'') p h = (False, h') \<Longrightarrow> ho_disk h' p = ho_disk h p"
    unfolding renameFile_def by (rule call_leaves [OF assms]) (auto split: option.split_asm if_split_asm)
  show "ho_disk (discardStaged mc (p @ ''.tmp'') h) p = ho_disk h p"
    unfolding discardStaged_def by (rule call_leaves [OF assms surjective_pairing]) auto
qed

text \<open>
  C10. The publication of a report is atomic: whatever calls fail and wherever they stop, as long as the other
  processes leave the report and its staging file alone and there is no link under the staging name, the path of
  the report afterwards holds the complete document when the writer reports success, and exactly what it held
  before when the writer reports a failure.
\<close>

theorem report_publication_is_atomic:
  assumes "leaves_alone mc p" and "leaves_alone mc (p @ ''.tmp'')" and "ends_with p ''.json''"
    and "ho_disk h (p @ ''.tmp'') = None \<or> (\<exists>b. ho_disk h (p @ ''.tmp'') = Some (FileNode b))"
  shows "case writeReportAtomically mc p content h of
      (Inr _, h') \<Rightarrow> ho_disk h' p = Some (FileNode content)
    | (Inl _, h') \<Rightarrow> ho_disk h' p = ho_disk h p"
proof -
  let ?s = "p @ ''.tmp''"
  have shorter: "length (parent_path p) < length p"
    using assms(3) by (intro parent_path_shorter) (auto simp: ends_with_iff)
  obtain made h1 where create: "createDirectories mc (parent_path p) h = (made, h1)" by fastforce
  have h1: "ho_disk h1 p = ho_disk h p" "ho_disk h1 ?s = ho_disk h ?s"
    using createDirectories_leaves [OF assms(1) shorter] createDirectories_leaves [OF assms(2), of "parent_path p"] shorter create
    by (metis snd_conv) (use createDirectories_leaves [OF assms(2), of "parent_path p" h] shorter create in simp)
  obtain opened h2 where opens: "openTruncated mc ?s h1 = (opened, h2)" by fastforce
  obtain written h3 where writing: "writeStream mc ?s content h2 = (written, h3)" by fastforce
  obtain renamed h4 where rename: "renameFile mc ?s p h3 = (renamed, h4)" by fastforce
  note leaves = report_calls_leave [OF assms(1)]
  have h2: "ho_disk h2 p = ho_disk h p" using leaves(1) [OF opens] h1 by simp
  then have h3: "ho_disk h3 p = ho_disk h p" using leaves(2) [OF writing] by simp
  then have kept: "ho_disk h4 p = ho_disk h p" if "\<not> renamed"
    using leaves(3) rename that by simp
  have moved: "ho_disk h4 p = Some (FileNode content)" if "opened" "written" "renamed"
  proof -
    have "ho_disk h3 ?s = Some (FileNode content)"
      by (rule writeStaged_holds [OF assms(2), of h1 h2]) (use opens writing that assms(4) h1(2) in simp_all)
    then show ?thesis
      by (rule renameFile_moves [OF assms(2), rotated]) (use rename that in simp)
  qed
  show ?thesis
    using create opens writing rename h1(1) h2 h3 kept moved leaves(4)
    by (cases made; cases opened; cases written; cases renamed) (auto simp: writeReportAtomically_def Let_def fail_def)
qed

definition faulty_machine :: Machine where
  "faulty_machine = \<lparr>mc_provider = demo_provider, mc_process = 1, mc_others = (\<lambda>t disk. disk),
     mc_fault = (\<lambda>t. if t = 2 then Some (''no space'', 3) else None)\<rparr>"

definition bare_host :: Host where
  "bare_host = \<lparr>ho_disk = [''/'' \<mapsto> DirectoryNode], ho_clock = 0, ho_stagings = 0\<rparr>"

theorem report_publication_is_atomic_witness:
  "case writeReportAtomically faulty_machine ''/a.json'' ''{}'' bare_host of
      (Inr _, h') \<Rightarrow> ho_disk h' ''/a.json'' = Some (FileNode ''{}'')
    | (Inl _, h') \<Rightarrow> ho_disk h' ''/a.json'' = ho_disk bare_host ''/a.json''"
  by (rule report_publication_is_atomic)
    (simp_all add: leaves_alone_def faulty_machine_def bare_host_def ends_with_def)

end
