(* ===== verification/Evidence_Set.thy ===== *)
theory Evidence_Set
  imports Evidence_Metrics Evidence_Blob
begin

text \<open>
  \<open>tools/rf_evidence/src/evidence_set.{h,cpp}\<close>: the attempt plan, the accounting that makes an
  omitted attempt visible, the retry chains, and the assembly of the evidence set.  The blob
  store answers through the record \<open>BlobStore\<close>.
\<close>

section \<open>Plans\<close>

record PlannedAttempt =
  pa_attemptId :: bytes
  pa_attemptOrdinal :: int
  pa_repetitionOrdinal :: int
  pa_supersedesAttemptId :: bytes
  pa_receipt :: "Descriptor option"   \<comment> \<open>\<open>hasReceipt\<close> and \<open>receipt\<close>\<close>

record AttemptPlan =
  ap_planId :: bytes
  ap_tier :: bytes
  ap_repetitionCount :: int
  ap_attemptCount :: int
  ap_attempts :: "PlannedAttempt list"

definition kMaximumPlannedAttempts :: nat where "kMaximumPlannedAttempts = 4096"
definition kMaximumSupersedesDepth :: nat where "kMaximumSupersedesDepth = 64"
definition kNoReceiptStatus :: bytes where "kNoReceiptStatus = ''no_receipt''"

definition requireString :: "CanonicalValue \<Rightarrow> bytes \<Rightarrow> string \<Rightarrow> bytes RecordResult" where
  "requireString parent name context =
     (case find_member parent name of
        Some (CString t) \<Rightarrow> Inr t
      | _ \<Rightarrow> reject RecSchemaInvalid (context @ '' carries no string '' @ name))"

definition requireInteger :: "CanonicalValue \<Rightarrow> bytes \<Rightarrow> string \<Rightarrow> int RecordResult" where
  "requireInteger parent name context =
     (case find_member parent name of
        Some (CInteger i) \<Rightarrow> Inr i
      | _ \<Rightarrow> reject RecSchemaInvalid (context @ '' carries no integer '' @ name))"

definition requireNested ::
  "(CanonicalValue \<Rightarrow> bytes \<Rightarrow> string \<Rightarrow> 'a RecordResult) \<Rightarrow> CanonicalValue \<Rightarrow> bytes \<Rightarrow> bytes \<Rightarrow> 'a RecordResult" where
  "requireNested require record grp name =
     (case find_member record grp of
        None \<Rightarrow> reject RecSchemaInvalid (''receipt carries no '' @ grp @ '' group'')
      | Some kGroup \<Rightarrow>
          if value_kind kGroup \<noteq> KObject then reject RecSchemaInvalid (''receipt carries no '' @ grp @ '' group'')
          else require kGroup name grp)"

abbreviation "requireNestedString \<equiv> requireNested requireString"
abbreviation "requireNestedInteger \<equiv> requireNested requireInteger"

section \<open>Schedule accounting\<close>

text \<open>\<open>static_cast<std::size_t>\<close> of a \<open>std::int64_t\<close>.\<close>

definition to_size :: "int \<Rightarrow> nat" where
  "to_size i = nat (i mod 2 ^ 64)"

record Accounting =
  ac_identities :: "bytes list"
  ac_attemptOrdinals :: "int list"      \<comment> \<open>\<open>std::set\<close>, kept sorted\<close>
  ac_repetitionOrdinals :: "int list"

definition accountAttempt :: "AttemptPlan \<Rightarrow> Accounting \<Rightarrow> PlannedAttempt \<Rightarrow> Accounting RecordResult" where
  "accountAttempt plan acc kAttempt =
     (if pa_attemptId kAttempt \<in> set (ac_identities acc)
      then reject RecSchemaInvalid (''two attempts claim identity '' @ pa_attemptId kAttempt)
      else if pa_attemptOrdinal kAttempt \<in> set (ac_attemptOrdinals acc)
      then reject RecSchemaInvalid (''two attempts claim ordinal '' @ int_to_string (pa_attemptOrdinal kAttempt))
      else if ap_repetitionCount plan < pa_repetitionOrdinal kAttempt
      then reject RecSchemaInvalid (''attempt '' @ pa_attemptId kAttempt @ '' names a repetition outside the schedule'')
      else Inr \<lparr>ac_identities = pa_attemptId kAttempt # ac_identities acc,
                ac_attemptOrdinals = insort_insert (pa_attemptOrdinal kAttempt) (ac_attemptOrdinals acc),
                ac_repetitionOrdinals = insort_insert (pa_repetitionOrdinal kAttempt) (ac_repetitionOrdinals acc)\<rparr>)"

definition checkScheduleAccounting :: "AttemptPlan \<Rightarrow> RecordStatus" where
  "checkScheduleAccounting plan =
     (let kDeclared = to_size (ap_attemptCount plan) in
      if length (ap_attempts plan) \<noteq> kDeclared
      then reject RecSchemaInvalid (''the plan declares '' @ nat_to_string kDeclared @ '' attempts and lists ''
             @ nat_to_string (length (ap_attempts plan)))
      else rbind (rfold (accountAttempt plan)
                    \<lparr>ac_identities = [], ac_attemptOrdinals = [], ac_repetitionOrdinals = []\<rparr>
                    (ap_attempts plan)) (\<lambda>acc.
        rbind (rfold (\<lambda>expected kOrdinal.
                 if kOrdinal \<noteq> expected
                 then reject RecSchemaInvalid (''attempt ordinals skip '' @ int_to_string expected
                        @ '', so an attempt is unaccounted for'')
                 else Inr (expected + 1)) 1 (ac_attemptOrdinals acc)) (\<lambda>_.
        rfold (\<lambda>_ repetition.
          if repetition \<notin> set (ac_repetitionOrdinals acc)
          then reject RecSchemaInvalid (''repetition '' @ int_to_string repetition @ '' has no attempt'')
          else Inr ()) () [1..ap_repetitionCount plan])))"

section \<open>Supersedes chains\<close>

definition byIdentity :: "AttemptPlan \<Rightarrow> bytes \<Rightarrow> PlannedAttempt option" where
  "byIdentity plan identity = List.find (\<lambda>a. pa_attemptId a = identity) (ap_attempts plan)"

function chainWalk :: "AttemptPlan \<Rightarrow> bytes \<Rightarrow> bytes list \<Rightarrow> PlannedAttempt \<Rightarrow> nat \<Rightarrow> RecordStatus" where
  "chainWalk plan start seen current depth =
     (if pa_supersedesAttemptId current = [] then Inr ()
      else (case byIdentity plan (pa_supersedesAttemptId current) of
              None \<Rightarrow> reject RecSchemaInvalid
                (''attempt '' @ pa_attemptId current @ '' supersedes an attempt outside the plan'')
            | Some kFound \<Rightarrow>
                if pa_supersedesAttemptId current \<in> set seen
                then reject RecSchemaInvalid (''the supersedes chain through '' @ start @ '' loops'')
                else if kMaximumSupersedesDepth < depth + 1
                then reject RecLimitExceeded
                  (''the supersedes chain through '' @ start @ '' exceeds the depth limit'')
                else chainWalk plan start (pa_supersedesAttemptId current # seen) kFound (depth + 1)))"
  by pat_completeness auto
termination
  by (relation "measure (\<lambda>(plan, start, seen, current, depth). kMaximumSupersedesDepth - depth)")
    (auto split: if_splits)

declare chainWalk.simps [simp del]

definition checkSupersedesChains :: "AttemptPlan \<Rightarrow> RecordStatus" where
  "checkSupersedesChains plan =
     rfold (\<lambda>_ kAttempt. chainWalk plan (pa_attemptId kAttempt) [pa_attemptId kAttempt] kAttempt 0)
       () (ap_attempts plan)"

section \<open>Reading a plan\<close>

definition readAttempt :: "CanonicalValue \<Rightarrow> PlannedAttempt RecordResult" where
  "readAttempt kEntry =
     (if value_kind kEntry \<noteq> KObject then reject RecSchemaInvalid ''a plan attempt is not an object''
      else
        rbind (requireString kEntry ''attemptId'' ''attempt'') (\<lambda>attemptId.
        rbind (requireInteger kEntry ''attemptOrdinal'' ''attempt'') (\<lambda>attemptOrdinal.
        rbind (requireInteger kEntry ''repetitionOrdinal'' ''attempt'') (\<lambda>repetitionOrdinal.
        rbind (case find_member kEntry ''supersedesAttemptId'' of
                 None \<Rightarrow> Inr []
               | Some kSupersedes \<Rightarrow>
                   if value_kind kSupersedes \<noteq> KString
                   then reject RecSchemaInvalid ''supersedesAttemptId is not a string''
                   else Inr (value_text kSupersedes)) (\<lambda>supersedes.
        (case find_member kEntry ''receipt'' of
           None \<Rightarrow> reject RecSchemaInvalid (''attempt '' @ attemptId @ '' omits its receipt member'')
         | Some kReceipt \<Rightarrow>
             rbind (if value_kind kReceipt \<noteq> KNull
                    then rbind (parseDescriptor kReceipt) (\<lambda>d. Inr (Some d)) else Inr None) (\<lambda>receipt.
             Inr \<lparr>pa_attemptId = attemptId, pa_attemptOrdinal = attemptOrdinal,
                  pa_repetitionOrdinal = repetitionOrdinal, pa_supersedesAttemptId = supersedes,
                  pa_receipt = receipt\<rparr>)))))))"

definition parseAttemptPlan :: "Oracle \<Rightarrow> string \<Rightarrow> string \<Rightarrow> CanonicalValue \<Rightarrow> AttemptPlan RecordResult" where
  "parseAttemptPlan oracle root instancePath record =
     rbind (checkProducerAuthority record) (\<lambda>_.
     rbind (checkRecordKind record ''attempt_plan'') (\<lambda>_.
     rbind (validateAgainstSchema oracle root ''schemas/attempt-plan-v1.schema.json'' instancePath) (\<lambda>_.
     rbind (requireString record ''planId'' ''plan'') (\<lambda>planId.
     rbind (requireString record ''tier'' ''plan'') (\<lambda>tier.
     (case find_member record ''schedule'' of
        None \<Rightarrow> reject RecSchemaInvalid ''plan carries no schedule''
      | Some kSchedule \<Rightarrow>
          if value_kind kSchedule \<noteq> KObject then reject RecSchemaInvalid ''plan carries no schedule''
          else
          rbind (requireInteger kSchedule ''repetitionCount'' ''schedule'') (\<lambda>repetitionCount.
          rbind (requireInteger kSchedule ''attemptCount'' ''schedule'') (\<lambda>attemptCount.
          (case find_member record ''attempts'' of
             Some (CArray es) \<Rightarrow>
               if kMaximumPlannedAttempts < length es
               then reject RecLimitExceeded ''the plan exceeds the planned attempt limit''
               else
                 rbind (rmap readAttempt es) (\<lambda>attempts.
                 let plan = \<lparr>ap_planId = planId, ap_tier = tier, ap_repetitionCount = repetitionCount,
                       ap_attemptCount = attemptCount, ap_attempts = attempts\<rparr>
                 in rbind (checkScheduleAccounting plan) (\<lambda>_.
                    rbind (checkSupersedesChains plan) (\<lambda>_. Inr plan)))
           | _ \<Rightarrow> reject RecSchemaInvalid ''plan carries no attempts array'')))))))))"

section \<open>Assembly\<close>

record CompatibilityFacts =
  cf_profileId :: bytes
  cf_workloadFingerprint :: bytes
  cf_targetId :: bytes
  cf_platformId :: bytes
  cf_configuration :: bytes
  cf_closureFingerprint :: bytes
  cf_harnessId :: bytes
  cf_metricRegistryGeneration :: int
  cf_runnerGeneration :: int
  cf_cellFingerprint :: bytes

definition readCompatibility :: "CanonicalValue \<Rightarrow> CompatibilityFacts RecordResult" where
  "readCompatibility receipt =
     rbind (requireNestedString receipt ''profile'' ''profileId'') (\<lambda>profileId.
     rbind (requireNestedString receipt ''profile'' ''workloadFingerprint'') (\<lambda>workload.
     rbind (requireNestedString receipt ''build'' ''targetId'') (\<lambda>targetId.
     rbind (requireNestedString receipt ''build'' ''platformId'') (\<lambda>platformId.
     rbind (requireNestedString receipt ''build'' ''configuration'') (\<lambda>configuration.
     rbind (requireNestedString receipt ''build'' ''closureFingerprint'') (\<lambda>closureFingerprint.
     rbind (requireNestedString receipt ''harness'' ''harnessId'') (\<lambda>harnessId.
     rbind (requireInteger receipt ''metricRegistryGeneration'' ''receipt'') (\<lambda>registryGeneration.
     rbind (requireNestedInteger receipt ''runner'' ''runnerGeneration'') (\<lambda>runnerGeneration.
     rbind (requireNestedString receipt ''runner'' ''cellFingerprint'') (\<lambda>cellFingerprint.
     Inr \<lparr>cf_profileId = profileId, cf_workloadFingerprint = workload, cf_targetId = targetId,
          cf_platformId = platformId, cf_configuration = configuration,
          cf_closureFingerprint = closureFingerprint, cf_harnessId = harnessId,
          cf_metricRegistryGeneration = registryGeneration, cf_runnerGeneration = runnerGeneration,
          cf_cellFingerprint = cellFingerprint\<rparr>))))))))))"

definition readTerminalStatus :: "CanonicalValue \<Rightarrow> bytes RecordResult" where
  "readTerminalStatus receipt = requireString receipt ''status'' ''receipt''"

definition compatibilityValue :: "CompatibilityFacts \<Rightarrow> CanonicalValue" where
  "compatibilityValue facts = makeObject
     [(''profileId'', CString (cf_profileId facts)),
      (''workloadFingerprint'', CString (cf_workloadFingerprint facts)),
      (''targetId'', CString (cf_targetId facts)), (''platformId'', CString (cf_platformId facts)),
      (''configuration'', CString (cf_configuration facts)),
      (''closureFingerprint'', CString (cf_closureFingerprint facts)),
      (''harnessId'', CString (cf_harnessId facts)),
      (''metricRegistryGeneration'', CInteger (cf_metricRegistryGeneration facts)),
      (''runnerGeneration'', CInteger (cf_runnerGeneration facts)),
      (''cellFingerprint'', CString (cf_cellFingerprint facts))]"

definition firstDisagreement :: "CompatibilityFacts \<Rightarrow> CompatibilityFacts \<Rightarrow> string" where
  "firstDisagreement left right =
     (if cf_profileId left \<noteq> cf_profileId right then ''profileId''
      else if cf_workloadFingerprint left \<noteq> cf_workloadFingerprint right then ''workloadFingerprint''
      else if cf_targetId left \<noteq> cf_targetId right then ''targetId''
      else if cf_platformId left \<noteq> cf_platformId right then ''platformId''
      else if cf_configuration left \<noteq> cf_configuration right then ''configuration''
      else if cf_closureFingerprint left \<noteq> cf_closureFingerprint right then ''closureFingerprint''
      else if cf_harnessId left \<noteq> cf_harnessId right then ''harnessId''
      else if cf_metricRegistryGeneration left \<noteq> cf_metricRegistryGeneration right
      then ''metricRegistryGeneration''
      else if cf_runnerGeneration left \<noteq> cf_runnerGeneration right then ''runnerGeneration''
      else if cf_cellFingerprint left \<noteq> cf_cellFingerprint right then ''cellFingerprint''
      else [])"

text \<open>What the tool holds while it assembles: the store, the digest provider and the JSON parser.\<close>

record Workbench =
  wb_store :: BlobStore
  wb_evp :: Provider
  wb_iterate :: "bytes \<Rightarrow> sj_document"

text \<open>The status and the facts of one receipt, up to the comparison with the facts agreed so far.\<close>

definition loadReceipt :: "Workbench \<Rightarrow> bytes \<Rightarrow> Descriptor \<Rightarrow> (bytes \<times> CompatibilityFacts) RecordResult" where
  "loadReceipt wb attemptId receipt =
     (case bs_get (wb_store wb) (d_digest receipt) of
        Inl e \<Rightarrow> reject RecDescriptorMismatch
          (''attempt '' @ attemptId @ '' names a receipt the store refused: '' @ bf_detail e)
      | Inr bytes \<Rightarrow>
          rbind (verifyDescriptor (wb_evp wb) receipt bytes (d_mediaType receipt)) (\<lambda>_.
          rbind (parseCanonicalSubset (wb_iterate wb) bytes) (\<lambda>record.
          rbind (checkRecordKind record ''raw_run_receipt'') (\<lambda>_.
          rbind (readTerminalStatus record) (\<lambda>status.
          rbind (readCompatibility record) (\<lambda>facts. Inr (status, facts)))))))"

record Assembly =
  as_agreed :: "(CompatibilityFacts \<times> bytes) option"   \<comment> \<open>the facts and the attempt they come from\<close>
  as_attemptValues :: "CanonicalValue list"
  as_superseded :: "bytes list"
  as_statusById :: "(bytes \<times> bytes) list"

definition attemptValue :: "PlannedAttempt \<Rightarrow> bytes \<Rightarrow> CanonicalValue" where
  "attemptValue attempt status = makeObject
     ([(''attemptId'', CString (pa_attemptId attempt)),
       (''attemptOrdinal'', CInteger (pa_attemptOrdinal attempt)),
       (''repetitionOrdinal'', CInteger (pa_repetitionOrdinal attempt)),
       (''status'', CString status),
       (''receipt'', case pa_receipt attempt of None \<Rightarrow> CNull | Some d \<Rightarrow> describeAsValue d)]
      @ (if pa_supersedesAttemptId attempt = [] then []
         else [(''supersedesAttemptId'', CString (pa_supersedesAttemptId attempt))]))"

definition assembleAttempt :: "Workbench \<Rightarrow> Assembly \<Rightarrow> PlannedAttempt \<Rightarrow> Assembly RecordResult" where
  "assembleAttempt wb st attempt =
     rbind (case pa_receipt attempt of
              None \<Rightarrow> Inr (kNoReceiptStatus, as_agreed st)
            | Some receipt \<Rightarrow>
                rbind (loadReceipt wb (pa_attemptId attempt) receipt) (\<lambda>(status, facts).
                  (case as_agreed st of
                     None \<Rightarrow> Inr (status, Some (facts, pa_attemptId attempt))
                   | Some (agreed, agreedFrom) \<Rightarrow>
                       if firstDisagreement agreed facts \<noteq> []
                       then reject RecDescriptorMismatch (''attempts '' @ agreedFrom @ '' and ''
                              @ pa_attemptId attempt @ '' disagree on '' @ firstDisagreement agreed facts)
                       else Inr (status, Some (agreed, agreedFrom))))) (\<lambda>(status, agreed).
       Inr \<lparr>as_agreed = agreed,
            as_attemptValues = as_attemptValues st @ [attemptValue attempt status],
            as_superseded = as_superseded st
              @ (if pa_supersedesAttemptId attempt = [] then [] else [pa_supersedesAttemptId attempt]),
            as_statusById = as_statusById st @ [(pa_attemptId attempt, status)]\<rparr>)"

definition ordered_attempts :: "AttemptPlan \<Rightarrow> PlannedAttempt list" where
  "ordered_attempts plan = sort_by (\<lambda>a b. pa_attemptOrdinal a < pa_attemptOrdinal b) (ap_attempts plan)"

definition eligibleIdentities :: "Assembly \<Rightarrow> bytes list" where
  "eligibleIdentities st =
     map fst (filter (\<lambda>(kIdentity, kStatus). kStatus = ''completed'' \<and> kIdentity \<notin> set (as_superseded st))
                (as_statusById st))"

definition diagnostic_trust :: CanonicalValue where
  "diagnostic_trust = makeObject [(''provenance'', CString ''diagnostic_untrusted'')]"

definition assembleEvidenceSet :: "Workbench \<Rightarrow> AttemptPlan \<Rightarrow> bytes \<Rightarrow> CanonicalValue RecordResult" where
  "assembleEvidenceSet wb plan evidenceSetId =
     rbind (rfold (assembleAttempt wb)
              \<lparr>as_agreed = None, as_attemptValues = [], as_superseded = [], as_statusById = []\<rparr>
              (ordered_attempts plan)) (\<lambda>st.
       (case as_agreed st of
          None \<Rightarrow> reject RecSchemaInvalid ''no attempt produced a receipt, so there are no facts to bind''
        | Some (agreed, agreedFrom) \<Rightarrow>
            Inr (makeObject
              [(''schemaVersion'', CInteger 1),
               (''recordKind'', CString ''evidence_set''),
               (''evidenceSetId'', CString evidenceSetId),
               (''planId'', CString (ap_planId plan)),
               (''tier'', CString (ap_tier plan)),
               (''compatibility'', compatibilityValue agreed),
               (''schedule'', makeObject [(''repetitionCount'', CInteger (ap_repetitionCount plan)),
                                          (''attemptCount'', CInteger (ap_attemptCount plan))]),
               (''attempts'', CArray (as_attemptValues st)),
               (''eligibleAttemptIds'', CArray (map CString (eligibleIdentities st))),
               (''trust'', diagnostic_trust)])))"

definition countOf :: "CanonicalValue \<Rightarrow> bytes \<Rightarrow> int" where
  "countOf record name =
     (case find_member record name of Some (CArray es) \<Rightarrow> int (length es) | _ \<Rightarrow> 0)"

definition textOf :: "CanonicalValue \<Rightarrow> bytes \<Rightarrow> bytes" where
  "textOf record name = (case find_member record name of Some (CString t) \<Rightarrow> t | _ \<Rightarrow> [])"

definition buildEvidenceSetOutput :: "Descriptor \<Rightarrow> CanonicalValue \<Rightarrow> bytes \<Rightarrow> bytes" where
  "buildEvidenceSetOutput descriptor record operation = serializeCanonical (makeObject
     [(''ok'', CBoolean True), (''descriptor'', describeAsValue descriptor),
      (''evidenceSetId'', CString (textOf record ''evidenceSetId'')),
      (''planId'', CString (textOf record ''planId'')), (''tier'', CString (textOf record ''tier'')),
      (''attemptCount'', CInteger (countOf record ''attempts'')),
      (''eligibleAttemptCount'', CInteger (countOf record ''eligibleAttemptIds'')),
      (''operation'', CString operation)])"

section \<open>The accounting is a permutation of the schedule\<close>

lemma account_step:
  "accountAttempt plan acc a = Inr acc' \<longleftrightarrow>
     pa_attemptId a \<notin> set (ac_identities acc) \<and> pa_attemptOrdinal a \<notin> set (ac_attemptOrdinals acc)
     \<and> pa_repetitionOrdinal a \<le> ap_repetitionCount plan
     \<and> acc' = \<lparr>ac_identities = pa_attemptId a # ac_identities acc,
          ac_attemptOrdinals = insort_insert (pa_attemptOrdinal a) (ac_attemptOrdinals acc),
          ac_repetitionOrdinals = insort_insert (pa_repetitionOrdinal a) (ac_repetitionOrdinals acc)\<rparr>"
  by (auto simp: accountAttempt_def)

lemma fold_insort_insert:
  shows "set (fold insort_insert xs ys) = set ys \<union> set xs"
    and "sorted ys \<Longrightarrow> sorted (fold insort_insert xs ys)"
    and "distinct ys \<Longrightarrow> distinct (fold insort_insert xs ys)"
  by (induction xs arbitrary: ys) (auto simp: set_insort_insert sorted_insort_insert distinct_insort_insert)

lemma account_all:
  "rfold (accountAttempt plan) acc as' = Inr acc' \<longleftrightarrow>
     distinct (map pa_attemptId as') \<and> pa_attemptId ` set as' \<inter> set (ac_identities acc) = {}
     \<and> distinct (map pa_attemptOrdinal as') \<and> pa_attemptOrdinal ` set as' \<inter> set (ac_attemptOrdinals acc) = {}
     \<and> (\<forall>a\<in>set as'. pa_repetitionOrdinal a \<le> ap_repetitionCount plan)
     \<and> acc' = \<lparr>ac_identities = rev (map pa_attemptId as') @ ac_identities acc,
          ac_attemptOrdinals = fold insort_insert (map pa_attemptOrdinal as') (ac_attemptOrdinals acc),
          ac_repetitionOrdinals = fold insort_insert (map pa_repetitionOrdinal as') (ac_repetitionOrdinals acc)\<rparr>"
proof (induction as' arbitrary: acc)
  case (Cons a as')
  show ?case
    by (simp add: rbind_Inr_iff account_step Cons.IH) (auto simp: set_insort_insert)
qed auto

lemma expected_run:
  "(\<exists>r. rfold (\<lambda>expected kOrdinal. if kOrdinal \<noteq> expected then reject k (m expected) else Inr (expected + 1))
      (e :: int) xs = Inr r) \<longleftrightarrow> xs = [e..e + int (length xs) - 1]"
proof (induction xs arbitrary: e)
  case (Cons x xs)
  have "[e..e + int (length (x # xs)) - 1] = e # [e + 1..e + 1 + int (length xs) - 1]"
    by (subst upto.simps) (simp add: add.commute)
  then show ?case
    using Cons.IH [of "e + 1"] by (auto simp: rbind_Inr_iff)
qed simp

lemma repetitions_run:
  "rfold (\<lambda>_ r. if r \<notin> R then reject k (m r) else Inr ()) () rs = Inr () \<longleftrightarrow> set rs \<subseteq> R"
  by (induction rs) (auto simp: rbind_Inr_iff)

lemma sorted_is_interval:
  assumes "sorted xs" "distinct xs"
  shows "xs = [1..int (length xs)] \<longleftrightarrow> set xs = {1..int (length xs)}"
proof
  assume set: "set xs = {1..int (length xs)}"
  show "xs = [1..int (length xs)]"
    by (rule sorted_distinct_set_unique) (use assms set in \<open>auto simp: sorted_upto\<close>)
next
  assume "xs = [1..int (length xs)]"
  then show "set xs = {1..int (length xs)}"
    by (metis set_upto)
qed

lemma accounting_iff:
  "checkScheduleAccounting plan = Inr () \<longleftrightarrow>
     length (ap_attempts plan) = to_size (ap_attemptCount plan)
     \<and> distinct (map pa_attemptId (ap_attempts plan))
     \<and> pa_attemptOrdinal ` set (ap_attempts plan) = {1..int (length (ap_attempts plan))}
     \<and> (\<forall>a\<in>set (ap_attempts plan). pa_repetitionOrdinal a \<le> ap_repetitionCount plan)
     \<and> {1..ap_repetitionCount plan} \<subseteq> pa_repetitionOrdinal ` set (ap_attempts plan)"
    (is "?ok \<longleftrightarrow> ?len \<and> ?ids \<and> ?ords \<and> ?reps \<and> ?cover")
proof -
  let ?as = "ap_attempts plan"
  let ?sorted = "fold insort_insert (map pa_attemptOrdinal ?as) []"
  have sorted: "sorted ?sorted" "distinct ?sorted" "set ?sorted = pa_attemptOrdinal ` set ?as"
    by (simp_all add: fold_insort_insert)
  have len: "length ?sorted = length ?as" if "distinct (map pa_attemptOrdinal ?as)"
    using that sorted(2,3) distinct_card [OF sorted(2)] distinct_card [OF that] by simp
  have ords: "distinct (map pa_attemptOrdinal ?as) \<and> ?sorted = [1..int (length ?sorted)] \<longleftrightarrow> ?ords"
  proof (cases "distinct (map pa_attemptOrdinal ?as)")
    case True
    then show ?thesis
      using sorted_is_interval [OF sorted(1,2)] sorted(3) len by simp
  next
    case False
    then have "\<not> ?ords"
      using card_distinct [of "map pa_attemptOrdinal ?as"] by auto
    then show ?thesis
      using False by simp
  qed
  have "?ok \<longleftrightarrow> ?len \<and> ?ids \<and> (distinct (map pa_attemptOrdinal ?as) \<and> ?sorted = [1..int (length ?sorted)])
      \<and> ?reps \<and> ?cover"
    using expected_run [of RecSchemaInvalid _ 1 ?sorted]
    by (auto simp: checkScheduleAccounting_def Let_def rbind_Inr_iff repetitions_run account_all
        fold_insort_insert(1))
  then show ?thesis
    using ords by blast
qed

section \<open>Retry chains end\<close>

fun chain_ends :: "AttemptPlan \<Rightarrow> PlannedAttempt \<Rightarrow> nat \<Rightarrow> bool" where
  "chain_ends plan a 0 \<longleftrightarrow> pa_supersedesAttemptId a = []"
| "chain_ends plan a (Suc n) \<longleftrightarrow> pa_supersedesAttemptId a \<noteq> [] \<and>
     (case byIdentity plan (pa_supersedesAttemptId a) of None \<Rightarrow> False | Some b \<Rightarrow> chain_ends plan b n)"

lemma chain_ends_unique: "chain_ends plan a n \<Longrightarrow> chain_ends plan a m \<Longrightarrow> n = m"
proof (induction n arbitrary: a m)
  case 0
  then show ?case by (cases m) auto
next
  case (Suc n)
  then show ?case by (cases m) (auto split: option.splits)
qed

lemma chainWalk_ends:
  "chainWalk plan start seen a depth = Inr () \<Longrightarrow> depth \<le> kMaximumSupersedesDepth \<Longrightarrow>
   \<exists>n. chain_ends plan a n \<and> depth + n \<le> kMaximumSupersedesDepth"
proof (induction plan start seen a depth rule: chainWalk.induct)
  case (1 plan start seen a depth)
  show ?case
  proof (cases "pa_supersedesAttemptId a = []")
    case True
    then show ?thesis using 1(3) by (intro exI [of _ 0]) simp
  next
    case False
    with 1(2) obtain b where b: "byIdentity plan (pa_supersedesAttemptId a) = Some b"
      and new: "pa_supersedesAttemptId a \<notin> set seen" and depth: "\<not> kMaximumSupersedesDepth < depth + 1"
      and walk: "chainWalk plan start (pa_supersedesAttemptId a # seen) b (depth + 1) = Inr ()"
      by (subst (asm) chainWalk.simps) (auto split: option.splits if_splits)
    obtain n where "chain_ends plan b n" "depth + 1 + n \<le> kMaximumSupersedesDepth"
      using 1(1) [OF False b new depth walk] depth by auto
    then show ?thesis
      using False b by (intro exI [of _ "Suc n"]) simp
  qed
qed

lemma chainWalk_passes:
  assumes "chain_ends plan a n" "depth + n \<le> kMaximumSupersedesDepth"
    and "\<forall>i\<in>set seen. \<exists>v m. byIdentity plan i = Some v \<and> chain_ends plan v m \<and> n \<le> m"
  shows "chainWalk plan start seen a depth = Inr ()"
  using assms
proof (induction n arbitrary: a depth seen)
  case 0
  then show ?case by (subst chainWalk.simps) simp
next
  case (Suc n)
  then obtain b where ne: "pa_supersedesAttemptId a \<noteq> []"
    and b: "byIdentity plan (pa_supersedesAttemptId a) = Some b" and ends: "chain_ends plan b n"
    by (auto split: option.splits)
  have new: "pa_supersedesAttemptId a \<notin> set seen"
  proof
    assume "pa_supersedesAttemptId a \<in> set seen"
    then obtain m where "chain_ends plan b m" "Suc n \<le> m"
      using Suc.prems(3) b by fastforce
    then show False
      using chain_ends_unique [OF ends] by auto
  qed
  have "chainWalk plan start (pa_supersedesAttemptId a # seen) b (depth + 1) = Inr ()"
  proof (rule Suc.IH [OF ends])
    show "\<forall>i\<in>set (pa_supersedesAttemptId a # seen). \<exists>v m. byIdentity plan i = Some v \<and> chain_ends plan v m \<and> n \<le> m"
      using Suc.prems(3) b ends by auto (meson Suc_leD)
  qed (use Suc.prems in simp)
  then show ?case
    using ne b new Suc.prems(2) by (subst chainWalk.simps) simp
qed

lemma byIdentity_self:
  assumes "distinct (map pa_attemptId (ap_attempts plan))" "a \<in> set (ap_attempts plan)"
  shows "byIdentity plan (pa_attemptId a) = Some a"
proof -
  have "List.find (\<lambda>b. pa_attemptId b = pa_attemptId a) as' = Some a"
    if "distinct (map pa_attemptId as')" "a \<in> set as'" for as'
    using that by (induction as') (auto simp: image_iff)
  then show ?thesis
    using assms by (simp add: byIdentity_def)
qed

lemma rfold_unit: "rfold (\<lambda>_ a. f a) () xs = Inr () \<longleftrightarrow> (\<forall>x\<in>set xs. f x = Inr ())"
  by (induction xs) (auto simp: rbind_Inr_iff)

lemma supersedes_iff:
  assumes "distinct (map pa_attemptId (ap_attempts plan))"
  shows "checkSupersedesChains plan = Inr () \<longleftrightarrow>
    (\<forall>a\<in>set (ap_attempts plan). \<exists>n\<le>kMaximumSupersedesDepth. chain_ends plan a n)"
proof -
  have "chainWalk plan (pa_attemptId a) [pa_attemptId a] a 0 = Inr () \<longleftrightarrow>
      (\<exists>n\<le>kMaximumSupersedesDepth. chain_ends plan a n)" if a: "a \<in> set (ap_attempts plan)" for a
  proof
    assume "chainWalk plan (pa_attemptId a) [pa_attemptId a] a 0 = Inr ()"
    from chainWalk_ends [OF this] show "\<exists>n\<le>kMaximumSupersedesDepth. chain_ends plan a n"
      by auto
  next
    assume "\<exists>n\<le>kMaximumSupersedesDepth. chain_ends plan a n"
    then show "chainWalk plan (pa_attemptId a) [pa_attemptId a] a 0 = Inr ()"
      using chainWalk_passes [of plan a _ 0 "[pa_attemptId a]"] byIdentity_self [OF assms a] by fastforce
  qed
  then show ?thesis
    by (simp add: checkSupersedesChains_def rfold_unit)
qed

section \<open>Assembly reads the schedule and nothing else\<close>

lemma ordered_permutation:
  assumes "mset (ap_attempts plan) = mset (ap_attempts plan')" "distinct (map pa_attemptOrdinal (ap_attempts plan))"
  shows "ordered_attempts plan = ordered_attempts plan'"
  unfolding ordered_attempts_def by (rule linear_keys.sort_by_permutation) (use assms in simp_all)

text \<open>The status the ledger must show for an attempt, from the store alone.\<close>

definition attempt_status :: "Workbench \<Rightarrow> PlannedAttempt \<Rightarrow> bytes RecordResult" where
  "attempt_status wb a =
     (case pa_receipt a of
        None \<Rightarrow> Inr kNoReceiptStatus
      | Some receipt \<Rightarrow> rbind (loadReceipt wb (pa_attemptId a) receipt) (\<lambda>(status, facts). Inr status))"

lemma assembleAttempt_step:
  assumes "assembleAttempt wb st a = Inr st'"
  obtains status where "attempt_status wb a = Inr status"
    "as_attemptValues st' = as_attemptValues st @ [attemptValue a status]"
    "as_superseded st' = as_superseded st @ (if pa_supersedesAttemptId a = [] then [] else [pa_supersedesAttemptId a])"
    "as_statusById st' = as_statusById st @ [(pa_attemptId a, status)]"
  using assms that by (auto simp: assembleAttempt_def attempt_status_def split: option.splits if_splits prod.splits)

lemma assemble_run:
  assumes "rfold (assembleAttempt wb) st xs = Inr st'"
  shows "\<exists>statuses. list_all2 (\<lambda>a s. attempt_status wb a = Inr s) xs statuses
    \<and> as_attemptValues st' = as_attemptValues st @ map2 attemptValue xs statuses
    \<and> as_superseded st' = as_superseded st @ filter (\<lambda>i. i \<noteq> []) (map pa_supersedesAttemptId xs)
    \<and> as_statusById st' = as_statusById st @ zip (map pa_attemptId xs) statuses"
  using assms
proof (induction xs arbitrary: st)
  case (Cons a xs)
  then obtain mid where mid: "assembleAttempt wb st a = Inr mid" and rest: "rfold (assembleAttempt wb) mid xs = Inr st'"
    by auto
  from mid obtain status where status: "attempt_status wb a = Inr status"
    "as_attemptValues mid = as_attemptValues st @ [attemptValue a status]"
    "as_superseded mid = as_superseded st @ (if pa_supersedesAttemptId a = [] then [] else [pa_supersedesAttemptId a])"
    "as_statusById mid = as_statusById st @ [(pa_attemptId a, status)]"
    by (rule assembleAttempt_step)
  from Cons.IH [OF rest] obtain statuses where
    "list_all2 (\<lambda>a s. attempt_status wb a = Inr s) xs statuses"
    "as_attemptValues st' = as_attemptValues mid @ map2 attemptValue xs statuses"
    "as_superseded st' = as_superseded mid @ filter (\<lambda>i. i \<noteq> []) (map pa_supersedesAttemptId xs)"
    "as_statusById st' = as_statusById mid @ zip (map pa_attemptId xs) statuses"
    by blast
  then show ?case
    using status by (intro exI [of _ "status # statuses"]) simp
qed simp

section \<open>A concrete store\<close>

text \<open>One stored receipt, the descriptor that names it, and a tool bench that holds it.\<close>

lemma length_separate: "length (separate xs) = sum_list (map length xs) + (length xs - 1)"
  by (induction xs rule: separate.induct) simp_all

lemma length_makeObject: "length (appendCanonical (makeObject ms)) = length (appendCanonical (CObject ms))"
proof -
  have "sum_list (map (\<lambda>m. f m :: nat) (sort_by lt ms)) = sum_list (map f ms)" for f lt
    by simp
  then show ?thesis
    by (simp add: makeObject_def length_separate o_def del: sum_list_sort_by)
qed

lemma value_ok_makeObject:
  assumes "distinct (map fst ms)" "length ms \<le> kMaximumRecordMembers"
    and "\<forall>m\<in>set ms. length (fst m) \<le> kMaximumRecordStringBytes \<and> utf8Valid (fst m) \<and> value_ok (snd m)"
  shows "value_ok (makeObject ms)"
  using makeObject_sorted [of ms] assms by (simp add: makeObject_def)

lemma fold_max_cong:
  assumes "set xs = set ys"
  shows "fold (\<lambda>e d. max (f e) d) xs (0 :: nat) = fold (\<lambda>e d. max (f e) d) ys 0"
  using assms fold_max_le_iff [of f xs 0 "fold (\<lambda>e d. max (f e) d) xs 0"]
    fold_max_le_iff [of f xs 0 "fold (\<lambda>e d. max (f e) d) ys 0"]
    fold_max_le_iff [of f ys 0 "fold (\<lambda>e d. max (f e) d) ys 0"]
    fold_max_le_iff [of f ys 0 "fold (\<lambda>e d. max (f e) d) xs 0"]
  by (intro antisym) auto

lemma makeObject_size:
  "value_nodes (makeObject ms) = value_nodes (CObject ms)"
  "value_depth (makeObject ms) = value_depth (CObject ms)"
  unfolding makeObject_def
  by (simp, simp only: value_depth.simps,
      rule arg_cong [OF fold_max_cong [where f = "\<lambda>m. value_depth (snd m)"]]) simp

definition demo_observation :: CanonicalValue where
  "demo_observation = makeObject [(''metricId'', CString ''m''), (''unit'', CString ''ns''),
     (''statistic'', CString ''median''), (''value'', CInteger 5)]"

definition demo_profile :: CanonicalValue where
  "demo_profile = makeObject [(''profileId'', CString ''p''), (''workloadFingerprint'', CString ''w'')]"

definition demo_build :: CanonicalValue where
  "demo_build = makeObject [(''targetId'', CString ''t''), (''platformId'', CString ''l''),
     (''configuration'', CString ''c''), (''closureFingerprint'', CString ''f'')]"

definition demo_runner :: CanonicalValue where
  "demo_runner = makeObject [(''runnerGeneration'', CInteger 1), (''cellFingerprint'', CString ''x'')]"

definition demo_receipt :: CanonicalValue where
  "demo_receipt = makeObject
     [(''schemaVersion'', CInteger 1), (''recordKind'', CString ''raw_run_receipt''),
      (''runId'', CString ''r1''), (''status'', CString ''completed''),
      (''trust'', diagnostic_trust), (''metricRegistryGeneration'', CInteger 1),
      (''profile'', demo_profile), (''build'', demo_build),
      (''harness'', makeObject [(''harnessId'', CString ''h'')]), (''runner'', demo_runner),
      (''observations'', makeObject [(''metrics'', CArray [demo_observation])])]"

lemmas demo_receipt_defs = demo_receipt_def demo_observation_def demo_profile_def demo_build_def
  demo_runner_def diagnostic_trust_def

lemmas limit_defs = kMaximumRecordBytes_def kMaximumRecordDepth_def kMaximumRecordNodes_def
  kMaximumRecordStringBytes_def kMaximumRecordMembers_def kSafeIntegerBound_def

definition demo_bytes :: bytes where
  "demo_bytes = serializeCanonical demo_receipt"

definition demo_descriptor :: Descriptor where
  "demo_descriptor = \<lparr>d_mediaType = kRawRunReceiptMediaType, d_byteLength = length demo_bytes,
     d_digest = kDigestPrefix @ hex_text (replicate 31 7 @ [length demo_bytes mod 256])\<rparr>"

definition demo_bench :: Workbench where
  "demo_bench = \<lparr>wb_store = \<lparr>bs_get = \<lambda>_. Inr demo_bytes, bs_pathFor = \<lambda>_. Inr ''blob''\<rparr>,
     wb_evp = demo_provider, wb_iterate = \<lambda>_. SjDocument (sj_of demo_receipt) True\<rparr>"

lemma demo_receipt_ok: "value_ok demo_receipt"
  unfolding demo_receipt_defs
  by (intro value_ok_makeObject) (simp_all add: value_ok_makeObject utf8Valid_ascii limit_defs)

lemma demo_receipt_depth: "value_depth demo_receipt \<le> 10"
  by (simp add: demo_receipt_defs makeObject_size)

lemma demo_receipt_nodes: "value_nodes demo_receipt \<le> 40"
  by (simp add: demo_receipt_defs makeObject_size)

lemma demo_bytes_length: "length demo_bytes < 1000"
  by (simp add: demo_bytes_def serializeCanonical_def demo_receipt_defs length_makeObject length_separate
      appendEscapedString_def escape_char_def int_to_string_def nat_to_string.simps)

lemma demo_bench_parses: "parseCanonicalSubset (wb_iterate demo_bench) demo_bytes = Inr demo_receipt"
  unfolding demo_bytes_def
proof (rule parse_canonical)
  show "record_ok demo_receipt"
    using demo_receipt_ok demo_receipt_depth demo_receipt_nodes by (simp add: record_ok_def limit_defs)
  show "length (serializeCanonical demo_receipt) \<le> kMaximumRecordBytes"
    using demo_bytes_length by (simp add: demo_bytes_def limit_defs)
qed (simp_all add: demo_bench_def, simp add: demo_receipt_def)

lemma demo_bench_verifies:
  "verifyDescriptor (wb_evp demo_bench) demo_descriptor demo_bytes expected = Inr () \<longleftrightarrow>
     expected = [] \<or> expected = kRawRunReceiptMediaType"
  by (auto simp: verifyDescriptor_iff demo_bench_def demo_provider_ok demo_descriptor_def demo_provider_digest)

lemma demo_bench_loads:
  "\<exists>facts. loadReceipt demo_bench i demo_descriptor = Inr (''completed'', facts)"
proof -
  have kind: "checkRecordKind demo_receipt ''raw_run_receipt'' = Inr ()"
    and status: "readTerminalStatus demo_receipt = Inr ''completed''"
    by (simp_all add: checkRecordKind_def readRecordKind_def readTerminalStatus_def requireString_def
        demo_receipt_def find_eval)
  have "is_ok (readCompatibility demo_receipt)"
    by (simp add: readCompatibility_def requireNested_def requireString_def requireInteger_def
        demo_receipt_defs find_eval)
  then obtain facts where facts: "readCompatibility demo_receipt = Inr facts"
    by (auto simp: is_ok_iff)
  have "bs_get (wb_store demo_bench) (d_digest demo_descriptor) = Inr demo_bytes"
    by (simp add: demo_bench_def)
  then have "loadReceipt demo_bench i demo_descriptor = Inr (''completed'', facts)"
    using demo_bench_verifies [of "d_mediaType demo_descriptor"] demo_bench_parses kind status facts
    by (simp add: loadReceipt_def demo_descriptor_def)
  then show ?thesis ..
qed

section \<open>Properties\<close>

text \<open>
  The schedule accounting accepts exactly the plans that list every declared attempt once:
  as many attempts as declared, different identities, the ordinals 1..N without a gap, and
  every declared repetition attempted and none beyond it.
\<close>

theorem schedule_accounting_exact:
  "checkScheduleAccounting plan = Inr () \<longleftrightarrow>
     length (ap_attempts plan) = to_size (ap_attemptCount plan)
     \<and> distinct (map pa_attemptId (ap_attempts plan))
     \<and> pa_attemptOrdinal ` set (ap_attempts plan) = {1..int (length (ap_attempts plan))}
     \<and> {1..ap_repetitionCount plan} \<subseteq> pa_repetitionOrdinal ` set (ap_attempts plan)
     \<and> Max (insert (ap_repetitionCount plan) (pa_repetitionOrdinal ` set (ap_attempts plan)))
       = ap_repetitionCount plan"
proof -
  have "Max (insert r A) = r \<longleftrightarrow> (\<forall>x\<in>A. x \<le> r)" if "finite A" for r :: int and A
    using that by (auto simp: Max_eq_iff)
  then show ?thesis
    using accounting_iff by auto
qed

text \<open>
  C30. With different identities, the retry chains are accepted exactly when following the
  supersedes links from every attempt stays inside the plan and ends within 64 links, so no
  chain loops.
\<close>

theorem supersedes_chains_exact:
  assumes "distinct (map pa_attemptId (ap_attempts plan))"
  shows "checkSupersedesChains plan = Inr () \<longleftrightarrow>
    (\<forall>a\<in>set (ap_attempts plan). \<exists>n\<le>kMaximumSupersedesDepth. chain_ends plan a n)"
  using assms by (rule supersedes_iff)

definition demo_attempt :: "bytes \<Rightarrow> int \<Rightarrow> bytes \<Rightarrow> Descriptor option \<Rightarrow> PlannedAttempt" where
  "demo_attempt identity ordinal supersedes receipt =
     \<lparr>pa_attemptId = identity, pa_attemptOrdinal = ordinal, pa_repetitionOrdinal = 1,
      pa_supersedesAttemptId = supersedes, pa_receipt = receipt\<rparr>"

definition demo_plan :: "PlannedAttempt list \<Rightarrow> AttemptPlan" where
  "demo_plan attempts = \<lparr>ap_planId = ''p'', ap_tier = ''tier_0'', ap_repetitionCount = 1,
     ap_attemptCount = int (length attempts), ap_attempts = attempts\<rparr>"

lemmas demo_plan_defs = demo_attempt_def demo_plan_def

theorem supersedes_chains_exact_witness:
  "checkSupersedesChains (demo_plan [demo_attempt ''a'' 1 [] None, demo_attempt ''b'' 2 ''a'' None]) = Inr ()"
proof -
  let ?plan = "demo_plan [demo_attempt ''a'' 1 [] None, demo_attempt ''b'' 2 ''a'' None]"
  have "chain_ends ?plan (demo_attempt ''a'' 1 [] None) 0"
    "chain_ends ?plan (demo_attempt ''b'' 2 ''a'' None) (Suc 0)"
    by (simp_all add: demo_plan_defs byIdentity_def)
  moreover have "distinct (map pa_attemptId (ap_attempts ?plan))"
    by (simp add: demo_plan_defs)
  ultimately show ?thesis
    using supersedes_chains_exact [of ?plan]
    by (auto simp: kMaximumSupersedesDepth_def demo_plan_def intro: exI [of _ 0] exI [of _ "Suc 0"])
qed

text \<open>
  C2. An assembled set accounts for every planned attempt once, in ordinal order, with the
  status its own receipt states (or \<open>no_receipt\<close>), and its eligible list is exactly the
  completed attempts that no attempt of the plan supersedes.
\<close>

theorem assembly_accounts_for_every_attempt:
  assumes "assembleEvidenceSet wb plan setId = Inr v"
  shows "\<exists>statuses. list_all2 (\<lambda>a s. attempt_status wb a = Inr s) (ordered_attempts plan) statuses
    \<and> find_member v ''attempts'' = Some (CArray (map2 attemptValue (ordered_attempts plan) statuses))
    \<and> find_member v ''eligibleAttemptIds'' = Some (CArray (map CString (map fst
        (filter (\<lambda>(i, s). s = ''completed''
            \<and> i \<notin> {pa_supersedesAttemptId b | b. b \<in> set (ap_attempts plan) \<and> pa_supersedesAttemptId b \<noteq> []})
          (zip (map pa_attemptId (ordered_attempts plan)) statuses)))))"
proof -
  let ?start = "\<lparr>as_agreed = None, as_attemptValues = [], as_superseded = [], as_statusById = []\<rparr>"
  obtain st where run: "rfold (assembleAttempt wb) ?start (ordered_attempts plan) = Inr st"
    and members: "find_member v ''attempts'' = Some (CArray (as_attemptValues st))"
      "find_member v ''eligibleAttemptIds'' = Some (CArray (map CString (eligibleIdentities st)))"
    using assms by (auto simp: assembleEvidenceSet_def find_eval split: option.splits)
  have "set (as_superseded st) = {pa_supersedesAttemptId b | b. b \<in> set (ap_attempts plan) \<and> pa_supersedesAttemptId b \<noteq> []}"
    using assemble_run [OF run] by (auto simp: ordered_attempts_def)
  then show ?thesis
    using assemble_run [OF run] members by (auto simp: eligibleIdentities_def)
qed

lemma demo_plan_assembles:
  "is_ok (assembleEvidenceSet demo_bench (demo_plan [demo_attempt ''a'' 1 [] None,
     demo_attempt ''b'' 2 ''a'' (Some demo_descriptor)]) ''s'')"
proof -
  obtain facts where "loadReceipt demo_bench ''b'' demo_descriptor = Inr (''completed'', facts)"
    using demo_bench_loads by blast
  then show ?thesis
    by (simp add: assembleEvidenceSet_def ordered_attempts_def assembleAttempt_def demo_plan_defs)
qed

theorem assembly_accounts_for_every_attempt_witness:
  "\<exists>v e. assembleEvidenceSet demo_bench (demo_plan [demo_attempt ''a'' 1 [] None,
       demo_attempt ''b'' 2 ''a'' (Some demo_descriptor)]) ''s'' = Inr v
     \<and> find_member v ''eligibleAttemptIds'' = Some e"
proof -
  obtain v where v: "assembleEvidenceSet demo_bench (demo_plan [demo_attempt ''a'' 1 [] None,
       demo_attempt ''b'' 2 ''a'' (Some demo_descriptor)]) ''s'' = Inr v"
    using demo_plan_assembles by (auto simp: is_ok_iff)
  with assembly_accounts_for_every_attempt [OF v] show ?thesis by blast
qed

text \<open>
  Two plans that list the same attempts in different orders assemble to the same record,
  or fail in the same way.
\<close>

theorem assembly_ignores_listing_order:
  assumes "mset (ap_attempts plan) = mset attempts'" and "checkScheduleAccounting plan = Inr ()"
  shows "assembleEvidenceSet wb plan setId = assembleEvidenceSet wb (plan\<lparr>ap_attempts := attempts'\<rparr>) setId"
proof -
  have "distinct (map pa_attemptOrdinal (ap_attempts plan))"
    using assms(2) by (intro card_distinct) (simp add: accounting_iff)
  then have "ordered_attempts plan = ordered_attempts (plan\<lparr>ap_attempts := attempts'\<rparr>)"
    using assms(1) by (intro ordered_permutation) simp_all
  then show ?thesis
    by (simp add: assembleEvidenceSet_def cong: option.case_cong)
qed

theorem assembly_ignores_listing_order_witness:
  "assembleEvidenceSet demo_bench (demo_plan [demo_attempt ''a'' 1 [] None, demo_attempt ''b'' 2 ''a'' None]) ''s''
   = assembleEvidenceSet demo_bench ((demo_plan [demo_attempt ''a'' 1 [] None, demo_attempt ''b'' 2 ''a'' None])
       \<lparr>ap_attempts := [demo_attempt ''b'' 2 ''a'' None, demo_attempt ''a'' 1 [] None]\<rparr>) ''s''"
proof (rule assembly_ignores_listing_order)
  have "{1..2 :: int} = {1, 2}"
    by auto
  then show "checkScheduleAccounting (demo_plan [demo_attempt ''a'' 1 [] None, demo_attempt ''b'' 2 ''a'' None]) = Inr ()"
    by (simp add: accounting_iff demo_plan_defs to_size_def)
qed (simp add: demo_plan_defs add_mset_commute)

end
