(* ===== verification/Evidence_Evaluator.thy ===== *)
theory Evidence_Evaluator
  imports Evidence_Policy Evidence_Set
begin

text \<open>
  \<open>tools/rf_evidence/src/evaluator.{h,cpp}\<close>: the decision procedure.  It proves the identity of
  the set, loads every eligible run from the store, resolves the policy, and decides the checks
  phase by phase; a failed phase leaves the later ones not run.
\<close>

section \<open>Checks\<close>

datatype CheckPhase = PhaseCompleteness | PhaseCorrectness | PhaseHardCeiling
datatype CheckOutcome = Passed | Failed | NotRun
datatype CheckReason = NoReason | BoundViolated | ObservationMissing | EarlierPhaseFailed

definition kMaximumObservedMetrics :: nat where "kMaximumObservedMetrics = 4096"

fun phaseName :: "CheckPhase \<Rightarrow> bytes" where
  "phaseName PhaseCompleteness = ''completeness''"
| "phaseName PhaseCorrectness = ''correctness''"
| "phaseName PhaseHardCeiling = ''hard_ceiling''"

fun outcomeName :: "CheckOutcome \<Rightarrow> bytes" where
  "outcomeName Passed = ''passed''"
| "outcomeName Failed = ''failed''"
| "outcomeName NotRun = ''not_run''"

fun reasonName :: "CheckReason \<Rightarrow> bytes" where
  "reasonName BoundViolated = ''bound_violated''"
| "reasonName ObservationMissing = ''observation_missing''"
| "reasonName EarlierPhaseFailed = ''earlier_phase_failed''"
| "reasonName NoReason = []"

text \<open>The underlying value of the enumeration, which \<open><\<close> compares.\<close>

fun phase_rank :: "CheckPhase \<Rightarrow> nat" where
  "phase_rank PhaseCompleteness = 0" | "phase_rank PhaseCorrectness = 1" | "phase_rank PhaseHardCeiling = 2"

definition phaseOf :: "BoundPolicyEntry \<Rightarrow> CheckPhase" where
  "phaseOf bound =
     (if pe_checkClass (bp_entry bound) = ClassCompleteness then PhaseCompleteness
      else if m_budgetClass (bp_metric bound) = ''hard_ceiling'' then PhaseHardCeiling
      else PhaseCorrectness)"

record Observation =
  ob_value :: int
  ob_scaleExponent :: int

record EligibleRun =
  er_attemptId :: bytes
  er_descriptor :: Descriptor
  er_observations :: "(bytes \<times> Observation) list"   \<comment> \<open>\<open>std::map\<close>\<close>

record ScaledComparison =
  sc_observed :: int
  sc_bound :: int
  sc_scaleExponent :: int

definition compareAt :: "BoundPolicyEntry \<Rightarrow> Observation \<Rightarrow> bytes \<Rightarrow> ScaledComparison RecordResult" where
  "compareAt bound observation attemptId =
     (let kRounding = r_rounding (m_rescaling (bp_metric bound)); entry = bp_entry bound in
      if r_direction (m_rescaling (bp_metric bound)) = BoundToObservation
      then rbind (rescaleExact (pe_boundValue entry) (pe_boundScaleExponent entry)
                    (ob_scaleExponent observation) kRounding) (\<lambda>moved.
        Inr \<lparr>sc_observed = ob_value observation, sc_bound = moved,
             sc_scaleExponent = ob_scaleExponent observation\<rparr>)
      else rbind (rmap_failure (\<lambda>e. e\<lparr>rf_detail := ''attempt '' @ attemptId @ '': '' @ rf_detail e\<rparr>)
                    (rescaleExact (ob_value observation) (ob_scaleExponent observation)
                       (pe_boundScaleExponent entry) kRounding)) (\<lambda>moved.
        Inr \<lparr>sc_observed = moved, sc_bound = pe_boundValue entry,
             sc_scaleExponent = pe_boundScaleExponent entry\<rparr>))"

definition satisfies :: "Comparison \<Rightarrow> int \<Rightarrow> int \<Rightarrow> bool" where
  "satisfies comparison observed bound = (if comparison = AtMost then observed \<le> bound else bound \<le> observed)"

section \<open>Inputs\<close>

definition readObservation ::
  "MetricRegistry \<Rightarrow> bytes \<Rightarrow> (bytes \<times> Observation) list \<Rightarrow> CanonicalValue \<Rightarrow> (bytes \<times> Observation) list RecordResult" where
  "readObservation registry attemptId observations kEntry =
     rbind (readRequiredText kEntry ''metricId'') (\<lambda>metricId.
     (case List.find (\<lambda>kMetric. m_metricId kMetric = metricId) (mr_metrics registry) of
        None \<Rightarrow> Inr observations
      | Some declared \<Rightarrow>
          rbind (readRequiredText kEntry ''unit'') (\<lambda>unit'.
          if unit' \<noteq> m_unit declared
          then mismatch (''attempt '' @ attemptId @ '' reports '' @ metricId @ '' in '' @ unit'
                 @ '' where the registry declares '' @ m_unit declared)
          else rbind (readRequiredText kEntry ''statistic'') (\<lambda>statistic.
          if statistic \<noteq> m_statistic declared
          then mismatch (''attempt '' @ attemptId @ '' reports '' @ metricId @ '' as '' @ statistic
                 @ '' where the registry declares '' @ m_statistic declared)
          else rbind (readRequiredInteger kEntry ''value'') (\<lambda>v.
          rbind (case find_member kEntry ''scaleExponent'' of
                   None \<Rightarrow> Inr 0
                 | Some kScale \<Rightarrow>
                     if value_kind kScale \<noteq> KInteger
                     then invalid (''attempt '' @ attemptId @ '' states a non-integer scale'')
                     else Inr (value_integer kScale)) (\<lambda>scaleExponent.
          if scaleExponent < kMinimumScaleExponent \<or> kMaximumScaleExponent < scaleExponent
          then exceeded (''attempt '' @ attemptId @ '' states a scale exponent outside the accepted range'')
          else if map_of observations metricId \<noteq> None
          then invalid (''attempt '' @ attemptId @ '' reports '' @ metricId @ '' more than once'')
          else Inr (omap_put metricId \<lparr>ob_value = v, ob_scaleExponent = scaleExponent\<rparr> observations)))))))"

definition readObservations ::
  "CanonicalValue \<Rightarrow> MetricRegistry \<Rightarrow> bytes \<Rightarrow> (bytes \<times> Observation) list RecordResult" where
  "readObservations receipt registry attemptId =
     (case find_member receipt ''observations'' of
        None \<Rightarrow> invalid (''receipt for attempt '' @ attemptId @ '' declares no observations'')
      | Some kObservations \<Rightarrow>
          if value_kind kObservations \<noteq> KObject
          then invalid (''receipt for attempt '' @ attemptId @ '' declares no observations'')
          else (case find_member kObservations ''metrics'' of
             None \<Rightarrow> invalid (''receipt for attempt '' @ attemptId @ '' declares no observed metrics'')
           | Some kMetrics \<Rightarrow>
               if value_kind kMetrics \<noteq> KArray
               then invalid (''receipt for attempt '' @ attemptId @ '' declares no observed metrics'')
               else if kMaximumObservedMetrics < length (value_elements kMetrics)
               then exceeded (''receipt for attempt '' @ attemptId
                      @ '' observes more metrics than the accepted bound'')
               else rfold (readObservation registry attemptId) [] (value_elements kMetrics)))"

text \<open>The eligible identities form a \<open>std::set\<close>; attempts remove theirs as they are resolved.\<close>

definition resolveAttempt ::
  "bytes list \<times> (bytes \<times> Descriptor) list \<Rightarrow> CanonicalValue \<Rightarrow> (bytes list \<times> (bytes \<times> Descriptor) list) RecordResult" where
  "resolveAttempt st kAttempt = (case st of (eligible, resolved) \<Rightarrow>
     (case find_member kAttempt ''attemptId'' of
        Some (CString kIdentity) \<Rightarrow>
          if kIdentity \<notin> set eligible then Inr (eligible, resolved)
          else (case find_member kAttempt ''receipt'' of
             Some (CObject ms) \<Rightarrow>
               rbind (parseDescriptor (CObject ms)) (\<lambda>descriptor.
                 Inr (remove1 kIdentity eligible, resolved @ [(kIdentity, descriptor)]))
           | _ \<Rightarrow> invalid (''attempt '' @ kIdentity @ '' is eligible but carries no receipt descriptor''))
      | _ \<Rightarrow> invalid ''an attempt declares no identity''))"

definition readEligibleAttempts :: "CanonicalValue \<Rightarrow> (bytes \<times> Descriptor) list RecordResult" where
  "readEligibleAttempts evidenceSet =
     (case (find_member evidenceSet ''attempts'', find_member evidenceSet ''eligibleAttemptIds'') of
        (Some (CArray kAttempts), Some (CArray kEligible)) \<Rightarrow>
          if kMaximumPlannedAttempts < length kEligible
          then exceeded ''evidence set declares more eligible attempts than the accepted bound''
          else
            rbind (rfold (\<lambda>eligible kIdentity.
                     if value_kind kIdentity \<noteq> KString then invalid ''an eligible identity is not a string''
                     else if value_text kIdentity \<in> set eligible
                     then invalid (''evidence set names '' @ value_text kIdentity @ '' eligible twice'')
                     else Inr (insort_insert (value_text kIdentity) eligible)) [] kEligible) (\<lambda>eligible.
            rbind (rfold resolveAttempt (eligible, []) kAttempts) (\<lambda>(unresolved, resolved).
            (case unresolved of
               [] \<Rightarrow> Inr resolved
             | i # _ \<Rightarrow> invalid (''evidence set names '' @ i @ '' eligible but never declares it''))))
      | _ \<Rightarrow> invalid ''evidence set declares no attempts or no eligible identities'')"

definition loadRun ::
  "Workbench \<Rightarrow> Oracle \<Rightarrow> string \<Rightarrow> MetricRegistry \<Rightarrow> bytes \<times> Descriptor \<Rightarrow> EligibleRun RecordResult" where
  "loadRun wb oracle root registry attempt = (case attempt of (kIdentity, kDescriptor) \<Rightarrow>
     (case bs_get (wb_store wb) (d_digest kDescriptor) of
        Inl e \<Rightarrow> mismatch (''attempt '' @ kIdentity @ '' names receipt '' @ d_digest kDescriptor @ '': ''
                   @ blobRejectionName (bf_rejection e) @ '', '' @ bf_detail e)
      | Inr bytes \<Rightarrow>
          rbind (verifyDescriptor (wb_evp wb) kDescriptor bytes kRawRunReceiptMediaType) (\<lambda>_.
          rbind (ingestCanonicalBytes (wb_iterate wb) bytes) (\<lambda>record.
          (case bs_pathFor (wb_store wb) (d_digest kDescriptor) of
             Inl e \<Rightarrow> mismatch (''receipt '' @ d_digest kDescriptor @ '': '' @ blobRejectionName (bf_rejection e))
           | Inr path \<Rightarrow>
               rbind (validateRawRunReceipt oracle root path record kRawRunReceiptMediaType) (\<lambda>_.
               rbind (readRequiredInteger record ''metricRegistryGeneration'') (\<lambda>receiptGeneration.
               if receiptGeneration \<noteq> mr_registryGeneration registry
               then mismatch (''attempt '' @ kIdentity @ '' was produced against another metric registry generation'')
               else rbind (readObservations record registry kIdentity) (\<lambda>observations.
               Inr \<lparr>er_attemptId = kIdentity, er_descriptor = kDescriptor,
                    er_observations = observations\<rparr>))))))))"

section \<open>Deciding\<close>

record EvaluatedCheck =
  ec_bound :: BoundPolicyEntry
  ec_phase :: CheckPhase
  ec_outcome :: CheckOutcome
  ec_reason :: CheckReason
  ec_observations :: "CanonicalValue list"

definition checkLess :: "EvaluatedCheck \<Rightarrow> EvaluatedCheck \<Rightarrow> bool" where
  "checkLess left right =
     (if ec_phase left \<noteq> ec_phase right then phase_rank (ec_phase left) < phase_rank (ec_phase right)
      else pe_policyKey (bp_entry (ec_bound left)) < pe_policyKey (bp_entry (ec_bound right)))"

definition initialChecks :: "BoundPolicyEntry list \<Rightarrow> EvaluatedCheck list" where
  "initialChecks bound = sort_by checkLess
     (map (\<lambda>kEntry. \<lparr>ec_bound = kEntry, ec_phase = phaseOf kEntry, ec_outcome = NotRun,
             ec_reason = NoReason, ec_observations = []\<rparr>) bound)"

text \<open>One run looked at for one check: whether all runs so far are satisfied, how many were silent.\<close>

definition observeRun ::
  "EvaluatedCheck \<Rightarrow> bool \<times> nat \<times> CanonicalValue list \<Rightarrow> EligibleRun \<Rightarrow> (bool \<times> nat \<times> CanonicalValue list) RecordResult" where
  "observeRun check st kRun = (case st of (satisfied, silent, observations) \<Rightarrow>
     (case map_of (er_observations kRun) (pe_metricId (bp_entry (ec_bound check))) of
        None \<Rightarrow> Inr (satisfied, silent + 1, observations)
      | Some observation \<Rightarrow>
          rbind (compareAt (ec_bound check) observation (er_attemptId kRun)) (\<lambda>compared.
            Inr (satisfied \<and> satisfies (pe_comparison (bp_entry (ec_bound check)))
                   (sc_observed compared) (sc_bound compared),
                 silent,
                 observations @ [makeObject [(''attemptId'', CString (er_attemptId kRun)),
                   (''value'', CInteger (sc_observed compared)),
                   (''scaleExponent'', CInteger (sc_scaleExponent compared))]]))))"

definition decideCheck :: "EligibleRun list \<Rightarrow> EvaluatedCheck \<Rightarrow> EvaluatedCheck RecordResult" where
  "decideCheck runs check =
     rbind (rfold (observeRun check) (True, 0, ec_observations check) runs) (\<lambda>(satisfied, silent, observations).
       Inr (if 0 < silent \<or> runs = []
            then check\<lparr>ec_observations := observations, ec_outcome := Failed, ec_reason := ObservationMissing\<rparr>
            else if \<not> satisfied
            then check\<lparr>ec_observations := observations, ec_outcome := Failed, ec_reason := BoundViolated\<rparr>
            else check\<lparr>ec_observations := observations, ec_outcome := Passed\<rparr>))"

definition decidePhase :: "EligibleRun list \<Rightarrow> CheckPhase \<Rightarrow> EvaluatedCheck list \<Rightarrow> EvaluatedCheck list RecordResult" where
  "decidePhase runs kPhase checks =
     rmap (\<lambda>check. if ec_phase check \<noteq> kPhase then Inr check else decideCheck runs check) checks"

definition phaseFailed :: "CheckPhase \<Rightarrow> EvaluatedCheck list \<Rightarrow> bool" where
  "phaseFailed kPhase checks = list_ex (\<lambda>check. ec_phase check = kPhase \<and> ec_outcome check = Failed) checks"

fun decidePhases ::
  "EligibleRun list \<Rightarrow> CheckPhase list \<Rightarrow> EvaluatedCheck list \<Rightarrow> (EvaluatedCheck list \<times> CheckPhase option) RecordResult" where
  "decidePhases runs [] checks = Inr (checks, None)"
| "decidePhases runs (kPhase # kPhases) checks =
     rbind (decidePhase runs kPhase checks) (\<lambda>checks'.
       if phaseFailed kPhase checks' then Inr (checks', Some kPhase)
       else decidePhases runs kPhases checks')"

definition kPhases :: "CheckPhase list" where
  "kPhases = [PhaseCompleteness, PhaseCorrectness, PhaseHardCeiling]"

definition markNotRun :: "EvaluatedCheck \<Rightarrow> EvaluatedCheck" where
  "markNotRun check = (if ec_outcome check = NotRun then check\<lparr>ec_reason := EarlierPhaseFailed\<rparr> else check)"

definition decideChecks ::
  "EligibleRun list \<Rightarrow> BoundPolicyEntry list \<Rightarrow> (EvaluatedCheck list \<times> CheckPhase option) RecordResult" where
  "decideChecks runs bound =
     rbind (decidePhases runs kPhases (initialChecks bound)) (\<lambda>(checks, blocked).
       Inr (map markNotRun checks, blocked))"

section \<open>The receipt\<close>

definition scaledValue :: "int \<Rightarrow> int \<Rightarrow> CanonicalValue" where
  "scaledValue v scaleExponent = makeObject [(''value'', CInteger v), (''scaleExponent'', CInteger scaleExponent)]"

definition descriptorMember :: "bytes \<Rightarrow> Descriptor \<Rightarrow> CanonicalValue" where
  "descriptorMember identity descriptor = makeObject
     [(''attemptId'', CString identity), (''descriptor'', describeAsValue descriptor)]"

definition checkValue :: "EvaluatedCheck \<Rightarrow> CanonicalValue" where
  "checkValue check = (let entry = bp_entry (ec_bound check) in makeObject
     ([(''policyKey'', CString (pe_policyKey entry)),
       (''phase'', CString (phaseName (ec_phase check))),
       (''checkClass'', CString (if pe_checkClass entry = ClassCompleteness then ''completeness'' else ''correctness'')),
       (''metricId'', CString (pe_metricId entry)),
       (''metricGeneration'', CInteger (pe_metricGeneration entry)),
       (''budgetClass'', CString (m_budgetClass (bp_metric (ec_bound check)))),
       (''comparison'', CString (if pe_comparison entry = AtMost then ''at_most'' else ''at_least'')),
       (''bound'', scaledValue (pe_boundValue entry) (pe_boundScaleExponent entry)),
       (''outcome'', CString (outcomeName (ec_outcome check)))]
      @ (if ec_reason check \<noteq> NoReason then [(''reason'', CString (reasonName (ec_reason check)))] else [])
      @ [(''observations'', CArray (ec_observations check))]))"

definition claimScopeValue :: CanonicalValue where
  "claimScopeValue = makeObject
     [(''performanceClaim'', CBoolean False), (''runnerClaim'', CBoolean False),
      (''trustedProvenanceClaim'', CBoolean False), (''promotionClaim'', CBoolean False),
      (''relativeComparisonClaim'', CBoolean False)]"

definition verdictValue :: "EvaluatedCheck list \<Rightarrow> CheckPhase option \<Rightarrow> CanonicalValue" where
  "verdictValue checks blocked = makeObject
     ([(''outcome'', CString (if blocked \<noteq> None then ''failed'' else ''passed''))]
      @ (case blocked of None \<Rightarrow> [] | Some p \<Rightarrow> [(''blockingPhase'', CString (phaseName p))])
      @ [(''checkCount'', CInteger (int (length checks))),
         (''failedCheckCount'', CInteger (int (length (filter (\<lambda>c. ec_outcome c = Failed) checks)))),
         (''notRunCheckCount'', CInteger (int (length (filter (\<lambda>c. ec_outcome c = NotRun) checks))))])"

record EvaluationInputs =
  ei_repositoryRoot :: string
  ei_evidenceSetPath :: string
  ei_evidenceSetDescriptor :: Descriptor
  ei_metricRegistryDescriptor :: Descriptor
  ei_evaluationPolicyDescriptor :: Descriptor

definition kEvidenceSetMediaType :: bytes where
  "kEvidenceSetMediaType = ''application/vnd.rawframe.evidence.evidence-set.v1+json''"

definition receiptValue ::
  "EvaluationInputs \<Rightarrow> MetricRegistry \<Rightarrow> EvaluationPolicy \<Rightarrow> bytes \<Rightarrow> EligibleRun list
   \<Rightarrow> EvaluatedCheck list \<Rightarrow> CheckPhase option \<Rightarrow> CanonicalValue" where
  "receiptValue inputs registry policy evaluationId runs checks blocked = makeObject
     [(''schemaVersion'', CInteger 1),
      (''recordKind'', CString ''evaluation_receipt''),
      (''evaluationId'', CString evaluationId),
      (''evaluatorGeneration'', CInteger 1),
      (''tier'', CString kTier0),
      (''metricRegistryGeneration'', CInteger (mr_registryGeneration registry)),
      (''policyGeneration'', CInteger (ep_policyGeneration policy)),
      (''inputs'', makeObject
         [(''evidenceSet'', describeAsValue (ei_evidenceSetDescriptor inputs)),
          (''metricRegistry'', describeAsValue (ei_metricRegistryDescriptor inputs)),
          (''evaluationPolicy'', describeAsValue (ei_evaluationPolicyDescriptor inputs)),
          (''receipts'', CArray (map (\<lambda>r. descriptorMember (er_attemptId r) (er_descriptor r)) runs))]),
      (''checks'', CArray (map checkValue checks)),
      (''verdict'', verdictValue checks blocked),
      (''claimScope'', claimScopeValue),
      (''trust'', diagnostic_trust)]"

definition evaluateEvidenceSet ::
  "Workbench \<Rightarrow> Oracle \<Rightarrow> EvaluationInputs \<Rightarrow> CanonicalValue \<Rightarrow> MetricRegistry \<Rightarrow> EvaluationPolicy \<Rightarrow> bytes
   \<Rightarrow> CanonicalValue RecordResult" where
  "evaluateEvidenceSet wb oracle inputs evidenceSet registry policy evaluationId =
     rbind (checkProducerAuthority evidenceSet) (\<lambda>_.
     rbind (checkRecordKind evidenceSet ''evidence_set'') (\<lambda>_.
     rbind (validateAgainstSchema oracle (ei_repositoryRoot inputs) ''schemas/evidence-set-v1.schema.json''
              (ei_evidenceSetPath inputs)) (\<lambda>_.
     rbind (checkGenerationMatches evidenceSet kEvidenceSetMediaType 1) (\<lambda>_.
     rbind (readRequiredText evidenceSet ''tier'') (\<lambda>tier.
     if tier \<noteq> kTier0
     then invalid (''evidence set claims tier '' @ tier @ '', which this gate cannot evaluate'')
     else if tier \<noteq> ep_tier policy
     then mismatch ''the evidence set and the policy claim different tiers''
     else (case find_member evidenceSet ''compatibility'' of
        None \<Rightarrow> invalid ''evidence set declares no compatibility facts''
      | Some kCompatibility \<Rightarrow>
          if value_kind kCompatibility \<noteq> KObject
          then invalid ''evidence set declares no compatibility facts''
          else
            rbind (readRequiredInteger kCompatibility ''metricRegistryGeneration'') (\<lambda>setRegistryGeneration.
            if setRegistryGeneration \<noteq> mr_registryGeneration registry
            then mismatch ''the evidence set was produced against another metric registry generation''
            else
              rbind (bindPolicyToRegistry policy registry) (\<lambda>bound.
              rbind (readEligibleAttempts evidenceSet) (\<lambda>eligible.
              rbind (rmap (loadRun wb oracle (ei_repositoryRoot inputs) registry) eligible) (\<lambda>runs.
              rbind (decideChecks runs bound) (\<lambda>(checks, blocked).
                Inr (receiptValue inputs registry policy evaluationId runs checks blocked))))))))))))"

section \<open>What the decision means\<close>

definition met :: "BoundPolicyEntry \<Rightarrow> EligibleRun \<Rightarrow> bool" where
  "met b kRun \<longleftrightarrow>
     (case map_of (er_observations kRun) (pe_metricId (bp_entry b)) of
        None \<Rightarrow> False
      | Some observation \<Rightarrow>
          (case compareAt b observation (er_attemptId kRun) of
             Inl e \<Rightarrow> False
           | Inr c \<Rightarrow> satisfies (pe_comparison (bp_entry b)) (sc_observed c) (sc_bound c)))"

definition passes :: "EligibleRun list \<Rightarrow> BoundPolicyEntry \<Rightarrow> bool" where
  "passes runs b \<longleftrightarrow> runs \<noteq> [] \<and> (\<forall>r\<in>set runs. met b r)"

definition silent_run :: "BoundPolicyEntry \<Rightarrow> EligibleRun \<Rightarrow> bool" where
  "silent_run b r \<longleftrightarrow> map_of (er_observations r) (pe_metricId (bp_entry b)) = None"

definition decided :: "EligibleRun list \<Rightarrow> BoundPolicyEntry \<Rightarrow> CheckOutcome \<times> CheckReason" where
  "decided runs b =
     (if passes runs b then (Passed, NoReason)
      else if runs = [] \<or> (\<exists>r\<in>set runs. silent_run b r) then (Failed, ObservationMissing)
      else (Failed, BoundViolated))"

lemma observe_fold:
  "rfold (observeRun check) (sat, silent, os) runs = Inr (sat', silent', os') \<Longrightarrow>
     silent' = silent + length (filter (silent_run (ec_bound check)) runs)
     \<and> (sat' \<longleftrightarrow> sat \<and> (\<forall>r\<in>set runs. silent_run (ec_bound check) r \<or> met (ec_bound check) r))"
proof (induction runs arbitrary: sat silent os)
  case (Cons r runs)
  let ?b = "ec_bound check"
  show ?case
  proof (cases "map_of (er_observations r) (pe_metricId (bp_entry ?b))")
    case None
    then have "observeRun check (sat, silent, os) r = Inr (sat, silent + 1, os)"
      by (simp add: observeRun_def)
    then have rest: "rfold (observeRun check) (sat, silent + 1, os) runs = Inr (sat', silent', os')"
      using Cons.prems by simp
    have "silent_run ?b r"
      using None by (simp add: silent_run_def)
    then show ?thesis
      using Cons.IH [OF rest] by auto
  next
    case (Some ob)
    then obtain c where c: "compareAt ?b ob (er_attemptId r) = Inr c"
      using Cons.prems by (auto simp: observeRun_def)
    have met: "met ?b r \<longleftrightarrow> satisfies (pe_comparison (bp_entry ?b)) (sc_observed c) (sc_bound c)"
      using Some c by (simp add: met_def)
    obtain os'' where "observeRun check (sat, silent, os) r = Inr (sat \<and> met ?b r, silent, os'')"
      using Some c met by (simp add: observeRun_def)
    then have rest: "rfold (observeRun check) (sat \<and> met ?b r, silent, os'') runs = Inr (sat', silent', os')"
      using Cons.prems by simp
    have "\<not> silent_run ?b r"
      using Some by (simp add: silent_run_def)
    then show ?thesis
      using Cons.IH [OF rest] by auto
  qed
qed simp

lemma met_not_silent: "met b r \<Longrightarrow> \<not> silent_run b r"
  by (auto simp: met_def silent_run_def split: option.splits)

lemma decideCheck_decided:
  assumes "decideCheck runs check = Inr check'" "ec_reason check = NoReason"
  shows "ec_bound check' = ec_bound check \<and> ec_phase check' = ec_phase check
    \<and> (ec_outcome check', ec_reason check') = decided runs (ec_bound check)"
proof -
  let ?b = "ec_bound check"
  obtain sat silent os where "rfold (observeRun check) (True, 0, ec_observations check) runs = Inr (sat, silent, os)"
    and check': "check' = (if 0 < silent \<or> runs = []
            then check\<lparr>ec_observations := os, ec_outcome := Failed, ec_reason := ObservationMissing\<rparr>
            else if \<not> sat
            then check\<lparr>ec_observations := os, ec_outcome := Failed, ec_reason := BoundViolated\<rparr>
            else check\<lparr>ec_observations := os, ec_outcome := Passed\<rparr>)"
    using assms(1) by (auto simp: decideCheck_def)
  from observe_fold [OF this(1)] have silent: "0 < silent \<longleftrightarrow> (\<exists>r\<in>set runs. silent_run ?b r)"
    and sat: "sat \<longleftrightarrow> (\<forall>r\<in>set runs. silent_run ?b r \<or> met ?b r)"
    by (auto simp: filter_empty_conv)
  have "passes runs ?b \<longleftrightarrow> runs \<noteq> [] \<and> \<not> 0 < silent \<and> sat"
    using silent sat met_not_silent by (auto simp: passes_def)
  then show ?thesis
    using check' silent assms(2) by (auto simp: decided_def)
qed

lemma decided_failed: "fst (decided runs b) = Failed \<longleftrightarrow> \<not> passes runs b"
  by (simp add: decided_def)

text \<open>One phase decides its own checks and touches no other.\<close>

abbreviation fresh :: "EvaluatedCheck \<Rightarrow> bool" where
  "fresh c \<equiv> ec_outcome c = NotRun \<and> ec_reason c = NoReason"

lemma decidePhase_decided:
  assumes "decidePhase runs p cs = Inr cs'" "\<forall>c\<in>set cs. ec_phase c = p \<longrightarrow> fresh c"
  shows "list_all2 (\<lambda>c c'. ec_bound c' = ec_bound c \<and> ec_phase c' = ec_phase c
    \<and> (if ec_phase c = p then (ec_outcome c', ec_reason c') = decided runs (ec_bound c) else c' = c)) cs cs'"
  using assms
proof (induction cs arbitrary: cs')
  case (Cons c cs)
  from Cons.prems(1) obtain c' rest where c': "(if ec_phase c \<noteq> p then Inr c else decideCheck runs c) = Inr c'"
    and rest: "decidePhase runs p cs = Inr rest" and cs': "cs' = c' # rest"
    by (auto simp: decidePhase_def)
  have "list_all2 (\<lambda>c c'. ec_bound c' = ec_bound c \<and> ec_phase c' = ec_phase c
      \<and> (if ec_phase c = p then (ec_outcome c', ec_reason c') = decided runs (ec_bound c) else c' = c)) cs rest"
    using Cons.IH [OF rest] Cons.prems(2) by simp
  moreover have "ec_bound c' = ec_bound c \<and> ec_phase c' = ec_phase c
      \<and> (if ec_phase c = p then (ec_outcome c', ec_reason c') = decided runs (ec_bound c) else c' = c)"
    using c' Cons.prems(2) decideCheck_decided [of runs c c'] by (cases "ec_phase c = p") simp_all
  ultimately show ?case
    by (simp add: cs')
qed (simp add: decidePhase_def)

lemma phaseFailed_iff:
  assumes "decidePhase runs p cs = Inr cs'" "\<forall>c\<in>set cs. ec_phase c = p \<longrightarrow> fresh c"
  shows "phaseFailed p cs' \<longleftrightarrow> (\<exists>c\<in>set cs. ec_phase c = p \<and> \<not> passes runs (ec_bound c))"
  using decidePhase_decided [OF assms]
proof (induction cs cs' rule: list_all2_induct)
  case (Cons c cs c' cs')
  have "ec_phase c' = p \<and> ec_outcome c' = Failed \<longleftrightarrow> ec_phase c = p \<and> \<not> passes runs (ec_bound c)"
    using Cons(1) decided_failed [of runs "ec_bound c"] by (auto dest!: arg_cong [of _ _ fst])
  then show ?case
    using Cons by (simp add: phaseFailed_def)
qed (simp add: phaseFailed_def)

text \<open>All phases: the blocking phase is the first with a failing check; later ones stay fresh.\<close>

definition blocking :: "EligibleRun list \<Rightarrow> EvaluatedCheck list \<Rightarrow> CheckPhase \<Rightarrow> bool" where
  "blocking runs cs p \<longleftrightarrow> (\<exists>c\<in>set cs. ec_phase c = p \<and> \<not> passes runs (ec_bound c))"

definition executed :: "CheckPhase list \<Rightarrow> CheckPhase option \<Rightarrow> CheckPhase set" where
  "executed ps blocked =
     (case blocked of None \<Rightarrow> set ps | Some p \<Rightarrow> insert p (set (takeWhile (\<lambda>q. q \<noteq> p) ps)))"

definition phase_result :: "EligibleRun list \<Rightarrow> CheckPhase set \<Rightarrow> EvaluatedCheck \<Rightarrow> EvaluatedCheck \<Rightarrow> bool" where
  "phase_result runs phases_run c c' \<longleftrightarrow> ec_bound c' = ec_bound c \<and> ec_phase c' = ec_phase c
     \<and> (if ec_phase c \<in> phases_run then (ec_outcome c', ec_reason c') = decided runs (ec_bound c) else c' = c)"

lemma blocking_cong:
  assumes "list_all2 (phase_result runs phases_run) cs cs'"
  shows "blocking runs cs' p \<longleftrightarrow> blocking runs cs p"
  using assms
  by (induction cs cs' rule: list_all2_induct) (auto simp: blocking_def phase_result_def)

lemma phase_result_trans:
  assumes "list_all2 (phase_result runs A) cs cs1" "list_all2 (phase_result runs B) cs1 cs2" "A \<inter> B = {}"
  shows "list_all2 (phase_result runs (A \<union> B)) cs cs2"
  using assms
  by (rule_tac list_all2_trans [of "phase_result runs A" "phase_result runs B"])
    (auto simp: phase_result_def split: if_splits)

lemma list_all2_fresh:
  assumes "list_all2 (phase_result runs {p}) cs cs1" "\<forall>c\<in>set cs. ec_phase c \<in> insert p P \<longrightarrow> fresh c" "p \<notin> P"
  shows "\<forall>c\<in>set cs1. ec_phase c \<in> P \<longrightarrow> fresh c"
  using assms
  by (induction cs cs1 rule: list_all2_induct) (auto simp: phase_result_def split: if_splits)

lemma decidePhases_result:
  assumes "decidePhases runs ps cs = Inr (cs', blocked)" "distinct ps"
    "\<forall>c\<in>set cs. ec_phase c \<in> set ps \<longrightarrow> fresh c"
  shows "blocked = List.find (blocking runs cs) ps \<and> list_all2 (phase_result runs (executed ps blocked)) cs cs'"
  using assms
proof (induction ps arbitrary: cs)
  case Nil
  then show ?case
    by (auto simp: executed_def phase_result_def list_all2_same)
next
  case (Cons p ps)
  then obtain cs1 where cs1: "decidePhase runs p cs = Inr cs1"
    and rest: "(if phaseFailed p cs1 then Inr (cs1, Some p) else decidePhases runs ps cs1) = Inr (cs', blocked)"
    by auto
  have fresh: "\<forall>c\<in>set cs. ec_phase c = p \<longrightarrow> fresh c"
    using Cons.prems(3) by simp
  have step: "list_all2 (phase_result runs {p}) cs cs1"
    using decidePhase_decided [OF cs1 fresh] by (rule list_all2_mono) (simp add: phase_result_def)
  have failed: "phaseFailed p cs1 \<longleftrightarrow> blocking runs cs p"
    using phaseFailed_iff [OF cs1 fresh] by (simp add: blocking_def)
  show ?case
  proof (cases "phaseFailed p cs1")
    case True
    then show ?thesis
      using rest step failed by (auto simp: executed_def)
  next
    case False
    then have ih: "blocked = List.find (blocking runs cs1) ps
        \<and> list_all2 (phase_result runs (executed ps blocked)) cs1 cs'"
      using rest list_all2_fresh [OF step, of "set ps"] Cons.prems(2,3) by (intro Cons.IH) simp_all
    have "blocking runs cs1 = blocking runs cs"
      using blocking_cong [OF step] by auto
    then have find: "blocked = List.find (blocking runs cs) ps"
      using ih by simp
    note later = conjunct2 [OF ih]
    have range: "blocked = Some q \<Longrightarrow> q \<in> set ps" for q
      using find by (auto simp: find_Some_iff)
    then have "executed (p # ps) blocked = {p} \<union> executed ps blocked" "{p} \<inter> executed ps blocked = {}"
      using Cons.prems(2) by (auto simp: executed_def split: option.splits dest: set_takeWhileD)
    then show ?thesis
      using phase_result_trans [OF step later] find failed False by simp
  qed
qed

lemma initialChecks_set:
  "set (initialChecks bound) = (\<lambda>b. \<lparr>ec_bound = b, ec_phase = phaseOf b,
     ec_outcome = NotRun, ec_reason = NoReason, ec_observations = []\<rparr>) ` set bound"
  by (simp add: initialChecks_def)

lemma kPhases_all: "p \<in> set kPhases" "distinct kPhases"
  by (cases p; simp add: kPhases_def) (simp add: kPhases_def)

lemma decideChecks_result:
  assumes "decideChecks runs bound = Inr (checks, blocked)"
  shows "blocked = List.find (\<lambda>p. \<exists>b\<in>set bound. phaseOf b = p \<and> \<not> passes runs b) kPhases
    \<and> mset (map ec_bound checks) = mset bound
    \<and> (\<forall>c\<in>set checks. ec_phase c = phaseOf (ec_bound c)
        \<and> (ec_outcome c, ec_reason c) =
            (if ec_phase c \<in> executed kPhases blocked then decided runs (ec_bound c)
             else (NotRun, EarlierPhaseFailed)))"
proof -
  obtain cs where run: "decidePhases runs kPhases (initialChecks bound) = Inr (cs, blocked)"
    and checks: "checks = map markNotRun cs"
    using assms by (auto simp: decideChecks_def)
  have result: "blocked = List.find (blocking runs (initialChecks bound)) kPhases
      \<and> list_all2 (phase_result runs (executed kPhases blocked)) (initialChecks bound) cs"
    by (rule decidePhases_result [OF run kPhases_all(2)]) (auto simp: initialChecks_set)
  have blocking: "blocking runs (initialChecks bound) = (\<lambda>p. \<exists>b\<in>set bound. phaseOf b = p \<and> \<not> passes runs b)"
    by (auto simp: blocking_def initialChecks_set fun_eq_iff)
  have "map ec_bound cs = map ec_bound (initialChecks bound)"
    using result by (auto simp: list_all2_conv_all_nth phase_result_def intro: nth_equalityI)
  moreover have "mset (map ec_bound (initialChecks bound)) = mset bound"
    by (simp add: initialChecks_def multiset.map_comp o_def)
  moreover have "map ec_bound checks = map ec_bound cs"
    by (simp add: checks markNotRun_def)
  ultimately have bounds: "mset (map ec_bound checks) = mset bound"
    by (simp only:)
  have outcome: "ec_phase (markNotRun c) = phaseOf (ec_bound (markNotRun c))
      \<and> (ec_outcome (markNotRun c), ec_reason (markNotRun c)) =
          (if ec_phase (markNotRun c) \<in> executed kPhases blocked then decided runs (ec_bound (markNotRun c))
           else (NotRun, EarlierPhaseFailed))" if "c \<in> set cs" for c
  proof -
    obtain i where i: "i < length cs" "c = cs ! i"
      using \<open>c \<in> set cs\<close> by (auto simp: in_set_conv_nth)
    let ?c = "initialChecks bound ! i"
    have pr: "phase_result runs (executed kPhases blocked) ?c c" and len: "i < length (initialChecks bound)"
      using result i by (auto simp: list_all2_conv_all_nth)
    have "?c \<in> set (initialChecks bound)"
      using len by simp
    then have "fresh ?c" "ec_phase ?c = phaseOf (ec_bound ?c)"
      unfolding initialChecks_set by auto
    then show ?thesis
      using pr by (auto simp: phase_result_def markNotRun_def decided_def split: if_splits)
  qed
  have "\<forall>c\<in>set checks. ec_phase c = phaseOf (ec_bound c)
      \<and> (ec_outcome c, ec_reason c) =
          (if ec_phase c \<in> executed kPhases blocked then decided runs (ec_bound c)
           else (NotRun, EarlierPhaseFailed))"
    unfolding checks set_map using outcome by blast
  then show ?thesis
    using bounds conjunct1 [OF result] unfolding blocking by blast
qed

definition demo_metric_entry :: "bytes \<Rightarrow> int \<Rightarrow> bytes \<Rightarrow> MetricEntry" where
  "demo_metric_entry name generation unit' = \<lparr>m_metricId = name, m_metricGeneration = generation,
     m_stability = Stable, m_owner = ''o'', m_scope = ''s'', m_unit = unit', m_statistic = ''median'',
     m_budgetClass = ''hard_ceiling'', m_queryId = ''q'', m_scaleExponent = 0, m_polarity = LowerIsBetter,
     m_samplingKind = ''block'', m_blockLength = 8,
     m_rescaling = \<lparr>r_direction = BoundToObservation, r_rounding = RejectInexact\<rparr>, m_labels = []\<rparr>"

definition demo_bound :: "int \<Rightarrow> BoundPolicyEntry" where
  "demo_bound limit = \<lparr>bp_entry = \<lparr>pe_policyKey = ''k'', pe_checkClass = ClassCorrectness,
       pe_metricId = ''m'', pe_metricGeneration = 1, pe_comparison = AtMost, pe_boundValue = limit,
       pe_boundScaleExponent = 0\<rparr>,
     bp_metric = demo_metric_entry ''m'' 1 ''ns'', bp_boundValue = limit, bp_boundScaleExponent = 0\<rparr>"

definition demo_run :: EligibleRun where
  "demo_run = \<lparr>er_attemptId = ''a'', er_descriptor = demo_descriptor,
     er_observations = [(''m'', \<lparr>ob_value = 5, ob_scaleExponent = 0\<rparr>)]\<rparr>"

lemma demo_compare:
  "compareAt (demo_bound 7) \<lparr>ob_value = 5, ob_scaleExponent = 0\<rparr> i
     = Inr \<lparr>sc_observed = 5, sc_bound = 7, sc_scaleExponent = 0\<rparr>"
  by (simp add: compareAt_def demo_bound_def demo_metric_entry_def rescaleExact_def checkScale_def
      kMinimumScaleExponent_def kMaximumScaleExponent_def kMaximumSafeInteger_def)

lemma demo_decides: "\<exists>checks. decideChecks [demo_run] [demo_bound 7] = Inr (checks, None)"
  using demo_compare
  by (simp add: decideChecks_def kPhases_def initialChecks_def decidePhase_def decideCheck_def observeRun_def
      demo_run_def phaseFailed_def satisfies_def phaseOf_def demo_bound_def demo_metric_entry_def)



lemma receipt_verdict:
  assumes "evaluateEvidenceSet wb oracle inputs evidenceSet registry policy evaluationId = Inr receipt"
  shows "\<exists>bound eligible runs verdict. bindPolicyToRegistry policy registry = Inr bound
    \<and> readEligibleAttempts evidenceSet = Inr eligible
    \<and> rmap (loadRun wb oracle (ei_repositoryRoot inputs) registry) eligible = Inr runs
    \<and> find_member receipt ''verdict'' = Some verdict
    \<and> find_member verdict ''outcome'' = Some (CString
        (if \<forall>b\<in>set bound. passes runs b then ''passed'' else ''failed''))
    \<and> find_member verdict ''blockingPhase'' = map_option (\<lambda>p. CString (phaseName p))
        (List.find (\<lambda>p. \<exists>b\<in>set bound. phaseOf b = p \<and> \<not> passes runs b) kPhases)"
proof -
  obtain bound eligible runs checks blocked where run:
    "bindPolicyToRegistry policy registry = Inr bound" "readEligibleAttempts evidenceSet = Inr eligible"
    "rmap (loadRun wb oracle (ei_repositoryRoot inputs) registry) eligible = Inr runs"
    "decideChecks runs bound = Inr (checks, blocked)"
    "receipt = receiptValue inputs registry policy evaluationId runs checks blocked"
    using assms by (auto simp: evaluateEvidenceSet_def split: if_splits option.splits)
  have verdict: "find_member receipt ''verdict'' = Some (verdictValue checks blocked)"
    by (simp add: run(5) receiptValue_def find_eval)
  have fields: "find_member (verdictValue checks blocked) ''outcome'' = Some (CString (if blocked \<noteq> None then ''failed'' else ''passed''))"
    "find_member (verdictValue checks blocked) ''blockingPhase'' = map_option (\<lambda>p. CString (phaseName p)) blocked"
    by (cases blocked; simp add: verdictValue_def find_eval)+
  have blocked: "blocked = List.find (\<lambda>p. \<exists>b\<in>set bound. phaseOf b = p \<and> \<not> passes runs b) kPhases"
    using decideChecks_result [OF run(4)] by blast
  have "blocked = None \<longleftrightarrow> (\<forall>b\<in>set bound. passes runs b)"
    unfolding blocked find_None_iff using kPhases_all(1) by blast
  then show ?thesis
    using run verdict fields blocked by auto
qed

text \<open>
  C1. An evaluation that completes reports \<open>passed\<close> exactly when there is an eligible run and
  every run loaded from the store meets every bound of the resolved policy; otherwise it
  reports \<open>failed\<close> and names the first phase with an unmet bound.
\<close>

theorem verdict_is_sound_and_complete:
  assumes "evaluateEvidenceSet wb oracle inputs evidenceSet registry policy evaluationId = Inr receipt"
  shows "\<exists>bound eligible runs verdict. bindPolicyToRegistry policy registry = Inr bound
    \<and> readEligibleAttempts evidenceSet = Inr eligible
    \<and> rmap (loadRun wb oracle (ei_repositoryRoot inputs) registry) eligible = Inr runs
    \<and> find_member receipt ''verdict'' = Some verdict
    \<and> find_member verdict ''outcome'' = Some (CString
        (if \<forall>b\<in>set bound. passes runs b then ''passed'' else ''failed''))
    \<and> find_member verdict ''blockingPhase'' = map_option (\<lambda>p. CString (phaseName p))
        (List.find (\<lambda>p. \<exists>b\<in>set bound. phaseOf b = p \<and> \<not> passes runs b) kPhases)"
  using assms by (rule receipt_verdict)

text \<open>A complete evaluation: one eligible attempt whose stored receipt observes 5 ns against a bound of 7.\<close>

definition demo_registry :: MetricRegistry where
  "demo_registry = \<lparr>mr_registryGeneration = 1, mr_metrics = [demo_metric_entry ''m'' 1 ''ns'']\<rparr>"

definition demo_policy :: EvaluationPolicy where
  "demo_policy = \<lparr>ep_policyGeneration = 1, ep_metricRegistryGeneration = 1, ep_tier = kTier0,
     ep_entries = [bp_entry (demo_bound 7)]\<rparr>"

definition demo_inputs :: EvaluationInputs where
  "demo_inputs = \<lparr>ei_repositoryRoot = ''r'', ei_evidenceSetPath = ''p'',
     ei_evidenceSetDescriptor = demo_descriptor, ei_metricRegistryDescriptor = demo_descriptor,
     ei_evaluationPolicyDescriptor = demo_descriptor\<rparr>"

definition demo_set :: CanonicalValue where
  "demo_set = makeObject
     [(''schemaVersion'', CInteger 1), (''recordKind'', CString ''evidence_set''),
      (''tier'', CString kTier0),
      (''compatibility'', makeObject [(''metricRegistryGeneration'', CInteger 1)]),
      (''attempts'', CArray [makeObject [(''attemptId'', CString ''a''),
         (''receipt'', describeAsValue demo_descriptor)]]),
      (''eligibleAttemptIds'', CArray [CString ''a''])]"

lemma set_generation: "mediaTypeGeneration kEvidenceSetMediaType = Inr 1"
  using mediaTypeGeneration_number [of 1 "''application/vnd.rawframe.evidence.evidence-set''"]
  by (simp add: kEvidenceSetMediaType_def nat_to_string.simps digit_char_values int64_max_def)

lemma receipt_generation: "mediaTypeGeneration kRawRunReceiptMediaType = Inr 1"
  using mediaTypeGeneration_number [of 1 "''application/vnd.rawframe.evidence.raw-run-receipt''"]
  by (simp add: kRawRunReceiptMediaType_def nat_to_string.simps digit_char_values int64_max_def)

lemma demo_oracle_accepts: "validateAgainstSchema demo_oracle root schema path = Inr ()"
  by (simp add: validateAgainstSchema_def validateJsonShape_def demo_oracle_def)

lemma demo_receipt_valid:
  "is_ok (validateRawRunReceipt demo_oracle root path demo_receipt kRawRunReceiptMediaType)"
proof -
  have "checkProducerAuthority demo_receipt = Inr ()"
    by (simp only: checkProducerAuthority_def walk_iff) (simp add: demo_receipt_defs kForbiddenMemberNames_def)
  moreover have "checkRecordKind demo_receipt ''raw_run_receipt'' = Inr ()"
    "checkGenerationMatches demo_receipt kRawRunReceiptMediaType 1 = Inr ()"
    by (simp_all add: checkRecordKind_def readRecordKind_def checkGenerationMatches_def receipt_generation
        demo_receipt_def find_eval)
  moreover have "is_ok (summarizeRawRunReceipt demo_receipt)"
    by (simp add: summarizeRawRunReceipt_def textAt_def demo_receipt_def diagnostic_trust_def find_eval Let_def)
  ultimately show ?thesis
    by (simp add: validateRawRunReceipt_def demo_oracle_accepts)
qed

lemma demo_observations:
  "readObservations demo_receipt demo_registry i = Inr [(''m'', \<lparr>ob_value = 5, ob_scaleExponent = 0\<rparr>)]"
  by (simp add: readObservations_def readObservation_def demo_receipt_defs find_eval demo_registry_def
      demo_metric_entry_def kMaximumObservedMetrics_def readRequiredText_def readRequiredInteger_def
      kMinimumScaleExponent_def kMaximumScaleExponent_def kMaximumSafeInteger_def omap_put.simps)

lemma demo_load: "loadRun demo_bench demo_oracle root demo_registry (''a'', demo_descriptor) = Inr demo_run"
proof -
  have "ingestCanonicalBytes (wb_iterate demo_bench) demo_bytes = Inr demo_receipt"
    using demo_bench_parses by (simp add: ingestCanonicalBytes_def demo_bytes_def)
  moreover have "bs_get (wb_store demo_bench) (d_digest demo_descriptor) = Inr demo_bytes"
    "bs_pathFor (wb_store demo_bench) (d_digest demo_descriptor) = Inr ''blob''"
    by (simp_all add: demo_bench_def)
  moreover have "readRequiredInteger demo_receipt ''metricRegistryGeneration'' = Inr 1"
    by (simp add: readRequiredInteger_def demo_receipt_def find_eval kMaximumSafeInteger_def)
  moreover obtain summary where "validateRawRunReceipt demo_oracle root ''blob'' demo_receipt kRawRunReceiptMediaType = Inr summary"
    using demo_receipt_valid by (auto simp: is_ok_iff)
  moreover have "mr_registryGeneration demo_registry = 1"
    by (simp add: demo_registry_def)
  ultimately show ?thesis
    using demo_bench_verifies [of kRawRunReceiptMediaType] demo_observations by (simp add: loadRun_def demo_run_def)
qed

lemma demo_eligible: "readEligibleAttempts demo_set = Inr [(''a'', demo_descriptor)]"
proof -
  obtain ms where ms: "describeAsValue demo_descriptor = CObject ms"
    by (simp add: describeAsValue_def makeObject_def)
  have "length (hex_text (replicate 31 7 @ [n mod 256])) = 64" for n
    by simp
  moreover have "parseDescriptor (describeAsValue demo_descriptor) = Inr demo_descriptor"
  proof (rule parse_describeAsValue)
    show "checkDigestForm (d_digest demo_descriptor) = Inr ()"
      using sha256Bytes_form [OF demo_provider_ok demo_provider_digest] by (simp add: demo_descriptor_def)
    show "d_byteLength demo_descriptor < 2 ^ 63"
      using demo_bytes_length by (simp add: demo_descriptor_def)
  qed
  ultimately show ?thesis
    using ms by (simp add: readEligibleAttempts_def resolveAttempt_def demo_set_def find_eval
        kMaximumPlannedAttempts_def insort_insert_key_def)
qed

lemma demo_binds: "bindPolicyToRegistry demo_policy demo_registry = Inr [demo_bound 7]"
  by (simp add: bindPolicyToRegistry_def demo_policy_def demo_registry_def bindEntry_def registry_find_def
      demo_bound_def demo_metric_entry_def kTier0BudgetClasses_def rescaleExact_def checkScale_def
      kMinimumScaleExponent_def kMaximumScaleExponent_def kMaximumSafeInteger_def)

lemma demo_evaluates:
  "is_ok (evaluateEvidenceSet demo_bench demo_oracle demo_inputs demo_set demo_registry demo_policy ''e'')"
proof -
  have "checkProducerAuthority demo_set = Inr ()"
    by (simp only: checkProducerAuthority_def walk_iff)
      (simp add: demo_set_def describeAsValue_def kForbiddenMemberNames_def)
  moreover have "checkRecordKind demo_set ''evidence_set'' = Inr ()"
    "checkGenerationMatches demo_set kEvidenceSetMediaType 1 = Inr ()"
    "readRequiredText demo_set ''tier'' = Inr kTier0"
    "find_member demo_set ''compatibility'' = Some (makeObject [(''metricRegistryGeneration'', CInteger 1)])"
    by (simp_all add: checkRecordKind_def readRecordKind_def checkGenerationMatches_def set_generation
        readRequiredText_def demo_set_def find_eval)
  moreover have "readRequiredInteger (makeObject [(''metricRegistryGeneration'', CInteger 1)]) ''metricRegistryGeneration'' = Inr 1"
    by (simp add: readRequiredInteger_def find_eval kMaximumSafeInteger_def)
  moreover have "ep_tier demo_policy = kTier0" "mr_registryGeneration demo_registry = 1"
    by (simp_all add: demo_policy_def demo_registry_def)
  moreover obtain checks where "decideChecks [demo_run] [demo_bound 7] = Inr (checks, None)"
    using demo_decides by blast
  ultimately show ?thesis
    by (simp add: evaluateEvidenceSet_def demo_oracle_accepts demo_binds demo_eligible demo_load)
qed

theorem verdict_is_sound_and_complete_witness:
  "\<exists>receipt verdict. evaluateEvidenceSet demo_bench demo_oracle demo_inputs demo_set demo_registry demo_policy ''e''
       = Inr receipt \<and> find_member receipt ''verdict'' = Some verdict"
proof -
  obtain receipt where run: "evaluateEvidenceSet demo_bench demo_oracle demo_inputs demo_set demo_registry
      demo_policy ''e'' = Inr receipt"
    using demo_evaluates by (auto simp: is_ok_iff)
  from verdict_is_sound_and_complete [OF run] run show ?thesis
    by blast
qed

text \<open>
  An observation is checked against the first registry entry with its identifier, whatever
  its generation: a receipt in the unit of a later generation is refused even though the
  registry declares that generation and a policy entry can bind it.
\<close>

theorem observation_ignores_metric_generation:
  assumes "readRequiredText kEntry ''metricId'' = Inr (m_metricId e)"
    and "readRequiredText kEntry ''unit'' = Inr u" and "u \<noteq> m_unit e"
  shows "\<not> is_ok (readObservation \<lparr>mr_registryGeneration = g, mr_metrics = e # later\<rparr> attemptId observations kEntry)"
  using assms by (simp add: readObservation_def mismatch_def)

theorem observation_ignores_metric_generation_witness:
  "\<not> is_ok (readObservation \<lparr>mr_registryGeneration = 1,
      mr_metrics = [demo_metric_entry ''m'' 1 ''ms'', demo_metric_entry ''m'' 2 ''ns'']\<rparr> ''a'' [] demo_observation)"
  by (rule observation_ignores_metric_generation [where u = "''ns''"])
    (simp_all add: demo_observation_def demo_metric_entry_def readRequiredText_def find_eval)

end
