(* ===== verification/Evidence_Records.thy ===== *)
theory Evidence_Records
  imports Evidence_Repository Evidence_Evaluator
begin

text \<open>
  \<open>tools/rf_evidence/src/record_command.cpp\<close>: the operations on records.  An operation is a run of stages
  over the site and the store; a stage that refuses ends the operation with what it printed and the exit
  code.  The code renders a failure where it finds it and returns; here the rendered result is the left
  side of the sum.
\<close>

section \<open>Options and results\<close>

record ParsedOptions =
  po_format :: OutputFormat
  po_hostId :: "string option"
  po_repositoryRoot :: string
  po_toolId :: "string option"
  po_reportPath :: "string option"
  po_recordPath :: "string option"
  po_descriptorPath :: "string option"
  po_planPath :: "string option"
  po_setId :: "string option"
  po_setPath :: "string option"
  po_evaluationId :: "string option"
  po_sourcePath :: "string option"
  po_digest :: "string option"
  po_mediaType :: "string option"

text \<open>What a command leaves behind: the exit code and the bytes on the two streams.\<close>

record CommandResult =
  cr_exit :: nat
  cr_output :: bytes
  cr_errors :: bytes

type_synonym 'a stage = "CommandResult + 'a"

definition failCommand :: "Failure \<Rightarrow> OutputFormat \<Rightarrow> CommandResult" where
  "failCommand failure format =
     \<lparr>cr_exit = (if f_code failure = InvalidArguments then 2 else 3), cr_output = [],
      cr_errors = renderFailure failure format\<rparr>"

definition failRecord :: "RecordFailure \<Rightarrow> OutputFormat \<Rightarrow> CommandResult" where
  "failRecord failure format =
     \<lparr>cr_exit = 3, cr_output = (if format = Json then buildRejectionOutput failure else []),
      cr_errors = renderFailure \<lparr>f_code = VerificationFailed,
        f_path = recordRejectionName (rf_rejection failure), f_message = rf_detail failure\<rparr> format\<rparr>"

definition printed :: "bytes \<Rightarrow> CommandResult" where
  "printed output = \<lparr>cr_exit = 0, cr_output = output, cr_errors = []\<rparr>"

text \<open>The early returns of an operation.\<close>

definition orFail :: "ParsedOptions \<Rightarrow> 'a Result \<Rightarrow> 'a stage" where
  "orFail options result = (case result of Inl failure \<Rightarrow> Inl (failCommand failure (po_format options)) | Inr x \<Rightarrow> Inr x)"

definition orFailRecord :: "ParsedOptions \<Rightarrow> 'a RecordResult \<Rightarrow> 'a stage" where
  "orFailRecord options result = (case result of Inl failure \<Rightarrow> Inl (failRecord failure (po_format options)) | Inr x \<Rightarrow> Inr x)"

definition concluded :: "CommandResult stage \<Rightarrow> CommandResult" where
  "concluded s = (case s of Inl refused \<Rightarrow> refused | Inr finished \<Rightarrow> finished)"

section \<open>Reading a record\<close>

definition readRecordBytes :: "Site \<Rightarrow> string \<Rightarrow> bytes Result" where
  "readRecordBytes site path = readSiteFile site path kMaximumRecordBytes"

definition resolveRecordArgument :: "Site \<Rightarrow> ParsedOptions \<Rightarrow> string option \<Rightarrow> string \<Rightarrow> string Result" where
  "resolveRecordArgument site options argument flag =
     (case argument of
        None \<Rightarrow> fail InvalidArguments flag ''a record path is required''
      | Some given \<Rightarrow>
          let candidate = (if starts_with given ''/'' then given else path_append (po_repositoryRoot options) given)
          in case si_canonical site candidate of
               None \<Rightarrow> fail InvalidPath given ''failed to resolve the path''
             | Some resolved \<Rightarrow> Inr resolved)"

definition kAttemptPlanMediaType :: bytes where
  "kAttemptPlanMediaType = ''application/vnd.rawframe.evidence.attempt-plan.v1+json''"
definition kEvaluationReceiptMediaType :: bytes where
  "kEvaluationReceiptMediaType = ''application/vnd.rawframe.evidence.evaluation-receipt.v1+json''"

definition bindRecordKind :: "CanonicalValue \<Rightarrow> bytes RecordResult" where
  "bindRecordKind record =
     rbind (readRecordKind record) (\<lambda>kind.
       if kind = ''raw_run_receipt'' then Inr kRawRunReceiptMediaType
       else if kind = ''evidence_set'' then Inr kEvidenceSetMediaType
       else if kind = ''attempt_plan'' then Inr kAttemptPlanMediaType
       else if kind = ''metric_registry'' then Inr kMetricRegistryMediaType
       else if kind = ''evaluation_policy'' then Inr kEvaluationPolicyMediaType
       else if kind = ''evaluation_receipt'' then Inr kEvaluationReceiptMediaType
       else if kind = ''baseline_record'' then Inr kBaselineRecordMediaType
       else reject RecSchemaInvalid (''record declares an unknown kind: '' @ kind))"

text \<open>The identity member of a record that is gated and reported by identity.\<close>

definition recordIdentity :: "CanonicalValue \<Rightarrow> bytes \<Rightarrow> string \<Rightarrow> string RecordResult" where
  "recordIdentity record name message =
     (case find_member record name of
        None \<Rightarrow> reject RecSchemaInvalid message
      | Some kIdentity \<Rightarrow>
          if value_kind kIdentity \<noteq> KString then reject RecSchemaInvalid message else Inr (value_text kIdentity))"

definition gateRecord :: "Site \<Rightarrow> string \<Rightarrow> string \<Rightarrow> CanonicalValue \<Rightarrow> bytes \<Rightarrow> string RecordResult" where
  "gateRecord site repositoryRoot instancePath record mediaType =
     (let oracle = siteOracle site repositoryRoot
      in if mediaType = kRawRunReceiptMediaType then
           rbind (validateRawRunReceipt oracle repositoryRoot instancePath record mediaType) (\<lambda>summary. Inr (rr_runId summary))
         else if mediaType = kMetricRegistryMediaType then
           rbind (parseMetricRegistry oracle repositoryRoot instancePath record) (\<lambda>registry.
             Inr (''metric registry generation '' @ int_to_string (mr_registryGeneration registry)))
         else if mediaType = kEvaluationPolicyMediaType then
           rbind (parseEvaluationPolicy oracle repositoryRoot instancePath record) (\<lambda>policy.
             Inr (''evaluation policy generation '' @ int_to_string (ep_policyGeneration policy)))
         else if mediaType = kEvaluationReceiptMediaType then
           rbind (checkRecordKind record ''evaluation_receipt'') (\<lambda>_.
           rbind (validateAgainstSchema oracle repositoryRoot ''schemas/evaluation-receipt-v1.schema.json'' instancePath) (\<lambda>_.
           rbind (checkGenerationMatches record mediaType 1) (\<lambda>_.
             recordIdentity record ''evaluationId'' ''evaluation receipt carries no identity'')))
         else if mediaType = kBaselineRecordMediaType then
           rbind (parseBaselineRecord oracle repositoryRoot instancePath record) (\<lambda>baseline. Inr (br_baselineId baseline))
         else
           rbind (checkProducerAuthority record) (\<lambda>_.
             if mediaType = kAttemptPlanMediaType then
               rbind (parseAttemptPlan oracle repositoryRoot instancePath record) (\<lambda>plan.
               rbind (checkGenerationMatches record mediaType 1) (\<lambda>_. Inr (ap_planId plan)))
             else
               rbind (checkRecordKind record ''evidence_set'') (\<lambda>_.
               rbind (validateAgainstSchema oracle repositoryRoot ''schemas/evidence-set-v1.schema.json'' instancePath) (\<lambda>_.
               rbind (checkGenerationMatches record mediaType 1) (\<lambda>_.
                 recordIdentity record ''evidenceSetId'' ''evidence set carries no identity'')))))"

section \<open>Canonicalize\<close>

definition canonicalizeOperation :: "Site \<Rightarrow> ParsedOptions \<Rightarrow> CommandResult" where
  "canonicalizeOperation site options = concluded (
     rbind (orFail options (resolveRecordArgument site options (po_recordPath options) ''--record'')) (\<lambda>recordPath.
     rbind (orFail options (readRecordBytes site recordPath)) (\<lambda>bytes.
     rbind (orFailRecord options (parseCanonicalSubset (su_iterate site) bytes)) (\<lambda>parsed.
     let kCanonical = serializeCanonical parsed
     in
       rbind (orFailRecord options (bindRecordKind parsed)) (\<lambda>mediaType.
       rbind (orFailRecord options (describeBytes (su_provider site) kCanonical mediaType)) (\<lambda>descriptor.
       rbind (orFailRecord options (gateRecord site (po_repositoryRoot options) recordPath parsed (d_mediaType descriptor))) (\<lambda>identity.
       if po_format options = Json then
         (if mediaType = kRawRunReceiptMediaType then
            rbind (orFailRecord options (summarizeRawRunReceipt parsed)) (\<lambda>summary.
              Inr (printed (buildCanonicalizeOutput descriptor summary)))
          else if mediaType = kEvidenceSetMediaType then
            Inr (printed (buildEvidenceSetOutput descriptor parsed ''canonicalize''))
          else Inr (printed (serializeCanonical (describeAsValue descriptor))))
       else Inr (printed kCanonical))))))))"

section \<open>Validate\<close>

text \<open>The descriptor of the record: the one supplied, once it describes these bytes, or the computed one.\<close>

definition recordDescriptor :: "Site \<Rightarrow> ParsedOptions \<Rightarrow> bytes \<Rightarrow> bytes \<Rightarrow> Descriptor stage" where
  "recordDescriptor site options bytes kMediaType =
     (if po_descriptorPath options \<noteq> None then
        rbind (orFail options (resolveRecordArgument site options (po_descriptorPath options) ''--descriptor'')) (\<lambda>descriptorPath.
        rbind (orFail options (readRecordBytes site descriptorPath)) (\<lambda>descriptorBytes.
        rbind (orFailRecord options (ingestCanonicalBytes (su_iterate site) descriptorBytes)) (\<lambda>descriptorValue.
        rbind (orFailRecord options (parseDescriptor descriptorValue)) (\<lambda>supplied.
        rbind (orFailRecord options (verifyDescriptor (su_provider site) supplied bytes kMediaType)) (\<lambda>_. Inr supplied)))))
      else orFailRecord options (describeBytes (su_provider site) bytes kMediaType))"

definition storeRoot :: "ParsedOptions \<Rightarrow> string" where
  "storeRoot options = path_append (po_repositoryRoot options) kBlobStoreRelativeRoot"

definition preparedTools :: "ParsedOptions \<Rightarrow> string" where
  "preparedTools options =
     (case po_hostId options of
        None \<Rightarrow> []
      | Some hostId \<Rightarrow>
          path_append (path_append (path_append (path_append (po_repositoryRoot options) ''out'') ''prepared'') hostId) ''tools'')"

definition provenanceOf :: "Site \<Rightarrow> ParsedOptions \<Rightarrow> CanonicalValue \<Rightarrow> TrustClass Result" where
  "provenanceOf site options record =
     (case deriveRecordTrustClass (surroundings site) record (preparedTools options) (storeRoot options) [] of
        Inl failure \<Rightarrow> fail VerificationFailed ''trust.provenance''
          (trustRejectionName (tf_rejection failure) @ '': '' @ tf_detail failure)
      | Inr trustClass \<Rightarrow> Inr trustClass)"

definition validateRecordOperation :: "Site \<Rightarrow> ParsedOptions \<Rightarrow> CommandResult" where
  "validateRecordOperation site options = concluded (
     rbind (orFail options (resolveRecordArgument site options (po_recordPath options) ''--record'')) (\<lambda>recordPath.
     rbind (orFail options (readRecordBytes site recordPath)) (\<lambda>bytes.
     rbind (orFailRecord options (ingestCanonicalBytes (su_iterate site) bytes)) (\<lambda>record.
     rbind (orFailRecord options (bindRecordKind record)) (\<lambda>kMediaType.
     rbind (recordDescriptor site options bytes kMediaType) (\<lambda>descriptor.
     rbind (orFailRecord options (gateRecord site (po_repositoryRoot options) recordPath record (d_mediaType descriptor))) (\<lambda>identity.
     rbind (orFail options (provenanceOf site options record)) (\<lambda>trustClass.
     if po_format options = Json then
       (if kMediaType = kRawRunReceiptMediaType then
          rbind (orFailRecord options (summarizeRawRunReceipt record)) (\<lambda>summary.
            Inr (printed (buildValidateOutput descriptor summary)))
        else if kMediaType = kEvidenceSetMediaType then
          Inr (printed (buildEvidenceSetOutput descriptor record ''validate''))
        else Inr (printed (serializeCanonical (describeAsValue descriptor))))
     else Inr (printed (renderSuccess ''validate_record''
       (identity @ '' is canonical and valid, provenance '' @ trustClassName trustClass) (po_format options)))))))))))"

section \<open>Assemble\<close>

definition benchOf :: "Site \<Rightarrow> BlobStore \<Rightarrow> Workbench" where
  "benchOf site store = \<lparr>wb_store = store, wb_evp = su_provider site, wb_iterate = su_iterate site\<rparr>"

definition assembleOperation :: "Site \<Rightarrow> BlobStore \<Rightarrow> ParsedOptions \<Rightarrow> CommandResult" where
  "assembleOperation site store options = concluded (
     rbind (orFail options (resolveRecordArgument site options (po_planPath options) ''--plan'')) (\<lambda>planPath.
     rbind (orFail options (readRecordBytes site planPath)) (\<lambda>bytes.
     rbind (orFailRecord options (ingestCanonicalBytes (su_iterate site) bytes)) (\<lambda>plan.
     rbind (orFailRecord options (parseAttemptPlan (siteOracle site (po_repositoryRoot options))
         (po_repositoryRoot options) planPath plan)) (\<lambda>parsed.
     rbind (orFail options (case po_setId options of
         None \<Rightarrow> fail InvalidArguments ''--set-id'' ''an evidence set identity is required''
       | Some setId \<Rightarrow> Inr setId)) (\<lambda>setId.
     rbind (orFailRecord options (assembleEvidenceSet (benchOf site store) parsed setId)) (\<lambda>assembled.
       Inr (printed (serializeCanonical assembled)))))))))"

section \<open>The maintained authorities\<close>

record LoadedAuthorities =
  la_registries :: "MetricRegistry list"
  la_registryDescriptors :: "Descriptor list"
  la_policies :: "EvaluationPolicy list"
  la_policyDescriptors :: "Descriptor list"
  la_metricCount :: nat
  la_boundEntryCount :: nat

definition noneLoaded :: LoadedAuthorities where
  "noneLoaded = \<lparr>la_registries = [], la_registryDescriptors = [], la_policies = [], la_policyDescriptors = [],
     la_metricCount = 0, la_boundEntryCount = 0\<rparr>"

definition loadAuthority ::
  "Site \<Rightarrow> ParsedOptions \<Rightarrow> string \<Rightarrow> LoadedAuthorities \<Rightarrow> EvidenceAuthorityInfo \<Rightarrow> LoadedAuthorities stage" where
  "loadAuthority site options snapshotRoot loaded authority =
     (let kPath = path_append snapshotRoot (ea_path authority);
          oracle = siteOracle site (po_repositoryRoot options)
      in rbind (orFail options (readRecordBytes site kPath)) (\<lambda>bytes.
         rbind (orFailRecord options (ingestCanonicalBytes (su_iterate site) bytes)) (\<lambda>record.
         rbind (orFailRecord options (describeBytes (su_provider site) bytes (ea_mediaType authority))) (\<lambda>descriptor.
         if ea_authorityClass authority = ''metric_registry'' then
           rbind (orFailRecord options (parseMetricRegistry oracle (po_repositoryRoot options) kPath record)) (\<lambda>registry.
             Inr (loaded\<lparr>la_metricCount := la_metricCount loaded + length (mr_metrics registry),
               la_registries := la_registries loaded @ [registry],
               la_registryDescriptors := la_registryDescriptors loaded @ [descriptor]\<rparr>))
         else
           rbind (orFailRecord options (parseEvaluationPolicy oracle (po_repositoryRoot options) kPath record)) (\<lambda>policy.
             Inr (loaded\<lparr>la_policies := la_policies loaded @ [policy],
               la_policyDescriptors := la_policyDescriptors loaded @ [descriptor]\<rparr>))))))"

definition matchRegistry :: "EvaluationPolicy \<Rightarrow> MetricRegistry option \<Rightarrow> MetricRegistry \<Rightarrow> MetricRegistry option RecordResult" where
  "matchRegistry policy matched candidate =
     (if mr_registryGeneration candidate \<noteq> ep_metricRegistryGeneration policy then Inr matched
      else if matched \<noteq> None then reject RecSchemaInvalid ''two registries claim one generation''
      else Inr (Some candidate))"

definition bindLoaded :: "LoadedAuthorities \<Rightarrow> EvaluationPolicy \<Rightarrow> LoadedAuthorities RecordResult" where
  "bindLoaded loaded policy =
     rbind (rfold (matchRegistry policy) None (la_registries loaded)) (\<lambda>matched.
     case matched of
       None \<Rightarrow> reject RecSchemaInvalid ''no registry exists at the generation a policy names''
     | Some registry \<Rightarrow>
         rbind (bindPolicyToRegistry policy registry) (\<lambda>bound.
           Inr (loaded\<lparr>la_boundEntryCount := la_boundEntryCount loaded + length bound\<rparr>)))"

definition loadAuthorities :: "Site \<Rightarrow> ParsedOptions \<Rightarrow> RepositorySnapshot \<Rightarrow> LoadedAuthorities stage" where
  "loadAuthorities site options snapshot =
     rbind (rfold (loadAuthority site options (sn_root snapshot)) noneLoaded (sn_evidenceAuthorities snapshot)) (\<lambda>loaded.
       orFailRecord options (rfold bindLoaded loaded (la_policies loaded)))"

definition loadEvidenceIndexOperation :: "Site \<Rightarrow> ParsedOptions \<Rightarrow> CommandResult" where
  "loadEvidenceIndexOperation site options = concluded (
     rbind (orFail options (validateRepository site (po_repositoryRoot options))) (\<lambda>snapshot.
     rbind (loadAuthorities site options snapshot) (\<lambda>loaded.
     if po_format options = Json then
       Inr (printed (serializeCanonical (makeObject
         [(''index'', CString (sn_evidenceIndexPath snapshot)),
          (''authorityCount'', CInteger (int (length (sn_evidenceAuthorities snapshot)))),
          (''metricCount'', CInteger (int (la_metricCount loaded))),
          (''boundEntryCount'', CInteger (int (la_boundEntryCount loaded))),
          (''ok'', CBoolean True)])))
     else Inr (printed (renderSuccess ''load_evidence_index''
       (nat_to_string (length (sn_evidenceAuthorities snapshot)) @ '' maintained evidence authority(ies) valid, '' @
        nat_to_string (la_boundEntryCount loaded) @ '' policy entry(ies) bound'') (po_format options))))))"

section \<open>Evaluate\<close>

text \<open>The registry an evaluation uses: the last one at the generation the policy names.\<close>

definition registryFor :: "LoadedAuthorities \<Rightarrow> EvaluationPolicy \<Rightarrow> (MetricRegistry \<times> Descriptor) option" where
  "registryFor loaded kPolicy =
     List.find (\<lambda>(candidate, descriptor). mr_registryGeneration candidate = ep_metricRegistryGeneration kPolicy)
       (rev (zip (la_registries loaded) (la_registryDescriptors loaded)))"

definition chosenAuthorities :: "LoadedAuthorities \<Rightarrow> (EvaluationPolicy \<times> MetricRegistry \<times> Descriptor) RecordResult" where
  "chosenAuthorities loaded =
     (if length (la_policies loaded) \<noteq> 1
      then reject RecSchemaInvalid ''evaluation needs exactly one maintained evaluation policy''
      else case registryFor loaded (hd (la_policies loaded)) of
        None \<Rightarrow> reject RecSchemaInvalid ''no registry exists at the generation the policy names''
      | Some (registry, registryDescriptor) \<Rightarrow> Inr (hd (la_policies loaded), registry, registryDescriptor))"

text \<open>The receipt, or the refusal that ended the evaluation without one.\<close>

definition evaluatedReceipt :: "Site \<Rightarrow> BlobStore \<Rightarrow> ParsedOptions \<Rightarrow> CanonicalValue stage" where
  "evaluatedReceipt site store options =
     rbind (orFail options (case po_evaluationId options of
         None \<Rightarrow> fail InvalidArguments ''--evaluation-id'' ''an evaluation identity is required''
       | Some evaluationId \<Rightarrow> Inr evaluationId)) (\<lambda>evaluationId.
     rbind (orFail options (resolveRecordArgument site options (po_setPath options) ''--set'')) (\<lambda>setPath.
     rbind (orFail options (validateRepository site (po_repositoryRoot options))) (\<lambda>snapshot.
     rbind (loadAuthorities site options snapshot) (\<lambda>loaded.
     rbind (orFailRecord options (chosenAuthorities loaded)) (\<lambda>(kPolicy, registry, registryDescriptor).
     rbind (orFail options (readRecordBytes site setPath)) (\<lambda>bytes.
     rbind (orFailRecord options (describeBytes (su_provider site) bytes kEvidenceSetMediaType)) (\<lambda>descriptor.
     rbind (orFailRecord options (ingestCanonicalBytes (su_iterate site) bytes)) (\<lambda>evidenceSet.
       orFailRecord options (evaluateEvidenceSet (benchOf site store) (siteOracle site (po_repositoryRoot options))
         \<lparr>ei_repositoryRoot = po_repositoryRoot options, ei_evidenceSetPath = setPath,
          ei_evidenceSetDescriptor = descriptor, ei_metricRegistryDescriptor = registryDescriptor,
          ei_evaluationPolicyDescriptor = hd (la_policyDescriptors loaded)\<rparr>
         evidenceSet registry kPolicy evaluationId)))))))))"

text \<open>The exit code projects the verdict of the receipt.\<close>

definition verdictExit :: "CanonicalValue \<Rightarrow> nat" where
  "verdictExit receipt =
     (case find_member receipt ''verdict'' of
        None \<Rightarrow> 0
      | Some kVerdict \<Rightarrow>
          (case find_member kVerdict ''outcome'' of
             None \<Rightarrow> 0
           | Some kOutcome \<Rightarrow> if value_text kOutcome = ''failed'' then 4 else 0))"

definition evaluateOperation :: "Site \<Rightarrow> BlobStore \<Rightarrow> ParsedOptions \<Rightarrow> CommandResult" where
  "evaluateOperation site store options = concluded (
     rbind (evaluatedReceipt site store options) (\<lambda>receipt.
       Inr (printed (serializeCanonical receipt)\<lparr>cr_exit := verdictExit receipt\<rparr>)))"

section \<open>Refusals\<close>

text \<open>A stage that refuses leaves the exit code 2 or 3.\<close>

definition refuses_only :: "'a stage \<Rightarrow> bool" where
  "refuses_only s \<longleftrightarrow> (case s of Inl r \<Rightarrow> cr_exit r = 2 \<or> cr_exit r = 3 | Inr _ \<Rightarrow> True)"

lemma refuses_only_simps [simp]: "refuses_only (Inr x)" "refuses_only (orFail options r)" "refuses_only (orFailRecord options q)"
  by (auto simp: refuses_only_def orFail_def orFailRecord_def failCommand_def failRecord_def split: sum.split)

lemma refuses_only_rbind [intro]: "refuses_only s \<Longrightarrow> (\<And>x. refuses_only (f x)) \<Longrightarrow> refuses_only (rbind s f)"
  by (cases s) (auto simp: refuses_only_def)

lemma refuses_only_rfold [intro]: "(\<And>s x. refuses_only (f s x)) \<Longrightarrow> refuses_only (rfold f s xs)"
  by (induction xs arbitrary: s) auto

lemma orFail_Inr [simp]: "orFail options r = Inr x \<longleftrightarrow> r = Inr x" "orFailRecord options q = Inr y \<longleftrightarrow> q = Inr y"
  by (auto simp: orFail_def orFailRecord_def split: sum.splits)

lemma refuses_loadAuthorities: "refuses_only (loadAuthorities site options snapshot)"
  unfolding loadAuthorities_def loadAuthority_def Let_def by (auto intro!: refuses_only_rbind refuses_only_rfold)

lemma refuses_evaluatedReceipt: "refuses_only (evaluatedReceipt site store options)"
  unfolding evaluatedReceipt_def
  by (intro refuses_only_rbind refuses_loadAuthorities refuses_only_simps) (auto split: prod.split intro!: refuses_only_rbind)

section \<open>What the loaded authorities are\<close>

text \<open>The registries at the generation a policy names.\<close>

definition registries_for :: "LoadedAuthorities \<Rightarrow> EvaluationPolicy \<Rightarrow> MetricRegistry list" where
  "registries_for loaded policy =
     filter (\<lambda>r. mr_registryGeneration r = ep_metricRegistryGeneration policy) (la_registries loaded)"

lemma matchRegistry_fold:
  "rfold (matchRegistry policy) matched rs = Inr found \<longleftrightarrow>
     (case filter (\<lambda>r. mr_registryGeneration r = ep_metricRegistryGeneration policy) rs of
        [] \<Rightarrow> found = matched
      | [r] \<Rightarrow> matched = None \<and> found = Some r
      | _ \<Rightarrow> False)"
  by (induction rs arbitrary: matched) (auto simp: matchRegistry_def split: list.splits)

text \<open>Every policy has one registry at its generation, and the counts are those of what was loaded.\<close>

definition policy_bound :: "LoadedAuthorities \<Rightarrow> EvaluationPolicy \<Rightarrow> bool" where
  "policy_bound loaded policy \<longleftrightarrow>
     (\<exists>registry bound. registries_for loaded policy = [registry] \<and> bindPolicyToRegistry policy registry = Inr bound)"

lemma bindLoaded_ok:
  assumes "bindLoaded loaded policy = Inr loaded'"
  shows "policy_bound loaded policy \<and>
    loaded' = loaded\<lparr>la_boundEntryCount := la_boundEntryCount loaded + length (ep_entries policy)\<rparr>"
proof -
  from assms obtain registry bound where "rfold (matchRegistry policy) None (la_registries loaded) = Inr (Some registry)"
    and bound: "bindPolicyToRegistry policy registry = Inr bound"
    and loaded': "loaded' = loaded\<lparr>la_boundEntryCount := la_boundEntryCount loaded + length bound\<rparr>"
    by (auto simp: bindLoaded_def rbind_Inr_iff split: option.split_asm)
  then have "registries_for loaded policy = [registry]"
    by (auto simp: matchRegistry_fold registries_for_def split: list.split_asm)
  moreover have "length bound = length (ep_entries policy)"
    using bound by (auto simp: bindPolicy_iff dest: list_all2_lengthD)
  ultimately show ?thesis
    using bound loaded' by (auto simp: policy_bound_def)
qed

lemma bindLoaded_fold:
  "rfold bindLoaded loaded policies = Inr loaded' \<Longrightarrow>
     list_all (policy_bound loaded) policies \<and>
     loaded' = loaded\<lparr>la_boundEntryCount := la_boundEntryCount loaded + sum_list (map (length \<circ> ep_entries) policies)\<rparr>"
proof (induction policies arbitrary: loaded)
  case (Cons policy policies)
  then obtain one where one: "bindLoaded loaded policy = Inr one" and rest: "rfold bindLoaded one policies = Inr loaded'"
    by (auto simp: rbind_Inr_iff)
  have "policy_bound one = policy_bound loaded"
    using bindLoaded_ok [OF one] by (auto simp: policy_bound_def registries_for_def)
  then show ?case
    using Cons.IH [OF rest] bindLoaded_ok [OF one] by simp
qed simp

definition loaded_ok :: "LoadedAuthorities \<Rightarrow> bool" where
  "loaded_ok loaded \<longleftrightarrow>
     length (la_registryDescriptors loaded) = length (la_registries loaded) \<and>
     length (la_policyDescriptors loaded) = length (la_policies loaded) \<and>
     la_metricCount loaded = sum_list (map (length \<circ> mr_metrics) (la_registries loaded))"

lemma loadAuthority_ok:
  assumes "loadAuthority site options root loaded authority = Inr loaded'" and "loaded_ok loaded"
  shows "loaded_ok loaded' \<and> la_boundEntryCount loaded' = la_boundEntryCount loaded \<and>
    length (la_registries loaded') + length (la_policies loaded') =
      Suc (length (la_registries loaded) + length (la_policies loaded))"
  using assms by (auto simp: loadAuthority_def loaded_ok_def Let_def rbind_Inr_iff split: if_split_asm)

lemma loadAuthority_fold:
  "rfold (loadAuthority site options root) loaded as = Inr loaded' \<Longrightarrow> loaded_ok loaded \<Longrightarrow>
     loaded_ok loaded' \<and> la_boundEntryCount loaded' = la_boundEntryCount loaded \<and>
     length (la_registries loaded') + length (la_policies loaded') =
       length as + length (la_registries loaded) + length (la_policies loaded)"
proof (induction as arbitrary: loaded)
  case (Cons a as)
  then obtain one where one: "loadAuthority site options root loaded a = Inr one"
    and rest: "rfold (loadAuthority site options root) one as = Inr loaded'"
    by (auto simp: rbind_Inr_iff)
  show ?case using Cons.IH [OF rest] loadAuthority_ok [OF one Cons.prems(2)] by simp
qed simp

lemma loadAuthorities_ok:
  assumes "loadAuthorities site options snapshot = Inr loaded"
  shows "loaded_ok loaded" and "list_all (policy_bound loaded) (la_policies loaded)"
    and "la_boundEntryCount loaded = sum_list (map (length \<circ> ep_entries) (la_policies loaded))"
    and "length (la_registries loaded) + length (la_policies loaded) = length (sn_evidenceAuthorities snapshot)"
proof -
  from assms obtain read where
    read: "rfold (loadAuthority site options (sn_root snapshot)) noneLoaded (sn_evidenceAuthorities snapshot) = Inr read"
    and bind: "rfold bindLoaded read (la_policies read) = Inr loaded"
    by (auto simp: loadAuthorities_def rbind_Inr_iff)
  have "loaded_ok noneLoaded" by (simp add: loaded_ok_def noneLoaded_def)
  note facts = loadAuthority_fold [OF read this] bindLoaded_fold [OF bind]
  have "policy_bound read = policy_bound loaded"
    using facts(2) by (auto simp: policy_bound_def registries_for_def)
  then show "loaded_ok loaded" "list_all (policy_bound loaded) (la_policies loaded)"
    "la_boundEntryCount loaded = sum_list (map (length \<circ> ep_entries) (la_policies loaded))"
    "length (la_registries loaded) + length (la_policies loaded) = length (sn_evidenceAuthorities snapshot)"
    using facts by (auto simp: loaded_ok_def noneLoaded_def)
qed

lemma filter_single_find:
  "filter P xs = [x] \<Longrightarrow> List.find P xs = Some x"
  by (induction xs) (auto split: if_splits)

lemma registryFor_unique:
  assumes "loaded_ok loaded" and "registries_for loaded policy = [registry]"
  shows "\<exists>descriptor. registryFor loaded policy = Some (registry, descriptor)"
proof -
  let ?P = "\<lambda>(candidate, descriptor :: Descriptor). mr_registryGeneration candidate = ep_metricRegistryGeneration policy"
  let ?z = "zip (la_registries loaded) (la_registryDescriptors loaded)"
  have "map fst (filter ?P ?z) = filter (\<lambda>r. mr_registryGeneration r = ep_metricRegistryGeneration policy) (map fst ?z)"
    by (simp add: filter_map comp_def case_prod_beta')
  then have "map fst (filter ?P ?z) = [registry]"
    using assms by (simp add: loaded_ok_def registries_for_def)
  then obtain descriptor where "filter ?P ?z = [(registry, descriptor)]"
    by (auto simp: map_eq_Cons_conv)
  then have "filter ?P (rev ?z) = [(registry, descriptor)]"
    by (simp add: rev_filter [symmetric])
  then show ?thesis
    unfolding registryFor_def by (intro exI [where x = descriptor] filter_single_find)
qed

section \<open>The verdict is the exit code\<close>

text \<open>
  What an evaluation is of: the one policy and the one registry of the repository, the set at the path given, the
  runs its eligible attempts name, and the receipt.
\<close>

definition evaluates ::
  "Site \<Rightarrow> BlobStore \<Rightarrow> ParsedOptions \<Rightarrow> BoundPolicyEntry list \<Rightarrow> EligibleRun list \<Rightarrow> CanonicalValue \<Rightarrow> bool" where
  "evaluates site store options bound runs receipt \<longleftrightarrow>
     (\<exists>snapshot loaded policy registry setPath bytes evidenceSet eligible.
        validateRepository site (po_repositoryRoot options) = Inr snapshot \<and>
        loadAuthorities site options snapshot = Inr loaded \<and>
        la_policies loaded = [policy] \<and> registries_for loaded policy = [registry] \<and>
        bindPolicyToRegistry policy registry = Inr bound \<and>
        resolveRecordArgument site options (po_setPath options) ''--set'' = Inr setPath \<and>
        readRecordBytes site setPath = Inr bytes \<and> ingestCanonicalBytes (su_iterate site) bytes = Inr evidenceSet \<and>
        readEligibleAttempts evidenceSet = Inr eligible \<and>
        rmap (loadRun (benchOf site store) (siteOracle site (po_repositoryRoot options)) (po_repositoryRoot options) registry)
          eligible = Inr runs \<and>
        evaluatedReceipt site store options = Inr receipt)"

lemma evaluatedReceipt_evaluates:
  assumes "evaluatedReceipt site store options = Inr receipt"
  shows "\<exists>bound runs. evaluates site store options bound runs receipt \<and>
    verdictExit receipt = (if list_all (passes runs) bound then 0 else 4)"
proof -
  from assms obtain evaluationId setPath snapshot loaded policy registry registryDescriptor bytes descriptor evidenceSet where
    snapshot: "validateRepository site (po_repositoryRoot options) = Inr snapshot"
    and path: "resolveRecordArgument site options (po_setPath options) ''--set'' = Inr setPath"
    and loaded: "loadAuthorities site options snapshot = Inr loaded"
    and chosen: "chosenAuthorities loaded = Inr (policy, registry, registryDescriptor)"
    and bytes: "readRecordBytes site setPath = Inr bytes" "ingestCanonicalBytes (su_iterate site) bytes = Inr evidenceSet"
    and receipt: "evaluateEvidenceSet (benchOf site store) (siteOracle site (po_repositoryRoot options))
         \<lparr>ei_repositoryRoot = po_repositoryRoot options, ei_evidenceSetPath = setPath,
          ei_evidenceSetDescriptor = descriptor, ei_metricRegistryDescriptor = registryDescriptor,
          ei_evaluationPolicyDescriptor = hd (la_policyDescriptors loaded)\<rparr>
         evidenceSet registry policy evaluationId = Inr receipt"
    by (auto simp: evaluatedReceipt_def rbind_Inr_iff)
  have policy: "la_policies loaded = [policy]" and found: "registryFor loaded policy = Some (registry, registryDescriptor)"
    using chosen by (auto simp: chosenAuthorities_def length_Suc_conv split: if_split_asm option.split_asm)
  obtain registry' where "registries_for loaded policy = [registry']"
    using loadAuthorities_ok(2) [OF loaded] policy by (auto simp: policy_bound_def)
  with registryFor_unique [OF loadAuthorities_ok(1) [OF loaded] this] found
  have registry: "registries_for loaded policy = [registry]" by auto
  from receipt_verdict [OF receipt] obtain bound eligible runs verdict where
    run: "bindPolicyToRegistry policy registry = Inr bound" "readEligibleAttempts evidenceSet = Inr eligible"
      "rmap (loadRun (benchOf site store) (siteOracle site (po_repositoryRoot options)) (po_repositoryRoot options) registry)
        eligible = Inr runs"
    and verdict: "find_member receipt ''verdict'' = Some verdict"
      "find_member verdict ''outcome'' = Some (CString (if \<forall>b\<in>set bound. passes runs b then ''passed'' else ''failed''))"
    by auto
  have "evaluates site store options bound runs receipt"
    unfolding evaluates_def using snapshot loaded policy registry run path bytes assms by blast
  moreover have "verdictExit receipt = (if list_all (passes runs) bound then 0 else 4)"
    using verdict by (simp add: verdictExit_def list_all_iff)
  ultimately show ?thesis by blast
qed

lemma evaluates_unique:
  "evaluates site store options bound runs receipt \<Longrightarrow> evaluates site store options bound' runs' receipt' \<Longrightarrow>
     bound' = bound \<and> runs' = runs \<and> receipt' = receipt"
  by (auto simp: evaluates_def)


section \<open>What canonicalize and validate print\<close>

text \<open>A conclusion with exit code 0 is not a refusal.\<close>

lemma concluded_exit_0: "refuses_only s \<Longrightarrow> cr_exit (concluded s) = 0 \<Longrightarrow> s = Inr (concluded s)"
  by (cases s) (auto simp: refuses_only_def concluded_def)

text \<open>Without the machine-readable format, canonicalize prints the canonical bytes of a record within the limits.\<close>

lemma canonicalize_prints_canonical_bytes:
  assumes "cr_exit (canonicalizeOperation site options) = 0" and "po_format options = Human"
  shows "\<exists>record. cr_output (canonicalizeOperation site options) = serializeCanonical record \<and> record_ok record"
proof -
  note finished = concluded_exit_0 [OF _ assms(1) [unfolded canonicalizeOperation_def], folded canonicalizeOperation_def]
  have "\<exists>bytes parsed. parseCanonicalSubset (su_iterate site) bytes = Inr parsed \<and>
      canonicalizeOperation site options = printed (serializeCanonical parsed)"
    by (insert finished, drule meta_mp) (auto simp: Let_def rbind_Inr_iff assms(2) intro!: refuses_only_rbind dest: sym)
  then show ?thesis
    using parsed_record_within_limits by (auto simp: printed_def)
qed

end
