(* ===== verification/Evidence_Store.thy ===== *)
theory Evidence_Store
  imports Evidence_Blob
begin

text \<open>
  What the content-addressed store promises.  Whatever the operating system fails and whatever other
  processes do, what a read returns is what its name says; as long as the others keep the rules of the
  store, every file at a path derived from a digest holds content with that digest, no operation ever
  changes such a file, and an operation that reports an identity has it in place; and on a quiet host
  what was put is what is read back.
\<close>

section \<open>Paths of blobs\<close>

lemma pathFor_Inr:
  "pathFor root d = Inr p \<longleftrightarrow>
     (\<exists>hex. d = kDigestPrefix @ hex \<and> length hex = 64 \<and> isLowercaseHex hex \<and>
        p = root @ ''/sha256/'' @ take 2 hex @ ''/'' @ drop 2 hex)"
proof
  assume path: "pathFor root d = Inr p"
  then have "length d = 71" and "starts_with d kDigestPrefix" and "isLowercaseHex (drop (length kDigestPrefix) d)"
    and p: "p = root @ ''/sha256/'' @ take 2 (drop (length kDigestPrefix) d) @ ''/'' @ drop 2 (drop (length kDigestPrefix) d)"
    by (auto simp: pathFor_def validateBlobDigest_def kDigestTextLength_def kBucketNameLength_def Let_def split: if_splits)
  then obtain hex where "d = kDigestPrefix @ hex" and "length hex = 64" and "isLowercaseHex hex"
    by (auto simp: starts_with_iff kDigestPrefix_def)
  then show "\<exists>hex. d = kDigestPrefix @ hex \<and> length hex = 64 \<and> isLowercaseHex hex \<and>
      p = root @ ''/sha256/'' @ take 2 hex @ ''/'' @ drop 2 hex"
    using p by auto
qed (auto simp: pathFor_def validateBlobDigest_def kDigestTextLength_def kBucketNameLength_def kDigestPrefix_def Let_def)

lemma pathFor_length: "pathFor root d = Inr p \<Longrightarrow> length p = length root + 73"
  by (auto simp: pathFor_Inr)

lemma pathFor_inj: "pathFor root d = Inr p \<Longrightarrow> pathFor root e = Inr p \<Longrightarrow> d = e"
  by (auto simp: pathFor_Inr) (metis append_take_drop_id append_eq_append_conv length_take)

definition blob_path :: "string \<Rightarrow> string \<Rightarrow> bool" where
  "blob_path root p \<longleftrightarrow> (\<exists>d. pathFor root d = Inr p)"

text \<open>The names this process stages under.\<close>

definition own_staged :: "Machine \<Rightarrow> string \<Rightarrow> string \<Rightarrow> bool" where
  "own_staged mc root p \<longleftrightarrow> (\<exists>q k a. blob_path root q \<and>
     p = q @ ''.'' @ nat_to_string (mc_process mc) @ ''.'' @ nat_to_string k @ ''.'' @ nat_to_string a @ ''.tmp'')"

lemma own_staged_no_blob: "own_staged mc root p \<Longrightarrow> \<not> blob_path root p"
  by (auto simp: own_staged_def blob_path_def dest!: pathFor_length)

section \<open>Measuring\<close>

definition holds_digest :: "Provider \<Rightarrow> bytes \<Rightarrow> bytes \<Rightarrow> bool" where
  "holds_digest evp d b \<longleftrightarrow>
     (\<exists>digest. evp_final evp b = Some digest \<and> length digest = 32 \<and> d = kDigestPrefix @ hex_text digest)"

lemma concat_chunks_of: "0 < n \<Longrightarrow> concat (chunks_of n b) = b"
  by (induction n b rule: chunks_of.induct) (subst chunks_of.simps, auto)

lemma kSha256ChunkBytes_pos [simp]: "0 < kSha256ChunkBytes"
  by (simp add: kSha256ChunkBytes_def)

lemma measureChunk_ok:
  assumes "measureChunk evp s (digest, n) chunk = Inr (digest', n')"
  shows "digest' = digest\<lparr>s_content := s_content digest @ chunk\<rparr>" and "n' = n + length chunk"
    and "n \<le> kMaximumBlobBytes \<Longrightarrow> n' \<le> kMaximumBlobBytes"
  using assms update_content(1) [of evp digest chunk digest']
  by (auto simp: measureChunk_def split: if_splits sum.splits)

lemma measureChunks_ok:
  "rfold (measureChunk evp s) (digest, n) chunks = Inr (digest', n') \<Longrightarrow> n \<le> kMaximumBlobBytes \<Longrightarrow>
     digest' = digest\<lparr>s_content := s_content digest @ concat chunks\<rparr> \<and> n' = n + length (concat chunks) \<and>
     n' \<le> kMaximumBlobBytes"
proof (induction chunks arbitrary: digest n)
  case (Cons chunk chunks)
  from Cons.prems(1) obtain d1 n1 where one: "measureChunk evp s (digest, n) chunk = Inr (d1, n1)"
    and rest: "rfold (measureChunk evp s) (d1, n1) chunks = Inr (digest', n')"
    by auto
  from Cons.IH [OF rest measureChunk_ok(3) [OF one Cons.prems(2)]] measureChunk_ok(1,2) [OF one]
  show ?case by simp
qed simp

lemma measureReads_ok:
  assumes "measureReads evp s reads = Inr identity"
  shows "fr_opens reads" and "fr_eof reads" and "holds_digest evp (bi_digest identity) (concat (fr_chunks reads))"
    and "bi_byteLength identity = length (concat (fr_chunks reads))" and "bi_byteLength identity \<le> kMaximumBlobBytes"
proof -
  from assms obtain digest digest' n hex where begin': "sha256_begin evp (sha256_stream evp s) = Inr digest"
    and chunks: "rfold (measureChunk evp s) (digest, 0) (fr_chunks reads) = Inr (digest', n)"
    and finish: "fst (sha256_finish evp digest') = Inr hex"
    and identity: "identity = \<lparr>bi_byteLength = n, bi_digest = kDigestPrefix @ hex\<rparr>"
    and flags: "fr_opens reads" "fr_eof reads"
    by (auto simp: measureReads_def split: if_splits sum.splits)
  have fed: "s_content digest = []"
    using begin' by (auto simp: sha256_begin_def sha256_stream_def split: if_splits)
  have done': "digest' = digest\<lparr>s_content := concat (fr_chunks reads)\<rparr>" "n = length (concat (fr_chunks reads))"
    "n \<le> kMaximumBlobBytes"
    using measureChunks_ok [OF chunks] fed by auto
  then have "holds_digest evp (kDigestPrefix @ hex) (concat (fr_chunks reads))"
    using finish by (auto simp: sha256_finish_def holds_digest_def Let_def split: if_splits option.splits)
  then show "fr_opens reads" "fr_eof reads" "holds_digest evp (bi_digest identity) (concat (fr_chunks reads))"
    "bi_byteLength identity = length (concat (fr_chunks reads))" "bi_byteLength identity \<le> kMaximumBlobBytes"
    using flags done' by (simp_all add: identity)
qed

section \<open>What a read returns is what its name says\<close>

text \<open>The interface of a store whose names say what they name.\<close>

locale content_addressed =
  fixes get :: "'d \<Rightarrow> 'h \<Rightarrow> ('e + 'b) \<times> 'h" and named :: "'d \<Rightarrow> 'b \<Rightarrow> bool"
  assumes get_named: "get d h = (Inr b, h') \<Longrightarrow> named d b"
begin

lemma reads_agree:
  "(\<And>b b'. named d b \<Longrightarrow> named d b' \<Longrightarrow> b = b') \<Longrightarrow> get d h = (Inr b, h1) \<Longrightarrow> get d k = (Inr b', k1) \<Longrightarrow> b = b'"
  by (blast dest: get_named)

end

lemma sbind_Inr:
  "sbind m f h = (Inr y, h') \<longleftrightarrow> (\<exists>x h1. m h = (Inr x, h1) \<and> f x h1 = (Inr y, h'))"
  by (auto simp: sbind_def split: prod.splits sum.splits)

lemma answer_Inr [simp]: "answer r h = (Inr x, h') \<longleftrightarrow> r = Inr x \<and> h' = h"
  by (auto simp: answer_def)

lemma verifyBlob_digest:
  "verifyBlob mc root digest h = (Inr identity, h') \<Longrightarrow>
     bi_digest identity = digest \<and> bi_byteLength identity \<le> kMaximumBlobBytes"
  by (auto simp: verifyBlob_def sbind_Inr measureFile_def measureReads_ok(5) split: if_splits prod.splits)

lemma getBlob_result:
  assumes "getBlob mc root digest h = (Inr bytes, h')"
  shows "\<exists>hex. sha256Bytes (mc_provider mc) bytes = Inr hex \<and> digest = kDigestPrefix @ hex"
    and "length bytes \<le> kMaximumBlobBytes"
proof -
  from assms obtain identity h1 path where verified: "verifyBlob mc root digest h = (Inr identity, h1)"
    and reread: "rereadBlob mc path identity h1 = (Inr bytes, h')"
    by (auto simp: getBlob_def sbind_Inr)
  note checked = verifyBlob_digest [OF verified]
  from reread checked show "\<exists>hex. sha256Bytes (mc_provider mc) bytes = Inr hex \<and> digest = kDigestPrefix @ hex"
    by (fastforce simp: rereadBlob_def Let_def split: prod.splits if_splits sum.splits)
  from reread have "length bytes \<le> bi_byteLength identity"
    by (auto simp: rereadBlob_def Let_def split: prod.splits if_splits sum.splits)
  with checked show "length bytes \<le> kMaximumBlobBytes" by simp
qed

definition names_content :: "Machine \<Rightarrow> bytes \<Rightarrow> bytes \<Rightarrow> bool" where
  "names_content mc digest b \<longleftrightarrow> (\<exists>hex. sha256Bytes (mc_provider mc) b = Inr hex \<and> digest = kDigestPrefix @ hex)"

interpretation blobs: content_addressed "getBlob mc root" "names_content mc" for mc root
  by unfold_locales (auto simp: names_content_def dest: getBlob_result(1))

text \<open>
  C16. The bytes a read of the store returns are the bytes their name says, unconditionally: whatever
  is on the disk, whatever other processes change between any two calls of the read and whichever
  calls the operating system fails, bytes that are returned hash to the digest they were asked for
  and are within the ceiling.
\<close>

theorem store_returns_what_was_named:
  "case fst (getBlob mc root digest h) of
     Inl failure \<Rightarrow> True
   | Inr bytes \<Rightarrow> length bytes \<le> kMaximumBlobBytes \<and>
       (\<exists>hex. sha256Bytes (mc_provider mc) bytes = Inr hex \<and> digest = kDigestPrefix @ hex)"
  using blobs.get_named [of mc root digest h] getBlob_result(2) [of mc root digest h]
  by (cases "getBlob mc root digest h") (auto simp: names_content_def split: sum.splits)

section \<open>Nothing in the store is ever changed\<close>

definition store_sound :: "Provider \<Rightarrow> string \<Rightarrow> Disk \<Rightarrow> bool" where
  "store_sound evp root disk \<longleftrightarrow>
     (\<forall>d p b. pathFor root d = Inr p \<longrightarrow> disk p = Some (FileNode b) \<longrightarrow> holds_digest evp d b)"

text \<open>The step from one disk to another keeps the store sound and every stored blob as it is.\<close>

definition disk_kept :: "Provider \<Rightarrow> string \<Rightarrow> Disk \<Rightarrow> Disk \<Rightarrow> bool" where
  "disk_kept evp root disk disk' \<longleftrightarrow>
     (store_sound evp root disk \<longrightarrow> store_sound evp root disk') \<and>
     (\<forall>p b. blob_path root p \<longrightarrow> disk p = Some (FileNode b) \<longrightarrow> disk' p = Some (FileNode b))"

text \<open>The other processes keep the store as it must be kept, and leave the staged names of this one alone.\<close>

definition others_respect :: "Machine \<Rightarrow> string \<Rightarrow> bool" where
  "others_respect mc root \<longleftrightarrow>
     (\<forall>t disk. disk_kept (mc_provider mc) root disk (mc_others mc t disk) \<and>
        (\<forall>p. own_staged mc root p \<longrightarrow> mc_others mc t disk p = disk p))"

abbreviation kept :: "Machine \<Rightarrow> string \<Rightarrow> Host \<Rightarrow> Host \<Rightarrow> bool" where
  "kept mc root h h' \<equiv> disk_kept (mc_provider mc) root (ho_disk h) (ho_disk h')"

text \<open>The step leaves, besides, what is at the staged names of this process.\<close>

definition stays :: "Machine \<Rightarrow> string \<Rightarrow> Host \<Rightarrow> Host \<Rightarrow> bool" where
  "stays mc root h h' \<longleftrightarrow> kept mc root h h' \<and> (\<forall>p. own_staged mc root p \<longrightarrow> ho_disk h' p = ho_disk h p)"

named_theorems keeps

lemma disk_kept_refl [simp]: "disk_kept evp root disk disk"
  by (simp add: disk_kept_def)

lemma disk_kept_trans: "disk_kept evp root a b \<Longrightarrow> disk_kept evp root b c \<Longrightarrow> disk_kept evp root a c"
  by (auto simp: disk_kept_def)

lemma disk_kept_elsewhere: "\<not> blob_path root p \<Longrightarrow> disk_kept evp root disk (disk(p := node))"
  by (auto simp: disk_kept_def store_sound_def blob_path_def)

lemma stays_refl [simp]: "stays mc root h h"
  by (simp add: stays_def)

lemma stays_trans: "stays mc root a b \<Longrightarrow> stays mc root b c \<Longrightarrow> stays mc root a c"
  by (auto simp: stays_def intro: disk_kept_trans)

lemma stays_kept: "stays mc root a b \<Longrightarrow> kept mc root a b"
  by (simp add: stays_def)

text \<open>What a system call does: the others move to a disk, and the call starts from there.\<close>

lemma system_call_cases:
  assumes "others_respect mc root" and "system_call mc failing performed h = (r, h')"
  obtains (failed) h1 m k where "stays mc root h h1" and "(r, ho_disk h') = failing m k (ho_disk h1)"
  | (through) h1 where "stays mc root h h1" and "(r, ho_disk h') = performed (ho_disk h1)"
proof -
  let ?h1 = "h\<lparr>ho_disk := mc_others mc (ho_clock h) (ho_disk h)\<rparr>"
  have moved: "stays mc root h ?h1"
    using assms(1) by (simp add: stays_def others_respect_def)
  show ?thesis
  proof (cases "mc_fault mc (ho_clock h)")
    case None
    then show ?thesis
      using assms(2) by (intro through [OF moved]) (auto simp: system_call_def Let_def split: prod.splits)
  next
    case (Some fault)
    then show ?thesis
      using assms(2)
      by (intro failed [OF moved, of "fst fault" "snd fault"]) (auto simp: system_call_def Let_def split: prod.splits)
  qed
qed

lemma stays_reading:
  assumes "others_respect mc root" and "\<And>m k disk. snd (failing m k disk) = disk"
    and "\<And>disk. snd (performed disk) = disk"
  shows "stays mc root h (snd (system_call mc failing performed h))"
proof -
  obtain r h' where call: "system_call mc failing performed h = (r, h')" by fastforce
  from assms(1) call show ?thesis
    by (cases rule: system_call_cases) (use assms(2,3) in \<open>metis call snd_conv stays_def stays_trans\<close>)+
qed

lemma kept_system_call:
  assumes "others_respect mc root"
    and "\<And>m k disk. disk_kept (mc_provider mc) root disk (snd (failing m k disk))"
    and "\<And>disk. disk_kept (mc_provider mc) root disk (snd (performed disk))"
  shows "kept mc root h (snd (system_call mc failing performed h))"
proof -
  obtain r h' where call: "system_call mc failing performed h = (r, h')" by fastforce
  from assms(1) call show ?thesis
    by (cases rule: system_call_cases) (use assms(2,3) in \<open>metis call snd_conv stays_def disk_kept_trans\<close>)+
qed

lemma kept_sbind:
  assumes "kept mc root h (snd (m h))"
    and "\<And>x h'. m h = (Inr x, h') \<Longrightarrow> kept mc root h' (snd (f x h'))"
  shows "kept mc root h (snd (sbind m f h))"
  using assms by (auto simp: sbind_def split: prod.splits sum.splits intro: disk_kept_trans)

lemma kept_answer [simp]: "kept mc root h (snd (answer r h))"
  by (simp add: answer_def)

lemma kept_mapped: "kept mc root h (snd (m h)) \<Longrightarrow> kept mc root h (snd (mapped r m h))"
  by (auto simp: mapped_def split: prod.splits sum.splits)


lemma stays_sbind:
  assumes "stays mc root h (snd (m h))"
    and "\<And>x h'. m h = (Inr x, h') \<Longrightarrow> stays mc root h' (snd (f x h'))"
  shows "stays mc root h (snd (sbind m f h))"
  using assms by (auto simp: sbind_def split: prod.splits sum.splits intro: stays_trans)

lemma stays_answer [simp]: "stays mc root h (snd (answer r h))"
  by (simp add: answer_def)

lemma stays_mapped: "stays mc root h (snd (m h)) \<Longrightarrow> stays mc root h (snd (mapped r m h))"
  by (auto simp: mapped_def split: prod.splits sum.splits)

lemma stays_classify [keeps]: "others_respect mc root \<Longrightarrow> stays mc root h (snd (classifyPath mc p h))"
  unfolding classifyPath_def by (rule stays_reading) simp_all

lemma stays_read [keeps]: "others_respect mc root \<Longrightarrow> stays mc root h (snd (readPath mc p h))"
  unfolding readPath_def by (rule stays_reading) simp_all

lemma stays_close [keeps]: "others_respect mc root \<Longrightarrow> stays mc root h (snd (closeFile mc p h))"
  unfolding closeFile_def by (rule stays_reading) simp_all

lemma stays_isDirectory [keeps]: "others_respect mc root \<Longrightarrow> stays mc root h (snd (isDirectory mc p h))"
  unfolding isDirectory_def by (rule stays_reading) simp_all

lemma stays_measure [keeps]: "others_respect mc root \<Longrightarrow> stays mc root h (snd (measureFile mc p h))"
  using stays_read [of mc root h p] by (auto simp: measureFile_def split: prod.splits)

lemma stays_confirm [keeps]: "others_respect mc root \<Longrightarrow> stays mc root h (snd (confirmStoredContent mc p e r h))"
  unfolding confirmStoredContent_def by (intro stays_sbind stays_measure stays_answer)

text \<open>The calls that write.\<close>

lemma kept_directories:
  "list_all (\<lambda>p. disk p = None \<or> disk p = Some DirectoryNode) ds \<Longrightarrow>
     disk_kept evp root disk (\<lambda>p. if p \<in> set ds then Some DirectoryNode else disk p)"
  by (fastforce simp: disk_kept_def store_sound_def list_all_iff split: if_splits)

lemma kept_createDirectories [keeps]:
  "others_respect mc root \<Longrightarrow> kept mc root h (snd (createDirectories mc p h))"
  unfolding createDirectories_def by (erule kept_system_call) (simp_all add: kept_directories)

lemma kept_makeDirectory [keeps]: "others_respect mc root \<Longrightarrow> kept mc root h (snd (makeDirectory mc p h))"
  using kept_createDirectories [of mc root h p] stays_isDirectory [of mc root _ p]
  by (auto simp: makeDirectory_def split: prod.splits option.splits bool.splits)
     (metis disk_kept_trans snd_conv stays_kept)+

lemma kept_enterDirectory [keeps]: "others_respect mc root \<Longrightarrow> kept mc root h (snd (enterDirectory mc c p h))"
  unfolding enterDirectory_def
  by (intro kept_sbind stays_kept [OF stays_mapped] keeps)
     (auto split: FileKind.splits intro: kept_makeDirectory)

lemma kept_walk [keeps]: "others_respect mc root \<Longrightarrow> kept mc root h (snd (walkStoreChain mc p c h))"
  unfolding walkStoreChain_def Let_def by (intro kept_sbind keeps)

lemma kept_createExclusive [keeps]:
  "others_respect mc root \<Longrightarrow> own_staged mc root p \<Longrightarrow> kept mc root h (snd (createExclusive mc p h))"
  unfolding createExclusive_def
  by (rule kept_system_call) (auto intro: disk_kept_elsewhere dest: own_staged_no_blob)

lemma kept_append: "own_staged mc root p \<Longrightarrow> disk_kept (mc_provider mc) root disk (append_to p b disk)"
  by (auto simp: append_to_def split: option.splits DiskNode.splits intro: disk_kept_elsewhere dest: own_staged_no_blob)

lemma kept_writeChunk [keeps]:
  "others_respect mc root \<Longrightarrow> own_staged mc root p \<Longrightarrow> kept mc root h (snd (writeChunk mc p b h))"
  by (cases "b = []") (auto simp: writeChunk_def intro!: kept_system_call kept_append)

lemma kept_unlink [keeps]:
  "others_respect mc root \<Longrightarrow> own_staged mc root p \<Longrightarrow> kept mc root h (snd (unlinkFile mc p h))"
  unfolding unlinkFile_def
  by (rule kept_system_call) (auto split: option.splits intro: disk_kept_elsewhere dest: own_staged_no_blob)

lemma kept_discard [keeps]:
  "others_respect mc root \<Longrightarrow> own_staged mc root p \<Longrightarrow> kept mc root h (discardStaged mc p h)"
  unfolding discardStaged_def
  by (rule kept_system_call) (auto intro: disk_kept_elsewhere dest: own_staged_no_blob)

lemma kept_orDiscard:
  "others_respect mc root \<Longrightarrow> own_staged mc root p \<Longrightarrow> kept mc root h (snd (m h)) \<Longrightarrow>
     kept mc root h (snd (orDiscard mc p m h))"
  by (auto simp: orDiscard_def split: prod.splits sum.splits intro: disk_kept_trans kept_discard)

lemma kept_writeChunks [keeps]:
  "others_respect mc root \<Longrightarrow> own_staged mc root p \<Longrightarrow> kept mc root h (snd (writeChunks mc p cs h))"
  by (induction cs arbitrary: h) (simp_all add: kept_sbind kept_mapped kept_writeChunk)

lemma kept_copySource [keeps]:
  assumes "others_respect mc root" and "own_staged mc root p"
  shows "kept mc root h (snd (copySource mc source p h))"
proof -
  obtain reads h1 where read: "readPath mc source h = (reads, h1)" by fastforce
  then have "kept mc root h h1"
    using stays_read [OF assms(1), of h source] by (simp add: stays_kept)
  moreover have "kept mc root h1 (snd (copySource mc source p h))"
    using assms by (auto simp: copySource_def read intro!: kept_sbind kept_writeChunks)
  ultimately show ?thesis by (rule disk_kept_trans)
qed

section \<open>Staging\<close>

definition staged_file :: "Machine \<Rightarrow> string \<Rightarrow> string \<Rightarrow> Host \<Rightarrow> bool" where
  "staged_file mc root p h \<longleftrightarrow> own_staged mc root p \<and> (\<exists>b. ho_disk h p = Some (FileNode b))"

lemma staged_stays: "staged_file mc root p h \<Longrightarrow> stays mc root h h' \<Longrightarrow> staged_file mc root p h'"
  by (simp add: staged_file_def stays_def)

lemma staged_own: "staged_file mc root p h \<Longrightarrow> own_staged mc root p"
  by (simp add: staged_file_def)

lemma createExclusive_staged:
  assumes "others_respect mc root" and "own_staged mc root p" and "createExclusive mc p h = (Inr u, h')"
  shows "staged_file mc root p h'"
proof -
  have "ho_disk h' p = Some (FileNode [])"
    using assms(3) by (auto simp: createExclusive_def system_call_def Let_def fail_def split: option.splits prod.splits if_splits)
  with assms(2) show ?thesis by (simp add: staged_file_def)
qed

lemma writeChunk_staged:
  assumes "others_respect mc root" and "staged_file mc root p h"
  shows "staged_file mc root p (snd (writeChunk mc p b h))"
proof -
  have "mc_others mc t (ho_disk h) p = ho_disk h p" for t
    using assms by (simp add: others_respect_def staged_file_def)
  with assms(2) show ?thesis
    by (cases "mc_fault mc (ho_clock h)")
       (auto simp: staged_file_def writeChunk_def system_call_def append_to_def Let_def split: prod.splits)
qed

lemma writeChunks_staged:
  "others_respect mc root \<Longrightarrow> staged_file mc root p h \<Longrightarrow> staged_file mc root p (snd (writeChunks mc p cs h))"
proof (induction cs arbitrary: h)
  case (Cons c cs)
  from writeChunk_staged [OF Cons.prems, of c] Cons.IH [OF Cons.prems(1)] show ?case
    by (auto simp: sbind_def mapped_def split: prod.splits sum.splits)
qed simp

lemma copySource_staged:
  assumes "others_respect mc root" and "staged_file mc root p h"
  shows "staged_file mc root p (snd (copySource mc source p h))"
proof -
  obtain reads h1 where read: "readPath mc source h = (reads, h1)" by fastforce
  then have here: "staged_file mc root p h1"
    using staged_stays [OF assms(2) stays_read [OF assms(1), of h source]] by simp
  show ?thesis
    using writeChunks_staged [OF assms(1) here, of "fr_chunks reads"] here
    by (auto simp: copySource_def read sbind_def answer_def split: prod.splits sum.splits)
qed

lemma claimStaging_kept:
  assumes "others_respect mc root" and "blob_path root d"
  shows "kept mc root h (snd (claimStaging mc d a n h)) \<and>
     (\<forall>p h'. claimStaging mc d a n h = (Inr p, h') \<longrightarrow> staged_file mc root p h')"
  using assms
proof (induction n arbitrary: a h)
  case 0
  obtain suffix h1 where name: "stagingSuffix mc a h = (suffix, h1)" by fastforce
  then have own: "own_staged mc root (d @ suffix)" and same: "ho_disk h1 = ho_disk h"
    using 0 by (auto simp: stagingSuffix_def own_staged_def)
  from kept_createExclusive [OF 0(1) own, of h1] createExclusive_staged [OF 0(1) own, of h1] show ?case
    by (subst (1 2) claimStaging.simps) (auto simp: name same split: prod.splits sum.splits)
next
  case (Suc n)
  obtain suffix h1 where name: "stagingSuffix mc a h = (suffix, h1)" by fastforce
  then have own: "own_staged mc root (d @ suffix)" and same: "ho_disk h1 = ho_disk h"
    using Suc.prems by (auto simp: stagingSuffix_def own_staged_def)
  obtain r h2 where create: "createExclusive mc (d @ suffix) h1 = (r, h2)" by fastforce
  note made = kept_createExclusive [OF Suc.prems(1) own, of h1, unfolded create]
    createExclusive_staged [OF Suc.prems(1) own, of h1, unfolded create]
  have more': "kept mc root h1 (snd (claimStaging mc d (a + 1) n h2))"
    using made(1) Suc.IH [OF Suc.prems, of h2 "a + 1"] by (auto intro: disk_kept_trans)
  from made more' Suc.IH [OF Suc.prems, of h2 "a + 1"] show ?case
    by (subst (1 2) claimStaging.simps) (auto simp: name same create split: sum.splits)
qed

section \<open>Steps with their conditions\<close>

text \<open>From a state with \<open>P\<close>, a step keeps the store, and if it succeeds \<open>Q\<close> holds of what it gives.\<close>

definition step_ok ::
  "Machine \<Rightarrow> string \<Rightarrow> (Host \<Rightarrow> bool) \<Rightarrow> 'a store_step \<Rightarrow> ('a \<Rightarrow> Host \<Rightarrow> bool) \<Rightarrow> bool" where
  "step_ok mc root P m Q \<longleftrightarrow>
     (\<forall>h. P h \<longrightarrow> kept mc root h (snd (m h)) \<and> (\<forall>x h'. m h = (Inr x, h') \<longrightarrow> Q x h'))"

lemma step_okI:
  "(\<And>h. P h \<Longrightarrow> kept mc root h (snd (m h))) \<Longrightarrow> (\<And>h x h'. P h \<Longrightarrow> m h = (Inr x, h') \<Longrightarrow> Q x h') \<Longrightarrow>
     step_ok mc root P m Q"
  by (auto simp: step_ok_def)

lemma step_sbind:
  assumes "step_ok mc root P m Q" and "\<And>x. step_ok mc root (Q x) (f x) R"
  shows "step_ok mc root P (sbind m f) R"
proof (rule step_okI)
  fix h assume "P h"
  then show "kept mc root h (snd (sbind m f h))"
    using assms by (intro kept_sbind) (auto simp: step_ok_def)
next
  fix h y h' assume "P h" and "sbind m f h = (Inr y, h')"
  then show "R y h'"
    using assms by (auto simp: sbind_Inr step_ok_def)
qed

lemma step_answer: "(\<And>h x. P h \<Longrightarrow> r = Inr x \<Longrightarrow> Q x h) \<Longrightarrow> step_ok mc root P (answer r) Q"
  by (rule step_okI) auto

lemma step_orDiscard:
  assumes "others_respect mc root" and "own_staged mc root p" and "step_ok mc root P m Q"
  shows "step_ok mc root P (orDiscard mc p m) Q"
proof (rule step_okI)
  fix h assume "P h"
  then show "kept mc root h (snd (orDiscard mc p m h))"
    using assms(3) by (intro kept_orDiscard [OF assms(1,2)]) (simp add: step_ok_def)
next
  fix h x h' assume "P h" and "orDiscard mc p m h = (Inr x, h')"
  then show "Q x h'"
    using assms(3) by (auto simp: step_ok_def orDiscard_def split: prod.splits sum.splits)
qed

text \<open>A step that only reads keeps every condition the neighbours keep.\<close>

lemma step_reading:
  assumes "\<And>h. stays mc root h (snd (m h))" and "\<And>h h'. P h \<Longrightarrow> stays mc root h h' \<Longrightarrow> P h'"
    and "\<And>h x h'. P h \<Longrightarrow> m h = (Inr x, h') \<Longrightarrow> Q x h'"
  shows "step_ok mc root P m (\<lambda>x h. P h \<and> Q x h)"
  using assms by (intro step_okI) (auto simp: stays_kept, metis snd_conv)

section \<open>What a put establishes\<close>

definition content_of :: "Provider \<Rightarrow> BlobIdentity \<Rightarrow> bytes \<Rightarrow> bool" where
  "content_of evp identity b \<longleftrightarrow>
     holds_digest evp (bi_digest identity) b \<and> bi_byteLength identity = length b \<and> length b \<le> kMaximumBlobBytes"

definition in_place :: "Provider \<Rightarrow> string \<Rightarrow> BlobIdentity \<Rightarrow> Disk \<Rightarrow> bool" where
  "in_place evp root identity disk \<longleftrightarrow>
     (\<exists>p b. pathFor root (bi_digest identity) = Inr p \<and> disk p = Some (FileNode b) \<and> content_of evp identity b)"

lemma readPath_file:
  assumes "others_respect mc root" and "own_staged mc root p \<or> blob_path root p"
    and "ho_disk h p = Some (FileNode b)" and "readPath mc p h = (reads, h')"
  shows "ho_disk h' p = Some (FileNode b)" and "fr_eof reads \<Longrightarrow> concat (fr_chunks reads) = b"
proof -
  have "ho_disk h' p = Some (FileNode b) \<and> (fr_eof reads \<longrightarrow> concat (fr_chunks reads) = b)"
    using assms(1) assms(4) [unfolded readPath_def]
  proof (cases rule: system_call_cases)
    case (failed h1 m k)
    then show ?thesis
      using assms(2,3) by (auto simp: stays_def disk_kept_def)
  next
    case (through h1)
    then have "ho_disk h1 p = Some (FileNode b)"
      using assms(2,3) by (auto simp: stays_def disk_kept_def)
    with through show ?thesis
      by (simp add: reads_of_def concat_chunks_of)
  qed
  then show "ho_disk h' p = Some (FileNode b)" "fr_eof reads \<Longrightarrow> concat (fr_chunks reads) = b" by simp_all
qed

lemma confirm_result:
  assumes "others_respect mc root" and "own_staged mc root p \<or> blob_path root p"
    and "ho_disk h p = Some (FileNode b)" and "confirmStoredContent mc p identity r h = (Inr u, h')"
  shows "ho_disk h' p = Some (FileNode b)" and "content_of (mc_provider mc) identity b"
proof -
  from assms(4) obtain reads observed where read: "readPath mc p h = (reads, h')"
    and measured: "measureReads (mc_provider mc) p reads = Inr observed"
    and same: "bi_byteLength observed = bi_byteLength identity" "bi_digest observed = bi_digest identity"
    by (auto simp: confirmStoredContent_def sbind_Inr measureFile_def split: prod.splits if_splits)
  note reading = readPath_file [OF assms(1-3) read]
  from reading(1) show "ho_disk h' p = Some (FileNode b)" .
  show "content_of (mc_provider mc) identity b"
    using measureReads_ok [OF measured] reading(2) same by (simp add: content_of_def)
qed

lemma classify_regular:
  assumes "classifyPath mc p h = (Inr KindRegular, h')"
  shows "\<exists>b. ho_disk h' p = Some (FileNode b)"
  using assms by (auto simp: classifyPath_def system_call_def kind_of_node_def fail_def Let_def
      split: option.splits prod.splits DiskNode.splits)

lemma settle_ok:
  assumes "others_respect mc root" and "own_staged mc root (st_path st)"
    and "pathFor root (bi_digest (st_identity st)) = Inr p"
  shows "step_ok mc root (\<lambda>h. kind = KindRegular \<longrightarrow> (\<exists>b. ho_disk h p = Some (FileNode b)))
     (settle mc st p kind) (\<lambda>identity h. in_place (mc_provider mc) root identity (ho_disk h))"
proof (rule step_okI)
  fix h :: Host assume "kind = KindRegular \<longrightarrow> (\<exists>b. ho_disk h p = Some (FileNode b))"
  let ?h = "discardStaged mc (st_path st) h"
  have gone: "kept mc root h ?h"
    by (rule kept_discard [OF assms(1,2)])
  have "kept mc root ?h (snd (settle mc st p kind h))"
    by (auto simp: settle_def Let_def intro!: kept_sbind stays_kept [OF stays_confirm [OF assms(1)]])
  with gone show "kept mc root h (snd (settle mc st p kind h))" by (rule disk_kept_trans)
next
  fix h :: Host and x h' assume there: "kind = KindRegular \<longrightarrow> (\<exists>b. ho_disk h p = Some (FileNode b))"
    and run: "settle mc st p kind h = (Inr x, h')"
  let ?h = "discardStaged mc (st_path st) h"
  have blob: "blob_path root p" using assms(3) by (auto simp: blob_path_def)
  from run have "kind = KindRegular" by (auto simp: settle_def Let_def split: if_splits)
  with there obtain b where "ho_disk h p = Some (FileNode b)" by blast
  with blob kept_discard [OF assms(1,2), of h] have held: "ho_disk ?h p = Some (FileNode b)"
    by (auto simp: disk_kept_def)
  from run have "confirmStoredContent mc p (st_identity st) CorruptStoredBlob ?h = (Inr (), h')"
    and "x = st_identity st"
    by (auto simp: settle_def sbind_Inr Let_def split: if_splits)
  with confirm_result [OF assms(1) disjI2 [OF blob] held] assms(3) show "in_place (mc_provider mc) root x (ho_disk h')"
    by (auto simp: in_place_def)
qed

lemma kept_link:
  assumes "others_respect mc root" and "own_staged mc root p" and "ho_disk h p = Some (FileNode b)"
    and "pathFor root (bi_digest identity) = Inr q" and "content_of (mc_provider mc) identity b"
    and link: "linkFile mc p q h = (r, h')"
  shows "kept mc root h h'" and "r = Inr u \<Longrightarrow> in_place (mc_provider mc) root identity (ho_disk h')"
proof -
  have "kept mc root h h' \<and> (r = Inr u \<longrightarrow> in_place (mc_provider mc) root identity (ho_disk h'))"
    using assms(1) link [unfolded linkFile_def]
  proof (cases rule: system_call_cases)
    case (failed h1 m k)
    then show ?thesis by (simp add: stays_def fail_def)
  next
    case (through h1)
    then have here: "ho_disk h1 p = Some (FileNode b)" and moved: "kept mc root h h1"
      using assms(2,3) by (simp_all add: stays_def)
    have put: "disk_kept (mc_provider mc) root (ho_disk h1) ((ho_disk h1)(q \<mapsto> FileNode b))" if "ho_disk h1 q = None"
      using assms(4,5) that by (auto simp: disk_kept_def store_sound_def content_of_def dest: pathFor_inj)
    show ?thesis
      using through(2) here moved assms(4,5) put
      by (auto simp: fail_def in_place_def split: if_splits intro: disk_kept_trans)
  qed
  then show "kept mc root h h'" "r = Inr u \<Longrightarrow> in_place (mc_provider mc) root identity (ho_disk h')" by simp_all
qed

lemma in_place_kept: "in_place evp root identity disk \<Longrightarrow> disk_kept evp root disk disk' \<Longrightarrow> in_place evp root identity disk'"
  by (auto simp: in_place_def disk_kept_def blob_path_def)

definition staged_content :: "Machine \<Rightarrow> string \<Rightarrow> StagedBlob \<Rightarrow> Host \<Rightarrow> bool" where
  "staged_content mc root st h \<longleftrightarrow>
     (\<exists>b. ho_disk h (st_path st) = Some (FileNode b) \<and> content_of (mc_provider mc) (st_identity st) b)"

lemma publishWithout_ok:
  assumes "others_respect mc root" and "own_staged mc root (st_path st)" and "staged_content mc root st h"
    and "pathFor root (bi_digest (st_identity st)) = Inr q"
    and "publishWithoutReplacement mc (st_path st) q h = (r, h')"
  shows "kept mc root h h'" and "r = Inr u \<Longrightarrow> in_place (mc_provider mc) root (st_identity st) (ho_disk h')"
proof -
  from assms(3) obtain b where here: "ho_disk h (st_path st) = Some (FileNode b)"
    and content: "content_of (mc_provider mc) (st_identity st) b"
    by (auto simp: staged_content_def)
  obtain l h1 where link: "linkFile mc (st_path st) q h = (l, h1)" by fastforce
  note linked = kept_link [OF assms(1,2) here assms(4) content link]
  have unlinked: "kept mc root h1 (snd (unlinkFile mc (st_path st) h1))"
    by (rule kept_unlink [OF assms(1,2)])
  show "kept mc root h h'"
    using assms(5) linked(1) unlinked
    by (auto simp: publishWithoutReplacement_def link split: sum.splits intro: disk_kept_trans)
  assume "r = Inr u"
  with assms(5) have "l = Inr ()" and "h' = snd (unlinkFile mc (st_path st) h1)"
    by (auto simp: publishWithoutReplacement_def link split: sum.splits)
  with linked(2) [of "()"] unlinked show "in_place (mc_provider mc) root (st_identity st) (ho_disk h')"
    by (auto intro: in_place_kept)
qed

lemma classify_step:
  assumes "others_respect mc root"
  shows "step_ok mc root P (mapped r (classifyPath mc p))
     (\<lambda>kind h. kind = KindRegular \<longrightarrow> (\<exists>b. ho_disk h p = Some (FileNode b)))"
proof (rule step_okI)
  show "kept mc root h (snd (mapped r (classifyPath mc p) h))" for h
    by (intro stays_kept [OF stays_mapped] stays_classify assms)
  show "mapped r (classifyPath mc p) h = (Inr x, h') \<Longrightarrow> x = KindRegular \<longrightarrow> (\<exists>b. ho_disk h' p = Some (FileNode b))" for h x h'
    using classify_regular [of mc p h h'] by (auto simp: mapped_def split: prod.splits sum.splits)
qed

lemma moveInto_ok:
  assumes "others_respect mc root" and "own_staged mc root (st_path st)"
    and "pathFor root (bi_digest (st_identity st)) = Inr q"
  shows "step_ok mc root (staged_content mc root st) (moveInto mc st q)
     (\<lambda>identity h. in_place (mc_provider mc) root identity (ho_disk h))"
proof -
  let ?retry = "sbind (orDiscard mc (st_path st) (mapped StoreIoFailure (classifyPath mc q))) (settle mc st q)"
  have again: "step_ok mc root (\<lambda>h. True) ?retry (\<lambda>identity h. in_place (mc_provider mc) root identity (ho_disk h))"
    by (rule step_sbind [OF step_orDiscard [OF assms(1,2) classify_step [OF assms(1)]] settle_ok [OF assms]])
  show ?thesis
  proof (rule step_okI)
    fix h :: Host assume staged: "staged_content mc root st h"
    obtain r h1 where moved: "publishWithoutReplacement mc (st_path st) q h = (r, h1)" by fastforce
    have one: "kept mc root h h1"
      by (rule publishWithout_ok(1) [OF assms(1,2) staged assms(3) moved])
    have "kept mc root h1 (snd (moveInto mc st q h))"
      using again kept_discard [OF assms(1,2), of h1] by (auto simp: moveInto_def moved step_ok_def split: sum.splits)
    with one show "kept mc root h (snd (moveInto mc st q h))" by (rule disk_kept_trans)
  next
    fix h :: Host and x h' assume staged: "staged_content mc root st h" and run: "moveInto mc st q h = (Inr x, h')"
    obtain r h1 where moved: "publishWithoutReplacement mc (st_path st) q h = (r, h1)" by fastforce
    note direct = publishWithout_ok(2) [OF assms(1,2) staged assms(3) moved]
    from run again direct show "in_place (mc_provider mc) root x (ho_disk h')"
      by (auto simp: moveInto_def moved step_ok_def split: sum.splits if_splits)
  qed
qed

lemma staged_content_stays:
  "own_staged mc root (st_path st) \<Longrightarrow> staged_content mc root st h \<Longrightarrow> stays mc root h h' \<Longrightarrow> staged_content mc root st h'"
  by (simp add: staged_content_def stays_def)

lemma confirm_staged:
  assumes "others_respect mc root" and "own_staged mc root (st_path st)"
  shows "step_ok mc root (staged_file mc root (st_path st)) (confirmStoredContent mc (st_path st) (st_identity st) r)
     (\<lambda>u. staged_content mc root st)"
proof (rule step_okI)
  show "kept mc root h (snd (confirmStoredContent mc (st_path st) (st_identity st) r h))" for h
    by (intro stays_kept stays_confirm assms)
  show "staged_content mc root st h'" if "staged_file mc root (st_path st) h"
    "confirmStoredContent mc (st_path st) (st_identity st) r h = (Inr x, h')" for h x h'
    using that confirm_result [OF assms(1) disjI1 [OF assms(2)] _ that(2)]
    by (auto simp: staged_file_def staged_content_def)
qed

lemma classify_staged:
  assumes "others_respect mc root" and "own_staged mc root (st_path st)"
  shows "step_ok mc root (staged_content mc root st) (mapped r (classifyPath mc q))
     (\<lambda>kind h. staged_content mc root st h \<and> (kind = KindRegular \<longrightarrow> (\<exists>b. ho_disk h q = Some (FileNode b))))"
proof (rule step_okI)
  show "kept mc root h (snd (mapped r (classifyPath mc q) h))" for h
    by (intro stays_kept [OF stays_mapped] stays_classify assms)
  fix h x h' assume staged: "staged_content mc root st h" and run: "mapped r (classifyPath mc q) h = (Inr x, h')"
  have "stays mc root h (snd (mapped r (classifyPath mc q) h))"
    by (intro stays_mapped stays_classify assms)
  with run staged_content_stays [OF assms(2) staged, of h'] classify_step [OF assms(1), of "\<lambda>h. True" r q]
  show "staged_content mc root st h' \<and> (x = KindRegular \<longrightarrow> (\<exists>b. ho_disk h' q = Some (FileNode b)))"
    by (auto simp: step_ok_def)
qed

lemma step_weaken: "step_ok mc root P m Q \<Longrightarrow> (\<And>h. P' h \<Longrightarrow> P h) \<Longrightarrow> step_ok mc root P' m Q"
  by (auto simp: step_ok_def)

lemma publish_ok:
  assumes "others_respect mc root"
  shows "step_ok mc root (staged_file mc root (st_path st)) (publish mc root st)
     (\<lambda>identity h. in_place (mc_provider mc) root identity (ho_disk h))"
proof (cases "own_staged mc root (st_path st)")
  case True
  have here: "step_ok mc root (staged_content mc root st)
      (orDiscard mc (st_path st) (answer (pathFor root (bi_digest (st_identity st)))))
      (\<lambda>q h. staged_content mc root st h \<and> pathFor root (bi_digest (st_identity st)) = Inr q)"
    by (intro step_orDiscard step_answer assms True) simp
  have last': "step_ok mc root (\<lambda>h. staged_content mc root st h \<and> pathFor root (bi_digest (st_identity st)) = Inr q)
      (sbind (orDiscard mc (st_path st) (mapped StoreIoFailure (classifyPath mc q)))
        (\<lambda>kind. if kind = KindMissing then moveInto mc st q else settle mc st q kind))
      (\<lambda>identity h. in_place (mc_provider mc) root identity (ho_disk h))" (is "step_ok _ _ _ ?tail _") for q
  proof (cases "pathFor root (bi_digest (st_identity st)) = Inr q")
    case path: True
    note after = moveInto_ok [OF assms True path] settle_ok [OF assms True path]
    have "step_ok mc root (staged_content mc root st) ?tail
        (\<lambda>identity h. in_place (mc_provider mc) root identity (ho_disk h))"
      by (rule step_sbind [OF step_orDiscard [OF assms True classify_staged [OF assms True]]])
         (auto intro: step_weaken [OF after(1)] step_weaken [OF after(2)])
    then show ?thesis by (rule step_weaken) simp
  qed (simp add: step_ok_def)
  show ?thesis
    unfolding publish_def
    by (rule step_sbind [OF step_orDiscard [OF assms True confirm_staged [OF assms True]]], rule step_sbind [OF here last'])
qed (simp add: step_ok_def staged_file_def)

lemma measure_step: "others_respect mc root \<Longrightarrow> step_ok mc root P (measureFile mc p) (\<lambda>x h. True)"
  by (intro step_okI stays_kept stays_measure) simp_all

lemma walk_step: "others_respect mc root \<Longrightarrow> step_ok mc root P (walkStoreChain mc p c) (\<lambda>x h. True)"
  by (intro step_okI kept_walk) simp_all

lemma copySource_step:
  assumes "others_respect mc root"
  shows "step_ok mc root (staged_file mc root p) (orDiscard mc p (copySource mc source p)) (\<lambda>x. staged_file mc root p)"
proof (cases "own_staged mc root p")
  case True
  have "step_ok mc root (staged_file mc root p) (copySource mc source p) (\<lambda>x. staged_file mc root p)"
    by (intro step_okI kept_copySource assms True) (metis assms copySource_staged snd_conv)
  then show ?thesis by (rule step_orDiscard [OF assms True])
qed (simp add: step_ok_def staged_file_def)

lemma close_step:
  assumes "others_respect mc root"
  shows "step_ok mc root (staged_file mc root p) (orDiscard mc p (mapped r (closeFile mc p))) (\<lambda>x. staged_file mc root p)"
proof (cases "own_staged mc root p")
  case True
  have "stays mc root h (snd (mapped r (closeFile mc p) h))" for h
    by (intro stays_mapped stays_close assms)
  then have "step_ok mc root (staged_file mc root p) (mapped r (closeFile mc p)) (\<lambda>x. staged_file mc root p)"
    by (intro step_okI stays_kept) (metis snd_conv staged_stays)+
  then show ?thesis by (rule step_orDiscard [OF assms True])
qed (simp add: step_ok_def staged_file_def)

lemma claim_step:
  assumes "others_respect mc root" and "pathFor root d = Inr q"
  shows "step_ok mc root P (claimStaging mc q a n) (\<lambda>p. staged_file mc root p)"
  using claimStaging_kept [OF assms(1), of q _ a n] assms(2) by (auto simp: step_ok_def blob_path_def)

lemma step_if_answer:
  "(\<not> c \<Longrightarrow> step_ok mc root P m Q) \<Longrightarrow> step_ok mc root P (if c then answer (blobReject r s d) else m) Q"
  by (simp add: step_ok_def answer_def)

lemma stage_ok:
  assumes "others_respect mc root"
  shows "step_ok mc root (\<lambda>h. True) (stage mc root source) (\<lambda>st. staged_file mc root (st_path st))"
proof -
  have tail: "step_ok mc root (\<lambda>h. pathFor root (bi_digest identity) = Inr q)
      (sbind (walkStoreChain mc q True) (\<lambda>_.
       sbind (claimStaging mc q 0 kStagingCollisionRetries) (\<lambda>staged.
       sbind (orDiscard mc staged (copySource mc source staged)) (\<lambda>_.
       sbind (orDiscard mc staged (mapped StoreIoFailure (closeFile mc staged))) (\<lambda>_.
       answer (Inr \<lparr>st_path = staged, st_identity = identity\<rparr>))))))
      (\<lambda>st. staged_file mc root (st_path st))" (is "step_ok _ _ _ (?m q identity) _") for q identity
  proof (cases "pathFor root (bi_digest identity) = Inr q")
    case True
    show ?thesis
      by (rule step_sbind [OF walk_step [OF assms]], rule step_sbind [OF claim_step [OF assms True]],
          rule step_sbind [OF copySource_step [OF assms]], rule step_sbind [OF close_step [OF assms]],
          rule step_answer) auto
  qed (simp add: step_ok_def)
  have path: "step_ok mc root P (answer (pathFor root d)) (\<lambda>q h. pathFor root d = Inr q)" for P d
    by (rule step_answer) simp
  show ?thesis
    unfolding stage_def
    by (rule step_sbind [OF classify_step [OF assms]], rule step_if_answer, rule step_sbind [OF measure_step [OF assms]],
        rule step_sbind [OF path tail])
qed

lemma put_ok:
  assumes "others_respect mc root"
  shows "step_ok mc root (\<lambda>h. True) (putBlob mc root source) (\<lambda>identity h. in_place (mc_provider mc) root identity (ho_disk h))"
  unfolding putBlob_def by (rule step_sbind [OF stage_ok [OF assms] publish_ok [OF assms]])

text \<open>
  C6. A put never damages the store and never lies about it.  Whatever calls fail and wherever the put
  stops, as long as the other processes keep the store's own rules: a store in which every file at a
  digest's path holds content of that digest still is one, every blob that was there is there with
  its bytes unchanged, and if an identity is reported then a file with exactly that digest and length
  is at its path when the call returns.
\<close>

theorem put_keeps_the_store:
  assumes "others_respect mc root"
  shows "case putBlob mc root source h of (result, h') \<Rightarrow>
    (store_sound (mc_provider mc) root (ho_disk h) \<longrightarrow> store_sound (mc_provider mc) root (ho_disk h')) \<and>
    (\<forall>d p b. pathFor root d = Inr p \<longrightarrow> ho_disk h p = Some (FileNode b) \<longrightarrow> ho_disk h' p = Some (FileNode b)) \<and>
    (case result of
       Inl failure \<Rightarrow> True
     | Inr identity \<Rightarrow> \<exists>p b. pathFor root (bi_digest identity) = Inr p \<and> ho_disk h' p = Some (FileNode b) \<and>
         holds_digest (mc_provider mc) (bi_digest identity) b \<and> bi_byteLength identity = length b \<and>
         length b \<le> kMaximumBlobBytes)"
proof -
  obtain result h' where run: "putBlob mc root source h = (result, h')" by fastforce
  have "disk_kept (mc_provider mc) root (ho_disk h) (ho_disk h')"
    and "\<And>identity. result = Inr identity \<Longrightarrow> in_place (mc_provider mc) root identity (ho_disk h')"
    using put_ok [OF assms, of source] run by (auto simp: step_ok_def) (metis snd_conv)
  then show ?thesis
    by (auto simp: run disk_kept_def blob_path_def in_place_def content_of_def split: sum.splits)
qed

theorem put_keeps_the_store_witness:
  "\<exists>mc. store_sound (mc_provider mc) ''s'' (ho_disk (snd (putBlob mc ''s'' ''f''
     \<lparr>ho_disk = [''f'' \<mapsto> FileNode ''hi''], ho_clock = 0, ho_stagings = 0\<rparr>)))"
proof -
  let ?evp = "\<lparr>evp_new = True, evp_init = True, evp_update = \<lambda>_ _. True, evp_final = \<lambda>_. Some (replicate 32 0)\<rparr>"
  let ?mc = "\<lparr>mc_provider = ?evp, mc_process = 7, mc_others = \<lambda>_ disk. disk, mc_fault = \<lambda>_. None\<rparr>"
  let ?h = "\<lparr>ho_disk = [''f'' \<mapsto> FileNode ''hi''], ho_clock = 0, ho_stagings = 0\<rparr>"
  have neighbours: "others_respect ?mc ''s''"
    by (simp add: others_respect_def)
  have sound: "store_sound ?evp ''s'' (ho_disk ?h)"
    by (auto simp: store_sound_def dest!: pathFor_length)
  obtain result h' where "putBlob ?mc ''s'' ''f'' ?h = (result, h')" by fastforce
  with put_keeps_the_store [OF neighbours, of ?h "''f''"] sound show ?thesis
    by (intro exI [of _ ?mc]) simp
qed

end
