(* ===== verification/Evidence_Roundtrip.thy ===== *)
theory Evidence_Roundtrip
  imports Evidence_Store
begin

text \<open>
  The content-addressed store on a quiet host: no call fails, no other process acts and the provider
  hashes.  Each step is run to its success from a given disk; the last theorem composes a put and a get.
\<close>

section \<open>A quiet host\<close>

definition quiet :: "Machine \<Rightarrow> bool" where
  "quiet mc \<longleftrightarrow> (\<forall>t. mc_fault mc t = None) \<and> (\<forall>t disk. mc_others mc t disk = disk)"

definition total_provider :: "Provider \<Rightarrow> bool" where
  "total_provider evp \<longleftrightarrow> evp_new evp \<and> evp_init evp \<and> (\<forall>c b. evp_update evp c b) \<and>
     (\<forall>c. \<exists>digest. evp_final evp c = Some digest \<and> length digest = 32 \<and> (\<forall>x\<in>set digest. x < 256))"

lemma total_provider_final:
  assumes "total_provider evp"
  obtains digest where "evp_final evp b = Some digest" and "length digest = 32" and "\<forall>x\<in>set digest. x < 256"
  using assms unfolding total_provider_def by blast

text \<open>From the disk, the step succeeds, and \<open>Q\<close> holds of what it gives and leaves.\<close>

definition yields :: "'a store_step \<Rightarrow> Disk \<Rightarrow> ('a \<Rightarrow> Disk \<Rightarrow> bool) \<Rightarrow> bool" where
  "yields m disk Q \<longleftrightarrow> (\<forall>h. ho_disk h = disk \<longrightarrow> (\<exists>x h'. m h = (Inr x, h') \<and> Q x (ho_disk h')))"

lemma yields_sbind:
  "yields m disk Q \<Longrightarrow> (\<And>x disk'. Q x disk' \<Longrightarrow> yields (f x) disk' R) \<Longrightarrow> yields (sbind m f) disk R"
  by (fastforce simp: yields_def sbind_def)

lemma yields_answer: "Q x disk \<Longrightarrow> yields (answer (Inr x)) disk Q"
  by (simp add: yields_def answer_def)

lemma yields_orDiscard: "yields m disk Q \<Longrightarrow> yields (orDiscard mc p m) disk Q"
  by (fastforce simp: yields_def orDiscard_def)

lemma yields_weaken: "yields m disk Q \<Longrightarrow> (\<And>x disk'. Q x disk' \<Longrightarrow> R x disk') \<Longrightarrow> yields m disk R"
  by (fastforce simp: yields_def)

text \<open>A call on a quiet host just does what it does.\<close>

lemma quiet_call:
  "quiet mc \<Longrightarrow> system_call mc failing performed h =
     (fst (performed (ho_disk h)), h\<lparr>ho_disk := snd (performed (ho_disk h)), ho_clock := Suc (ho_clock h)\<rparr>)"
  by (simp add: quiet_def system_call_def Let_def split: prod.splits)

lemma yields_call:
  "quiet mc \<Longrightarrow> performed disk = (Inr x, disk') \<Longrightarrow> Q x disk' \<Longrightarrow>
     yields (mapped r (system_call mc failing performed)) disk Q"
  by (simp add: yields_def mapped_def quiet_call)

lemma yields_classify:
  "quiet mc \<Longrightarrow> Q (kind_of_node (disk p)) disk \<Longrightarrow> yields (mapped r (classifyPath mc p)) disk Q"
  unfolding classifyPath_def by (rule yields_call) simp_all

lemma yields_close: "quiet mc \<Longrightarrow> Q () disk \<Longrightarrow> yields (mapped r (closeFile mc p)) disk Q"
  unfolding closeFile_def by (rule yields_call) simp_all

lemma quiet_read:
  "quiet mc \<Longrightarrow> readPath mc p h = (reads_of (ho_disk h p), h\<lparr>ho_clock := Suc (ho_clock h)\<rparr>)"
  by (simp add: readPath_def quiet_call)

lemma reads_of_file [simp]:
  "fr_opens (reads_of (Some (FileNode b)))" "fr_eof (reads_of (Some (FileNode b)))"
  "concat (fr_chunks (reads_of (Some (FileNode b)))) = b"
  by (simp_all add: reads_of_def concat_chunks_of)

section \<open>Hashing with a provider that does not fail\<close>

definition name_of :: "Provider \<Rightarrow> bytes \<Rightarrow> bytes" where
  "name_of evp b = kDigestPrefix @ hex_text (the (evp_final evp b))"

definition identity_of :: "Provider \<Rightarrow> bytes \<Rightarrow> BlobIdentity" where
  "identity_of evp b = \<lparr>bi_byteLength = length b, bi_digest = name_of evp b\<rparr>"

lemma measureChunks_total:
  assumes "total_provider evp" and "s_started digest" and "\<not> s_finished digest"
    and "n + length (concat chunks) \<le> kMaximumBlobBytes"
  shows "rfold (measureChunk evp s) (digest, n) chunks =
    Inr (digest\<lparr>s_content := s_content digest @ concat chunks\<rparr>, n + length (concat chunks))"
  using assms
proof (induction chunks arbitrary: digest n)
  case (Cons c cs)
  have "measureChunk evp s (digest, n) c = Inr (digest\<lparr>s_content := s_content digest @ c\<rparr>, n + length c)"
    using Cons.prems by (simp add: measureChunk_def sha256_update_def total_provider_def)
  with Cons.IH [of "digest\<lparr>s_content := s_content digest @ c\<rparr>" "n + length c"] Cons.prems show ?case
    by (simp add: add.assoc)
qed simp

lemma measureReads_total:
  assumes "total_provider evp" and "length b \<le> kMaximumBlobBytes"
  shows "measureReads evp s (reads_of (Some (FileNode b))) = Inr (identity_of evp b)"
proof -
  obtain digest where final: "evp_final evp b = Some digest" "length digest = 32"
    using assms(1) by (rule total_provider_final)
  let ?st = "(sha256_stream evp s)\<lparr>s_started := True\<rparr>"
  have begin': "sha256_begin evp (sha256_stream evp s) = Inr ?st"
    using assms(1) by (simp add: sha256_begin_def sha256_stream_def total_provider_def)
  have chunks: "rfold (measureChunk evp s) (?st, 0) (fr_chunks (reads_of (Some (FileNode b)))) =
      Inr (?st\<lparr>s_content := b\<rparr>, length b)"
    using assms by (subst measureChunks_total) (simp_all add: sha256_stream_def)
  with final have "fst (sha256_finish evp (?st\<lparr>s_content := b\<rparr>)) = Inr (hex_text digest)"
    by (simp add: sha256_finish_def sha256_stream_def Let_def)
  with chunks final show ?thesis
    unfolding measureReads_def begin' by (simp add: identity_of_def name_of_def)
qed

lemma name_of_ok:
  assumes "total_provider evp"
  shows "length (hex_text (the (evp_final evp b))) = 64" and "isLowercaseHex (hex_text (the (evp_final evp b)))"
proof -
  obtain digest where final: "evp_final evp b = Some digest" "length digest = 32" "\<forall>x\<in>set digest. x < 256"
    using assms by (rule total_provider_final)
  then show "length (hex_text (the (evp_final evp b))) = 64" "isLowercaseHex (hex_text (the (evp_final evp b)))"
    using hex_text_lowercase [OF final(3)] by (simp_all add: isLowercaseHex_iff)
qed

lemma sha256Bytes_total:
  assumes "total_provider evp"
  shows "sha256Bytes evp b = Inr (hex_text (the (evp_final evp b)))"
proof -
  obtain digest where "evp_final evp b = Some digest" "length digest = 32"
    using assms by (rule total_provider_final)
  with assms show ?thesis
    by (cases "b = []") (simp_all add: sha256Bytes_def sha256_begin_def sha256_stream_def sha256_update_def sha256_finish_def
        total_provider_def Let_def)
qed

lemma yields_measure:
  "quiet mc \<Longrightarrow> total_provider (mc_provider mc) \<Longrightarrow> disk p = Some (FileNode b) \<Longrightarrow> length b \<le> kMaximumBlobBytes \<Longrightarrow>
     Q (identity_of (mc_provider mc) b) disk \<Longrightarrow> yields (measureFile mc p) disk Q"
  by (simp add: yields_def measureFile_def quiet_read measureReads_total)

lemma yields_confirm:
  "quiet mc \<Longrightarrow> total_provider (mc_provider mc) \<Longrightarrow> disk p = Some (FileNode b) \<Longrightarrow> length b \<le> kMaximumBlobBytes \<Longrightarrow>
     Q () disk \<Longrightarrow> yields (confirmStoredContent mc p (identity_of (mc_provider mc) b) r) disk Q"
  by (simp add: yields_def confirmStoredContent_def sbind_def measureFile_def quiet_read measureReads_total answer_def)

text \<open>The same, for a step that is followed by others.\<close>

lemma yields_then:
  "yields m disk (\<lambda>x d. x = y \<and> d = disk') \<Longrightarrow> yields (f y) disk' R \<Longrightarrow> yields (sbind m f) disk R"
  by (erule yields_sbind) simp

lemma then_classify:
  "quiet mc \<Longrightarrow> kind_of_node (disk p) = k \<Longrightarrow> yields (f k) disk R \<Longrightarrow> yields (sbind (mapped r (classifyPath mc p)) f) disk R"
  by (rule yields_then [OF yields_classify]) simp_all

lemma then_discarding_classify:
  "quiet mc \<Longrightarrow> kind_of_node (disk p) = k \<Longrightarrow> yields (f k) disk R \<Longrightarrow>
     yields (sbind (orDiscard mc s (mapped r (classifyPath mc p))) f) disk R"
  by (rule yields_then [OF yields_orDiscard [OF yields_classify]]) simp_all

lemma then_close:
  "quiet mc \<Longrightarrow> yields (f ()) disk R \<Longrightarrow> yields (sbind (orDiscard mc s (mapped r (closeFile mc p))) f) disk R"
  by (rule yields_then [OF yields_orDiscard [OF yields_close]]) simp_all

lemma then_answer: "yields (f x) disk R \<Longrightarrow> r = Inr x \<Longrightarrow> yields (sbind (answer r) f) disk R"
  by (simp add: yields_def sbind_def answer_def)

lemma then_discarding_answer:
  "yields (f x) disk R \<Longrightarrow> r = Inr x \<Longrightarrow> yields (sbind (orDiscard mc s (answer r)) f) disk R"
  by (simp add: yields_def sbind_def answer_def orDiscard_def)

lemma then_measure:
  "quiet mc \<Longrightarrow> total_provider (mc_provider mc) \<Longrightarrow> disk p = Some (FileNode b) \<Longrightarrow> length b \<le> kMaximumBlobBytes \<Longrightarrow>
     yields (f (identity_of (mc_provider mc) b)) disk R \<Longrightarrow> yields (sbind (measureFile mc p) f) disk R"
  by (simp add: yields_def sbind_def measureFile_def quiet_read measureReads_total)

section \<open>The directories of the store\<close>

lemma mem_directories_to:
  "q \<in> set (directories_to path) \<longleftrightarrow> q = path \<or> (q \<noteq> [] \<and> (\<exists>rest. path = q @ CHR ''/'' # rest))"
proof
  assume "q \<in> set (directories_to path)"
  then show "q = path \<or> (q \<noteq> [] \<and> (\<exists>rest. path = q @ CHR ''/'' # rest))"
    by (auto simp: directories_to_def) (metis Cons_nth_drop_Suc append_take_drop_id)
next
  assume "q = path \<or> (q \<noteq> [] \<and> (\<exists>rest. path = q @ CHR ''/'' # rest))"
  then show "q \<in> set (directories_to path)"
    by (fastforce simp: directories_to_def image_iff nth_append intro: bexI [where x = "length q"])
qed

lemma directories_longer:
  "p \<noteq> [] \<Longrightarrow> set (directories_to p) \<subseteq> set (directories_to (p @ CHR ''/'' # rest))"
  by (auto simp: mem_directories_to)

definition clear_way :: "Disk \<Rightarrow> string \<Rightarrow> bool" where
  "clear_way disk path \<longleftrightarrow> (\<forall>p\<in>set (directories_to path). disk p = None \<or> disk p = Some DirectoryNode)"

text \<open>The second disk has some more of the directories to the path.\<close>

definition way_to :: "string \<Rightarrow> Disk \<Rightarrow> Disk \<Rightarrow> bool" where
  "way_to path disk disk' \<longleftrightarrow>
     (\<forall>p. disk' p = disk p \<or> (disk p = None \<and> p \<in> set (directories_to path) \<and> disk' p = Some DirectoryNode))"

lemma way_to_refl: "way_to path disk disk"
  by (simp add: way_to_def)

lemma way_to_trans: "way_to path a b \<Longrightarrow> way_to path b c \<Longrightarrow> way_to path a c"
  by (simp add: way_to_def) metis

lemma way_to_clear: "way_to path disk disk' \<Longrightarrow> clear_way disk p \<Longrightarrow> clear_way disk' p"
  by (simp add: way_to_def clear_way_def) metis

lemma way_to_longer:
  "way_to p disk disk' \<Longrightarrow> p \<noteq> [] \<Longrightarrow> way_to (p @ CHR ''/'' # rest) disk disk'"
  by (fastforce simp: way_to_def mem_directories_to)

lemma clear_way_longer: "clear_way disk (p @ CHR ''/'' # rest) \<Longrightarrow> p \<noteq> [] \<Longrightarrow> clear_way disk p"
  using directories_longer [of p rest] by (auto simp: clear_way_def)

lemma yields_enter:
  assumes "quiet mc" and "clear_way disk p"
  shows "yields (enterDirectory mc True p) disk (\<lambda>_ disk'. way_to p disk disk' \<and> disk' p = Some DirectoryNode)"
proof -
  have "disk p = None \<or> disk p = Some DirectoryNode"
    using assms(2) by (simp add: clear_way_def mem_directories_to)
  moreover have "yields (makeDirectory mc p) disk (\<lambda>_ disk'. way_to p disk disk' \<and> disk' p = Some DirectoryNode)"
    unfolding yields_def
  proof (intro allI impI)
    fix h :: Host assume here: "ho_disk h = disk"
    have "createDirectories mc p h = (None, h\<lparr>ho_disk := (\<lambda>q. if q \<in> set (directories_to p) then Some DirectoryNode
        else ho_disk h q), ho_clock := Suc (ho_clock h)\<rparr>)"
      using assms by (simp add: createDirectories_def quiet_call clear_way_def list_all_iff here [symmetric])
    then show "\<exists>x h'. makeDirectory mc p h = (Inr x, h') \<and> way_to p disk (ho_disk h') \<and> ho_disk h' p = Some DirectoryNode"
      using assms(2) here by (auto simp: makeDirectory_def way_to_def clear_way_def mem_directories_to [of p p])
  qed
  ultimately show ?thesis
    unfolding enterDirectory_def using assms(1)
    by (auto intro!: yields_sbind [where Q = "\<lambda>k d. k = kind_of_node (disk p) \<and> d = disk"] yields_classify yields_answer
        simp: kind_of_node_def way_to_refl)
qed

lemma parent_path_entry:
  "d \<noteq> [] \<Longrightarrow> last d \<noteq> CHR ''/'' \<Longrightarrow> CHR ''/'' \<notin> set name \<Longrightarrow> parent_path (d @ CHR ''/'' # name) = d"
proof -
  assume d: "d \<noteq> []" "last d \<noteq> CHR ''/''" and name: "CHR ''/'' \<notin> set name"
  have "dropWhile (\<lambda>c. c \<noteq> CHR ''/'') (rev (d @ CHR ''/'' # name)) = CHR ''/'' # rev d"
    using name by (simp, subst dropWhile_append2, auto)
  moreover have "dropWhile (\<lambda>c. c = CHR ''/'') (CHR ''/'' # rev d) = rev d"
    using d by (cases d rule: rev_cases) simp_all
  moreover have "\<not> (\<forall>x\<in>set d. x = CHR ''/'')"
    using d last_in_set [of d] by blast
  ultimately show ?thesis
    using d(1) by (auto simp: parent_path_def)
qed

text \<open>The directories above the path of a blob.\<close>

lemma lowercase_no_slash: "isLowercaseHex t \<Longrightarrow> CHR ''/'' \<notin> set t"
  by (auto simp: isLowercaseHex_iff hex_value_def)

definition bucket_of :: "string \<Rightarrow> bytes \<Rightarrow> string" where
  "bucket_of root d = root @ ''/sha256/'' @ take 2 (drop (length kDigestPrefix) d)"

lemma blob_parents:
  assumes "root \<noteq> []" and "last root \<noteq> CHR ''/''" and "pathFor root d = Inr q"
  shows "parent_path q = bucket_of root d" and "parent_path (bucket_of root d) = root @ ''/sha256''"
    and "parent_path (root @ ''/sha256'') = root"
    and "suffix = ''.'' @ nat_to_string i @ ''.'' @ nat_to_string j @ ''.'' @ nat_to_string k @ ''.tmp'' \<Longrightarrow>
      parent_path (q @ suffix) = bucket_of root d"
proof -
  from assms(3) obtain hex where d: "d = kDigestPrefix @ hex" "length hex = 64" "isLowercaseHex hex"
    and q: "q = root @ ''/sha256/'' @ take 2 hex @ ''/'' @ drop 2 hex"
    by (auto simp: pathFor_Inr)
  from d obtain a b rest where hex: "hex = a # b # rest" and free: "a \<noteq> CHR ''/''" "b \<noteq> CHR ''/''" "CHR ''/'' \<notin> set rest"
    using lowercase_no_slash [OF d(3)] by (cases hex; cases "tl hex") auto
  have bucket: "bucket_of root d = (root @ ''/sha256'') @ CHR ''/'' # [a, b]"
    by (simp add: bucket_of_def d(1) hex)
  have path: "q = bucket_of root d @ CHR ''/'' # rest"
    by (simp add: q bucket hex)
  have no_slash: "CHR ''/'' \<notin> set (nat_to_string n)" for n
    using nat_to_string_digits [of n] by (auto simp: is_digit_def)
  show "parent_path q = bucket_of root d"
    unfolding path by (rule parent_path_entry) (use free in \<open>simp_all add: bucket\<close>)
  show "parent_path (bucket_of root d) = root @ ''/sha256''"
    unfolding bucket by (rule parent_path_entry) (use free in simp_all)
  show "parent_path (root @ ''/sha256'') = root"
    using parent_path_entry [OF assms(1,2), of "''sha256''"] by simp
  assume suffix: "suffix = ''.'' @ nat_to_string i @ ''.'' @ nat_to_string j @ ''.'' @ nat_to_string k @ ''.tmp''"
  have "parent_path (bucket_of root d @ CHR ''/'' # (rest @ suffix)) = bucket_of root d"
    by (rule parent_path_entry) (use free no_slash in \<open>simp_all add: bucket suffix\<close>)
  then show "parent_path (q @ suffix) = bucket_of root d" by (simp add: path)
qed

lemma yields_walk:
  assumes "quiet mc" and "root \<noteq> []" and "last root \<noteq> CHR ''/''" and "pathFor root d = Inr q"
    and "clear_way disk (bucket_of root d)"
  shows "yields (walkStoreChain mc q True) disk (\<lambda>_ disk'. way_to (bucket_of root d) disk disk' \<and>
    disk' root = Some DirectoryNode \<and> disk' (root @ ''/sha256'') = Some DirectoryNode \<and>
    disk' (bucket_of root d) = Some DirectoryNode)"
proof -
  note parents = blob_parents(1-3) [OF assms(2-4)]
  have shape: "bucket_of root d = (root @ ''/sha256'') @ CHR ''/'' # take 2 (drop (length kDigestPrefix) d)"
    by (simp add: bucket_of_def)
  have stays_directory: "way_to p a b \<Longrightarrow> a r = Some DirectoryNode \<Longrightarrow> b r = Some DirectoryNode" for p a b r
    by (auto simp: way_to_def) (metis option.distinct(1))
  have alg: "clear_way disk (root @ ''/sha256'')"
    using assms(5) unfolding shape by (rule clear_way_longer) simp
  then have top: "clear_way disk root"
    by (rule clear_way_longer) (rule assms(2))
  have longer: "way_to root a b \<Longrightarrow> way_to (bucket_of root d) a b"
    "way_to (root @ ''/sha256'') a b \<Longrightarrow> way_to (bucket_of root d) a b" for a b
    using way_to_longer [of "root @ ''/sha256''" a b] way_to_longer [of root a b "''sha256''"] assms(2)
    by (simp_all add: shape)
  have walk: "walkStoreChain mc q True = sbind (enterDirectory mc True root) (\<lambda>_.
      sbind (enterDirectory mc True (root @ ''/sha256'')) (\<lambda>_. enterDirectory mc True (bucket_of root d)))"
    by (simp add: walkStoreChain_def parents)
  show ?thesis
    unfolding walk
  proof (rule yields_sbind [OF yields_enter [OF assms(1) top]])
    fix d1 :: Disk assume one: "way_to root disk d1 \<and> d1 root = Some DirectoryNode"
    show "yields (sbind (enterDirectory mc True (root @ ''/sha256'')) (\<lambda>_. enterDirectory mc True (bucket_of root d))) d1
        (\<lambda>_ disk'. way_to (bucket_of root d) disk disk' \<and> disk' root = Some DirectoryNode \<and>
          disk' (root @ ''/sha256'') = Some DirectoryNode \<and> disk' (bucket_of root d) = Some DirectoryNode)"
    proof (rule yields_sbind [OF yields_enter [OF assms(1)]])
      show "clear_way d1 (root @ ''/sha256'')"
        using one alg by (blast intro: way_to_clear)
      fix d2 :: Disk assume two: "way_to (root @ ''/sha256'') d1 d2 \<and> d2 (root @ ''/sha256'') = Some DirectoryNode"
      have "clear_way d2 (bucket_of root d)"
        using one two assms(5) by (blast intro: way_to_clear)
      then show "yields (enterDirectory mc True (bucket_of root d)) d2
        (\<lambda>_ disk'. way_to (bucket_of root d) disk disk' \<and> disk' root = Some DirectoryNode \<and>
          disk' (root @ ''/sha256'') = Some DirectoryNode \<and> disk' (bucket_of root d) = Some DirectoryNode)"
        by (rule yields_weaken [OF yields_enter [OF assms(1)]])
           (use one two in \<open>blast intro: stays_directory way_to_trans longer\<close>)
    qed
  qed
qed

section \<open>Staging and publishing on a quiet host\<close>

lemma claim_quiet:
  assumes "quiet mc" and "root \<noteq> []" and "last root \<noteq> CHR ''/''" and "pathFor root d = Inr q"
    and "disk (bucket_of root d) = Some DirectoryNode" and "\<forall>p. own_staged mc root p \<longrightarrow> disk p = None"
  shows "yields (claimStaging mc q 0 n) disk (\<lambda>p disk'. own_staged mc root p \<and> disk' = disk(p \<mapsto> FileNode []))"
  unfolding yields_def
proof (intro allI impI)
  fix h :: Host assume here: "ho_disk h = disk"
  obtain suffix h1 where name: "stagingSuffix mc 0 h = (suffix, h1)" by fastforce
  then have suffix: "suffix = ''.'' @ nat_to_string (mc_process mc) @ ''.'' @ nat_to_string (ho_stagings h) @ ''.'' @
      nat_to_string 0 @ ''.tmp''" and same: "ho_disk h1 = disk"
    using here by (auto simp: stagingSuffix_def)
  have own: "own_staged mc root (q @ suffix)"
    using assms(4) suffix by (auto simp: own_staged_def blob_path_def)
  have "createExclusive mc (q @ suffix) h1 =
      (Inr (), h1\<lparr>ho_disk := disk(q @ suffix \<mapsto> FileNode []), ho_clock := Suc (ho_clock h1)\<rparr>)"
    using own assms(1,5,6) blob_parents(4) [OF assms(2-4) suffix]
    by (simp add: createExclusive_def quiet_call same)
  with own show "\<exists>p h'. claimStaging mc q 0 n h = (Inr p, h') \<and> own_staged mc root p \<and>
      ho_disk h' = disk(p \<mapsto> FileNode [])"
    by (subst claimStaging.simps) (simp add: name)
qed

lemma yields_writeChunks:
  "quiet mc \<Longrightarrow> disk p = Some (FileNode b) \<Longrightarrow> Q () (disk(p \<mapsto> FileNode (b @ concat cs))) \<Longrightarrow>
     yields (writeChunks mc p cs) disk Q"
proof (induction cs arbitrary: disk b)
  case Nil
  then show ?case by (simp add: yields_def fun_upd_idem)
next
  case (Cons c cs)
  have one: "mapped StoreIoFailure (writeChunk mc p c) h =
      (Inr (), if c = [] then h else h\<lparr>ho_disk := disk(p \<mapsto> FileNode (b @ c)), ho_clock := Suc (ho_clock h)\<rparr>)"
    if "ho_disk h = disk" for h
    using that Cons.prems(1,2) by (simp add: mapped_def writeChunk_def quiet_call append_to_def)
  have rest: "yields (writeChunks mc p cs) (disk(p \<mapsto> FileNode (b @ c))) Q"
    by (rule Cons.IH [OF Cons.prems(1), of _ "b @ c"], simp)
       (use Cons.prems(3) in \<open>simp only: fun_upd_upd append_assoc concat.simps\<close>)
  have same: "disk(p \<mapsto> FileNode b) = disk"
    using Cons.prems(2) by (simp add: fun_upd_idem)
  show ?case
  proof (cases "c = []")
    case True
    with rest same show ?thesis by (simp add: yields_def sbind_def mapped_def writeChunk_def)
  next
    case False
    with rest show ?thesis by (simp add: yields_def sbind_def one)
  qed
qed

lemma yields_copy:
  assumes "quiet mc" and "disk source = Some (FileNode b)" and "disk p = Some (FileNode [])"
    and "Q () (disk(p \<mapsto> FileNode b))"
  shows "yields (copySource mc source p) disk Q"
proof -
  have "yields (writeChunks mc p (fr_chunks (reads_of (Some (FileNode b))))) disk Q"
    by (rule yields_writeChunks [where b = "[]"]) (use assms in simp_all)
  then have "\<exists>h'. writeChunks mc p (fr_chunks (reads_of (Some (FileNode b)))) (h\<lparr>ho_clock := Suc (ho_clock h)\<rparr>) = (Inr (), h') \<and>
      Q () (ho_disk h')" if "ho_disk h = disk" for h
    using that by (simp add: yields_def)
  then show ?thesis
    using assms(1,2) by (fastforce simp: yields_def copySource_def quiet_read sbind_def answer_def)
qed

text \<open>What the quiet host must be for the content of a source to be put under a root.\<close>

definition put_ready :: "Machine \<Rightarrow> string \<Rightarrow> string \<Rightarrow> bytes \<Rightarrow> Disk \<Rightarrow> bool" where
  "put_ready mc root source b disk \<longleftrightarrow>
     quiet mc \<and> total_provider (mc_provider mc) \<and> root \<noteq> [] \<and> last root \<noteq> CHR ''/'' \<and>
     disk source = Some (FileNode b) \<and> length b \<le> kMaximumBlobBytes \<and>
     clear_way disk (bucket_of root (name_of (mc_provider mc) b)) \<and>
     (\<forall>p. own_staged mc root p \<longrightarrow> disk p = None) \<and>
     (\<forall>q. pathFor root (name_of (mc_provider mc) b) = Inr q \<longrightarrow> disk q = None \<or> disk q = Some (FileNode b))"

definition chain_there :: "string \<Rightarrow> bytes \<Rightarrow> Disk \<Rightarrow> bool" where
  "chain_there root d disk \<longleftrightarrow> disk root = Some DirectoryNode \<and> disk (root @ ''/sha256'') = Some DirectoryNode \<and>
     disk (bucket_of root d) = Some DirectoryNode"

lemma blob_path_not_directory:
  "blob_path root p \<or> own_staged mc root p \<Longrightarrow> pathFor root d = Inr q \<Longrightarrow> p \<notin> set (directories_to (bucket_of root d))"
proof -
  assume p: "blob_path root p \<or> own_staged mc root p" and q: "pathFor root d = Inr q"
  have "length root + 73 \<le> length p"
    using p by (auto simp: own_staged_def blob_path_def dest!: pathFor_length)
  moreover have "length (bucket_of root d) \<le> length root + 10"
    by (simp add: bucket_of_def)
  ultimately show ?thesis
    by (auto simp: mem_directories_to)
qed

lemma chain_there_elsewhere:
  "blob_path root p \<or> own_staged mc root p \<Longrightarrow> chain_there root d disk \<Longrightarrow> chain_there root d (disk(p := node))"
proof -
  assume p: "blob_path root p \<or> own_staged mc root p" and there: "chain_there root d disk"
  have "length root + 73 \<le> length p"
    using p by (auto simp: own_staged_def blob_path_def dest!: pathFor_length)
  moreover have "length (bucket_of root d) \<le> length root + 10"
    by (simp add: bucket_of_def)
  ultimately show ?thesis
    using there by (auto simp: chain_there_def)
qed

lemma pathFor_name:
  assumes "total_provider evp"
  obtains q where "pathFor root (name_of evp b) = Inr q"
  using name_of_ok [OF assms, of b] by (auto simp: pathFor_Inr name_of_def)

definition staged_result :: "Machine \<Rightarrow> string \<Rightarrow> bytes \<Rightarrow> string \<Rightarrow> StagedBlob \<Rightarrow> Disk \<Rightarrow> bool" where
  "staged_result mc root b q st disk \<longleftrightarrow>
     st_identity st = identity_of (mc_provider mc) b \<and> own_staged mc root (st_path st) \<and>
     disk (st_path st) = Some (FileNode b) \<and> (disk q = None \<or> disk q = Some (FileNode b)) \<and>
     chain_there root (name_of (mc_provider mc) b) disk"

lemma yields_fill:
  assumes "quiet mc" and "disk source = Some (FileNode b)" and "own_staged mc root p" and "blob_path root q"
    and "disk q = None \<or> disk q = Some (FileNode b)" and "chain_there root (name_of (mc_provider mc) b) disk"
    and "disk p = None"
  shows "yields (sbind (orDiscard mc p (copySource mc source p)) (\<lambda>_.
    sbind (orDiscard mc p (mapped StoreIoFailure (closeFile mc p))) (\<lambda>_.
    answer (Inr \<lparr>st_path = p, st_identity = identity_of (mc_provider mc) b\<rparr>)))) (disk(p \<mapsto> FileNode []))
      (staged_result mc root b q)"
proof -
  let ?filled = "disk(p \<mapsto> FileNode b)"
  have apart: "p \<noteq> source" "p \<noteq> q"
    using assms(2,7) own_staged_no_blob [OF assms(3)] assms(4) by auto
  have copied: "yields (copySource mc source p) (disk(p \<mapsto> FileNode [])) (\<lambda>x d. x = () \<and> d = ?filled)"
    by (rule yields_copy [OF assms(1)]) (use apart assms(2) in simp_all)
  have result: "staged_result mc root b q \<lparr>st_path = p, st_identity = identity_of (mc_provider mc) b\<rparr> ?filled"
    using assms(3,5) apart chain_there_elsewhere [OF disjI2 [OF assms(3)] assms(6)] by (simp add: staged_result_def)
  show ?thesis
    by (rule yields_then [OF yields_orDiscard [OF copied]], rule then_close [OF assms(1)], rule yields_answer, rule result)
qed

lemma yields_stage:
  assumes "put_ready mc root source b disk" and "pathFor root (name_of (mc_provider mc) b) = Inr q"
  shows "yields (stage mc root source) disk (staged_result mc root b q)"
proof -
  let ?d = "name_of (mc_provider mc) b"
  note ready = assms(1) [unfolded put_ready_def]
  have quiet: "quiet mc" and provider: "total_provider (mc_provider mc)" using ready by simp_all
  have blob: "blob_path root q" using assms(2) by (auto simp: blob_path_def)
  have after: "yields (sbind (claimStaging mc q 0 kStagingCollisionRetries) (\<lambda>staged.
      sbind (orDiscard mc staged (copySource mc source staged)) (\<lambda>_.
      sbind (orDiscard mc staged (mapped StoreIoFailure (closeFile mc staged))) (\<lambda>_.
      answer (Inr \<lparr>st_path = staged, st_identity = identity_of (mc_provider mc) b\<rparr>))))) d1 (staged_result mc root b q)"
    if way: "way_to (bucket_of root ?d) disk d1" and chain: "chain_there root ?d d1" for d1
  proof -
    have same: "d1 p = disk p" if "blob_path root p \<or> own_staged mc root p" for p
      using way blob_path_not_directory [OF that assms(2)] by (auto simp: way_to_def)
    have source: "d1 source = Some (FileNode b)"
      using way ready by (auto simp: way_to_def) (metis option.distinct(1))
    have claim: "yields (claimStaging mc q 0 kStagingCollisionRetries) d1
        (\<lambda>p disk'. own_staged mc root p \<and> disk' = d1(p \<mapsto> FileNode []))"
      by (rule claim_quiet [where d = ?d]) (use ready assms(2) chain same in \<open>auto simp: chain_there_def\<close>)
    show ?thesis
      by (rule yields_sbind [OF claim], elim conjE, hypsubst, rule yields_fill [OF quiet source _ blob _ chain])
         (use ready assms(2) same blob in auto)
  qed
  have walk: "yields (walkStoreChain mc q True) disk
      (\<lambda>_ d1. way_to (bucket_of root ?d) disk d1 \<and> chain_there root ?d d1)"
    unfolding chain_there_def by (rule yields_walk) (use ready assms(2) in simp_all)
  have regular: "kind_of_node (disk source) = KindRegular"
    using ready by (simp add: kind_of_node_def)
  show ?thesis
    unfolding stage_def
    by (rule then_classify, rule quiet, rule regular, simp, rule then_measure [where b = b])
       (use ready assms(2) walk after in \<open>auto simp: identity_of_def intro!: then_answer yields_sbind [OF walk]\<close>)
qed

lemma yields_publish:
  assumes "quiet mc" and "total_provider (mc_provider mc)" and "length b \<le> kMaximumBlobBytes"
    and "root \<noteq> []" and "last root \<noteq> CHR ''/''"
    and path: "pathFor root (name_of (mc_provider mc) b) = Inr q" and "staged_result mc root b q st disk"
  shows "yields (publish mc root st) disk (\<lambda>identity disk'. identity = identity_of (mc_provider mc) b \<and>
    disk' q = Some (FileNode b) \<and> disk' (st_path st) = None \<and> chain_there root (name_of (mc_provider mc) b) disk')"
proof -
  note st = assms(7) [unfolded staged_result_def]
  have blob: "blob_path root q" using path by (auto simp: blob_path_def)
  have apart: "st_path st \<noteq> q" using own_staged_no_blob [of mc root "st_path st"] st blob by auto
  have digest: "bi_digest (st_identity st) = name_of (mc_provider mc) b" using st by (simp add: identity_of_def)
  have chain: "chain_there root (name_of (mc_provider mc) b) ((disk(q \<mapsto> FileNode b))(st_path st := None))"
    "chain_there root (name_of (mc_provider mc) b) (disk(st_path st := None))"
    using st blob chain_there_elsewhere [of root] by blast+
  have confirmed: "yields (confirmStoredContent mc (st_path st) (st_identity st) r) disk (\<lambda>x d. x = () \<and> d = disk)" for r
    using st yields_confirm [OF assms(1,2) _ assms(3)] by simp
  have unlink: "unlinkFile mc (st_path st) h =
      (Inr (), h\<lparr>ho_disk := (ho_disk h)(st_path st := None), ho_clock := Suc (ho_clock h)\<rparr>)"
    if "ho_disk h (st_path st) = Some (FileNode b)" for h
    using that assms(1) by (simp add: unlinkFile_def quiet_call)
  have move: "yields (moveInto mc st q) disk (\<lambda>identity disk'. identity = identity_of (mc_provider mc) b \<and>
      disk' q = Some (FileNode b) \<and> disk' (st_path st) = None \<and> chain_there root (name_of (mc_provider mc) b) disk')"
    if "disk q = None"
  proof -
    have "disk (parent_path q) = Some DirectoryNode"
      using st blob_parents(1) [OF assms(4,5) path] by (simp add: chain_there_def)
    then have "linkFile mc (st_path st) q h =
        (Inr (), h\<lparr>ho_disk := disk(q \<mapsto> FileNode b), ho_clock := Suc (ho_clock h)\<rparr>)" if "ho_disk h = disk" for h
      using that \<open>disk q = None\<close> st assms(1) by (simp add: linkFile_def quiet_call)
    then show ?thesis
      using st apart chain(1)
      by (simp add: yields_def moveInto_def publishWithoutReplacement_def unlink fun_upd_twist [OF apart])
  qed
  have present: "yields (settle mc st q KindRegular) disk (\<lambda>identity disk'. identity = identity_of (mc_provider mc) b \<and>
      disk' q = Some (FileNode b) \<and> disk' (st_path st) = None \<and> chain_there root (name_of (mc_provider mc) b) disk')"
    if "disk q = Some (FileNode b)"
  proof -
    let ?gone = "disk(st_path st := None)"
    have discard: "discardStaged mc (st_path st) h = h\<lparr>ho_disk := ?gone, ho_clock := Suc (ho_clock h)\<rparr>"
      if "ho_disk h = disk" for h
      using that st assms(1) by (simp add: discardStaged_def quiet_call)
    have "yields (sbind (confirmStoredContent mc q (st_identity st) CorruptStoredBlob) (\<lambda>_. answer (Inr (st_identity st))))
        ?gone (\<lambda>identity disk'. identity = identity_of (mc_provider mc) b \<and>
      disk' q = Some (FileNode b) \<and> disk' (st_path st) = None \<and> chain_there root (name_of (mc_provider mc) b) disk')"
      using st that apart chain(2)
      by (auto intro!: yields_then [OF yields_confirm [OF assms(1,2) _ assms(3)], where disk' = ?gone] yields_answer)
    then show ?thesis
      by (simp add: yields_def settle_def discard)
  qed
  show ?thesis
    unfolding publish_def digest path
    by (rule yields_then [OF yields_orDiscard [OF confirmed]], rule then_discarding_answer [OF _ refl],
        rule then_discarding_classify [OF assms(1) refl])
       (use st move present in \<open>auto simp: kind_of_node_def\<close>)
qed

section \<open>Reading back\<close>

lemma quiet_walk:
  assumes "quiet mc" and "root \<noteq> []" and "last root \<noteq> CHR ''/''" and "pathFor root d = Inr q"
    and "chain_there root d disk" and "yields (f ()) disk R"
  shows "yields (sbind (walkStoreChain mc q c) f) disk R"
proof -
  have enter: "yields (enterDirectory mc c p) disk (\<lambda>x d. x = () \<and> d = disk)" if "disk p = Some DirectoryNode" for p
    unfolding enterDirectory_def
    by (rule then_classify, rule assms(1), rule refl) (simp add: that kind_of_node_def yields_answer)
  have "walkStoreChain mc q c = sbind (enterDirectory mc c root) (\<lambda>_.
      sbind (enterDirectory mc c (root @ ''/sha256'')) (\<lambda>_. enterDirectory mc c (bucket_of root d)))"
    by (simp add: walkStoreChain_def blob_parents(1-3) [OF assms(2-4)])
  moreover have "yields (sbind (enterDirectory mc c root) (\<lambda>_.
      sbind (enterDirectory mc c (root @ ''/sha256'')) (\<lambda>_. enterDirectory mc c (bucket_of root d)))) disk
        (\<lambda>x d. x = () \<and> d = disk)"
    using assms(5) by (intro yields_then [OF enter] enter) (simp_all add: chain_there_def)
  ultimately show ?thesis
    using assms(6) by (auto intro: yields_then)
qed

lemma yields_get:
  assumes "quiet mc" and "total_provider (mc_provider mc)" and "length b \<le> kMaximumBlobBytes"
    and "root \<noteq> []" and "last root \<noteq> CHR ''/''"
    and path: "pathFor root (name_of (mc_provider mc) b) = Inr q"
    and "disk q = Some (FileNode b)" and "chain_there root (name_of (mc_provider mc) b) disk"
  shows "yields (getBlob mc root (name_of (mc_provider mc) b)) disk (\<lambda>x disk'. x = b \<and> disk' = disk)"
proof -
  let ?d = "name_of (mc_provider mc) b"
  have regular: "kind_of_node (disk q) = KindRegular"
    using assms(7) by (simp add: kind_of_node_def)
  have verified: "yields (verifyBlob mc root ?d) disk (\<lambda>x d. x = identity_of (mc_provider mc) b \<and> d = disk)"
    unfolding verifyBlob_def path
    by (rule then_answer [OF _ refl], rule quiet_walk [OF assms(1,4,5) path assms(8)], rule then_classify, rule assms(1),
        rule regular, simp, rule then_measure [where b = b]) (use assms in \<open>auto simp: identity_of_def intro: yields_answer\<close>)
  have reread: "yields (rereadBlob mc q (identity_of (mc_provider mc) b)) disk (\<lambda>x disk'. x = b \<and> disk' = disk)"
    using assms(1,2,7)
    by (simp add: yields_def rereadBlob_def quiet_read identity_of_def sha256Bytes_total name_of_def)
  show ?thesis
    unfolding getBlob_def path
    by (rule yields_then [OF verified], rule then_answer [where x = q], rule reread, rule refl)
qed

lemma put_get:
  assumes "put_ready mc root source b (ho_disk h)"
  shows "\<exists>h1 h2. putBlob mc root source h = (Inr (identity_of (mc_provider mc) b), h1) \<and>
    getBlob mc root (name_of (mc_provider mc) b) h1 = (Inr b, h2) \<and> ho_disk h2 = ho_disk h1"
proof -
  note ready = assms [unfolded put_ready_def]
  let ?d = "name_of (mc_provider mc) b"
  obtain q where path: "pathFor root ?d = Inr q"
    using ready pathFor_name by blast
  have "yields (putBlob mc root source) (ho_disk h) (\<lambda>identity disk'. identity = identity_of (mc_provider mc) b \<and>
      disk' q = Some (FileNode b) \<and> chain_there root ?d disk')"
    unfolding putBlob_def
    by (rule yields_sbind [OF yields_stage [OF assms path]], rule yields_weaken [OF yields_publish])
       (use ready path in auto)
  then obtain h1 where put: "putBlob mc root source h = (Inr (identity_of (mc_provider mc) b), h1)"
    and held: "ho_disk h1 q = Some (FileNode b)" "chain_there root ?d (ho_disk h1)"
    by (auto simp: yields_def)
  have "yields (getBlob mc root ?d) (ho_disk h1) (\<lambda>x disk'. x = b \<and> disk' = ho_disk h1)"
    by (rule yields_get) (use ready path held in simp_all)
  then obtain h2 where "getBlob mc root ?d h1 = (Inr b, h2)" "ho_disk h2 = ho_disk h1"
    by (auto simp: yields_def)
  with put show ?thesis by blast
qed

text \<open>
  What is put is what is read back.  On a quiet host, with a provider that hashes, a source no
  larger than the ceiling, nothing in the way of the store's directories and no staged file left
  under this process's names: the put succeeds and reports the content's length and digest, and a get
  of that digest then succeeds and returns the content, byte for byte.  It does so again when the blob
  was already in the store, and leaves the disk as it was.
\<close>

theorem put_then_get:
  assumes "put_ready mc root source b (ho_disk h)"
  shows "\<exists>identity h1 h2. putBlob mc root source h = (Inr identity, h1) \<and> bi_byteLength identity = length b \<and>
    getBlob mc root (bi_digest identity) h1 = (Inr b, h2) \<and> ho_disk h2 = ho_disk h1"
  using put_get [OF assms] by (auto simp: identity_of_def)

theorem put_then_get_witness:
  "\<exists>mc h identity h1 h2. putBlob mc ''s'' ''f'' h = (Inr identity, h1) \<and> bi_byteLength identity = 2 \<and>
    getBlob mc ''s'' (bi_digest identity) h1 = (Inr ''hi'', h2) \<and> ho_disk h2 = ho_disk h1"
proof -
  let ?evp = "\<lparr>evp_new = True, evp_init = True, evp_update = \<lambda>_ _. True, evp_final = \<lambda>_. Some (replicate 32 0)\<rparr>"
  let ?mc = "\<lparr>mc_provider = ?evp, mc_process = 7, mc_others = \<lambda>_ disk. disk, mc_fault = \<lambda>_. None\<rparr>"
  let ?h = "\<lparr>ho_disk = [''f'' \<mapsto> FileNode ''hi''], ho_clock = 0, ho_stagings = 0\<rparr>"
  have away: "''f'' \<notin> set (directories_to (bucket_of ''s'' d))" for d
    by (auto simp: mem_directories_to bucket_of_def)
  have staged: "\<not> own_staged ?mc ''s'' ''f''"
    by (auto simp: own_staged_def blob_path_def dest!: pathFor_length)
  have stored: "pathFor ''s'' d = Inr q \<Longrightarrow> q \<noteq> ''f''" for d q
    by (auto dest!: pathFor_length)
  have "put_ready ?mc ''s'' ''f'' ''hi'' (ho_disk ?h)"
    using away staged stored
    by (auto simp: put_ready_def quiet_def total_provider_def clear_way_def kMaximumBlobBytes_def)
  note stored = put_then_get [OF this]
  have "length ''hi'' = 2" by simp
  with stored show ?thesis by metis
qed

end
