(* ===== verification/Evidence_Command.thy ===== *)
theory Evidence_Command
  imports Evidence_Reports Evidence_Records Evidence_Roundtrip
begin

text \<open>
  \<open>tools/rf_evidence/src/command.cpp\<close>, \<open>store_command.cpp\<close> and \<open>main.cpp\<close>: the command line, the operations
  of the store and of the audits, and the dispatch.  What a command reads of the repository is the site it
  finds; the store and the report files are on the disk of the host, which a command hands on.
\<close>

type_synonym command_step = "Host \<Rightarrow> CommandResult \<times> Host"

text \<open>An operation that leaves the host alone.\<close>

definition purely :: "CommandResult \<Rightarrow> command_step" where "purely r h = (r, h)"

section \<open>The store\<close>

definition failBlob :: "BlobFailure \<Rightarrow> OutputFormat \<Rightarrow> CommandResult" where
  "failBlob failure format =
     \<lparr>cr_exit = 3,
      cr_output = (if format = Json
        then ''{'' @ writeJsonString ''rejection'' @ '':'' @ writeJsonString (blobRejectionName (bf_rejection failure)) @
          '','' @ writeJsonString ''subject'' @ '':'' @ writeJsonString (bf_subject failure) @
          '','' @ writeJsonString ''detail'' @ '':'' @ writeJsonString (bf_detail failure) @ ''}''
        else []),
      cr_errors = renderFailure \<lparr>f_code = VerificationFailed, f_path = blobRejectionName (bf_rejection failure),
        f_message = bf_detail failure\<rparr> format\<rparr>"

definition describeStoredBlob :: "BlobIdentity \<Rightarrow> string option \<Rightarrow> Descriptor Result" where
  "describeStoredBlob identity mediaType =
     (case mediaType of
        None \<Rightarrow> fail InvalidArguments ''--media'' ''a media type is required''
      | Some media \<Rightarrow> Inr \<lparr>d_mediaType = media, d_byteLength = bi_byteLength identity, d_digest = bi_digest identity\<rparr>)"

definition resolveContentSource :: "Site \<Rightarrow> ParsedOptions \<Rightarrow> string Result" where
  "resolveContentSource site options =
     (case po_sourcePath options of
        None \<Rightarrow> fail InvalidArguments ''--source'' ''a repository-relative content path is required''
      | Some sourcePath \<Rightarrow>
          rbind (resolveRepositoryPath site (po_repositoryRoot options) sourcePath) (\<lambda>resolved.
          rbind (classifySite site (path_append (po_repositoryRoot options) sourcePath)) (\<lambda>kind.
            if kind \<noteq> KindRegular then fail InvalidPath sourcePath (''the source is a '' @ fileKindName kind)
            else Inr resolved)))"

definition emitDescriptor :: "Descriptor \<Rightarrow> CommandResult" where
  "emitDescriptor descriptor = printed (serializeCanonical (describeAsValue descriptor))"

text \<open>The identity the store reports, or its refusal, as the result of the command.\<close>

definition reportIdentity :: "ParsedOptions \<Rightarrow> BlobIdentity BlobResult \<Rightarrow> CommandResult" where
  "reportIdentity options result =
     (case result of
        Inl failure \<Rightarrow> failBlob failure (po_format options)
      | Inr identity \<Rightarrow>
          (case describeStoredBlob identity (po_mediaType options) of
             Inl failure \<Rightarrow> failCommand failure (po_format options)
           | Inr descriptor \<Rightarrow> emitDescriptor descriptor))"

definition putBlobOperation :: "Site \<Rightarrow> Machine \<Rightarrow> ParsedOptions \<Rightarrow> command_step" where
  "putBlobOperation site mc options h =
     (case resolveContentSource site options of
        Inl failure \<Rightarrow> (failCommand failure (po_format options), h)
      | Inr source \<Rightarrow>
          (case putBlob mc (storeRoot options) source h of (result, h') \<Rightarrow> (reportIdentity options result, h')))"

definition verifyBlobOperation :: "Machine \<Rightarrow> ParsedOptions \<Rightarrow> command_step" where
  "verifyBlobOperation mc options h =
     (case po_digest options of
        None \<Rightarrow> (failCommand \<lparr>f_code = InvalidArguments, f_path = ''--digest'', f_message = ''a content digest is required''\<rparr>
          (po_format options), h)
      | Some digest \<Rightarrow>
          (case verifyBlob mc (storeRoot options) digest h of (result, h') \<Rightarrow> (reportIdentity options result, h')))"

definition getBlobOperation :: "Machine \<Rightarrow> ParsedOptions \<Rightarrow> command_step" where
  "getBlobOperation mc options h =
     (case po_digest options of
        None \<Rightarrow> (failCommand \<lparr>f_code = InvalidArguments, f_path = ''--digest'', f_message = ''a content digest is required''\<rparr>
          (po_format options), h)
      | Some digest \<Rightarrow>
          (case getBlob mc (storeRoot options) digest h of
             (Inl failure, h') \<Rightarrow> (failBlob failure (po_format options), h')
           | (Inr bytes, h') \<Rightarrow> (printed bytes, h')))"

text \<open>The store the record operations read: each read is of the host as the command finds it.\<close>

definition storeFor :: "Machine \<Rightarrow> Host \<Rightarrow> ParsedOptions \<Rightarrow> BlobStore" where
  "storeFor mc h options =
     \<lparr>bs_get = (\<lambda>digest. fst (getBlob mc (storeRoot options) digest h)), bs_pathFor = pathFor (storeRoot options)\<rparr>"

section \<open>Options\<close>

definition noOptions :: ParsedOptions where
  "noOptions = \<lparr>po_format = Human, po_hostId = None, po_repositoryRoot = [], po_toolId = None, po_reportPath = None,
     po_recordPath = None, po_descriptorPath = None, po_planPath = None, po_setId = None, po_setPath = None,
     po_evaluationId = None, po_sourcePath = None, po_digest = None, po_mediaType = None\<rparr>"

definition given :: "string \<Rightarrow> string \<Rightarrow> string option \<Rightarrow> string Result" where
  "given flag message kValue =
     (case kValue of None \<Rightarrow> fail InvalidArguments flag message | Some v \<Rightarrow> Inr v)"

definition nonempty :: "string \<Rightarrow> string \<Rightarrow> string option \<Rightarrow> string Result" where
  "nonempty flag message kValue =
     (case kValue of
        None \<Rightarrow> fail InvalidArguments flag message
      | Some v \<Rightarrow> if v = [] then fail InvalidArguments flag message else Inr v)"

definition readFormat :: "string option \<Rightarrow> OutputFormat Result" where
  "readFormat kValue =
     (if kValue = Some ''human'' then Inr Human else if kValue = Some ''json'' then Inr Json
      else fail InvalidArguments ''--format'' ''expected human or json'')"

text \<open>One option with the argument after it, if there is one; the flag is whether a root was given.\<close>

definition applyOption :: "string \<Rightarrow> string option \<Rightarrow> ParsedOptions \<times> bool \<Rightarrow> (ParsedOptions \<times> bool) Result" where
  "applyOption kOption kValue = (\<lambda>(options, hasRoot).
     if kOption = ''--format'' then rbind (readFormat kValue) (\<lambda>v. Inr (options\<lparr>po_format := v\<rparr>, hasRoot))
     else if kOption = ''--host'' then rbind (given kOption ''missing host ID'' kValue) (\<lambda>v. Inr (options\<lparr>po_hostId := Some v\<rparr>, hasRoot))
     else if kOption = ''--root'' then rbind (nonempty kOption ''missing repository path'' kValue) (\<lambda>v. Inr (options\<lparr>po_repositoryRoot := v\<rparr>, True))
     else if kOption = ''--tool'' then rbind (given kOption ''missing tool ID'' kValue) (\<lambda>v. Inr (options\<lparr>po_toolId := Some v\<rparr>, hasRoot))
     else if kOption = ''--report'' then rbind (nonempty kOption ''missing repository-relative report path'' kValue) (\<lambda>v. Inr (options\<lparr>po_reportPath := Some v\<rparr>, hasRoot))
     else if kOption = ''--record'' then rbind (nonempty kOption ''missing record path'' kValue) (\<lambda>v. Inr (options\<lparr>po_recordPath := Some v\<rparr>, hasRoot))
     else if kOption = ''--descriptor'' then rbind (nonempty kOption ''missing descriptor path'' kValue) (\<lambda>v. Inr (options\<lparr>po_descriptorPath := Some v\<rparr>, hasRoot))
     else if kOption = ''--plan'' then rbind (nonempty kOption ''missing attempt plan path'' kValue) (\<lambda>v. Inr (options\<lparr>po_planPath := Some v\<rparr>, hasRoot))
     else if kOption = ''--set-id'' then rbind (nonempty kOption ''missing evidence set identity'' kValue) (\<lambda>v. Inr (options\<lparr>po_setId := Some v\<rparr>, hasRoot))
     else if kOption = ''--set'' then rbind (nonempty kOption ''missing evidence set path'' kValue) (\<lambda>v. Inr (options\<lparr>po_setPath := Some v\<rparr>, hasRoot))
     else if kOption = ''--evaluation-id'' then rbind (nonempty kOption ''missing evaluation identity'' kValue) (\<lambda>v. Inr (options\<lparr>po_evaluationId := Some v\<rparr>, hasRoot))
     else if kOption = ''--source'' then rbind (nonempty kOption ''missing repository-relative content path'' kValue) (\<lambda>v. Inr (options\<lparr>po_sourcePath := Some v\<rparr>, hasRoot))
     else if kOption = ''--digest'' then rbind (nonempty kOption ''missing content digest'' kValue) (\<lambda>v. Inr (options\<lparr>po_digest := Some v\<rparr>, hasRoot))
     else if kOption = ''--media'' then rbind (nonempty kOption ''missing media type'' kValue) (\<lambda>v. Inr (options\<lparr>po_mediaType := Some v\<rparr>, hasRoot))
     else fail InvalidArguments kOption ''unknown option'')"

fun argumentLoop :: "string list \<Rightarrow> ParsedOptions \<times> bool \<Rightarrow> (ParsedOptions \<times> bool) Result" where
  "argumentLoop [] st = Inr st"
| "argumentLoop [kOption] st = applyOption kOption None st"
| "argumentLoop (kOption # kValue # rest) st = rbind (applyOption kOption (Some kValue) st) (argumentLoop rest)"

definition parseArguments :: "Site \<Rightarrow> string list \<Rightarrow> ParsedOptions Result" where
  "parseArguments site arguments =
     rbind (argumentLoop arguments (noOptions, False)) (\<lambda>(options, hasRoot).
       if \<not> hasRoot then fail InvalidArguments ''--root'' ''repository root is required''
       else case si_canonical site (po_repositoryRoot options) of
         None \<Rightarrow> fail InvalidPath (po_repositoryRoot options) ''failed to resolve repository root''
       | Some absoluteRoot \<Rightarrow> Inr (options\<lparr>po_repositoryRoot := absoluteRoot\<rparr>))"

section \<open>The audits and their reports\<close>

text \<open>Nothing, or the refusal that ends the command.\<close>

definition emitRequestedReport :: "Site \<Rightarrow> Machine \<Rightarrow> ParsedOptions \<Rightarrow> bytes \<Rightarrow> Host \<Rightarrow> CommandResult option \<times> Host" where
  "emitRequestedReport site mc options content h =
     (case po_reportPath options of
        None \<Rightarrow> (None, h)
      | Some requested \<Rightarrow>
          (case resolveReportPath site (po_repositoryRoot options) requested of
             Inl failure \<Rightarrow> (Some (failCommand failure (po_format options)), h)
           | Inr reportPath \<Rightarrow>
               (case writeReportAtomically mc reportPath content h of
                  (Inl failure, h') \<Rightarrow> (Some (failCommand failure (po_format options)), h')
                | (Inr _, h') \<Rightarrow> (None, h'))))"

definition reporting :: "Site \<Rightarrow> Machine \<Rightarrow> ParsedOptions \<Rightarrow> bytes \<Rightarrow> CommandResult \<Rightarrow> command_step" where
  "reporting site mc options content finished h =
     (case emitRequestedReport site mc options content h of
        (Some refused, h') \<Rightarrow> (refused, h')
      | (None, h') \<Rightarrow> (finished, h'))"

text \<open>An audit: its failure ends the command; otherwise its report is written and the rest follows.\<close>

definition audited :: "ParsedOptions \<Rightarrow> 'a Result \<Rightarrow> ('a \<Rightarrow> command_step) \<Rightarrow> command_step" where
  "audited options found rest =
     (case found of Inl failure \<Rightarrow> purely (failCommand failure (po_format options)) | Inr x \<Rightarrow> rest x)"

definition validateOperation :: "Site \<Rightarrow> Machine \<Rightarrow> ParsedOptions \<Rightarrow> command_step" where
  "validateOperation site mc options =
     audited options (validateRepository site (po_repositoryRoot options)) (\<lambda>snapshot.
       reporting site mc options (buildAuthorityValidationReport snapshot)
         (printed (renderSuccess ''validate_repository''
           (nat_to_string (length (sn_tools snapshot)) @ '' repository tool(s) valid'') (po_format options))))"

definition graphText :: "OutputFormat \<Rightarrow> ToolInfo list \<Rightarrow> bytes" where
  "graphText format tools =
     (if format = Human
      then concat (map (\<lambda>tool. ti_id tool @ '' -> '' @ ti_cmakeTarget tool @ [CHR 0x0A]) tools)
      else ''{'' @ writeJsonString ''ok'' @ '':true,'' @ writeJsonString ''operation'' @ '':'' @
        writeJsonString ''graph_repository'' @ '','' @ writeJsonString ''tools'' @ '':['' @
        separate (map (\<lambda>tool. ''{'' @ writeJsonString ''id'' @ '':'' @ writeJsonString (ti_id tool) @ '','' @
          writeJsonString ''target'' @ '':'' @ writeJsonString (ti_cmakeTarget tool) @ ''}'') tools) @ '']}'' @ [CHR 0x0A])"

definition graphOperation :: "Site \<Rightarrow> Machine \<Rightarrow> ParsedOptions \<Rightarrow> command_step" where
  "graphOperation site mc options =
     audited options (validateRepository site (po_repositoryRoot options)) (\<lambda>snapshot.
       reporting site mc options (buildRepositoryGraphReport snapshot)
         (printed (graphText (po_format options) (sn_tools snapshot))))"

definition explainText :: "ToolInfo \<Rightarrow> bytes" where
  "explainText tool =
     ti_id tool @ [CHR 0x0A] @ ''  third_party:'' @ concat (map (\<lambda>d. CHR '' '' # d) (ti_thirdPartyDependencies tool)) @
     [CHR 0x0A] @ ''  managed_tools:'' @ concat (map (\<lambda>d. CHR '' '' # d) (ti_managedToolDependencies tool)) @ [CHR 0x0A]"

definition explainOperation :: "Site \<Rightarrow> Machine \<Rightarrow> ParsedOptions \<Rightarrow> command_step" where
  "explainOperation site mc options =
     audited options (given ''--tool'' ''tool ID is required'' (po_toolId options)) (\<lambda>toolId.
     audited options (validateRepository site (po_repositoryRoot options)) (\<lambda>snapshot.
     audited options (case List.find (\<lambda>tool. ti_id tool = toolId) (sn_tools snapshot) of
         None \<Rightarrow> fail MissingInput toolId ''tool is not a repository member'' | Some tool \<Rightarrow> Inr tool) (\<lambda>kTool.
       reporting site mc options (buildDependencyClosureReport kTool) (printed (explainText kTool)))))"

definition gateWarning :: "SourceOwnershipEntry \<Rightarrow> bytes" where
  "gateWarning entry =
     (if so_gate entry = GateOk then []
      else sourceGateSeverity (so_gate entry) @ '': '' @ so_path entry @ '' reaches '' @ nat_to_string (so_lines entry) @
        '' physical lines and requires '' @
        (if so_gate entry = FeatureGrowthStopped
         then ''a decomposition or documented containment plan before unrelated feature growth''
         else ''an explicit STD-0001 ownership review before further feature growth'') @ [CHR 0x0A])"

definition sourceOperation :: "Site \<Rightarrow> Machine \<Rightarrow> ParsedOptions \<Rightarrow> command_step" where
  "sourceOperation site mc options =
     audited options (inspectSourceOwnership site (po_repositoryRoot options)) (\<lambda>report.
       let kReportContent = buildSourceOwnershipReport report
       in reporting site mc options kReportContent
            \<lparr>cr_exit = 0,
             cr_output = (if po_format options = Json then kReportContent
               else concat (map (\<lambda>e. nat_to_string (so_lines e) @ [CHR 0x09] @ so_owner e @ [CHR 0x09] @ so_path e @ [CHR 0x0A]) report)),
             cr_errors = concat (map gateWarning report)\<rparr>)"

definition offlineOperation :: "Site \<Rightarrow> Machine \<Rightarrow> ParsedOptions \<Rightarrow> command_step" where
  "offlineOperation site mc options =
     audited options (given ''--host'' ''host ID is required'' (po_hostId options)) (\<lambda>hostId.
     audited options (verifyOfflineInputs site (po_repositoryRoot options) hostId) (\<lambda>report.
       reporting site mc options (buildOfflineVerificationReport hostId report)
         (printed (renderSuccess ''verify_offline''
           (nat_to_string (ov_checkedArtifacts report) @ '' artifact(s), '' @ nat_to_string (ov_checkedBytes report) @ '' bytes'')
           (po_format options)))))"

definition licenseOperation :: "Site \<Rightarrow> Machine \<Rightarrow> ParsedOptions \<Rightarrow> command_step" where
  "licenseOperation site mc options =
     audited options (reviewLicenses site (po_repositoryRoot options)) (\<lambda>review.
       reporting site mc options (buildLicenseReviewReport review)
         (printed (renderSuccess ''review_licenses''
           (nat_to_string (length (lv_entries review)) @ '' license entr(ies) cover '' @
            nat_to_string (lv_catalogEntryCount review) @ '' catalog entr(ies), '' @
            nat_to_string (lv_restrictedCount review) @ '' restricted'') (po_format options))))"

definition pathAuditOperation :: "Site \<Rightarrow> Machine \<Rightarrow> ParsedOptions \<Rightarrow> command_step" where
  "pathAuditOperation site mc options =
     audited options (auditRepositoryPaths site (po_repositoryRoot options)) (\<lambda>audit.
       reporting site mc options (buildPathAuditReport audit)
         (case pa_envelopeViolations audit of
            violation # _ \<Rightarrow> failCommand \<lparr>f_code = VerificationFailed, f_path = px_path violation,
              f_message = ''delivered material escapes the TASK-0001 write envelope''\<rparr> (po_format options)
          | [] \<Rightarrow> printed (renderSuccess ''audit_paths''
              (nat_to_string (pa_envelopeFileCount audit) @ '' envelope file(s), '' @
               nat_to_string (pa_preexistingFileCount audit) @ '' pre-existing file(s), '' @
               nat_to_string (length (pa_stagingRootEntries audit)) @ '' staging-excluded entr(ies), '' @
               nat_to_string (length (pa_unclassifiedRootEntries audit)) @ '' unclassified workspace entr(ies)'')
              (po_format options))))"

definition shippingClosureOperation :: "Site \<Rightarrow> Machine \<Rightarrow> ParsedOptions \<Rightarrow> command_step" where
  "shippingClosureOperation site mc options =
     audited options (validateRepository site (po_repositoryRoot options)) (\<lambda>snapshot.
     audited options (auditShippingClosure site (sn_root snapshot) snapshot) (\<lambda>audit.
       reporting site mc options (buildShippingClosureReport audit)
         (case List.find (\<lambda>c. \<not> sc_pass c) (sa_checks audit) of
            Some kFailed \<Rightarrow> failCommand \<lparr>f_code = VerificationFailed, f_path = sc_check kFailed @ '': '' @ sc_subject kFailed,
              f_message = ''shipping-closure audit check failed''\<rparr> (po_format options)
          | None \<Rightarrow> printed (renderSuccess ''audit_shipping_closure''
              (nat_to_string (length (sa_checks audit)) @ '' check(s) passed'') (po_format options)))))"

section \<open>The dispatch\<close>

definition usage :: "string \<Rightarrow> string \<Rightarrow> OutputFormat \<Rightarrow> CommandResult" where
  "usage path message format = failCommand \<lparr>f_code = InvalidArguments, f_path = path, f_message = message\<rparr> format"

text \<open>The operations that write no report, and what they say when one is asked for.\<close>

definition reportRefusal :: "string \<Rightarrow> string \<Rightarrow> string option" where
  "reportRefusal kOperation subject =
     (if subject = ''record'' \<and> (kOperation = ''canonicalize'' \<or> kOperation = ''validate'')
      then Some ''record operations write no report''
      else if subject = ''blob'' \<and> (kOperation = ''put'' \<or> kOperation = ''verify'' \<or> kOperation = ''get'')
      then Some ''store operations write no report''
      else if kOperation = ''assemble'' \<and> subject = ''evidence-set'' then Some ''assembly writes no report''
      else if kOperation = ''load'' \<and> subject = ''evidence-index'' then Some ''loading maintained evidence writes no report''
      else if kOperation = ''evaluate'' \<and> subject = ''evidence-set'' then Some ''evaluation writes no report''
      else None)"

definition dispatch :: "Site \<Rightarrow> Machine \<Rightarrow> string \<Rightarrow> string \<Rightarrow> ParsedOptions \<Rightarrow> command_step" where
  "dispatch site mc kOperation subject options h =
     (if po_reportPath options \<noteq> None \<and> reportRefusal kOperation subject \<noteq> None
      then (usage ''--report'' (the (reportRefusal kOperation subject)) (po_format options), h)
      else if kOperation = ''assemble'' \<and> subject = ''evidence-set'' then (assembleOperation site (storeFor mc h options) options, h)
      else if kOperation = ''evaluate'' \<and> subject = ''evidence-set'' then (evaluateOperation site (storeFor mc h options) options, h)
      else if kOperation = ''put'' \<and> subject = ''blob'' then putBlobOperation site mc options h
      else if kOperation = ''verify'' \<and> subject = ''blob'' then verifyBlobOperation mc options h
      else if kOperation = ''get'' \<and> subject = ''blob'' then getBlobOperation mc options h
      else if kOperation = ''canonicalize'' \<and> subject = ''record'' then (canonicalizeOperation site options, h)
      else if kOperation = ''validate'' \<and> subject = ''record'' then (validateRecordOperation site options, h)
      else if kOperation = ''validate'' \<and> subject = ''repository'' then validateOperation site mc options h
      else if kOperation = ''graph'' \<and> subject = ''repository'' then graphOperation site mc options h
      else if kOperation = ''explain'' \<and> subject = ''dependency'' then explainOperation site mc options h
      else if kOperation = ''inspect'' \<and> subject = ''source-ownership'' then sourceOperation site mc options h
      else if kOperation = ''review'' \<and> subject = ''licenses'' then licenseOperation site mc options h
      else if kOperation = ''load'' \<and> subject = ''evidence-index'' then (loadEvidenceIndexOperation site options, h)
      else if kOperation = ''audit'' \<and> subject = ''paths'' then pathAuditOperation site mc options h
      else if kOperation = ''audit'' \<and> subject = ''shipping-closure'' then shippingClosureOperation site mc options h
      else if kOperation = ''verify-offline'' then offlineOperation site mc options h
      else (usage ''command'' ''unsupported operation'' (po_format options), h))"

text \<open>The requests for authority, named one after the other.\<close>

fun named :: "string list \<Rightarrow> string" where
  "named [] = []"
| "named [kRequest] = kRequest"
| "named (kRequest # next_one # rest) = kRequest @ '', '' @ named (next_one # rest)"

definition parsed :: "Site \<Rightarrow> string list \<Rightarrow> (ParsedOptions \<Rightarrow> command_step) \<Rightarrow> command_step" where
  "parsed site arguments continue h =
     (case parseArguments site arguments of
        Inl failure \<Rightarrow> (failCommand failure Human, h) | Inr options \<Rightarrow> continue options h)"

definition runEvidence :: "Site \<Rightarrow> Machine \<Rightarrow> string list \<Rightarrow> command_step" where
  "runEvidence site mc arguments h =
     (case arguments of
        [] \<Rightarrow> (usage ''command'' ''expected an operation'' Human, h)
      | kOperation # rest \<Rightarrow>
          if refusedEscalationRequests arguments \<noteq> []
          then (usage (named (refusedEscalationRequests arguments))
            ''authority is not raised by an argument; provenance is derived from a verified attestation'' Human, h)
          else if kOperation = ''verify-offline'' then parsed site rest (dispatch site mc kOperation []) h
          else (case rest of
              [] \<Rightarrow> (usage ''command'' ''expected an operation subject'' Human, h)
            | subject # options \<Rightarrow> parsed site options (dispatch site mc kOperation subject) h))"

text \<open>\<open>main\<close>: the arguments after the name of the program.\<close>

definition evidenceMain :: "Site \<Rightarrow> Machine \<Rightarrow> string list \<Rightarrow> command_step" where
  "evidenceMain site mc argumentValues = runEvidence site mc (drop 1 argumentValues)"

text \<open>A site with one file, for the examples.\<close>

definition demo_site :: Site where
  "demo_site = \<lparr>
     su_probe = (\<lambda>p. \<lparr>pb_exists = False, pb_regular = False, pb_size = None, pb_opens = False, pb_content = None\<rparr>),
     su_reads = (\<lambda>p. \<lparr>fr_opens = False, fr_chunks = [], fr_eof = True\<rparr>), su_regular = (\<lambda>p. False),
     su_run = (\<lambda>r. fail MissingInput (pr_executable r) ''nothing to run''), su_provider = demo_provider,
     su_iterate = demo_iterate, su_utf8 = (\<lambda>b. True), si_canonical = Some,
     si_node = (\<lambda>p. Inr (if p = ''/r/f'' then Some (FileNode ''hi'') else None)), si_status = (\<lambda>p. Some False),
     si_walk = (\<lambda>p. []), si_parse = (\<lambda>b. Inr DNull), si_errorText = (\<lambda>e. [])\<rparr>"

section \<open>Authority is not raised by an argument\<close>

text \<open>
  C13. A command line with an argument that asks for authority, with or without a value and wherever it stands, is
  refused before anything is parsed or read: exit code 2, nothing on the standard output, the request named, and
  the host as it was.
\<close>

theorem escalation_is_refused:
  assumes "argumentName a \<in> set kEscalationVocabulary"
  shows "runEvidence site mc (before @ a # after) h =
    (\<lparr>cr_exit = 2, cr_output = [],
      cr_errors = renderFailure \<lparr>f_code = InvalidArguments,
        f_path = named (filter (\<lambda>k. argumentName k \<in> set kEscalationVocabulary) before @
          a # filter (\<lambda>k. argumentName k \<in> set kEscalationVocabulary) after),
        f_message = ''authority is not raised by an argument; provenance is derived from a verified attestation''\<rparr> Human\<rparr>, h)"
proof -
  have refused: "refusedEscalationRequests (before @ a # after) =
      filter (\<lambda>k. argumentName k \<in> set kEscalationVocabulary) before @
        a # filter (\<lambda>k. argumentName k \<in> set kEscalationVocabulary) after"
    using assms by (simp add: refusedEscalationRequests_def)
  obtain c cs where "before @ a # after = c # cs" by (cases "before @ a # after") auto
  then show ?thesis
    using refused by (simp add: runEvidence_def usage_def failCommand_def)
qed

theorem escalation_is_refused_witness:
  "cr_exit (fst (runEvidence demo_site faulty_machine [''evaluate'', ''evidence-set'', ''--trust=trusted_ci''] bare_host)) = 2"
proof -
  have "argumentName ''--trust=trusted_ci'' \<in> set kEscalationVocabulary"
    by (simp add: argumentName_def kEscalationVocabulary_def index_of.simps)
  from escalation_is_refused [OF this, of demo_site faulty_machine "[''evaluate'', ''evidence-set'']" "[]" bare_host]
  show ?thesis by simp
qed

section \<open>Only a put and a report write\<close>

text \<open>A step that leaves the disk as it is.\<close>

definition reads_only :: "(Host \<Rightarrow> 'a \<times> Host) \<Rightarrow> bool" where
  "reads_only m \<longleftrightarrow> (\<forall>h. ho_disk (snd (m h)) = ho_disk h)"

lemma reads_only_call:
  "quiet mc \<Longrightarrow> (\<And>d. snd (performed d) = d) \<Longrightarrow> reads_only (system_call mc failing performed)"
  by (simp add: reads_only_def quiet_call)

lemma reads_only_sbind: "reads_only m \<Longrightarrow> (\<And>x. reads_only (f x)) \<Longrightarrow> reads_only (sbind m f)"
  by (auto simp: reads_only_def sbind_def split: prod.split sum.split) (metis snd_conv)+

lemma reads_only_answer: "reads_only (answer r)" by (simp add: reads_only_def answer_def)

lemma reads_only_mapped: "reads_only m \<Longrightarrow> reads_only (mapped r m)"
  by (auto simp: reads_only_def mapped_def split: prod.split sum.split) (metis snd_conv)+

lemma reads_only_classify: "quiet mc \<Longrightarrow> reads_only (classifyPath mc p)"
  unfolding classifyPath_def by (rule reads_only_call) simp_all

lemma reads_only_readPath: "quiet mc \<Longrightarrow> reads_only (readPath mc p)"
  unfolding readPath_def by (rule reads_only_call) simp_all

lemma reads_only_measure: "quiet mc \<Longrightarrow> reads_only (measureFile mc p)"
  using reads_only_readPath [of mc p] by (auto simp: reads_only_def measureFile_def split: prod.split) (metis snd_conv)

lemma reads_only_enter: "quiet mc \<Longrightarrow> reads_only (enterDirectory mc False p)"
  unfolding enterDirectory_def
  by (auto intro!: reads_only_sbind reads_only_mapped reads_only_classify reads_only_answer split: FileKind.split)

lemma reads_only_verify: "quiet mc \<Longrightarrow> reads_only (verifyBlob mc root digest)"
  unfolding verifyBlob_def walkStoreChain_def Let_def
  by (auto intro!: reads_only_sbind reads_only_mapped reads_only_classify reads_only_answer reads_only_enter reads_only_measure)

lemma reads_only_reread: "quiet mc \<Longrightarrow> reads_only (rereadBlob mc p identity)"
  using reads_only_readPath [of mc p]
  by (auto simp: reads_only_def rereadBlob_def Let_def split: prod.split sum.split) (metis snd_conv)+

lemma reads_only_get: "quiet mc \<Longrightarrow> reads_only (getBlob mc root digest)"
  unfolding getBlob_def by (intro reads_only_sbind reads_only_verify reads_only_answer reads_only_reread)

lemma reads_only_audited [intro]:
  "(\<And>x. found = Inr x \<Longrightarrow> reads_only (rest x)) \<Longrightarrow> reads_only (audited options found rest)"
  by (auto simp: audited_def purely_def reads_only_def split: sum.split)

lemma reads_only_reporting [simp, intro]:
  "po_reportPath options = None \<Longrightarrow> reads_only (reporting site mc options content finished)"
  by (simp add: reads_only_def reporting_def emitRequestedReport_def)

lemma applyOption_report:
  "applyOption k v (options, root) = Inr (options', root') \<Longrightarrow> k \<noteq> ''--report'' \<Longrightarrow>
     po_reportPath options' = po_reportPath options"
  by (auto simp: applyOption_def rbind_Inr_iff split: if_split_asm)

lemma argumentLoop_report:
  "argumentLoop arguments (options, root) = Inr (options', root') \<Longrightarrow> ''--report'' \<notin> set arguments \<Longrightarrow>
     po_reportPath options' = po_reportPath options"
proof (induction arguments "(options, root)" arbitrary: options root rule: argumentLoop.induct)
  case (3 k v rest)
  then obtain one where "applyOption k (Some v) (options, root) = Inr one" "argumentLoop rest one = Inr (options', root')"
    by (auto simp: rbind_Inr_iff)
  then show ?case
    using 3 applyOption_report by (cases one) auto
qed (auto dest: applyOption_report)

lemma parseArguments_report:
  "parseArguments site arguments = Inr options \<Longrightarrow> ''--report'' \<notin> set arguments \<Longrightarrow> po_reportPath options = None"
  by (auto simp: parseArguments_def rbind_Inr_iff noOptions_def dest!: argumentLoop_report split: if_split_asm option.split_asm)

lemma dispatch_reads_only:
  assumes "quiet mc" and "po_reportPath options = None" and "(operation, subject) \<noteq> (''put'', ''blob'')"
  shows "ho_disk (snd (dispatch site mc operation subject options h)) = ho_disk h"
proof -
  have blobs: "ho_disk (snd (verifyBlobOperation mc options h)) = ho_disk h"
    "ho_disk (snd (getBlobOperation mc options h)) = ho_disk h"
    using reads_only_verify [OF assms(1), of "storeRoot options"] reads_only_get [OF assms(1), of "storeRoot options"]
    by (auto simp: verifyBlobOperation_def getBlobOperation_def reads_only_def split: option.split prod.split sum.split)
      (metis snd_conv)+
  have audits: "reads_only (validateOperation site mc options)" "reads_only (graphOperation site mc options)"
    "reads_only (explainOperation site mc options)" "reads_only (sourceOperation site mc options)"
    "reads_only (offlineOperation site mc options)" "reads_only (licenseOperation site mc options)"
    "reads_only (pathAuditOperation site mc options)" "reads_only (shippingClosureOperation site mc options)"
    using assms(2)
    by (auto simp: validateOperation_def graphOperation_def explainOperation_def sourceOperation_def offlineOperation_def
        licenseOperation_def pathAuditOperation_def shippingClosureOperation_def Let_def)
  show ?thesis
    using assms(3) blobs audits [unfolded reads_only_def] by (auto simp: dispatch_def)
qed



section \<open>What is put is what is got\<close>

lemma putBlobOperation_ok:
  assumes "resolveContentSource site options = Inr source"
    and "put_ready mc (storeRoot options) source b (ho_disk h)" and "po_mediaType options = Some media"
  shows "\<exists>h'. putBlobOperation site mc options h =
      (emitDescriptor \<lparr>d_mediaType = media, d_byteLength = length b, d_digest = name_of (mc_provider mc) b\<rparr>, h') \<and>
    fst (getBlob mc (storeRoot options) (name_of (mc_provider mc) b) h') = Inr b"
proof -
  obtain h' where "putBlob mc (storeRoot options) source h = (Inr (identity_of (mc_provider mc) b), h')"
    and "fst (getBlob mc (storeRoot options) (name_of (mc_provider mc) b) h') = Inr b"
    using put_get [OF assms(2)] by auto
  then show ?thesis
    using assms(1,3) by (simp add: putBlobOperation_def reportIdentity_def describeStoredBlob_def identity_of_def)
qed

text \<open>An argument that is neither empty nor a request for authority.\<close>

definition plain_argument :: "string \<Rightarrow> bool" where
  "plain_argument a \<longleftrightarrow> a \<noteq> [] \<and> argumentName a \<notin> set kEscalationVocabulary"

lemma digest_plain: "plain_argument (name_of evp b)"
proof -
  have "hd (argumentName (name_of evp b)) = CHR ''s''"
    by (simp add: argumentName_def name_of_def kDigestPrefix_def index_of.simps split: option.split)
  moreover have "hd word = CHR ''-''" if "word \<in> set kEscalationVocabulary" for word
    using that by (auto simp: kEscalationVocabulary_def)
  ultimately show ?thesis by (auto simp: plain_argument_def name_of_def kDigestPrefix_def)
qed

lemma plain_words:
  "refusedEscalationRequests (''put'' # ''blob'' # as) = refusedEscalationRequests as"
  "refusedEscalationRequests (''get'' # ''blob'' # as) = refusedEscalationRequests as"
  "plain_argument v \<Longrightarrow> refusedEscalationRequests (''--root'' # v # as) = refusedEscalationRequests as"
  "plain_argument v \<Longrightarrow> refusedEscalationRequests (''--source'' # v # as) = refusedEscalationRequests as"
  "plain_argument v \<Longrightarrow> refusedEscalationRequests (''--media'' # v # as) = refusedEscalationRequests as"
  "plain_argument v \<Longrightarrow> refusedEscalationRequests (''--digest'' # v # as) = refusedEscalationRequests as"
  by (simp_all add: refusedEscalationRequests_def plain_argument_def argumentName_def [of "_ # _"] index_of.simps
      kEscalationVocabulary_def)

text \<open>
  C7. On a quiet host with room for it, the command \<open>put blob\<close> on a source of the repository prints the descriptor
  of its content, with the media type given, its length and its digest, and exits with 0; and the command
  \<open>get blob\<close> for that digest, given afterwards, prints exactly that content and exits with 0.
\<close>

theorem put_blob_then_get_blob:
  assumes "si_canonical site root = Some r" and "resolveRepositoryPath site r source = Inr p"
    and "classifySite site (path_append r source) = Inr KindRegular"
    and "put_ready mc (path_append r kBlobStoreRelativeRoot) p b (ho_disk h)"
    and "plain_argument root" and "plain_argument source" and "plain_argument media"
  shows "\<exists>h'. runEvidence site mc [''put'', ''blob'', ''--root'', root, ''--source'', source, ''--media'', media] h =
      (emitDescriptor \<lparr>d_mediaType = media, d_byteLength = length b, d_digest = name_of (mc_provider mc) b\<rparr>, h') \<and>
    fst (runEvidence site mc [''get'', ''blob'', ''--root'', root, ''--digest'', name_of (mc_provider mc) b] h') = printed b"
proof -
  let ?put = "noOptions\<lparr>po_repositoryRoot := r, po_sourcePath := Some source, po_mediaType := Some media\<rparr>"
  let ?get = "noOptions\<lparr>po_repositoryRoot := r, po_digest := Some (name_of (mc_provider mc) b)\<rparr>"
  have given: "root \<noteq> []" "source \<noteq> []" "media \<noteq> []" "name_of (mc_provider mc) b \<noteq> []"
    using assms(5-7) digest_plain [of "mc_provider mc" b] by (simp_all add: plain_argument_def)
  have options: "parseArguments site [''--root'', root, ''--source'', source, ''--media'', media] = Inr ?put"
    "parseArguments site [''--root'', root, ''--digest'', name_of (mc_provider mc) b] = Inr ?get"
    using assms(1) given by (simp_all add: parseArguments_def applyOption_def nonempty_def noOptions_def)
  have "resolveContentSource site ?put = Inr p"
    using assms(2,3) by (simp add: resolveContentSource_def)
  moreover have roots: "storeRoot ?put = path_append r kBlobStoreRelativeRoot" "storeRoot ?get = path_append r kBlobStoreRelativeRoot"
    by (simp_all add: storeRoot_def)
  ultimately obtain h' where put: "putBlobOperation site mc ?put h =
      (emitDescriptor \<lparr>d_mediaType = media, d_byteLength = length b, d_digest = name_of (mc_provider mc) b\<rparr>, h')"
    and got: "fst (getBlob mc (path_append r kBlobStoreRelativeRoot) (name_of (mc_provider mc) b) h') = Inr b"
    using putBlobOperation_ok [of site ?put p mc b h media] assms(4) by auto
  obtain h'' where get: "getBlob mc (path_append r kBlobStoreRelativeRoot) (name_of (mc_provider mc) b) h' = (Inr b, h'')"
    using got by (metis prod.collapse)
  have "refusedEscalationRequests [''put'', ''blob'', ''--root'', root, ''--source'', source, ''--media'', media] = []"
    "refusedEscalationRequests [''get'', ''blob'', ''--root'', root, ''--digest'', name_of (mc_provider mc) b] = []"
    using assms(5-7) digest_plain by (simp_all only: plain_words) (simp_all add: refusedEscalationRequests_def)
  then show ?thesis
    using options put get roots
    by (simp add: runEvidence_def parsed_def dispatch_def reportRefusal_def getBlobOperation_def noOptions_def)
qed

theorem put_blob_then_get_blob_witness:
  "\<exists>mc h h' digest. runEvidence demo_site mc [''put'', ''blob'', ''--root'', ''/r'', ''--source'', ''f'', ''--media'', ''m''] h =
      (emitDescriptor \<lparr>d_mediaType = ''m'', d_byteLength = 2, d_digest = digest\<rparr>, h') \<and>
    fst (runEvidence demo_site mc [''get'', ''blob'', ''--root'', ''/r'', ''--digest'', digest] h') = printed ''hi''"
proof -
  let ?evp = "\<lparr>evp_new = True, evp_init = True, evp_update = \<lambda>_ _. True, evp_final = \<lambda>_. Some (replicate 32 0)\<rparr>"
  let ?mc = "\<lparr>mc_provider = ?evp, mc_process = 7, mc_others = \<lambda>_ disk. disk, mc_fault = \<lambda>_. None\<rparr>"
  let ?h = "\<lparr>ho_disk = [''/r/f'' \<mapsto> FileNode ''hi''], ho_clock = 0, ho_stagings = 0\<rparr>"
  let ?root = "path_append ''/r'' kBlobStoreRelativeRoot"
  have root: "?root = ''/r/out/evidence/v1/blobs''"
    by (simp add: path_append_def kBlobStoreRelativeRoot_def starts_with_def ends_with_def)
  have away: "''/r/f'' \<notin> set (directories_to (bucket_of ?root d))" for d
    by (auto simp: mem_directories_to bucket_of_def root)
  have staged: "\<not> own_staged ?mc ?root ''/r/f''"
    by (auto simp: own_staged_def blob_path_def root dest!: pathFor_length)
  have stored: "pathFor ?root d = Inr q \<Longrightarrow> q \<noteq> ''/r/f''" for d q
    by (auto simp: root dest!: pathFor_length)
  have ready: "put_ready ?mc ?root ''/r/f'' ''hi'' (ho_disk ?h)"
    using away staged stored
    by (auto simp: put_ready_def quiet_def total_provider_def clear_way_def kMaximumBlobBytes_def root)
  have "\<not> containsForbiddenComponent ''f''" by code_simp
  moreover have "portableLowercasePath ''/r'' = ''/r''" "portableLowercasePath ''/r/f'' = ''/r/f''" by code_simp+
  ultimately have "resolveRepositoryPath demo_site ''/r'' ''f'' = Inr ''/r/f''"
    by (simp add: resolveRepositoryPath_def demo_site_def path_append_def starts_with_def ends_with_def Let_def)
  note resolved = this
  have canonical: "si_canonical demo_site ''/r'' = Some ''/r''" by (simp add: demo_site_def)
  have kind: "classifySite demo_site (path_append ''/r'' ''f'') = Inr KindRegular"
    by (simp add: classifySite_def demo_site_def path_append_def starts_with_def ends_with_def kind_of_node_def)
  have plain: "plain_argument ''/r''" "plain_argument ''f''" "plain_argument ''m''"
    by (simp_all add: plain_argument_def argumentName_def index_of.simps kEscalationVocabulary_def)
  have "\<exists>h'. runEvidence demo_site ?mc [''put'', ''blob'', ''--root'', ''/r'', ''--source'', ''f'', ''--media'', ''m''] ?h =
      (emitDescriptor \<lparr>d_mediaType = ''m'', d_byteLength = length ''hi'', d_digest = name_of (mc_provider ?mc) ''hi''\<rparr>, h') \<and>
    fst (runEvidence demo_site ?mc [''get'', ''blob'', ''--root'', ''/r'', ''--digest'', name_of (mc_provider ?mc) ''hi''] h') = printed ''hi''"
    by (rule put_blob_then_get_blob [OF canonical resolved kind ready plain])
  moreover have "length ''hi'' = 2" by simp
  ultimately show ?thesis by metis
qed

end
