(* ===== verification/Base_Bits128.thy ===== *)
theory Base_Bits128
  imports Numbers "HOL-Library.Word"
begin

unbundle bit_operations_syntax

text \<open>
  \<open>source/base/include/rawframe/base/bits128.h\<close>: the 128-bit value every identity domain wraps,
  its order, and its canonical text.  The loops over the text are recursions over the digits
  with the code's index and its two 64-bit accumulators; the writer stores through a buffer of
  32 characters, as \<open>std::span<char, 32>\<close> does.
\<close>

section \<open>Model\<close>

datatype Bits128 = Bits128 (high: "64 word") (low: "64 word")

text \<open>The defaulted three-way comparison orders the members in declaration order.\<close>

definition bits128Before :: "Bits128 \<Rightarrow> Bits128 \<Rightarrow> bool" where
  "bits128Before v w \<longleftrightarrow> high v < high w \<or> high v = high w \<and> low v < low w"

instantiation Bits128 :: linorder
begin

definition less_eq_Bits128 :: "Bits128 \<Rightarrow> Bits128 \<Rightarrow> bool" where
  "less_eq_Bits128 v w \<longleftrightarrow> v = w \<or> bits128Before v w"

definition less_Bits128 :: "Bits128 \<Rightarrow> Bits128 \<Rightarrow> bool" where
  "less_Bits128 v w \<longleftrightarrow> bits128Before v w"

instance
  by standard (auto simp: less_eq_Bits128_def less_Bits128_def bits128Before_def intro: Bits128.expand)

end

definition kBits128HexDigits :: nat where
  "kBits128HexDigits = 32"

record Bits128Parse =
  bp_value :: Bits128
  bp_parsed :: bool

definition notParsed :: Bits128Parse where
  "notParsed = \<lparr>bp_value = Bits128 0 0, bp_parsed = False\<rparr>"

definition hexNibble :: "char \<Rightarrow> 64 word option" where
  "hexNibble kDigit =
     (if CHR ''0'' \<le> kDigit \<and> kDigit \<le> CHR ''9''
      then Some (word_of_nat (of_char kDigit - of_char (CHR ''0'')))
      else if CHR ''a'' \<le> kDigit \<and> kDigit \<le> CHR ''f''
      then Some (word_of_nat (of_char kDigit - of_char (CHR ''a'')) + 10)
      else None)"

fun parseDigits :: "nat \<Rightarrow> 64 word \<Rightarrow> 64 word \<Rightarrow> string \<Rightarrow> Bits128Parse" where
  "parseDigits index hi lo [] = \<lparr>bp_value = Bits128 hi lo, bp_parsed = True\<rparr>"
| "parseDigits index hi lo (kDigit # rest) =
     (case hexNibble kDigit of
        None \<Rightarrow> notParsed
      | Some nibble \<Rightarrow>
          (if index < kBits128HexDigits div 2
           then parseDigits (Suc index) (push_bit 4 hi OR nibble) lo rest
           else parseDigits (Suc index) hi (push_bit 4 lo OR nibble) rest))"

definition parseBits128Hex :: "string \<Rightarrow> Bits128Parse" where
  "parseBits128Hex text =
     (if length text \<noteq> kBits128HexDigits then notParsed else parseDigits 0 0 0 text)"

definition hexDigitAt :: "64 word \<Rightarrow> nat \<Rightarrow> char" where
  "hexDigitAt w index = hex_char (unat (drop_bit (60 - 4 * index) w AND 0xF))"

definition formatStep :: "Bits128 \<Rightarrow> string \<Rightarrow> nat \<Rightarrow> string" where
  "formatStep v out index =
     (out[index := hexDigitAt (high v) index])
       [kBits128HexDigits div 2 + index := hexDigitAt (low v) index]"

definition formatBits128Hex :: "Bits128 \<Rightarrow> string \<Rightarrow> string" where
  "formatBits128Hex v out = foldl (formatStep v) out [0..<kBits128HexDigits div 2]"

section \<open>Nibbles as base-16 digits\<close>

lemma hexNibble_alt: "hexNibble c = map_option word_of_nat (hex_value c)"
  by (auto simp: hexNibble_def hex_value_def)

lemma push_or_nibble:
  assumes "d < 16"
  shows "push_bit 4 w OR (word_of_nat d :: 64 word) = 16 * w + word_of_nat d"
proof -
  have "push_bit 4 w AND (word_of_nat d :: 64 word) = 0"
  proof (rule bit_word_eqI)
    fix n assume n: "n < LENGTH(64)"
    have "\<not> bit d n" if "4 \<le> n"
    proof -
      have "d < 2 ^ n"
        using assms power_increasing [of 4 n "2::nat"] that by simp
      then show ?thesis by (simp add: bit_iff_odd)
    qed
    then show "bit (push_bit 4 w AND (word_of_nat d :: 64 word)) n \<longleftrightarrow> bit (0 :: 64 word) n"
      using n by (auto simp: bit_simps)
  qed
  then have "push_bit 4 w OR word_of_nat d = push_bit 4 w + (word_of_nat d :: 64 word)"
    using word_plus_and_or [of "push_bit 4 w" "word_of_nat d"] by simp
  then show ?thesis by (simp add: push_bit_eq_mult mult.commute)
qed

definition nibbles_value :: "nat list \<Rightarrow> nat" where
  "nibbles_value ds = foldl (\<lambda>a d. 16 * a + d) 0 ds"

lemma nibbles_value_snoc [simp]: "nibbles_value (ds @ [d]) = 16 * nibbles_value ds + d"
  by (simp add: nibbles_value_def)

lemma nibbles_value_Nil [simp]: "nibbles_value [] = 0"
  by (simp add: nibbles_value_def)

lemma nibbles_value_bound: "\<forall>d\<in>set ds. d < 16 \<Longrightarrow> nibbles_value ds < 16 ^ length ds"
  by (induction ds rule: rev_induct) fastforce+

lemma nibbles_of_value:
  "nibbles_value (map (\<lambda>i. x div 16 ^ (n - 1 - i) mod 16) [0..<n]) = x mod 16 ^ n"
proof (induction n arbitrary: x)
  case 0
  then show ?case by simp
next
  case (Suc n)
  have "map (\<lambda>i. x div 16 ^ (Suc n - 1 - i) mod 16) [0..<Suc n]
      = map (\<lambda>i. (x div 16) div 16 ^ (n - 1 - i) mod 16) [0..<n] @ [x mod 16]"
    by (auto simp: div_mult2_eq [symmetric] power_Suc [symmetric] Suc_diff_Suc
        simp del: power_Suc)
  then have "nibbles_value (map (\<lambda>i. x div 16 ^ (Suc n - 1 - i) mod 16) [0..<Suc n])
      = 16 * ((x div 16) mod 16 ^ n) + x mod 16"
    by (simp only: nibbles_value_snoc Suc.IH)
  also have "\<dots> = x mod 16 ^ Suc n"
    by (simp add: mod_mult2_eq)
  finally show ?case .
qed

lemma nibbles_value_inj:
  assumes "length ds = length es" and "\<forall>d\<in>set ds. d < 16" and "\<forall>d\<in>set es. d < 16"
  shows "nibbles_value ds = nibbles_value es \<longleftrightarrow> ds = es"
  using assms
proof (induction ds arbitrary: es rule: rev_induct)
  case Nil
  then show ?case by simp
next
  case (snoc d ds)
  then obtain e es' where es: "es = es' @ [e]" by (cases es rule: rev_cases) auto
  have "16 * nibbles_value ds + d = 16 * nibbles_value es' + e
      \<longleftrightarrow> nibbles_value ds = nibbles_value es' \<and> d = e"
    using snoc.prems es by auto arith+
  with snoc es show ?case by auto
qed

lemma nibbles_value_less_iff:
  assumes "length ds = length es" and "\<forall>d\<in>set ds. d < 16" and "\<forall>d\<in>set es. d < 16"
  shows "nibbles_value ds < nibbles_value es \<longleftrightarrow> ds < es"
  using assms
proof (induction ds arbitrary: es rule: rev_induct)
  case Nil
  then show ?case by simp
next
  case (snoc d ds)
  then obtain e es' where es: "es = es' @ [e]" by (cases es rule: rev_cases) auto
  have len: "length ds = length es'" using snoc.prems es by simp
  have lex: "ds @ [d] < es' @ [e] \<longleftrightarrow> ds < es' \<or> ds = es' \<and> d < e"
    using len by (induction ds es' rule: list_induct2) auto
  have "16 * nibbles_value ds + d < 16 * nibbles_value es' + e
      \<longleftrightarrow> nibbles_value ds < nibbles_value es' \<or> nibbles_value ds = nibbles_value es' \<and> d < e"
    using snoc.prems es by auto
  moreover have "nibbles_value ds = nibbles_value es' \<longleftrightarrow> ds = es'"
    using len snoc.prems es by (intro nibbles_value_inj) auto
  ultimately show ?case using snoc.IH [OF len] snoc.prems es lex by auto
qed

section \<open>What the parser computes\<close>

fun hex_values :: "string \<Rightarrow> nat list option" where
  "hex_values [] = Some []"
| "hex_values (c # cs) =
     (case hex_value c of None \<Rightarrow> None
      | Some d \<Rightarrow> map_option ((#) d) (hex_values cs))"

lemma hex_values_map_hex_char:
  "\<forall>d\<in>set ds. d < 16 \<Longrightarrow> hex_values (map hex_char ds) = Some ds"
  by (induction ds) auto

lemma hex_values_Some:
  "hex_values cs = Some ds \<Longrightarrow> (\<forall>d\<in>set ds. d < 16) \<and> map hex_char ds = cs"
proof (induction cs arbitrary: ds)
  case Nil
  then show ?case by simp
next
  case (Cons c cs)
  then show ?case by (auto split: option.splits dest: hex_value_Some)
qed

lemma hex_values_length: "hex_values cs = Some ds \<Longrightarrow> length ds = length cs"
  using hex_values_Some length_map by metis

lemma word_of_nibbles_snoc:
  "16 * (word_of_nat (nibbles_value ds) :: 64 word) + word_of_nat d
     = word_of_nat (nibbles_value (ds @ [d]))"
  by simp

text \<open>
  From a position inside the text, with the digits read so far in the accumulators, the loop
  either meets a character that is no digit or shifts the remaining digits in.
\<close>

lemma parseDigits_low:
  "16 \<le> i \<Longrightarrow> lo = word_of_nat (nibbles_value es) \<Longrightarrow>
   parseDigits i hi lo cs =
     (case hex_values cs of None \<Rightarrow> notParsed
      | Some ds \<Rightarrow> \<lparr>bp_value = Bits128 hi (word_of_nat (nibbles_value (es @ ds))), bp_parsed = True\<rparr>)"
proof (induction cs arbitrary: i lo es)
  case Nil
  then show ?case by simp
next
  case (Cons c cs)
  show ?case
  proof (cases "hex_value c")
    case None
    then show ?thesis by (simp add: hexNibble_alt)
  next
    case (Some d)
    then have "d < 16" using hex_value_Some by blast
    then have "push_bit 4 lo OR word_of_nat d = (word_of_nat (nibbles_value (es @ [d])) :: 64 word)"
      using Cons.prems(2) by (simp add: push_or_nibble)
    from Cons.IH [OF _ this, of "Suc i"] Cons.prems(1) Some show ?thesis
      by (simp add: hexNibble_alt kBits128HexDigits_def split: option.splits)
  qed
qed

lemma parseDigits_high:
  "i + length cs = 16 \<Longrightarrow> hi = word_of_nat (nibbles_value es) \<Longrightarrow>
   parseDigits i hi 0 (cs @ cs') =
     (case hex_values cs of None \<Rightarrow> notParsed
      | Some ds \<Rightarrow> parseDigits 16 (word_of_nat (nibbles_value (es @ ds))) 0 cs')"
proof (induction cs arbitrary: i hi es)
  case Nil
  then show ?case by simp
next
  case (Cons c cs)
  show ?case
  proof (cases "hex_value c")
    case None
    then show ?thesis by (simp add: hexNibble_alt)
  next
    case (Some d)
    then have "d < 16" using hex_value_Some by blast
    then have "push_bit 4 hi OR word_of_nat d = (word_of_nat (nibbles_value (es @ [d])) :: 64 word)"
      using Cons.prems(2) by (simp add: push_or_nibble)
    from Cons.IH [OF _ this, of "Suc i"] Cons.prems(1) Some show ?thesis
      by (simp add: hexNibble_alt kBits128HexDigits_def split: option.splits)
  qed
qed

lemma parseBits128Hex_digits:
  assumes "length text = 32"
  shows "parseBits128Hex text =
    (case (hex_values (take 16 text), hex_values (drop 16 text)) of
       (Some hs, Some ls) \<Rightarrow>
         \<lparr>bp_value = Bits128 (word_of_nat (nibbles_value hs)) (word_of_nat (nibbles_value ls)),
          bp_parsed = True\<rparr>
     | _ \<Rightarrow> notParsed)"
proof -
  have "parseBits128Hex text = parseDigits 0 0 0 (take 16 text @ drop 16 text)"
    using assms by (simp add: parseBits128Hex_def kBits128HexDigits_def)
  also have "\<dots> = (case hex_values (take 16 text) of None \<Rightarrow> notParsed
      | Some ds \<Rightarrow> parseDigits 16 (word_of_nat (nibbles_value ds)) 0 (drop 16 text))"
    using parseDigits_high [of 0 "take 16 text" 0 "[]" "drop 16 text"] assms
    by (simp split: option.splits)
  finally show ?thesis
    using parseDigits_low [of 16 0 "[]"] by (simp split: option.splits)
qed

section \<open>What the writer produces\<close>

definition word_nibbles :: "64 word \<Rightarrow> nat list" where
  "word_nibbles w = map (\<lambda>i. unat w div 16 ^ (15 - i) mod 16) [0..<16]"

lemma word_nibbles_less: "\<forall>d\<in>set (word_nibbles w). d < 16"
  by (auto simp: word_nibbles_def)

lemma length_word_nibbles [simp]: "length (word_nibbles w) = 16"
  by (simp add: word_nibbles_def)

lemma nibbles_value_word: "nibbles_value (word_nibbles w) = unat w"
proof -
  have "nibbles_value (word_nibbles w) = unat w mod 16 ^ 16"
    using nibbles_of_value [of "unat w" 16] by (simp add: word_nibbles_def)
  moreover have "unat w < 16 ^ 16" using unsigned_less [of w, where ?'a = nat] by simp
  ultimately show ?thesis by simp
qed

lemma hexDigitAt_nibble:
  assumes "i < 16"
  shows "hexDigitAt w i = hex_char (word_nibbles w ! i)"
proof -
  have "unat (drop_bit (60 - 4 * i) w AND 0xF) = unat w div 2 ^ (60 - 4 * i) mod 16"
  proof -
    have "drop_bit (60 - 4 * i) w AND 0xF = take_bit 4 (drop_bit (60 - 4 * i) w)"
      by (simp add: take_bit_eq_mask mask_eq_exp_minus_1)
    moreover have "unat (take_bit 4 (drop_bit (60 - 4 * i) w))
        = take_bit 4 (drop_bit (60 - 4 * i) (take_bit LENGTH(64) (unat w)))"
      by (simp only: unsigned_take_bit_eq unsigned_drop_bit_eq)
    moreover have "take_bit LENGTH(64) (unat w) = unat w"
      using unsigned_less [of w, where ?'a = nat] by (simp add: take_bit_nat_eq_self_iff)
    ultimately show ?thesis by (simp only: take_bit_eq_mod drop_bit_eq_div) simp
  qed
  moreover have "(2::nat) ^ (60 - 4 * i) = 16 ^ (15 - i)"
  proof -
    have "60 - 4 * i = 4 * (15 - i)" using assms by simp
    then show ?thesis by (simp add: power_mult)
  qed
  ultimately show ?thesis using assms by (simp add: hexDigitAt_def word_nibbles_def)
qed

lemma formatBits128Hex_eq:
  assumes "length out = 32"
  shows "formatBits128Hex v out =
    map hex_char (word_nibbles (high v)) @ map hex_char (word_nibbles (low v))"
proof -
  have loop: "length (foldl (formatStep v) out [0..<n]) = 32 \<and>
      (\<forall>i<n. foldl (formatStep v) out [0..<n] ! i = hexDigitAt (high v) i \<and>
             foldl (formatStep v) out [0..<n] ! (16 + i) = hexDigitAt (low v) i)"
    if "n \<le> 16" for n
    using that
  proof (induction n)
    case 0
    then show ?case using assms by simp
  next
    case (Suc n)
    then show ?case
      by (auto simp: formatStep_def kBits128HexDigits_def nth_list_update less_Suc_eq)
  qed
  show ?thesis
  proof (rule nth_equalityI)
    show len: "length (formatBits128Hex v out) =
        length (map hex_char (word_nibbles (high v)) @ map hex_char (word_nibbles (low v)))"
      using loop [of 16] by (simp add: formatBits128Hex_def kBits128HexDigits_def)
    fix i assume "i < length (formatBits128Hex v out)"
    with len have i: "i < 32" by simp
    show "formatBits128Hex v out ! i =
        (map hex_char (word_nibbles (high v)) @ map hex_char (word_nibbles (low v))) ! i"
    proof (cases "i < 16")
      case True
      then show ?thesis
        using loop [of 16]
        by (simp add: formatBits128Hex_def kBits128HexDigits_def nth_append hexDigitAt_nibble)
    next
      case False
      with i obtain j where "i = 16 + j" and "j < 16" by (metis add_less_cancel_left
          le_Suc_ex linorder_not_less numeral_Bit0)
      then show ?thesis
        using loop [of 16]
        by (simp add: formatBits128Hex_def kBits128HexDigits_def nth_append hexDigitAt_nibble)
    qed
  qed
qed

lemma formatBits128Hex_length: "length out = 32 \<Longrightarrow> length (formatBits128Hex v out) = 32"
  by (simp add: formatBits128Hex_eq)

lemma word_of_word_nibbles [simp]: "word_of_nat (nibbles_value (word_nibbles w)) = w"
  by (simp add: nibbles_value_word)

lemma word_nibbles_of_value:
  assumes "length ds = 16" and "\<forall>d\<in>set ds. d < 16"
  shows "word_nibbles (word_of_nat (nibbles_value ds)) = ds"
proof -
  have "nibbles_value ds < 2 ^ 64" using nibbles_value_bound [OF assms(2)] assms(1) by simp
  then have "unat (word_of_nat (nibbles_value ds) :: 64 word) = nibbles_value ds"
    by (simp add: unat_of_nat)
  then have "nibbles_value (word_nibbles (word_of_nat (nibbles_value ds))) = nibbles_value ds"
    by (simp add: nibbles_value_word)
  then show ?thesis
    using nibbles_value_inj [of "word_nibbles (word_of_nat (nibbles_value ds))" ds]
      assms word_nibbles_less by simp
qed

section \<open>Properties\<close>

text \<open>
  C33. The canonical text is exactly what the parser accepts: whatever the buffer held before, a
  text parses to a value if and only if it is the text the writer produces for that value.  In
  particular every value survives the round trip, and uppercase digits, prefixes, separators
  and other lengths are all rejected.
\<close>

theorem parse_accepts_exactly_format:
  assumes "length out = 32"
  shows "parseBits128Hex text = \<lparr>bp_value = v, bp_parsed = True\<rparr>
    \<longleftrightarrow> text = formatBits128Hex v out"
proof
  assume p: "parseBits128Hex text = \<lparr>bp_value = v, bp_parsed = True\<rparr>"
  then have len: "length text = 32"
    by (auto simp: parseBits128Hex_def notParsed_def kBits128HexDigits_def split: if_splits)
  from p obtain hs ls where hs: "hex_values (take 16 text) = Some hs"
    and ls: "hex_values (drop 16 text) = Some ls"
    and v: "v = Bits128 (word_of_nat (nibbles_value hs)) (word_of_nat (nibbles_value ls))"
    by (auto simp: parseBits128Hex_digits [OF len] notParsed_def split: option.splits)
  have l: "length hs = 16" "length ls = 16"
    using hex_values_length [OF hs] hex_values_length [OF ls] len by simp_all
  have "formatBits128Hex v out = map hex_char hs @ map hex_char ls"
    using formatBits128Hex_eq [OF assms] v l hex_values_Some [OF hs] hex_values_Some [OF ls]
    by (simp add: word_nibbles_of_value)
  also have "\<dots> = text" using hex_values_Some [OF hs] hex_values_Some [OF ls] by simp
  finally show "text = formatBits128Hex v out" by simp
next
  assume t: "text = formatBits128Hex v out"
  then have len: "length text = 32" using formatBits128Hex_length [OF assms] by simp
  show "parseBits128Hex text = \<lparr>bp_value = v, bp_parsed = True\<rparr>"
    by (simp add: parseBits128Hex_digits [OF len])
      (simp add: t formatBits128Hex_eq [OF assms] hex_values_map_hex_char [OF word_nibbles_less])
qed

theorem parse_accepts_exactly_format_witness:
  "parseBits128Hex ''00000000000000ff8000000000000001''
     = \<lparr>bp_value = Bits128 0xff 0x8000000000000001, bp_parsed = True\<rparr>
   \<longleftrightarrow> ''00000000000000ff8000000000000001''
     = formatBits128Hex (Bits128 0xff 0x8000000000000001) (replicate 32 (CHR ''?''))"
  by (rule parse_accepts_exactly_format) simp

text \<open>
  The order of the values is the byte order of their canonical texts: sorting identities and
  sorting their names is the same.
\<close>

theorem format_preserves_order:
  assumes "length out = 32" and "length out' = 32"
  shows "formatBits128Hex v out < formatBits128Hex w out' \<longleftrightarrow> v < w"
proof -
  have lex: "map hex_char xs < map hex_char ys \<longleftrightarrow> xs < ys"
    if "length xs = length ys" "\<forall>d\<in>set xs. d < 16" "\<forall>d\<in>set ys. d < 16" for xs ys
    using that
    by (induction xs ys rule: list_induct2)
      (auto simp: hex_char_less_iff hex_char_inj_iff)
  have num: "word_nibbles a < word_nibbles b \<longleftrightarrow> a < b" for a b
    using nibbles_value_less_iff [of "word_nibbles a" "word_nibbles b"] word_nibbles_less
    by (simp add: nibbles_value_word word_less_nat_alt)
  have eq: "word_nibbles a = word_nibbles b \<longleftrightarrow> a = b" for a b
    by (metis word_of_word_nibbles)
  have app: "xs @ us < ys @ vs \<longleftrightarrow> xs < ys \<or> xs = ys \<and> us < vs"
    if "length xs = length ys" for xs ys us vs :: "nat list"
    using that by (induction xs ys rule: list_induct2) auto
  have "formatBits128Hex v out < formatBits128Hex w out'
      \<longleftrightarrow> word_nibbles (high v) @ word_nibbles (low v) < word_nibbles (high w) @ word_nibbles (low w)"
    using lex [of "word_nibbles (high v) @ word_nibbles (low v)"
        "word_nibbles (high w) @ word_nibbles (low w)"] word_nibbles_less
    by (auto simp: formatBits128Hex_eq assms)
  also have "\<dots> \<longleftrightarrow> v < w"
    by (simp add: app num eq less_Bits128_def bits128Before_def)
  finally show ?thesis .
qed

theorem format_preserves_order_witness:
  "formatBits128Hex (Bits128 1 0) (replicate 32 (CHR ''?''))
     < formatBits128Hex (Bits128 1 9) (replicate 32 (CHR ''!''))
   \<longleftrightarrow> Bits128 1 0 < Bits128 1 9"
  by (rule format_preserves_order) simp_all

end
