(* ===== verification/Base_Fatal.thy ===== *)
theory Base_Fatal
  imports Numbers
begin

text \<open>
  \<open>source/base/include/rawframe/base/fatal.h\<close> and \<open>source/base/src/fatal.cpp\<close>: the process
  fatal path.  The two process-global objects are the handler slot and the re-entry flag;
  each access to them in the code is one atomic operation, so a concurrent run is a sequence
  of those operations and the step relation below has one rule for each.  The default
  handler formats its record into a bounded buffer; its appends are modelled with the
  buffer they write, and its decimal conversion with the 20-character scratch array.
\<close>

section \<open>Records and handlers\<close>

datatype FatalReason = AssertionFailed | CheckFailed | Panic | FatalPathReentered

record FatalRecord =
  fr_reason :: FatalReason
  fr_file_name :: string
  fr_line :: nat
  fr_column :: nat
  fr_function_name :: string
  fr_condition :: string
  fr_message :: string
  fr_threadIdentity :: nat

text \<open>
  A handler is a function pointer: null, the default handler of this file, or one the program
  supplies.
\<close>

datatype 'h FatalHandler = NullHandler | DefaultFatalHandler | UserHandler 'h

definition kMaximumFatalTextBytes :: nat where "kMaximumFatalTextBytes = 256"

definition kFatalBufferBytes :: nat where "kFatalBufferBytes = 1536"

fun reasonText :: "FatalReason \<Rightarrow> string" where
  "reasonText AssertionFailed = ''AssertionFailed''"
| "reasonText CheckFailed = ''CheckFailed''"
| "reasonText Panic = ''Panic''"
| "reasonText FatalPathReentered = ''FatalPathReentered''"

section \<open>The bounded text accumulator\<close>

record BoundedText =
  bt_storage :: string
  bt_used :: nat

definition emptyText :: BoundedText where
  "emptyText = \<lparr>bt_storage = replicate kFatalBufferBytes (CHR 0x00), bt_used = 0\<rparr>"

definition copy_n :: "string \<Rightarrow> nat \<Rightarrow> string \<Rightarrow> nat \<Rightarrow> string" where
  "copy_n text cnt storage at =
     take at storage @ take cnt text @ drop (at + cnt) storage"

definition appendText :: "BoundedText \<Rightarrow> string \<Rightarrow> nat \<Rightarrow> BoundedText" where
  "appendText b text limit =
     (let kWanted = (if length text < limit then length text else limit);
          kSpace = kFatalBufferBytes - bt_used b;
          kCount = (if kWanted < kSpace then kWanted else kSpace)
      in b\<lparr>bt_storage := copy_n text kCount (bt_storage b) (bt_used b),
           bt_used := bt_used b + kCount\<rparr>)"

text \<open>
  The digits are produced least significant first into an array of 20 characters.  \<open>None\<close> is
  a write past that array.
\<close>

fun decimalDigits :: "nat \<Rightarrow> string \<Rightarrow> nat \<Rightarrow> (string \<times> nat) option" where
  "decimalDigits val digits cnt =
     (if val = 0 then Some (digits, cnt)
      else if 20 \<le> cnt then None
      else decimalDigits (val div 10) (digits[cnt := digit_char (val mod 10)]) (cnt + 1))"

declare decimalDigits.simps [simp del]

fun replayDigits :: "BoundedText \<Rightarrow> string \<Rightarrow> nat \<Rightarrow> BoundedText" where
  "replayDigits b digits 0 = b"
| "replayDigits b digits (Suc cnt) = replayDigits (appendText b [digits ! cnt] 1) digits cnt"

definition appendDecimal :: "BoundedText \<Rightarrow> nat \<Rightarrow> BoundedText option" where
  "appendDecimal b val =
     (if val = 0 then Some (appendText b ''0'' 1)
      else (case decimalDigits val (replicate 20 (CHR 0x00)) 0 of
              None \<Rightarrow> None
            | Some (digits, cnt) \<Rightarrow> Some (replayDigits b digits cnt)))"

definition viewText :: "BoundedText \<Rightarrow> string" where
  "viewText b = take (bt_used b) (bt_storage b)"

text \<open>
  The default handler.  The result is what it hands to the standard-error primitive.  Linux
  never reports an attached debugger; on Windows the debugger break comes first and
  does not change the text.
\<close>

definition defaultFatalHandler :: "FatalRecord \<Rightarrow> string option" where
  "defaultFatalHandler record =
    (let t0 = appendText emptyText ''rawframe fatal: '' kFatalBufferBytes;
         t1 = appendText t0 (reasonText (fr_reason record)) kMaximumFatalTextBytes;
         t2 = appendText t1 (CHR 0x0A # ''  at '') kFatalBufferBytes;
         t3 = appendText t2 (fr_file_name record) kMaximumFatalTextBytes;
         t4 = appendText t3 '':'' 1
     in Option.bind (appendDecimal t4 (fr_line record)) (\<lambda>t5.
        let t6 = appendText t5 '':'' 1
        in Option.bind (appendDecimal t6 (fr_column record)) (\<lambda>t7.
           let t8 = appendText t7 (CHR 0x0A # ''  in '') kFatalBufferBytes;
               t9 = appendText t8 (fr_function_name record) kMaximumFatalTextBytes;
               t10 = (if fr_condition record \<noteq> [] then
                        appendText (appendText t9 (CHR 0x0A # ''  condition: '') kFatalBufferBytes)
                          (fr_condition record) kMaximumFatalTextBytes
                      else t9);
               t11 = appendText t10 (CHR 0x0A # ''  message: '') kFatalBufferBytes;
               t12 = appendText t11 (fr_message record) kMaximumFatalTextBytes;
               t13 = appendText t12 (CHR 0x0A # ''  thread: '') kFatalBufferBytes
           in Option.bind (appendDecimal t13 (fr_threadIdentity record)) (\<lambda>t14.
              Some (viewText (appendText t14 [CHR 0x0A] 1))))))"

section \<open>Appends never overrun and never lose text that fits\<close>

definition text_ok :: "BoundedText \<Rightarrow> bool" where
  "text_ok b \<longleftrightarrow> length (bt_storage b) = kFatalBufferBytes \<and> bt_used b \<le> kFatalBufferBytes"

lemma text_ok_empty [simp]: "text_ok emptyText"
  by (simp add: text_ok_def emptyText_def)

lemma viewText_empty [simp]: "viewText emptyText = []"
  by (simp add: viewText_def emptyText_def)

lemma length_viewText [simp]: "text_ok b \<Longrightarrow> length (viewText b) = bt_used b"
  by (simp add: viewText_def text_ok_def)

lemma appendText_ok: "text_ok b \<Longrightarrow> text_ok (appendText b text limit)"
  by (auto simp: text_ok_def appendText_def copy_n_def Let_def)

lemma viewText_append:
  assumes "text_ok b"
  shows "viewText (appendText b text limit) =
    viewText b @ take (kFatalBufferBytes - length (viewText b)) (take limit text)"
proof -
  let ?n = "min (min (length text) limit) (kFatalBufferBytes - bt_used b)"
  have n: "(let kWanted = (if length text < limit then length text else limit);
          kSpace = kFatalBufferBytes - bt_used b
      in if kWanted < kSpace then kWanted else kSpace) = ?n"
    by (simp add: Let_def min_def)
  have "viewText (appendText b text limit) = take (bt_used b + ?n)
      (take (bt_used b) (bt_storage b) @ take ?n text @ drop (bt_used b + ?n) (bt_storage b))"
    using n by (simp add: viewText_def appendText_def copy_n_def Let_def)
  also have "\<dots> = viewText b @ take ?n text"
    using assms by (simp add: viewText_def text_ok_def)
  also have "take ?n text = take (kFatalBufferBytes - bt_used b) (take limit text)"
    by (simp add: min.commute min.left_commute take_all_iff min_def)
  finally show ?thesis using assms by simp
qed

lemma viewText_append_fits:
  assumes "text_ok b" and "length (viewText b) + min (length text) limit \<le> kFatalBufferBytes"
  shows "viewText (appendText b text limit) = viewText b @ take limit text"
proof -
  have "take (kFatalBufferBytes - bt_used b) (take limit text) = take limit text"
    using assms by (intro take_all) (auto simp: min_def split: if_splits)
  with assms(1) show ?thesis by (simp add: viewText_append del: take_take)
qed

section \<open>Decimal conversion\<close>

lemma nat_to_string_unfold:
  "nat_to_string n = (if n < 10 then [] else nat_to_string (n div 10)) @ [digit_char (n mod 10)]"
proof (cases "n < 10")
  case True
  then show ?thesis by (subst nat_to_string.simps) simp
next
  case False
  then have "nat_to_string n = nat_to_string (n div 10) @ [digit_char (n mod 10)]"
    by (subst nat_to_string.simps) (rule if_not_P)
  with False show ?thesis by (simp only: if_False)
qed

definition decimal_rev :: "nat \<Rightarrow> string" where
  "decimal_rev n = (if n = 0 then [] else rev (nat_to_string n))"

lemma decimal_rev_step: "n \<noteq> 0 \<Longrightarrow> decimal_rev n = digit_char (n mod 10) # decimal_rev (n div 10)"
  using nat_to_string_unfold [of n] by (auto simp: decimal_rev_def)

lemma decimalDigits_Some:
  assumes "length digits = 20" and "cnt + length (decimal_rev val) \<le> 20"
  shows "\<exists>digits'. decimalDigits val digits cnt = Some (digits', cnt + length (decimal_rev val))
    \<and> length digits' = 20
    \<and> take (cnt + length (decimal_rev val)) digits' = take cnt digits @ decimal_rev val"
  using assms
proof (induction val digits cnt rule: decimalDigits.induct)
  case (1 val digits cnt)
  show ?case
  proof (cases "val = 0")
    case True
    then show ?thesis using "1.prems"
      by (subst decimalDigits.simps) (simp add: decimal_rev_def)
  next
    case False
    note step = decimal_rev_step [OF False]
    from "1.prems"(2) step have c: "\<not> 20 \<le> cnt" by simp
    let ?d = "digits[cnt := digit_char (val mod 10)]"
    obtain digits' where d': "decimalDigits (val div 10) ?d (cnt + 1)
        = Some (digits', cnt + 1 + length (decimal_rev (val div 10)))"
      and l: "length digits' = 20"
      and t: "take (cnt + 1 + length (decimal_rev (val div 10))) digits'
        = take (cnt + 1) ?d @ decimal_rev (val div 10)"
      using "1.IH" [OF False c] "1.prems" step by auto
    have "take (cnt + 1) ?d = take cnt digits @ [digit_char (val mod 10)]"
      using c "1.prems"(1) by (simp add: take_Suc_conv_app_nth)
    with d' l t step show ?thesis
      by (subst decimalDigits.simps) (use False c in auto)
  qed
qed

lemma replayDigits_ok: "text_ok b \<Longrightarrow> text_ok (replayDigits b digits cnt)"
  by (induction b digits cnt rule: replayDigits.induct) (auto simp: appendText_ok)

lemma viewText_replay:
  assumes "text_ok b" and "length (viewText b) + cnt \<le> kFatalBufferBytes"
    and "cnt \<le> length digits"
  shows "viewText (replayDigits b digits cnt) = viewText b @ rev (take cnt digits)"
  using assms
proof (induction b digits cnt rule: replayDigits.induct)
  case (1 b digits)
  then show ?case by simp
next
  case (2 b digits cnt)
  let ?b = "appendText b [digits ! cnt] 1"
  have v: "viewText ?b = viewText b @ [digits ! cnt]"
    using "2.prems" by (subst viewText_append_fits) auto
  have "viewText (replayDigits ?b digits cnt) = viewText ?b @ rev (take cnt digits)"
    using "2.prems" v by (intro "2.IH") (auto simp: appendText_ok)
  with v "2.prems" show ?case by (simp add: take_Suc_conv_app_nth)
qed

lemma nat_to_string_length_le:
  assumes "n < 10 ^ k" and "0 < k"
  shows "length (nat_to_string n) \<le> k"
  using assms
proof (induction k arbitrary: n)
  case 0
  then show ?case by simp
next
  case (Suc k)
  show ?case
  proof (cases "n < 10")
    case True
    then show ?thesis by (subst nat_to_string.simps) simp
  next
    case False
    with Suc.prems have "n div 10 < 10 ^ k" and "0 < k"
      by (auto simp: less_mult_imp_div_less mult.commute intro: gr0I)
    with Suc.IH False show ?thesis by (subst nat_to_string.simps) simp
  qed
qed

lemma uint64_decimal_fits: "n < 2 ^ 64 \<Longrightarrow> length (nat_to_string n) \<le> 20"
  by (rule nat_to_string_length_le) simp_all

lemma appendDecimal_ok: "text_ok b \<Longrightarrow> appendDecimal b val = Some b' \<Longrightarrow> text_ok b'"
  by (auto simp: appendDecimal_def appendText_ok replayDigits_ok split: if_splits option.splits)

lemma nat_to_string_0 [simp]: "nat_to_string 0 = ''0''"
  by (subst nat_to_string.simps) (simp add: digit_char_def char_of_eq_iff)

lemma viewText_appendDecimal:
  assumes "text_ok b" and "val < 2 ^ 64"
    and "length (viewText b) + length (nat_to_string val) \<le> kFatalBufferBytes"
  shows "\<exists>b'. appendDecimal b val = Some b' \<and> text_ok b'
    \<and> viewText b' = viewText b @ nat_to_string val"
proof (cases "val = 0")
  case True
  with assms show ?thesis
    by (auto simp: appendDecimal_def viewText_append_fits appendText_ok)
next
  case False
  have len: "length (decimal_rev val) \<le> 20"
    using uint64_decimal_fits [OF assms(2)] by (simp add: decimal_rev_def)
  obtain digits' where d: "decimalDigits val (replicate 20 (CHR 0x00)) 0
      = Some (digits', length (decimal_rev val))"
    and l: "length digits' = 20" and t: "take (length (decimal_rev val)) digits' = decimal_rev val"
    using decimalDigits_Some [of "replicate 20 (CHR 0x00)" 0 val] len by auto
  have "viewText (replayDigits b digits' (length (decimal_rev val)))
      = viewText b @ rev (decimal_rev val)"
    using viewText_replay [OF assms(1), of "length (decimal_rev val)" digits'] assms(3) l len t False
    by (simp add: decimal_rev_def)
  with False d assms(1) show ?thesis
    by (simp add: appendDecimal_def replayDigits_ok decimal_rev_def)
qed

section \<open>The process state and its atomic operations\<close>

text \<open>
  \<open>compare_exchange_strong\<close> and \<open>exchange\<close> as functions on the object they act on.
\<close>

definition compare_exchange :: "'a \<Rightarrow> 'a \<Rightarrow> 'a \<Rightarrow> bool \<times> 'a" where
  "compare_exchange slot expected desired = (if slot = expected then (True, desired) else (False, slot))"

definition installFatalHandler :: "'h FatalHandler \<Rightarrow> 'h FatalHandler \<Rightarrow> bool \<times> 'h FatalHandler" where
  "installFatalHandler handler slot =
     (if handler = NullHandler then (False, slot)
      else compare_exchange slot NullHandler handler)"

definition freezeFatalHandler :: "'h FatalHandler \<Rightarrow> 'h FatalHandler" where
  "freezeFatalHandler slot = snd (compare_exchange slot NullHandler DefaultFatalHandler)"

definition enrichRecord :: "nat \<Rightarrow> FatalRecord \<Rightarrow> FatalRecord" where
  "enrichRecord threadIdentity record =
     (if fr_threadIdentity record = 0 then record\<lparr>fr_threadIdentity := threadIdentity\<rparr> else record)"

definition loadHandler :: "'h FatalHandler \<Rightarrow> 'h FatalHandler" where
  "loadHandler slot = (if slot = NullHandler then DefaultFatalHandler else slot)"

definition reentryLine :: string where
  "reentryLine = ''rawframe fatal: FatalPathReentered'' @ [CHR 0x0A]"

text \<open>
  Where a thread is: in ordinary code, past the exchange in \<open>raiseFatal\<close> with its enriched
  record, or inside the handler.  A handler is arbitrary code, so a thread inside one may
  call any of the three entry points again.
\<close>

datatype 'h fatal_pc = Ordinary | Entered FatalRecord | InHandler "'h FatalHandler" FatalRecord

record 'h fatal_state =
  fs_slot :: "'h FatalHandler"
  fs_entered :: bool
  fs_pc :: "nat \<Rightarrow> 'h fatal_pc"
  fs_aborted :: bool
  fs_stderr :: "string list"
  fs_installs :: "('h FatalHandler \<times> bool) list"
  fs_frozen :: bool
  fs_handled :: "('h FatalHandler \<times> FatalRecord) list"

definition fatal_init :: "'h fatal_state" where
  "fatal_init = \<lparr>fs_slot = NullHandler, fs_entered = False, fs_pc = (\<lambda>_. Ordinary),
     fs_aborted = False, fs_stderr = [], fs_installs = [], fs_frozen = False, fs_handled = []\<rparr>"

definition calls_allowed :: "'h fatal_pc \<Rightarrow> bool" where
  "calls_allowed pc = (case pc of Ordinary \<Rightarrow> True | Entered _ \<Rightarrow> False | InHandler _ _ \<Rightarrow> True)"

text \<open>
  One rule per atomic operation.  The logs \<open>fs_installs\<close>, \<open>fs_frozen\<close> and \<open>fs_handled\<close> record
  what the calls returned and did; the code keeps none of them.  The default handler has no
  name outside its file, so a program cannot install it.
\<close>

inductive fatal_step :: "(nat \<Rightarrow> nat) \<Rightarrow> 'h fatal_state \<Rightarrow> 'h fatal_state \<Rightarrow> bool"
  for os_identity :: "nat \<Rightarrow> nat" where
  install: "\<not> fs_aborted s \<Longrightarrow> calls_allowed (fs_pc s i) \<Longrightarrow> handler \<noteq> DefaultFatalHandler \<Longrightarrow>
     installFatalHandler handler (fs_slot s) = (installed, slot') \<Longrightarrow>
     fatal_step os_identity s
       (s\<lparr>fs_slot := slot', fs_installs := (handler, installed) # fs_installs s\<rparr>)"
| freeze: "\<not> fs_aborted s \<Longrightarrow> calls_allowed (fs_pc s i) \<Longrightarrow>
     fatal_step os_identity s
       (s\<lparr>fs_slot := freezeFatalHandler (fs_slot s), fs_frozen := True\<rparr>)"
| raise_first: "\<not> fs_aborted s \<Longrightarrow> calls_allowed (fs_pc s i) \<Longrightarrow> \<not> fs_entered s \<Longrightarrow>
     fatal_step os_identity s
       (s\<lparr>fs_entered := True, fs_pc := (fs_pc s)(i := Entered (enrichRecord (os_identity i) r))\<rparr>)"
| raise_again: "\<not> fs_aborted s \<Longrightarrow> calls_allowed (fs_pc s i) \<Longrightarrow> fs_entered s \<Longrightarrow>
     fatal_step os_identity s
       (s\<lparr>fs_stderr := reentryLine # fs_stderr s, fs_aborted := True\<rparr>)"
| dispatch: "\<not> fs_aborted s \<Longrightarrow> fs_pc s i = Entered r \<Longrightarrow> h = loadHandler (fs_slot s) \<Longrightarrow>
     fatal_step os_identity s
       (s\<lparr>fs_pc := (fs_pc s)(i := InHandler h r), fs_handled := (h, r) # fs_handled s\<rparr>)"
| handler_returns: "\<not> fs_aborted s \<Longrightarrow> fs_pc s i = InHandler h r \<Longrightarrow>
     fatal_step os_identity s (s\<lparr>fs_aborted := True\<rparr>)"

inductive_cases fatal_stepE: "fatal_step os_identity s t"

inductive fatal_reachable :: "(nat \<Rightarrow> nat) \<Rightarrow> 'h fatal_state \<Rightarrow> bool"
  for os_identity :: "nat \<Rightarrow> nat" where
  init: "fatal_reachable os_identity fatal_init"
| step: "fatal_reachable os_identity s \<Longrightarrow> fatal_step os_identity s t \<Longrightarrow> fatal_reachable os_identity t"

lemmas fatal_op_defs = installFatalHandler_def freezeFatalHandler_def compare_exchange_def
  loadHandler_def calls_allowed_def

section \<open>Invariants of the slot\<close>

lemma slot_step_stable:
  "fatal_step os_identity s t \<Longrightarrow> fs_slot s \<noteq> NullHandler \<Longrightarrow> fs_slot t = fs_slot s"
  by (erule fatal_stepE) (auto simp: fatal_op_defs split: if_splits)

lemma slot_steps_stable:
  "(fatal_step os_identity)\<^sup>*\<^sup>* s t \<Longrightarrow> fs_slot s \<noteq> NullHandler \<Longrightarrow> fs_slot t = fs_slot s"
  by (induction rule: rtranclp_induct) (auto dest: slot_step_stable)

definition slot_inv :: "'h fatal_state \<Rightarrow> bool" where
  "slot_inv s \<longleftrightarrow>
     (case fs_slot s of
        NullHandler \<Rightarrow> \<not> fs_frozen s \<and> filter snd (fs_installs s) = []
      | DefaultFatalHandler \<Rightarrow> filter snd (fs_installs s) = []
      | UserHandler h \<Rightarrow> filter snd (fs_installs s) = [(UserHandler h, True)])"

lemma slot_inv_init: "slot_inv fatal_init"
  by (simp add: slot_inv_def fatal_init_def)

lemma slot_inv_step: "fatal_step os_identity s t \<Longrightarrow> slot_inv s \<Longrightarrow> slot_inv t"
  by (erule fatal_stepE)
    (auto simp: slot_inv_def fatal_op_defs split: if_splits FatalHandler.splits)

lemma reachable_slot_inv: "fatal_reachable os_identity s \<Longrightarrow> slot_inv s"
  by (induction rule: fatal_reachable.induct) (auto intro: slot_inv_init slot_inv_step)

section \<open>Invariants of the fatal path\<close>

text \<open>
  The thread that won the exchange is the only one past it, and it dispatches at most once.
\<close>

definition path_inv :: "'h fatal_state \<Rightarrow> bool" where
  "path_inv s \<longleftrightarrow>
     (if fs_entered s
      then (\<exists>i. (\<forall>j. j \<noteq> i \<longrightarrow> fs_pc s j = Ordinary) \<and>
             (case fs_pc s i of
                Ordinary \<Rightarrow> False
              | Entered r \<Rightarrow> fs_handled s = []
              | InHandler h r \<Rightarrow> fs_handled s = [(h, r)] \<and> h \<noteq> NullHandler
                  \<and> (h = DefaultFatalHandler \<or> h = fs_slot s)))
      else (\<forall>j. fs_pc s j = Ordinary) \<and> fs_handled s = [])"

lemma path_inv_init: "path_inv fatal_init"
  by (simp add: path_inv_def fatal_init_def)

lemma path_inv_entered_step:
  assumes "fatal_step os_identity s t" and "path_inv s" and "fs_entered s"
  shows "path_inv t"
proof -
  from assms(2,3) obtain i where others: "\<And>j. j \<noteq> i \<Longrightarrow> fs_pc s j = Ordinary"
    and me: "case fs_pc s i of Ordinary \<Rightarrow> False | Entered r \<Rightarrow> fs_handled s = []
      | InHandler h r \<Rightarrow> fs_handled s = [(h, r)] \<and> h \<noteq> NullHandler
          \<and> (h = DefaultFatalHandler \<or> h = fs_slot s)"
    by (auto simp: path_inv_def)
  have mover: "j = i" if "fs_pc s j \<noteq> Ordinary" for j using others that by blast
  have slot: "fs_slot s \<noteq> NullHandler \<Longrightarrow> fs_slot t = fs_slot s"
    using assms(1) by (rule slot_step_stable)
  from assms(1) show ?thesis
  proof (cases rule: fatal_step.cases)
    case (dispatch j r h)
    then have "j = i" using mover by auto
    with dispatch others me assms(3) show ?thesis
      unfolding path_inv_def by (auto intro!: exI [of _ i] simp: loadHandler_def)
  qed (use others me assms(3) slot in
      \<open>auto simp: path_inv_def intro!: exI [of _ i] split: fatal_pc.splits\<close>)
qed

lemma path_inv_step: "fatal_step os_identity s t \<Longrightarrow> path_inv s \<Longrightarrow> path_inv t"
proof (cases "fs_entered s")
  case False
  assume "fatal_step os_identity s t" and "path_inv s"
  with False show ?thesis
    by (elim fatal_stepE) (auto simp: path_inv_def)
qed (rule path_inv_entered_step)

lemma reachable_path_inv: "fatal_reachable os_identity s \<Longrightarrow> path_inv s"
  by (induction rule: fatal_reachable.induct) (auto intro: path_inv_init path_inv_step)

lemma path_inv_handled:
  assumes "path_inv s"
  shows "fs_handled s = [] \<or> (\<exists>h r. fs_handled s = [(h, r)] \<and> h \<noteq> NullHandler
    \<and> (h = DefaultFatalHandler \<or> h = fs_slot s))"
proof (cases "fs_entered s")
  case True
  with assms obtain i where "case fs_pc s i of Ordinary \<Rightarrow> False | Entered r \<Rightarrow> fs_handled s = []
      | InHandler h r \<Rightarrow> fs_handled s = [(h, r)] \<and> h \<noteq> NullHandler
          \<and> (h = DefaultFatalHandler \<or> h = fs_slot s)"
    by (auto simp: path_inv_def)
  then show ?thesis by (cases "fs_pc s i") auto
next
  case False
  with assms show ?thesis by (simp add: path_inv_def)
qed

section \<open>Properties\<close>

text \<open>
  Installation closes once and for all: in every reachable state at most one call of
  \<open>installFatalHandler\<close> has returned true, the slot holds exactly the handler that call
  installed, and once \<open>freezeFatalHandler\<close> has run the slot is closed and no step changes it.
\<close>

theorem fatal_slot_closes_once:
  assumes "fatal_reachable os_identity s"
  shows "length (filter snd (fs_installs s)) \<le> 1
    \<and> (\<forall>h. (h, True) \<in> set (fs_installs s) \<longrightarrow> fs_slot s = h)
    \<and> (fs_frozen s \<longrightarrow> fs_slot s \<noteq> NullHandler)
    \<and> (\<forall>t. fatal_step os_identity s t \<and> fs_slot s \<noteq> NullHandler \<longrightarrow> fs_slot t = fs_slot s)"
proof -
  have inv: "slot_inv s" using assms by (rule reachable_slot_inv)
  have one: "length (filter snd (fs_installs s)) \<le> 1"
    and frozen: "fs_frozen s \<longrightarrow> fs_slot s \<noteq> NullHandler"
    using inv by (auto simp: slot_inv_def split: FatalHandler.splits)
  have held: "fs_slot s = h" if "(h, True) \<in> set (fs_installs s)" for h
  proof -
    from that have "(h, True) \<in> set (filter snd (fs_installs s))" by simp
    with inv show ?thesis
      by (cases "fs_slot s") (simp_all add: slot_inv_def del: set_filter)
  qed
  show ?thesis using one frozen held slot_step_stable by blast
qed

text \<open>
  C31. The fatal path runs at most one handler however many threads fail and whatever the handler
  does: the handler that runs is never null and is the installed one or the default one, and
  a thread that has entered the path never returns to ordinary code.
\<close>

theorem fatal_path_dispatches_once:
  assumes "fatal_reachable os_identity s"
  shows "length (fs_handled s) \<le> 1
    \<and> (\<forall>h r. (h, r) \<in> set (fs_handled s) \<longrightarrow>
          h = DefaultFatalHandler \<or> (\<exists>u. h = UserHandler u \<and> (h, True) \<in> set (fs_installs s)))
    \<and> (\<forall>t i. fatal_step os_identity s t \<and> fs_pc s i \<noteq> Ordinary \<longrightarrow> fs_pc t i \<noteq> Ordinary)"
proof -
  have path: "path_inv s" and slot: "slot_inv s"
    using assms by (auto intro: reachable_path_inv reachable_slot_inv)
  have forward: "fs_pc t i \<noteq> Ordinary" if "fatal_step os_identity s t" "fs_pc s i \<noteq> Ordinary" for t i
    using that by (elim fatal_stepE) auto
  have installed: "(UserHandler u, True) \<in> set (fs_installs s)" if "fs_slot s = UserHandler u" for u
  proof -
    have "(UserHandler u, True) \<in> set (filter snd (fs_installs s))"
      using slot that by (simp add: slot_inv_def)
    then show ?thesis by simp
  qed
  have "length (fs_handled s) \<le> 1 \<and> (\<forall>h r. (h, r) \<in> set (fs_handled s) \<longrightarrow>
      h \<noteq> NullHandler \<and> (h = DefaultFatalHandler \<or> h = fs_slot s))"
    using path_inv_handled [OF path] by auto
  with installed forward show ?thesis by (metis FatalHandler.exhaust)
qed

text \<open>A run used by the witnesses: a handler is installed, a thread fails and dispatches to it.\<close>

definition witness_record :: FatalRecord where
  "witness_record = \<lparr>fr_reason = Panic, fr_file_name = ''a.cpp'', fr_line = 7, fr_column = 3,
     fr_function_name = ''f'', fr_condition = [], fr_message = ''m'', fr_threadIdentity = 9\<rparr>"

definition witness_state :: "bool fatal_state" where
  "witness_state = \<lparr>fs_slot = UserHandler True, fs_entered = True,
     fs_pc = (\<lambda>_. Ordinary)(0 := InHandler (UserHandler True) witness_record),
     fs_aborted = False, fs_stderr = [], fs_installs = [(UserHandler True, True)],
     fs_frozen = False, fs_handled = [(UserHandler True, witness_record)]\<rparr>"

lemma witness_reachable: "fatal_reachable (\<lambda>_. 9) witness_state"
proof -
  let ?s1 = "fatal_init\<lparr>fs_slot := UserHandler True, fs_installs := [(UserHandler True, True)]\<rparr>"
  let ?s2 = "?s1\<lparr>fs_entered := True, fs_pc := (fs_pc ?s1)(0 := Entered witness_record)\<rparr>"
  have "fatal_step (\<lambda>_. 9) fatal_init ?s1"
    using fatal_step.install [of fatal_init 0 "UserHandler True" True "UserHandler True" "\<lambda>_. 9"]
    by (simp add: fatal_init_def fatal_op_defs)
  moreover have "fatal_step (\<lambda>_. 9) ?s1 ?s2"
    using fatal_step.raise_first [of ?s1 0 "\<lambda>_. 9" witness_record]
    by (simp add: fatal_init_def fatal_op_defs enrichRecord_def witness_record_def)
  moreover have "fatal_step (\<lambda>_. 9) ?s2 witness_state"
    using fatal_step.dispatch [of ?s2 0 witness_record "UserHandler True" "\<lambda>_. 9"]
    by (simp add: fatal_init_def fatal_op_defs witness_state_def)
  ultimately show ?thesis by (meson fatal_reachable.intros)
qed

theorem fatal_slot_closes_once_witness:
  "length (filter snd (fs_installs witness_state)) \<le> 1 \<and> fs_slot witness_state = UserHandler True"
  using fatal_slot_closes_once [OF witness_reachable] by (simp add: witness_state_def)

theorem fatal_path_dispatches_once_witness:
  "length (fs_handled witness_state) \<le> 1 \<and> fs_handled witness_state \<noteq> []"
  using fatal_path_dispatches_once [OF witness_reachable] by (simp add: witness_state_def)

section \<open>The default handler writes everything it was asked to\<close>

definition holds_text :: "BoundedText \<Rightarrow> string \<Rightarrow> nat \<Rightarrow> bool" where
  "holds_text b s n \<longleftrightarrow> text_ok b \<and> viewText b = s \<and> length s \<le> n"

lemma holds_literal:
  assumes "holds_text b s n" and "length text \<le> m" and "m \<le> limit" and "n + m \<le> kFatalBufferBytes"
  shows "holds_text (appendText b text limit) (s @ text) (n + m)"
  using assms by (simp add: holds_text_def appendText_ok viewText_append_fits)

lemma holds_field:
  assumes "holds_text b s n" and "n + limit \<le> kFatalBufferBytes"
  shows "holds_text (appendText b text limit) (s @ take limit text) (n + limit)"
proof -
  have "length (viewText b) + min (length text) limit \<le> kFatalBufferBytes"
    using assms by (simp add: holds_text_def min_def)
  with assms show ?thesis
    by (auto simp: holds_text_def appendText_ok viewText_append_fits intro!: add_mono)
qed

lemma holds_decimal:
  assumes "holds_text b s n" and "length (nat_to_string val) \<le> m" and "val < 2 ^ 64"
    and "n + m \<le> kFatalBufferBytes"
  obtains b' where "appendDecimal b val = Some b'" and "holds_text b' (s @ nat_to_string val) (n + m)"
  using viewText_appendDecimal [of b val] assms by (auto simp: holds_text_def)

definition fatalText :: "FatalRecord \<Rightarrow> string" where
  "fatalText r =
     ''rawframe fatal: '' @ reasonText (fr_reason r)
     @ CHR 0x0A # ''  at '' @ take 256 (fr_file_name r)
     @ '':'' @ nat_to_string (fr_line r) @ '':'' @ nat_to_string (fr_column r)
     @ CHR 0x0A # ''  in '' @ take 256 (fr_function_name r)
     @ (if fr_condition r = [] then [] else CHR 0x0A # ''  condition: '' @ take 256 (fr_condition r))
     @ CHR 0x0A # ''  message: '' @ take 256 (fr_message r)
     @ CHR 0x0A # ''  thread: '' @ nat_to_string (fr_threadIdentity r) @ [CHR 0x0A]"

lemma reasonText_length: "length (reasonText r) \<le> 18"
  by (cases r) simp_all

text \<open>The part before the function name: the reason, the file, the line and the column.\<close>

definition locationText :: "FatalRecord \<Rightarrow> string" where
  "locationText r = ''rawframe fatal: '' @ reasonText (fr_reason r) @ CHR 0x0A # ''  at '' @ take 256 (fr_file_name r) @
     '':'' @ nat_to_string (fr_line r) @ '':'' @ nat_to_string (fr_column r)"

lemmas text_caps = kFatalBufferBytes_def kMaximumFatalTextBytes_def

lemma location_appended:
  assumes "fr_line r < 2 ^ 32" and "fr_column r < 2 ^ 32"
  shows "\<exists>t5 t7. appendDecimal (appendText (appendText (appendText (appendText (appendText
        emptyText ''rawframe fatal: '' kFatalBufferBytes) (reasonText (fr_reason r))
        kMaximumFatalTextBytes) (CHR 0x0A # ''  at '') kFatalBufferBytes) (fr_file_name r)
        kMaximumFatalTextBytes) '':'' 1) (fr_line r) = Some t5 \<and>
      appendDecimal (appendText t5 '':'' 1) (fr_column r) = Some t7 \<and> holds_text t7 (locationText r) 318"
proof -
  have l: "length (nat_to_string (fr_line r)) \<le> 10" "length (nat_to_string (fr_column r)) \<le> 10"
    using assms by (auto intro!: nat_to_string_length_le)
  have h0: "holds_text emptyText [] 0" by (simp add: holds_text_def)
  note h1 = holds_literal [OF h0, of "''rawframe fatal: ''" 16 kFatalBufferBytes]
  note h2 = holds_literal [OF h1, of "reasonText (fr_reason r)" 18 kMaximumFatalTextBytes]
  note h3 = holds_literal [OF h2, of "CHR 0x0A # ''  at ''" 6 kFatalBufferBytes]
  note h4 = holds_literal [OF holds_field [OF h3, of kMaximumFatalTextBytes "fr_file_name r"],
      of "'':''" 1 1]
  obtain t5 where t5: "appendDecimal (appendText (appendText (appendText (appendText (appendText
        emptyText ''rawframe fatal: '' kFatalBufferBytes) (reasonText (fr_reason r))
        kMaximumFatalTextBytes) (CHR 0x0A # ''  at '') kFatalBufferBytes) (fr_file_name r)
        kMaximumFatalTextBytes) '':'' 1) (fr_line r) = Some t5"
    and h5: "holds_text t5 (((((([] @ ''rawframe fatal: '') @ reasonText (fr_reason r))
        @ CHR 0x0A # ''  at '') @ take kMaximumFatalTextBytes (fr_file_name r)) @ '':'')
        @ nat_to_string (fr_line r)) 307"
    by (rule holds_decimal [OF h4, of "fr_line r" 10])
      (use l assms reasonText_length [of "fr_reason r"] in \<open>simp_all add: text_caps\<close>)
  note h6 = holds_literal [OF h5, of "'':''" 1 1]
  obtain t7 where t7: "appendDecimal (appendText t5 '':'' 1) (fr_column r) = Some t7"
    and h7: "holds_text t7 (((((((([] @ ''rawframe fatal: '') @ reasonText (fr_reason r))
        @ CHR 0x0A # ''  at '') @ take kMaximumFatalTextBytes (fr_file_name r)) @ '':'')
        @ nat_to_string (fr_line r)) @ '':'') @ nat_to_string (fr_column r)) 318"
    by (rule holds_decimal [OF h6, of "fr_column r" 10]) (use l assms in \<open>simp_all add: text_caps\<close>)
  from h7 have "holds_text t7 (locationText r) 318"
    by (simp add: locationText_def kMaximumFatalTextBytes_def)
  with t5 t7 show ?thesis by blast
qed

text \<open>The condition, when there is one.\<close>

lemma condition_appended:
  assumes "holds_text t s 580"
  shows "holds_text (if fr_condition r \<noteq> [] then
      appendText (appendText t (CHR 0x0A # ''  condition: '') kFatalBufferBytes) (fr_condition r) kMaximumFatalTextBytes else t)
    (s @ (if fr_condition r = [] then [] else CHR 0x0A # ''  condition: '' @ take 256 (fr_condition r))) 850"
proof (cases "fr_condition r = []")
  case True
  with assms show ?thesis by (simp add: holds_text_def)
next
  case False
  with holds_field [OF holds_literal [OF assms, of "CHR 0x0A # ''  condition: ''" 14 kFatalBufferBytes],
      of kMaximumFatalTextBytes "fr_condition r"]
  show ?thesis by (simp add: text_caps)
qed

text \<open>The message and the thread.\<close>

lemma message_appended:
  assumes "holds_text t s 850" and "fr_threadIdentity r < 2 ^ 64"
  shows "\<exists>t14. appendDecimal (appendText (appendText (appendText t (CHR 0x0A # ''  message: '') kFatalBufferBytes)
        (fr_message r) kMaximumFatalTextBytes) (CHR 0x0A # ''  thread: '') kFatalBufferBytes) (fr_threadIdentity r) = Some t14 \<and>
      viewText (appendText t14 [CHR 0x0A] 1) = s @ CHR 0x0A # ''  message: '' @ take 256 (fr_message r) @
        CHR 0x0A # ''  thread: '' @ nat_to_string (fr_threadIdentity r) @ [CHR 0x0A]"
proof -
  have t: "length (nat_to_string (fr_threadIdentity r)) \<le> 20"
    using assms(2) by (rule uint64_decimal_fits)
  have h12: "holds_text (appendText (appendText t (CHR 0x0A # ''  message: '') kFatalBufferBytes) (fr_message r) kMaximumFatalTextBytes)
      ((s @ CHR 0x0A # ''  message: '') @ take kMaximumFatalTextBytes (fr_message r)) 1118"
    using holds_field [OF holds_literal [OF assms(1), of "CHR 0x0A # ''  message: ''" 12 kFatalBufferBytes],
        of kMaximumFatalTextBytes "fr_message r"]
    by (simp add: text_caps)
  note h13 = holds_literal [OF h12, of "CHR 0x0A # ''  thread: ''" 11 kFatalBufferBytes]
  obtain t14 where t14: "appendDecimal (appendText (appendText (appendText t (CHR 0x0A # ''  message: '') kFatalBufferBytes)
        (fr_message r) kMaximumFatalTextBytes) (CHR 0x0A # ''  thread: '') kFatalBufferBytes) (fr_threadIdentity r) = Some t14"
    and h14: "holds_text t14 ((((s @ CHR 0x0A # ''  message: '') @ take kMaximumFatalTextBytes (fr_message r)) @
        CHR 0x0A # ''  thread: '') @ nat_to_string (fr_threadIdentity r)) 1149"
    by (rule holds_decimal [OF h13, of "fr_threadIdentity r" 20]) (use t assms in \<open>simp_all add: text_caps\<close>)
  have "viewText (appendText t14 [CHR 0x0A] 1) = ((((s @ CHR 0x0A # ''  message: '') @ take kMaximumFatalTextBytes (fr_message r)) @
        CHR 0x0A # ''  thread: '') @ nat_to_string (fr_threadIdentity r)) @ [CHR 0x0A]"
    using holds_literal [OF h14, of "[CHR 0x0A]" 1 1] by (simp add: holds_text_def text_caps)
  with t14 show ?thesis by (simp add: kMaximumFatalTextBytes_def)
qed

text \<open>
  C34. The default handler emits the complete report: for any record whose numbers fit their
  types (32-bit line and column, 64-bit thread identity), its output is the report with only
  the per-field limit of 256 bytes applied.  The 1536-byte buffer never truncates it and the
  20-character decimal array is never overrun.
\<close>

theorem default_handler_reports_everything:
  assumes "fr_line r < 2 ^ 32" and "fr_column r < 2 ^ 32" and "fr_threadIdentity r < 2 ^ 64"
  shows "defaultFatalHandler r = Some (fatalText r)"
proof -
  obtain t5 t7 where location: "appendDecimal (appendText (appendText (appendText (appendText (appendText
        emptyText ''rawframe fatal: '' kFatalBufferBytes) (reasonText (fr_reason r))
        kMaximumFatalTextBytes) (CHR 0x0A # ''  at '') kFatalBufferBytes) (fr_file_name r)
        kMaximumFatalTextBytes) '':'' 1) (fr_line r) = Some t5"
      "appendDecimal (appendText t5 '':'' 1) (fr_column r) = Some t7"
    and h7: "holds_text t7 (locationText r) 318"
    using location_appended [OF assms(1,2)] by blast
  define t9 where "t9 = appendText (appendText t7 (CHR 0x0A # ''  in '') kFatalBufferBytes)
      (fr_function_name r) kMaximumFatalTextBytes"
  have "holds_text t9 ((locationText r @ CHR 0x0A # ''  in '') @ take 256 (fr_function_name r)) 580"
    unfolding t9_def using holds_field [OF holds_literal [OF h7, of "CHR 0x0A # ''  in ''" 6 kFatalBufferBytes],
        of kMaximumFatalTextBytes "fr_function_name r"]
    by (simp add: text_caps)
  from message_appended [OF condition_appended [OF this, of r] assms(3)]
  obtain t14 where rest: "appendDecimal (appendText (appendText (appendText (if fr_condition r \<noteq> [] then
      appendText (appendText t9 (CHR 0x0A # ''  condition: '') kFatalBufferBytes) (fr_condition r) kMaximumFatalTextBytes else t9)
        (CHR 0x0A # ''  message: '') kFatalBufferBytes) (fr_message r) kMaximumFatalTextBytes)
        (CHR 0x0A # ''  thread: '') kFatalBufferBytes) (fr_threadIdentity r) = Some t14"
    and view: "viewText (appendText t14 [CHR 0x0A] 1) = fatalText r"
    by (auto simp: fatalText_def locationText_def)
  show ?thesis
    unfolding defaultFatalHandler_def Let_def
    by (simp only: location t9_def [symmetric] rest bind.bind_lunit view)
qed

theorem default_handler_reports_everything_witness:
  "defaultFatalHandler witness_record = Some (fatalText witness_record)"
  by (rule default_handler_reports_everything) (simp_all add: witness_record_def)

end
