(* ===== verification/Base_Assert.thy ===== *)
theory Base_Assert
  imports Base_Fatal
begin

text \<open>
  \<open>source/base/include/rawframe/base/assert.h\<close>: the assertion family at the two levels a build may select.  A
  condition is an expression that answers and may change the state; a use of a macro answers the record it
  raises, if any, and the state it leaves.
\<close>

section \<open>The macros\<close>

text \<open>\<open>RAWFRAME_ASSERTIONS\<close>: 1 and 2; no other level compiles.\<close>

datatype AssertionLevel = ContractOnly | FullAssertions

text \<open>\<open>std::source_location\<close> of the call site.\<close>

record SourceLocation =
  sl_file_name :: string
  sl_line :: nat
  sl_column :: nat
  sl_function_name :: string

type_synonym 's Expression = "'s \<Rightarrow> bool \<times> 's"

text \<open>The record a macro constructs: the caller leaves the thread identity at zero.\<close>

definition raisedRecord :: "FatalReason \<Rightarrow> SourceLocation \<Rightarrow> string \<Rightarrow> string \<Rightarrow> FatalRecord" where
  "raisedRecord reason location condition message =
     \<lparr>fr_reason = reason, fr_file_name = sl_file_name location, fr_line = sl_line location,
      fr_column = sl_column location, fr_function_name = sl_function_name location,
      fr_condition = condition, fr_message = message, fr_threadIdentity = 0\<rparr>"

definition assertMacro ::
  "AssertionLevel \<Rightarrow> SourceLocation \<Rightarrow> string \<Rightarrow> string \<Rightarrow> 's Expression \<Rightarrow> 's \<Rightarrow> FatalRecord option \<times> 's" where
  "assertMacro level location conditionExpression messageLiteral condition s =
     (case level of
        FullAssertions \<Rightarrow>
          (let (holds, s') = condition s
           in if \<not> holds then (Some (raisedRecord AssertionFailed location conditionExpression messageLiteral), s')
              else (None, s'))
      | ContractOnly \<Rightarrow> (None, s))"

definition checkMacro :: "SourceLocation \<Rightarrow> string \<Rightarrow> string \<Rightarrow> 's Expression \<Rightarrow> 's \<Rightarrow> FatalRecord option \<times> 's" where
  "checkMacro location conditionExpression messageLiteral condition s =
     (let (holds, s') = condition s
      in if \<not> holds then (Some (raisedRecord CheckFailed location conditionExpression messageLiteral), s') else (None, s'))"

definition panicMacro :: "SourceLocation \<Rightarrow> string \<Rightarrow> 's \<Rightarrow> FatalRecord option \<times> 's" where
  "panicMacro location messageLiteral s = (Some (raisedRecord Panic location [] messageLiteral), s)"

section \<open>A program that uses them\<close>

datatype 's Statement =
    AssertUse SourceLocation string string "'s Expression"
  | CheckUse SourceLocation string string "'s Expression"
  | PanicUse SourceLocation string
  | Ordinary_code "'s \<Rightarrow> 's"

fun runStatement :: "AssertionLevel \<Rightarrow> 's Statement \<Rightarrow> 's \<Rightarrow> FatalRecord option \<times> 's" where
  "runStatement level (AssertUse location conditionText message condition) = assertMacro level location conditionText message condition"
| "runStatement level (CheckUse location conditionText message condition) = checkMacro location conditionText message condition"
| "runStatement level (PanicUse location message) = panicMacro location message"
| "runStatement level (Ordinary_code change) = (\<lambda>s. (None, change s))"

text \<open>Nothing runs after a record is raised: \<open>raiseFatal\<close> does not return.\<close>

fun runStatements :: "AssertionLevel \<Rightarrow> 's Statement list \<Rightarrow> 's \<Rightarrow> FatalRecord option \<times> 's" where
  "runStatements level [] s = (None, s)"
| "runStatements level (statement # rest) s =
     (case runStatement level statement s of
        (Some raised, s') \<Rightarrow> (Some raised, s')
      | (None, s') \<Rightarrow> runStatements level rest s')"

text \<open>The contract of the header: what \<open>RAWFRAME_ASSERT\<close> is given has no effect.\<close>

fun side_effect_free :: "'s Statement \<Rightarrow> bool" where
  "side_effect_free (AssertUse location conditionText message condition) \<longleftrightarrow> (\<forall>s. snd (condition s) = s)"
| "side_effect_free _ = True"

lemma assert_shipping: "assertMacro ContractOnly location conditionText message condition s = (None, s)"
  by (simp add: assertMacro_def)

lemma assert_full:
  "snd (condition s) = s \<Longrightarrow>
     assertMacro FullAssertions location conditionText message condition s =
       (if fst (condition s) then None else Some (raisedRecord AssertionFailed location conditionText message), s)"
  by (cases "condition s") (simp add: assertMacro_def)

lemma raisedRecord_reason [simp]: "fr_reason (raisedRecord reason location condition message) = reason"
  by (simp add: raisedRecord_def)

lemma level_irrelevant:
  assumes "\<And>l c m e. statement \<noteq> AssertUse l c m e"
  shows "runStatement level statement s = runStatement level' statement s"
  using assms by (cases statement) (simp_all, blast)

text \<open>
  The two assertion levels agree unless an assertion fails: on a program that keeps the contract of
  \<open>RAWFRAME_ASSERT\<close>, a run with every assertion enabled either ends with a failed assertion, or raises the same
  record (a failed check or a panic) at the same point with the same state as the shipping run, which evaluates
  none of them.  In particular removing the assertions adds no failure and changes no state of a correct run.
\<close>

theorem shipping_run_refines_full_run:
  assumes "list_all side_effect_free program"
  shows "map_option fr_reason (fst (runStatements FullAssertions program s)) = Some AssertionFailed \<or>
    runStatements FullAssertions program s = runStatements ContractOnly program s"
  using assms
proof (induction program arbitrary: s)
  case Nil
  then show ?case by simp
next
  case (Cons statement rest)
  then have rest: "\<And>s. map_option fr_reason (fst (runStatements FullAssertions rest s)) = Some AssertionFailed \<or>
      runStatements FullAssertions rest s = runStatements ContractOnly rest s"
    by simp
  show ?case
  proof (cases "\<exists>l c m e. statement = AssertUse l c m e")
    case True
    then obtain l c m e where use: "statement = AssertUse l c m e" by blast
    with Cons.prems have "snd (e s) = s" by simp
    then show ?thesis
      using rest [of s] by (simp add: use assert_shipping assert_full)
  next
    case False
    then have "runStatement FullAssertions statement s = runStatement ContractOnly statement s"
      by (intro level_irrelevant) blast
    then show ?thesis
      using rest by (auto split: prod.split option.split)
  qed
qed

text \<open>A counter that is asserted to be small, counted, checked and then given up on.\<close>

theorem shipping_run_refines_full_run_witness:
  "let here = \<lparr>sl_file_name = ''a.cpp'', sl_line = 1, sl_column = 1, sl_function_name = ''f''\<rparr>;
       program = [AssertUse here ''n < 2'' ''small'' (\<lambda>n. (n < 2, n)), Ordinary_code Suc,
         CheckUse here ''n < 9'' ''bounded'' (\<lambda>n. (n < 9, n)), PanicUse here ''give up'']
   in runStatements FullAssertions program 0 = runStatements ContractOnly program (0::nat) \<and>
      map_option fr_reason (fst (runStatements FullAssertions program 5)) = Some AssertionFailed \<and>
      map_option fr_reason (fst (runStatements ContractOnly program 5)) = Some Panic"
proof -
  let ?here = "\<lparr>sl_file_name = ''a.cpp'', sl_line = 1, sl_column = 1, sl_function_name = ''f''\<rparr>"
  let ?program = "[AssertUse ?here ''n < 2'' ''small'' (\<lambda>n. (n < 2, n)), Ordinary_code Suc,
    CheckUse ?here ''n < 9'' ''bounded'' (\<lambda>n. (n < 9, n)), PanicUse ?here ''give up''] :: nat Statement list"
  have "list_all side_effect_free ?program" by simp
  from shipping_run_refines_full_run [OF this, of 0] show ?thesis
    by (simp add: assertMacro_def checkMacro_def panicMacro_def)
qed

end
