(* ===== verification/Verify_Paths.thy ===== *)
theory Verify_Paths
  imports Numbers Containers
begin

text \<open>
  \<open>tools/rf_verify/src/failure.h\<close>, \<open>tool_limits.h\<close>, \<open>findings.h\<close> and
  \<open>repository_paths.{h,cpp}\<close>: the failures of the coverage tool, its limits, its findings,
  and the containment checks every path from outside goes through.  A path is its generic
  string on a POSIX host (the branch of \<open>sameLexicalPrefix\<close> that is compiled there); what the
  file system answers is the parameter \<open>VerifyFiles\<close>.
\<close>

section \<open>Failures and limits\<close>

datatype VerifyFailureCode =
    VfInvalidArguments | VfInvalidJson | VfInvalidPath | VfIoFailure | VfLimitExceeded
  | VfMalformedDiff | VfMissingInput | VfNoChangedLines | VfUncoveredChangedFile

record VerifyFailure =
  vf_code :: VerifyFailureCode
  vf_path :: string
  vf_message :: string

type_synonym 'a VResult = "VerifyFailure + 'a"

fun verifyFailureCodeName :: "VerifyFailureCode \<Rightarrow> string" where
  "verifyFailureCodeName VfInvalidArguments = ''invalid_arguments''"
| "verifyFailureCodeName VfInvalidJson = ''invalid_json''"
| "verifyFailureCodeName VfInvalidPath = ''invalid_path''"
| "verifyFailureCodeName VfIoFailure = ''io_failure''"
| "verifyFailureCodeName VfLimitExceeded = ''limit_exceeded''"
| "verifyFailureCodeName VfMalformedDiff = ''malformed_diff''"
| "verifyFailureCodeName VfMissingInput = ''missing_input''"
| "verifyFailureCodeName VfNoChangedLines = ''no_changed_lines''"
| "verifyFailureCodeName VfUncoveredChangedFile = ''uncovered_changed_file''"

definition isUsageFailure :: "VerifyFailureCode \<Rightarrow> bool" where
  "isUsageFailure code \<longleftrightarrow> code = VfInvalidArguments"

definition verifyReject :: "VerifyFailureCode \<Rightarrow> string \<Rightarrow> string \<Rightarrow> 'a VResult" where
  "verifyReject code path message = Inl \<lparr>vf_code = code, vf_path = path, vf_message = message\<rparr>"

lemma verifyReject_simps [simp]:
  "verifyReject c p m \<noteq> Inr x" "Inr x \<noteq> verifyReject c p m" "\<not> is_ok (verifyReject c p m)"
  "rbind (verifyReject c p m) f = verifyReject c p m"
  by (simp_all add: verifyReject_def)

text \<open>Several readers fill the path of a failure in on its way out.\<close>

definition at_path :: "string \<Rightarrow> 'a VResult \<Rightarrow> 'a VResult" where
  "at_path path = rmap_failure (\<lambda>failure. failure\<lparr>vf_path := path\<rparr>)"

definition at_path_if_empty :: "string \<Rightarrow> 'a VResult \<Rightarrow> 'a VResult" where
  "at_path_if_empty path =
     rmap_failure (\<lambda>failure. if vf_path failure = [] then failure\<lparr>vf_path := path\<rparr> else failure)"

lemma at_path_Inr [simp]:
  "at_path p r = Inr x \<longleftrightarrow> r = Inr x" "at_path_if_empty p r = Inr x \<longleftrightarrow> r = Inr x"
  by (simp_all add: at_path_def at_path_if_empty_def)

lemma at_path_returned [simp]: "at_path p (Inr x) = Inr x" "at_path_if_empty p (Inr x) = Inr x"
  by simp_all

definition kMaximumJsonBytes :: nat where "kMaximumJsonBytes = 268435456"
definition kMaximumJsonDepth :: nat where "kMaximumJsonDepth = 64"
definition kMaximumJsonNodes :: nat where "kMaximumJsonNodes = 8000000"
definition kMaximumDiffBytes :: nat where "kMaximumDiffBytes = 67108864"
definition kMaximumDiffFiles :: nat where "kMaximumDiffFiles = 20000"
definition kMaximumChangedLinesPerFile :: nat where "kMaximumChangedLinesPerFile = 500000"
definition kMaximumReportedUncoveredLines :: nat where "kMaximumReportedUncoveredLines = 4000"

section \<open>Findings\<close>

record VerifyFinding =
  vn_ruleId :: string
  vn_path :: string
  vn_message :: string

definition verifyFinding :: "string \<Rightarrow> string \<Rightarrow> string \<Rightarrow> VerifyFinding" where
  "verifyFinding ruleId path message = \<lparr>vn_ruleId = ruleId, vn_path = path, vn_message = message\<rparr>"

definition kRuleBelowFloor :: string where "kRuleBelowFloor = ''RV1001''"
definition kRuleMcdcUncovered :: string where "kRuleMcdcUncovered = ''RV1002''"
definition kRuleUndeclaredTier :: string where "kRuleUndeclaredTier = ''RV1003''"
definition kRuleStaleTier :: string where "kRuleStaleTier = ''RV1004''"
definition kRuleUndeclaredCriterion :: string where "kRuleUndeclaredCriterion = ''RV2001''"

section \<open>Paths\<close>

text \<open>\<open>std::filesystem::path::is_absolute\<close> and \<open>operator/\<close> on a POSIX host.\<close>

definition is_absolute_path :: "string \<Rightarrow> bool" where
  "is_absolute_path p \<longleftrightarrow> starts_with p ''/''"

definition path_append :: "string \<Rightarrow> string \<Rightarrow> string" where
  "path_append base given =
     (if is_absolute_path given then given
      else if base = [] \<or> last base = CHR ''/'' then base @ given
      else base @ CHR ''/'' # given)"

text \<open>
  The file system: \<open>weakly_canonical\<close> (\<open>None\<close> when it sets the error code), \<open>exists\<close>,
  \<open>is_regular_file\<close>, \<open>file_size\<close> (\<open>None\<close> on error), the bytes a binary stream of the file
  delivers (\<open>None\<close> when it cannot be opened or read), and the steps of a recursive directory
  iteration, each an error or an entry with its path and whether it is a regular file.
\<close>

record VerifyFiles =
  fs_canonical :: "string \<Rightarrow> string option"
  fs_exists :: "string \<Rightarrow> bool"
  fs_regular :: "string \<Rightarrow> bool"
  fs_size :: "string \<Rightarrow> nat option"
  fs_read :: "string \<Rightarrow> nat \<Rightarrow> string option"
  fs_stream :: "string \<Rightarrow> string option"
  fs_walk :: "string \<Rightarrow> (string \<times> bool) option list"

definition kReportRoot :: string where "kReportRoot = ''out/reports/verify''"

definition normalizeSeparators :: "string \<Rightarrow> string" where
  "normalizeSeparators = map (\<lambda>c. if c = CHR 0x5C then CHR ''/'' else c)"

definition sameLexicalPrefix :: "string \<Rightarrow> string \<Rightarrow> bool" where
  "sameLexicalPrefix candidate pre \<longleftrightarrow> starts_with candidate pre"

definition withTrailingSeparator :: "string \<Rightarrow> string" where
  "withTrailingSeparator s = (if s \<noteq> [] \<and> last s \<noteq> CHR ''/'' then s @ ''/'' else s)"

definition absoluteAgainst :: "string \<Rightarrow> string \<Rightarrow> string" where
  "absoluteAgainst base given = (if is_absolute_path given then given else path_append base given)"

definition canonicalize :: "VerifyFiles \<Rightarrow> string \<Rightarrow> string \<Rightarrow> string \<Rightarrow> string VResult" where
  "canonicalize fs given reportedAs subject =
     (case fs_canonical fs given of
        None \<Rightarrow> verifyReject VfInvalidPath reportedAs (subject @ '' cannot be resolved'')
      | Some resolved \<Rightarrow> Inr resolved)"

definition resolveRepositoryRoot :: "VerifyFiles \<Rightarrow> string \<Rightarrow> string VResult" where
  "resolveRepositoryRoot fs given =
     rbind (canonicalize fs given given ''the repository root'') (\<lambda>canonical.
       if \<not> fs_exists fs (path_append canonical ''repository.json'')
       then verifyReject VfMissingInput canonical
         ''the given root has no repository.json and is not this repository''
       else Inr canonical)"

definition repositoryRelative :: "VerifyFiles \<Rightarrow> string \<Rightarrow> string \<Rightarrow> string VResult" where
  "repositoryRelative fs repositoryRoot reportedPath =
     rbind (canonicalize fs (absoluteAgainst repositoryRoot reportedPath) reportedPath
         ''the reported path'') (\<lambda>absolute.
       let kRoot = withTrailingSeparator (normalizeSeparators repositoryRoot);
           kCandidate = normalizeSeparators absolute
       in if \<not> sameLexicalPrefix kCandidate kRoot
          then verifyReject VfInvalidPath reportedPath
            ''the reported path is outside the repository''
          else Inr (drop (length kRoot) kCandidate))"

definition isMaintainedSourceUnit :: "string \<Rightarrow> bool" where
  "isMaintainedSourceUnit relativePath =
     (if \<not> ends_with relativePath ''.cpp'' \<and> \<not> ends_with relativePath ''.h'' then False
      else if \<not> starts_with relativePath ''source/'' \<and> \<not> starts_with relativePath ''tools/'' then False
      else if contains_str relativePath ''/tests/'' then False
      else contains_str relativePath ''/src/'' \<or> contains_str relativePath ''/include/'')"

definition ensureWithinReportRoot :: "VerifyFiles \<Rightarrow> string \<Rightarrow> string \<Rightarrow> unit VResult" where
  "ensureWithinReportRoot fs repositoryRoot destination =
     rbind (canonicalize fs (absoluteAgainst repositoryRoot destination) destination
         ''the report destination'') (\<lambda>absolute.
       let kAllowed = withTrailingSeparator
             (normalizeSeparators (path_append repositoryRoot kReportRoot))
       in if \<not> sameLexicalPrefix (normalizeSeparators absolute) kAllowed
          then verifyReject VfInvalidPath destination
            (''a report may only be written beneath '' @ kReportRoot)
          else Inr ())"

section \<open>Containment is a matter of components\<close>

lemma split_at_char_prepend:
  "split_at_char c (s @ c # t) = split_at_char c s @ split_at_char c t"
  by (induction s) (auto split: list.splits)

lemma split_at_char_join_nonempty:
  assumes "split_at_char c s = ps @ qs" and "ps \<noteq> []" and "qs \<noteq> []"
  shows "\<exists>u v. s = u @ c # v \<and> split_at_char c u = ps \<and> split_at_char c v = qs"
  using assms
proof (induction s arbitrary: ps)
  case Nil
  then show ?case by (cases ps) auto
next
  case (Cons x s)
  obtain p ps' where ps: "ps = p # ps'" using Cons.prems(2) by (cases ps) auto
  show ?case
  proof (cases "x = c")
    case True
    with Cons.prems(1) ps have p: "p = []" and rest: "split_at_char c s = ps' @ qs" by auto
    show ?thesis
    proof (cases "ps' = []")
      case True
      then show ?thesis
        using \<open>x = c\<close> p ps rest by (intro exI [of _ "[]"] exI [of _ s]) auto
    next
      case False
      with Cons.IH [OF rest False Cons.prems(3)] obtain u v where
        "s = u @ c # v" "split_at_char c u = ps'" "split_at_char c v = qs" by blast
      then show ?thesis
        using \<open>x = c\<close> p ps by (intro exI [of _ "x # u"] exI [of _ v]) auto
    qed
  next
    case False
    obtain r rs where r: "split_at_char c s = r # rs"
      by (metis list.exhaust split_at_char_nonempty)
    with False Cons.prems(1) ps have pr: "p = x # r" and rest: "split_at_char c s = (r # ps') @ qs"
      by auto
    from Cons.IH [OF rest _ Cons.prems(3)] obtain u v where
      "s = u @ c # v" "split_at_char c u = r # ps'" "split_at_char c v = qs" by blast
    then show ?thesis
      using False pr ps by (intro exI [of _ "x # u"] exI [of _ v]) auto
  qed
qed

lemma split_at_char_inj: "split_at_char c s = split_at_char c t \<longleftrightarrow> s = t"
proof
  show "s = t" if "split_at_char c s = split_at_char c t"
    using that
  proof (induction s arbitrary: t)
    case Nil
    then show ?case by (cases t) (auto split: list.splits if_splits)
  next
    case (Cons x s)
    show ?case
    proof (cases t)
      case Nil
      then show ?thesis using Cons.prems by (auto split: list.splits if_splits)
    next
      fix y t' assume t: "t = y # t'"
      show ?thesis
        using Cons t by (auto split: list.splits if_splits)
    qed
  qed
qed simp

text \<open>The textual prefix test is the test on path components.\<close>

lemma starts_with_component_iff:
  "starts_with s (r @ [c]) \<longleftrightarrow> (\<exists>rest. rest \<noteq> [] \<and> split_at_char c s = split_at_char c r @ rest)"
proof
  assume "starts_with s (r @ [c])"
  then obtain t where "s = r @ c # t" by (auto simp: starts_with_iff)
  then show "\<exists>rest. rest \<noteq> [] \<and> split_at_char c s = split_at_char c r @ rest"
    using split_at_char_prepend by fastforce
next
  assume "\<exists>rest. rest \<noteq> [] \<and> split_at_char c s = split_at_char c r @ rest"
  then obtain rest where "rest \<noteq> []" "split_at_char c s = split_at_char c r @ rest" by blast
  from split_at_char_join_nonempty [OF this(2) split_at_char_nonempty this(1)]
  obtain u v where "s = u @ c # v" "u = r" by (auto simp: split_at_char_inj)
  then show "starts_with s (r @ [c])" by (simp add: starts_with_iff)
qed

abbreviation path_components :: "string \<Rightarrow> string list" where
  "path_components \<equiv> split_at_char (CHR ''/'')"

lemma withTrailingSeparator_normal:
  "s \<noteq> [] \<Longrightarrow> last s \<noteq> CHR ''/'' \<Longrightarrow> withTrailingSeparator s = s @ ''/''"
  by (simp add: withTrailingSeparator_def)

lemma repositoryRelative_Inr_iff:
  assumes "normalizeSeparators root \<noteq> []" and "last (normalizeSeparators root) \<noteq> CHR ''/''"
  shows "repositoryRelative fs root reported = Inr r \<longleftrightarrow>
    (\<exists>absolute. fs_canonical fs (absoluteAgainst root reported) = Some absolute \<and>
       path_components (normalizeSeparators absolute)
         = path_components (normalizeSeparators root) @ path_components r)"
    (is "?lhs \<longleftrightarrow> ?rhs")
proof -
  have cut: "(starts_with a (b @ ''/'') \<and> r = drop (Suc (length b)) a) \<longleftrightarrow>
      path_components a = path_components b @ path_components r" for a b
  proof -
    have "(starts_with a (b @ ''/'') \<and> r = drop (Suc (length b)) a) \<longleftrightarrow> a = b @ CHR ''/'' # r"
      by (auto simp: starts_with_iff)
    also have "\<dots> \<longleftrightarrow> path_components a = path_components (b @ CHR ''/'' # r)"
      by (simp only: split_at_char_inj)
    finally show ?thesis by (simp only: split_at_char_prepend)
  qed
  show ?thesis
    unfolding repositoryRelative_def canonicalize_def
    by (auto simp: rbind_Inr_iff Let_def sameLexicalPrefix_def
        withTrailingSeparator_normal [OF assms] cut [symmetric] split: option.splits if_splits)
qed

text \<open>
  A reported path is accepted exactly when the directories of the resolved path begin with
  all the directories of the repository root, and the answer is the remaining ones: a sibling
  directory whose name merely starts with the root's name is outside.
\<close>

theorem repository_relative_is_componentwise:
  assumes "root \<noteq> []" and "last root \<noteq> CHR ''/''" and "CHR 0x5C \<notin> set root"
  shows "repositoryRelative fs root reported = Inr r \<longleftrightarrow>
    (\<exists>absolute. fs_canonical fs (absoluteAgainst root reported) = Some absolute \<and>
       path_components (normalizeSeparators absolute) = path_components root @ path_components r)"
proof -
  have "normalizeSeparators root = root"
    unfolding normalizeSeparators_def using assms(3) by (intro map_idI) auto
  with repositoryRelative_Inr_iff [of root fs reported r] assms show ?thesis by simp
qed

definition demo_files :: VerifyFiles where
  "demo_files = \<lparr>fs_canonical = Some, fs_exists = (\<lambda>_. True), fs_regular = (\<lambda>_. True),
     fs_size = (\<lambda>_. Some 0), fs_read = (\<lambda>_ _. Some []), fs_stream = (\<lambda>_. Some []), fs_walk = (\<lambda>_. [])\<rparr>"

lemma repository_relative_is_componentwise_witness:
  "repositoryRelative demo_files ''/r'' ''src/a.h'' = Inr ''src/a.h'' \<and>
   \<not> (\<exists>r. repositoryRelative demo_files ''/r'' ''/rx/a.h'' = Inr r)"
  using repository_relative_is_componentwise [of "''/r''" demo_files "''src/a.h''" "''src/a.h''"]
    repository_relative_is_componentwise [of "''/r''" demo_files "''/rx/a.h''"]
  by (simp_all add: demo_files_def absoluteAgainst_def path_append_def is_absolute_path_def
      normalizeSeparators_def)

text \<open>
  The write root: a report that is accepted lies, component by component, beneath
  \<open>out/reports/verify\<close> of the repository.
\<close>

lemma ensureWithinReportRoot_ok:
  assumes "ensureWithinReportRoot fs root destination = Inr ()"
    and "CHR 0x5C \<notin> set root" and "root \<noteq> []" and "last root \<noteq> CHR ''/''"
  shows "\<exists>absolute rest. fs_canonical fs (absoluteAgainst root destination) = Some absolute \<and> rest \<noteq> [] \<and>
    path_components (normalizeSeparators absolute)
      = path_components root @ [''out'', ''reports'', ''verify''] @ rest"
proof -
  have norm: "normalizeSeparators (path_append root kReportRoot) = root @ ''/out/reports/verify''"
    using assms(2-4)
    by (auto simp: path_append_def is_absolute_path_def kReportRoot_def normalizeSeparators_def
        intro!: map_idI)
  have split: "path_components (root @ ''/out/reports/verify'')
      = path_components root @ [''out'', ''reports'', ''verify'']"
    using split_at_char_prepend [of "CHR ''/''" root "''out/reports/verify''"] by simp
  from assms(1) obtain absolute where "fs_canonical fs (absoluteAgainst root destination) = Some absolute"
    and "starts_with (normalizeSeparators absolute) ((root @ ''/out/reports/verify'') @ [CHR ''/''])"
    by (auto simp: ensureWithinReportRoot_def canonicalize_def Let_def norm sameLexicalPrefix_def
        withTrailingSeparator_def split: option.splits if_splits)
  then show ?thesis
    unfolding starts_with_component_iff split by auto
qed

end
