(* ===== verification/Verify_Json.thy ===== *)
theory Verify_Json
  imports Verify_Paths Simdjson
begin

text \<open>
  \<open>tools/rf_verify/src/json_reader.{h,cpp}\<close>: the document model of generated artifacts and its
  builder over the on-demand parser (the parameter \<open>iterate\<close>, see theory Simdjson), with the
  byte, depth and node ceilings, and the integer accessors every consumer uses.
\<close>

datatype JsonNode =
    JNull
  | JBoolean bool
  | JNumber string
  | JString string
  | JArray "JsonNode list"
  | JObject "(string \<times> JsonNode) list"

text \<open>
  \<open>find\<close> answers the first member of that name; a node that is not an object has no members and
  one that is not an array has no elements.
\<close>

fun node_members :: "JsonNode \<Rightarrow> (string \<times> JsonNode) list" where
  "node_members (JObject ms) = ms" | "node_members _ = []"
fun node_elements :: "JsonNode \<Rightarrow> JsonNode list" where
  "node_elements (JArray es) = es" | "node_elements _ = []"
fun isObject :: "JsonNode \<Rightarrow> bool" where
  "isObject (JObject _) = True" | "isObject _ = False"
fun isArray :: "JsonNode \<Rightarrow> bool" where
  "isArray (JArray _) = True" | "isArray _ = False"

definition findMember :: "JsonNode \<Rightarrow> string \<Rightarrow> JsonNode option" where
  "findMember node key = map_of (node_members node) key"

text \<open>Members that must be a string, an array, an object or a boolean.\<close>

definition findString :: "JsonNode \<Rightarrow> string \<Rightarrow> string option" where
  "findString node key = (case findMember node key of Some (JString t) \<Rightarrow> Some t | _ \<Rightarrow> None)"
definition findArray :: "JsonNode \<Rightarrow> string \<Rightarrow> JsonNode list option" where
  "findArray node key = (case findMember node key of Some (JArray es) \<Rightarrow> Some es | _ \<Rightarrow> None)"
definition findBoolean :: "JsonNode \<Rightarrow> string \<Rightarrow> bool option" where
  "findBoolean node key = (case findMember node key of Some (JBoolean b) \<Rightarrow> Some b | _ \<Rightarrow> None)"

definition number_end :: "char \<Rightarrow> bool" where
  "number_end c \<longleftrightarrow> c \<in> {CHR '' '', CHR 0x09, CHR 0x0A, CHR 0x0D, CHR '','', CHR ''}'', CHR '']''}"

definition trimNumberToken :: "string \<Rightarrow> string" where
  "trimNumberToken token = takeWhile (\<lambda>c. \<not> number_end c) token"

fun buildNode :: "nat \<Rightarrow> sj_value \<Rightarrow> nat \<Rightarrow> (JsonNode \<times> nat) VResult"
  and buildArray :: "nat \<Rightarrow> sj_element list \<Rightarrow> nat \<Rightarrow> JsonNode list \<Rightarrow> (JsonNode \<times> nat) VResult"
  and buildObject :: "nat \<Rightarrow> sj_field list \<Rightarrow> nat \<Rightarrow> (string \<times> JsonNode) list \<Rightarrow> (JsonNode \<times> nat) VResult"
where
  "buildNode nodes v depth =
     (if kMaximumJsonDepth < depth
      then verifyReject VfLimitExceeded [] ''document exceeds the nesting limit''
      else if kMaximumJsonNodes < nodes + 1
      then verifyReject VfLimitExceeded [] ''document exceeds the node limit''
      else case v of
        SjUnreadable kError \<Rightarrow> verifyReject VfInvalidJson [] (''unreadable value: '' @ kError)
      | SjObject fs \<Rightarrow> buildObject (nodes + 1) fs depth []
      | SjObjectRefused \<Rightarrow> verifyReject VfInvalidJson [] ''an object value is not an object''
      | SjArray es \<Rightarrow> buildArray (nodes + 1) es depth []
      | SjArrayRefused \<Rightarrow> verifyReject VfInvalidJson [] ''an array value is not an array''
      | SjNumber kToken \<Rightarrow> Inr (JNumber (trimNumberToken kToken), nodes + 1)
      | SjString t \<Rightarrow> Inr (JString t, nodes + 1)
      | SjStringRefused kError \<Rightarrow> verifyReject VfInvalidJson [] ''a string value is not a string''
      | SjBool b \<Rightarrow> Inr (JBoolean b, nodes + 1)
      | SjBoolRefused \<Rightarrow> verifyReject VfInvalidJson [] ''a boolean value is not a boolean''
      | SjNull \<Rightarrow> Inr (JNull, nodes + 1)
      | SjUnknown \<Rightarrow> verifyReject VfInvalidJson [] ''a value of an unknown JSON type'')"
| "buildArray nodes [] depth kept = Inr (JArray kept, nodes)"
| "buildArray nodes (e # es) depth kept =
     (case e of
        SjElementError kError \<Rightarrow> verifyReject VfInvalidJson [] (''malformed array element: '' @ kError)
      | SjElement child \<Rightarrow>
          rbind (buildNode nodes child (depth + 1)) (\<lambda>(built, nodes').
            buildArray nodes' es depth (kept @ [built])))"
| "buildObject nodes [] depth kept = Inr (JObject kept, nodes)"
| "buildObject nodes (f # fs) depth kept =
     (case f of
        SjKeyError kError \<Rightarrow> verifyReject VfInvalidJson [] (''malformed object key: '' @ kError)
      | SjValueError key kError \<Rightarrow> verifyReject VfInvalidJson [] (''malformed object value: '' @ kError)
      | SjField key child \<Rightarrow>
          rbind (buildNode nodes child (depth + 1)) (\<lambda>(built, nodes').
            buildObject nodes' fs depth (kept @ [(key, built)])))"

definition parseJson :: "(string \<Rightarrow> sj_document) \<Rightarrow> string \<Rightarrow> JsonNode VResult" where
  "parseJson iterate bytes =
     (if kMaximumJsonBytes < length bytes
      then verifyReject VfLimitExceeded [] ''the document exceeds the byte limit''
      else case iterate bytes of
        SjNotJson kError \<Rightarrow> verifyReject VfInvalidJson [] (''the document is not JSON: '' @ kError)
      | SjNoRoot kError \<Rightarrow> verifyReject VfInvalidJson [] ''the document has no root value''
      | SjDocument root at_end \<Rightarrow> rbind (buildNode 0 root 0) (\<lambda>(built, nodes). Inr built))"

definition readFileBytes :: "VerifyFiles \<Rightarrow> string \<Rightarrow> string VResult" where
  "readFileBytes fs path =
     (if \<not> fs_exists fs path then verifyReject VfMissingInput path ''the input file does not exist''
      else case fs_size fs path of
        None \<Rightarrow> verifyReject VfIoFailure path ''the input file size cannot be read''
      | Some kSize \<Rightarrow>
          if kMaximumJsonBytes < kSize
          then verifyReject VfLimitExceeded path ''the input file exceeds the byte limit''
          else case fs_read fs path kSize of
            None \<Rightarrow> verifyReject VfIoFailure path ''the input file cannot be read''
          | Some bytes \<Rightarrow> Inr bytes)"

definition readJsonFile :: "(string \<Rightarrow> sj_document) \<Rightarrow> VerifyFiles \<Rightarrow> string \<Rightarrow> JsonNode VResult" where
  "readJsonFile iterate fs path =
     rbind (readFileBytes fs path) (\<lambda>bytes. at_path path (parseJson iterate bytes))"

definition readInteger :: "JsonNode \<Rightarrow> int VResult" where
  "readInteger node =
     (case node of
        JNumber t \<Rightarrow>
          (case from_chars_i64 t of
             None \<Rightarrow> verifyReject VfInvalidJson [] (''a value that must be an integer is not one: '' @ t)
           | Some n \<Rightarrow> Inr n)
      | _ \<Rightarrow> verifyReject VfInvalidJson [] ''a value that must be an integer is not a number'')"

definition readIntegerAt :: "JsonNode \<Rightarrow> nat \<Rightarrow> int VResult" where
  "readIntegerAt arr index =
     (if \<not> isArray arr \<or> length (node_elements arr) \<le> index
      then verifyReject VfInvalidJson [] ''an expected array position is absent''
      else readInteger (node_elements arr ! index))"

section \<open>Bounds of what is read\<close>

lemma readInteger_range: "readInteger node = Inr n \<Longrightarrow> int64_min \<le> n \<and> n \<le> int64_max"
  by (auto simp: readInteger_def from_chars_i64_range split: JsonNode.splits option.splits)

lemma readIntegerAt_range: "readIntegerAt arr i = Inr n \<Longrightarrow> int64_min \<le> n \<and> n \<le> int64_max"
  by (auto simp: readIntegerAt_def readInteger_range split: if_splits)

text \<open>Nodes of a document and its nesting: what the two ceilings bound.\<close>

fun node_count :: "JsonNode \<Rightarrow> nat" where
  "node_count (JArray es) = Suc (sum_list (map node_count es))"
| "node_count (JObject ms) = Suc (sum_list (map (\<lambda>m. node_count (snd m)) ms))"
| "node_count _ = 1"

fun node_depth :: "JsonNode \<Rightarrow> nat" where
  "node_depth (JArray es) = fold max (map (\<lambda>e. Suc (node_depth e)) es) 0"
| "node_depth (JObject ms) = fold max (map (\<lambda>m. Suc (node_depth (snd m))) ms) 0"
| "node_depth _ = 0"

lemma fold_max_le: "fold max xs (a::nat) \<le> b \<longleftrightarrow> a \<le> b \<and> (\<forall>x\<in>set xs. x \<le> b)"
  by (induction xs arbitrary: a) auto

lemma depth_bound_fold:
  "d \<le> (K::nat) \<Longrightarrow> \<forall>x\<in>set xs. d + x \<le> K \<Longrightarrow> d + fold max xs 0 \<le> K"
  using fold_max_le [of xs 0 "K - d"] by fastforce

lemma build_counts:
  "buildNode n v d = Inr (j, n') \<Longrightarrow> n' = n + node_count j \<and> n' \<le> kMaximumJsonNodes \<and>
     d + node_depth j \<le> kMaximumJsonDepth"
  "buildArray n es d kept = Inr (j, n') \<Longrightarrow> n \<le> kMaximumJsonNodes \<Longrightarrow>
     \<exists>more. j = JArray (kept @ more) \<and> n' = n + sum_list (map node_count more) \<and>
       n' \<le> kMaximumJsonNodes \<and> (\<forall>e\<in>set more. d + Suc (node_depth e) \<le> kMaximumJsonDepth)"
  "buildObject n fs d mkept = Inr (j, n') \<Longrightarrow> n \<le> kMaximumJsonNodes \<Longrightarrow>
     \<exists>more. j = JObject (mkept @ more) \<and> n' = n + sum_list (map (\<lambda>m. node_count (snd m)) more) \<and>
       n' \<le> kMaximumJsonNodes \<and> (\<forall>m\<in>set more. d + Suc (node_depth (snd m)) \<le> kMaximumJsonDepth)"
proof (induction n v d and n es d kept and n fs d mkept arbitrary: j n' and j n' and j n'
    rule: buildNode_buildArray_buildObject.induct)
  case (1 nodes v depth)
  then show ?case
  proof (cases v)
    case (SjObject fs)
    with "1.prems" have "buildObject (nodes + 1) fs depth [] = Inr (j, n')" and "nodes + 1 \<le> kMaximumJsonNodes"
      and "depth \<le> kMaximumJsonDepth"
      by (auto split: if_splits)
    from "1.IH"(1) [OF _ _ SjObject this(1,2)] "1.prems" \<open>depth \<le> kMaximumJsonDepth\<close>
    show ?thesis by (auto intro!: depth_bound_fold split: if_splits) force+
  next
    case (SjArray es)
    with "1.prems" have "buildArray (nodes + 1) es depth [] = Inr (j, n')" and "nodes + 1 \<le> kMaximumJsonNodes"
      and "depth \<le> kMaximumJsonDepth"
      by (auto split: if_splits)
    from "1.IH"(2) [OF _ _ SjArray this(1,2)] "1.prems" \<open>depth \<le> kMaximumJsonDepth\<close>
    show ?thesis by (auto intro!: depth_bound_fold split: if_splits)
  qed (auto split: if_splits)
next
  case (3 nodes e es depth kept)
  then obtain child where e: "e = SjElement child" by (cases e) auto
  with "3.prems"(1) obtain built n1 where b: "buildNode nodes child (depth + 1) = Inr (built, n1)"
    and r: "buildArray n1 es depth (kept @ [built]) = Inr (j, n')"
    by auto
  from "3.IH"(1) [OF e b] have b': "n1 = nodes + node_count built" "n1 \<le> kMaximumJsonNodes"
    "depth + Suc (node_depth built) \<le> kMaximumJsonDepth" by auto
  from "3.IH"(2) [OF e b refl r b'(2)] obtain more where
    "j = JArray ((kept @ [built]) @ more)" "n' = n1 + sum_list (map node_count more)"
    "n' \<le> kMaximumJsonNodes" "\<forall>e\<in>set more. depth + Suc (node_depth e) \<le> kMaximumJsonDepth"
    by auto
  with b' show ?case by (intro exI [of _ "built # more"]) auto
next
  case (5 nodes f fs depth kept)
  then obtain key child where f: "f = SjField key child" by (cases f) auto
  with "5.prems"(1) obtain built n1 where b: "buildNode nodes child (depth + 1) = Inr (built, n1)"
    and r: "buildObject n1 fs depth (kept @ [(key, built)]) = Inr (j, n')"
    by auto
  from "5.IH"(1) [OF f b] have b': "n1 = nodes + node_count built" "n1 \<le> kMaximumJsonNodes"
    "depth + Suc (node_depth built) \<le> kMaximumJsonDepth" by auto
  from "5.IH"(2) [OF f b refl r b'(2)] obtain more where
    "j = JObject ((kept @ [(key, built)]) @ more)"
    "n' = n1 + sum_list (map (\<lambda>m. node_count (snd m)) more)"
    "n' \<le> kMaximumJsonNodes" "\<forall>m\<in>set more. depth + Suc (node_depth (snd m)) \<le> kMaximumJsonDepth"
    by auto
  with b' show ?case by (intro exI [of _ "(key, built) # more"]) auto
qed simp_all

text \<open>A document that was read stays within the ceilings, whatever the parser answered.\<close>

lemma parseJson_bounded:
  assumes "parseJson iterate bytes = Inr document"
  shows "length bytes \<le> kMaximumJsonBytes \<and> node_count document \<le> kMaximumJsonNodes \<and>
    node_depth document \<le> kMaximumJsonDepth"
  using assms build_counts(1)
  by (fastforce simp: parseJson_def split: if_splits sj_document.splits)

end
