(* ===== verification/Verify_Coverage.thy ===== *)
theory Verify_Coverage
  imports Verify_Json
begin

text \<open>
  \<open>tools/rf_verify/src/coverage_export.{h,cpp}\<close>: the conversion of an llvm-cov export into
  per-unit branch regions, decisions and line counts, and the MC/DC judgement on one decision.
  Regions at one source span are one decision whose counts are added, with saturation at the
  64-bit maximum.  The export is a parsed document of theory Verify_Json.
\<close>

section \<open>The measured data\<close>

record BranchRegion =
  br_line :: nat
  br_column :: nat
  br_endLine :: nat
  br_endColumn :: nat
  br_trueCount :: int
  br_falseCount :: int

definition trueCovered :: "BranchRegion \<Rightarrow> bool" where
  "trueCovered region \<longleftrightarrow> 0 < br_trueCount region"
definition falseCovered :: "BranchRegion \<Rightarrow> bool" where
  "falseCovered region \<longleftrightarrow> 0 < br_falseCount region"

datatype ConditionValue = CondFalse | CondTrue | CondAbsent

record McdcTestVector =
  tv_conditions :: "ConditionValue list"
  tv_executed :: bool
  tv_result :: bool

record McdcDecision =
  md_line :: nat
  md_column :: nat
  md_conditionCount :: nat
  md_vectors :: "McdcTestVector list"

record CoverageCounts =
  cc_count :: int
  cc_covered :: int

record CoverageSummary =
  cs_lines :: CoverageCounts
  cs_branches :: CoverageCounts
  cs_regions :: CoverageCounts
  cs_mcdc :: CoverageCounts

record CoverageFile =
  cf_path :: string
  cf_summary :: CoverageSummary
  cf_branches :: "BranchRegion list"
  cf_decisions :: "McdcDecision list"
  cf_lineCounts :: "(nat, int) omap"

record CoverageExport =
  ce_producerVersion :: string
  ce_files :: "(string, CoverageFile) omap"
  ce_droppedForeignFiles :: nat

definition no_counts :: CoverageCounts where "no_counts = \<lparr>cc_count = 0, cc_covered = 0\<rparr>"

definition kBranchFieldCount :: nat where "kBranchFieldCount = 9"
definition kMcdcFieldCount :: nat where "kMcdcFieldCount = 11"
definition kSegmentFieldCount :: nat where "kSegmentFieldCount = 6"

section \<open>Reading one file of the export\<close>

definition readLineNumber :: "JsonNode \<Rightarrow> nat \<Rightarrow> nat VResult" where
  "readLineNumber arr index =
     rbind (readIntegerAt arr index) (\<lambda>n.
       if n < 0 \<or> 2 ^ 32 - 1 < n
       then verifyReject VfInvalidJson [] ''a line or column is outside the representable range''
       else Inr (nat n))"

definition readCounts :: "JsonNode \<Rightarrow> string \<Rightarrow> CoverageCounts VResult" where
  "readCounts summary key =
     (case findMember summary key of
        Some section \<Rightarrow>
          if \<not> isObject section
          then verifyReject VfInvalidJson [] (''the file summary has no '' @ key)
          else (case (findMember section ''count'', findMember section ''covered'') of
                  (Some countNode, Some coveredNode) \<Rightarrow>
                    rbind (readInteger countNode) (\<lambda>readCount.
                    rbind (readInteger coveredNode) (\<lambda>readCovered.
                      Inr \<lparr>cc_count = readCount, cc_covered = readCovered\<rparr>))
                | _ \<Rightarrow> verifyReject VfInvalidJson [] (''the '' @ key @ '' summary is incomplete''))
      | None \<Rightarrow> verifyReject VfInvalidJson [] (''the file summary has no '' @ key))"

definition readSummary :: "JsonNode \<Rightarrow> CoverageSummary VResult" where
  "readSummary file =
     (case findMember file ''summary'' of
        Some summary \<Rightarrow>
          if \<not> isObject summary then verifyReject VfInvalidJson [] ''a covered file has no summary''
          else rbind (readCounts summary ''lines'') (\<lambda>ls.
               rbind (readCounts summary ''branches'') (\<lambda>bs.
               rbind (readCounts summary ''regions'') (\<lambda>rs.
                 Inr \<lparr>cs_lines = ls, cs_branches = bs, cs_regions = rs,
                      cs_mcdc = (case readCounts summary ''mcdc'' of Inr m \<Rightarrow> m | Inl _ \<Rightarrow> no_counts)\<rparr>)))
      | None \<Rightarrow> verifyReject VfInvalidJson [] ''a covered file has no summary'')"

definition readBranchRegion :: "JsonNode \<Rightarrow> BranchRegion VResult" where
  "readBranchRegion entry =
     (if \<not> isArray entry \<or> length (node_elements entry) < kBranchFieldCount
      then verifyReject VfInvalidJson [] ''a branch region is not a nine-field record''
      else rbind (readLineNumber entry 0) (\<lambda>line.
           rbind (readLineNumber entry 1) (\<lambda>column.
           rbind (readLineNumber entry 2) (\<lambda>endLine.
           rbind (readLineNumber entry 3) (\<lambda>endColumn.
           rbind (readIntegerAt entry 4) (\<lambda>trueCount.
           rbind (readIntegerAt entry 5) (\<lambda>falseCount.
             Inr \<lparr>br_line = line, br_column = column, br_endLine = endLine, br_endColumn = endColumn,
                  br_trueCount = trueCount, br_falseCount = falseCount\<rparr>)))))))"

definition same_span :: "BranchRegion \<Rightarrow> BranchRegion \<Rightarrow> bool" where
  "same_span candidate region \<longleftrightarrow>
     br_line candidate = br_line region \<and> br_column candidate = br_column region \<and>
     br_endLine candidate = br_endLine region \<and> br_endColumn candidate = br_endColumn region"

definition kSaturatingAdd :: "int \<Rightarrow> int \<Rightarrow> int" where
  "kSaturatingAdd left right = (if int64_max - right < left then int64_max else left + right)"

fun mergeRegion :: "BranchRegion list \<Rightarrow> BranchRegion \<Rightarrow> BranchRegion list" where
  "mergeRegion [] region = [region]"
| "mergeRegion (c # cs) region =
     (if same_span c region
      then c\<lparr>br_trueCount := kSaturatingAdd (br_trueCount c) (br_trueCount region),
             br_falseCount := kSaturatingAdd (br_falseCount c) (br_falseCount region)\<rparr> # cs
      else c # mergeRegion cs region)"

definition readBranches :: "JsonNode \<Rightarrow> CoverageFile \<Rightarrow> CoverageFile VResult" where
  "readBranches file target =
     (case findMember file ''branches'' of
        None \<Rightarrow> Inr target
      | Some branches \<Rightarrow>
          if \<not> isArray branches
          then verifyReject VfInvalidJson (cf_path target) ''the branch list is not an array''
          else rfold (\<lambda>t entry. rbind (at_path (cf_path target) (readBranchRegion entry)) (\<lambda>region.
                 Inr (t\<lparr>cf_branches := mergeRegion (cf_branches t) region\<rparr>)))
               target (node_elements branches))"

type_synonym Expansions = "(string, BranchRegion list) omap"

definition creditExpansion :: "string \<Rightarrow> JsonNode list \<Rightarrow> Expansions \<Rightarrow> JsonNode \<Rightarrow> Expansions VResult" where
  "creditExpansion path names into' entry =
     rbind (at_path path (readBranchRegion entry)) (\<lambda>region.
     rbind (readIntegerAt entry 6) (\<lambda>fileId.
       if fileId < 0 \<or> length names \<le> nat fileId
       then verifyReject VfInvalidJson path ''an expansion branch names a file the block does not''
       else case names ! nat fileId of
         JString kName \<Rightarrow>
           Inr (omap_put kName (mergeRegion (omap_at [] into' kName) region) into')
       | _ \<Rightarrow> verifyReject VfInvalidJson path ''an expansion filename is not a string''))"

definition creditBlock :: "string \<Rightarrow> Expansions \<Rightarrow> JsonNode \<Rightarrow> Expansions VResult" where
  "creditBlock path into' expansion =
     (case findArray expansion ''filenames'' of
        None \<Rightarrow> verifyReject VfInvalidJson path ''an expansion names no files''
      | Some names \<Rightarrow>
          (case findMember expansion ''branches'' of
             None \<Rightarrow> Inr into'
           | Some branches \<Rightarrow>
               if \<not> isArray branches
               then verifyReject VfInvalidJson path ''an expansion branch list is not an array''
               else rfold (creditExpansion path names) into' (node_elements branches)))"

definition collectExpansionBranches :: "JsonNode \<Rightarrow> string \<Rightarrow> Expansions \<Rightarrow> Expansions VResult" where
  "collectExpansionBranches file path into' =
     (case findMember file ''expansions'' of
        None \<Rightarrow> Inr into'
      | Some expansions \<Rightarrow>
          if \<not> isArray expansions
          then verifyReject VfInvalidJson path ''the expansion list is not an array''
          else rfold (creditBlock path) into' (node_elements expansions))"

definition readCondition :: "JsonNode \<Rightarrow> ConditionValue VResult" where
  "readCondition condition =
     (case condition of
        JNull \<Rightarrow> Inr CondAbsent
      | JBoolean b \<Rightarrow> Inr (if b then CondTrue else CondFalse)
      | _ \<Rightarrow> verifyReject VfInvalidJson [] ''an MC/DC condition is neither a boolean nor null'')"

definition readTestVector :: "JsonNode \<Rightarrow> nat \<Rightarrow> McdcTestVector VResult" where
  "readTestVector entry conditionCount =
     (if \<not> isObject entry then verifyReject VfInvalidJson [] ''an MC/DC test vector is not an object''
      else case (findArray entry ''conditions'', findBoolean entry ''executed'', findBoolean entry ''result'') of
        (Some conditions, Some executed, Some result) \<Rightarrow>
          if length conditions \<noteq> conditionCount
          then verifyReject VfInvalidJson [] ''an MC/DC test vector disagrees with its decision width''
          else rbind (rmap readCondition conditions) (\<lambda>cs.
            Inr \<lparr>tv_conditions = cs, tv_executed = executed, tv_result = result\<rparr>)
      | _ \<Rightarrow> verifyReject VfInvalidJson [] ''an MC/DC test vector is incomplete'')"

definition readDecision :: "string \<Rightarrow> JsonNode \<Rightarrow> McdcDecision VResult" where
  "readDecision path entry =
     (if \<not> isArray entry \<or> length (node_elements entry) < kMcdcFieldCount
      then verifyReject VfInvalidJson path ''an MC/DC record is not an eleven-field record''
      else case (node_elements entry ! 9, node_elements entry ! 10) of
        (JArray kFolding, JArray kVectors) \<Rightarrow>
          rbind (readLineNumber entry 0) (\<lambda>line.
          rbind (readLineNumber entry 1) (\<lambda>column.
          rbind (rmap (\<lambda>v. at_path path (readTestVector v (length kFolding))) kVectors) (\<lambda>vectors.
            Inr \<lparr>md_line = line, md_column = column, md_conditionCount = length kFolding,
                 md_vectors = vectors\<rparr>)))
      | _ \<Rightarrow> verifyReject VfInvalidJson path ''an MC/DC record has no condition or vector list'')"

definition readDecisions :: "JsonNode \<Rightarrow> CoverageFile \<Rightarrow> CoverageFile VResult" where
  "readDecisions file target =
     (case findMember file ''mcdc_records'' of
        None \<Rightarrow> Inr target
      | Some records \<Rightarrow>
          if \<not> isArray records
          then verifyReject VfInvalidJson (cf_path target) ''the MC/DC record list is not an array''
          else rfold (\<lambda>t entry. rbind (readDecision (cf_path target) entry) (\<lambda>decision.
                 Inr (t\<lparr>cf_decisions := cf_decisions t @ [decision]\<rparr>)))
               target (node_elements records))"

definition readSegment :: "string \<Rightarrow> (nat, int) omap \<Rightarrow> JsonNode \<Rightarrow> (nat, int) omap VResult" where
  "readSegment path lineCounts entry =
     (if \<not> isArray entry \<or> length (node_elements entry) < kSegmentFieldCount
      then verifyReject VfInvalidJson path ''a segment is not a six-field record''
      else case node_elements entry ! 3 of
        JBoolean True \<Rightarrow>
          rbind (readLineNumber entry 0) (\<lambda>line.
          rbind (readIntegerAt entry 2) (\<lambda>executions.
            case map_of lineCounts line of
              None \<Rightarrow> Inr (omap_emplace line executions lineCounts)
            | Some existing \<Rightarrow> Inr (omap_put line (max existing executions) lineCounts)))
      | _ \<Rightarrow> Inr lineCounts)"

definition readSegments :: "JsonNode \<Rightarrow> CoverageFile \<Rightarrow> CoverageFile VResult" where
  "readSegments file target =
     (case findMember file ''segments'' of
        None \<Rightarrow> Inr target
      | Some segments \<Rightarrow>
          if \<not> isArray segments
          then verifyReject VfInvalidJson (cf_path target) ''the segment list is not an array''
          else rbind (rfold (readSegment (cf_path target)) (cf_lineCounts target) (node_elements segments))
            (\<lambda>counts. Inr (target\<lparr>cf_lineCounts := counts\<rparr>)))"

section \<open>Reading whole exports\<close>

text \<open>Both passes over the document visit the files of every data entry in order.\<close>

definition eachFile :: "('s \<Rightarrow> JsonNode \<Rightarrow> string \<Rightarrow> 's VResult) \<Rightarrow> JsonNode list \<Rightarrow> 's \<Rightarrow> 's VResult" where
  "eachFile visit data start =
     rfold (\<lambda>s entry.
       case findArray entry ''files'' of
         None \<Rightarrow> verifyReject VfInvalidJson [] ''a coverage export entry has no file list''
       | Some files \<Rightarrow>
           rfold (\<lambda>s file.
             case findString file ''filename'' of
               None \<Rightarrow> verifyReject VfInvalidJson [] ''a covered file has no filename''
             | Some name \<Rightarrow> visit s file name) s files) start data"

definition newCoverageFile :: "string \<Rightarrow> CoverageFile" where
  "newCoverageFile path = \<lparr>cf_path = path,
     cf_summary = \<lparr>cs_lines = no_counts, cs_branches = no_counts, cs_regions = no_counts, cs_mcdc = no_counts\<rparr>,
     cf_branches = [], cf_decisions = [], cf_lineCounts = []\<rparr>"

definition readCoverageFile :: "Expansions \<Rightarrow> JsonNode \<Rightarrow> string \<Rightarrow> string \<Rightarrow> CoverageFile VResult" where
  "readCoverageFile expansionBranches file name relative =
     rbind (at_path relative (readSummary file)) (\<lambda>summary.
     rbind (readBranches file ((newCoverageFile relative)\<lparr>cf_summary := summary\<rparr>)) (\<lambda>target.
     rbind (readDecisions file target) (\<lambda>target.
     rbind (readSegments file target) (\<lambda>target.
       Inr (case map_of expansionBranches name of
              None \<Rightarrow> target
            | Some kExpanded \<Rightarrow>
                target\<lparr>cf_branches := foldl mergeRegion (cf_branches target) kExpanded\<rparr>)))))"

definition appendFile :: "VerifyFiles \<Rightarrow> string \<Rightarrow> Expansions \<Rightarrow> CoverageExport \<Rightarrow> JsonNode \<Rightarrow> string
    \<Rightarrow> CoverageExport VResult" where
  "appendFile fs repositoryRoot expansionBranches into' file name =
     (let dropped = Inr (into'\<lparr>ce_droppedForeignFiles := ce_droppedForeignFiles into' + 1\<rparr>) in
      case repositoryRelative fs repositoryRoot name of
        Inl _ \<Rightarrow> dropped
      | Inr relative \<Rightarrow>
          if \<not> isMaintainedSourceUnit relative then dropped
          else if map_of (ce_files into') relative \<noteq> None
          then verifyReject VfInvalidJson relative ''two coverage exports describe the same source unit''
          else rbind (readCoverageFile expansionBranches file name relative) (\<lambda>target.
            Inr (into'\<lparr>ce_files := omap_emplace (cf_path target) target (ce_files into')\<rparr>)))"

definition appendCoverageExport :: "VerifyFiles \<Rightarrow> string \<Rightarrow> JsonNode \<Rightarrow> CoverageExport \<Rightarrow> CoverageExport VResult" where
  "appendCoverageExport fs repositoryRoot document into' =
     (if \<not> isObject document then verifyReject VfInvalidJson [] ''the coverage export is not an object''
      else if findString document ''type'' \<noteq> Some ''llvm.coverage.json.export''
      then verifyReject VfInvalidJson [] ''the document is not an llvm-cov export''
      else let into' = (case findString document ''version'' of
                 Some version \<Rightarrow> if ce_producerVersion into' = []
                   then into'\<lparr>ce_producerVersion := version\<rparr> else into'
               | None \<Rightarrow> into')
      in case findArray document ''data'' of
        None \<Rightarrow> verifyReject VfInvalidJson [] ''the coverage export has no data array''
      | Some data \<Rightarrow>
          rbind (eachFile (\<lambda>s file name. collectExpansionBranches file name s) data [])
            (\<lambda>expansionBranches. eachFile (appendFile fs repositoryRoot expansionBranches) data into'))"

definition no_coverage :: CoverageExport where
  "no_coverage = \<lparr>ce_producerVersion = [], ce_files = [], ce_droppedForeignFiles = 0\<rparr>"

definition buildCoverageExport :: "VerifyFiles \<Rightarrow> string \<Rightarrow> JsonNode \<Rightarrow> CoverageExport VResult" where
  "buildCoverageExport fs repositoryRoot document = appendCoverageExport fs repositoryRoot document no_coverage"

definition readCoverageExports :: "(string \<Rightarrow> sj_document) \<Rightarrow> VerifyFiles \<Rightarrow> string \<Rightarrow> string list
    \<Rightarrow> CoverageExport VResult" where
  "readCoverageExports iterate fs repositoryRoot exportPaths =
     rfold (\<lambda>result exportPath.
       rbind (readJsonFile iterate fs exportPath) (\<lambda>document.
         at_path_if_empty exportPath (appendCoverageExport fs repositoryRoot document result)))
     no_coverage exportPaths"

section \<open>MC/DC of one decision\<close>

definition otherAgrees :: "McdcTestVector \<Rightarrow> McdcTestVector \<Rightarrow> nat \<Rightarrow> nat \<Rightarrow> bool" where
  "otherAgrees kLeft kRight condition other \<longleftrightarrow>
     other = condition \<or>
     tv_conditions kLeft ! other = CondAbsent \<or> tv_conditions kRight ! other = CondAbsent \<or>
     tv_conditions kLeft ! other = tv_conditions kRight ! other"

definition independencePair :: "nat \<Rightarrow> nat \<Rightarrow> McdcTestVector \<Rightarrow> McdcTestVector \<Rightarrow> bool" where
  "independencePair conditionCount condition kLeft kRight =
     (if \<not> tv_executed kLeft \<or> \<not> tv_executed kRight \<or> tv_result kLeft = tv_result kRight then False
      else let kLeftValue = tv_conditions kLeft ! condition; kRightValue = tv_conditions kRight ! condition
      in if kLeftValue = CondAbsent \<or> kRightValue = CondAbsent \<or> kLeftValue = kRightValue then False
         else list_all (otherAgrees kLeft kRight condition) [0..<conditionCount])"

fun pairedLoop :: "(McdcTestVector \<Rightarrow> McdcTestVector \<Rightarrow> bool) \<Rightarrow> McdcTestVector list \<Rightarrow> bool" where
  "pairedLoop pair [] = False"
| "pairedLoop pair (left # rest) = (list_ex (pair left) rest \<or> pairedLoop pair rest)"

definition decisionIsIndependentlyCovered :: "McdcDecision \<Rightarrow> bool" where
  "decisionIsIndependentlyCovered decision =
     (if md_conditionCount decision = 0 then False
      else list_all (\<lambda>condition.
             pairedLoop (independencePair (md_conditionCount decision) condition) (md_vectors decision))
           [0..<md_conditionCount decision])"

section \<open>What the MC/DC judgement means\<close>

definition decision_wf :: "McdcDecision \<Rightarrow> bool" where
  "decision_wf d \<longleftrightarrow> (\<forall>v\<in>set (md_vectors d). length (tv_conditions v) = md_conditionCount d)"

text \<open>
  A recorded vector leaves out the conditions that were not evaluated; an assignment completes
  the vector when it agrees with every condition that was.
\<close>

definition completes :: "(nat \<Rightarrow> bool) \<Rightarrow> McdcTestVector \<Rightarrow> bool" where
  "completes f v \<longleftrightarrow> (\<forall>i<length (tv_conditions v).
     (tv_conditions v ! i = CondTrue \<longrightarrow> f i) \<and> (tv_conditions v ! i = CondFalse \<longrightarrow> \<not> f i))"

definition shows_independence :: "nat \<Rightarrow> nat \<Rightarrow> McdcTestVector \<Rightarrow> McdcTestVector \<Rightarrow> bool" where
  "shows_independence n c u v \<longleftrightarrow>
     tv_executed u \<and> tv_executed v \<and> tv_result u \<noteq> tv_result v \<and>
     tv_conditions u ! c \<noteq> CondAbsent \<and> tv_conditions v ! c \<noteq> CondAbsent \<and>
     (\<exists>f g. completes f u \<and> completes g v \<and> (\<forall>i<n. (f i \<noteq> g i) = (i = c)))"

lemma pairedLoop_symmetric:
  assumes "\<And>u v. pair u v \<Longrightarrow> pair v u" and "\<And>u. \<not> pair u u"
  shows "pairedLoop pair vs \<longleftrightarrow> (\<exists>u\<in>set vs. \<exists>v\<in>set vs. pair u v)"
  by (induction vs) (use assms in \<open>auto simp: list_ex_iff\<close>)

lemma independencePair_sym: "independencePair n c u v \<Longrightarrow> independencePair n c v u"
  by (auto simp: independencePair_def Let_def list_all_iff otherAgrees_def split: if_splits)

lemma independencePair_irrefl: "\<not> independencePair n c u u"
  by (simp add: independencePair_def)

lemma independencePair_completions:
  assumes "length (tv_conditions u) = n" and "length (tv_conditions v) = n" and "c < n"
  shows "independencePair n c u v \<longleftrightarrow> shows_independence n c u v"
proof
  let ?u = "\<lambda>i. tv_conditions u ! i" and ?v = "\<lambda>i. tv_conditions v ! i"
  assume pair: "independencePair n c u v"
  define f where "f i \<longleftrightarrow> (if ?u i = CondAbsent then ?v i = CondTrue else ?u i = CondTrue)" for i
  define g where "g i \<longleftrightarrow> (if ?v i = CondAbsent then ?u i = CondTrue else ?v i = CondTrue)" for i
  have cases: "x = CondTrue \<or> x = CondFalse \<or> x = CondAbsent" for x by (cases x) auto
  have "completes f u" "completes g v"
    by (auto simp: completes_def f_def g_def)
  moreover have "(f i \<noteq> g i) = (i = c)" if "i < n" for i
    using pair that cases [of "?u i"] cases [of "?v i"]
    by (auto simp: independencePair_def Let_def list_all_iff otherAgrees_def f_def g_def split: if_splits)
  ultimately show "shows_independence n c u v"
    using pair by (auto simp: shows_independence_def independencePair_def Let_def split: if_splits)
next
  let ?u = "\<lambda>i. tv_conditions u ! i" and ?v = "\<lambda>i. tv_conditions v ! i"
  assume "shows_independence n c u v"
  then obtain f g where fg: "completes f u" "completes g v" "\<forall>i<n. (f i \<noteq> g i) = (i = c)"
    and rest: "tv_executed u" "tv_executed v" "tv_result u \<noteq> tv_result v"
      "?u c \<noteq> CondAbsent" "?v c \<noteq> CondAbsent"
    by (auto simp: shows_independence_def)
  have agree: "?u i = CondAbsent \<or> ?v i = CondAbsent \<or> ?u i = ?v i \<longleftrightarrow>
      (?u i = CondAbsent \<or> ?v i = CondAbsent \<or> f i = g i)" if "i < n" for i
    using that fg(1,2) assms by (cases "?u i"; cases "?v i") (auto simp: completes_def)
  show "independencePair n c u v"
    using rest agree fg(3) assms(3)
    by (auto simp: independencePair_def Let_def list_all_iff otherAgrees_def)
qed

text \<open>
  C23. A decision counts as covered exactly when it has conditions and each of them has been shown
  to decide the outcome alone: two executed runs with different outcomes that both evaluated the
  condition, and whose unevaluated conditions can be filled in so that the runs differ in that
  condition and in no other.
\<close>

theorem mcdc_judgement_exact:
  assumes "decision_wf d"
  shows "decisionIsIndependentlyCovered d \<longleftrightarrow> 0 < md_conditionCount d \<and>
    (\<forall>c<md_conditionCount d. \<exists>u\<in>set (md_vectors d). \<exists>v\<in>set (md_vectors d).
       shows_independence (md_conditionCount d) c u v)"
proof -
  have "pairedLoop (independencePair (md_conditionCount d) c) (md_vectors d) \<longleftrightarrow>
      (\<exists>u\<in>set (md_vectors d). \<exists>v\<in>set (md_vectors d). shows_independence (md_conditionCount d) c u v)"
    if "c < md_conditionCount d" for c
  proof -
    have "pairedLoop (independencePair (md_conditionCount d) c) (md_vectors d) \<longleftrightarrow>
      (\<exists>u\<in>set (md_vectors d). \<exists>v\<in>set (md_vectors d). independencePair (md_conditionCount d) c u v)"
      by (rule pairedLoop_symmetric) (auto intro: independencePair_sym simp: independencePair_irrefl)
    then show ?thesis
      using assms that independencePair_completions by (auto simp: decision_wf_def)
  qed
  then show ?thesis
    by (auto simp: decisionIsIndependentlyCovered_def list_all_iff)
qed

text \<open>The decision \<open>a && b\<close>, with the second operand skipped when the first is false.\<close>

definition demo_decision :: McdcDecision where
  "demo_decision = \<lparr>md_line = 7, md_column = 5, md_conditionCount = 2, md_vectors =
     [\<lparr>tv_conditions = [CondFalse, CondAbsent], tv_executed = True, tv_result = False\<rparr>,
      \<lparr>tv_conditions = [CondTrue, CondFalse], tv_executed = True, tv_result = False\<rparr>,
      \<lparr>tv_conditions = [CondTrue, CondTrue], tv_executed = True, tv_result = True\<rparr>]\<rparr>"

lemma mcdc_judgement_exact_witness:
  "(\<exists>u\<in>set (md_vectors demo_decision). \<exists>v\<in>set (md_vectors demo_decision). shows_independence 2 0 u v) \<and>
   (\<exists>u\<in>set (md_vectors demo_decision). \<exists>v\<in>set (md_vectors demo_decision). shows_independence 2 1 u v)"
proof -
  have "decision_wf demo_decision" and "decisionIsIndependentlyCovered demo_decision"
    by (simp_all add: decision_wf_def demo_decision_def decisionIsIndependentlyCovered_def
        independencePair_def otherAgrees_def upt_rec)
  with mcdc_judgement_exact [of demo_decision] have "\<forall>c<md_conditionCount demo_decision.
      \<exists>u\<in>set (md_vectors demo_decision). \<exists>v\<in>set (md_vectors demo_decision).
        shows_independence (md_conditionCount demo_decision) c u v"
    by blast
  moreover have "md_conditionCount demo_decision = 2" by (simp add: demo_decision_def)
  ultimately show ?thesis by simp
qed

section \<open>Merging regions\<close>

definition span_of :: "BranchRegion \<Rightarrow> nat \<times> nat \<times> nat \<times> nat" where
  "span_of r = (br_line r, br_column r, br_endLine r, br_endColumn r)"

lemma same_span_iff: "same_span c r \<longleftrightarrow> span_of c = span_of r"
  by (simp add: same_span_def span_of_def)

lemma span_of_update [simp]:
  "span_of (r\<lparr>br_trueCount := t\<rparr>) = span_of r" "span_of (r\<lparr>br_falseCount := f\<rparr>) = span_of r"
  by (simp_all add: span_of_def)

lemma mergeRegion_spans:
  "map span_of (mergeRegion m r) =
     (if span_of r \<in> span_of ` set m then map span_of m else map span_of m @ [span_of r])"
  by (induction m) (auto simp: same_span_iff)

lemma mergeRegion_distinct: "distinct (map span_of m) \<Longrightarrow> distinct (map span_of (mergeRegion m r))"
  by (simp add: mergeRegion_spans)

lemma foldl_mergeRegion_distinct:
  "distinct (map span_of m) \<Longrightarrow> distinct (map span_of (foldl mergeRegion m rs))"
  by (induction rs arbitrary: m) (auto intro: mergeRegion_distinct)

text \<open>One of the two counts of the region at a span.\<close>

definition counts_at :: "(BranchRegion \<Rightarrow> int) \<Rightarrow> BranchRegion list \<Rightarrow> nat \<times> nat \<times> nat \<times> nat \<Rightarrow> int option" where
  "counts_at sel m = map_of (map (\<lambda>b. (span_of b, sel b)) m)"

lemma counts_at_mergeRegion:
  assumes "sel = br_trueCount \<or> sel = br_falseCount"
  shows "counts_at sel (mergeRegion m r) s =
    (if s = span_of r
     then Some (case counts_at sel m s of None \<Rightarrow> sel r | Some x \<Rightarrow> kSaturatingAdd x (sel r))
     else counts_at sel m s)"
  using assms
proof (elim disjE)
  assume sel: "sel = br_trueCount"
  show ?thesis unfolding counts_at_def sel by (induction m) (auto simp: same_span_iff)
next
  assume sel: "sel = br_falseCount"
  show ?thesis unfolding counts_at_def sel by (induction m) (auto simp: same_span_iff)
qed

lemma kSaturatingAdd_min:
  "0 \<le> a \<Longrightarrow> 0 \<le> b \<Longrightarrow> kSaturatingAdd (min int64_max a) b = min int64_max (a + b)"
  by (auto simp: kSaturatingAdd_def min_def)

definition span_total :: "(BranchRegion \<Rightarrow> int) \<Rightarrow> BranchRegion list \<Rightarrow> nat \<times> nat \<times> nat \<times> nat \<Rightarrow> int" where
  "span_total sel rs s = sum_list (map sel (filter (\<lambda>r. span_of r = s) rs))"

lemma span_total_snoc:
  "span_total sel (rs @ [r]) s = span_total sel rs s + (if span_of r = s then sel r else 0)"
  by (simp add: span_total_def)

lemma span_total_nonneg: "\<forall>r\<in>set rs. 0 \<le> sel r \<Longrightarrow> 0 \<le> span_total sel rs s"
  unfolding span_total_def by (rule sum_list_nonneg) auto

lemma counts_at_merged:
  assumes "sel = br_trueCount \<or> sel = br_falseCount"
    and "\<forall>r\<in>set rs. 0 \<le> sel r \<and> sel r \<le> int64_max"
  shows "counts_at sel (foldl mergeRegion [] rs) s =
    (if s \<in> span_of ` set rs then Some (min int64_max (span_total sel rs s)) else None)"
  using assms(2)
proof (induction rs arbitrary: s rule: rev_induct)
  case Nil
  then show ?case by (simp add: counts_at_def)
next
  case (snoc r rs)
  have nonneg: "0 \<le> span_total sel rs s" using snoc.prems by (intro span_total_nonneg) auto
  have new: "span_of r \<notin> span_of ` set rs \<Longrightarrow> span_total sel rs (span_of r) = 0"
  proof -
    assume "span_of r \<notin> span_of ` set rs"
    then have "filter (\<lambda>x. span_of x = span_of r) rs = []"
      unfolding filter_empty_conv by (metis image_eqI)
    then show ?thesis by (simp add: span_total_def)
  qed
  show ?case
    using snoc nonneg new
    by (auto simp: counts_at_mergeRegion [OF assms(1)] span_total_snoc kSaturatingAdd_min)
qed

lemma counts_at_member:
  "distinct (map span_of m) \<Longrightarrow> b \<in> set m \<Longrightarrow> counts_at sel m (span_of b) = Some (sel b)"
  unfolding counts_at_def
  by (rule map_of_is_SomeI) (auto simp: comp_def)

lemma foldl_mergeRegion_spans:
  "span_of ` set (foldl mergeRegion m rs) = span_of ` set m \<union> span_of ` set rs"
proof (induction rs arbitrary: m)
  case (Cons r rs)
  have "span_of ` set (mergeRegion m r) = insert (span_of r) (span_of ` set m)"
    using arg_cong [OF mergeRegion_spans [of m r], of set] by auto
  with Cons show ?case by auto
qed simp

text \<open>
  Reading the branch records of a unit yields one region per source span, in which each
  outcome's count is the sum of the counts of all records at that span, cut off at the 64-bit
  maximum: expansions of one macro are one decision, and no sum wraps around to a negative count.
\<close>

theorem merged_regions_sum_by_span:
  assumes "\<forall>r\<in>set rs. 0 \<le> br_trueCount r \<and> br_trueCount r \<le> int64_max \<and>
    0 \<le> br_falseCount r \<and> br_falseCount r \<le> int64_max"
  shows "let m = foldl mergeRegion [] rs in
    distinct (map span_of m) \<and> span_of ` set m = span_of ` set rs \<and>
    (\<forall>b\<in>set m. br_trueCount b = min int64_max (span_total br_trueCount rs (span_of b)) \<and>
       br_falseCount b = min int64_max (span_total br_falseCount rs (span_of b)))"
proof -
  let ?m = "foldl mergeRegion [] rs"
  have d: "distinct (map span_of ?m)" by (rule foldl_mergeRegion_distinct) simp
  have spans: "span_of ` set ?m = span_of ` set rs" by (simp add: foldl_mergeRegion_spans)
  have "sel b = min int64_max (span_total sel rs (span_of b))"
    if "b \<in> set ?m" and "sel = br_trueCount \<or> sel = br_falseCount" for b sel
  proof -
    have "span_of b \<in> span_of ` set rs" using that(1) spans by blast
    moreover have "\<forall>r\<in>set rs. 0 \<le> sel r \<and> sel r \<le> int64_max" using assms that(2) by auto
    ultimately show ?thesis
      using counts_at_merged [OF that(2), of rs "span_of b"] counts_at_member [OF d that(1), of sel] by simp
  qed
  with d spans show ?thesis by simp
qed

definition demo_region :: "int \<Rightarrow> int \<Rightarrow> BranchRegion" where
  "demo_region t f = \<lparr>br_line = 4, br_column = 9, br_endLine = 4, br_endColumn = 14,
     br_trueCount = t, br_falseCount = f\<rparr>"

lemma merged_regions_sum_by_span_witness:
  "foldl mergeRegion [] [demo_region 0 int64_max, demo_region 2 5] \<noteq> [] \<and>
   br_trueCount (hd (foldl mergeRegion [] [demo_region 0 int64_max, demo_region 2 5])) = 2 \<and>
   br_falseCount (hd (foldl mergeRegion [] [demo_region 0 int64_max, demo_region 2 5])) = int64_max"
  using merged_regions_sum_by_span [of "[demo_region 0 int64_max, demo_region 2 5]"]
  by (simp add: demo_region_def Let_def int64_max_def span_total_def span_of_def same_span_def)

section \<open>What an export that was read looks like\<close>

definition unit_wf :: "CoverageFile \<Rightarrow> bool" where
  "unit_wf f \<longleftrightarrow> distinct (map span_of (cf_branches f)) \<and> (\<forall>d\<in>set (cf_decisions f). decision_wf d) \<and>
     omap_ok (cf_lineCounts f)"

lemma readTestVector_width: "readTestVector v n = Inr t \<Longrightarrow> length (tv_conditions t) = n"
  by (auto simp: readTestVector_def dest: rmap_length split: if_splits option.splits)

lemma readDecision_wf:
  assumes "readDecision path entry = Inr d"
  shows "decision_wf d"
proof -
  from assms obtain kVectors where
    "rmap (\<lambda>v. at_path path (readTestVector v (md_conditionCount d))) kVectors = Inr (md_vectors d)"
    by (auto simp: readDecision_def split: if_splits JsonNode.splits)
  then show ?thesis
    unfolding decision_wf_def by (auto dest!: rmap_in_set readTestVector_width)
qed

lemma readBranches_wf:
  assumes "readBranches file t = Inr t'" and "unit_wf t"
  shows "unit_wf t' \<and> cf_path t' = cf_path t"
proof (cases "findMember file ''branches''")
  case (Some branches)
  with assms(1) have "rfold (\<lambda>t' entry. rbind (at_path (cf_path t) (readBranchRegion entry)) (\<lambda>region.
      Inr (t'\<lparr>cf_branches := mergeRegion (cf_branches t') region\<rparr>))) t (node_elements branches) = Inr t'"
    by (simp add: readBranches_def split: if_splits)
  then show ?thesis
    by (rule rfold_invariant) (use assms(2) in \<open>auto simp: unit_wf_def intro: mergeRegion_distinct\<close>)
qed (use assms in \<open>simp add: readBranches_def\<close>)

lemma readDecisions_wf:
  assumes "readDecisions file t = Inr t'" and "unit_wf t"
  shows "unit_wf t' \<and> cf_path t' = cf_path t"
proof (cases "findMember file ''mcdc_records''")
  case (Some records)
  with assms(1) have "rfold (\<lambda>t' entry. rbind (readDecision (cf_path t) entry) (\<lambda>decision.
      Inr (t'\<lparr>cf_decisions := cf_decisions t' @ [decision]\<rparr>))) t (node_elements records) = Inr t'"
    by (simp add: readDecisions_def split: if_splits)
  then show ?thesis
    by (rule rfold_invariant) (use assms(2) in \<open>auto simp: unit_wf_def dest: readDecision_wf\<close>)
qed (use assms in \<open>simp add: readDecisions_def\<close>)

lemma readSegment_ok: "readSegment path m entry = Inr m' \<Longrightarrow> omap_ok m \<Longrightarrow> omap_ok m'"
  by (auto simp: readSegment_def omap_put_ok omap_ok_emplace
      split: if_splits JsonNode.splits bool.splits option.splits)

lemma readSegments_wf:
  assumes "readSegments file t = Inr t'" and "unit_wf t"
  shows "unit_wf t' \<and> cf_path t' = cf_path t"
proof (cases "findMember file ''segments''")
  case (Some segments)
  with assms(1) obtain m where "rfold (readSegment (cf_path t)) (cf_lineCounts t) (node_elements segments) = Inr m"
    and t': "t' = t\<lparr>cf_lineCounts := m\<rparr>"
    by (auto simp: readSegments_def split: if_splits)
  from this(1) have "omap_ok m"
    by (rule rfold_invariant) (use assms(2) in \<open>auto simp: unit_wf_def intro: readSegment_ok\<close>)
  with t' assms(2) show ?thesis by (simp add: unit_wf_def)
qed (use assms in \<open>simp add: readSegments_def\<close>)

lemma readCoverageFile_wf:
  assumes "readCoverageFile ex file name relative = Inr t"
  shows "unit_wf t \<and> cf_path t = relative"
proof -
  from assms obtain summary t1 t2 t3 where
    t1: "readBranches file ((newCoverageFile relative)\<lparr>cf_summary := summary\<rparr>) = Inr t1" and
    t2: "readDecisions file t1 = Inr t2" and t3: "readSegments file t2 = Inr t3" and
    t: "t = (case map_of ex name of None \<Rightarrow> t3
          | Some kExpanded \<Rightarrow> t3\<lparr>cf_branches := foldl mergeRegion (cf_branches t3) kExpanded\<rparr>)"
    by (auto simp: readCoverageFile_def)
  have "unit_wf ((newCoverageFile relative)\<lparr>cf_summary := summary\<rparr>)"
    by (simp add: unit_wf_def newCoverageFile_def)
  with readBranches_wf [OF t1] readDecisions_wf [OF t2] readSegments_wf [OF t3]
  have "unit_wf t3" and "cf_path t3 = relative" by (simp_all add: newCoverageFile_def)
  then show ?thesis
    using t by (auto simp: unit_wf_def intro: foldl_mergeRegion_distinct split: option.splits)
qed

definition export_wf :: "CoverageExport \<Rightarrow> bool" where
  "export_wf e \<longleftrightarrow> omap_ok (ce_files e) \<and>
     (\<forall>path f. map_of (ce_files e) path = Some f \<longrightarrow>
        isMaintainedSourceUnit path \<and> cf_path f = path \<and> unit_wf f)"

lemma appendFile_wf:
  assumes "appendFile fs root ex e file name = Inr e'" and "export_wf e"
  shows "export_wf e' \<and> (\<forall>path f. map_of (ce_files e) path = Some f \<longrightarrow> map_of (ce_files e') path = Some f)"
proof (cases "repositoryRelative fs root name")
  case (Inr relative)
  show ?thesis
  proof (cases "isMaintainedSourceUnit relative")
    case True
    with assms(1) Inr obtain t where new: "map_of (ce_files e) relative = None"
      and t: "readCoverageFile ex file name relative = Inr t"
      and e': "e' = e\<lparr>ce_files := omap_emplace (cf_path t) t (ce_files e)\<rparr>"
      by (auto simp: appendFile_def split: if_splits)
    with readCoverageFile_wf [OF t] True assms(2) show ?thesis
      by (auto simp: export_wf_def omap_ok_emplace map_of_omap_emplace split: if_splits)
  qed (use assms Inr in \<open>auto simp: appendFile_def export_wf_def\<close>)
qed (use assms in \<open>auto simp: appendFile_def export_wf_def\<close>)

lemma eachFile_invariant:
  assumes "eachFile visit data s = Inr t" and "P s"
    and "\<And>s file name s'. P s \<Longrightarrow> visit s file name = Inr s' \<Longrightarrow> P s'"
  shows "P t"
  using assms(1) unfolding eachFile_def
proof (rule rfold_invariant [where P = P])
  fix entry s s'
  assume "P s" and step: "(case findArray entry ''files'' of
      None \<Rightarrow> verifyReject VfInvalidJson [] ''a coverage export entry has no file list''
    | Some files \<Rightarrow> rfold (\<lambda>s file. case findString file ''filename'' of
        None \<Rightarrow> verifyReject VfInvalidJson [] ''a covered file has no filename''
      | Some name \<Rightarrow> visit s file name) s files) = Inr s'"
  then obtain files where "rfold (\<lambda>s file. case findString file ''filename'' of
      None \<Rightarrow> verifyReject VfInvalidJson [] ''a covered file has no filename''
    | Some name \<Rightarrow> visit s file name) s files = Inr s'"
    by (auto split: option.splits)
  then show "P s'"
    by (rule rfold_invariant [where P = P]) (use \<open>P s\<close> assms(3) in \<open>auto split: option.splits\<close>)
qed (rule assms(2))

text \<open>Appending keeps what is there and adds well-formed units only.\<close>

definition export_extends :: "CoverageExport \<Rightarrow> CoverageExport \<Rightarrow> bool" where
  "export_extends e e' \<longleftrightarrow> export_wf e' \<and>
     (\<forall>path f. map_of (ce_files e) path = Some f \<longrightarrow> map_of (ce_files e') path = Some f)"

lemma appendCoverageExport_extends:
  assumes "appendCoverageExport fs root document e = Inr e'" and "export_wf e"
  shows "export_extends e e'"
proof -
  define e0 where "e0 = (case findString document ''version'' of
      Some version \<Rightarrow> if ce_producerVersion e = [] then e\<lparr>ce_producerVersion := version\<rparr> else e
    | None \<Rightarrow> e)"
  have e0: "ce_files e0 = ce_files e" by (simp add: e0_def split: option.split)
  from assms(1) have "case findArray document ''data'' of
      None \<Rightarrow> verifyReject VfInvalidJson [] ''the coverage export has no data array'' = Inr e'
    | Some data \<Rightarrow> rbind (eachFile (\<lambda>s file name. collectExpansionBranches file name s) data [])
        (\<lambda>ex. eachFile (appendFile fs root ex) data e0) = Inr e'"
    unfolding appendCoverageExport_def Let_def e0_def
    by (cases "findArray document ''data''") (simp_all split: if_splits)
  then obtain data ex where "eachFile (appendFile fs root ex) data e0 = Inr e'"
    by (auto split: option.splits)
  then show ?thesis
  proof (rule eachFile_invariant)
    show "export_extends e e0" using assms(2) e0 by (simp add: export_extends_def export_wf_def)
  next
    fix s node n s'
    assume "export_extends e s" and "appendFile fs root ex s node n = Inr s'"
    then show "export_extends e s'"
      using appendFile_wf [of fs root ex s node n s'] by (simp add: export_extends_def)
  qed
qed

text \<open>
  Whatever exports are read, the result describes maintained source units only, each under
  its own path and once; its branch regions have different spans and every decision's vectors
  have the decision's width, and reading a further export never changes a unit already read.
\<close>

theorem exports_describe_maintained_units_once:
  assumes "readCoverageExports iterate fs root (paths @ further) = Inr e'"
  shows "\<exists>e. readCoverageExports iterate fs root paths = Inr e \<and> export_wf e \<and> export_wf e' \<and>
    (\<forall>path f. map_of (ce_files e) path = Some f \<longrightarrow> map_of (ce_files e') path = Some f)"
proof -
  have step: "export_extends e t" if "rfold (\<lambda>result exportPath.
       rbind (readJsonFile iterate fs exportPath) (\<lambda>document.
         at_path_if_empty exportPath (appendCoverageExport fs root document result))) e ps = Inr t"
    and "export_wf e" for e t ps
    using that(1)
  proof (rule rfold_invariant)
    show "export_extends e e" using that(2) by (simp add: export_extends_def)
  next
    fix exportPath s s'
    assume "export_extends e s" and "rbind (readJsonFile iterate fs exportPath) (\<lambda>document.
         at_path_if_empty exportPath (appendCoverageExport fs root document s)) = Inr s'"
    then show "export_extends e s'"
      using appendCoverageExport_extends [of fs root _ s s'] by (auto simp: export_extends_def)
  qed
  have start: "export_wf no_coverage" by (simp add: export_wf_def no_coverage_def)
  from assms show ?thesis
    unfolding readCoverageExports_def rfold_append
    using step [OF _ start] step by (auto simp: export_extends_def)
qed

text \<open>An export over one header with one branch record.\<close>

definition demo_export :: sj_value where
  "demo_export =
    (let counts = SjObject [SjField ''count'' (SjNumber ''2''), SjField ''covered'' (SjNumber ''1'')];
         region = SjArray (map (\<lambda>n. SjElement (SjNumber n))
           [''4'', ''9'', ''4'', ''14'', ''3'', ''2'', ''0'', ''0'', ''4''])
     in SjObject [SjField ''type'' (SjString ''llvm.coverage.json.export''),
       SjField ''data'' (SjArray [SjElement (SjObject [SjField ''files'' (SjArray [SjElement (SjObject
         [SjField ''filename'' (SjString ''/r/tools/x/src/a.h''),
          SjField ''summary'' (SjObject [SjField ''lines'' counts, SjField ''branches'' counts,
            SjField ''regions'' counts]),
          SjField ''branches'' (SjArray [SjElement region])])])])])])"

definition demo_unit :: CoverageFile where
  "demo_unit = (newCoverageFile ''tools/x/src/a.h'')
     \<lparr>cf_summary := (let c = \<lparr>cc_count = 2, cc_covered = 1\<rparr>
        in \<lparr>cs_lines = c, cs_branches = c, cs_regions = c, cs_mcdc = no_counts\<rparr>),
      cf_branches := [demo_region 3 2]\<rparr>"

lemmas json_eval = findMember_def findString_def findArray_def findBoolean_def readInteger_def
  readIntegerAt_def readLineNumber_def trimNumberToken_def number_end_def from_chars_i64_def
  all_digits_def is_digit_def digits_value_def digit_value_def int64_max_def int64_min_def
  kMaximumJsonDepth_def kMaximumJsonNodes_def kMaximumJsonBytes_def

definition demo_document :: JsonNode where
  "demo_document =
    (let counts = JObject [(''count'', JNumber ''2''), (''covered'', JNumber ''1'')]
     in JObject [(''type'', JString ''llvm.coverage.json.export''),
       (''data'', JArray [JObject [(''files'', JArray [JObject
         [(''filename'', JString ''/r/tools/x/src/a.h''),
          (''summary'', JObject [(''lines'', counts), (''branches'', counts), (''regions'', counts)]),
          (''branches'', JArray [JArray (map JNumber
            [''4'', ''9'', ''4'', ''14'', ''3'', ''2'', ''0'', ''0'', ''4''])])]])]])])"

lemma demo_export_parsed: "parseJson (\<lambda>_. SjDocument demo_export True) [] = Inr demo_document"
  by (simp add: parseJson_def demo_export_def demo_document_def Let_def json_eval)

lemma demo_file_read:
  "readCoverageFile [] (JObject
     [(''filename'', JString ''/r/tools/x/src/a.h''),
      (''summary'', JObject [(''lines'', JObject [(''count'', JNumber ''2''), (''covered'', JNumber ''1'')]),
         (''branches'', JObject [(''count'', JNumber ''2''), (''covered'', JNumber ''1'')]),
         (''regions'', JObject [(''count'', JNumber ''2''), (''covered'', JNumber ''1'')])]),
      (''branches'', JArray [JArray (map JNumber
        [''4'', ''9'', ''4'', ''14'', ''3'', ''2'', ''0'', ''0'', ''4''])])])
     ''/r/tools/x/src/a.h'' ''tools/x/src/a.h'' = Inr demo_unit"
  by (simp add: readCoverageFile_def readSummary_def readCounts_def json_eval readBranches_def
      readBranchRegion_def kBranchFieldCount_def readDecisions_def readSegments_def demo_unit_def
      newCoverageFile_def demo_region_def Let_def verifyReject_def)

lemma demo_relative: "repositoryRelative demo_files ''/r'' ''/r/tools/x/src/a.h'' = Inr ''tools/x/src/a.h''"
  by (simp add: repositoryRelative_def canonicalize_def absoluteAgainst_def is_absolute_path_def
      demo_files_def withTrailingSeparator_def normalizeSeparators_def sameLexicalPrefix_def Let_def)

lemma demo_maintained: "isMaintainedSourceUnit ''tools/x/src/a.h''"
  by (simp add: isMaintainedSourceUnit_def ends_with_def starts_with_def contains_str_def)

lemma demo_exports_read:
  "readCoverageExports (\<lambda>_. SjDocument demo_export True) demo_files ''/r'' [''e.json'']
     = Inr \<lparr>ce_producerVersion = [], ce_files = [(''tools/x/src/a.h'', demo_unit)], ce_droppedForeignFiles = 0\<rparr>"
proof -
  have "readJsonFile (\<lambda>_. SjDocument demo_export True) demo_files ''e.json'' = Inr demo_document"
    by (simp add: readJsonFile_def readFileBytes_def demo_files_def kMaximumJsonBytes_def
        demo_export_parsed)
  moreover have "cf_path demo_unit = ''tools/x/src/a.h''"
    by (simp add: demo_unit_def newCoverageFile_def)
  ultimately show ?thesis
    using demo_file_read
    by (simp add: readCoverageExports_def appendCoverageExport_def demo_document_def Let_def json_eval
        eachFile_def collectExpansionBranches_def appendFile_def demo_relative demo_maintained
        no_coverage_def omap_emplace_def)
qed

lemma exports_describe_maintained_units_once_witness:
  "\<exists>e. readCoverageExports (\<lambda>_. SjDocument demo_export True) demo_files ''/r'' [''e.json''] = Inr e \<and>
     export_wf e \<and> map_of (ce_files e) ''tools/x/src/a.h'' = Some demo_unit"
  using exports_describe_maintained_units_once
    [of "\<lambda>_. SjDocument demo_export True" demo_files "''/r''" "[''e.json'']" "[]"] demo_exports_read
  by simp

end
