(* ===== verification/Verify_Diff.thy ===== *)
theory Verify_Diff
  imports Verify_Paths
begin

text \<open>
  \<open>tools/rf_verify/src/diff_reader.{h,cpp}\<close>: the reader of unified diffs, whose changed-line
  set is the denominator of every coverage floor.  The reader is a loop over the lines of the
  text with three pieces of state; \<open>diff_step\<close> is one iteration.  Line numbers are 32-bit.
\<close>

section \<open>The reader\<close>

type_synonym ChangedLines = "(string, nat list) omap"

definition stripDiffPrefix :: "string \<Rightarrow> string" where
  "stripDiffPrefix path =
     (if starts_with path ''b/'' then drop 2 path
      else if starts_with path ''a/'' then drop 2 path
      else path)"

definition trimTrailing :: "string \<Rightarrow> string" where
  "trimTrailing line = rev (dropWhile (\<lambda>c. c = CHR 0x0D \<or> c = CHR 0x0A) (rev line))"

definition untilTab :: "string \<Rightarrow> string" where
  "untilTab s = (case index_of (CHR 0x09) s of Some kTab \<Rightarrow> take kTab s | None \<Rightarrow> s)"

definition parseUnsigned :: "string \<Rightarrow> nat VResult" where
  "parseUnsigned s =
     (case from_chars_u32 s of
        None \<Rightarrow> verifyReject VfMalformedDiff [] ''a hunk header carries a line number that is not a number''
      | Some n \<Rightarrow> Inr n)"

definition parseHunkStart :: "string \<Rightarrow> nat VResult" where
  "parseHunkStart line =
     (case index_of_str '' +'' line of
        None \<Rightarrow> verifyReject VfMalformedDiff [] (''a hunk header is not in unified form: '' @ line)
      | Some kPlus \<Rightarrow>
          if \<not> starts_with line ''@@ -''
          then verifyReject VfMalformedDiff [] (''a hunk header is not in unified form: '' @ line)
          else let rest = drop (kPlus + 2) line
          in case index_of (CHR '' '') rest of
               None \<Rightarrow> verifyReject VfMalformedDiff [] (''a hunk header has no closing marker: '' @ line)
             | Some kEnd \<Rightarrow>
                 let span = take kEnd rest
                 in parseUnsigned (case index_of (CHR '','') span of
                      Some kComma \<Rightarrow> take kComma span | None \<Rightarrow> span))"

record DiffState =
  ds_changed :: ChangedLines
  ds_currentFile :: string
  ds_nextLine :: nat
  ds_inHunk :: bool

definition next_line :: "nat \<Rightarrow> nat" where
  "next_line n = (n + 1) mod 2 ^ 32"

definition recordAdded :: "DiffState \<Rightarrow> DiffState VResult" where
  "recordAdded st =
     (let changed = ds_changed st; currentFile = ds_currentFile st in
      if kMaximumDiffFiles \<le> length changed \<and> map_of changed currentFile = None
      then verifyReject VfLimitExceeded [] ''the diff exceeds the changed-file limit''
      else let known = omap_at [] changed currentFile
      in if kMaximumChangedLinesPerFile \<le> length known
         then verifyReject VfLimitExceeded currentFile ''the diff exceeds the changed-line limit''
         else Inr (st\<lparr>ds_changed := omap_put currentFile (insort_insert (ds_nextLine st) known) changed,
                      ds_nextLine := next_line (ds_nextLine st)\<rparr>))"

definition diff_step :: "DiffState \<Rightarrow> string \<Rightarrow> DiffState VResult" where
  "diff_step st kLine =
     (if starts_with kLine ''+++ ''
      then let kPath = untilTab (drop 4 kLine)
        in Inr (st\<lparr>ds_currentFile :=
                     (if kPath = ''/dev/null'' then [] else normalizeSeparators (stripDiffPrefix kPath)),
                   ds_inHunk := False\<rparr>)
      else if starts_with kLine ''--- '' \<or> starts_with kLine ''diff '' \<or> starts_with kLine ''index ''
      then Inr (st\<lparr>ds_inHunk := False\<rparr>)
      else if starts_with kLine ''@@''
      then rbind (parseHunkStart kLine) (\<lambda>start. Inr (st\<lparr>ds_nextLine := start, ds_inHunk := True\<rparr>))
      else if \<not> ds_inHunk st \<or> ds_currentFile st = [] then Inr st
      else if starts_with kLine ''+'' then recordAdded st
      else if starts_with kLine ''-'' \<or> starts_with kLine [CHR 0x5C] then Inr st
      else if starts_with kLine '' '' \<or> kLine = []
      then Inr (st\<lparr>ds_nextLine := next_line (ds_nextLine st)\<rparr>)
      else Inr (st\<lparr>ds_inHunk := False\<rparr>))"

definition diff_start :: DiffState where
  "diff_start = \<lparr>ds_changed = [], ds_currentFile = [], ds_nextLine = 0, ds_inHunk = False\<rparr>"

definition parseUnifiedDiff :: "string \<Rightarrow> ChangedLines VResult" where
  "parseUnifiedDiff bytes =
     (if kMaximumDiffBytes < length bytes
      then verifyReject VfLimitExceeded [] ''the diff exceeds the byte limit''
      else rbind (rfold diff_step diff_start (map trimTrailing (pieces_from (CHR 0x0A) bytes 0)))
        (\<lambda>st. Inr (ds_changed st)))"

definition readUnifiedDiff :: "VerifyFiles \<Rightarrow> string \<Rightarrow> ChangedLines VResult" where
  "readUnifiedDiff fs diffPath =
     (if \<not> fs_exists fs diffPath
      then verifyReject VfMissingInput diffPath ''the diff file does not exist''
      else if \<not> fs_regular fs diffPath
      then verifyReject VfIoFailure diffPath ''the diff path is not a readable file''
      else case fs_stream fs diffPath of
        None \<Rightarrow> verifyReject VfIoFailure diffPath ''the diff file cannot be read''
      | Some bytes \<Rightarrow> at_path_if_empty diffPath (parseUnifiedDiff bytes))"

section \<open>What a diff means\<close>

text \<open>
  A change as its author sees it: per file, hunks that start at a line of the new file and
  keep, add and remove lines.  \<open>render\<close> writes it as a unified diff; \<open>added_lines\<close> is the set
  of positions of the added lines in the new file, which the reader promises to report.
\<close>

datatype DiffLine = Kept string | Added string | Removed string | NoNewlineMark string

record Hunk =
  hk_old :: string            \<comment> \<open>the old range as written\<close>
  hk_start :: nat
  hk_count :: "string option" \<comment> \<open>the new count as written, if any\<close>
  hk_heading :: string        \<comment> \<open>whatever follows the new range, after a blank\<close>
  hk_lines :: "DiffLine list"

record FilePatch =
  fp_preamble :: "string list"
  fp_path :: string
  fp_hunks :: "Hunk list"

fun render_line :: "DiffLine \<Rightarrow> string" where
  "render_line (Kept s) = CHR '' '' # s"
| "render_line (Added s) = CHR ''+'' # s"
| "render_line (Removed s) = CHR ''-'' # s"
| "render_line (NoNewlineMark s) = CHR 0x5C # s"

definition render_header :: "Hunk \<Rightarrow> string" where
  "render_header h =
     ''@@ -'' @ hk_old h @ '' +'' @ nat_to_string (hk_start h) @
     (case hk_count h of None \<Rightarrow> [] | Some n \<Rightarrow> CHR '','' # n) @ '' '' @ hk_heading h"

definition render_hunk :: "Hunk \<Rightarrow> string list" where
  "render_hunk h = render_header h # map render_line (hk_lines h)"

definition render_file :: "FilePatch \<Rightarrow> string list" where
  "render_file f = fp_preamble f @ (''+++ b/'' @ fp_path f) # concat (map render_hunk (fp_hunks f))"

fun join_lines :: "string list \<Rightarrow> string" where
  "join_lines [] = []"
| "join_lines (l # ls) = l @ CHR 0x0A # join_lines ls"

definition render :: "FilePatch list \<Rightarrow> string" where
  "render fs = join_lines (concat (map render_file fs))"

fun added_from :: "nat \<Rightarrow> DiffLine list \<Rightarrow> nat set" where
  "added_from n [] = {}"
| "added_from n (Kept s # ls) = added_from (n + 1) ls"
| "added_from n (Added s # ls) = insert n (added_from (n + 1) ls)"
| "added_from n (Removed s # ls) = added_from n ls"
| "added_from n (NoNewlineMark s # ls) = added_from n ls"

definition file_added :: "FilePatch \<Rightarrow> nat set" where
  "file_added f = (\<Union>h\<in>set (fp_hunks f). added_from (hk_start h) (hk_lines h))"

definition added_lines :: "FilePatch list \<Rightarrow> string \<Rightarrow> nat set" where
  "added_lines fs path = (\<Union>f\<in>{f \<in> set fs. fp_path f = path}. file_added f)"

text \<open>
  The texts the format can carry: one line each, no carriage return at the end, and the two
  forms the reader confuses with headers excluded (see the theorem at the end).
\<close>

definition plain_line :: "string \<Rightarrow> bool" where
  "plain_line s \<longleftrightarrow> CHR 0x0A \<notin> set s \<and> (s = [] \<or> last s \<noteq> CHR 0x0D)"

fun line_ok :: "DiffLine \<Rightarrow> bool" where
  "line_ok (Kept s) = plain_line s"
| "line_ok (Added s) = (plain_line s \<and> \<not> starts_with s ''++ '')"
| "line_ok (Removed s) = (plain_line s \<and> \<not> starts_with s ''-- '')"
| "line_ok (NoNewlineMark s) = plain_line s"

definition header_ok :: "Hunk \<Rightarrow> bool" where
  "header_ok h \<longleftrightarrow> plain_line (hk_heading h) \<and> CHR 0x0A \<notin> set (hk_old h) \<and> CHR '' '' \<notin> set (hk_old h) \<and>
     (case hk_count h of None \<Rightarrow> True | Some n \<Rightarrow> CHR '' '' \<notin> set n \<and> CHR 0x0A \<notin> set n) \<and>
     hk_start h + length (hk_lines h) < 2 ^ 32"

definition file_ok :: "FilePatch \<Rightarrow> bool" where
  "file_ok f \<longleftrightarrow>
     fp_path f \<noteq> [] \<and> plain_line (fp_path f) \<and> CHR 0x09 \<notin> set (fp_path f) \<and> CHR 0x5C \<notin> set (fp_path f) \<and>
     (\<forall>l\<in>set (fp_preamble f). plain_line l \<and>
        (starts_with l ''diff '' \<or> starts_with l ''index '' \<or> starts_with l ''--- '')) \<and>
     (\<forall>h\<in>set (fp_hunks f). header_ok h \<and> list_all line_ok (hk_lines h))"

definition count_added :: "DiffLine list \<Rightarrow> nat" where
  "count_added ls = length (filter (\<lambda>l. case l of Added _ \<Rightarrow> True | _ \<Rightarrow> False) ls)"

definition patch_size :: "FilePatch list \<Rightarrow> nat" where
  "patch_size fs = sum_list (map (\<lambda>f. sum_list (map (\<lambda>h. count_added (hk_lines h)) (fp_hunks f))) fs)"

section \<open>The lines of a rendered diff\<close>

lemma split_join_lines:
  "\<forall>l\<in>set ls. CHR 0x0A \<notin> set l \<Longrightarrow> split_at_char (CHR 0x0A) (join_lines ls) = ls @ [[]]"
  by (induction ls) (auto simp: split_at_char_append)

lemma trimTrailing_plain: "plain_line l \<Longrightarrow> trimTrailing l = l"
  by (cases l rule: rev_cases) (auto simp: plain_line_def trimTrailing_def)

lemma plain_line_Cons:
  "plain_line s \<Longrightarrow> c \<noteq> CHR 0x0A \<Longrightarrow> c \<noteq> CHR 0x0D \<Longrightarrow> plain_line (c # s)"
  by (auto simp: plain_line_def)

lemma plain_line_append:
  "plain_line s \<Longrightarrow> CHR 0x0A \<notin> set p \<Longrightarrow> (p = [] \<or> last p \<noteq> CHR 0x0D) \<Longrightarrow> plain_line (p @ s)"
  by (auto simp: plain_line_def last_append split: if_splits)

lemma nat_to_string_no_newline [simp]: "CHR 0x0A \<notin> set (nat_to_string n)"
  using nat_to_string_digits [of n] by (auto simp: is_digit_def)

lemma nat_to_string_clean:
  "CHR '' '' \<notin> set (nat_to_string n)" "CHR '','' \<notin> set (nat_to_string n)"
  using nat_to_string_digits [of n] by (auto simp: is_digit_def)

lemma plain_render_line: "line_ok l \<Longrightarrow> plain_line (render_line l)"
  by (cases l) (auto intro: plain_line_Cons)

lemma plain_render_header:
  assumes "header_ok h"
  shows "plain_line (render_header h)"
proof -
  have "plain_line (('' @@ -'' @ hk_old h @ '' +'' @ nat_to_string (hk_start h) @
     (case hk_count h of None \<Rightarrow> [] | Some n \<Rightarrow> CHR '','' # n) @ '' '') @ hk_heading h)"
    using assms by (intro plain_line_append) (auto simp: header_ok_def split: option.splits)
  then show ?thesis
    unfolding render_header_def by (auto simp: plain_line_def)
qed

lemma plain_render_file:
  assumes "file_ok f" and "l \<in> set (render_file f)"
  shows "plain_line l"
  using assms
  by (auto simp: render_file_def render_hunk_def file_ok_def list_all_iff
      intro: plain_render_line plain_render_header plain_line_append intro!: plain_line_Cons)

lemma diff_lines_render:
  assumes "\<forall>f\<in>set fs. file_ok f"
  shows "map trimTrailing (pieces_from (CHR 0x0A) (render fs) 0) = concat (map render_file fs) @ [[]]"
proof -
  let ?ls = "concat (map render_file fs)"
  have plain: "plain_line l" if "l \<in> set ?ls" for l
    using that assms by (auto intro: plain_render_file)
  then have "pieces_from (CHR 0x0A) (render fs) 0 = ?ls @ [[]]"
    unfolding pieces_from_start render_def by (intro split_join_lines) (auto simp: plain_line_def)
  moreover have "map trimTrailing ?ls = ?ls"
    using plain trimTrailing_plain by (intro map_idI) blast
  ultimately show ?thesis by (simp add: trimTrailing_def)
qed

section \<open>One line at a time\<close>

text \<open>The change set the reader has collected, as a set of line numbers per file.\<close>

definition with_lines :: "(string \<Rightarrow> nat set) \<Rightarrow> string \<Rightarrow> nat set \<Rightarrow> string \<Rightarrow> nat set" where
  "with_lines M p A = M(p := M p \<union> A)"

lemma with_lines_simps [simp]:
  "with_lines M p A p = M p \<union> A" "with_lines (with_lines M p A) p B = with_lines M p (A \<union> B)" "with_lines M p {} = M"
  "{q. with_lines M p A q \<noteq> {}} - {p} = {q. M q \<noteq> {}} - {p}"
  by (auto simp: with_lines_def fun_eq_iff)

lemma recordAdded_represents:
  assumes r: "represents (ds_changed st) M" and "ds_currentFile st = p"
    and "card (M p) < kMaximumChangedLinesPerFile"
    and "card ({q. M q \<noteq> {}} - {p}) < kMaximumDiffFiles"
  obtains changed where
    "recordAdded st = Inr (st\<lparr>ds_changed := changed, ds_nextLine := next_line (ds_nextLine st)\<rparr>)"
    and "represents changed (with_lines M p {ds_nextLine st})"
proof -
  let ?c = "ds_changed st" and ?n = "ds_nextLine st"
  have known: "omap_at [] ?c p = sorted_list_of_set (M p)"
    using r by (rule represents_at)
  have files: "length ?c < kMaximumDiffFiles" if "map_of ?c p = None"
  proof -
    have "M p = {}" using that r by (auto simp: represents_def split: if_splits)
    then have "{q. M q \<noteq> {}} - {p} = {q. M q \<noteq> {}}" by auto
    with assms(4) represents_length [OF r] show ?thesis by simp
  qed
  let ?c' = "omap_put p (insort_insert ?n (sorted_list_of_set (M p))) ?c"
  have "represents ?c' (with_lines M p {?n})"
    using represents_insert [OF r, of p ?n] by (simp add: omap_insert_def known with_lines_def)
  moreover have "recordAdded st = Inr (st\<lparr>ds_changed := ?c', ds_nextLine := next_line ?n\<rparr>)"
    using assms(2,3) files known by (auto simp: recordAdded_def Let_def not_le)
  ultimately show ?thesis by (rule that [rotated])
qed

lemma next_line_small: "n + 1 < 2 ^ 32 \<Longrightarrow> next_line n = n + 1"
  by (simp add: next_line_def)

lemmas diff_step_simps = diff_step_def recordAdded_def starts_with_Cons

lemma diff_step_kept:
  "ds_inHunk st \<Longrightarrow> ds_currentFile st \<noteq> [] \<Longrightarrow>
   diff_step st (render_line (Kept s)) = Inr (st\<lparr>ds_nextLine := next_line (ds_nextLine st)\<rparr>)"
  by (simp add: diff_step_def)

lemma diff_step_added:
  "ds_inHunk st \<Longrightarrow> ds_currentFile st \<noteq> [] \<Longrightarrow> \<not> starts_with s ''++ '' \<Longrightarrow>
   diff_step st (render_line (Added s)) = recordAdded st"
  by (simp add: diff_step_def)

lemma diff_step_removed:
  "ds_inHunk st \<Longrightarrow> ds_currentFile st \<noteq> [] \<Longrightarrow> \<not> starts_with s ''-- '' \<Longrightarrow>
   diff_step st (render_line (Removed s)) = Inr st"
  by (simp add: diff_step_def)

lemma diff_step_mark:
  "ds_inHunk st \<Longrightarrow> ds_currentFile st \<noteq> [] \<Longrightarrow> diff_step st (render_line (NoNewlineMark s)) = Inr st"
  by (simp add: diff_step_def)

lemma count_added_simps [simp]:
  "count_added [] = 0" "count_added (Kept s # ls) = count_added ls"
  "count_added (Added s # ls) = Suc (count_added ls)" "count_added (Removed s # ls) = count_added ls"
  "count_added (NoNewlineMark s # ls) = count_added ls"
  by (simp_all add: count_added_def)

lemma added_from_finite [simp]: "finite (added_from n ls)"
  by (induction n ls rule: added_from.induct) auto

lemma card_added_from: "card (added_from n ls) \<le> count_added ls"
  by (induction n ls rule: added_from.induct) (auto simp: card_insert_if intro: le_SucI)

lemma card_union_added:
  "finite A \<Longrightarrow> card (A \<union> added_from n ls) \<le> card A + count_added ls"
  using card_Un_le [of A "added_from n ls"] card_added_from [of n ls] by linarith

lemma diff_body:
  assumes "represents (ds_changed st) M" and "ds_currentFile st = p" and "p \<noteq> []" and "ds_inHunk st"
    and "ds_nextLine st + length ls < 2 ^ 32" and "list_all line_ok ls"
    and "card (M p) + count_added ls \<le> kMaximumChangedLinesPerFile"
    and "card ({q. M q \<noteq> {}} - {p}) < kMaximumDiffFiles"
  shows "\<exists>st'. rfold diff_step st (map render_line ls) = Inr st' \<and> ds_currentFile st' = p \<and>
    represents (ds_changed st') (with_lines M p (added_from (ds_nextLine st) ls))"
  using assms
proof (induction ls arbitrary: st M)
  case Nil
  then show ?case by simp
next
  case (Cons l ls)
  have fin: "finite (M p)" using Cons.prems(1) by (simp add: represents_def)
  have next_eq: "next_line (ds_nextLine st) = ds_nextLine st + 1"
    using Cons.prems(5) by (intro next_line_small) simp
  show ?case
  proof (cases l)
    case (Kept s)
    let ?st = "st\<lparr>ds_nextLine := next_line (ds_nextLine st)\<rparr>"
    from Cons.IH [of ?st M] Cons.prems Kept next_eq diff_step_kept [of st s] show ?thesis by auto
  next
    case (Added s)
    obtain changed where step: "recordAdded st
        = Inr (st\<lparr>ds_changed := changed, ds_nextLine := next_line (ds_nextLine st)\<rparr>)"
      and rep: "represents changed (with_lines M p {ds_nextLine st})"
      by (rule recordAdded_represents [of st M p]) (use Cons.prems Added in auto)
    let ?st = "st\<lparr>ds_changed := changed, ds_nextLine := next_line (ds_nextLine st)\<rparr>"
    let ?M = "with_lines M p {ds_nextLine st}"
    have "card (?M p) + count_added ls \<le> kMaximumChangedLinesPerFile"
      using Cons.prems(7) fin Added by (auto simp: card_insert_if)
    then have "\<exists>st'. rfold diff_step ?st (map render_line ls) = Inr st' \<and> ds_currentFile st' = p \<and>
        represents (ds_changed st') (with_lines ?M p (added_from (ds_nextLine ?st) ls))"
      by (intro Cons.IH) (use rep Cons.prems Added next_eq in simp_all)
    moreover have "diff_step st (render_line l) = Inr ?st"
      using diff_step_added [of st s] step Cons.prems Added by simp
    ultimately show ?thesis using Added next_eq by simp
  next
    case (Removed s)
    with Cons.IH [of st M] Cons.prems diff_step_removed [of st s] show ?thesis by auto
  next
    case (NoNewlineMark s)
    with Cons.IH [of st M] Cons.prems diff_step_mark [of st s] show ?thesis by auto
  qed
qed

section \<open>Hunks, files and the whole text\<close>

lemma index_of_str_skip:
  "c \<notin> set u \<Longrightarrow> index_of_str (c # p) (u @ c # p @ t) = Some (length u)"
  by (induction u) auto

lemma drop_exact: "n = length u \<Longrightarrow> drop n (u @ v) = v"
  by simp

lemma parseHunkStart_header:
  assumes "header_ok h"
  shows "parseHunkStart (render_header h) = Inr (hk_start h)"
proof -
  define rest where "rest = (nat_to_string (hk_start h) @
      (case hk_count h of None \<Rightarrow> [] | Some n \<Rightarrow> CHR '','' # n)) @ CHR '' '' # hk_heading h"
  have line: "render_header h = ''@@ -'' @ hk_old h @ '' +'' @ rest"
    by (simp add: render_header_def rest_def)
  have "index_of_str '' +'' (hk_old h @ '' +'' @ rest) = Some (length (hk_old h))"
    using assms index_of_str_skip [of "CHR '' ''" "hk_old h" "''+''" rest] by (simp add: header_ok_def)
  then have plus: "index_of_str '' +'' (render_header h) = Some (length (hk_old h) + 4)"
    unfolding line by simp
  have rest: "drop (length (hk_old h) + 6) (render_header h) = rest"
  proof -
    have "length (hk_old h) + 6 = length (''@@ -'' @ hk_old h @ '' +'')" by simp
    then have "drop (length (hk_old h) + 6) ((''@@ -'' @ hk_old h @ '' +'') @ rest) = rest"
      by (rule drop_exact)
    then show ?thesis unfolding line by (simp only: append_assoc)
  qed
  have blank: "index_of (CHR '' '') rest = Some (length (nat_to_string (hk_start h) @
      (case hk_count h of None \<Rightarrow> [] | Some n \<Rightarrow> CHR '','' # n)))"
    unfolding rest_def by (rule index_of_append_new)
      (use assms in \<open>auto simp: header_ok_def nat_to_string_clean split: option.splits\<close>)
  have number: "parseUnsigned (nat_to_string (hk_start h)) = Inr (hk_start h)"
    using assms by (simp add: parseUnsigned_def header_ok_def from_chars_u32_to_string)
  have comma: "index_of (CHR '','') (nat_to_string (hk_start h) @ CHR '','' # n)
      = Some (length (nat_to_string (hk_start h)))" for n
    by (rule index_of_append_new) (rule nat_to_string_clean)
  have none: "index_of (CHR '','') (nat_to_string (hk_start h)) = None"
    by (simp add: index_of_None_iff nat_to_string_clean)
  have "starts_with (render_header h) ''@@ -''"
    unfolding line by (rule starts_with_append)
  then show ?thesis
    using blank number comma none
    by (simp add: parseHunkStart_def plus rest Let_def add.commute)
      (auto simp: rest_def split: option.splits)
qed

lemma diff_step_header:
  assumes "header_ok h"
  shows "diff_step st (render_header h) = Inr (st\<lparr>ds_nextLine := hk_start h, ds_inHunk := True\<rparr>)"
  using parseHunkStart_header [OF assms]
  by (simp add: diff_step_def) (simp add: render_header_def)

lemma diff_hunks:
  assumes "represents (ds_changed st) M" and "ds_currentFile st = p" and "p \<noteq> []"
    and "\<forall>h\<in>set hs. header_ok h \<and> list_all line_ok (hk_lines h)"
    and "card (M p) + sum_list (map (\<lambda>h. count_added (hk_lines h)) hs) \<le> kMaximumChangedLinesPerFile"
    and "card ({q. M q \<noteq> {}} - {p}) < kMaximumDiffFiles"
  shows "\<exists>st'. rfold diff_step st (concat (map render_hunk hs)) = Inr st' \<and> ds_currentFile st' = p \<and>
    represents (ds_changed st') (with_lines M p (\<Union>h\<in>set hs. added_from (hk_start h) (hk_lines h)))"
  using assms
proof (induction hs arbitrary: st M)
  case Nil
  then show ?case by simp
next
  case (Cons h hs)
  let ?A = "added_from (hk_start h) (hk_lines h)"
  let ?st = "st\<lparr>ds_nextLine := hk_start h, ds_inHunk := True\<rparr>"
  have "\<exists>st1. rfold diff_step ?st (map render_line (hk_lines h)) = Inr st1 \<and> ds_currentFile st1 = p \<and>
      represents (ds_changed st1) (with_lines M p (added_from (ds_nextLine ?st) (hk_lines h)))"
    by (rule diff_body) (use Cons.prems in \<open>auto simp: header_ok_def\<close>)
  then obtain st1 where st1: "rfold diff_step ?st (map render_line (hk_lines h)) = Inr st1"
      "ds_currentFile st1 = p" and rep: "represents (ds_changed st1) (with_lines M p ?A)"
    by auto
  have "finite (M p)" using Cons.prems(1) by (simp add: represents_def)
  then have card: "card (M p \<union> ?A) \<le> card (M p) + count_added (hk_lines h)" by (rule card_union_added)
  have "\<exists>st'. rfold diff_step st1 (concat (map render_hunk hs)) = Inr st' \<and> ds_currentFile st' = p \<and>
      represents (ds_changed st') (with_lines (with_lines M p ?A) p
        (\<Union>h\<in>set hs. added_from (hk_start h) (hk_lines h)))"
    by (rule Cons.IH [OF rep st1(2)]) (use Cons.prems card in auto)
  then show ?case
    using st1(1) Cons.prems(4)
    by (simp add: render_hunk_def [of h] diff_step_header rfold_append)
qed

lemma untilTab_clean: "CHR 0x09 \<notin> set s \<Longrightarrow> untilTab s = s"
  using index_of_None_iff [of "CHR 0x09" s] by (simp add: untilTab_def)

lemma diff_step_file:
  assumes "file_ok f"
  shows "\<exists>st'. diff_step st (''+++ b/'' @ fp_path f) = Inr st' \<and> ds_currentFile st' = fp_path f \<and>
    ds_changed st' = ds_changed st"
proof -
  have norm: "normalizeSeparators (fp_path f) = fp_path f"
    using assms unfolding normalizeSeparators_def file_ok_def by (intro map_idI) auto
  have "untilTab (''b/'' @ fp_path f) = ''b/'' @ fp_path f"
    using assms by (intro untilTab_clean) (simp add: file_ok_def)
  with norm show ?thesis
    by (simp add: diff_step_def stripDiffPrefix_def)
qed

lemma diff_preamble:
  assumes "\<forall>l\<in>set ls. starts_with l ''diff '' \<or> starts_with l ''index '' \<or> starts_with l ''--- ''"
  shows "\<exists>st'. rfold diff_step st ls = Inr st' \<and> ds_changed st' = ds_changed st"
  using assms
proof (induction ls arbitrary: st)
  case (Cons l ls)
  have "\<not> starts_with l ''+++ ''"
    using Cons.prems by (cases l) (auto simp: starts_with_def)
  then have "diff_step st l = Inr (st\<lparr>ds_inHunk := False\<rparr>)"
    using Cons.prems by (auto simp: diff_step_def)
  with Cons.IH [of "st\<lparr>ds_inHunk := False\<rparr>"] Cons.prems show ?case by simp
qed simp

lemma diff_file:
  assumes "represents (ds_changed st) M" and f: "file_ok f"
    and "card (M (fp_path f)) + patch_size [f] \<le> kMaximumChangedLinesPerFile"
    and "card ({q. M q \<noteq> {}} - {fp_path f}) < kMaximumDiffFiles"
  shows "\<exists>st'. rfold diff_step st (render_file f) = Inr st' \<and>
    represents (ds_changed st') (with_lines M (fp_path f) (file_added f))"
proof -
  obtain st1 where st1: "rfold diff_step st (fp_preamble f) = Inr st1" "ds_changed st1 = ds_changed st"
    using diff_preamble [of "fp_preamble f" st] f by (auto simp: file_ok_def)
  obtain st2 where st2: "diff_step st1 (''+++ b/'' @ fp_path f) = Inr st2"
      "ds_currentFile st2 = fp_path f" "ds_changed st2 = ds_changed st"
    using diff_step_file [OF f, of st1] st1(2) by auto
  have "\<exists>st'. rfold diff_step st2 (concat (map render_hunk (fp_hunks f))) = Inr st' \<and>
      ds_currentFile st' = fp_path f \<and> represents (ds_changed st') (with_lines M (fp_path f)
        (\<Union>h\<in>set (fp_hunks f). added_from (hk_start h) (hk_lines h)))"
    by (rule diff_hunks) (use assms st2 in \<open>auto simp: file_ok_def patch_size_def\<close>)
  then show ?thesis
    using st1 st2 unfolding render_file_def file_added_def by (auto simp: rfold_append)
qed

lemma file_added_finite [simp]: "finite (file_added f)"
  by (simp add: file_added_def)

lemma card_file_added: "card (file_added f) \<le> patch_size [f]"
proof -
  have "card (\<Union>h\<in>set hs. added_from (hk_start h) (hk_lines h))
      \<le> sum_list (map (\<lambda>h. count_added (hk_lines h)) hs)" for hs
  proof (induction hs)
    case (Cons h hs)
    then show ?case
      using card_Un_le [of "added_from (hk_start h) (hk_lines h)"
          "\<Union>h\<in>set hs. added_from (hk_start h) (hk_lines h)"]
        card_added_from [of "hk_start h" "hk_lines h"] by simp
  qed simp
  then show ?thesis by (simp add: file_added_def patch_size_def)
qed

lemma diff_files:
  assumes "represents (ds_changed st) M" and "\<forall>f\<in>set fs. file_ok f"
    and "\<forall>p. card (M p) + patch_size fs \<le> kMaximumChangedLinesPerFile"
    and "card {q. M q \<noteq> {}} + length fs \<le> kMaximumDiffFiles" and "finite {q. M q \<noteq> {}}"
  shows "\<exists>st'. rfold diff_step st (concat (map render_file fs)) = Inr st' \<and>
    represents (ds_changed st') (\<lambda>p. M p \<union> added_lines fs p)"
  using assms
proof (induction fs arbitrary: st M)
  case Nil
  then show ?case by (simp add: added_lines_def)
next
  case (Cons f fs)
  let ?M = "with_lines M (fp_path f) (file_added f)"
  have fin: "finite (M p)" for p using Cons.prems(1) by (simp add: represents_def)
  have size: "patch_size (f # fs) = patch_size [f] + patch_size fs" by (simp add: patch_size_def)
  have "card ({q. M q \<noteq> {}} - {fp_path f}) \<le> card {q. M q \<noteq> {}}"
    using Cons.prems(5) by (intro card_mono) auto
  then have room: "card ({q. M q \<noteq> {}} - {fp_path f}) < kMaximumDiffFiles"
    using Cons.prems(4) by simp
  have "card (M (fp_path f)) + patch_size (f # fs) \<le> kMaximumChangedLinesPerFile"
    using Cons.prems(3) by blast
  then have "card (M (fp_path f)) + patch_size [f] \<le> kMaximumChangedLinesPerFile"
    unfolding size by simp
  then obtain st1 where st1: "rfold diff_step st (render_file f) = Inr st1"
      and rep: "represents (ds_changed st1) ?M"
    using diff_file [OF Cons.prems(1) _ _ room] Cons.prems(2) by auto
  have lines: "\<forall>p. card (?M p) + patch_size fs \<le> kMaximumChangedLinesPerFile"
  proof
    fix p
    have "card (?M p) \<le> card (M p) + patch_size [f]"
      using card_Un_le [of "M p" "file_added f"] card_file_added [of f] by (auto simp: with_lines_def)
    then show "card (?M p) + patch_size fs \<le> kMaximumChangedLinesPerFile"
      using Cons.prems(3) size by (metis (no_types) add.assoc add_mono_thms_linordered_semiring(3) order_trans)
  qed
  have sub: "{q. ?M q \<noteq> {}} \<subseteq> insert (fp_path f) {q. M q \<noteq> {}}" by (auto simp: with_lines_def)
  then have fin': "finite {q. ?M q \<noteq> {}}" using Cons.prems(5) by (meson finite.insertI finite_subset)
  have "card {q. ?M q \<noteq> {}} \<le> Suc (card {q. M q \<noteq> {}})"
    using card_mono [OF _ sub] Cons.prems(5) by (simp add: card_insert_if split: if_splits)
  then have files: "card {q. ?M q \<noteq> {}} + length fs \<le> kMaximumDiffFiles" using Cons.prems(4) by simp
  obtain st' where "rfold diff_step st1 (concat (map render_file fs)) = Inr st'"
      "represents (ds_changed st') (\<lambda>p. ?M p \<union> added_lines fs p)"
    using Cons.IH [OF rep _ lines files fin'] Cons.prems(2) by auto
  moreover have "(\<lambda>p. ?M p \<union> added_lines fs p) = (\<lambda>p. M p \<union> added_lines (f # fs) p)"
    by (auto simp: added_lines_def with_lines_def fun_eq_iff)
  ultimately show ?case using st1 by (simp add: rfold_append)
qed

lemma diff_step_blank: "\<exists>st'. diff_step st [] = Inr st' \<and> ds_changed st' = ds_changed st"
  by (simp add: diff_step_def)

lemma parse_render:
  assumes "\<forall>f\<in>set fs. file_ok f"
    and "length (render fs) \<le> kMaximumDiffBytes" and "length fs \<le> kMaximumDiffFiles"
    and "patch_size fs \<le> kMaximumChangedLinesPerFile"
  shows "\<exists>changed. parseUnifiedDiff (render fs) = Inr changed \<and> omap_ok changed \<and>
    (\<forall>path. map_of changed path =
      (if added_lines fs path = {} then None else Some (sorted_list_of_set (added_lines fs path))))"
proof -
  have "represents (ds_changed diff_start) (\<lambda>_. {})"
    by (simp add: diff_start_def represents_def fun_eq_iff)
  then have "\<exists>st'. rfold diff_step diff_start (concat (map render_file fs)) = Inr st' \<and>
      represents (ds_changed st') (\<lambda>p. {} \<union> added_lines fs p)"
    by (rule diff_files) (use assms in auto)
  then obtain st where st: "rfold diff_step diff_start (concat (map render_file fs)) = Inr st"
    and rep: "represents (ds_changed st) (added_lines fs)" by auto
  obtain st' where "diff_step st [] = Inr st'" "ds_changed st' = ds_changed st"
    using diff_step_blank by blast
  then have "parseUnifiedDiff (render fs) = Inr (ds_changed st)"
    using assms(1,2) st by (simp add: parseUnifiedDiff_def diff_lines_render rfold_append)
  then show ?thesis using rep by (auto simp: represents_def)
qed


definition demo_patch :: "FilePatch list" where
  "demo_patch =
     [\<lparr>fp_preamble = [''diff --git a/tools/x/src/a.cpp b/tools/x/src/a.cpp'', ''--- a/tools/x/src/a.cpp''],
       fp_path = ''tools/x/src/a.cpp'',
       fp_hunks = [\<lparr>hk_old = ''1,2'', hk_start = 1, hk_count = Some ''3'', hk_heading = ''@@ void f()'',
         hk_lines = [Kept ''a'', Removed ''b'', Added ''c'', Added ''+d'']\<rparr>]\<rparr>]"

lemma demo_patch_ok:
  "\<forall>f\<in>set demo_patch. file_ok f" "length (render demo_patch) \<le> kMaximumDiffBytes"
  "length demo_patch \<le> kMaximumDiffFiles" "patch_size demo_patch \<le> kMaximumChangedLinesPerFile"
  by (simp_all add: demo_patch_def file_ok_def header_ok_def plain_line_def render_def render_file_def
      render_hunk_def render_header_def kMaximumDiffBytes_def kMaximumDiffFiles_def
      kMaximumChangedLinesPerFile_def patch_size_def count_added_def nat_to_string.simps digit_char_values)

lemma demo_patch_added: "added_lines demo_patch ''tools/x/src/a.cpp'' = {2, 3}"
  by (auto simp: added_lines_def file_added_def demo_patch_def)


text \<open>The smallest change that shows the confusion of added text with a file header.\<close>

definition lookalike_patch :: FilePatch where
  "lookalike_patch = \<lparr>fp_preamble = [], fp_path = ''tools/x/src/a.cpp'',
     fp_hunks = [\<lparr>hk_old = ''0,0'', hk_start = 1, hk_count = Some ''2'', hk_heading = ''@@'',
       hk_lines = [Added ''++ i;'', Added ''use(i);'']\<rparr>]\<rparr>"

lemma lookalike_lines:
  "map trimTrailing (pieces_from (CHR 0x0A) (render [lookalike_patch]) 0)
     = [''+++ b/tools/x/src/a.cpp'', ''@@ -0,0 +1,2 @@'', ''+++ i;'', ''+use(i);'', []]"
  by (simp add: render_def render_file_def render_hunk_def lookalike_patch_def render_header_def
      nat_to_string.simps digit_char_values pieces_from_start trimTrailing_def)

lemma lookalike_header: "parseHunkStart ''@@ -0,0 +1,2 @@'' = Inr 1"
  by (simp add: parseHunkStart_def parseUnsigned_def from_chars_u32_def all_digits_def is_digit_def
      digits_value_def digit_value_def)

lemma lookalike_parse: "parseUnifiedDiff (render [lookalike_patch]) = Inr []"
proof -
  have "length (render [lookalike_patch]) \<le> kMaximumDiffBytes"
    by (simp add: render_def render_file_def render_hunk_def lookalike_patch_def render_header_def
        nat_to_string.simps digit_char_values kMaximumDiffBytes_def)
  then show ?thesis
    unfolding parseUnifiedDiff_def lookalike_lines
    by (simp add: diff_step_def lookalike_header diff_start_def untilTab_def stripDiffPrefix_def
        normalizeSeparators_def Let_def)
qed

text \<open>
  An added line whose text begins with two plus signs and a blank is taken for a file header
  wherever it stands: the line is not recorded and the hunk is left, so the lines added after it
  are lost as well.
\<close>

theorem added_lookalike_is_lost:
  "(\<exists>st'. diff_step st (render_line (Added (''++ '' @ s))) = Inr st' \<and>
      ds_changed st' = ds_changed st \<and> \<not> ds_inHunk st') \<and>
   parseUnifiedDiff (render [lookalike_patch]) = Inr [] \<and>
   added_lines [lookalike_patch] ''tools/x/src/a.cpp'' = {1, 2}"
proof (intro conjI)
  show "\<exists>st'. diff_step st (render_line (Added (''++ '' @ s))) = Inr st' \<and>
      ds_changed st' = ds_changed st \<and> \<not> ds_inHunk st'"
    by (simp add: diff_step_def Let_def)
  show "added_lines [lookalike_patch] ''tools/x/src/a.cpp'' = {1, 2}"
    by (auto simp: added_lines_def file_added_def lookalike_patch_def)
qed (rule lookalike_parse)

end
