(* ===== verification/Verify_Floors.thy ===== *)
theory Verify_Floors
  imports Verify_Coverage Verify_Diff
begin

text \<open>
  \<open>tools/rf_verify/src/tier_declarations.{h,cpp}\<close>, \<open>coverage_exclusions.{h,cpp}\<close>,
  \<open>floors.{h,cpp}\<close> and \<open>coverage_summary.{h,cpp}\<close>: which verification tier a unit declares, which
  branch outcomes are not counted, the verdict of a change against the floor of each tier, and
  the whole-tree summary.
\<close>

section \<open>Verification tiers\<close>

datatype VerificationTier = Ordinary | Authority | Hostile

definition tierName :: "VerificationTier \<Rightarrow> string" where
  "tierName tier = (if tier = Ordinary then ''O'' else if tier = Authority then ''A'' else ''H'')"

definition tierBranchFloorPercent :: "VerificationTier \<Rightarrow> int" where
  "tierBranchFloorPercent tier = (if tier = Ordinary then 80 else if tier = Authority then 90 else 100)"

record TierDeclaration =
  td_path :: string
  td_tier :: VerificationTier
  td_reason :: string
  td_source :: string

record TierIndex =
  ti_units :: "(string, TierDeclaration) omap"
  ti_declaredButAbsent :: "string list"
  ti_presentButUndeclared :: "string list"

definition kDeclarationFile :: string where "kDeclarationFile = ''tests/verification-tiers.json''"

definition readTier :: "string \<Rightarrow> VerificationTier VResult" where
  "readTier t =
     (if t = ''O'' then Inr Ordinary
      else if t = ''A'' then Inr Authority
      else if t = ''H'' then Inr Hostile
      else verifyReject VfInvalidJson [] (''a verification tier must be O, A, or H: '' @ t))"

definition directoryOf :: "string \<Rightarrow> string" where
  "directoryOf manifestPath =
     (case rindex_of (CHR ''/'') manifestPath of None \<Rightarrow> [] | Some kSeparator \<Rightarrow> take kSeparator manifestPath)"

definition membershipRoot :: "JsonNode \<Rightarrow> string VResult" where
  "membershipRoot entry =
     (case entry of
        JString t \<Rightarrow>
          if directoryOf t = []
          then verifyReject VfInvalidJson ''repository.json'' (''a membership entry has no root: '' @ t)
          else Inr (directoryOf t)
      | _ \<Rightarrow> verifyReject VfInvalidJson ''repository.json'' ''a membership entry is not a path'')"

definition listedManifests :: "(string \<Rightarrow> sj_document) \<Rightarrow> VerifyFiles \<Rightarrow> string \<Rightarrow> string list VResult" where
  "listedManifests iterate fs repositoryRoot =
     rbind (readJsonFile iterate fs (path_append repositoryRoot ''repository.json'')) (\<lambda>index.
     rbind (rmap (\<lambda>kArray.
         case findArray index kArray of
           None \<Rightarrow> verifyReject VfInvalidJson ''repository.json''
             ''a membership array is absent or not an array''
         | Some entries \<Rightarrow> rmap membershipRoot entries) [''tools'', ''modules'']) (\<lambda>roots.
       Inr (sort_unique (concat roots))))"

text \<open>
  One step of a directory walk is \<open>None\<close> when the iteration reports an error, and otherwise the
  path of an entry with whether it is a regular file.
\<close>

definition collectPresentUnits :: "VerifyFiles \<Rightarrow> string \<Rightarrow> string \<Rightarrow> string list \<Rightarrow> string list VResult" where
  "collectPresentUnits fs repositoryRoot declaringRoot present =
     rfold (\<lambda>present kSubdirectory.
       let kBase = path_append (path_append repositoryRoot declaringRoot) kSubdirectory in
       if \<not> fs_exists fs kBase then Inr present
       else rfold (\<lambda>present step.
              case step of
                None \<Rightarrow> verifyReject VfIoFailure kBase ''a declared source root cannot be read''
              | Some (path, regular) \<Rightarrow>
                  if \<not> regular then Inr present
                  else rbind (repositoryRelative fs repositoryRoot path) (\<lambda>relative.
                    Inr (if isMaintainedSourceUnit relative then present @ [relative] else present)))
            present (fs_walk fs kBase)) present [''src'', ''include'']"

definition readUnitDeclaration :: "string \<Rightarrow> string \<Rightarrow> JsonNode \<Rightarrow> TierDeclaration VResult" where
  "readUnitDeclaration path declaringRoot entry =
     (case (findString entry ''path'', findString entry ''tier'', findString entry ''reason'') of
        (Some unitPath, Some tier, Some reason) \<Rightarrow>
          rbind (at_path path (readTier tier)) (\<lambda>resolved.
            Inr \<lparr>td_path = declaringRoot @ ''/'' @ unitPath, td_tier = resolved, td_reason = reason,
                 td_source = declaringRoot @ ''/'' @ kDeclarationFile\<rparr>)
      | _ \<Rightarrow> verifyReject VfInvalidJson path ''a unit declaration needs a path, a tier, and a reason'')"

definition readTierDeclarationFile :: "(string \<Rightarrow> sj_document) \<Rightarrow> VerifyFiles \<Rightarrow> string \<Rightarrow> string
    \<Rightarrow> TierDeclaration list VResult" where
  "readTierDeclarationFile iterate fs path declaringRoot =
     rbind (readJsonFile iterate fs path) (\<lambda>document.
       case findArray document ''units'' of
         None \<Rightarrow> verifyReject VfInvalidJson path ''the declaration has no units array''
       | Some units \<Rightarrow> rmap (readUnitDeclaration path declaringRoot) units)"

definition claimUnit :: "(string, TierDeclaration) omap \<Rightarrow> TierDeclaration \<Rightarrow> (string, TierDeclaration) omap VResult" where
  "claimUnit units declaration =
     (if map_of units (td_path declaration) \<noteq> None
      then verifyReject VfInvalidJson (td_path declaration) ''two declarations claim the same source unit''
      else Inr (omap_emplace (td_path declaration) declaration units))"

definition readTierRoot :: "(string \<Rightarrow> sj_document) \<Rightarrow> VerifyFiles \<Rightarrow> string
    \<Rightarrow> (string, TierDeclaration) omap \<times> string list \<Rightarrow> string
    \<Rightarrow> ((string, TierDeclaration) omap \<times> string list) VResult" where
  "readTierRoot iterate fs repositoryRoot = (\<lambda>(units, present) root.
     let kDeclarationPath = path_append (path_append repositoryRoot root) kDeclarationFile;
         kHasSource = fs_exists fs (path_append (path_append repositoryRoot root) ''src'')
     in if \<not> fs_exists fs kDeclarationPath
        then if \<not> kHasSource then Inr (units, present)
          else verifyReject VfMissingInput (root @ ''/'' @ kDeclarationFile)
            ''a listed root with maintained source declares no verification tiers''
        else rbind (readTierDeclarationFile iterate fs kDeclarationPath root) (\<lambda>declarations.
             rbind (rfold claimUnit units declarations) (\<lambda>units.
             rbind (collectPresentUnits fs repositoryRoot root present) (\<lambda>present.
               Inr (units, present)))))"

definition readTierIndex :: "(string \<Rightarrow> sj_document) \<Rightarrow> VerifyFiles \<Rightarrow> string \<Rightarrow> TierIndex VResult" where
  "readTierIndex iterate fs repositoryRoot =
     rbind (listedManifests iterate fs repositoryRoot) (\<lambda>roots.
     rbind (rfold (readTierRoot iterate fs repositoryRoot) ([], []) roots) (\<lambda>(units, present).
       Inr \<lparr>ti_units = units,
            ti_declaredButAbsent = sort (filter (\<lambda>path. path \<notin> set present) (map fst units)),
            ti_presentButUndeclared = sort (filter (\<lambda>unit. map_of units unit = None) present)\<rparr>))"

section \<open>Outcomes that are not counted\<close>

datatype BranchExclusion = NotExcluded | ConstantCondition | SynthesizedBody

definition blank_char :: "char \<Rightarrow> bool" where
  "blank_char c \<longleftrightarrow> c \<in> {CHR '' '', CHR 0x09, CHR 0x0D, CHR 0x0A}"

definition trim_blanks :: "string \<Rightarrow> string" where
  "trim_blanks s = rev (dropWhile blank_char (rev (dropWhile blank_char s)))"

definition withoutContinuation :: "string \<Rightarrow> string" where
  "withoutContinuation s =
     (let kTrimmed = trim_blanks s in
      if ends_with kTrimmed [CHR 0x5C] then trim_blanks (take (length kTrimmed - 1) kTrimmed) else kTrimmed)"

type_synonym SourceUnit = "string list"

definition readSourceUnit :: "VerifyFiles \<Rightarrow> string \<Rightarrow> SourceUnit VResult" where
  "readSourceUnit fs path =
     (if \<not> fs_exists fs path then verifyReject VfMissingInput path ''the source unit does not exist''
      else if \<not> fs_regular fs path
      then verifyReject VfInvalidPath path ''the source unit is not a regular file''
      else case fs_size fs path of
        None \<Rightarrow> verifyReject VfIoFailure path ''the source unit size cannot be read''
      | Some kSize \<Rightarrow>
          if kMaximumJsonBytes < kSize
          then verifyReject VfLimitExceeded path ''the source unit exceeds the byte limit''
          else case fs_read fs path kSize of
            None \<Rightarrow> if kSize \<noteq> 0 then verifyReject VfIoFailure path ''the source unit cannot be read''
              else Inr (pieces_from (CHR 0x0A) [] 0)
          | Some bytes \<Rightarrow> Inr (pieces_from (CHR 0x0A) bytes 0))"

definition unit_line :: "SourceUnit \<Rightarrow> nat \<Rightarrow> string" where
  "unit_line unit number = (if number = 0 \<or> length unit < number then [] else unit ! (number - 1))"

definition unit_span :: "SourceUnit \<Rightarrow> nat \<Rightarrow> nat \<Rightarrow> nat \<Rightarrow> nat \<Rightarrow> string" where
  "unit_span unit lineNumber column endLine endColumn =
     (if lineNumber \<noteq> endLine \<or> column = 0 \<or> endColumn < column then []
      else let kLine = unit_line unit lineNumber; kFrom = column - 1; kWidth = endColumn - column
      in if length kLine < kFrom \<or> length kLine < kFrom + kWidth then [] else substr kLine kFrom kWidth)"

definition classifyBranchRegion :: "SourceUnit \<Rightarrow> BranchRegion \<Rightarrow> BranchExclusion" where
  "classifyBranchRegion unit region =
     (if ends_with (withoutContinuation (unit_line unit (br_line region))) ''= default;'' then SynthesizedBody
      else let kCondition = trim_blanks (unit_span unit (br_line region) (br_column region)
                 (br_endLine region) (br_endColumn region))
      in if kCondition = ''true'' \<or> kCondition = ''false'' then ConstantCondition else NotExcluded)"

section \<open>The floors\<close>

record UnitVerdict =
  uv_path :: string
  uv_tier :: VerificationTier
  uv_changedConditions :: int
  uv_coveredConditions :: int
  uv_floorPercent :: int
  uv_meetsFloor :: bool
  uv_uncoveredBranchLines :: "nat list"
  uv_changedDecisions :: nat
  uv_uncoveredDecisions :: nat
  uv_excludedConstantConditions :: nat
  uv_excludedSynthesizedConditions :: nat

record FloorEvaluation =
  fe_units :: "UnitVerdict list"
  fe_findings :: "VerifyFinding list"
  fe_changedNonSourcePaths :: nat
  fe_changedHeadersWithoutInstrumentedCode :: nat

definition meetsFloor :: "int \<Rightarrow> int \<Rightarrow> int \<Rightarrow> bool" where
  "meetsFloor covered changed floorPercent \<longleftrightarrow> floorPercent * changed \<le> covered * 100"

definition percentText :: "int \<Rightarrow> int \<Rightarrow> string" where
  "percentText covered changed =
     (let kTenths = (covered * 1000) div changed
      in int_to_string (kTenths div 10) @ ''.'' @ int_to_string (kTenths mod 10) @ '' percent'')"

definition countRegion :: "SourceUnit \<Rightarrow> nat list \<Rightarrow> UnitVerdict \<Rightarrow> BranchRegion \<Rightarrow> UnitVerdict" where
  "countRegion unit lines verdict region =
     (if br_line region \<notin> set lines then verdict
      else case classifyBranchRegion unit region of
        ConstantCondition \<Rightarrow> verdict\<lparr>uv_excludedConstantConditions := uv_excludedConstantConditions verdict + 2\<rparr>
      | SynthesizedBody \<Rightarrow> verdict\<lparr>uv_excludedSynthesizedConditions := uv_excludedSynthesizedConditions verdict + 2\<rparr>
      | NotExcluded \<Rightarrow>
          verdict\<lparr>uv_changedConditions := uv_changedConditions verdict + 2,
                  uv_coveredConditions := uv_coveredConditions verdict
                    + of_bool (trueCovered region) + of_bool (falseCovered region),
                  uv_uncoveredBranchLines := (if \<not> trueCovered region \<or> \<not> falseCovered region
                    then uv_uncoveredBranchLines verdict @ [br_line region]
                    else uv_uncoveredBranchLines verdict)\<rparr>)"

definition floorFinding :: "string \<Rightarrow> UnitVerdict \<Rightarrow> VerifyFinding" where
  "floorFinding path verdict = verifyFinding kRuleBelowFloor path
     (''tier '' @ tierName (uv_tier verdict) @ '' changed lines measured '' @
      percentText (uv_coveredConditions verdict) (uv_changedConditions verdict) @
      '' branch coverage against a floor of '' @ int_to_string (uv_floorPercent verdict) @ '' percent'')"

definition mcdcFinding :: "string \<Rightarrow> McdcDecision \<Rightarrow> VerifyFinding" where
  "mcdcFinding path decision = verifyFinding kRuleMcdcUncovered path
     (''the decision at line '' @ nat_to_string (md_line decision) @
      '' has a condition with no independence pair, so it is not covered to MC/DC'')"

definition countDecision :: "string \<Rightarrow> nat list \<Rightarrow> UnitVerdict \<times> VerifyFinding list \<Rightarrow> McdcDecision
    \<Rightarrow> UnitVerdict \<times> VerifyFinding list" where
  "countDecision path lines = (\<lambda>(verdict, findings) decision.
     if md_line decision \<notin> set lines then (verdict, findings)
     else let verdict = verdict\<lparr>uv_changedDecisions := uv_changedDecisions verdict + 1\<rparr>
       in if decisionIsIndependentlyCovered decision then (verdict, findings)
          else (verdict\<lparr>uv_uncoveredDecisions := uv_uncoveredDecisions verdict + 1\<rparr>,
                findings @ [mcdcFinding path decision]))"

definition newVerdict :: "string \<Rightarrow> VerificationTier \<Rightarrow> UnitVerdict" where
  "newVerdict path tier = \<lparr>uv_path = path, uv_tier = tier, uv_changedConditions = 0, uv_coveredConditions = 0,
     uv_floorPercent = tierBranchFloorPercent tier, uv_meetsFloor = True, uv_uncoveredBranchLines = [],
     uv_changedDecisions = 0, uv_uncoveredDecisions = 0,
     uv_excludedConstantConditions = 0, uv_excludedSynthesizedConditions = 0\<rparr>"

definition measureUnit :: "SourceUnit \<Rightarrow> string \<Rightarrow> nat list \<Rightarrow> VerificationTier \<Rightarrow> CoverageFile
    \<Rightarrow> UnitVerdict \<times> VerifyFinding list" where
  "measureUnit unit path lines tier covered =
     (let verdict = foldl (countRegion unit lines) (newVerdict path tier) (cf_branches covered);
          verdict = verdict\<lparr>uv_uncoveredBranchLines := sort_unique (uv_uncoveredBranchLines verdict)\<rparr>;
          verdict = verdict\<lparr>uv_meetsFloor := meetsFloor (uv_coveredConditions verdict)
            (uv_changedConditions verdict) (uv_floorPercent verdict)\<rparr>;
          findings = (if \<not> uv_meetsFloor verdict then [floorFinding path verdict] else [])
      in if uv_tier verdict = Hostile
         then foldl (countDecision path lines) (verdict, findings) (cf_decisions covered)
         else (verdict, findings))"

definition undeclaredFinding :: "string \<Rightarrow> VerifyFinding" where
  "undeclaredFinding path = verifyFinding kRuleUndeclaredTier path
     ''a changed source unit carries no declared verification tier, so no floor applies to it and none can''"

definition evaluateChange :: "VerifyFiles \<Rightarrow> string \<Rightarrow> CoverageExport \<Rightarrow> TierIndex \<Rightarrow> FloorEvaluation
    \<Rightarrow> string \<times> nat list \<Rightarrow> FloorEvaluation VResult" where
  "evaluateChange fs repositoryRoot coverage tiers evaluation = (\<lambda>(path, lines).
     if \<not> isMaintainedSourceUnit path
     then Inr (evaluation\<lparr>fe_changedNonSourcePaths := fe_changedNonSourcePaths evaluation + 1\<rparr>)
     else case map_of (ti_units tiers) path of
       None \<Rightarrow> Inr (evaluation\<lparr>fe_findings := fe_findings evaluation @ [undeclaredFinding path]\<rparr>)
     | Some kDeclaration \<Rightarrow>
         (case map_of (ce_files coverage) path of
            None \<Rightarrow>
              if ends_with path ''.cpp''
              then verifyReject VfUncoveredChangedFile path
                ''the coverage export does not describe a changed translation unit, so the lane did not build or did not run it''
              else Inr (evaluation\<lparr>fe_changedHeadersWithoutInstrumentedCode :=
                fe_changedHeadersWithoutInstrumentedCode evaluation + 1\<rparr>)
          | Some kCovered \<Rightarrow>
              rbind (readSourceUnit fs (path_append repositoryRoot path)) (\<lambda>unit.
                let (verdict, findings) = measureUnit unit path lines (td_tier kDeclaration) kCovered
                in Inr (evaluation\<lparr>fe_findings := fe_findings evaluation @ findings,
                                   fe_units := fe_units evaluation @ [verdict]\<rparr>))))"

definition no_evaluation :: FloorEvaluation where
  "no_evaluation = \<lparr>fe_units = [], fe_findings = [], fe_changedNonSourcePaths = 0,
     fe_changedHeadersWithoutInstrumentedCode = 0\<rparr>"

definition evaluateFloors :: "VerifyFiles \<Rightarrow> string \<Rightarrow> ChangedLines \<Rightarrow> CoverageExport \<Rightarrow> TierIndex
    \<Rightarrow> FloorEvaluation VResult" where
  "evaluateFloors fs repositoryRoot changed coverage tiers =
     rbind (rfold (evaluateChange fs repositoryRoot coverage tiers)
         no_evaluation changed) (\<lambda>evaluation.
       Inr (evaluation\<lparr>fe_findings := fe_findings evaluation @
         map (\<lambda>stale. verifyFinding kRuleStaleTier stale
           ''a verification tier is declared for a unit that is not there'') (ti_declaredButAbsent tiers) @
         map (\<lambda>undeclared. verifyFinding kRuleUndeclaredTier undeclared
           ''a maintained source unit carries no declared verification tier'') (ti_presentButUndeclared tiers)\<rparr>))"

section \<open>The whole-tree summary\<close>

record FileCoverageSummary =
  fc_path :: string
  fc_tier :: string
  fc_counts :: CoverageSummary
  fc_uncoveredLines :: "nat list"
  fc_partiallyCoveredBranchLines :: "nat list"
  fc_uncoveredDecisionLines :: "nat list"

record TreeCoverageSummary =
  tc_totals :: CoverageSummary
  tc_files :: "FileCoverageSummary list"
  tc_omittedUncoveredLines :: nat
  tc_droppedForeignFiles :: nat

definition accumulate :: "CoverageCounts \<Rightarrow> CoverageCounts \<Rightarrow> CoverageCounts" where
  "accumulate running part = \<lparr>cc_count = cc_count running + cc_count part,
     cc_covered = cc_covered running + cc_covered part\<rparr>"

text \<open>The state of the line listing: lines listed for this file, listed in all, and omitted.\<close>

definition listLine :: "nat list \<times> nat \<times> nat \<Rightarrow> nat \<times> int \<Rightarrow> nat list \<times> nat \<times> nat" where
  "listLine = (\<lambda>(uncovered, listed, omitted) (line, executions).
     if executions \<noteq> 0 then (uncovered, listed, omitted)
     else if kMaximumReportedUncoveredLines \<le> listed then (uncovered, listed, omitted + 1)
     else (uncovered @ [line], listed + 1, omitted))"

definition summarizeFile :: "TierIndex \<Rightarrow> TreeCoverageSummary \<times> nat \<Rightarrow> string \<times> CoverageFile
    \<Rightarrow> TreeCoverageSummary \<times> nat" where
  "summarizeFile tiers = (\<lambda>(summary, listed) (path, measured).
     let (uncovered, listed, omitted) =
           foldl listLine ([], listed, tc_omittedUncoveredLines summary) (cf_lineCounts measured);
         partial = map br_line (filter (\<lambda>r. \<not> (trueCovered r \<and> falseCovered r)) (cf_branches measured));
         decisions = map md_line (filter (\<lambda>d. \<not> decisionIsIndependentlyCovered d) (cf_decisions measured));
         entry = \<lparr>fc_path = path,
           fc_tier = (case map_of (ti_units tiers) path of None \<Rightarrow> [] | Some d \<Rightarrow> tierName (td_tier d)),
           fc_counts = cf_summary measured, fc_uncoveredLines = uncovered,
           fc_partiallyCoveredBranchLines = sort_unique partial,
           fc_uncoveredDecisionLines = sort_unique decisions\<rparr>;
         totals = tc_totals summary; counts = cf_summary measured
     in (summary\<lparr>tc_omittedUncoveredLines := omitted,
                 tc_totals := \<lparr>cs_lines = accumulate (cs_lines totals) (cs_lines counts),
                   cs_branches = accumulate (cs_branches totals) (cs_branches counts),
                   cs_regions = accumulate (cs_regions totals) (cs_regions counts),
                   cs_mcdc = accumulate (cs_mcdc totals) (cs_mcdc counts)\<rparr>,
                 tc_files := tc_files summary @ [entry]\<rparr>, listed))"

definition summarizeCoverage :: "CoverageExport \<Rightarrow> TierIndex \<Rightarrow> TreeCoverageSummary VResult" where
  "summarizeCoverage coverage tiers =
     Inr (fst (foldl (summarizeFile tiers)
       (\<lparr>tc_totals = \<lparr>cs_lines = no_counts, cs_branches = no_counts, cs_regions = no_counts,
                      cs_mcdc = no_counts\<rparr>,
         tc_files = [], tc_omittedUncoveredLines = 0,
         tc_droppedForeignFiles = ce_droppedForeignFiles coverage\<rparr>, 0) (ce_files coverage)))"

section \<open>The verdict on one unit\<close>

text \<open>The regions STD-0007 counts for a change, and how many of their outcomes were executed.\<close>

definition counted :: "SourceUnit \<Rightarrow> nat list \<Rightarrow> CoverageFile \<Rightarrow> BranchRegion list" where
  "counted unit lines covered =
     filter (\<lambda>r. br_line r \<in> set lines \<and> classifyBranchRegion unit r = NotExcluded) (cf_branches covered)"

definition executed_outcomes :: "BranchRegion list \<Rightarrow> int" where
  "executed_outcomes rs = sum_list (map (\<lambda>r. of_bool (trueCovered r) + of_bool (falseCovered r)) rs)"

definition open_decisions :: "nat list \<Rightarrow> CoverageFile \<Rightarrow> McdcDecision list" where
  "open_decisions lines covered =
     filter (\<lambda>d. md_line d \<in> set lines \<and> \<not> decisionIsIndependentlyCovered d) (cf_decisions covered)"

lemma foldl_countRegion:
  "foldl (countRegion unit lines) v rs = v\<lparr>
     uv_changedConditions := uv_changedConditions v
       + 2 * int (length (filter (\<lambda>r. br_line r \<in> set lines \<and> classifyBranchRegion unit r = NotExcluded) rs)),
     uv_coveredConditions := uv_coveredConditions v
       + executed_outcomes (filter (\<lambda>r. br_line r \<in> set lines \<and> classifyBranchRegion unit r = NotExcluded) rs),
     uv_uncoveredBranchLines := uv_uncoveredBranchLines v @
       map br_line (filter (\<lambda>r. br_line r \<in> set lines \<and> classifyBranchRegion unit r = NotExcluded \<and>
         \<not> (trueCovered r \<and> falseCovered r)) rs),
     uv_excludedConstantConditions := uv_excludedConstantConditions v
       + 2 * length (filter (\<lambda>r. br_line r \<in> set lines \<and> classifyBranchRegion unit r = ConstantCondition) rs),
     uv_excludedSynthesizedConditions := uv_excludedSynthesizedConditions v
       + 2 * length (filter (\<lambda>r. br_line r \<in> set lines \<and> classifyBranchRegion unit r = SynthesizedBody) rs)\<rparr>"
proof (induction rs arbitrary: v)
  case Nil
  then show ?case by (simp add: executed_outcomes_def)
next
  case (Cons r rs)
  show ?case
    unfolding foldl_Cons Cons.IH
    by (cases "classifyBranchRegion unit r")
      (simp_all add: countRegion_def executed_outcomes_def)
qed

lemma countDecision_step:
  "countDecision path lines (v, fs) d =
     (if md_line d \<notin> set lines then (v, fs)
      else if decisionIsIndependentlyCovered d
      then (v\<lparr>uv_changedDecisions := uv_changedDecisions v + 1\<rparr>, fs)
      else (v\<lparr>uv_changedDecisions := uv_changedDecisions v + 1,
              uv_uncoveredDecisions := uv_uncoveredDecisions v + 1\<rparr>, fs @ [mcdcFinding path d]))"
  by (simp add: countDecision_def Let_def)

lemma foldl_countDecision:
  "foldl (countDecision path lines) (v, fs) ds =
    (v\<lparr>uv_changedDecisions := uv_changedDecisions v + length (filter (\<lambda>d. md_line d \<in> set lines) ds),
       uv_uncoveredDecisions := uv_uncoveredDecisions v
         + length (filter (\<lambda>d. md_line d \<in> set lines \<and> \<not> decisionIsIndependentlyCovered d) ds)\<rparr>,
     fs @ map (mcdcFinding path)
       (filter (\<lambda>d. md_line d \<in> set lines \<and> \<not> decisionIsIndependentlyCovered d) ds))"
proof (induction ds arbitrary: v fs)
  case (Cons d ds)
  show ?case by (simp add: countDecision_step Cons.IH)
qed simp

definition unit_meets :: "SourceUnit \<Rightarrow> nat list \<Rightarrow> VerificationTier \<Rightarrow> CoverageFile \<Rightarrow> bool" where
  "unit_meets unit lines tier covered \<longleftrightarrow>
     tierBranchFloorPercent tier * (2 * int (length (counted unit lines covered)))
       \<le> 100 * executed_outcomes (counted unit lines covered)"

lemma measureUnit_findings:
  "snd (measureUnit unit path lines tier covered) = [] \<longleftrightarrow>
     unit_meets unit lines tier covered \<and> (tier = Hostile \<longrightarrow> open_decisions lines covered = [])"
  by (simp add: measureUnit_def Let_def foldl_countRegion foldl_countDecision newVerdict_def
      meetsFloor_def unit_meets_def counted_def open_decisions_def mult.commute)

text \<open>A verdict states the counts behind it, and the lines to look at, each once and in order.\<close>

lemma measureUnit_verdict:
  "fst (measureUnit unit path lines tier covered) = (newVerdict path tier)\<lparr>
     uv_changedConditions := 2 * int (length (counted unit lines covered)),
     uv_coveredConditions := executed_outcomes (counted unit lines covered),
     uv_meetsFloor := unit_meets unit lines tier covered,
     uv_uncoveredBranchLines := sorted_list_of_set
       (br_line ` {r \<in> set (counted unit lines covered). \<not> (trueCovered r \<and> falseCovered r)}),
     uv_changedDecisions := (if tier = Hostile
       then length (filter (\<lambda>d. md_line d \<in> set lines) (cf_decisions covered)) else 0),
     uv_uncoveredDecisions := (if tier = Hostile then length (open_decisions lines covered) else 0),
     uv_excludedConstantConditions := 2 * length (filter (\<lambda>r. br_line r \<in> set lines \<and>
       classifyBranchRegion unit r = ConstantCondition) (cf_branches covered)),
     uv_excludedSynthesizedConditions := 2 * length (filter (\<lambda>r. br_line r \<in> set lines \<and>
       classifyBranchRegion unit r = SynthesizedBody) (cf_branches covered))\<rparr>"
proof -
  have lines: "{r \<in> set (counted unit lines covered). \<not> (trueCovered r \<and> falseCovered r)} =
      {r \<in> set (cf_branches covered). br_line r \<in> set lines \<and>
         classifyBranchRegion unit r = NotExcluded \<and> (trueCovered r \<longrightarrow> \<not> falseCovered r)}"
    by (auto simp: counted_def)
  show ?thesis
    unfolding lines
    by (simp add: measureUnit_def Let_def foldl_countRegion foldl_countDecision newVerdict_def
        meetsFloor_def unit_meets_def counted_def open_decisions_def mult.commute sort_unique_set)
qed

text \<open>The percentage is only printed for a unit that has counted outcomes, so its divisor is positive.\<close>

lemma percent_divisor_positive:
  assumes "\<not> unit_meets unit lines tier covered"
  shows "0 < 2 * int (length (counted unit lines covered))"
  using assms by (cases "counted unit lines covered") (auto simp: unit_meets_def executed_outcomes_def)

section \<open>The verdict on a change\<close>

definition measurable_change :: "VerifyFiles \<Rightarrow> string \<Rightarrow> CoverageExport \<Rightarrow> TierIndex \<Rightarrow> string \<Rightarrow> bool" where
  "measurable_change fs root coverage tiers path \<longleftrightarrow>
     \<not> isMaintainedSourceUnit path \<or> map_of (ti_units tiers) path = None \<or>
     (case map_of (ce_files coverage) path of
        None \<Rightarrow> \<not> ends_with path ''.cpp''
      | Some _ \<Rightarrow> is_ok (readSourceUnit fs (path_append root path)))"

definition clean_change :: "VerifyFiles \<Rightarrow> string \<Rightarrow> CoverageExport \<Rightarrow> TierIndex \<Rightarrow> string \<times> nat list \<Rightarrow> bool" where
  "clean_change fs root coverage tiers = (\<lambda>(path, lines).
     isMaintainedSourceUnit path \<longrightarrow>
       (\<exists>declaration. map_of (ti_units tiers) path = Some declaration \<and>
         (\<forall>covered unit. map_of (ce_files coverage) path = Some covered \<longrightarrow>
            readSourceUnit fs (path_append root path) = Inr unit \<longrightarrow>
            unit_meets unit lines (td_tier declaration) covered \<and>
            (td_tier declaration = Hostile \<longrightarrow>
               (\<forall>d\<in>set (cf_decisions covered). md_line d \<in> set lines \<longrightarrow> decisionIsIndependentlyCovered d)))))"

lemma open_decisions_Nil: "open_decisions lines covered = [] \<longleftrightarrow>
    (\<forall>d\<in>set (cf_decisions covered). md_line d \<in> set lines \<longrightarrow> decisionIsIndependentlyCovered d)"
  by (auto simp: open_decisions_def filter_empty_conv)

lemma evaluateChange_ok:
  "is_ok (evaluateChange fs root coverage tiers ev (path, lines)) \<longleftrightarrow>
     measurable_change fs root coverage tiers path"
  by (cases "readSourceUnit fs (path_append root path)")
    (auto simp: evaluateChange_def measurable_change_def split: option.splits prod.splits)

lemma evaluateChange_findings:
  assumes "evaluateChange fs root coverage tiers ev c = Inr ev'"
  shows "fe_findings ev' = [] \<longleftrightarrow> fe_findings ev = [] \<and> clean_change fs root coverage tiers c"
proof -
  obtain path lines where c: "c = (path, lines)" by fastforce
  show ?thesis
  proof (cases "isMaintainedSourceUnit path")
    case False
    with assms c show ?thesis by (auto simp: evaluateChange_def clean_change_def)
  next
    case maintained: True
    show ?thesis
    proof (cases "map_of (ti_units tiers) path")
      case None
      with assms c maintained show ?thesis by (auto simp: evaluateChange_def clean_change_def)
    next
      case (Some decl)
      show ?thesis
      proof (cases "map_of (ce_files coverage) path")
        case None
        with assms c maintained Some show ?thesis
          by (auto simp: evaluateChange_def clean_change_def split: if_splits)
      next
        case covered: (Some measured)
        with assms c maintained Some obtain unit where u: "readSourceUnit fs (path_append root path) = Inr unit"
          and "fe_findings ev' = fe_findings ev @ snd (measureUnit unit path lines (td_tier decl) measured)"
          by (auto simp: evaluateChange_def split: prod.splits)
        then show ?thesis
          using c maintained Some covered
          by (auto simp: clean_change_def measureUnit_findings open_decisions_Nil)
      qed
    qed
  qed
qed

lemma evaluateChanges_ok:
  "is_ok (rfold (evaluateChange fs root coverage tiers) ev changed) \<longleftrightarrow>
     (\<forall>c\<in>set changed. measurable_change fs root coverage tiers (fst c))"
proof (induction changed arbitrary: ev)
  case (Cons c changed)
  obtain path lines where c: "c = (path, lines)" by fastforce
  show ?case
    using Cons evaluateChange_ok [of fs root coverage tiers ev path lines] c
    by (cases "evaluateChange fs root coverage tiers ev c") auto
qed simp

lemma evaluateChanges_findings:
  "rfold (evaluateChange fs root coverage tiers) ev changed = Inr ev' \<Longrightarrow>
     fe_findings ev' = [] \<longleftrightarrow> fe_findings ev = [] \<and> (\<forall>c\<in>set changed. clean_change fs root coverage tiers c)"
  by (induction changed arbitrary: ev) (auto dest: evaluateChange_findings)

lemma evaluateFloors_ok:
  "is_ok (evaluateFloors fs root changed coverage tiers) \<longleftrightarrow>
      (\<forall>c\<in>set changed. measurable_change fs root coverage tiers (fst c))"
  using evaluateChanges_ok [of fs root coverage tiers no_evaluation changed]
  by (auto simp: evaluateFloors_def is_ok_iff rbind_Inr_iff)

lemma evaluateFloors_findings:
  assumes "evaluateFloors fs root changed coverage tiers = Inr ev"
  shows "fe_findings ev = [] \<longleftrightarrow> ti_declaredButAbsent tiers = [] \<and> ti_presentButUndeclared tiers = [] \<and>
    (\<forall>c\<in>set changed. clean_change fs root coverage tiers c)"
proof -
  from assms obtain ev0 where "rfold (evaluateChange fs root coverage tiers) no_evaluation changed = Inr ev0"
    and "fe_findings ev = fe_findings ev0 @
      map (\<lambda>stale. verifyFinding kRuleStaleTier stale
         ''a verification tier is declared for a unit that is not there'') (ti_declaredButAbsent tiers) @
      map (\<lambda>undeclared. verifyFinding kRuleUndeclaredTier undeclared
         ''a maintained source unit carries no declared verification tier'') (ti_presentButUndeclared tiers)"
    by (auto simp: evaluateFloors_def)
  moreover have "fe_findings no_evaluation = []" by (simp add: no_evaluation_def)
  ultimately show ?thesis by (auto dest: evaluateChanges_findings)
qed

lemma evaluateFloors_clean:
  assumes "evaluateFloors fs root changed coverage tiers = Inr ev" and "fe_findings ev = []"
  shows "ti_declaredButAbsent tiers = [] \<and> ti_presentButUndeclared tiers = [] \<and>
    (\<forall>c\<in>set changed. clean_change fs root coverage tiers c)"
  using evaluateFloors_findings [OF assms(1)] assms(2) by blast

text \<open>
  C14. The gate answers unless a changed, declared translation unit is missing from the export or
  a measured unit cannot be read; and when it answers, it reports nothing exactly when the tier
  declarations match the tree, every changed maintained unit declares a tier, the executed
  outcomes of its counted changed regions reach the tier's percentage, and in the hostile tier
  every changed decision is covered to MC/DC.
\<close>

theorem floor_gate_exact:
  "(is_ok (evaluateFloors fs root changed coverage tiers) \<longleftrightarrow>
      (\<forall>c\<in>set changed. measurable_change fs root coverage tiers (fst c))) \<and>
   (\<forall>ev. evaluateFloors fs root changed coverage tiers = Inr ev \<longrightarrow>
      (fe_findings ev = [] \<longleftrightarrow> ti_declaredButAbsent tiers = [] \<and> ti_presentButUndeclared tiers = [] \<and>
        (\<forall>c\<in>set changed. clean_change fs root coverage tiers c)))"
  using evaluateFloors_ok evaluateFloors_findings by blast

text \<open>A hostile-tier header whose only changed outcome was never executed.\<close>

definition demo_tiers :: TierIndex where
  "demo_tiers = \<lparr>ti_units = [(''tools/x/src/a.h'', \<lparr>td_path = ''tools/x/src/a.h'', td_tier = Hostile,
       td_reason = ''boundary'', td_source = ''tools/x/tests/verification-tiers.json''\<rparr>)],
     ti_declaredButAbsent = [], ti_presentButUndeclared = []\<rparr>"

definition demo_coverage :: CoverageExport where
  "demo_coverage = \<lparr>ce_producerVersion = [], ce_files = [(''tools/x/src/a.h'', demo_unit\<lparr>cf_branches := [demo_region 3 0]\<rparr>)],
     ce_droppedForeignFiles = 0\<rparr>"

lemma floor_gate_exact_witness:
  "\<exists>ev. evaluateFloors demo_files ''/r'' [(''tools/x/src/a.h'', [4])] demo_coverage demo_tiers = Inr ev \<and>
     fe_findings ev \<noteq> []"
proof -
  let ?ok = "evaluateFloors demo_files ''/r'' [(''tools/x/src/a.h'', [4])] demo_coverage demo_tiers"
  have unit: "readSourceUnit demo_files (path_append ''/r'' ''tools/x/src/a.h'') = Inr [[]]"
    by (simp add: readSourceUnit_def demo_files_def pieces_from_start)
  have class': "classifyBranchRegion [[]] (demo_region 3 0) = NotExcluded"
    by (simp add: classifyBranchRegion_def demo_region_def unit_line_def unit_span_def
        withoutContinuation_def trim_blanks_def ends_with_def Let_def)
  have "measurable_change demo_files ''/r'' demo_coverage demo_tiers ''tools/x/src/a.h''"
    by (simp add: measurable_change_def demo_coverage_def unit)
  moreover have "\<not> clean_change demo_files ''/r'' demo_coverage demo_tiers (''tools/x/src/a.h'', [4])"
    using demo_maintained class'
    by (simp add: clean_change_def demo_tiers_def demo_coverage_def unit unit_meets_def counted_def
        demo_unit_def newCoverageFile_def executed_outcomes_def tierBranchFloorPercent_def
        trueCovered_def falseCovered_def) (simp add: demo_region_def)
  ultimately show ?thesis
    using floor_gate_exact [of demo_files "''/r''" "[(''tools/x/src/a.h'', [4])]" demo_coverage demo_tiers]
    by (auto simp: is_ok_iff)
qed

section \<open>The summary loses nothing\<close>

text \<open>Every line the compiler instrumented and no run executed, in the order of the report.\<close>

definition unexecuted :: "string \<times> CoverageFile \<Rightarrow> (string \<times> nat) list" where
  "unexecuted = (\<lambda>(path, f). map (\<lambda>(line, _). (path, line)) (filter (\<lambda>(_, n). n = 0) (cf_lineCounts f)))"

definition listed_lines :: "FileCoverageSummary \<Rightarrow> (string \<times> nat) list" where
  "listed_lines f = map (Pair (fc_path f)) (fc_uncoveredLines f)"

lemma foldl_listLine:
  assumes "listed \<le> kMaximumReportedUncoveredLines"
  shows "foldl listLine (kept, listed, omitted) counts =
    (let zero = map fst (filter (\<lambda>(_, n). n = 0) counts); room = kMaximumReportedUncoveredLines - listed
     in (kept @ take room zero, listed + length (take room zero), omitted + (length zero - room)))"
  using assms
proof (induction counts arbitrary: kept listed omitted)
  case (Cons c counts)
  obtain line n where c: "c = (line, n)" by fastforce
  show ?case
  proof (cases "n = 0")
    case True
    show ?thesis
    proof (cases "listed < kMaximumReportedUncoveredLines")
      case room: True
      then have "foldl listLine (kept @ [line], Suc listed, omitted) counts =
          (let zero = map fst (filter (\<lambda>(_, n). n = 0) counts);
               room = kMaximumReportedUncoveredLines - Suc listed
           in ((kept @ [line]) @ take room zero, Suc listed + length (take room zero),
               omitted + (length zero - room)))"
        by (intro Cons.IH) simp
      moreover obtain r where "kMaximumReportedUncoveredLines - listed = Suc r"
          and "kMaximumReportedUncoveredLines - Suc listed = r"
        using room by (metis Suc_diff_Suc)
      ultimately show ?thesis using room True c by (simp add: listLine_def Let_def)
    next
      case False
      with Cons.IH [of listed kept "Suc omitted"] Cons.prems True c show ?thesis
        by (simp add: listLine_def Let_def)
    qed
  next
    case False
    with Cons.IH [of listed kept omitted] Cons.prems c show ?thesis
      by (simp add: listLine_def Let_def)
  qed
qed simp

lemma length_unexecuted: "length (unexecuted (path, f)) = length (filter (\<lambda>(_, n). n = 0) (cf_lineCounts f))"
  by (simp add: unexecuted_def)

lemma unexecuted_eq:
  "unexecuted (path, f) = map (Pair path) (map fst (filter (\<lambda>(_, n). n = 0) (cf_lineCounts f)))"
  by (auto simp: unexecuted_def)

lemma summarizeFile_lines:
  assumes "listed \<le> kMaximumReportedUncoveredLines"
  obtains s' where "summarizeFile tiers (s, listed) (path, f) =
      (s', listed + length (take (kMaximumReportedUncoveredLines - listed) (unexecuted (path, f))))"
    and "concat (map listed_lines (tc_files s')) = concat (map listed_lines (tc_files s)) @
      take (kMaximumReportedUncoveredLines - listed) (unexecuted (path, f))"
    and "tc_omittedUncoveredLines s' = tc_omittedUncoveredLines s +
      (length (unexecuted (path, f)) - (kMaximumReportedUncoveredLines - listed))"
    and "map fc_path (tc_files s') = map fc_path (tc_files s) @ [path]"
  by (rule that [of "fst (summarizeFile tiers (s, listed) (path, f))"])
    (simp_all add: summarizeFile_def foldl_listLine [OF assms] Let_def unexecuted_eq listed_lines_def take_map)

lemma foldl_summarizeFile:
  assumes "listed \<le> kMaximumReportedUncoveredLines"
  shows "\<exists>s' l'. foldl (summarizeFile tiers) (s, listed) fs = (s', l') \<and>
    concat (map listed_lines (tc_files s')) = concat (map listed_lines (tc_files s)) @
      take (kMaximumReportedUncoveredLines - listed) (concat (map unexecuted fs)) \<and>
    tc_omittedUncoveredLines s' = tc_omittedUncoveredLines s +
      (length (concat (map unexecuted fs)) - (kMaximumReportedUncoveredLines - listed)) \<and>
    map fc_path (tc_files s') = map fc_path (tc_files s) @ map fst fs"
  using assms
proof (induction fs arbitrary: s listed)
  case (Cons e fs)
  obtain path f where e: "e = (path, f)" by fastforce
  let ?u = "unexecuted (path, f)" and ?room = "kMaximumReportedUncoveredLines - listed"
  obtain s1 where s1: "summarizeFile tiers (s, listed) e = (s1, listed + length (take ?room ?u))"
    "concat (map listed_lines (tc_files s1)) = concat (map listed_lines (tc_files s)) @ take ?room ?u"
    "tc_omittedUncoveredLines s1 = tc_omittedUncoveredLines s + (length ?u - ?room)"
    "map fc_path (tc_files s1) = map fc_path (tc_files s) @ [path]"
    using summarizeFile_lines [OF Cons.prems, of tiers s path f] e by metis
  have "listed + length (take ?room ?u) \<le> kMaximumReportedUncoveredLines" using Cons.prems by simp
  from Cons.IH [OF this, of s1] obtain s' l' where step:
    "foldl (summarizeFile tiers) (s1, listed + length (take ?room ?u)) fs = (s', l')"
    "concat (map listed_lines (tc_files s')) = concat (map listed_lines (tc_files s1)) @
       take (kMaximumReportedUncoveredLines - (listed + length (take ?room ?u))) (concat (map unexecuted fs))"
    "tc_omittedUncoveredLines s' = tc_omittedUncoveredLines s1 + (length (concat (map unexecuted fs)) -
       (kMaximumReportedUncoveredLines - (listed + length (take ?room ?u))))"
    "map fc_path (tc_files s') = map fc_path (tc_files s1) @ map fst fs"
    by blast
  have room: "kMaximumReportedUncoveredLines - (listed + length (take ?room ?u)) = ?room - length ?u"
    by simp
  have "tc_omittedUncoveredLines s' = tc_omittedUncoveredLines s
      + (length (?u @ concat (map unexecuted fs)) - ?room)"
    unfolding step(3) room s1(3) length_append by arith
  then show ?case
    using step(1,2,4) s1 e unfolding room by (intro exI [of _ s'] exI [of _ l']) simp
qed simp

text \<open>
  The summary never shortens the uncovered set silently: the lines it lists, file by file, are
  the first four thousand uncovered lines of the export in path and line order, and the number it
  states as omitted is exactly the number of the others.
\<close>

theorem summary_accounts_for_uncovered_lines:
  "\<exists>s. summarizeCoverage coverage tiers = Inr s \<and>
     map fc_path (tc_files s) = map fst (ce_files coverage) \<and>
     concat (map listed_lines (tc_files s)) =
       take kMaximumReportedUncoveredLines (concat (map unexecuted (ce_files coverage))) \<and>
     length (concat (map listed_lines (tc_files s))) + tc_omittedUncoveredLines s =
       length (concat (map unexecuted (ce_files coverage)))"
proof -
  let ?s0 = "\<lparr>tc_totals = \<lparr>cs_lines = no_counts, cs_branches = no_counts, cs_regions = no_counts,
       cs_mcdc = no_counts\<rparr>, tc_files = [], tc_omittedUncoveredLines = 0,
     tc_droppedForeignFiles = ce_droppedForeignFiles coverage\<rparr>"
  obtain s' l' where "foldl (summarizeFile tiers) (?s0, 0) (ce_files coverage) = (s', l')"
    "concat (map listed_lines (tc_files s')) =
       take kMaximumReportedUncoveredLines (concat (map unexecuted (ce_files coverage)))"
    "tc_omittedUncoveredLines s' =
       length (concat (map unexecuted (ce_files coverage))) - kMaximumReportedUncoveredLines"
    "map fc_path (tc_files s') = map fst (ce_files coverage)"
    using foldl_summarizeFile [of 0 tiers ?s0 "ce_files coverage"] by auto
  then show ?thesis by (simp add: summarizeCoverage_def)
qed

end
