(* ===== verification/Verify_Requirements.thy ===== *)
theory Verify_Requirements
  imports Verify_Json
begin

text \<open>
  \<open>tools/rf_verify/src/requirements.{h,cpp}\<close>: the inventory of acceptance criteria and the report
  that binds each of them to the tests that recorded it.
\<close>

section \<open>The inventory\<close>

datatype DischargeKind = Automated | Manual | Lane

record DeclaredCriterion =
  dc_id :: string
  dc_text :: string
  dc_discharge :: DischargeKind
  dc_procedure :: string
  dc_dischargedBy :: string
  dc_ctestCases :: "string list"

record CriterionBinding =
  cb_criterionId :: string
  cb_tests :: "string list"

record RequirementsReport =
  rq_bound :: "CriterionBinding list"
  rq_unbound :: "DeclaredCriterion list"
  rq_manual :: "DeclaredCriterion list"
  rq_lane :: "DeclaredCriterion list"
  rq_undeclared :: "CriterionBinding list"
  rq_testsRead :: nat
  rq_bindingsRead :: nat
  rq_findings :: "VerifyFinding list"

definition kRequirementKey :: string where "kRequirementKey = ''requirement''"

definition is_blank :: "char \<Rightarrow> bool" where
  "is_blank c \<longleftrightarrow> c = CHR '' '' \<or> c = CHR 0x09"

definition trimCriterion :: "string \<Rightarrow> string" where
  "trimCriterion s = rev (dropWhile is_blank (rev (dropWhile is_blank s)))"

definition splitCriteria :: "string \<Rightarrow> string list" where
  "splitCriteria s = filter (\<lambda>part. part \<noteq> []) (map trimCriterion (pieces_from (CHR '','') s 0))"

definition readCtestCase :: "string \<Rightarrow> string \<Rightarrow> JsonNode \<Rightarrow> string VResult" where
  "readCtestCase path cid element =
     (case element of
        JString t \<Rightarrow>
          if t = [] then verifyReject VfInvalidJson path
            (''a criterion's ctestCases must each name one case: '' @ cid)
          else Inr t
      | _ \<Rightarrow> verifyReject VfInvalidJson path (''a criterion's ctestCases must each name one case: '' @ cid))"

definition readLaneCases :: "string \<Rightarrow> string \<Rightarrow> JsonNode \<Rightarrow> string list VResult" where
  "readLaneCases path cid entry =
     (case findMember entry ''ctestCases'' of
        None \<Rightarrow> Inr []
      | Some cases \<Rightarrow>
          if \<not> isArray cases
          then verifyReject VfInvalidJson path (''a criterion's ctestCases must be an array: '' @ cid)
          else rmap (readCtestCase path cid) (node_elements cases))"

definition readCriterion :: "string \<Rightarrow> DeclaredCriterion list \<Rightarrow> JsonNode \<Rightarrow> DeclaredCriterion list VResult" where
  "readCriterion path declared entry =
     (case (findString entry ''id'', findString entry ''text'', findString entry ''discharge'') of
        (Some cid, Some t, Some discharge) \<Rightarrow>
          if \<not> contains_char cid (CHR '':'')
          then verifyReject VfInvalidJson path (''a criterion identifier must be <DOC-ID>:<criterion>: '' @ cid)
          else if cid \<in> dc_id ` set declared
          then verifyReject VfInvalidJson path (''the inventory declares one criterion twice: '' @ cid)
          else let criterion = \<lparr>dc_id = cid, dc_text = t, dc_discharge = Automated, dc_procedure = [],
                 dc_dischargedBy = [], dc_ctestCases = []\<rparr>
          in if discharge = ''automated'' then Inr (declared @ [criterion])
          else if discharge = ''manual''
          then (case findString entry ''procedure'' of
                  Some procedure \<Rightarrow>
                    if procedure = [] then verifyReject VfInvalidJson path
                      (''a manually discharged criterion must name the procedure that discharges it: '' @ cid)
                    else Inr (declared @ [criterion\<lparr>dc_discharge := Manual, dc_procedure := procedure\<rparr>])
                | None \<Rightarrow> verifyReject VfInvalidJson path
                      (''a manually discharged criterion must name the procedure that discharges it: '' @ cid))
          else if discharge = ''lane''
          then (case findString entry ''dischargedBy'' of
                  Some dischargedBy \<Rightarrow>
                    if dischargedBy = [] then verifyReject VfInvalidJson path
                      (''a lane-discharged criterion must name what discharges it: '' @ cid)
                    else rbind (readLaneCases path cid entry) (\<lambda>cases.
                      Inr (declared @ [criterion\<lparr>dc_discharge := Lane, dc_dischargedBy := dischargedBy,
                                                 dc_ctestCases := cases\<rparr>]))
                | None \<Rightarrow> verifyReject VfInvalidJson path
                      (''a lane-discharged criterion must name what discharges it: '' @ cid))
          else verifyReject VfInvalidJson path
            (''a criterion discharge must be automated, manual, or lane: '' @ discharge)
      | _ \<Rightarrow> verifyReject VfInvalidJson path ''a criterion needs an id, text, and discharge'')"

definition readCriteriaInventory :: "(string \<Rightarrow> sj_document) \<Rightarrow> VerifyFiles \<Rightarrow> string
    \<Rightarrow> DeclaredCriterion list VResult" where
  "readCriteriaInventory iterate fs path =
     rbind (readJsonFile iterate fs path) (\<lambda>document.
       case findArray document ''criteria'' of
         None \<Rightarrow> verifyReject VfInvalidJson path ''the inventory has no criteria array''
       | Some criteria \<Rightarrow> rfold (readCriterion path) [] criteria)"

section \<open>The report\<close>

record Collected =
  co_bindings :: "(string, string list) omap"
  co_testsRead :: nat
  co_bindingsRead :: nat

definition bindCriterion :: "string \<Rightarrow> Collected \<Rightarrow> string \<Rightarrow> Collected" where
  "bindCriterion kTestName c criterion =
     c\<lparr>co_bindings := omap_insert criterion kTestName (co_bindings c),
       co_bindingsRead := co_bindingsRead c + 1\<rparr>"

definition collectCase :: "Collected \<Rightarrow> JsonNode \<Rightarrow> Collected VResult" where
  "collectCase c testCase =
     (if \<not> isObject testCase then verifyReject VfInvalidJson [] ''a test case entry is not an object''
      else let c = c\<lparr>co_testsRead := co_testsRead c + 1\<rparr>
      in case findMember testCase kRequirementKey of
        None \<Rightarrow> Inr c
      | Some (JString requirement) \<Rightarrow>
          (case (findString testCase ''classname'', findString testCase ''name'') of
             (Some suiteName, Some caseName) \<Rightarrow>
               let kTestName = suiteName @ ''.'' @ caseName
               in Inr (foldl (bindCriterion kTestName) c (splitCriteria requirement))
           | _ \<Rightarrow> verifyReject VfInvalidJson [] ''a test case entry has no name'')
      | Some _ \<Rightarrow> verifyReject VfInvalidJson [] ''a recorded requirement property is not a string'')"

definition collectFromSuite :: "Collected \<Rightarrow> JsonNode \<Rightarrow> Collected VResult" where
  "collectFromSuite c suite =
     (case findArray suite ''testsuite'' of
        None \<Rightarrow> Inr c
      | Some cases \<Rightarrow> rfold collectCase c cases)"

definition collectReport :: "(string \<Rightarrow> sj_document) \<Rightarrow> VerifyFiles \<Rightarrow> Collected \<Rightarrow> string \<Rightarrow> Collected VResult" where
  "collectReport iterate fs c path =
     rbind (readJsonFile iterate fs path) (\<lambda>document.
       case findArray document ''testsuites'' of
         None \<Rightarrow> verifyReject VfInvalidJson path ''the document is not a GoogleTest report''
       | Some suites \<Rightarrow> rfold (\<lambda>c suite. at_path path (collectFromSuite c suite)) c suites)"

definition sortCriterion :: "(string, string list) omap \<Rightarrow> RequirementsReport \<Rightarrow> DeclaredCriterion
    \<Rightarrow> RequirementsReport" where
  "sortCriterion bindings report criterion =
     (case map_of bindings (dc_id criterion) of
        Some kTests \<Rightarrow> report\<lparr>rq_bound := rq_bound report @
          [\<lparr>cb_criterionId = dc_id criterion, cb_tests = kTests\<rparr>]\<rparr>
      | None \<Rightarrow>
          if dc_discharge criterion = Manual then report\<lparr>rq_manual := rq_manual report @ [criterion]\<rparr>
          else if dc_discharge criterion = Lane then report\<lparr>rq_lane := rq_lane report @ [criterion]\<rparr>
          else report\<lparr>rq_unbound := rq_unbound report @ [criterion]\<rparr>)"

definition reportUndeclared :: "string set \<Rightarrow> RequirementsReport \<Rightarrow> string \<times> string list \<Rightarrow> RequirementsReport" where
  "reportUndeclared declaredIds report = (\<lambda>(criterionId, tests).
     if criterionId \<in> declaredIds then report
     else report\<lparr>rq_findings := rq_findings report @ [verifyFinding kRuleUndeclaredCriterion (hd tests)
              (''a test binds a criterion the inventory does not declare: '' @ criterionId)],
            rq_undeclared := rq_undeclared report @ [\<lparr>cb_criterionId = criterionId, cb_tests = tests\<rparr>]\<rparr>)"

definition newReport :: "Collected \<Rightarrow> RequirementsReport" where
  "newReport collected = \<lparr>rq_bound = [], rq_unbound = [], rq_manual = [], rq_lane = [], rq_undeclared = [],
     rq_testsRead = co_testsRead collected, rq_bindingsRead = co_bindingsRead collected, rq_findings = []\<rparr>"

definition buildRequirementsReport :: "(string \<Rightarrow> sj_document) \<Rightarrow> VerifyFiles \<Rightarrow> DeclaredCriterion list
    \<Rightarrow> string list \<Rightarrow> RequirementsReport VResult" where
  "buildRequirementsReport iterate fs declared testReports =
     (if testReports = []
      then verifyReject VfInvalidArguments [] ''a requirements report needs at least one test report''
      else rbind (rfold (collectReport iterate fs)
             \<lparr>co_bindings = [], co_testsRead = 0, co_bindingsRead = 0\<rparr> testReports) (\<lambda>collected.
        let report = foldl (sortCriterion (co_bindings collected)) (newReport collected) declared
        in Inr (foldl (reportUndeclared (dc_id ` set declared)) report (co_bindings collected))))"

section \<open>What the tests recorded\<close>

text \<open>The tests of a report that record a criterion, read off the documents.\<close>

definition case_records :: "JsonNode \<Rightarrow> string \<Rightarrow> string set" where
  "case_records testCase criterion =
     {suiteName @ ''.'' @ caseName | suiteName caseName requirement.
        findMember testCase kRequirementKey = Some (JString requirement) \<and>
        criterion \<in> set (splitCriteria requirement) \<and>
        findString testCase ''classname'' = Some suiteName \<and> findString testCase ''name'' = Some caseName}"

definition recorded :: "JsonNode list \<Rightarrow> string \<Rightarrow> string set" where
  "recorded documents criterion =
     (\<Union>document\<in>set documents. \<Union>suite\<in>set (case findArray document ''testsuites'' of None \<Rightarrow> [] | Some s \<Rightarrow> s).
        \<Union>testCase\<in>set (case findArray suite ''testsuite'' of None \<Rightarrow> [] | Some c \<Rightarrow> c).
          case_records testCase criterion)"

definition union_records :: "(string \<Rightarrow> string set) \<Rightarrow> (string \<Rightarrow> string set) \<Rightarrow> string \<Rightarrow> string set" where
  "union_records M N c = M c \<union> N c"

lemma foldl_bind_criteria:
  assumes "represents (co_bindings c) M"
  shows "represents (co_bindings (foldl (bindCriterion t) c cs)) (\<lambda>k. M k \<union> (if k \<in> set cs then {t} else {}))"
  using assms
proof (induction cs arbitrary: c M)
  case (Cons k cs)
  have "represents (co_bindings (bindCriterion t c k)) (M(k := insert t (M k)))"
    using represents_insert [OF Cons.prems, of k t] by (simp add: bindCriterion_def)
  from Cons.IH [OF this] show ?case
    unfolding foldl_Cons by (rule back_subst [where P = "represents _"]) (auto simp: fun_eq_iff)
qed simp

lemma collectCase_represents:
  assumes "collectCase c testCase = Inr c'" and "represents (co_bindings c) M"
  shows "represents (co_bindings c') (union_records M (case_records testCase))"
proof (cases "findMember testCase kRequirementKey")
  case None
  with assms show ?thesis
    by (auto simp: collectCase_def case_records_def union_records_def [abs_def] split: if_splits)
next
  case (Some node)
  with assms(1) obtain requirement suiteName caseName where
    r: "node = JString requirement" "findString testCase ''classname'' = Some suiteName"
      "findString testCase ''name'' = Some caseName" and
    c': "c' = foldl (bindCriterion (suiteName @ ''.'' @ caseName))
        (c\<lparr>co_testsRead := co_testsRead c + 1\<rparr>) (splitCriteria requirement)"
    by (auto simp: collectCase_def Let_def split: if_splits JsonNode.splits option.splits)
  have "represents (co_bindings (c\<lparr>co_testsRead := co_testsRead c + 1\<rparr>)) M" using assms(2) by simp
  from foldl_bind_criteria [OF this, of "suiteName @ ''.'' @ caseName" "splitCriteria requirement"]
  show ?thesis
    unfolding c' using Some r
    by (elim back_subst [where P = "represents _"])
      (auto simp: fun_eq_iff union_records_def case_records_def)
qed

text \<open>A fold that unions in what each element contributes.\<close>

lemma rfold_represents:
  assumes "rfold f c xs = Inr c'" and "represents (co_bindings c) M"
    and "\<And>c x c' M. x \<in> set xs \<Longrightarrow> f c x = Inr c' \<Longrightarrow> represents (co_bindings c) M \<Longrightarrow>
      represents (co_bindings c') (union_records M (N x))"
  shows "represents (co_bindings c') (union_records M (\<lambda>k. \<Union>x\<in>set xs. N x k))"
  using assms
proof (induction xs arbitrary: c M)
  case Nil
  then show ?case by (simp add: union_records_def [abs_def])
next
  case (Cons x xs)
  from Cons.prems(1) obtain c1 where c1: "f c x = Inr c1" and rest: "rfold f c1 xs = Inr c'" by auto
  have "represents (co_bindings c1) (union_records M (N x))"
    by (rule Cons.prems(3)) (use c1 Cons.prems(2) in auto)
  from Cons.IH [OF rest this] Cons.prems(3)
  have "represents (co_bindings c') (union_records (union_records M (N x)) (\<lambda>k. \<Union>x\<in>set xs. N x k))"
    by auto
  then show ?case
    by (rule back_subst [where P = "represents _"]) (auto simp: fun_eq_iff union_records_def)
qed

definition suite_records :: "JsonNode \<Rightarrow> string \<Rightarrow> string set" where
  "suite_records suite k =
     (\<Union>testCase\<in>set (case findArray suite ''testsuite'' of None \<Rightarrow> [] | Some c \<Rightarrow> c). case_records testCase k)"

lemma collectFromSuite_represents:
  assumes "collectFromSuite c suite = Inr c'" and "represents (co_bindings c) M"
  shows "represents (co_bindings c') (union_records M (suite_records suite))"
proof (cases "findArray suite ''testsuite''")
  case None
  with assms show ?thesis
    by (auto simp: collectFromSuite_def suite_records_def [abs_def] union_records_def [abs_def])
next
  case (Some cases)
  with assms(1) have "rfold collectCase c cases = Inr c'" by (simp add: collectFromSuite_def)
  from rfold_represents [where N = case_records, OF this assms(2)] collectCase_represents Some
  show ?thesis by (auto simp: suite_records_def [abs_def])
qed

definition document_records :: "JsonNode \<Rightarrow> string \<Rightarrow> string set" where
  "document_records document k =
     (\<Union>suite\<in>set (case findArray document ''testsuites'' of None \<Rightarrow> [] | Some s \<Rightarrow> s). suite_records suite k)"

lemma collectReport_represents:
  assumes "collectReport iterate fs c path = Inr c'" and "represents (co_bindings c) M"
    and "readJsonFile iterate fs path = Inr document"
  shows "represents (co_bindings c') (union_records M (document_records document))"
proof -
  from assms(1,3) obtain suites where s: "findArray document ''testsuites'' = Some suites"
    and "rfold (\<lambda>c suite. at_path path (collectFromSuite c suite)) c suites = Inr c'"
    by (auto simp: collectReport_def split: option.splits)
  from rfold_represents [where N = suite_records, OF this(2) assms(2)] collectFromSuite_represents s
  show ?thesis by (auto simp: document_records_def [abs_def])
qed

lemma recorded_documents: "recorded documents k = (\<Union>d\<in>set documents. document_records d k)"
  by (simp add: recorded_def document_records_def suite_records_def)

lemma collectReports_represents:
  assumes "rfold (collectReport iterate fs) c paths = Inr c'" and "represents (co_bindings c) M"
    and "rmap (readJsonFile iterate fs) paths = Inr documents"
  shows "represents (co_bindings c') (union_records M (recorded documents))"
  using assms
proof (induction paths arbitrary: c M documents)
  case Nil
  then show ?case by (simp add: recorded_def [abs_def] union_records_def [abs_def])
next
  case (Cons path paths)
  from Cons.prems(3) obtain d ds where d: "readJsonFile iterate fs path = Inr d"
    and ds: "rmap (readJsonFile iterate fs) paths = Inr ds" and documents: "documents = d # ds" by auto
  from Cons.prems(1) obtain c1 where "collectReport iterate fs c path = Inr c1"
    and rest: "rfold (collectReport iterate fs) c1 paths = Inr c'" by auto
  from collectReport_represents [OF this(1) Cons.prems(2) d]
  have "represents (co_bindings c1) (union_records M (document_records d))" .
  from Cons.IH [OF rest this ds] show ?case
    unfolding documents
    by (rule back_subst [where P = "represents _"]) (auto simp: fun_eq_iff union_records_def recorded_documents)
qed

section \<open>Every criterion is accounted for\<close>

lemma foldl_sortCriterion:
  "foldl (sortCriterion b) r ds = r\<lparr>
     rq_bound := rq_bound r @ map (\<lambda>d. \<lparr>cb_criterionId = dc_id d, cb_tests = the (map_of b (dc_id d))\<rparr>)
       (filter (\<lambda>d. map_of b (dc_id d) \<noteq> None) ds),
     rq_unbound := rq_unbound r @ filter (\<lambda>d. map_of b (dc_id d) = None \<and> dc_discharge d = Automated) ds,
     rq_manual := rq_manual r @ filter (\<lambda>d. map_of b (dc_id d) = None \<and> dc_discharge d = Manual) ds,
     rq_lane := rq_lane r @ filter (\<lambda>d. map_of b (dc_id d) = None \<and> dc_discharge d = Lane) ds\<rparr>"
proof (induction ds arbitrary: r)
  case (Cons d ds)
  show ?case
    unfolding foldl_Cons Cons.IH
    by (cases "map_of b (dc_id d)"; cases "dc_discharge d") (simp_all add: sortCriterion_def)
qed simp

lemma foldl_reportUndeclared:
  "rq_undeclared (foldl (reportUndeclared ids) r b) = rq_undeclared r @
     map (\<lambda>(k, ts). \<lparr>cb_criterionId = k, cb_tests = ts\<rparr>) (filter (\<lambda>(k, _). k \<notin> ids) b) \<and>
   length (rq_findings (foldl (reportUndeclared ids) r b)) =
     length (rq_findings r) + length (filter (\<lambda>(k, _). k \<notin> ids) b) \<and>
   rq_bound (foldl (reportUndeclared ids) r b) = rq_bound r \<and>
   rq_unbound (foldl (reportUndeclared ids) r b) = rq_unbound r \<and>
   rq_manual (foldl (reportUndeclared ids) r b) = rq_manual r \<and>
   rq_lane (foldl (reportUndeclared ids) r b) = rq_lane r"
  by (induction b arbitrary: r) (auto simp: reportUndeclared_def)

text \<open>What a report must say, given what the tests recorded.\<close>

definition report_accounts :: "(string \<Rightarrow> string set) \<Rightarrow> DeclaredCriterion list \<Rightarrow> RequirementsReport \<Rightarrow> bool" where
  "report_accounts M declared r \<longleftrightarrow>
     rq_bound r = map (\<lambda>d. \<lparr>cb_criterionId = dc_id d, cb_tests = sorted_list_of_set (M (dc_id d))\<rparr>)
       (filter (\<lambda>d. M (dc_id d) \<noteq> {}) declared) \<and>
     rq_unbound r = filter (\<lambda>d. M (dc_id d) = {} \<and> dc_discharge d = Automated) declared \<and>
     rq_manual r = filter (\<lambda>d. M (dc_id d) = {} \<and> dc_discharge d = Manual) declared \<and>
     rq_lane r = filter (\<lambda>d. M (dc_id d) = {} \<and> dc_discharge d = Lane) declared \<and>
     map cb_criterionId (rq_undeclared r) = sorted_list_of_set ({k. M k \<noteq> {}} - dc_id ` set declared) \<and>
     length (rq_findings r) = length (rq_undeclared r)"

lemma represents_undeclared:
  assumes "represents b M"
  shows "map fst (filter (\<lambda>(k, _). k \<notin> ids) b) = sorted_list_of_set ({k. M k \<noteq> {}} - ids)"
proof -
  have "map fst (filter (\<lambda>(k, _). k \<notin> ids) b) = filter (\<lambda>k. k \<notin> ids) (map fst b)"
    by (simp add: filter_map comp_def case_prod_unfold)
  moreover have "filter (\<lambda>k. k \<notin> ids) (map fst b) = sorted_list_of_set ({k. M k \<noteq> {}} - ids)"
  proof (rule strict_sorted_equal)
    have keys: "{k. M k \<noteq> {}} = set (map fst b)" using represents_keys(1) [OF assms] by simp
    show "set (filter (\<lambda>k. k \<notin> ids) (map fst b)) = set (sorted_list_of_set ({k. M k \<noteq> {}} - ids))"
      unfolding keys by auto
    show "sorted_wrt (<) (filter (\<lambda>k. k \<notin> ids) (map fst b))"
      using assms by (intro sorted_wrt_filter) (simp add: represents_def omap_ok_def)
  qed simp
  ultimately show ?thesis by simp
qed

text \<open>
  C25. A requirements report accounts for every declared criterion and every recorded binding:
  a criterion some test recorded is bound to exactly the tests that recorded it, each once and
  sorted; the others appear once under how they are discharged; and a criterion recorded but
  not declared is listed once and is a finding.
\<close>

theorem requirements_report_accounts:
  assumes "buildRequirementsReport iterate fs declared testReports = Inr report"
    and "rmap (readJsonFile iterate fs) testReports = Inr documents"
  shows "report_accounts (recorded documents) declared report"
proof -
  let ?start = "\<lparr>co_bindings = [], co_testsRead = 0, co_bindingsRead = 0\<rparr>"
  obtain c where c: "rfold (collectReport iterate fs) ?start testReports = Inr c"
    and r: "report = foldl (reportUndeclared (dc_id ` set declared))
      (foldl (sortCriterion (co_bindings c)) (newReport c) declared) (co_bindings c)"
    using assms(1) by (auto simp: buildRequirementsReport_def Let_def split: if_splits)
  have "represents (co_bindings ?start) (\<lambda>_. {})" by simp
  from collectReports_represents [OF c this assms(2)]
  have rep: "represents (co_bindings c) (recorded documents)"
    by (simp add: union_records_def [abs_def])
  then have lookup: "map_of (co_bindings c) k = None \<longleftrightarrow> recorded documents k = {}"
    "recorded documents k \<noteq> {} \<Longrightarrow> the (map_of (co_bindings c) k) = sorted_list_of_set (recorded documents k)"
    for k by (simp_all add: represents_def)
  show ?thesis
    unfolding report_accounts_def r
    using represents_undeclared [OF rep, of "dc_id ` set declared"]
    by (simp add: newReport_def foldl_reportUndeclared foldl_sortCriterion lookup comp_def case_prod_unfold
        cong: filter_cong map_cong)
qed

text \<open>One criterion bound by a test, one that only a lane step discharges, and one undeclared.\<close>

definition demo_test_report :: sj_value where
  "demo_test_report = SjObject [SjField ''testsuites'' (SjArray [SjElement (SjObject
     [SjField ''testsuite'' (SjArray [SjElement (SjObject
       [SjField ''classname'' (SjString ''S''), SjField ''name'' (SjString ''T''),
        SjField ''requirement'' (SjString ''D:1, D:9'')])])])])]"

definition demo_criteria :: "DeclaredCriterion list" where
  "demo_criteria =
     [\<lparr>dc_id = ''D:1'', dc_text = [], dc_discharge = Automated, dc_procedure = [], dc_dischargedBy = [],
       dc_ctestCases = []\<rparr>,
      \<lparr>dc_id = ''D:2'', dc_text = [], dc_discharge = Lane, dc_procedure = [], dc_dischargedBy = ''probe'',
       dc_ctestCases = []\<rparr>]"

definition demo_case :: JsonNode where
  "demo_case = JObject [(''classname'', JString ''S''), (''name'', JString ''T''),
     (''requirement'', JString ''D:1, D:9'')]"

definition demo_test_document :: JsonNode where
  "demo_test_document = JObject [(''testsuites'', JArray [JObject [(''testsuite'', JArray [demo_case])]])]"

lemma demo_test_read:
  "readJsonFile (\<lambda>_. SjDocument demo_test_report True) demo_files ''t.json'' = Inr demo_test_document"
  by (simp add: readJsonFile_def readFileBytes_def demo_files_def parseJson_def demo_test_report_def
      demo_test_document_def demo_case_def kMaximumJsonDepth_def kMaximumJsonNodes_def kMaximumJsonBytes_def)

lemma demo_split: "splitCriteria ''D:1, D:9'' = [''D:1'', ''D:9'']"
  by (simp add: splitCriteria_def pieces_from_start trimCriterion_def is_blank_def)

lemma demo_built:
  "is_ok (buildRequirementsReport (\<lambda>_. SjDocument demo_test_report True) demo_files demo_criteria [''t.json''])"
  by (simp add: buildRequirementsReport_def collectReport_def demo_test_read demo_test_document_def
      findArray_def findMember_def collectFromSuite_def collectCase_def demo_case_def kRequirementKey_def
      findString_def Let_def)

lemma requirements_report_accounts_witness:
  "\<exists>report. buildRequirementsReport (\<lambda>_. SjDocument demo_test_report True) demo_files demo_criteria [''t.json'']
      = Inr report \<and> report_accounts (recorded [demo_test_document]) demo_criteria report \<and>
    recorded [demo_test_document] ''D:9'' = {''S.T''}"
proof -
  obtain report where "buildRequirementsReport (\<lambda>_. SjDocument demo_test_report True) demo_files
      demo_criteria [''t.json''] = Inr report"
    using demo_built by (auto simp: is_ok_iff)
  moreover from this have "report_accounts (recorded [demo_test_document]) demo_criteria report"
    by (rule requirements_report_accounts) (simp add: demo_test_read)
  moreover have "recorded [demo_test_document] ''D:9'' = {''S.T''}"
    by (simp add: recorded_def demo_test_document_def findArray_def findMember_def case_records_def
        demo_case_def findString_def kRequirementKey_def demo_split)
  ultimately show ?thesis by blast
qed

end
