(* ===== verification/Verify_Report.thy ===== *)
theory Verify_Report
  imports Verify_Floors Verify_Requirements
begin

text \<open>
  \<open>tools/rf_verify/src/report_writer.{h,cpp}\<close>: the writer every report goes through.  Its state
  decides where commas, line breaks and indentation go; \<open>pretty\<close> is the layout it is meant to
  produce, and the lemmas below show that driving the writer over a tree produces it.
\<close>

section \<open>The writer\<close>

record JsonWriter =
  jw_output :: string
  jw_depth :: nat
  jw_needsComma :: bool
  jw_afterKey :: bool

definition newWriter :: JsonWriter where
  "newWriter = \<lparr>jw_output = [], jw_depth = 0, jw_needsComma = False, jw_afterKey = False\<rparr>"

definition escapedChar :: "char \<Rightarrow> string" where
  "escapedChar kCharacter =
     (if kCharacter = CHR 0x22 then [CHR 0x5C, CHR 0x22]
      else if kCharacter = CHR 0x5C then [CHR 0x5C, CHR 0x5C]
      else if kCharacter = CHR 0x0A then [CHR 0x5C, CHR ''n'']
      else if kCharacter = CHR 0x0D then [CHR 0x5C, CHR ''r'']
      else if kCharacter = CHR 0x09 then [CHR 0x5C, CHR ''t'']
      else if (of_char kCharacter :: nat) < 0x20
      then CHR 0x5C # ''u00'' @ [hex_char (of_char kCharacter div 16), hex_char (of_char kCharacter mod 16)]
      else [kCharacter])"

definition appendEscaped :: "string \<Rightarrow> string" where
  "appendEscaped s = CHR 0x22 # concat (map escapedChar s) @ [CHR 0x22]"

definition put :: "string \<Rightarrow> JsonWriter \<Rightarrow> JsonWriter" where
  "put s w = w\<lparr>jw_output := jw_output w @ s\<rparr>"

definition layout_indent :: "nat \<Rightarrow> string" where
  "layout_indent depth = concat (replicate depth ''  '')"

definition writerIndent :: "JsonWriter \<Rightarrow> JsonWriter" where
  "writerIndent w = put (layout_indent (jw_depth w)) w"

definition writerSeparate :: "JsonWriter \<Rightarrow> JsonWriter" where
  "writerSeparate w =
     (if jw_afterKey w then w\<lparr>jw_afterKey := False\<rparr>
      else writerIndent (if jw_needsComma w then put ('','' @ [CHR 0x0A]) w
                         else if 0 < jw_depth w then put [CHR 0x0A] w else w))"

definition beginWith :: "string \<Rightarrow> JsonWriter \<Rightarrow> JsonWriter" where
  "beginWith bracket w =
     (let w = put bracket (writerSeparate w) in w\<lparr>jw_depth := jw_depth w + 1, jw_needsComma := False\<rparr>)"

definition endWith :: "string \<Rightarrow> JsonWriter \<Rightarrow> JsonWriter" where
  "endWith bracket w =
     (let w = w\<lparr>jw_depth := jw_depth w - 1\<rparr>;
          w = (if jw_needsComma w then writerIndent (put [CHR 0x0A] w) else w)
      in (put bracket w)\<lparr>jw_needsComma := True\<rparr>)"

definition beginObject :: "JsonWriter \<Rightarrow> JsonWriter" where "beginObject = beginWith ''{''"
definition endObject :: "JsonWriter \<Rightarrow> JsonWriter" where "endObject = endWith ''}''"
definition beginArray :: "JsonWriter \<Rightarrow> JsonWriter" where "beginArray = beginWith ''[''"
definition endArray :: "JsonWriter \<Rightarrow> JsonWriter" where "endArray = endWith '']''"

definition writeKey :: "string \<Rightarrow> JsonWriter \<Rightarrow> JsonWriter" where
  "writeKey name w =
     (put '': '' (put (appendEscaped name) (writerSeparate w)))\<lparr>jw_afterKey := True, jw_needsComma := False\<rparr>"

definition writeScalar :: "string \<Rightarrow> JsonWriter \<Rightarrow> JsonWriter" where
  "writeScalar s w = (put s (writerSeparate w))\<lparr>jw_needsComma := True\<rparr>"

definition writeString :: "string \<Rightarrow> JsonWriter \<Rightarrow> JsonWriter" where
  "writeString s = writeScalar (appendEscaped s)"
definition writeInteger :: "int \<Rightarrow> JsonWriter \<Rightarrow> JsonWriter" where
  "writeInteger n = writeScalar (int_to_string n)"
definition writeBoolean :: "bool \<Rightarrow> JsonWriter \<Rightarrow> JsonWriter" where
  "writeBoolean b = writeScalar (if b then ''true'' else ''false'')"

definition writeStringArray :: "string list \<Rightarrow> JsonWriter \<Rightarrow> JsonWriter" where
  "writeStringArray ss w = endArray (fold writeString ss (beginArray w))"
definition writeIntegerArray :: "nat list \<Rightarrow> JsonWriter \<Rightarrow> JsonWriter" where
  "writeIntegerArray ns w = endArray (fold (\<lambda>n. writeInteger (int n)) ns (beginArray w))"

definition memberString :: "string \<Rightarrow> string \<Rightarrow> JsonWriter \<Rightarrow> JsonWriter" where
  "memberString name s w = writeString s (writeKey name w)"
definition memberInteger :: "string \<Rightarrow> int \<Rightarrow> JsonWriter \<Rightarrow> JsonWriter" where
  "memberInteger name n w = writeInteger n (writeKey name w)"
definition memberBoolean :: "string \<Rightarrow> bool \<Rightarrow> JsonWriter \<Rightarrow> JsonWriter" where
  "memberBoolean name b w = writeBoolean b (writeKey name w)"

text \<open>
  What the file system answers to the three steps of writing a report: creating the directories,
  opening the file, and writing and flushing it.
\<close>

datatype WriteAnswer = DirectoryRefused | OpenRefused | WriteRefused | Written

definition writeReportFile :: "VerifyFiles \<Rightarrow> (string \<Rightarrow> string \<Rightarrow> WriteAnswer) \<Rightarrow> string \<Rightarrow> string \<Rightarrow> string
    \<Rightarrow> unit VResult" where
  "writeReportFile fs disk repositoryRoot destination contents =
     rbind (ensureWithinReportRoot fs repositoryRoot destination) (\<lambda>_.
       case disk (absoluteAgainst repositoryRoot destination) contents of
         DirectoryRefused \<Rightarrow> verifyReject VfIoFailure destination ''the report directory cannot be created''
       | OpenRefused \<Rightarrow> verifyReject VfIoFailure destination ''the report cannot be opened for writing''
       | WriteRefused \<Rightarrow> verifyReject VfIoFailure destination ''the report cannot be written''
       | Written \<Rightarrow> Inr ())"

section \<open>The layout it produces\<close>

datatype ReportTree =
    RText string
  | RNumber int
  | RFlag bool
  | RList "ReportTree list"
  | RRecord "(string \<times> ReportTree) list"

fun join_with :: "string \<Rightarrow> string list \<Rightarrow> string" where
  "join_with sep [] = []"
| "join_with sep [s] = s"
| "join_with sep (s # t # ts) = s @ sep @ join_with sep (t # ts)"

definition block :: "nat \<Rightarrow> string \<Rightarrow> string \<Rightarrow> string list \<Rightarrow> string" where
  "block depth open close entries =
     (if entries = [] then open @ close
      else open @ [CHR 0x0A] @ join_with ('','' @ [CHR 0x0A]) (map ((@) (layout_indent (depth + 1))) entries)
        @ [CHR 0x0A] @ layout_indent depth @ close)"

fun pretty :: "nat \<Rightarrow> ReportTree \<Rightarrow> string" where
  "pretty depth (RText s) = appendEscaped s"
| "pretty depth (RNumber n) = int_to_string n"
| "pretty depth (RFlag b) = (if b then ''true'' else ''false'')"
| "pretty depth (RList ts) = block depth ''['' '']'' (map (pretty (depth + 1)) ts)"
| "pretty depth (RRecord ms) =
     block depth ''{'' ''}'' (map (\<lambda>m. appendEscaped (fst m) @ '': '' @ pretty (depth + 1) (snd m)) ms)"

text \<open>Writing a tree with the writer's calls, in the order the commands make them.\<close>

fun write_tree :: "ReportTree \<Rightarrow> JsonWriter \<Rightarrow> JsonWriter" where
  "write_tree (RText s) w = writeString s w"
| "write_tree (RNumber n) w = writeInteger n w"
| "write_tree (RFlag b) w = writeBoolean b w"
| "write_tree (RList ts) w = endArray (fold (\<lambda>t w. write_tree t w) ts (beginArray w))"
| "write_tree (RRecord ms) w =
     endObject (fold (\<lambda>m w. write_tree (snd m) (writeKey (fst m) w)) ms (beginObject w))"

text \<open>What \<open>separate\<close> puts before the next value.\<close>

definition separation :: "JsonWriter \<Rightarrow> string" where
  "separation w =
     (if jw_afterKey w then []
      else (if jw_needsComma w then '','' @ [CHR 0x0A] else if 0 < jw_depth w then [CHR 0x0A] else [])
        @ layout_indent (jw_depth w))"

definition wrote :: "JsonWriter \<Rightarrow> string \<Rightarrow> JsonWriter" where
  "wrote w s = \<lparr>jw_output = jw_output w @ separation w @ s, jw_depth = jw_depth w,
     jw_needsComma = True, jw_afterKey = False\<rparr>"

lemma writerSeparate_eq:
  "writerSeparate w = w\<lparr>jw_output := jw_output w @ separation w, jw_afterKey := False\<rparr>"
  by (simp add: writerSeparate_def writerIndent_def put_def separation_def)

lemma writeScalar_wrote: "writeScalar s w = wrote w s"
  by (simp add: writeScalar_def writerSeparate_eq put_def wrote_def)

text \<open>
  The entries of a block: each is written after its separation, so the entries come out joined
  with commas and line breaks, at the depth of the block.
\<close>

definition in_block :: "JsonWriter \<Rightarrow> string \<Rightarrow> string list \<Rightarrow> JsonWriter" where
  "in_block w out entries = \<lparr>jw_output = out @
       (if entries = [] then [] else [CHR 0x0A] @
          join_with ('','' @ [CHR 0x0A]) (map ((@) (layout_indent (jw_depth w))) entries)),
     jw_depth = jw_depth w, jw_needsComma = (entries \<noteq> []), jw_afterKey = False\<rparr>"

lemma join_with_snoc:
  "join_with sep (ss @ [s]) = (if ss = [] then s else join_with sep ss @ sep @ s)"
  by (induction sep ss rule: join_with.induct) auto

lemma wrote_in_block:
  assumes "0 < jw_depth w"
  shows "wrote (in_block w out entries) s = in_block w out (entries @ [s])"
  using assms by (simp add: wrote_def in_block_def separation_def join_with_snoc)

lemma fold_in_block:
  assumes "0 < jw_depth w"
    and "\<And>x entries. x \<in> set xs \<Longrightarrow> f x (in_block w out entries) = in_block w out (entries @ [g x])"
  shows "fold f xs (in_block w out entries) = in_block w out (entries @ map g xs)"
  using assms(2) by (induction xs arbitrary: entries) auto

lemma beginWith_in_block:
  "beginWith bracket w = in_block (w\<lparr>jw_depth := jw_depth w + 1\<rparr>)
     (jw_output w @ separation w @ bracket) []"
  by (simp add: beginWith_def Let_def writerSeparate_eq put_def in_block_def)

lemma endWith_in_block:
  "endWith close (in_block (w\<lparr>jw_depth := jw_depth w + 1\<rparr>) (jw_output w @ separation w @ bracket) entries)
     = wrote w (block (jw_depth w) bracket close entries)"
  by (simp add: endWith_def in_block_def Let_def put_def writerIndent_def wrote_def block_def)

lemma writeKey_then:
  assumes "0 < jw_depth w"
    and "\<And>v. write v = wrote v (value_text (jw_depth v))"
  shows "write (writeKey name (in_block w out entries)) =
    in_block w out (entries @ [appendEscaped name @ '': '' @ value_text (jw_depth w)])"
proof -
  have "write (writeKey name (in_block w out entries)) =
      wrote (in_block w out entries) (appendEscaped name @ '': '' @ value_text (jw_depth w))"
    unfolding assms(2)
    by (simp add: wrote_def writeKey_def writerSeparate_eq put_def separation_def)
      (simp add: in_block_def)
  then show ?thesis by (simp add: wrote_in_block [OF assms(1)])
qed

lemma write_tree_wrote: "write_tree t w = wrote w (pretty (jw_depth w) t)"
proof (induction t arbitrary: w)
  case (RText s)
  then show ?case by (simp add: writeString_def writeScalar_wrote)
next
  case (RNumber n)
  then show ?case by (simp add: writeInteger_def writeScalar_wrote)
next
  case (RFlag b)
  then show ?case by (simp add: writeBoolean_def writeScalar_wrote)
next
  case (RList ts)
  let ?w = "w\<lparr>jw_depth := jw_depth w + 1\<rparr>" and ?out = "jw_output w @ separation w @ ''[''"
  have "fold (\<lambda>t w. write_tree t w) ts (in_block ?w ?out []) =
      in_block ?w ?out ([] @ map (pretty (jw_depth w + 1)) ts)"
  proof (rule fold_in_block)
    fix t entries assume "t \<in> set ts"
    from RList [OF this, of "in_block ?w ?out entries"]
    show "write_tree t (in_block ?w ?out entries) = in_block ?w ?out (entries @ [pretty (jw_depth w + 1) t])"
      using wrote_in_block [of ?w ?out entries] by (simp add: in_block_def)
  qed simp
  then show ?case
    using endWith_in_block [of "'']''" w "''[''" "map (pretty (jw_depth w + 1)) ts"]
    by (simp add: beginArray_def endArray_def beginWith_in_block)
next
  case (RRecord ms)
  let ?w = "w\<lparr>jw_depth := jw_depth w + 1\<rparr>" and ?out = "jw_output w @ separation w @ ''{''"
  let ?g = "\<lambda>m. appendEscaped (fst m) @ '': '' @ pretty (jw_depth w + 1) (snd m)"
  have "fold (\<lambda>m w. write_tree (snd m) (writeKey (fst m) w)) ms (in_block ?w ?out []) =
      in_block ?w ?out ([] @ map ?g ms)"
  proof (rule fold_in_block)
    fix m entries assume "m \<in> set ms"
    then have "write_tree (snd m) v = wrote v (pretty (jw_depth v) (snd m))" for v
      by (intro RRecord [of m]) (auto simp: snds.simps)
    from writeKey_then [of ?w "write_tree (snd m)" "\<lambda>d. pretty d (snd m)", OF _ this]
    show "write_tree (snd m) (writeKey (fst m) (in_block ?w ?out entries)) = in_block ?w ?out (entries @ [?g m])"
      by simp
  qed simp
  then show ?case
    using endWith_in_block [of "''}''" w "''{''" "map ?g ms"]
    by (simp add: beginObject_def endObject_def beginWith_in_block)
qed

end
