(* ===== verification/Verify_Command.thy ===== *)
theory Verify_Command
  imports Verify_Report
begin

text \<open>
  \<open>tools/rf_verify/src/command.{h,cpp}\<close>: the three operations of the tool, from its arguments to
  its exit code, and the documents they write.  What surrounds the tool is the record
  \<open>Surroundings\<close>: the JSON parser, the file system, and what writing a report answers.
\<close>

section \<open>Arguments\<close>

record Options =
  op_operation :: string
  op_repositoryRoot :: string
  op_coverageExports :: "string list"
  op_diff :: string
  op_criteria :: string
  op_testReports :: "string list"
  op_report :: string

record Surroundings =
  su_iterate :: "string \<Rightarrow> sj_document"
  su_files :: VerifyFiles
  su_disk :: "string \<Rightarrow> string \<Rightarrow> WriteAnswer"

record Outcome =
  oc_exit :: nat
  oc_output :: string
  oc_errors :: string

definition kExitConformant :: nat where "kExitConformant = 0"
definition kExitFindings :: nat where "kExitFindings = 1"
definition kExitUsage :: nat where "kExitUsage = 2"
definition kExitToolFailure :: nat where "kExitToolFailure = 3"

definition kDefaultCriteriaPath :: string where
  "kDefaultCriteriaPath = ''tools/rf_verify/criteria/acceptance-criteria.json''"

definition takeOption :: "string \<Rightarrow> string \<Rightarrow> Options \<Rightarrow> Options option" where
  "takeOption kFlag v options =
     (if kFlag = ''--root'' then Some (options\<lparr>op_repositoryRoot := v\<rparr>)
      else if kFlag = ''--export'' then Some (options\<lparr>op_coverageExports := op_coverageExports options @ [v]\<rparr>)
      else if kFlag = ''--diff'' then Some (options\<lparr>op_diff := v\<rparr>)
      else if kFlag = ''--criteria'' then Some (options\<lparr>op_criteria := v\<rparr>)
      else if kFlag = ''--test-report'' then Some (options\<lparr>op_testReports := op_testReports options @ [v]\<rparr>)
      else if kFlag = ''--report'' then Some (options\<lparr>op_report := v\<rparr>)
      else None)"

definition badArgument :: "string \<Rightarrow> Options VResult" where
  "badArgument kFlag =
     verifyReject VfInvalidArguments [] (''unrecognized or incomplete argument: '' @ kFlag)"

fun optionLoop :: "string list \<Rightarrow> Options \<Rightarrow> Options VResult" where
  "optionLoop [] options = Inr options"
| "optionLoop [kFlag] options = badArgument kFlag"
| "optionLoop (kFlag # v # rest) options =
     (case takeOption kFlag v options of None \<Rightarrow> badArgument kFlag | Some options' \<Rightarrow> optionLoop rest options')"

definition parseOptions :: "string list \<Rightarrow> Options VResult" where
  "parseOptions arguments =
     (case arguments of
        [] \<Rightarrow> verifyReject VfInvalidArguments []
          ''an operation is required: coverage_floors, coverage_summary, or requirements_report''
      | operation # rest \<Rightarrow> optionLoop rest
          \<lparr>op_operation = operation, op_repositoryRoot = ''.'', op_coverageExports = [], op_diff = [],
           op_criteria = [], op_testReports = [], op_report = []\<rparr>)"

section \<open>Failing and emitting\<close>

definition errorLine :: "VerifyFailure \<Rightarrow> string" where
  "errorLine failure =
     CHR ''{'' # [CHR 0x22] @ ''ok'' @ [CHR 0x22] @ '':false,'' @ [CHR 0x22] @ ''failure'' @ [CHR 0x22] @ '':'' @
     [CHR 0x22] @ verifyFailureCodeName (vf_code failure) @ [CHR 0x22] @ '','' @ [CHR 0x22] @ ''path'' @
     [CHR 0x22] @ '':'' @ [CHR 0x22] @ vf_path failure @ [CHR 0x22] @ '','' @ [CHR 0x22] @ ''message'' @
     [CHR 0x22] @ '':'' @ [CHR 0x22] @ vf_message failure @ [CHR 0x22] @ ''}'' @ [CHR 0x0A]"

definition failWith :: "VerifyFailure \<Rightarrow> Outcome" where
  "failWith failure = \<lparr>oc_exit = (if isUsageFailure (vf_code failure) then kExitUsage else kExitToolFailure),
     oc_output = [], oc_errors = errorLine failure\<rparr>"

definition emitReport :: "Surroundings \<Rightarrow> Options \<Rightarrow> string \<Rightarrow> bool \<Rightarrow> Outcome" where
  "emitReport su options document conformant =
     (let root = (case resolveRepositoryRoot (su_files su) (op_repositoryRoot options) of
            Inr resolved \<Rightarrow> resolved | Inl _ \<Rightarrow> op_repositoryRoot options);
          delivered = \<lparr>oc_exit = (if conformant then kExitConformant else kExitFindings),
            oc_output = document, oc_errors = []\<rparr>
      in if op_report options = [] then delivered
         else case writeReportFile (su_files su) (su_disk su) root (op_report options) document of
           Inl failure \<Rightarrow> \<lparr>oc_exit = kExitToolFailure, oc_output = [], oc_errors = errorLine failure\<rparr>
         | Inr _ \<Rightarrow> delivered)"

section \<open>The documents\<close>

text \<open>The calls on the writer, one after another.\<close>

definition calls :: "(JsonWriter \<Rightarrow> JsonWriter) list \<Rightarrow> JsonWriter \<Rightarrow> JsonWriter" where
  "calls = fold (\<lambda>f. f)"

definition each :: "('a \<Rightarrow> (JsonWriter \<Rightarrow> JsonWriter) list) \<Rightarrow> 'a list \<Rightarrow> JsonWriter \<Rightarrow> JsonWriter" where
  "each body xs = fold (\<lambda>x. calls (body x)) xs"

definition writeFindings :: "VerifyFinding list \<Rightarrow> (JsonWriter \<Rightarrow> JsonWriter) list" where
  "writeFindings findings =
     [writeKey ''findings'', beginArray,
      each (\<lambda>finding. [beginObject, memberString ''ruleId'' (vn_ruleId finding),
        memberString ''path'' (vn_path finding), memberString ''message'' (vn_message finding), endObject]) findings,
      endArray, memberInteger ''findingCount'' (int (length findings))]"

definition writeCounts :: "string \<Rightarrow> CoverageCounts \<Rightarrow> (JsonWriter \<Rightarrow> JsonWriter) list" where
  "writeCounts name counts =
     [writeKey name, beginObject, memberInteger ''count'' (cc_count counts),
      memberInteger ''covered'' (cc_covered counts), endObject]"

definition finished :: "(JsonWriter \<Rightarrow> JsonWriter) list \<Rightarrow> string" where
  "finished ops = jw_output (calls ops newWriter) @ [CHR 0x0A]"

definition floorUnitCalls :: "UnitVerdict \<Rightarrow> (JsonWriter \<Rightarrow> JsonWriter) list" where
  "floorUnitCalls unit =
     [beginObject, memberString ''path'' (uv_path unit), memberString ''tier'' (tierName (uv_tier unit)),
      memberInteger ''floorPercent'' (uv_floorPercent unit),
      memberInteger ''changedBranchConditions'' (uv_changedConditions unit),
      memberInteger ''coveredBranchConditions'' (uv_coveredConditions unit),
      memberBoolean ''meetsFloor'' (uv_meetsFloor unit),
      memberInteger ''changedDecisions'' (int (uv_changedDecisions unit)),
      memberInteger ''uncoveredDecisions'' (int (uv_uncoveredDecisions unit)),
      memberInteger ''excludedConstantConditions'' (int (uv_excludedConstantConditions unit)),
      memberInteger ''excludedSynthesizedConditions'' (int (uv_excludedSynthesizedConditions unit)),
      writeKey ''partiallyCoveredBranchLines'', writeIntegerArray (uv_uncoveredBranchLines unit), endObject]"

definition floorsDocument :: "CoverageExport \<Rightarrow> FloorEvaluation \<Rightarrow> string" where
  "floorsDocument coverage evaluation = finished
     ([beginObject, memberString ''report'' ''coverage_floors'', memberString ''authority'' ''STD-0007'',
       memberString ''evidenceClass'' ''correctness_and_hygiene'',
       memberString ''producerVersion'' (ce_producerVersion coverage),
       memberInteger ''changedNonSourcePaths'' (int (fe_changedNonSourcePaths evaluation)),
       memberInteger ''changedHeadersWithoutInstrumentedCode''
         (int (fe_changedHeadersWithoutInstrumentedCode evaluation)),
       writeKey ''units'', beginArray, each floorUnitCalls (fe_units evaluation), endArray] @
      writeFindings (fe_findings evaluation) @ [endObject])"

definition summaryFileCalls :: "FileCoverageSummary \<Rightarrow> (JsonWriter \<Rightarrow> JsonWriter) list" where
  "summaryFileCalls f =
     [beginObject, memberString ''path'' (fc_path f), memberString ''tier'' (fc_tier f)] @
     writeCounts ''lines'' (cs_lines (fc_counts f)) @ writeCounts ''branches'' (cs_branches (fc_counts f)) @
     writeCounts ''mcdc'' (cs_mcdc (fc_counts f)) @
     [writeKey ''uncoveredLines'', writeIntegerArray (fc_uncoveredLines f),
      writeKey ''partiallyCoveredBranchLines'', writeIntegerArray (fc_partiallyCoveredBranchLines f),
      writeKey ''uncoveredDecisionLines'', writeIntegerArray (fc_uncoveredDecisionLines f), endObject]"

definition summaryDocument :: "CoverageExport \<Rightarrow> TreeCoverageSummary \<Rightarrow> string" where
  "summaryDocument coverage summary = finished
     ([beginObject, memberString ''report'' ''coverage_summary'', memberString ''authority'' ''STD-0007'',
       memberString ''evidenceClass'' ''correctness_and_hygiene'',
       memberString ''budgetClass'' ''verification_objective'',
       memberString ''producerVersion'' (ce_producerVersion coverage),
       memberInteger ''droppedForeignFiles'' (int (tc_droppedForeignFiles summary)),
       memberInteger ''omittedUncoveredLines'' (int (tc_omittedUncoveredLines summary)),
       writeKey ''totals'', beginObject] @
      writeCounts ''lines'' (cs_lines (tc_totals summary)) @
      writeCounts ''branches'' (cs_branches (tc_totals summary)) @
      writeCounts ''regions'' (cs_regions (tc_totals summary)) @
      writeCounts ''mcdc'' (cs_mcdc (tc_totals summary)) @
      [endObject, writeKey ''files'', beginArray, each summaryFileCalls (tc_files summary), endArray, endObject])"

definition bindingCalls :: "CriterionBinding \<Rightarrow> (JsonWriter \<Rightarrow> JsonWriter) list" where
  "bindingCalls b =
     [beginObject, memberString ''criterion'' (cb_criterionId b), writeKey ''tests'',
      writeStringArray (cb_tests b), endObject]"

definition requirementsDocument :: "DeclaredCriterion list \<Rightarrow> RequirementsReport \<Rightarrow> string" where
  "requirementsDocument declared report = finished
     ([beginObject, memberString ''report'' ''requirements_report'', memberString ''authority'' ''STD-0007'',
       memberString ''evidenceClass'' ''correctness_and_hygiene'',
       memberInteger ''testsRead'' (int (rq_testsRead report)),
       memberInteger ''bindingsRead'' (int (rq_bindingsRead report)),
       memberInteger ''declaredCriteria'' (int (length declared)),
       memberInteger ''boundCriteria'' (int (length (rq_bound report))),
       memberInteger ''unboundCriteria'' (int (length (rq_unbound report))),
       memberInteger ''manuallyDischargedCriteria'' (int (length (rq_manual report))),
       memberInteger ''laneDischargedCriteria'' (int (length (rq_lane report))),
       writeKey ''bound'', beginArray, each bindingCalls (rq_bound report), endArray,
       writeKey ''unbound'', beginArray,
       each (\<lambda>c. [beginObject, memberString ''criterion'' (dc_id c), memberString ''text'' (dc_text c), endObject])
         (rq_unbound report), endArray,
       writeKey ''manual'', beginArray,
       each (\<lambda>c. [beginObject, memberString ''criterion'' (dc_id c),
         memberString ''procedure'' (dc_procedure c), endObject]) (rq_manual report), endArray,
       writeKey ''lane'', beginArray,
       each (\<lambda>c. [beginObject, memberString ''criterion'' (dc_id c),
         memberString ''dischargedBy'' (dc_dischargedBy c),
         writeKey ''ctestCases'', writeStringArray (dc_ctestCases c), endObject]) (rq_lane report), endArray,
       writeKey ''undeclared'', beginArray, each bindingCalls (rq_undeclared report), endArray] @
      writeFindings (rq_findings report) @ [endObject])"

section \<open>The operations\<close>

definition coverageFloors :: "Surroundings \<Rightarrow> Options \<Rightarrow> (string \<times> bool) VResult" where
  "coverageFloors su options =
     (if op_coverageExports options = [] \<or> op_diff options = []
      then verifyReject VfInvalidArguments []
        ''coverage_floors requires --export and --diff; a floor verdict with no changed-line set would be a whole-tree gate under a diff-scoped name''
      else rbind (resolveRepositoryRoot (su_files su) (op_repositoryRoot options)) (\<lambda>root.
           rbind (readCoverageExports (su_iterate su) (su_files su) root (op_coverageExports options)) (\<lambda>coverage.
           rbind (readUnifiedDiff (su_files su) (op_diff options)) (\<lambda>changed.
             if changed = []
             then verifyReject VfNoChangedLines (op_diff options)
               ''the diff names no added or modified line, so there is nothing for a diff-scoped floor to measure''
             else rbind (readTierIndex (su_iterate su) (su_files su) root) (\<lambda>tiers.
                  rbind (evaluateFloors (su_files su) root changed coverage tiers) (\<lambda>evaluation.
                    Inr (floorsDocument coverage evaluation, fe_findings evaluation = [])))))))"

definition coverageSummary :: "Surroundings \<Rightarrow> Options \<Rightarrow> (string \<times> bool) VResult" where
  "coverageSummary su options =
     (if op_coverageExports options = []
      then verifyReject VfInvalidArguments [] ''coverage_summary requires --export''
      else rbind (resolveRepositoryRoot (su_files su) (op_repositoryRoot options)) (\<lambda>root.
           rbind (readCoverageExports (su_iterate su) (su_files su) root (op_coverageExports options)) (\<lambda>coverage.
           rbind (readTierIndex (su_iterate su) (su_files su) root) (\<lambda>tiers.
           rbind (summarizeCoverage coverage tiers) (\<lambda>summary.
             Inr (summaryDocument coverage summary, True))))))"

definition requirementsReport :: "Surroundings \<Rightarrow> Options \<Rightarrow> (string \<times> bool) VResult" where
  "requirementsReport su options =
     (if op_testReports options = []
      then verifyReject VfInvalidArguments []
        ''requirements_report requires at least one --test-report; the report is generated from the tests that executed and never from a maintained matrix''
      else rbind (resolveRepositoryRoot (su_files su) (op_repositoryRoot options)) (\<lambda>root.
           rbind (readCriteriaInventory (su_iterate su) (su_files su)
               (if op_criteria options = [] then path_append root kDefaultCriteriaPath
                else op_criteria options)) (\<lambda>declared.
           rbind (buildRequirementsReport (su_iterate su) (su_files su) declared (op_testReports options)) (\<lambda>report.
             Inr (requirementsDocument declared report, rq_findings report = [])))))"

definition runOperation :: "Surroundings \<Rightarrow> Options \<Rightarrow> (string \<times> bool) VResult" where
  "runOperation su options =
     (if op_operation options = ''coverage_floors'' then coverageFloors su options
      else if op_operation options = ''coverage_summary'' then coverageSummary su options
      else if op_operation options = ''requirements_report'' then requirementsReport su options
      else verifyReject VfInvalidArguments [] (''unknown operation: '' @ op_operation options))"

definition runCommand :: "Surroundings \<Rightarrow> string list \<Rightarrow> Outcome" where
  "runCommand su arguments =
     (case parseOptions arguments of
        Inl failure \<Rightarrow> failWith failure
      | Inr options \<Rightarrow>
          (case runOperation su options of
             Inl failure \<Rightarrow> failWith failure
           | Inr (document, conformant) \<Rightarrow> emitReport su options document conformant))"

section \<open>The documents are the layout of their contents\<close>

definition findings_trees :: "VerifyFinding list \<Rightarrow> (string \<times> ReportTree) list" where
  "findings_trees findings =
     [(''findings'', RList (map (\<lambda>f. RRecord [(''ruleId'', RText (vn_ruleId f)),
        (''path'', RText (vn_path f)), (''message'', RText (vn_message f))]) findings)),
      (''findingCount'', RNumber (int (length findings)))]"

definition floor_unit_tree :: "UnitVerdict \<Rightarrow> ReportTree" where
  "floor_unit_tree unit = RRecord
     [(''path'', RText (uv_path unit)), (''tier'', RText (tierName (uv_tier unit))),
      (''floorPercent'', RNumber (uv_floorPercent unit)),
      (''changedBranchConditions'', RNumber (uv_changedConditions unit)),
      (''coveredBranchConditions'', RNumber (uv_coveredConditions unit)),
      (''meetsFloor'', RFlag (uv_meetsFloor unit)),
      (''changedDecisions'', RNumber (int (uv_changedDecisions unit))),
      (''uncoveredDecisions'', RNumber (int (uv_uncoveredDecisions unit))),
      (''excludedConstantConditions'', RNumber (int (uv_excludedConstantConditions unit))),
      (''excludedSynthesizedConditions'', RNumber (int (uv_excludedSynthesizedConditions unit))),
      (''partiallyCoveredBranchLines'', RList (map (\<lambda>n. RNumber (int n)) (uv_uncoveredBranchLines unit)))]"

definition floors_tree :: "CoverageExport \<Rightarrow> FloorEvaluation \<Rightarrow> ReportTree" where
  "floors_tree coverage evaluation = RRecord
     ([(''report'', RText ''coverage_floors''), (''authority'', RText ''STD-0007''),
       (''evidenceClass'', RText ''correctness_and_hygiene''),
       (''producerVersion'', RText (ce_producerVersion coverage)),
       (''changedNonSourcePaths'', RNumber (int (fe_changedNonSourcePaths evaluation))),
       (''changedHeadersWithoutInstrumentedCode'',
         RNumber (int (fe_changedHeadersWithoutInstrumentedCode evaluation))),
       (''units'', RList (map floor_unit_tree (fe_units evaluation)))] @
      findings_trees (fe_findings evaluation))"

definition binding_tree :: "CriterionBinding \<Rightarrow> ReportTree" where
  "binding_tree b = RRecord [(''criterion'', RText (cb_criterionId b)), (''tests'', RList (map RText (cb_tests b)))]"

definition requirements_tree :: "DeclaredCriterion list \<Rightarrow> RequirementsReport \<Rightarrow> ReportTree" where
  "requirements_tree declared report = RRecord
     ([(''report'', RText ''requirements_report''), (''authority'', RText ''STD-0007''),
       (''evidenceClass'', RText ''correctness_and_hygiene''),
       (''testsRead'', RNumber (int (rq_testsRead report))),
       (''bindingsRead'', RNumber (int (rq_bindingsRead report))),
       (''declaredCriteria'', RNumber (int (length declared))),
       (''boundCriteria'', RNumber (int (length (rq_bound report)))),
       (''unboundCriteria'', RNumber (int (length (rq_unbound report)))),
       (''manuallyDischargedCriteria'', RNumber (int (length (rq_manual report)))),
       (''laneDischargedCriteria'', RNumber (int (length (rq_lane report)))),
       (''bound'', RList (map binding_tree (rq_bound report))),
       (''unbound'', RList (map (\<lambda>c. RRecord [(''criterion'', RText (dc_id c)), (''text'', RText (dc_text c))])
         (rq_unbound report))),
       (''manual'', RList (map (\<lambda>c. RRecord [(''criterion'', RText (dc_id c)),
         (''procedure'', RText (dc_procedure c))]) (rq_manual report))),
       (''lane'', RList (map (\<lambda>c. RRecord [(''criterion'', RText (dc_id c)),
         (''dischargedBy'', RText (dc_dischargedBy c)),
         (''ctestCases'', RList (map RText (dc_ctestCases c)))]) (rq_lane report))),
       (''undeclared'', RList (map binding_tree (rq_undeclared report)))] @
      findings_trees (rq_findings report))"

definition counts_tree :: "CoverageCounts \<Rightarrow> ReportTree" where
  "counts_tree c = RRecord [(''count'', RNumber (cc_count c)), (''covered'', RNumber (cc_covered c))]"

definition summary_file_tree :: "FileCoverageSummary \<Rightarrow> ReportTree" where
  "summary_file_tree f = RRecord
     [(''path'', RText (fc_path f)), (''tier'', RText (fc_tier f)),
      (''lines'', counts_tree (cs_lines (fc_counts f))), (''branches'', counts_tree (cs_branches (fc_counts f))),
      (''mcdc'', counts_tree (cs_mcdc (fc_counts f))),
      (''uncoveredLines'', RList (map (\<lambda>n. RNumber (int n)) (fc_uncoveredLines f))),
      (''partiallyCoveredBranchLines'', RList (map (\<lambda>n. RNumber (int n)) (fc_partiallyCoveredBranchLines f))),
      (''uncoveredDecisionLines'', RList (map (\<lambda>n. RNumber (int n)) (fc_uncoveredDecisionLines f)))]"

definition summary_tree :: "CoverageExport \<Rightarrow> TreeCoverageSummary \<Rightarrow> ReportTree" where
  "summary_tree coverage summary = RRecord
     [(''report'', RText ''coverage_summary''), (''authority'', RText ''STD-0007''),
      (''evidenceClass'', RText ''correctness_and_hygiene''), (''budgetClass'', RText ''verification_objective''),
      (''producerVersion'', RText (ce_producerVersion coverage)),
      (''droppedForeignFiles'', RNumber (int (tc_droppedForeignFiles summary))),
      (''omittedUncoveredLines'', RNumber (int (tc_omittedUncoveredLines summary))),
      (''totals'', RRecord [(''lines'', counts_tree (cs_lines (tc_totals summary))),
         (''branches'', counts_tree (cs_branches (tc_totals summary))),
         (''regions'', counts_tree (cs_regions (tc_totals summary))),
         (''mcdc'', counts_tree (cs_mcdc (tc_totals summary)))]),
      (''files'', RList (map summary_file_tree (tc_files summary)))]"

lemma calls_simps [simp]:
  "calls [] w = w" "calls (f # fs) w = calls fs (f w)" "calls (fs @ gs) w = calls gs (calls fs w)"
  by (simp_all add: calls_def)

lemma each_trees:
  assumes "\<And>x w. x \<in> set xs \<Longrightarrow> calls (body x) w = write_tree (tree x) w"
  shows "each body xs w = fold (\<lambda>t w. write_tree t w) (map tree xs) w"
  using assms unfolding each_def by (induction xs arbitrary: w) auto

lemma scalar_writers:
  "(\<lambda>s. write_tree (RText s)) = writeString" "(\<lambda>n. write_tree (RNumber (int n))) = (\<lambda>n. writeInteger (int n))"
  by (simp_all add: fun_eq_iff)

lemma writer_trees:
  "memberString k s w = write_tree (RText s) (writeKey k w)"
  "memberInteger k n w = write_tree (RNumber n) (writeKey k w)"
  "memberBoolean k b w = write_tree (RFlag b) (writeKey k w)"
  "writeStringArray ss w = write_tree (RList (map RText ss)) w"
  "writeIntegerArray ns w = write_tree (RList (map (\<lambda>n. RNumber (int n)) ns)) w"
  by (simp_all add: memberString_def memberInteger_def memberBoolean_def writeStringArray_def
      writeIntegerArray_def fold_map comp_def scalar_writers)

lemma block_trees:
  assumes "\<And>x w. calls (body x) w = write_tree (tree x) w"
  shows "endArray (each body xs (beginArray w)) = write_tree (RList (map tree xs)) w"
  using each_trees [of xs body tree "beginArray w"] assms by simp

lemma record_tree: "endObject (fold (\<lambda>m w. write_tree (snd m) (writeKey (fst m) w)) ms (beginObject w))
    = write_tree (RRecord ms) w"
  by simp

lemma writeCounts_tree: "calls (writeCounts k c) w = write_tree (counts_tree c) (writeKey k w)"
  by (simp add: writeCounts_def counts_tree_def writer_trees del: write_tree.simps(1-4))

lemma finding_calls:
  "calls [beginObject, memberString ''ruleId'' (vn_ruleId f), memberString ''path'' (vn_path f),
     memberString ''message'' (vn_message f), endObject] w =
   write_tree (RRecord [(''ruleId'', RText (vn_ruleId f)), (''path'', RText (vn_path f)),
     (''message'', RText (vn_message f))]) w"
  by (simp add: writer_trees del: write_tree.simps(1-4))

lemma writeFindings_trees:
  "calls (writeFindings fs) w = fold (\<lambda>m w. write_tree (snd m) (writeKey (fst m) w)) (findings_trees fs) w"
  unfolding writeFindings_def findings_trees_def
  by (simp add: writer_trees block_trees [OF finding_calls] del: write_tree.simps(1-4))

lemma floorUnitCalls_tree: "calls (floorUnitCalls u) w = write_tree (floor_unit_tree u) w"
  by (simp add: floorUnitCalls_def floor_unit_tree_def writer_trees del: write_tree.simps(1-4))

lemma bindingCalls_tree: "calls (bindingCalls b) w = write_tree (binding_tree b) w"
  by (simp add: bindingCalls_def binding_tree_def writer_trees del: write_tree.simps(1-4))

lemma summaryFileCalls_tree: "calls (summaryFileCalls f) w = write_tree (summary_file_tree f) w"
  by (simp add: summaryFileCalls_def summary_file_tree_def writer_trees writeCounts_tree
      del: write_tree.simps(1-4))

lemma finished_tree:
  assumes "calls ops newWriter = write_tree t newWriter"
  shows "finished ops = pretty 0 t @ [CHR 0x0A]"
  unfolding finished_def assms write_tree_wrote
  by (simp add: wrote_def newWriter_def separation_def layout_indent_def)

lemma floorsDocument_layout: "floorsDocument coverage ev = pretty 0 (floors_tree coverage ev) @ [CHR 0x0A]"
  unfolding floorsDocument_def
  by (rule finished_tree) (simp add: floors_tree_def writer_trees block_trees [OF floorUnitCalls_tree]
      writeFindings_trees del: write_tree.simps(1-4))

lemma summaryDocument_layout: "summaryDocument coverage s = pretty 0 (summary_tree coverage s) @ [CHR 0x0A]"
  unfolding summaryDocument_def
  by (rule finished_tree) (simp add: summary_tree_def writer_trees block_trees [OF summaryFileCalls_tree]
      writeCounts_tree del: write_tree.simps(1-4))

lemma unbound_calls:
  "calls [beginObject, memberString ''criterion'' (dc_id c), memberString ''text'' (dc_text c), endObject] w =
   write_tree (RRecord [(''criterion'', RText (dc_id c)), (''text'', RText (dc_text c))]) w"
  by (simp add: writer_trees del: write_tree.simps(1-4))

lemma manual_calls:
  "calls [beginObject, memberString ''criterion'' (dc_id c), memberString ''procedure'' (dc_procedure c),
     endObject] w =
   write_tree (RRecord [(''criterion'', RText (dc_id c)), (''procedure'', RText (dc_procedure c))]) w"
  by (simp add: writer_trees del: write_tree.simps(1-4))

lemma lane_calls:
  "calls [beginObject, memberString ''criterion'' (dc_id c), memberString ''dischargedBy'' (dc_dischargedBy c),
     writeKey ''ctestCases'', writeStringArray (dc_ctestCases c), endObject] w =
   write_tree (RRecord [(''criterion'', RText (dc_id c)), (''dischargedBy'', RText (dc_dischargedBy c)),
     (''ctestCases'', RList (map RText (dc_ctestCases c)))]) w"
  by (simp add: writer_trees del: write_tree.simps(1-4))

lemma requirementsDocument_layout:
  "requirementsDocument declared r = pretty 0 (requirements_tree declared r) @ [CHR 0x0A]"
  unfolding requirementsDocument_def
  by (rule finished_tree) (simp add: requirements_tree_def writer_trees block_trees [OF bindingCalls_tree]
      block_trees [OF unbound_calls] block_trees [OF manual_calls] block_trees [OF lane_calls]
      writeFindings_trees del: write_tree.simps(1-4))

text \<open>
  C26. Every report is laid out as the pretty-printed form of its contents: for all three operations
  the writer's calls, with its comma and line-break state, produce exactly the reference layout of
  the report's tree, followed by a line break.
\<close>

theorem reports_have_reference_layout:
  "floorsDocument coverage ev = pretty 0 (floors_tree coverage ev) @ [CHR 0x0A] \<and>
   summaryDocument coverage s = pretty 0 (summary_tree coverage s) @ [CHR 0x0A] \<and>
   requirementsDocument declared r = pretty 0 (requirements_tree declared r) @ [CHR 0x0A]"
  by (simp only: floorsDocument_layout summaryDocument_layout requirementsDocument_layout simp_thms)

section \<open>Exit codes\<close>

text \<open>What the tool concluded from its arguments: a failure, or a document and its verdict.\<close>

definition conclusion :: "Surroundings \<Rightarrow> string list \<Rightarrow> (Options \<times> string \<times> bool) VResult" where
  "conclusion su arguments =
     rbind (parseOptions arguments) (\<lambda>options.
     rbind (runOperation su options) (\<lambda>(document, conformant). Inr (options, document, conformant)))"

definition delivered :: "Surroundings \<Rightarrow> Options \<Rightarrow> string \<Rightarrow> bool" where
  "delivered su options document \<longleftrightarrow>
     op_report options = [] \<or>
     is_ok (writeReportFile (su_files su) (su_disk su)
       (case resolveRepositoryRoot (su_files su) (op_repositoryRoot options) of
          Inr resolved \<Rightarrow> resolved | Inl _ \<Rightarrow> op_repositoryRoot options)
       (op_report options) document)"

lemmas exit_codes = kExitConformant_def kExitFindings_def kExitUsage_def kExitToolFailure_def

lemma runCommand_conclusion:
  "runCommand su arguments =
     (case conclusion su arguments of
        Inl failure \<Rightarrow> failWith failure
      | Inr (options, document, conformant) \<Rightarrow> emitReport su options document conformant)"
  by (auto simp: runCommand_def conclusion_def rbind_def split: sum.splits prod.splits)

lemma emitReport_delivered:
  "delivered su options document \<Longrightarrow> emitReport su options document conformant =
     \<lparr>oc_exit = (if conformant then 0 else 1), oc_output = document, oc_errors = []\<rparr>"
  "\<not> delivered su options document \<Longrightarrow> \<exists>failure. emitReport su options document conformant =
     \<lparr>oc_exit = 3, oc_output = [], oc_errors = errorLine failure\<rparr>"
  by (auto simp: emitReport_def delivered_def exit_codes is_ok_def Let_def split: sum.splits)

text \<open>
  The exit code says what was concluded: zero and one exactly when a document was produced and
  delivered, zero for a verdict without findings, and then the document is the whole output; two
  exactly when the invocation was wrong; three otherwise, and then no document is printed.
\<close>

theorem exit_code_states_conclusion:
  "let outcome = runCommand su arguments in
   case conclusion su arguments of
     Inl failure \<Rightarrow>
       oc_exit outcome = (if vf_code failure = VfInvalidArguments then 2 else 3) \<and> oc_output outcome = []
   | Inr (options, document, conformant) \<Rightarrow>
       (if delivered su options document
        then oc_exit outcome = (if conformant then 0 else 1) \<and> oc_output outcome = document \<and> oc_errors outcome = []
        else oc_exit outcome = 3 \<and> oc_output outcome = [])"
proof (cases "conclusion su arguments")
  case (Inl failure)
  then show ?thesis
    by (simp add: runCommand_conclusion failWith_def isUsageFailure_def exit_codes)
next
  case (Inr r)
  then obtain options document conformant where "conclusion su arguments = Inr (options, document, conformant)"
    by (cases r) auto
  then show ?thesis
    using emitReport_delivered [of su options document conformant]
    by (cases "delivered su options document") (auto simp: runCommand_conclusion Let_def)
qed

section \<open>From the diff to the verdict\<close>

lemma runCommand_zero:
  assumes "oc_exit (runCommand su arguments) = 0"
  obtains options document where "conclusion su arguments = Inr (options, document, True)"
proof (cases "conclusion su arguments")
  case (Inl failure)
  with assms show ?thesis by (simp add: runCommand_conclusion failWith_def exit_codes split: if_splits)
next
  case (Inr r)
  then obtain options document conformant where c: "conclusion su arguments = Inr (options, document, conformant)"
    by (cases r) auto
  with assms emitReport_delivered [of su options document conformant] have conformant
    by (cases "delivered su options document") (auto simp: runCommand_conclusion split: if_splits)
  with c that show ?thesis by simp
qed

lemma coverageFloors_clean:
  assumes "coverageFloors su options = Inr (document, True)"
  obtains root coverage changed tiers ev where
    "resolveRepositoryRoot (su_files su) (op_repositoryRoot options) = Inr root"
    "readCoverageExports (su_iterate su) (su_files su) root (op_coverageExports options) = Inr coverage"
    "readUnifiedDiff (su_files su) (op_diff options) = Inr changed" "changed \<noteq> []"
    "readTierIndex (su_iterate su) (su_files su) root = Inr tiers"
    "evaluateFloors (su_files su) root changed coverage tiers = Inr ev" "fe_findings ev = []"
  using assms by (auto simp: coverageFloors_def split: if_splits)


text \<open>
  A repository with one tool and one header: files answer their own name as their bytes, and the
  parser knows the three documents the run reads.
\<close>

definition demo_index :: sj_value where
  "demo_index = SjObject [SjField ''tools'' (SjArray [SjElement (SjString ''tools/x/tool.json'')]),
     SjField ''modules'' (SjArray [])]"

definition demo_declarations :: sj_value where
  "demo_declarations = SjObject [SjField ''units'' (SjArray [SjElement (SjObject
     [SjField ''path'' (SjString ''src/a.h''), SjField ''tier'' (SjString ''O''),
      SjField ''reason'' (SjString ''helper'')])])]"

definition demo_change :: "FilePatch list" where
  "demo_change = [\<lparr>fp_preamble = [''--- a/tools/x/src/a.h''], fp_path = ''tools/x/src/a.h'',
     fp_hunks = [\<lparr>hk_old = ''3,0'', hk_start = 4, hk_count = None, hk_heading = ''@@'',
       hk_lines = [Added ''x'']\<rparr>]\<rparr>]"

definition demo_surroundings :: Surroundings where
  "demo_surroundings = \<lparr>
     su_iterate = (\<lambda>bytes. SjDocument (if bytes = ''e.json'' then demo_export
       else if bytes = ''/r/repository.json'' then demo_index else demo_declarations) True),
     su_files = demo_files\<lparr>fs_read := (\<lambda>p _. Some p), fs_stream := (\<lambda>_. Some (render demo_change)),
       fs_walk := (\<lambda>dir. if dir = ''/r/tools/x/src'' then [Some (''/r/tools/x/src/a.h'', True)] else [])\<rparr>,
     su_disk = (\<lambda>_ _. Written)\<rparr>"

definition demo_arguments :: "string list" where
  "demo_arguments = [''coverage_floors'', ''--root'', ''/r'', ''--export'', ''e.json'', ''--diff'', ''d'']"

definition demo_options :: Options where
  "demo_options = \<lparr>op_operation = ''coverage_floors'', op_repositoryRoot = ''/r'',
     op_coverageExports = [''e.json''], op_diff = ''d'', op_criteria = [], op_testReports = [], op_report = []\<rparr>"

lemma demo_options_parsed: "parseOptions demo_arguments = Inr demo_options"
  by (simp add: parseOptions_def demo_arguments_def takeOption_def demo_options_def)

lemma demo_change_ok:
  "\<forall>f\<in>set demo_change. file_ok f" "length (render demo_change) \<le> kMaximumDiffBytes"
  "length demo_change \<le> kMaximumDiffFiles" "patch_size demo_change \<le> kMaximumChangedLinesPerFile"
  by (simp_all add: demo_change_def file_ok_def header_ok_def plain_line_def render_def render_file_def
      render_hunk_def render_header_def kMaximumDiffBytes_def kMaximumDiffFiles_def
      kMaximumChangedLinesPerFile_def patch_size_def count_added_def nat_to_string.simps digit_char_values)

lemma demo_change_added: "added_lines demo_change p = (if p = ''tools/x/src/a.h'' then {4} else {})"
  by (auto simp: added_lines_def file_added_def demo_change_def)

lemma demo_change_parsed: "parseUnifiedDiff (render demo_change) = Inr [(''tools/x/src/a.h'', [4])]"
proof -
  obtain changed where parsed: "parseUnifiedDiff (render demo_change) = Inr changed" and ok: "omap_ok changed"
    and lookup: "\<forall>path. map_of changed path = (if added_lines demo_change path = {} then None
      else Some (sorted_list_of_set (added_lines demo_change path)))"
    using parse_render [OF demo_change_ok] by blast
  have "changed = [(''tools/x/src/a.h'', [4])]"
    by (rule omap_eqI [OF ok]) (use lookup in \<open>auto simp: demo_change_added omap_ok_def fun_eq_iff\<close>)
  with parsed show ?thesis by simp
qed

abbreviation demo_disk :: VerifyFiles where
  "demo_disk \<equiv> su_files demo_surroundings"

lemma demo_disk_answers [simp]:
  "fs_canonical demo_disk = Some" "fs_exists demo_disk = (\<lambda>_. True)" "fs_regular demo_disk = (\<lambda>_. True)"
  "fs_size demo_disk = (\<lambda>_. Some 0)" "fs_read demo_disk = (\<lambda>p _. Some p)"
  "fs_stream demo_disk = (\<lambda>_. Some (render demo_change))"
  by (simp_all add: demo_surroundings_def demo_files_def)

lemma demo_disk_walk [simp]:
  "fs_walk demo_disk ''/r/tools/x/src'' = [Some (''/r/tools/x/src/a.h'', True)]"
  "fs_walk demo_disk ''/r/tools/x/include'' = []"
  by (simp_all add: demo_surroundings_def)

lemma demo_disk_relative: "repositoryRelative demo_disk ''/r'' ''/r/tools/x/src/a.h'' = Inr ''tools/x/src/a.h''"
  using demo_relative by (simp add: repositoryRelative_def canonicalize_def demo_files_def)

lemma demo_disk_json:
  "readJsonFile (su_iterate demo_surroundings) demo_disk p = at_path p (parseJson (su_iterate demo_surroundings) p)"
  by (simp add: readJsonFile_def readFileBytes_def kMaximumJsonBytes_def)

lemma demo_disk_export:
  "readCoverageExports (su_iterate demo_surroundings) demo_disk ''/r'' [''e.json'']
     = Inr \<lparr>ce_producerVersion = [], ce_files = [(''tools/x/src/a.h'', demo_unit)], ce_droppedForeignFiles = 0\<rparr>"
proof -
  have "parseJson (su_iterate demo_surroundings) ''e.json'' = Inr demo_document"
    using demo_export_parsed by (simp add: parseJson_def demo_surroundings_def kMaximumJsonBytes_def)
  moreover have "cf_path demo_unit = ''tools/x/src/a.h''"
    by (simp add: demo_unit_def newCoverageFile_def)
  ultimately show ?thesis
    using demo_file_read
    by (simp add: readCoverageExports_def demo_disk_json appendCoverageExport_def demo_document_def Let_def
        json_eval eachFile_def collectExpansionBranches_def appendFile_def demo_disk_relative demo_maintained
        no_coverage_def omap_emplace_def)
qed

definition demo_declared :: TierIndex where
  "demo_declared = \<lparr>ti_units = [(''tools/x/src/a.h'', \<lparr>td_path = ''tools/x/src/a.h'', td_tier = Ordinary,
       td_reason = ''helper'', td_source = ''tools/x/tests/verification-tiers.json''\<rparr>)],
     ti_declaredButAbsent = [], ti_presentButUndeclared = []\<rparr>"

lemma demo_index_read: "readJsonFile (su_iterate demo_surroundings) demo_disk ''/r/repository.json'' =
    Inr (JObject [(''tools'', JArray [JString ''tools/x/tool.json'']), (''modules'', JArray [])])"
  unfolding demo_disk_json
  by (simp add: parseJson_def demo_surroundings_def demo_index_def json_eval)

lemma demo_declarations_read:
  "readJsonFile (su_iterate demo_surroundings) demo_disk ''/r/tools/x/tests/verification-tiers.json'' =
    Inr (JObject [(''units'', JArray [JObject [(''path'', JString ''src/a.h''), (''tier'', JString ''O''),
      (''reason'', JString ''helper'')]])])"
  unfolding demo_disk_json
  by (simp add: parseJson_def demo_surroundings_def demo_declarations_def json_eval)

lemma demo_tiers_read: "readTierIndex (su_iterate demo_surroundings) demo_disk ''/r'' = Inr demo_declared"
proof -
  have "listedManifests (su_iterate demo_surroundings) demo_disk ''/r'' = Inr [''tools/x'']"
    by (simp add: listedManifests_def path_append_def is_absolute_path_def demo_index_read findArray_def
        findMember_def membershipRoot_def directoryOf_def rindex_of_def sort_unique_def)
  then show ?thesis
    by (simp add: readTierIndex_def readTierRoot_def path_append_def is_absolute_path_def kDeclarationFile_def
        readTierDeclarationFile_def demo_declarations_read findArray_def findMember_def readUnitDeclaration_def
        findString_def readTier_def claimUnit_def omap_emplace_def collectPresentUnits_def
        demo_disk_relative demo_maintained demo_declared_def Let_def)
qed

lemma demo_evaluated:
  "is_ok (evaluateFloors demo_disk ''/r'' [(''tools/x/src/a.h'', [4])]
     \<lparr>ce_producerVersion = [], ce_files = [(''tools/x/src/a.h'', demo_unit)], ce_droppedForeignFiles = 0\<rparr>
     demo_declared)"
  by (simp add: evaluateFloors_ok measurable_change_def readSourceUnit_def kMaximumJsonBytes_def)

lemma demo_clean:
  "clean_change demo_disk ''/r''
     \<lparr>ce_producerVersion = [], ce_files = [(''tools/x/src/a.h'', demo_unit)], ce_droppedForeignFiles = 0\<rparr>
     demo_declared (''tools/x/src/a.h'', [4])"
  by (auto simp: clean_change_def demo_declared_def unit_meets_def counted_def executed_outcomes_def
      demo_unit_def demo_region_def trueCovered_def falseCovered_def tierBranchFloorPercent_def)

lemma demo_run: "oc_exit (runCommand demo_surroundings demo_arguments) = 0"
proof -
  let ?coverage = "\<lparr>ce_producerVersion = [], ce_files = [(''tools/x/src/a.h'', demo_unit)],
    ce_droppedForeignFiles = 0\<rparr>"
  obtain ev where ev: "evaluateFloors demo_disk ''/r'' [(''tools/x/src/a.h'', [4])] ?coverage demo_declared = Inr ev"
    using demo_evaluated by (auto simp: is_ok_iff)
  have "fe_findings ev = []"
    using evaluateFloors_findings [OF ev] demo_clean by (simp add: demo_declared_def)
  then show ?thesis
    using ev
    by (simp add: runCommand_def demo_options_parsed runOperation_def demo_options_def coverageFloors_def
        resolveRepositoryRoot_def canonicalize_def demo_disk_export readUnifiedDiff_def demo_change_parsed
        demo_tiers_read emitReport_def exit_codes Let_def)
qed


section \<open>The error line\<close>

text \<open>The failure line as JSON requires it: its two texts escaped like the texts of a report.\<close>

definition escapedErrorLine :: "VerifyFailure \<Rightarrow> string" where
  "escapedErrorLine failure =
     CHR ''{'' # [CHR 0x22] @ ''ok'' @ [CHR 0x22] @ '':false,'' @ [CHR 0x22] @ ''failure'' @ [CHR 0x22] @ '':'' @
     [CHR 0x22] @ verifyFailureCodeName (vf_code failure) @ [CHR 0x22] @ '','' @ [CHR 0x22] @ ''path'' @
     [CHR 0x22] @ '':'' @ appendEscaped (vf_path failure) @ '','' @ [CHR 0x22] @ ''message'' @
     [CHR 0x22] @ '':'' @ appendEscaped (vf_message failure) @ ''}'' @ [CHR 0x0A]"

definition needs_escape :: "char \<Rightarrow> bool" where
  "needs_escape c \<longleftrightarrow> c = CHR 0x22 \<or> c = CHR 0x5C \<or> (of_char c :: nat) < 0x20"

lemma escapedChar_length: "length (escapedChar c) = 1 \<longleftrightarrow> \<not> needs_escape c" "1 \<le> length (escapedChar c)"
  by (auto simp: escapedChar_def needs_escape_def)

lemma escapedChar_plain: "\<not> needs_escape c \<Longrightarrow> escapedChar c = [c]"
  by (auto simp: escapedChar_def needs_escape_def)

lemma escaped_length:
  "length s \<le> length (concat (map escapedChar s))"
  "length (concat (map escapedChar s)) = length s \<longleftrightarrow> (\<forall>c\<in>set s. \<not> needs_escape c)"
proof -
  show ge: "length s \<le> length (concat (map escapedChar s))" for s
  proof (induction s)
    case (Cons c s)
    then show ?case using add_mono [OF escapedChar_length(2) [of c] Cons.IH] by simp
  qed simp
  show "length (concat (map escapedChar s)) = length s \<longleftrightarrow> (\<forall>c\<in>set s. \<not> needs_escape c)"
  proof (induction s)
    case (Cons c s)
    have "length (concat (map escapedChar (c # s))) = length (escapedChar c) + length (concat (map escapedChar s))"
      by simp
    with escapedChar_length [of c] ge [of s] Cons.IH show ?case
      by (metis (no_types, lifting) add_left_cancel add_less_le_mono le_neq_implies_less length_Cons
          less_irrefl list.set_intros(1) plus_1_eq_Suc set_ConsD list.set_intros(2))
  qed simp
qed

lemma escaped_plain: "\<forall>c\<in>set s. \<not> needs_escape c \<Longrightarrow> concat (map escapedChar s) = s"
  by (induction s) (auto simp: escapedChar_plain)

text \<open>
  The line that reports a failure is the JSON it is meant to be exactly when neither the path
  nor the message holds a character JSON requires to be escaped: the line is written without
  escaping, although both texts quote the tool's input.
\<close>

theorem error_line_is_json_iff_plain:
  "errorLine failure = escapedErrorLine failure \<longleftrightarrow>
     \<not> list_ex needs_escape (vf_path failure @ vf_message failure)"
proof
  assume eq: "errorLine failure = escapedErrorLine failure"
  let ?n = "\<lambda>s. length (concat (map escapedChar s))"
  have "length (vf_path failure) + length (vf_message failure) = ?n (vf_path failure) + ?n (vf_message failure)"
    using arg_cong [OF eq, of length] by (simp add: errorLine_def escapedErrorLine_def appendEscaped_def)
  with escaped_length(1) [of "vf_path failure"] escaped_length(1) [of "vf_message failure"]
  have "?n (vf_path failure) = length (vf_path failure)" "?n (vf_message failure) = length (vf_message failure)"
    by linarith+
  then show "\<not> list_ex needs_escape (vf_path failure @ vf_message failure)"
    unfolding escaped_length(2) by (auto simp: list_ex_iff)
next
  assume "\<not> list_ex needs_escape (vf_path failure @ vf_message failure)"
  then show "errorLine failure = escapedErrorLine failure"
    by (simp add: errorLine_def escapedErrorLine_def appendEscaped_def escaped_plain list_ex_iff)
qed

end
