(* ===== verification/Arch_Json.thy ===== *)
theory Arch_Json
  imports Escaping Containers Simdjson
begin

text \<open>
  \<open>tools/rf_archcheck/src/failure.h\<close>, \<open>tool_limits.h\<close> and \<open>json_reader.{h,cpp}\<close>: the
  failures and ceilings of the architecture checker, its document model that keeps member order
  and number texts, the bounded reader, and the writer of the maintained form that manifests are
  stored in.  What the file system answers is the parameter \<open>ArchFiles\<close>; the JSON parser is the
  parameter \<open>iterate\<close> (see theory Simdjson).
\<close>

section \<open>Failures and limits\<close>

datatype ArchFailureCode =
    AfInvalidArguments | AfInvalidCorpus | AfInvalidJson | AfInvalidPath | AfIoFailure
  | AfLimitExceeded | AfMissingInput

record ArchFailure =
  af_code :: ArchFailureCode
  af_path :: string
  af_message :: string

type_synonym 'a AResult = "ArchFailure + 'a"

fun archFailureName :: "ArchFailureCode \<Rightarrow> string" where
  "archFailureName AfInvalidArguments = ''invalid_arguments''"
| "archFailureName AfInvalidCorpus = ''invalid_corpus''"
| "archFailureName AfInvalidJson = ''invalid_json''"
| "archFailureName AfInvalidPath = ''invalid_path''"
| "archFailureName AfIoFailure = ''io_failure''"
| "archFailureName AfLimitExceeded = ''limit_exceeded''"
| "archFailureName AfMissingInput = ''missing_input''"

definition archReject :: "ArchFailureCode \<Rightarrow> string \<Rightarrow> string \<Rightarrow> 'a AResult" where
  "archReject code path message = Inl \<lparr>af_code = code, af_path = path, af_message = message\<rparr>"

lemma archReject_simps [simp]:
  "archReject c p m \<noteq> Inr x" "Inr x \<noteq> archReject c p m" "\<not> is_ok (archReject c p m)"
  "rbind (archReject c p m) f = archReject c p m"
  by (simp_all add: archReject_def)

definition kMaximumFileBytes :: nat where "kMaximumFileBytes = 4 * 1024 * 1024"
definition kMaximumManifestDepth :: nat where "kMaximumManifestDepth = 32"
definition kMaximumJsonMembers :: nat where "kMaximumJsonMembers = 4096"
definition kMaximumJsonElements :: nat where "kMaximumJsonElements = 8192"
definition kMaximumStringLength :: nat where "kMaximumStringLength = 8192"
definition kMaximumPathLength :: nat where "kMaximumPathLength = 1024"
definition kMaximumScannedFiles :: nat where "kMaximumScannedFiles = 65536"
definition kMaximumDirectoryDepth :: nat where "kMaximumDirectoryDepth = 24"
definition kMaximumFindings :: nat where "kMaximumFindings = 65536"
definition kMaximumRules :: nat where "kMaximumRules = 4096"

section \<open>The file system\<close>

text \<open>
  \<open>symlink_status\<close> (\<open>None\<close> when it sets the error code), \<open>file_size\<close> (\<open>None\<close> likewise), opening
  and reading a file into a buffer of a given size, \<open>is_directory\<close> without an error, and the names
  a directory iteration delivers, in whatever order (\<open>None\<close> when it reports an error).
\<close>

datatype FileType = RegularFile | DirectoryFile | SymbolicLink | OtherFile

datatype ReadAnswer = CannotOpen | CannotRead | Contents string

record ArchFiles =
  ad_status :: "string \<Rightarrow> FileType option"
  ad_size :: "string \<Rightarrow> nat option"
  ad_read :: "string \<Rightarrow> nat \<Rightarrow> ReadAnswer"
  ad_directory :: "string \<Rightarrow> bool"
  ad_entries :: "string \<Rightarrow> string list option"

text \<open>\<open>operator/\<close> on a POSIX host.\<close>

definition path_under :: "string \<Rightarrow> string \<Rightarrow> string" where
  "path_under base given =
     (if starts_with given ''/'' then given
      else if base = [] \<or> last base = CHR ''/'' then base @ given
      else base @ CHR ''/'' # given)"

fun collapseCrlf :: "string \<Rightarrow> string" where
  "collapseCrlf [] = []"
| "collapseCrlf (c # raw) =
     (if c = CHR 0x0D \<and> raw \<noteq> [] \<and> hd raw = CHR 0x0A then collapseCrlf raw else c # collapseCrlf raw)"

text \<open>Opening and reading the whole file, after its size is known.\<close>

definition readSized :: "ArchFiles \<Rightarrow> string \<Rightarrow> nat \<Rightarrow> string AResult" where
  "readSized fs path kSize =
     (case ad_read fs path kSize of
        CannotOpen \<Rightarrow> archReject AfIoFailure path ''cannot open the file''
      | CannotRead \<Rightarrow> archReject AfIoFailure path ''cannot read the file''
      | Contents raw \<Rightarrow>
          if length raw \<noteq> kSize then archReject AfIoFailure path ''cannot read the file''
          else Inr (collapseCrlf raw))"

section \<open>The document model\<close>

datatype ManifestNode =
    MNull
  | MBoolean bool
  | MNumber string
  | MString string
  | MArray "ManifestNode list"
  | MObject "(string \<times> ManifestNode) list"

fun manifest_members :: "ManifestNode \<Rightarrow> (string \<times> ManifestNode) list" where
  "manifest_members (MObject ms) = ms" | "manifest_members _ = []"
fun manifest_elements :: "ManifestNode \<Rightarrow> ManifestNode list" where
  "manifest_elements (MArray es) = es" | "manifest_elements _ = []"
fun is_manifest_object :: "ManifestNode \<Rightarrow> bool" where
  "is_manifest_object (MObject _) = True" | "is_manifest_object _ = False"

definition mfind :: "ManifestNode \<Rightarrow> string \<Rightarrow> ManifestNode option" where
  "mfind node key = map_of (manifest_members node) key"

text \<open>A member that is there and a string; the strings of a member that is an array.\<close>

definition mtext :: "ManifestNode \<Rightarrow> string \<Rightarrow> string option" where
  "mtext node key = (case mfind node key of Some (MString s) \<Rightarrow> Some s | _ \<Rightarrow> None)"

fun string_text :: "ManifestNode \<Rightarrow> string list" where
  "string_text (MString s) = [s]" | "string_text _ = []"

definition stringArray :: "ManifestNode \<Rightarrow> string \<Rightarrow> string list" where
  "stringArray parent key =
     (case mfind parent key of Some (MArray es) \<Rightarrow> concat (map string_text es) | _ \<Rightarrow> [])"

record JsonDocument =
  jd_bytes :: string
  jd_root :: ManifestNode

section \<open>The bounded reader\<close>

definition after_number :: "char \<Rightarrow> bool" where
  "after_number c \<longleftrightarrow> c \<in> {CHR '' '', CHR 0x09, CHR 0x0A, CHR 0x0D, CHR '','', CHR ''}'', CHR '']''}"

definition trimManifestNumber :: "string \<Rightarrow> string" where
  "trimManifestNumber token = rev (dropWhile after_number (rev token))"

definition admitMemberName :: "(string \<times> ManifestNode) list \<Rightarrow> string \<Rightarrow> unit AResult" where
  "admitMemberName kept key =
     (if kMaximumStringLength < length key
      then archReject AfLimitExceeded [] ''member name exceeds the string limit''
      else if kMaximumJsonMembers \<le> length kept
      then archReject AfLimitExceeded [] ''object exceeds the member limit''
      else if key \<in> fst ` set kept
      then archReject AfInvalidJson [] (''duplicate member name: '' @ key)
      else Inr ())"

fun buildManifest :: "nat \<Rightarrow> sj_value \<Rightarrow> nat \<Rightarrow> (ManifestNode \<times> nat) AResult"
  and buildManifestArray :: "nat \<Rightarrow> sj_element list \<Rightarrow> nat \<Rightarrow> ManifestNode list \<Rightarrow> (ManifestNode \<times> nat) AResult"
  and buildManifestObject :: "nat \<Rightarrow> sj_field list \<Rightarrow> nat \<Rightarrow> (string \<times> ManifestNode) list
    \<Rightarrow> (ManifestNode \<times> nat) AResult"
where
  "buildManifest nodes v depth =
     (if kMaximumManifestDepth < depth
      then archReject AfLimitExceeded [] ''document nesting exceeds the depth limit''
      else if kMaximumJsonElements + kMaximumJsonMembers < nodes + 1
      then archReject AfLimitExceeded [] ''document exceeds the node limit''
      else case v of
        SjUnreadable kError \<Rightarrow> archReject AfInvalidJson [] (''malformed value: '' @ kError)
      | SjObject fs \<Rightarrow> buildManifestObject (nodes + 1) fs depth []
      | SjObjectRefused \<Rightarrow> archReject AfInvalidJson [] ''malformed object''
      | SjArray elements \<Rightarrow> buildManifestArray (nodes + 1) elements depth []
      | SjArrayRefused \<Rightarrow> archReject AfInvalidJson [] ''malformed array''
      | SjNumber token \<Rightarrow>
          (let kText = trimManifestNumber token
           in if kText = [] then archReject AfInvalidJson [] ''empty numeric token''
              else Inr (MNumber kText, nodes + 1))
      | SjString t \<Rightarrow>
          if kMaximumStringLength < length t
          then archReject AfLimitExceeded [] ''string exceeds the string limit''
          else Inr (MString t, nodes + 1)
      | SjStringRefused kError \<Rightarrow> archReject AfInvalidJson [] (''malformed string: '' @ kError)
      | SjBool b \<Rightarrow> Inr (MBoolean b, nodes + 1)
      | SjBoolRefused \<Rightarrow> archReject AfInvalidJson [] ''malformed boolean''
      | SjNull \<Rightarrow> Inr (MNull, nodes + 1)
      | SjUnknown \<Rightarrow> archReject AfInvalidJson [] ''unsupported JSON value'')"
| "buildManifestArray nodes [] depth kept = Inr (MArray kept, nodes)"
| "buildManifestArray nodes (element # rest) depth kept =
     (if kMaximumJsonElements \<le> length kept
      then archReject AfLimitExceeded [] ''array exceeds the element limit''
      else case element of
        SjElementError kError \<Rightarrow> archReject AfInvalidJson [] (''malformed array element: '' @ kError)
      | SjElement child \<Rightarrow>
          rbind (buildManifest nodes child (depth + 1)) (\<lambda>(built, nodes').
            buildManifestArray nodes' rest depth (kept @ [built])))"
| "buildManifestObject nodes [] depth kept = Inr (MObject kept, nodes)"
| "buildManifestObject nodes (field # rest) depth kept =
     (case field of
        SjKeyError kError \<Rightarrow> archReject AfInvalidJson [] (''malformed member name: '' @ kError)
      | SjValueError key kError \<Rightarrow>
          rbind (admitMemberName kept key) (\<lambda>_.
            archReject AfInvalidJson [] (''malformed member value: '' @ kError))
      | SjField key child \<Rightarrow>
          rbind (admitMemberName kept key) (\<lambda>_.
            rbind (buildManifest nodes child (depth + 1)) (\<lambda>(built, nodes').
              buildManifestObject nodes' rest depth (kept @ [(key, built)]))))"

definition parseManifest :: "(string \<Rightarrow> sj_document) \<Rightarrow> string \<Rightarrow> ManifestNode AResult" where
  "parseManifest iterate bytes =
     (if kMaximumFileBytes < length bytes
      then archReject AfLimitExceeded [] ''document exceeds the file byte limit''
      else case iterate bytes of
        SjNotJson kError \<Rightarrow> archReject AfInvalidJson [] (''document is not JSON: '' @ kError)
      | SjNoRoot kError \<Rightarrow> archReject AfInvalidJson [] ''document has no root value''
      | SjDocument root at_end \<Rightarrow> rbind (buildManifest 0 root 0) (\<lambda>(built, nodes). Inr built))"

definition readJsonDocument :: "(string \<Rightarrow> sj_document) \<Rightarrow> ArchFiles \<Rightarrow> string \<Rightarrow> JsonDocument AResult" where
  "readJsonDocument iterate fs path =
     (case ad_status fs path of
        None \<Rightarrow> archReject AfIoFailure path ''cannot stat the file''
      | Some kStatus \<Rightarrow>
          if kStatus = SymbolicLink then archReject AfInvalidPath path ''the path is a link''
          else if kStatus \<noteq> RegularFile then archReject AfMissingInput path ''the path is not an ordinary file''
          else case ad_size fs path of
            None \<Rightarrow> archReject AfIoFailure path ''cannot size the file''
          | Some kSize \<Rightarrow>
              if kMaximumFileBytes < kSize
              then archReject AfLimitExceeded path ''the file exceeds the byte limit''
              else rbind (readSized fs path kSize) (\<lambda>bytes.
                rmap_failure (\<lambda>failure. failure\<lparr>af_path := path\<rparr>)
                  (rbind (parseManifest iterate bytes) (\<lambda>root.
                    Inr \<lparr>jd_bytes = bytes, jd_root = root\<rparr>))))"

section \<open>The maintained form\<close>

definition escapeManifestChar :: "char \<Rightarrow> string" where
  "escapeManifestChar kCharacter =
     (let kByte = (of_char kCharacter :: nat) in
      if kCharacter = CHR 0x22 then [CHR 0x5C, CHR 0x22]
      else if kCharacter = CHR 0x5C then [CHR 0x5C, CHR 0x5C]
      else if kCharacter = CHR 0x08 then [CHR 0x5C, CHR ''b'']
      else if kCharacter = CHR 0x0C then [CHR 0x5C, CHR ''f'']
      else if kCharacter = CHR 0x0A then [CHR 0x5C, CHR ''n'']
      else if kCharacter = CHR 0x0D then [CHR 0x5C, CHR ''r'']
      else if kCharacter = CHR 0x09 then [CHR 0x5C, CHR ''t'']
      else if kByte < 0x20
      then CHR 0x5C # ''u00'' @ [hex_char (kByte div 16 mod 16), hex_char (kByte mod 16)]
      else [kCharacter])"

definition quoteManifest :: "string \<Rightarrow> string" where
  "quoteManifest s = CHR 0x22 # concat (map escapeManifestChar s) @ [CHR 0x22]"

definition spaces :: "nat \<Rightarrow> string" where
  "spaces n = replicate n CHR '' ''"

text \<open>The items of an array or object, one per line, and the bracket that closes it.\<close>

fun item_lines :: "nat \<Rightarrow> string list \<Rightarrow> string" where
  "item_lines indent [] = []"
| "item_lines indent (x # xs) =
     spaces (2 * (indent + 1)) @ x @ (if xs = [] then [CHR 0x0A] else CHR '','' # [CHR 0x0A]) @ item_lines indent xs"

definition bracketed :: "nat \<Rightarrow> string \<Rightarrow> string \<Rightarrow> string list \<Rightarrow> string" where
  "bracketed indent opening closing items =
     (if items = [] then opening @ closing
      else opening @ [CHR 0x0A] @ item_lines indent items @ spaces (2 * indent) @ closing)"

fun serializeInto :: "ManifestNode \<Rightarrow> nat \<Rightarrow> string" where
  "serializeInto MNull indent = ''null''"
| "serializeInto (MBoolean b) indent = (if b then ''true'' else ''false'')"
| "serializeInto (MNumber t) indent = t"
| "serializeInto (MString t) indent = quoteManifest t"
| "serializeInto (MArray es) indent =
     bracketed indent ''['' '']'' (map (\<lambda>e. serializeInto e (indent + 1)) es)"
| "serializeInto (MObject ms) indent =
     bracketed indent ''{'' ''}''
       (map (\<lambda>m. quoteManifest (fst m) @ '': '' @ serializeInto (snd m) (indent + 1)) ms)"

definition serializeMaintainedForm :: "ManifestNode \<Rightarrow> string" where
  "serializeMaintainedForm node = serializeInto node 0"

section \<open>What the reader admits\<close>

fun unique_members :: "ManifestNode \<Rightarrow> bool" where
  "unique_members (MArray es) = list_all unique_members es"
| "unique_members (MObject ms) = (distinct (map fst ms) \<and> list_all (\<lambda>m. unique_members (snd m)) ms)"
| "unique_members _ = True"

fun manifest_depth :: "ManifestNode \<Rightarrow> nat" where
  "manifest_depth (MArray es) = fold max (map (\<lambda>e. Suc (manifest_depth e)) es) 0"
| "manifest_depth (MObject ms) = fold max (map (\<lambda>m. Suc (manifest_depth (snd m))) ms) 0"
| "manifest_depth _ = 0"

lemma fold_max_bound: "fold max xs (a::nat) \<le> b \<longleftrightarrow> a \<le> b \<and> (\<forall>x\<in>set xs. x \<le> b)"
  by (induction xs arbitrary: a) auto

text \<open>A node read at a given depth: its member names are unique and its nesting is bounded.\<close>

definition admitted :: "nat \<Rightarrow> ManifestNode \<Rightarrow> bool" where
  "admitted depth node \<longleftrightarrow> unique_members node \<and> depth + manifest_depth node \<le> kMaximumManifestDepth"

lemma admitted_array: "depth \<le> kMaximumManifestDepth \<Longrightarrow> \<forall>e\<in>set es. admitted (depth + 1) e \<Longrightarrow> admitted depth (MArray es)"
  using fold_max_bound [of "map (\<lambda>e. Suc (manifest_depth e)) es" 0 "kMaximumManifestDepth - depth"]
  by (fastforce simp: admitted_def list_all_iff)

lemma admitted_object:
  "depth \<le> kMaximumManifestDepth \<Longrightarrow> distinct (map fst ms) \<Longrightarrow> \<forall>m\<in>set ms. admitted (depth + 1) (snd m) \<Longrightarrow>
     admitted depth (MObject ms)"
  using fold_max_bound [of "map (\<lambda>m. Suc (manifest_depth (snd m))) ms" 0 "kMaximumManifestDepth - depth"]
  by (fastforce simp: admitted_def list_all_iff)

lemma admitMemberName_ok: "admitMemberName kept key = Inr () \<Longrightarrow> key \<notin> fst ` set kept"
  by (auto simp: admitMemberName_def split: if_splits)

lemma build_admitted:
  "buildManifest n v d = Inr (node, n') \<Longrightarrow> admitted d node"
  "buildManifestArray n es d kept = Inr (node, n') \<Longrightarrow> d \<le> kMaximumManifestDepth \<Longrightarrow>
     \<forall>e\<in>set kept. admitted (d + 1) e \<Longrightarrow> admitted d node"
  "buildManifestObject n fs d mkept = Inr (node, n') \<Longrightarrow> d \<le> kMaximumManifestDepth \<Longrightarrow>
     distinct (map fst mkept) \<Longrightarrow> \<forall>m\<in>set mkept. admitted (d + 1) (snd m) \<Longrightarrow> admitted d node"
proof (induction n v d and n es d kept and n fs d mkept arbitrary: node n' and node n' and node n'
    rule: buildManifest_buildManifestArray_buildManifestObject.induct)
  case (1 nodes v depth)
  then show ?case
    by (cases v) (auto simp: admitted_def Let_def split: if_splits)
next
  case (2 nodes depth kept)
  then show ?case by (auto intro: admitted_array)
next
  case (3 nodes element rest depth kept)
  from 3(3) obtain child built nodes' where e: "element = SjElement child"
    and limit: "\<not> kMaximumJsonElements \<le> length kept"
    and b: "buildManifest nodes child (depth + 1) = Inr (built, nodes')"
    and r: "buildManifestArray nodes' rest depth (kept @ [built]) = Inr (node, n')"
    by (auto split: if_splits sj_element.splits)
  have "admitted (depth + 1) built" by (rule 3(1) [OF limit e b])
  then show ?case
    using 3(2) [OF limit e b refl r 3(4)] 3(5) by auto
next
  case (4 nodes depth kept)
  then show ?case using admitted_object [of depth kept] by auto
next
  case (5 nodes field rest depth kept)
  from 5(3) obtain key child built nodes' where f: "field = SjField key child"
    and k: "admitMemberName kept key = Inr ()"
    and b: "buildManifest nodes child (depth + 1) = Inr (built, nodes')"
    and r: "buildManifestObject nodes' rest depth (kept @ [(key, built)]) = Inr (node, n')"
    by (auto split: sj_field.splits)
  have "admitted (depth + 1) built" by (rule 5(1) [OF f k b])
  then show ?case
    using 5(2) [OF f k b refl r 5(4)] 5(5,6) admitMemberName_ok [OF k] by auto
qed

declare buildManifest.simps [simp del]

lemma parseManifest_admitted: "parseManifest iterate bytes = Inr node \<Longrightarrow> admitted 0 node"
  by (auto simp: parseManifest_def build_admitted(1) split: if_splits sj_document.splits)

lemma readJsonDocument_admitted:
  assumes "readJsonDocument iterate fs path = Inr document"
  shows "admitted 0 (jd_root document)" and "parseManifest iterate (jd_bytes document) = Inr (jd_root document)"
  using assms by (auto simp: readJsonDocument_def parseManifest_admitted split: option.splits if_splits)

section \<open>Line endings do not matter\<close>

text \<open>The same text as a checkout with carriage returns writes it.\<close>

definition with_crlf :: "string \<Rightarrow> string" where
  "with_crlf s = concat (map (\<lambda>c. if c = CHR 0x0A then [CHR 0x0D, CHR 0x0A] else [c]) s)"

lemma collapse_with_crlf: "CHR 0x0D \<notin> set s \<Longrightarrow> collapseCrlf (with_crlf s) = s"
proof (induction s)
  case (Cons c s)
  then have "collapseCrlf (with_crlf s) = s" and "c \<noteq> CHR 0x0D" by auto
  then show ?case by (simp add: with_crlf_def)
qed (simp add: with_crlf_def)

section \<open>The maintained form identifies the document\<close>

lemma escapeManifestChar_json: "escapeManifestChar = json_escape"
  by (simp add: fun_eq_iff escapeManifestChar_def json_escape_def Let_def high_nibble)

interpretation manifest_text: text_escape escapeManifestChar unescape
  by unfold_locales (simp_all add: escapeManifestChar_json unescape_escape)

lemma quoteManifest_prefix: "quoteManifest s @ r = quoteManifest t @ r' \<Longrightarrow> s = t \<and> r = r'"
  using manifest_text.quoted_prefix [of s r t r'] by (simp add: quoteManifest_def manifest_text.quoted_def)

text \<open>
  A number is kept as it was written; what the grammar allows there begins with a sign or a digit
  and runs up to a character that ends numbers.
\<close>

definition number_text :: "string \<Rightarrow> bool" where
  "number_text t \<longleftrightarrow> t \<noteq> [] \<and> (hd t = CHR ''-'' \<or> is_digit (hd t)) \<and> list_all (\<lambda>c. \<not> after_number c) t"

fun plain_numbers :: "ManifestNode \<Rightarrow> bool" where
  "plain_numbers (MNumber t) = number_text t"
| "plain_numbers (MArray es) = list_all plain_numbers es"
| "plain_numbers (MObject ms) = list_all (\<lambda>m. plain_numbers (snd m)) ms"
| "plain_numbers _ = True"

text \<open>What comes after a node: nothing, a comma or a line break.\<close>

definition line_end :: "string \<Rightarrow> bool" where
  "line_end r \<longleftrightarrow> r = [] \<or> hd r \<in> {CHR '','', CHR 0x0A}"

lemma number_prefix:
  "number_text t \<Longrightarrow> number_text u \<Longrightarrow> line_end r \<Longrightarrow> line_end r' \<Longrightarrow> t @ r = u @ r' \<Longrightarrow> t = u \<and> r = r'"
proof -
  assume t: "number_text t" "number_text u" and r: "line_end r" "line_end r'" and eq: "t @ r = u @ r'"
  have "takeWhile (\<lambda>c. \<not> after_number c) (v @ s) = v" if "number_text v" "line_end s" for v s
    using that by (cases s) (auto simp: number_text_def line_end_def after_number_def list_all_iff takeWhile_append)
  from this [OF t(1) r(1)] this [OF t(2) r(2)] eq have "t = u" by metis
  with eq show ?thesis by simp
qed

lemma spaces_prefix: "spaces n @ r = spaces n @ r' \<longleftrightarrow> r = r'"
  by simp

text \<open>Items that are a prefix code before a comma or a line break stay one when laid out in lines.\<close>

lemma item_lines_prefix:
  assumes "item_lines indent (map f xs) @ s = item_lines indent (map f ys) @ s'"
    and "xs \<noteq> []" and "ys \<noteq> []"
    and item: "\<And>x y r r'. x \<in> set xs \<Longrightarrow> y \<in> set ys \<Longrightarrow> line_end r \<Longrightarrow> line_end r' \<Longrightarrow> f x @ r = f y @ r' \<Longrightarrow>
      x = y \<and> r = r'"
  shows "xs = ys \<and> s = s'"
  using assms
proof (induction xs arbitrary: ys)
  case (Cons x xs)
  note prems = Cons.prems
  obtain y zs where ys: "ys = y # zs" using prems(3) by (cases ys) auto
  let ?tail = "\<lambda>vs t. (if map f vs = [] then [CHR 0x0A] else CHR '','' # [CHR 0x0A]) @ item_lines indent (map f vs) @ t"
  have "f x @ ?tail xs s = f y @ ?tail zs s'"
    using prems(1) ys by simp
  moreover have "line_end (?tail vs t)" for vs t
    by (simp add: line_end_def)
  ultimately have x: "x = y" and tail: "?tail xs s = ?tail zs s'"
    using prems(4) [of x y "?tail xs s" "?tail zs s'"] ys by auto
  show ?case
  proof (cases "xs = [] \<or> zs = []")
    case True
    then show ?thesis using tail x ys by (cases xs; cases zs) auto
  next
    case False
    then have "xs = zs \<and> s = s'"
      using Cons.IH [of zs] tail prems(4) ys by auto
    with x ys show ?thesis by simp
  qed
qed simp

lemma bracketed_prefix:
  assumes "bracketed indent opening [c] (map f xs) @ s = bracketed indent opening [c] (map f ys) @ s'"
    and "c \<noteq> CHR 0x0A"
    and "\<And>x y r r'. x \<in> set xs \<Longrightarrow> y \<in> set ys \<Longrightarrow> line_end r \<Longrightarrow> line_end r' \<Longrightarrow> f x @ r = f y @ r' \<Longrightarrow>
      x = y \<and> r = r'"
  shows "xs = ys \<and> s = s'"
proof (cases "xs = [] \<or> ys = []")
  case True
  then show ?thesis
    using assms(1,2) by (cases xs; cases ys) (auto simp: bracketed_def)
next
  case False
  with assms(1) have "item_lines indent (map f xs) @ (spaces (2 * indent) @ c # s) =
      item_lines indent (map f ys) @ (spaces (2 * indent) @ c # s')"
    by (simp add: bracketed_def)
  then have "xs = ys \<and> spaces (2 * indent) @ c # s = spaces (2 * indent) @ c # s'"
    by (rule item_lines_prefix) (use False in simp, use False in simp, rule assms(3))
  then show ?thesis by simp
qed

text \<open>The first character tells the kinds of nodes apart.\<close>

fun node_kind :: "ManifestNode \<Rightarrow> nat" where
  "node_kind MNull = 0" | "node_kind (MBoolean b) = (if b then 1 else 2)" | "node_kind (MNumber _) = 3"
| "node_kind (MString _) = 4" | "node_kind (MArray _) = 5" | "node_kind (MObject _) = 6"

definition kind_of_char :: "char \<Rightarrow> nat" where
  "kind_of_char c =
     (if c = CHR ''n'' then 0 else if c = CHR ''t'' then 1 else if c = CHR ''f'' then 2
      else if c = CHR 0x22 then 4 else if c = CHR ''['' then 5 else if c = CHR ''{'' then 6 else 3)"

lemma serializeInto_not_Nil [simp]: "plain_numbers node \<Longrightarrow> serializeInto node indent \<noteq> []"
  by (cases node) (auto simp: quoteManifest_def bracketed_def number_text_def)

lemma serializeInto_kind: "plain_numbers node \<Longrightarrow> kind_of_char (hd (serializeInto node indent)) = node_kind node"
  by (cases node) (auto simp: quoteManifest_def bracketed_def number_text_def kind_of_char_def is_digit_def)

lemma size_manifest_element [termination_simp]: "e \<in> set es \<Longrightarrow> size e < size (MArray es)"
  by (induction es) auto

lemma size_manifest_member [termination_simp]: "m \<in> set ms \<Longrightarrow> size (snd m) < size (MObject ms)"
proof (induction ms)
  case (Cons n ms)
  then show ?case by (cases n) auto
qed simp

lemma serializeInto_prefix:
  "plain_numbers v \<Longrightarrow> plain_numbers w \<Longrightarrow> line_end r \<Longrightarrow> line_end r' \<Longrightarrow>
     serializeInto v indent @ r = serializeInto w indent @ r' \<Longrightarrow> v = w \<and> r = r'"
proof (induction v arbitrary: w r r' indent rule: measure_induct_rule [of size])
  case (less v)
  note eq = less.prems(5)
  have "hd (serializeInto v indent) = hd (serializeInto w indent)"
    using arg_cong [OF eq, of hd] less.prems(1,2) by simp
  then have same: "node_kind v = node_kind w"
    using serializeInto_kind less.prems(1,2) by metis
  show ?case
  proof (cases v)
    case MNull
    then show ?thesis using same eq by (cases w) (simp_all split: if_splits)
  next
    case (MBoolean b)
    then show ?thesis using same eq by (cases w) (simp_all split: if_splits)
  next
    case (MNumber t)
    then obtain u where "w = MNumber u" using same by (cases w) (auto split: if_splits)
    then show ?thesis
      using MNumber eq less.prems(1-4) number_prefix [of t u r r'] by simp
  next
    case (MString t)
    then obtain u where "w = MString u" using same by (cases w) (auto split: if_splits)
    then show ?thesis
      using MString eq quoteManifest_prefix [of t r u r'] by simp
  next
    case (MArray es)
    then obtain ds where w: "w = MArray ds" using same by (cases w) (auto split: if_splits)
    let ?f = "\<lambda>e. serializeInto e (indent + 1)"
    have "es = ds \<and> r = r'"
    proof (rule bracketed_prefix [where f = ?f and c = "CHR '']''"])
      show "x = y \<and> s = s'"
        if "x \<in> set es" "y \<in> set ds" "line_end s" "line_end s'" "?f x @ s = ?f y @ s'" for x y s s'
        using less.IH [of x y s s' "indent + 1"] that MArray w size_manifest_element [OF that(1)] less.prems(1,2)
        by (simp add: list_all_iff)
    qed (use eq MArray w in simp_all)
    then show ?thesis using MArray w by simp
  next
    case (MObject ms)
    then obtain ns where w: "w = MObject ns" using same by (cases w) (auto split: if_splits)
    let ?f = "\<lambda>m. quoteManifest (fst m) @ '': '' @ serializeInto (snd m) (indent + 1)"
    have "ms = ns \<and> r = r'"
    proof (rule bracketed_prefix [where f = ?f and c = "CHR ''}''"])
      show "x = y \<and> s = s'"
        if "x \<in> set ms" "y \<in> set ns" "line_end s" "line_end s'" "?f x @ s = ?f y @ s'" for x y s s'
      proof -
        have "fst x = fst y \<and> serializeInto (snd x) (indent + 1) @ s = serializeInto (snd y) (indent + 1) @ s'"
          using that(5) quoteManifest_prefix [of "fst x" "'': '' @ serializeInto (snd x) (indent + 1) @ s"
              "fst y" "'': '' @ serializeInto (snd y) (indent + 1) @ s'"] by simp
        then show ?thesis
          using less.IH [of "snd x" "snd y" s s' "indent + 1"] that MObject w size_manifest_member [OF that(1)]
            less.prems(1,2)
          by (auto simp: list_all_iff prod_eq_iff)
      qed
    qed (use eq MObject w in simp_all)
    then show ?thesis using MObject w by simp
  qed
qed

lemma serializeMaintainedForm_inj:
  "plain_numbers v \<Longrightarrow> plain_numbers w \<Longrightarrow> serializeMaintainedForm v = serializeMaintainedForm w \<Longrightarrow> v = w"
  using serializeInto_prefix [of v w "[]" "[]" 0] by (simp add: serializeMaintainedForm_def line_end_def)

text \<open>\<open>makeNumber\<close>: a number the tool itself writes.\<close>

definition makeNumber :: "int \<Rightarrow> ManifestNode" where
  "makeNumber n = MNumber (int_to_string n)"

lemma number_text_int: "number_text (int_to_string n)"
proof -
  have "\<not> after_number c" if "is_digit c" for c
    using that by (auto simp: after_number_def is_digit_def)
  moreover have "is_digit c" if "c \<in> set (nat_to_string k)" for c k
    using that nat_to_string_digits by blast
  moreover have "is_digit (hd (nat_to_string k))" for k
    using nat_to_string_digits [of k] hd_in_set [of "nat_to_string k"] by simp
  ultimately show ?thesis
    by (auto simp: number_text_def int_to_string_def list_all_iff after_number_def)
qed

lemma makeNumber_inj [simp]: "makeNumber m = makeNumber n \<longleftrightarrow> m = n" "plain_numbers (makeNumber n)"
  by (simp_all add: makeNumber_def int_to_string_inj number_text_int)

end
