(* ===== verification/Arch_Scan.thy ===== *)
theory Arch_Scan
  imports Arch_Json
begin

text \<open>
  \<open>tools/rf_archcheck/src/repository_scan.{h,cpp}\<close>: the one walk over the repository, in an order
  that does not depend on the file system, with its refusals and ceilings, and the path predicates
  the checks use.
\<close>

section \<open>The walk\<close>

record ScannedFile =
  sf_path :: string
  sf_bytes :: nat

record RepositoryScan =
  sc_files :: "ScannedFile list"
  sc_directories :: "string list"

definition hasFile :: "RepositoryScan \<Rightarrow> string \<Rightarrow> bool" where
  "hasFile scan path = list_ex (\<lambda>file. sf_path file = path) (sc_files scan)"

definition hasDirectory :: "RepositoryScan \<Rightarrow> string \<Rightarrow> bool" where
  "hasDirectory scan path = list_ex (\<lambda>entry. entry = path) (sc_directories scan)"

definition kUnwalkedRoots :: "string list" where
  "kUnwalkedRoots = [''.git'', ''out'']"

definition isUnwalked :: "string \<Rightarrow> bool" where
  "isUnwalked name = list_ex (\<lambda>root. root = name) kUnwalkedRoots"

definition admissible_char :: "char \<Rightarrow> bool" where
  "admissible_char character =
     (let kByte = (of_char character :: nat)
      in if kByte < 0x20 \<or> kByte = 0x7F then False
         else character \<notin> {CHR 0x5C, CHR '':'', CHR ''*'', CHR ''?'', CHR 0x22, CHR ''<'', CHR ''>'', CHR ''|''})"

definition isAdmissibleName :: "string \<Rightarrow> bool" where
  "isAdmissibleName name =
     (if name = [] \<or> name = ''.'' \<or> name = ''..'' then False
      else if kMaximumPathLength < length name then False
      else list_all admissible_char name)"

text \<open>What one directory entry is: left out, a directory to enter, or a file to add.\<close>

datatype EntryKind = SkipEntry | EnterDirectory | AddFile

definition classifyEntry :: "ArchFiles \<Rightarrow> string \<Rightarrow> string \<Rightarrow> string \<Rightarrow> EntryKind AResult" where
  "classifyEntry fs directory pre kName =
     (let kRelative = pre @ kName
      in if pre = [] \<and> isUnwalked kName then Inr SkipEntry
         else if \<not> isAdmissibleName kName
         then archReject AfInvalidPath kRelative ''the name is not an admissible path component''
         else if kMaximumPathLength < length kRelative
         then archReject AfLimitExceeded kRelative ''the path exceeds the path length limit''
         else case ad_status fs (path_under directory kName) of
           None \<Rightarrow> archReject AfIoFailure kRelative ''cannot stat the entry''
         | Some SymbolicLink \<Rightarrow> archReject AfInvalidPath kRelative ''the entry is a link''
         | Some DirectoryFile \<Rightarrow> Inr EnterDirectory
         | Some OtherFile \<Rightarrow> archReject AfInvalidPath kRelative ''the entry is not an ordinary file''
         | Some RegularFile \<Rightarrow> Inr AddFile)"

definition addFile :: "ArchFiles \<Rightarrow> string \<Rightarrow> string \<Rightarrow> string \<Rightarrow> RepositoryScan \<Rightarrow> RepositoryScan AResult" where
  "addFile fs directory pre kName scan =
     (if kMaximumScannedFiles \<le> length (sc_files scan)
      then archReject AfLimitExceeded (pre @ kName) ''the tree exceeds the scanned file limit''
      else case ad_size fs (path_under directory kName) of
        None \<Rightarrow> archReject AfIoFailure (pre @ kName) ''cannot size the entry''
      | Some kSize \<Rightarrow>
          Inr (scan\<lparr>sc_files := sc_files scan @ [\<lparr>sf_path = pre @ kName, sf_bytes = kSize\<rparr>]\<rparr>))"

definition addDirectory :: "string \<Rightarrow> RepositoryScan \<Rightarrow> RepositoryScan" where
  "addDirectory kRelative scan = scan\<lparr>sc_directories := sc_directories scan @ [kRelative]\<rparr>"

text \<open>One turn of the loop over the entries of a directory; \<open>enter\<close> is the walk of a subdirectory.\<close>

definition visitEntry :: "ArchFiles \<Rightarrow> string \<Rightarrow> string \<Rightarrow> (string \<Rightarrow> RepositoryScan \<Rightarrow> RepositoryScan AResult) \<Rightarrow>
    RepositoryScan \<Rightarrow> string \<Rightarrow> RepositoryScan AResult" where
  "visitEntry fs directory pre enter scan kName =
     rbind (classifyEntry fs directory pre kName) (\<lambda>kind. case kind of
       SkipEntry \<Rightarrow> Inr scan
     | AddFile \<Rightarrow> addFile fs directory pre kName scan
     | EnterDirectory \<Rightarrow> enter kName (addDirectory (pre @ kName) scan))"

lemma visitEntry_cong [fundef_cong]:
  "fs = gs \<Longrightarrow> directory = directory' \<Longrightarrow> pre = pre' \<Longrightarrow> (\<And>n s. enter n s = enter' n s) \<Longrightarrow> scan = scan' \<Longrightarrow>
     name = name' \<Longrightarrow> visitEntry fs directory pre enter scan name = visitEntry gs directory' pre' enter' scan' name'"
  by (simp add: visitEntry_def cong: EntryKind.case_cong)

function walk :: "ArchFiles \<Rightarrow> string \<Rightarrow> string \<Rightarrow> nat \<Rightarrow> RepositoryScan \<Rightarrow> RepositoryScan AResult" where
  "walk fs directory pre depth scan =
     (if kMaximumDirectoryDepth < depth
      then archReject AfLimitExceeded pre ''directory nesting exceeds the depth limit''
      else case ad_entries fs directory of
        None \<Rightarrow> archReject AfIoFailure pre ''cannot enumerate the directory''
      | Some entries \<Rightarrow>
          rfold (\<lambda>scan kName.
            visitEntry fs directory pre
              (\<lambda>kName scan. walk fs (path_under directory kName) (pre @ kName @ ''/'') (depth + 1) scan) scan kName)
            scan (sort entries))"
  by pat_completeness auto
termination
  by (relation "measure (\<lambda>(fs, directory, pre, depth, scan). Suc kMaximumDirectoryDepth - depth)") auto

declare walk.simps [simp del]

definition scanRepository :: "ArchFiles \<Rightarrow> string \<Rightarrow> RepositoryScan AResult" where
  "scanRepository fs root =
     (if \<not> ad_directory fs root
      then archReject AfMissingInput root ''the repository root is not a directory''
      else rbind (walk fs root [] 0 \<lparr>sc_files = [], sc_directories = []\<rparr>) (\<lambda>scan.
        Inr (scan\<lparr>sc_files := sort_by (\<lambda>left right. sf_path left < sf_path right) (sc_files scan),
                 sc_directories := sort (sc_directories scan)\<rparr>)))"

section \<open>Reading a text file, and paths\<close>

definition readTextFile :: "ArchFiles \<Rightarrow> string \<Rightarrow> string AResult" where
  "readTextFile fs path =
     (if ad_status fs path \<noteq> Some RegularFile
      then archReject AfMissingInput path ''the path is not an ordinary file''
      else case ad_size fs path of
        None \<Rightarrow> archReject AfIoFailure path ''cannot size the file''
      | Some kSize \<Rightarrow>
          if kMaximumFileBytes < kSize
          then archReject AfLimitExceeded path ''the file exceeds the byte limit''
          else readSized fs path kSize)"

definition lastSegment :: "string \<Rightarrow> string" where
  "lastSegment path = (case rindex_of CHR ''/'' path of None \<Rightarrow> path | Some kSlash \<Rightarrow> drop (kSlash + 1) path)"

definition fileExtension :: "string \<Rightarrow> string" where
  "fileExtension relativePath =
     (let kName = lastSegment relativePath
      in case rindex_of CHR ''.'' kName of
           None \<Rightarrow> []
         | Some kDot \<Rightarrow> if kDot = 0 then [] else drop kDot kName)"

definition isBuildFile :: "string \<Rightarrow> bool" where
  "isBuildFile relativePath \<longleftrightarrow>
     lastSegment relativePath = ''CMakeLists.txt'' \<or> fileExtension relativePath = ''.cmake''"

definition isFirstPartySource :: "string \<Rightarrow> bool" where
  "isFirstPartySource relativePath =
     (let kExtension = fileExtension relativePath
      in if kExtension \<noteq> ''.cpp'' \<and> kExtension \<noteq> ''.h'' then False
         else starts_with relativePath ''tools/'' \<or> starts_with relativePath ''source/'')"

definition parentDirectory :: "string \<Rightarrow> string" where
  "parentDirectory path = (case rindex_of CHR ''/'' path of None \<Rightarrow> [] | Some kSlash \<Rightarrow> take kSlash path)"

section \<open>The tree that is walked\<close>

text \<open>
  The directories the walk is in charge of, with the prefix of the paths in them; a subdirectory is
  one unless it is one of the two roots that are not walked.
\<close>

definition entered :: "ArchFiles \<Rightarrow> string \<Rightarrow> string \<Rightarrow> string \<Rightarrow> bool" where
  "entered fs directory pre name \<longleftrightarrow>
     (\<exists>entries. ad_entries fs directory = Some entries \<and> name \<in> set entries) \<and> \<not> (pre = [] \<and> isUnwalked name)"

inductive beneath :: "ArchFiles \<Rightarrow> string \<Rightarrow> string \<Rightarrow> string \<Rightarrow> string \<Rightarrow> bool"
  for fs :: ArchFiles where
  here: "beneath fs directory pre directory pre"
| inside: "entered fs directory pre name \<Longrightarrow> ad_status fs (path_under directory name) = Some DirectoryFile \<Longrightarrow>
    beneath fs (path_under directory name) (pre @ name @ ''/'') d p \<Longrightarrow> beneath fs directory pre d p"

text \<open>The entries of a given type in the tree below a directory, by path.\<close>

definition paths_below :: "ArchFiles \<Rightarrow> FileType option \<Rightarrow> string \<Rightarrow> string \<Rightarrow> string set" where
  "paths_below fs kind directory pre =
     {p @ name | d p name. beneath fs directory pre d p \<and> entered fs d p name \<and> ad_status fs (path_under d name) = kind}"

text \<open>What one entry of a directory contributes to those.\<close>

definition contributes :: "ArchFiles \<Rightarrow> FileType option \<Rightarrow> string \<Rightarrow> string \<Rightarrow> string \<Rightarrow> string set" where
  "contributes fs kind directory pre name =
     (if pre = [] \<and> isUnwalked name then {}
      else (if ad_status fs (path_under directory name) = kind then {pre @ name} else {}) \<union>
           (if ad_status fs (path_under directory name) = Some DirectoryFile
            then paths_below fs kind (path_under directory name) (pre @ name @ ''/'') else {}))"

lemma contributes_iff:
  "path \<in> contributes fs kind directory pre name \<longleftrightarrow> \<not> (pre = [] \<and> isUnwalked name) \<and>
     (ad_status fs (path_under directory name) = kind \<and> path = pre @ name \<or>
      ad_status fs (path_under directory name) = Some DirectoryFile \<and>
        path \<in> paths_below fs kind (path_under directory name) (pre @ name @ ''/''))"
  by (simp add: contributes_def)

lemma paths_belowI:
  "beneath fs directory pre d p \<Longrightarrow> entered fs d p name \<Longrightarrow> ad_status fs (path_under d name) = kind \<Longrightarrow>
     p @ name \<in> paths_below fs kind directory pre"
  by (auto simp: paths_below_def)

lemma paths_below_contributions:
  assumes "ad_entries fs directory = Some entries"
  shows "paths_below fs kind directory pre = (\<Union>name\<in>set entries. contributes fs kind directory pre name)"
    (is "_ = ?all")
proof (rule set_eqI iffI)+
  fix path
  assume "path \<in> paths_below fs kind directory pre"
  then obtain d p name where path: "path = p @ name" and below: "beneath fs directory pre d p"
    and name: "entered fs d p name" "ad_status fs (path_under d name) = kind"
    by (auto simp: paths_below_def)
  from below show "path \<in> ?all"
  proof (cases rule: beneath.cases)
    case here
    have "path \<in> contributes fs kind directory pre name"
      using here name path by (auto simp: entered_def contributes_iff)
    moreover have "name \<in> set entries" using here name(1) assms by (auto simp: entered_def)
    ultimately show ?thesis by blast
  next
    case (inside child)
    then have "path \<in> paths_below fs kind (path_under directory child) (pre @ child @ ''/'')"
      using name path by (auto intro: paths_belowI)
    with inside have "path \<in> contributes fs kind directory pre child"
      by (auto simp: entered_def contributes_iff)
    moreover have "child \<in> set entries" using inside assms by (auto simp: entered_def)
    ultimately show ?thesis by blast
  qed
next
  fix path
  assume "path \<in> ?all"
  then obtain name where name: "entered fs directory pre name" and path: "path \<in> contributes fs kind directory pre name"
    using assms by (auto simp: entered_def contributes_iff)
  show "path \<in> paths_below fs kind directory pre"
  proof (cases "ad_status fs (path_under directory name) = kind \<and> path = pre @ name")
    case True
    then show ?thesis
      using paths_belowI [OF beneath.here name] by blast
  next
    case False
    with path have "ad_status fs (path_under directory name) = Some DirectoryFile"
      and "path \<in> paths_below fs kind (path_under directory name) (pre @ name @ ''/'')"
      by (auto simp: contributes_iff)
    then show ?thesis
      using beneath.inside [OF name] unfolding paths_below_def by blast
  qed
qed

section \<open>The walk visits all of it\<close>

text \<open>What a scan holds, as sets of paths.\<close>

definition file_paths :: "RepositoryScan \<Rightarrow> string set" where
  "file_paths scan = sf_path ` set (sc_files scan)"

definition directory_paths :: "RepositoryScan \<Rightarrow> string set" where
  "directory_paths scan = set (sc_directories scan)"

definition extends_by :: "ArchFiles \<Rightarrow> (FileType option \<Rightarrow> string set) \<Rightarrow> RepositoryScan \<Rightarrow> RepositoryScan \<Rightarrow> bool" where
  "extends_by fs found before after \<longleftrightarrow>
     file_paths after = file_paths before \<union> found (Some RegularFile) \<and>
     directory_paths after = directory_paths before \<union> found (Some DirectoryFile) \<and>
     found None = {} \<and> found (Some SymbolicLink) = {} \<and> found (Some OtherFile) = {}"

lemma extends_by_trans:
  "extends_by fs A s t \<Longrightarrow> extends_by fs B t u \<Longrightarrow> extends_by fs (\<lambda>k. A k \<union> B k) s u"
  by (auto simp: extends_by_def)

lemma extends_by_nothing: "extends_by fs (\<lambda>_. {}) s s"
  by (simp add: extends_by_def)

lemma addFile_extends:
  assumes "addFile fs directory pre name scan = Inr scan'" and "classifyEntry fs directory pre name = Inr AddFile"
  shows "extends_by fs (\<lambda>kind. contributes fs kind directory pre name) scan scan'"
  using assms
  by (auto simp: addFile_def classifyEntry_def extends_by_def contributes_def file_paths_def directory_paths_def Let_def
      split: if_splits option.splits FileType.splits)

lemma classify_skip:
  "classifyEntry fs directory pre name = Inr SkipEntry \<Longrightarrow>
     extends_by fs (\<lambda>kind. contributes fs kind directory pre name) scan scan"
  by (auto simp: classifyEntry_def extends_by_def contributes_def Let_def split: if_splits option.splits FileType.splits)

lemma classify_directory:
  assumes "classifyEntry fs directory pre name = Inr EnterDirectory"
    and "extends_by fs (\<lambda>kind. paths_below fs kind (path_under directory name) (pre @ name @ ''/''))
      (addDirectory (pre @ name) scan) scan'"
  shows "extends_by fs (\<lambda>kind. contributes fs kind directory pre name) scan scan'"
  using assms
  by (auto simp: classifyEntry_def extends_by_def contributes_def file_paths_def directory_paths_def addDirectory_def
      Let_def split: if_splits option.splits FileType.splits)

lemma visitEntry_extends:
  assumes "visitEntry fs directory pre enter scan name = Inr scan'"
    and "\<And>s s'. enter name s = Inr s' \<Longrightarrow>
      extends_by fs (\<lambda>kind. paths_below fs kind (path_under directory name) (pre @ name @ ''/'')) s s'"
  shows "extends_by fs (\<lambda>kind. contributes fs kind directory pre name) scan scan'"
proof -
  from assms(1) obtain kind where kind: "classifyEntry fs directory pre name = Inr kind"
    by (auto simp: visitEntry_def)
  with assms(1) show ?thesis
    using classify_skip addFile_extends classify_directory [OF _ assms(2)]
    by (cases kind) (auto simp: visitEntry_def)
qed

lemma visit_all_extends:
  assumes "rfold (visitEntry fs directory pre enter) scan names = Inr scan'"
    and "\<And>name s s'. enter name s = Inr s' \<Longrightarrow>
      extends_by fs (\<lambda>kind. paths_below fs kind (path_under directory name) (pre @ name @ ''/'')) s s'"
  shows "extends_by fs (\<lambda>kind. \<Union>name\<in>set names. contributes fs kind directory pre name) scan scan'"
  using assms(1)
proof (induction names arbitrary: scan)
  case Nil
  then show ?case by (simp add: extends_by_nothing)
next
  case (Cons name names)
  then obtain s where "visitEntry fs directory pre enter scan name = Inr s"
    and "rfold (visitEntry fs directory pre enter) s names = Inr scan'"
    by auto
  from extends_by_trans [OF visitEntry_extends [OF this(1) assms(2)] Cons.IH [OF this(2)]]
  show ?case by simp
qed

lemma walk_extends:
  "walk fs directory pre depth scan = Inr scan' \<Longrightarrow>
     extends_by fs (\<lambda>kind. paths_below fs kind directory pre) scan scan'"
proof (induction fs directory pre depth scan arbitrary: scan' rule: walk.induct)
  case (1 fs directory pre depth scan)
  from "1.prems" obtain entries where depth: "\<not> kMaximumDirectoryDepth < depth"
    and entries: "ad_entries fs directory = Some entries"
    and run: "rfold (visitEntry fs directory pre
        (\<lambda>kName scan. walk fs (path_under directory kName) (pre @ kName @ ''/'') (depth + 1) scan))
        scan (sort entries) = Inr scan'"
    by (auto simp: walk.simps [of fs directory pre depth scan] split: if_splits option.splits)
  let ?enter = "\<lambda>kName scan. walk fs (path_under directory kName) (pre @ kName @ ''/'') (depth + 1) scan"
  have all: "set (sort entries) = set entries" by simp
  show ?case
  proof (cases "entries = []")
    case True
    with run show ?thesis
      by (simp add: paths_below_contributions [OF entries] extends_by_nothing)
  next
    case False
    then obtain first where "first \<in> set (sort entries)" by (metis all last_in_set)
    from visit_all_extends [OF run "1.IH" [OF depth entries this]] show ?thesis
      unfolding paths_below_contributions [OF entries] all .
  qed
qed

lemma scanRepository_paths:
  assumes "scanRepository fs root = Inr scan"
  shows "file_paths scan = paths_below fs (Some RegularFile) root []"
    and "directory_paths scan = paths_below fs (Some DirectoryFile) root []"
    and "paths_below fs None root [] = {}" and "paths_below fs (Some SymbolicLink) root [] = {}"
    and "paths_below fs (Some OtherFile) root [] = {}"
proof -
  from assms obtain raw where raw: "walk fs root [] 0 \<lparr>sc_files = [], sc_directories = []\<rparr> = Inr raw"
    and scan: "scan = raw\<lparr>sc_files := sort_by (\<lambda>left right. sf_path left < sf_path right) (sc_files raw),
        sc_directories := sort (sc_directories raw)\<rparr>"
    by (auto simp: scanRepository_def split: if_splits)
  have "extends_by fs (\<lambda>kind. paths_below fs kind root []) \<lparr>sc_files = [], sc_directories = []\<rparr> raw"
    using raw by (rule walk_extends)
  then show "file_paths scan = paths_below fs (Some RegularFile) root []"
    and "directory_paths scan = paths_below fs (Some DirectoryFile) root []"
    and "paths_below fs None root [] = {}" and "paths_below fs (Some SymbolicLink) root [] = {}"
    and "paths_below fs (Some OtherFile) root [] = {}"
    by (auto simp: extends_by_def scan file_paths_def directory_paths_def)
qed

text \<open>
  C37. A scan leaves nothing out: when it succeeds, the files and directories it lists are exactly
  the regular files and directories of the tree below the root, the two roots that are not walked
  apart, and the tree holds nothing else, no link, no special file and no entry that could not be
  examined.
\<close>

theorem scan_misses_nothing:
  assumes "scanRepository fs root = Inr scan"
  shows "file_paths scan = paths_below fs (Some RegularFile) root [] \<and>
    directory_paths scan = paths_below fs (Some DirectoryFile) root [] \<and>
    paths_below fs None root [] = {} \<and> paths_below fs (Some SymbolicLink) root [] = {} \<and>
    paths_below fs (Some OtherFile) root [] = {}"
  using scanRepository_paths [OF assms] by blast

section \<open>The order of the file system does not matter\<close>

definition same_tree :: "ArchFiles \<Rightarrow> ArchFiles \<Rightarrow> bool" where
  "same_tree fs gs \<longleftrightarrow> ad_status fs = ad_status gs \<and> ad_size fs = ad_size gs \<and> ad_directory fs = ad_directory gs \<and>
     (\<forall>d. map_option mset (ad_entries fs d) = map_option mset (ad_entries gs d))"

lemma sort_mset: "mset xs = mset ys \<Longrightarrow> sort xs = sort (ys :: 'a::linorder list)"
  by (metis properties_for_sort mset_sort sorted_sort)

lemma entry_answers:
  assumes "ad_status fs = ad_status gs" and "ad_size fs = ad_size gs"
  shows "classifyEntry fs = classifyEntry gs \<and> addFile fs = addFile gs"
proof (intro conjI ext)
  show "classifyEntry fs d p n = classifyEntry gs d p n" for d p n
    unfolding classifyEntry_def assms ..
  show "addFile fs d p n scan = addFile gs d p n scan" for d p n scan
    unfolding addFile_def assms ..
qed

lemma walk_same_tree:
  "same_tree fs gs \<Longrightarrow> walk fs directory pre depth scan = walk gs directory pre depth scan"
proof (induction fs directory pre depth scan rule: walk.induct)
  case (1 fs directory pre depth scan)
  have "ad_status fs = ad_status gs" and "ad_size fs = ad_size gs"
    using "1.prems" by (simp_all add: same_tree_def)
  then have classify: "classifyEntry fs = classifyEntry gs" and add: "addFile fs = addFile gs"
    using entry_answers [of fs gs] by blast+
  show ?case
  proof (cases "kMaximumDirectoryDepth < depth")
    case False
    show ?thesis
    proof (cases "ad_entries fs directory")
      case None
      then have "ad_entries gs directory = None"
        using "1.prems" by (auto simp: same_tree_def dest: spec [of _ directory])
      with None show ?thesis
        by (simp add: walk.simps [of fs directory pre depth scan] walk.simps [of gs directory pre depth scan])
    next
      case (Some entries)
      have "map_option mset (ad_entries gs directory) = map_option mset (ad_entries fs directory)"
        using "1.prems" by (simp add: same_tree_def)
      with Some obtain others where others: "ad_entries gs directory = Some others" and "mset entries = mset others"
        by auto
      then have same: "sort others = sort entries" using sort_mset by metis
      have visit: "visitEntry fs = visitEntry gs"
        unfolding visitEntry_def [abs_def] classify add ..
      have "rfold (visitEntry gs directory pre
            (\<lambda>kName scan. walk fs (path_under directory kName) (pre @ kName @ ''/'') (depth + 1) scan)) scan (sort entries) =
          rfold (visitEntry gs directory pre
            (\<lambda>kName scan. walk gs (path_under directory kName) (pre @ kName @ ''/'') (depth + 1) scan)) scan (sort entries)"
        by (intro rfold_cong visitEntry_cong refl "1.IH" [OF False Some _ "1.prems"])
      then show ?thesis
        using False
        by (simp add: walk.simps [of fs directory pre depth scan] walk.simps [of gs directory pre depth scan]
            Some others same visit)
    qed
  qed (simp add: walk.simps [of fs directory pre depth scan] walk.simps [of gs directory pre depth scan])
qed

text \<open>
  The scan is canonical: two file systems that hold the same tree and differ only in the order in
  which their directories are enumerated give the same scan, or the same failure.
\<close>

theorem scan_ignores_enumeration_order:
  assumes "same_tree fs gs"
  shows "scanRepository fs root = scanRepository gs root"
  using assms walk_same_tree [OF assms] by (simp add: scanRepository_def same_tree_def)

text \<open>A tree of one directory with a file, beside a root that is not walked.\<close>

definition demo_tree :: "string list \<Rightarrow> ArchFiles" where
  "demo_tree names = \<lparr>ad_status = (\<lambda>p. if p = ''/r/src'' then Some DirectoryFile else Some RegularFile),
     ad_size = (\<lambda>_. Some 3), ad_read = (\<lambda>_ _. CannotRead), ad_directory = (\<lambda>_. True),
     ad_entries = (\<lambda>d. if d = ''/r'' then Some names else if d = ''/r/src'' then Some [''a.h''] else None)\<rparr>"

lemma demo_scan:
  "scanRepository (demo_tree [''src'', ''out'', ''b'']) ''/r'' = Inr
     \<lparr>sc_files = [\<lparr>sf_path = ''b'', sf_bytes = 3\<rparr>, \<lparr>sf_path = ''src/a.h'', sf_bytes = 3\<rparr>], sc_directories = [''src'']\<rparr>"
proof -
  have char_order: "''b'' < ''out''" "''out'' < ''src''" "''b'' < ''src''" "''b'' < ''src/a.h''"
    by (simp_all add: less_char_def)
  let ?fs = "demo_tree [''src'', ''out'', ''b'']"
  let ?b = "\<lparr>sf_path = ''b'', sf_bytes = 3\<rparr>" and ?a = "\<lparr>sf_path = ''src/a.h'', sf_bytes = 3\<rparr>"
  have kinds: "classifyEntry ?fs ''/r'' [] ''b'' = Inr AddFile" "classifyEntry ?fs ''/r'' [] ''out'' = Inr SkipEntry"
    "classifyEntry ?fs ''/r'' [] ''src'' = Inr EnterDirectory"
    "classifyEntry ?fs ''/r/src'' ''src/'' ''a.h'' = Inr AddFile"
    by (simp_all add: classifyEntry_def demo_tree_def isUnwalked_def kUnwalkedRoots_def isAdmissibleName_def
        admissible_char_def kMaximumPathLength_def path_under_def)
  have entries: "ad_entries ?fs ''/r'' = Some [''src'', ''out'', ''b'']" "ad_entries ?fs ''/r/src'' = Some [''a.h'']"
    "ad_size ?fs p = Some 3" "ad_directory ?fs p" for p
    by (simp_all add: demo_tree_def)
  have order: "sort [''src'', ''out'', ''b''] = [''b'', ''out'', ''src'']"
    using char_order by (simp add: less_imp_le not_le)
  have inner: "walk ?fs ''/r/src'' ''src/'' (Suc 0) \<lparr>sc_files = [?b], sc_directories = [''src'']\<rparr>
      = Inr \<lparr>sc_files = [?b, ?a], sc_directories = [''src'']\<rparr>"
    by (simp add: walk.simps [of ?fs "''/r/src''"] entries kinds visitEntry_def addFile_def kMaximumScannedFiles_def
        kMaximumDirectoryDepth_def)
  have "walk ?fs ''/r'' [] 0 \<lparr>sc_files = [], sc_directories = []\<rparr>
      = Inr \<lparr>sc_files = [?b, ?a], sc_directories = [''src'']\<rparr>"
    using inner by (simp add: walk.simps [of ?fs "''/r''"] entries order kinds visitEntry_def addFile_def addDirectory_def
        path_under_def kMaximumScannedFiles_def)
  then show ?thesis
    using char_order by (simp add: scanRepository_def entries)
qed

lemma scan_misses_nothing_witness:
  "paths_below (demo_tree [''src'', ''out'', ''b'']) (Some RegularFile) ''/r'' [] = {''b'', ''src/a.h''}"
  using scan_misses_nothing [OF demo_scan] by (auto simp: file_paths_def)

lemma scan_ignores_enumeration_order_witness:
  "scanRepository (demo_tree [''b'', ''src'', ''out'']) ''/r'' = scanRepository (demo_tree [''src'', ''out'', ''b'']) ''/r''"
  by (rule scan_ignores_enumeration_order) (simp add: same_tree_def demo_tree_def)

end
