(* ===== verification/Arch_Model.thy ===== *)
theory Arch_Model
  imports Arch_Scan
begin

text \<open>
  \<open>tools/rf_archcheck/src/repository_model.{h,cpp}\<close>: what the checks see of a repository.  The
  index and every manifest it lists are loaded once, tools and the catalogue are read from them, and
  the build lane is followed from the root build file.
\<close>

section \<open>The model\<close>

record MembershipArray =
  ma_name :: string
  ma_entries :: "string list"

record LoadedManifest =
  lm_path :: string
  lm_present :: bool
  lm_readFailure :: string
  lm_document :: JsonDocument

record ToolManifest =
  tm_manifestPath :: string
  tm_root :: string
  tm_id :: string
  tm_cmakeTarget :: string
  tm_thirdParty :: "string list"
  tm_managedTools :: "string list"

record CatalogEntry =
  ca_id :: string
  ca_acquisitionClass :: string
  ca_providerType :: string
  ca_providerReference :: string

record RepositoryModel =
  rm_root :: string
  rm_scan :: RepositoryScan
  rm_index :: LoadedManifest
  rm_membership :: "MembershipArray list"
  rm_evidenceIndexPath :: string
  rm_manifests :: "LoadedManifest list"
  rm_tools :: "ToolManifest list"
  rm_catalog :: "CatalogEntry list"
  rm_buildLane :: "string list"
  rm_corpusPath :: string

definition kMembershipNames :: "string list" where
  "kMembershipNames = [''modules'', ''targets'', ''platforms'', ''configurations'', ''instrumentations'',
     ''packagingPolicies'', ''profiles'', ''tools'']"

text \<open>\<open>membershipArray\<close>: the first array of that name, as the entries it lists.\<close>

definition membershipArray :: "RepositoryModel \<Rightarrow> string \<Rightarrow> string list option" where
  "membershipArray model name = map_option ma_entries (find (\<lambda>array. ma_name array = name) (rm_membership model))"

definition no_document :: JsonDocument where
  "no_document = \<lparr>jd_bytes = [], jd_root = MNull\<rparr>"

definition manifest_root :: "LoadedManifest \<Rightarrow> ManifestNode" where
  "manifest_root manifest = jd_root (lm_document manifest)"

text \<open>The paths of the scanned files, and the text behind a path of the model when it can be read.\<close>

definition scanned_paths :: "RepositoryModel \<Rightarrow> string list" where
  "scanned_paths model = map sf_path (sc_files (rm_scan model))"

definition model_text :: "ArchFiles \<Rightarrow> RepositoryModel \<Rightarrow> string \<Rightarrow> string option" where
  "model_text fs model path =
     (case readTextFile fs (path_under (rm_root model) path) of Inl _ \<Rightarrow> None | Inr t \<Rightarrow> Some t)"

definition model_document :: "(string \<Rightarrow> sj_document) \<Rightarrow> ArchFiles \<Rightarrow> RepositoryModel \<Rightarrow> string \<Rightarrow> JsonDocument AResult" where
  "model_document iterate fs model path = readJsonDocument iterate fs (path_under (rm_root model) path)"

section \<open>Loading manifests\<close>

definition loadManifest :: "(string \<Rightarrow> sj_document) \<Rightarrow> ArchFiles \<Rightarrow> string \<Rightarrow> string \<Rightarrow> LoadedManifest" where
  "loadManifest iterate fs root path =
     (case readJsonDocument iterate fs (path_under root path) of
        Inl failure \<Rightarrow> \<lparr>lm_path = path, lm_present = False, lm_readFailure = af_message failure,
                       lm_document = no_document\<rparr>
      | Inr document \<Rightarrow> \<lparr>lm_path = path, lm_present = True, lm_readFailure = [], lm_document = document\<rparr>)"

definition readMembership :: "ManifestNode \<Rightarrow> MembershipArray list" where
  "readMembership index = map (\<lambda>kName. \<lparr>ma_name = kName, ma_entries = stringArray index kName\<rparr>) kMembershipNames"

definition loadListed :: "(string \<Rightarrow> sj_document) \<Rightarrow> ArchFiles \<Rightarrow> string \<Rightarrow> RepositoryScan \<Rightarrow> LoadedManifest list
    \<Rightarrow> string \<Rightarrow> LoadedManifest list AResult" where
  "loadListed iterate fs root scan manifests entry =
     (if list_ex (\<lambda>held. lm_path held = entry) manifests then Inr manifests
      else let manifest = loadManifest iterate fs root entry
      in if \<not> lm_present manifest \<and> hasFile scan entry
         then archReject AfInvalidJson entry
           (''a listed manifest is present and cannot be parsed: '' @ lm_readFailure manifest)
         else Inr (manifests @ [manifest]))"

definition listed_entries :: "MembershipArray list \<Rightarrow> string list" where
  "listed_entries membership = concat (map ma_entries membership)"

definition isToolEntry :: "MembershipArray list \<Rightarrow> LoadedManifest \<Rightarrow> bool" where
  "isToolEntry membership manifest \<longleftrightarrow>
     list_ex (\<lambda>array. ma_name array = ''tools'' \<and> lm_path manifest \<in> set (ma_entries array)) membership"

definition text_or_empty :: "ManifestNode \<Rightarrow> string \<Rightarrow> string" where
  "text_or_empty node key = (case mtext node key of None \<Rightarrow> [] | Some t \<Rightarrow> t)"

definition readTool :: "LoadedManifest \<Rightarrow> ToolManifest" where
  "readTool manifest =
     (let root = manifest_root manifest
      in \<lparr>tm_manifestPath = lm_path manifest, tm_root = parentDirectory (lm_path manifest),
          tm_id = text_or_empty root ''id'',
          tm_cmakeTarget = (case mfind root ''implementation'' of None \<Rightarrow> []
             | Some implementation \<Rightarrow> text_or_empty implementation ''cmakeTarget''),
          tm_thirdParty = (case mfind root ''dependencies'' of None \<Rightarrow> []
             | Some dependencies \<Rightarrow> stringArray dependencies ''thirdParty''),
          tm_managedTools = (case mfind root ''dependencies'' of None \<Rightarrow> []
             | Some dependencies \<Rightarrow> stringArray dependencies ''managedTools'')\<rparr>)"

definition readTools :: "MembershipArray list \<Rightarrow> LoadedManifest list \<Rightarrow> ToolManifest list" where
  "readTools membership manifests =
     map readTool (filter (\<lambda>m. isToolEntry membership m \<and> lm_present m) manifests)"

definition readCatalogEntry :: "ManifestNode \<Rightarrow> CatalogEntry" where
  "readCatalogEntry element =
     \<lparr>ca_id = text_or_empty element ''id'', ca_acquisitionClass = text_or_empty element ''acquisitionClass'',
      ca_providerType = (case mfind element ''provider'' of None \<Rightarrow> [] | Some provider \<Rightarrow> text_or_empty provider ''type''),
      ca_providerReference = (case mfind element ''provider'' of None \<Rightarrow> []
         | Some provider \<Rightarrow> text_or_empty provider ''reference'')\<rparr>"

definition readCatalog :: "(string \<Rightarrow> sj_document) \<Rightarrow> ArchFiles \<Rightarrow> string \<Rightarrow> CatalogEntry list" where
  "readCatalog iterate fs root =
     (case readJsonDocument iterate fs (path_under root ''third_party/catalog.json'') of
        Inl _ \<Rightarrow> []
      | Inr catalog \<Rightarrow>
          (case mfind (jd_root catalog) ''entries'' of
             Some (MArray entries) \<Rightarrow> map readCatalogEntry entries
           | _ \<Rightarrow> []))"

section \<open>The build lane\<close>

text \<open>The lines of the loop that ends at the end of the text: no empty line after the last line feed.\<close>

function text_lines :: "string \<Rightarrow> nat \<Rightarrow> string list" where
  "text_lines t offset =
     (if offset < length t then
        (let kEnd = (case find_char_from (CHR 0x0A) t offset of None \<Rightarrow> length t | Some k \<Rightarrow> k)
         in substr t offset (kEnd - offset) # text_lines t (kEnd + 1))
      else [])"
  by pat_completeness auto
termination
  by (relation "measure (\<lambda>(t, offset). length t - offset)") (auto simp: find_char_from_def split: option.splits)

declare text_lines.simps [simp del]

definition without_comment :: "string \<Rightarrow> string" where
  "without_comment line = (case index_of CHR ''#'' line of None \<Rightarrow> line | Some k \<Rightarrow> take k line)"

definition argument_edge :: "char \<Rightarrow> bool" where
  "argument_edge c \<longleftrightarrow> c = CHR '' '' \<or> c = CHR 0x22"

definition trim_argument :: "string \<Rightarrow> string" where
  "trim_argument s = rev (dropWhile argument_edge (rev (dropWhile argument_edge s)))"

text \<open>The build file one command of one line refers to, if any.\<close>

definition laneReference :: "string \<Rightarrow> string \<Rightarrow> string \<Rightarrow> string option" where
  "laneReference kBase line kCommand =
     (case index_of_str kCommand line of
        None \<Rightarrow> None
      | Some kStart \<Rightarrow>
          let kOpen = kStart + length kCommand
          in case find_char_from CHR '')'' line kOpen of
               None \<Rightarrow> None
             | Some kClose \<Rightarrow>
                 let argument = trim_argument (substr line kOpen (kClose - kOpen))
                 in if argument = [] \<or> contains_char argument CHR ''$'' \<or> contains_char argument CHR '' '' then None
                    else let candidate = (if kBase = [] then [] else kBase @ ''/'') @ argument
                    in if kCommand = ''add_subdirectory('' then Some (candidate @ ''/CMakeLists.txt'')
                       else if \<not> ends_with candidate ''.cmake'' then None
                       else Some candidate)"

definition laneReferences :: "string \<Rightarrow> string \<Rightarrow> string list" where
  "laneReferences kBase t =
     concat (map (\<lambda>line. List.map_filter (laneReference kBase (without_comment line))
       [''include('', ''add_subdirectory('']) (text_lines t 0))"

text \<open>What a build file refers to: nothing when it cannot be read.\<close>

definition lane_successors :: "ArchFiles \<Rightarrow> string \<Rightarrow> string \<Rightarrow> string list" where
  "lane_successors fs root relativePath =
     (case readTextFile fs (path_under root relativePath) of
        Inl _ \<Rightarrow> []
      | Inr t \<Rightarrow> laneReferences (parentDirectory relativePath) t)"

text \<open>Each nested call has added a file, so fuel beyond the ceiling on files is never used up.\<close>

fun followBuildLane :: "ArchFiles \<Rightarrow> string \<Rightarrow> nat \<Rightarrow> string list \<Rightarrow> string \<Rightarrow> string list" where
  "followBuildLane fs root 0 lane relativePath = lane"
| "followBuildLane fs root (Suc fuel) lane relativePath =
     (if relativePath \<in> set lane then lane
      else if kMaximumScannedFiles \<le> length lane then lane
      else foldl (followBuildLane fs root fuel) (lane @ [relativePath]) (lane_successors fs root relativePath))"

definition buildLane :: "ArchFiles \<Rightarrow> string \<Rightarrow> string list" where
  "buildLane fs root = sort (followBuildLane fs root (Suc kMaximumScannedFiles) [] ''CMakeLists.txt'')"

section \<open>Loading the model\<close>

definition loadRepositoryModel :: "(string \<Rightarrow> sj_document) \<Rightarrow> ArchFiles \<Rightarrow> string \<Rightarrow> string \<Rightarrow> RepositoryModel AResult" where
  "loadRepositoryModel iterate fs root corpusRelativePath =
     rbind (scanRepository fs root) (\<lambda>scan.
       let index = loadManifest iterate fs root ''repository.json'';
           membership = readMembership (manifest_root index)
       in if \<not> lm_present index
          then archReject AfMissingInput ''repository.json''
            ''the repository index cannot be read, so nothing can be concluded about the repository''
          else rbind (rfold (loadListed iterate fs root scan) [index] (listed_entries membership)) (\<lambda>manifests.
            Inr \<lparr>rm_root = root, rm_scan = scan, rm_index = index, rm_membership = membership,
                 rm_evidenceIndexPath = text_or_empty (manifest_root index) ''evidenceIndex'',
                 rm_manifests = manifests @
                   (if corpusRelativePath \<noteq> [] \<and> hasFile scan corpusRelativePath
                    then [loadManifest iterate fs root corpusRelativePath] else []),
                 rm_tools = readTools membership manifests, rm_catalog = readCatalog iterate fs root,
                 rm_buildLane = buildLane fs root, rm_corpusPath = corpusRelativePath\<rparr>))"

section \<open>Every listed manifest is loaded once\<close>

lemma loadManifest_path [simp]: "lm_path (loadManifest iterate fs root path) = path"
  by (simp add: loadManifest_def split: sum.split)

definition manifests_ok :: "RepositoryScan \<Rightarrow> string set \<Rightarrow> LoadedManifest list \<Rightarrow> bool" where
  "manifests_ok scan paths manifests \<longleftrightarrow> distinct (map lm_path manifests) \<and> lm_path ` set manifests = paths \<and>
     (\<forall>m\<in>set manifests. lm_present m \<or> \<not> hasFile scan (lm_path m))"

lemma loadListed_ok:
  assumes "loadListed iterate fs root scan manifests entry = Inr manifests'" and "manifests_ok scan paths manifests"
  shows "manifests_ok scan (insert entry paths) manifests'"
  using assms by (auto simp: loadListed_def manifests_ok_def Let_def list_ex_iff split: if_splits)

lemma load_all_ok:
  "rfold (loadListed iterate fs root scan) manifests entries = Inr manifests' \<Longrightarrow> manifests_ok scan paths manifests \<Longrightarrow>
     manifests_ok scan (paths \<union> set entries) manifests'"
proof (induction entries arbitrary: manifests paths)
  case (Cons entry entries)
  from Cons.prems(1) obtain next' where "loadListed iterate fs root scan manifests entry = Inr next'"
    and "rfold (loadListed iterate fs root scan) next' entries = Inr manifests'" by auto
  from Cons.IH [OF this(2) loadListed_ok [OF this(1) Cons.prems(2)]] show ?case by simp
qed simp

text \<open>
  A model that was loaded speaks for every manifest the index lists: the index and each listed
  entry, whichever arrays name it, is loaded exactly once, followed by the rule corpus where the tree
  has it, and an entry that is not there is recorded as absent only when the scan has no such file.
\<close>

theorem listed_manifests_loaded_once:
  assumes "loadRepositoryModel iterate fs root corpus = Inr model"
  shows "\<exists>listed. rm_manifests model = listed @
      (if corpus \<noteq> [] \<and> hasFile (rm_scan model) corpus then [loadManifest iterate fs root corpus] else []) \<and>
    lm_present (rm_index model) \<and>
    manifests_ok (rm_scan model) (insert ''repository.json'' (set (listed_entries (rm_membership model)))) listed"
proof -
  let ?index = "loadManifest iterate fs root ''repository.json''"
  from assms obtain scan manifests where present: "lm_present ?index"
    and run: "rfold (loadListed iterate fs root scan) [?index] (listed_entries (readMembership (manifest_root ?index)))
        = Inr manifests"
    and model: "rm_manifests model = manifests @ (if corpus \<noteq> [] \<and> hasFile scan corpus
        then [loadManifest iterate fs root corpus] else [])" "rm_index model = ?index" "rm_scan model = scan"
      "rm_membership model = readMembership (manifest_root ?index)"
    by (auto simp: loadRepositoryModel_def Let_def split: if_splits)
  have "manifests_ok scan {''repository.json''} [?index]"
    using present by (simp add: manifests_ok_def)
  from load_all_ok [OF run this] present model show ?thesis by auto
qed

section \<open>The build lane is what the root build file reaches\<close>

inductive reaches :: "(string \<Rightarrow> string list) \<Rightarrow> string \<Rightarrow> string \<Rightarrow> bool" for successors where
  start: "reaches successors x x"
| onward: "reaches successors x y \<Longrightarrow> z \<in> set (successors y) \<Longrightarrow> reaches successors x z"

lemma reaches_trans: "reaches s y z \<Longrightarrow> reaches s x y \<Longrightarrow> reaches s x z"
  by (induction rule: reaches.induct) (auto intro: reaches.intros)

lemma reaches_closed: "reaches s x y \<Longrightarrow> x \<in> A \<Longrightarrow> \<forall>a\<in>A. set (s a) \<subseteq> A \<Longrightarrow> y \<in> A"
  by (induction rule: reaches.induct) auto

text \<open>
  What one call adds to the lane: only files that are reached, the file itself, and everything the
  added files refer to, unless the lane is full.
\<close>

definition lane_extends :: "(string \<Rightarrow> string list) \<Rightarrow> string list \<Rightarrow> string set \<Rightarrow> string list \<Rightarrow> bool" where
  "lane_extends successors lane starts lane' \<longleftrightarrow> set lane \<subseteq> set lane' \<and> length lane \<le> length lane' \<and>
     (distinct lane \<longrightarrow> distinct lane') \<and>
     (\<forall>x\<in>set lane' - set lane. \<exists>s\<in>starts. reaches successors s x) \<and>
     (length lane' < kMaximumScannedFiles \<longrightarrow>
        starts \<subseteq> set lane' \<and> (\<forall>x\<in>set lane' - set lane. set (successors x) \<subseteq> set lane'))"

lemma lane_extends_refl: "lane_extends successors lane {} lane"
  by (simp add: lane_extends_def)

lemma lane_extends_trans:
  assumes "lane_extends successors lane A mid" and "lane_extends successors mid B lane'"
  shows "lane_extends successors lane (A \<union> B) lane'"
proof -
  have "length mid < kMaximumScannedFiles" if "length lane' < kMaximumScannedFiles"
    using assms(2) that by (auto simp: lane_extends_def)
  then show ?thesis
    using assms unfolding lane_extends_def by (auto 0 3)
qed

lemma lane_extends_foldl:
  assumes "\<And>lane x. x \<in> set xs \<Longrightarrow> kMaximumScannedFiles < fuel + length lane \<Longrightarrow>
      lane_extends successors lane {x} (f lane x)"
    and "kMaximumScannedFiles < fuel + length lane"
  shows "lane_extends successors lane (set xs) (foldl f lane xs)"
  using assms
proof (induction xs arbitrary: lane)
  case Nil
  then show ?case by (simp add: lane_extends_refl)
next
  case (Cons x xs)
  have first: "lane_extends successors lane {x} (f lane x)"
    using Cons.prems by simp
  then have "kMaximumScannedFiles < fuel + length (f lane x)"
    using Cons.prems(2) by (auto simp: lane_extends_def)
  with Cons.IH [of "f lane x"] Cons.prems(1)
  have "lane_extends successors (f lane x) (set xs) (foldl f (f lane x) xs)" by simp
  from lane_extends_trans [OF first this] show ?case by simp
qed

lemma lane_extends_file:
  assumes "lane_extends successors (lane @ [x]) (set (successors x)) lane'" and "x \<notin> set lane"
  shows "lane_extends successors lane {x} lane'"
proof -
  have "reaches successors x z" if "z \<in> set (successors x)" for z
    using that by (auto intro: reaches.intros)
  then have from_x: "reaches successors x y" if "s \<in> set (successors x)" and "reaches successors s y" for s y
    using that reaches_trans by metis
  have "reaches successors x y" if y: "y \<in> set lane' - set lane" for y
  proof (cases "y = x")
    case False
    with y have "y \<in> set lane' - set (lane @ [x])" by simp
    with assms(1) obtain s where "s \<in> set (successors x)" and "reaches successors s y"
      unfolding lane_extends_def by blast
    then show ?thesis by (rule from_x)
  qed (simp add: reaches.start)
  then show ?thesis
    using assms unfolding lane_extends_def by auto
qed

lemma followBuildLane_extends:
  "kMaximumScannedFiles < fuel + length lane \<Longrightarrow>
     lane_extends (lane_successors fs root) lane {path} (followBuildLane fs root fuel lane path)"
proof (induction fuel arbitrary: lane path)
  case 0
  then show ?case by (simp add: lane_extends_def)
next
  case (Suc fuel)
  show ?case
  proof (cases "path \<in> set lane \<or> kMaximumScannedFiles \<le> length lane")
    case True
    then show ?thesis by (auto simp: lane_extends_def)
  next
    case False
    have "lane_extends (lane_successors fs root) (lane @ [path]) (set (lane_successors fs root path))
        (foldl (followBuildLane fs root fuel) (lane @ [path]) (lane_successors fs root path))"
      using Suc.IH Suc.prems by (intro lane_extends_foldl [where fuel = fuel]) auto
    from lane_extends_file [OF this] False show ?thesis by simp
  qed
qed

text \<open>
  C39. The build lane is followed, not listed: it holds each file once, every file in it is reached
  from the root build file through the files it refers to, and, unless the ceiling on files was
  reached, every file that is reached is in it.
\<close>

theorem build_lane_is_what_is_reached:
  "distinct (buildLane fs root) \<and>
   (if length (buildLane fs root) < kMaximumScannedFiles
    then set (buildLane fs root) = {p. reaches (lane_successors fs root) ''CMakeLists.txt'' p}
    else set (buildLane fs root) \<subseteq> {p. reaches (lane_successors fs root) ''CMakeLists.txt'' p})"
proof -
  define lane where "lane = followBuildLane fs root (Suc kMaximumScannedFiles) [] ''CMakeLists.txt''"
  let ?next = "lane_successors fs root"
  have ext: "lane_extends ?next [] {''CMakeLists.txt''} lane"
    unfolding lane_def by (rule followBuildLane_extends) simp
  have "p \<in> set lane" if "reaches ?next ''CMakeLists.txt'' p" and "length lane < kMaximumScannedFiles" for p
    using reaches_closed [OF that(1), of "set lane"] ext that(2) by (auto simp: lane_extends_def)
  moreover have "set (buildLane fs root) = set lane" "length (buildLane fs root) = length lane"
    "distinct (buildLane fs root) = distinct lane"
    by (simp_all add: buildLane_def lane_def del: followBuildLane.simps)
  ultimately show ?thesis
    using ext by (auto simp: lane_extends_def)
qed

end
