(* ===== verification/Arch_Rules.thy ===== *)
theory Arch_Rules
  imports Arch_Json "HOL-Library.Word"
begin

text \<open>
  \<open>tools/rf_archcheck/src/rule_corpus.{h,cpp}\<close>: the rule corpus, its grammar, its loader and the
  seal that makes a change to the rules visible.
\<close>

unbundle bit_operations_syntax

section \<open>The rule corpus\<close>

record Rule =
  ru_id :: string
  ru_authority :: string
  ru_title :: string
  ru_subjectKind :: string
  ru_severity :: string
  ru_landsWith :: string

record PolicyHistoryEntry =
  ph_policyVersion :: int
  ph_ruleSetSeal :: string

record RuleCorpus =
  rc_policyVersion :: int
  rc_ruleSetSeal :: string
  rc_policyHistory :: "PolicyHistoryEntry list"
  rc_rules :: "Rule list"

definition corpusReject :: "string \<Rightarrow> 'a AResult" where
  "corpusReject message = archReject AfInvalidCorpus [] message"

lemma corpusReject_simps [simp]:
  "corpusReject m \<noteq> Inr x" "Inr x \<noteq> corpusReject m" "rbind (corpusReject m) f = corpusReject m"
  by (simp_all add: corpusReject_def)

definition kMemberNames :: "string list" where
  "kMemberNames = [''id'', ''authority'', ''title'', ''subjectKind'', ''severity'', ''landsWith'']"

definition kSubjectKinds :: "string list" where
  "kSubjectKinds = [''manifest'', ''module_root'', ''target_closure'', ''source_file'', ''build_file'',
     ''declared_edge'', ''projection'', ''repository'']"

definition isRuleId :: "string \<Rightarrow> bool" where
  "isRuleId rule =
     (if length rule \<noteq> 6 \<or> \<not> starts_with rule ''RA'' then False
      else if rule ! 2 < CHR ''1'' \<or> CHR ''7'' < rule ! 2 then False
      else list_all is_digit (drop 3 rule))"

definition isAuthorityIdentifier :: "string \<Rightarrow> bool" where
  "isAuthorityIdentifier authority =
     (case index_of CHR ''.'' authority of
        None \<Rightarrow> False
      | Some kSeparator \<Rightarrow>
          let kPrefix = take kSeparator authority; kNumber = drop (kSeparator + 1) authority
          in if kPrefix \<noteq> ''adr'' \<and> kPrefix \<noteq> ''spec'' \<and> kPrefix \<noteq> ''std'' then False
             else if length kNumber \<noteq> 4 then False
             else list_all is_digit kNumber)"

definition isLandsWith :: "string \<Rightarrow> bool" where
  "isLandsWith given =
     (if given = ''now'' then True
      else if length given \<noteq> 9 \<or> \<not> starts_with given ''TASK-'' then False
      else list_all is_digit (drop 5 given))"

definition requiredString :: "ManifestNode \<Rightarrow> string \<Rightarrow> string AResult" where
  "requiredString object key =
     (case mfind object key of
        Some (MString t) \<Rightarrow> Inr t
      | _ \<Rightarrow> corpusReject (''rule member is absent or not a string: '' @ key))"

definition requiredInteger :: "ManifestNode \<Rightarrow> string \<Rightarrow> int AResult" where
  "requiredInteger object key =
     (case mfind object key of
        Some (MNumber t) \<Rightarrow>
          (case from_chars_i64 t of
             None \<Rightarrow> corpusReject (''corpus member is not an integer: '' @ key)
           | Some parsed \<Rightarrow> Inr parsed)
      | _ \<Rightarrow> corpusReject (''corpus member is absent or not a number: '' @ key))"

text \<open>\<open>RuleCorpus::find\<close>: the first rule of that identity.\<close>

definition find_rule :: "RuleCorpus \<Rightarrow> string \<Rightarrow> Rule option" where
  "find_rule corpus rule = find (\<lambda>r. ru_id r = rule) (rc_rules corpus)"

subsection \<open>The seal\<close>

definition kFnvOffset :: "64 word" where "kFnvOffset = 0xcbf29ce484222325"
definition kFnvPrime :: "64 word" where "kFnvPrime = 0x100000001b3"

definition absorb_char :: "64 word \<Rightarrow> char \<Rightarrow> 64 word" where
  "absorb_char hash kCharacter = (hash XOR word_of_nat (of_char kCharacter)) * kFnvPrime"

definition kAbsorb :: "string \<Rightarrow> 64 word \<Rightarrow> 64 word" where
  "kAbsorb s hash = foldl absorb_char hash s"

definition rule_values :: "Rule \<Rightarrow> string list" where
  "rule_values rule = [ru_id rule, ru_authority rule, ru_title rule, ru_subjectKind rule, ru_severity rule,
     ru_landsWith rule]"

definition sealRule :: "64 word \<Rightarrow> Rule \<Rightarrow> 64 word" where
  "sealRule hash rule =
     kAbsorb [CHR 0x1E] (foldl (\<lambda>hash kValue. kAbsorb [CHR 0x1F] (kAbsorb kValue hash)) hash (rule_values rule))"

definition sealRules :: "Rule list \<Rightarrow> string" where
  "sealRules rules =
     (let hash = foldl sealRule kFnvOffset rules
      in ''fnv1a64:'' @ map (\<lambda>shift. hex_char (unat (drop_bit (60 - 4 * shift) hash AND 0x0F))) [0..<16])"

subsection \<open>Reading it\<close>

definition readHistoryEntry :: "PolicyHistoryEntry list \<Rightarrow> ManifestNode \<Rightarrow> PolicyHistoryEntry list AResult" where
  "readHistoryEntry kept entry =
     (if \<not> is_manifest_object entry then corpusReject ''policyHistory carries a non-object entry''
      else rbind (requiredInteger entry ''policyVersion'') (\<lambda>version.
        rbind (requiredString entry ''ruleSetSeal'') (\<lambda>entrySeal.
          if kept \<noteq> [] \<and> version \<le> ph_policyVersion (last kept)
          then corpusReject ''policyHistory versions do not increase''
          else Inr (kept @ [\<lparr>ph_policyVersion = version, ph_ruleSetSeal = entrySeal\<rparr>]))))"

definition requireMember :: "ManifestNode \<Rightarrow> unit \<Rightarrow> string \<Rightarrow> unit AResult" where
  "requireMember element _ kName =
     (if mfind element kName = None then corpusReject (''a rule is missing the member: '' @ kName) else Inr ())"

definition readRuleMembers :: "ManifestNode \<Rightarrow> Rule AResult" where
  "readRuleMembers element =
     rbind (requiredString element ''id'') (\<lambda>rid.
     rbind (requiredString element ''authority'') (\<lambda>authority.
     rbind (requiredString element ''title'') (\<lambda>title.
     rbind (requiredString element ''subjectKind'') (\<lambda>subjectKind.
     rbind (requiredString element ''severity'') (\<lambda>severity.
     rbind (requiredString element ''landsWith'') (\<lambda>landsWith.
       Inr \<lparr>ru_id = rid, ru_authority = authority, ru_title = title, ru_subjectKind = subjectKind,
            ru_severity = severity, ru_landsWith = landsWith\<rparr>))))))"

definition checkRule :: "Rule list \<Rightarrow> Rule \<Rightarrow> unit AResult" where
  "checkRule kept rule =
     (if \<not> isRuleId (ru_id rule)
      then corpusReject (''a rule identity does not match the required form: '' @ ru_id rule)
      else if \<not> isAuthorityIdentifier (ru_authority rule)
      then corpusReject (''rule '' @ ru_id rule @ '' does not cite exactly one accepted authority: ''
        @ ru_authority rule)
      else if length (ru_title rule) < 20
      then corpusReject (''rule '' @ ru_id rule @ '' has no usable title'')
      else if ru_subjectKind rule \<notin> set kSubjectKinds
      then corpusReject (''rule '' @ ru_id rule @ '' has an unknown subject kind: '' @ ru_subjectKind rule)
      else if ru_severity rule \<noteq> ''finding''
      then corpusReject (''rule '' @ ru_id rule @ '' declares a severity other than finding'')
      else if \<not> isLandsWith (ru_landsWith rule)
      then corpusReject (''rule '' @ ru_id rule @ '' has an unusable landsWith value: '' @ ru_landsWith rule)
      else if kept \<noteq> [] \<and> ru_id rule \<le> ru_id (last kept)
      then corpusReject (''rules are not ordered by identity without duplicates at: '' @ ru_id rule)
      else Inr ())"

definition readRule :: "Rule list \<Rightarrow> ManifestNode \<Rightarrow> Rule list AResult" where
  "readRule kept element =
     (if \<not> is_manifest_object element then corpusReject ''rules carries a non-object entry''
      else if length (manifest_members element) \<noteq> length kMemberNames
      then corpusReject ''a rule does not carry exactly the six defined members''
      else rbind (rfold (requireMember element) () kMemberNames) (\<lambda>_.
        rbind (readRuleMembers element) (\<lambda>rule.
          rbind (checkRule kept rule) (\<lambda>_. Inr (kept @ [rule])))))"

definition parseRuleCorpus :: "ManifestNode \<Rightarrow> RuleCorpus AResult" where
  "parseRuleCorpus root =
     (if \<not> is_manifest_object root then corpusReject ''the rule corpus is not an object''
      else rbind (requiredInteger root ''policyVersion'') (\<lambda>policyVersion.
        if policyVersion < 1 then corpusReject ''policyVersion must be a positive integer''
        else rbind (requiredString root ''ruleSetSeal'') (\<lambda>seal.
          case mfind root ''policyHistory'' of
            Some (MArray history) \<Rightarrow>
              if history = [] then corpusReject ''policyHistory is absent or empty''
              else rbind (rfold readHistoryEntry [] history) (\<lambda>entries.
                case mfind root ''rules'' of
                  Some (MArray elements) \<Rightarrow>
                    if elements = [] then corpusReject ''rules is absent or empty''
                    else if kMaximumRules < length elements then corpusReject ''rules exceeds the corpus limit''
                    else rbind (rfold readRule [] elements) (\<lambda>rules.
                      Inr \<lparr>rc_policyVersion = policyVersion, rc_ruleSetSeal = seal,
                           rc_policyHistory = entries, rc_rules = rules\<rparr>)
                | _ \<Rightarrow> corpusReject ''rules is absent or empty'')
          | _ \<Rightarrow> corpusReject ''policyHistory is absent or empty'')))"

definition loadRuleCorpus :: "(string \<Rightarrow> sj_document) \<Rightarrow> ArchFiles \<Rightarrow> string \<Rightarrow> RuleCorpus AResult" where
  "loadRuleCorpus iterate fs corpusPath =
     rbind (rmap_failure (\<lambda>failure. if af_code failure = AfInvalidJson then failure\<lparr>af_code := AfInvalidCorpus\<rparr>
                                     else failure)
              (readJsonDocument iterate fs corpusPath)) (\<lambda>document.
       rmap_failure (\<lambda>failure. failure\<lparr>af_path := corpusPath\<rparr>) (parseRuleCorpus (jd_root document)))"

section \<open>The grammar of the corpus\<close>

definition rule_wf :: "Rule \<Rightarrow> bool" where
  "rule_wf rule \<longleftrightarrow> isRuleId (ru_id rule) \<and> isAuthorityIdentifier (ru_authority rule) \<and>
     20 \<le> length (ru_title rule) \<and> ru_subjectKind rule \<in> set kSubjectKinds \<and>
     ru_severity rule = ''finding'' \<and> isLandsWith (ru_landsWith rule)"

definition history_wf :: "PolicyHistoryEntry list \<Rightarrow> bool" where
  "history_wf history \<longleftrightarrow> sorted_wrt (<) (map ph_policyVersion history) \<and>
     list_all (\<lambda>e. int64_min \<le> ph_policyVersion e \<and> ph_policyVersion e \<le> int64_max) history"

definition rules_wf :: "Rule list \<Rightarrow> bool" where
  "rules_wf rules \<longleftrightarrow> sorted_wrt (<) (map ru_id rules) \<and> list_all rule_wf rules"

definition corpus_wf :: "RuleCorpus \<Rightarrow> bool" where
  "corpus_wf corpus \<longleftrightarrow> 1 \<le> rc_policyVersion corpus \<and> rc_policyVersion corpus \<le> int64_max \<and>
     rc_policyHistory corpus \<noteq> [] \<and> history_wf (rc_policyHistory corpus) \<and>
     rc_rules corpus \<noteq> [] \<and> length (rc_rules corpus) \<le> kMaximumRules \<and> rules_wf (rc_rules corpus)"

definition rule_node :: "Rule \<Rightarrow> ManifestNode" where
  "rule_node rule = MObject (zip kMemberNames (map MString (rule_values rule)))"

definition history_node :: "PolicyHistoryEntry \<Rightarrow> ManifestNode" where
  "history_node entry = MObject [(''policyVersion'', makeNumber (ph_policyVersion entry)),
     (''ruleSetSeal'', MString (ph_ruleSetSeal entry))]"

definition corpus_node :: "RuleCorpus \<Rightarrow> ManifestNode" where
  "corpus_node corpus = MObject [(''policyVersion'', makeNumber (rc_policyVersion corpus)),
     (''ruleSetSeal'', MString (rc_ruleSetSeal corpus)),
     (''policyHistory'', MArray (map history_node (rc_policyHistory corpus))),
     (''rules'', MArray (map rule_node (rc_rules corpus)))]"

lemma sorted_snoc:
  "sorted_wrt (<) (map (key :: 'a \<Rightarrow> 'k::order) (xs @ [x])) \<longleftrightarrow>
     sorted_wrt (<) (map key xs) \<and> (xs = [] \<or> key (last xs) < key x)"
proof (cases xs rule: rev_cases)
  case (snoc ys y)
  then show ?thesis by (auto simp: sorted_wrt_append intro: less_trans)
qed simp

lemma history_snoc:
  "history_wf (xs @ [x]) \<longleftrightarrow> history_wf xs \<and> (xs = [] \<or> ph_policyVersion (last xs) < ph_policyVersion x) \<and>
     int64_min \<le> ph_policyVersion x \<and> ph_policyVersion x \<le> int64_max"
  unfolding history_wf_def sorted_snoc by auto

lemma rules_snoc:
  "rules_wf (xs @ [x]) \<longleftrightarrow> rules_wf xs \<and> (xs = [] \<or> ru_id (last xs) < ru_id x) \<and> rule_wf x"
  unfolding rules_wf_def sorted_snoc by auto

lemma wf_single:
  "history_wf [x] \<longleftrightarrow> int64_min \<le> ph_policyVersion x \<and> ph_policyVersion x \<le> int64_max"
  "rules_wf [r] \<longleftrightarrow> rule_wf r"
  by (simp_all add: history_wf_def rules_wf_def)

lemma requiredInteger_range: "requiredInteger node key = Inr n \<Longrightarrow> int64_min \<le> n \<and> n \<le> int64_max"
  by (auto simp: requiredInteger_def from_chars_i64_range split: option.splits ManifestNode.splits)

lemma checkRule_iff: "checkRule kept rule = Inr () \<longleftrightarrow> rule_wf rule \<and> (kept = [] \<or> ru_id (last kept) < ru_id rule)"
  by (auto simp: checkRule_def rule_wf_def not_le not_less)

lemma readHistoryEntry_ok: "readHistoryEntry kept entry = Inr kept' \<Longrightarrow> history_wf kept \<Longrightarrow>
    history_wf kept' \<and> length kept' = Suc (length kept)"
  by (auto simp: readHistoryEntry_def history_snoc wf_single not_le dest!: requiredInteger_range split: if_splits)

lemma readRule_ok: "readRule kept element = Inr kept' \<Longrightarrow> rules_wf kept \<Longrightarrow>
    rules_wf kept' \<and> length kept' = Suc (length kept)"
  by (auto simp: readRule_def rules_snoc wf_single checkRule_iff split: if_splits)

lemma read_history_wf:
  "rfold readHistoryEntry [] entries = Inr kept \<Longrightarrow> history_wf kept \<and> length kept = length entries"
  by (erule rfold_prefix_invariant [where P = "\<lambda>ys kept. history_wf kept \<and> length kept = length ys"])
    (auto simp: history_wf_def [of "[]"] dest: readHistoryEntry_ok)

lemma read_rules_wf:
  "rfold readRule [] elements = Inr kept \<Longrightarrow> rules_wf kept \<and> length kept = length elements"
  by (erule rfold_prefix_invariant [where P = "\<lambda>ys kept. rules_wf kept \<and> length kept = length ys"])
    (auto simp: rules_wf_def [of "[]"] dest: readRule_ok)

lemma parseRuleCorpus_wf:
  assumes "parseRuleCorpus root = Inr corpus"
  shows "corpus_wf corpus"
  using assms
  by (auto simp: parseRuleCorpus_def corpus_wf_def dest!: read_history_wf read_rules_wf requiredInteger_range
      split: if_splits option.splits ManifestNode.splits)

subsection \<open>Every well-formed corpus is read back\<close>

lemma requiredString_first [simp]:
  "requiredString (MObject ((key, MString t) # ms)) key = Inr t"
  "k \<noteq> key \<Longrightarrow> requiredString (MObject ((k, v) # ms)) key = requiredString (MObject ms) key"
  by (simp_all add: requiredString_def mfind_def)

lemma requiredInteger_first [simp]:
  "int64_min \<le> n \<Longrightarrow> n \<le> int64_max \<Longrightarrow> requiredInteger (MObject ((key, makeNumber n) # ms)) key = Inr n"
  by (simp add: requiredInteger_def mfind_def makeNumber_def from_chars_i64_to_string)

lemma readHistoryEntry_node:
  "history_wf (kept @ [entry]) \<Longrightarrow> readHistoryEntry kept (history_node entry) = Inr (kept @ [entry])"
  by (cases entry) (auto simp: readHistoryEntry_def history_node_def history_snoc wf_single)

lemma readRuleMembers_node: "readRuleMembers (rule_node rule) = Inr rule"
  by (cases rule) (simp add: readRuleMembers_def rule_node_def rule_values_def kMemberNames_def)

lemma readRule_node:
  assumes "rules_wf (kept @ [rule])"
  shows "readRule kept (rule_node rule) = Inr (kept @ [rule])"
proof -
  have "checkRule kept rule = Inr ()"
    using assms by (auto simp: checkRule_iff rules_snoc wf_single)
  moreover have "rfold (requireMember (rule_node rule)) () kMemberNames = Inr ()"
    by (simp add: rule_node_def rule_values_def kMemberNames_def requireMember_def mfind_def)
  moreover have "is_manifest_object (rule_node rule)"
    and "length (manifest_members (rule_node rule)) = length kMemberNames"
    by (simp_all add: rule_node_def rule_values_def kMemberNames_def)
  ultimately show ?thesis by (simp add: readRule_def readRuleMembers_node)
qed

lemma history_prefix: "history_wf (xs @ ys) \<Longrightarrow> history_wf xs"
  by (simp add: history_wf_def sorted_wrt_append)

lemma rules_prefix: "rules_wf (xs @ ys) \<Longrightarrow> rules_wf xs"
  by (simp add: rules_wf_def sorted_wrt_append)

lemma read_history_nodes:
  "history_wf (kept @ entries) \<Longrightarrow> rfold readHistoryEntry kept (map history_node entries) = Inr (kept @ entries)"
proof (induction entries arbitrary: kept)
  case (Cons entry entries)
  then have "history_wf ((kept @ [entry]) @ entries)" by simp
  from Cons.IH [OF this] readHistoryEntry_node [OF history_prefix [OF this]] show ?case by simp
qed simp

lemma read_rule_nodes:
  "rules_wf (kept @ rules) \<Longrightarrow> rfold readRule kept (map rule_node rules) = Inr (kept @ rules)"
proof (induction rules arbitrary: kept)
  case (Cons rule rules)
  then have "rules_wf ((kept @ [rule]) @ rules)" by simp
  from Cons.IH [OF this] readRule_node [OF rules_prefix [OF this]] show ?case by simp
qed simp

lemma int64_min_less_one [simp]: "int64_min \<le> 1"
  by (simp add: int64_min_def)

lemma parse_corpus_node:
  assumes "corpus_wf corpus"
  shows "parseRuleCorpus (corpus_node corpus) = Inr corpus"
proof -
  have version: "int64_min \<le> rc_policyVersion corpus"
    using assms int64_min_less_one unfolding corpus_wf_def by linarith
  then show ?thesis
    using assms read_history_nodes [of "[]" "rc_policyHistory corpus"] read_rule_nodes [of "[]" "rc_rules corpus"]
    by (auto simp: parseRuleCorpus_def corpus_node_def corpus_wf_def mfind_def requiredString_def)
qed


lemma find_rule_id: "find_rule corpus rule = Some r \<Longrightarrow> ru_id r = rule \<and> r \<in> set (rc_rules corpus)"
  by (auto simp: find_rule_def find_Some_iff)

section \<open>What the seal covers\<close>

text \<open>The text the seal digests, and the digest of a text.\<close>

definition rule_payload :: "Rule \<Rightarrow> string" where
  "rule_payload rule = concat (map (\<lambda>v. v @ [CHR 0x1F]) (rule_values rule)) @ [CHR 0x1E]"

definition payload :: "Rule list \<Rightarrow> string" where
  "payload rules = concat (map rule_payload rules)"

definition seal_of_text :: "string \<Rightarrow> string" where
  "seal_of_text s =
     (let hash = kAbsorb s kFnvOffset
      in ''fnv1a64:'' @ map (\<lambda>shift. hex_char (unat (drop_bit (60 - 4 * shift) hash AND 0x0F))) [0..<16])"

lemma kAbsorb_append [simp]: "kAbsorb t (kAbsorb s hash) = kAbsorb (s @ t) hash"
  by (simp add: kAbsorb_def)

lemma sealRule_payload: "sealRule hash rule = kAbsorb (rule_payload rule) hash"
  by (simp add: sealRule_def rule_payload_def rule_values_def)

lemma seal_payload: "sealRules rules = seal_of_text (payload rules)"
proof -
  have "foldl sealRule hash rules = kAbsorb (payload rules) hash" for hash
    by (induction rules arbitrary: hash) (simp_all add: payload_def sealRule_payload kAbsorb_def)
  then show ?thesis by (simp add: sealRules_def seal_of_text_def)
qed

definition separator_free :: "Rule \<Rightarrow> bool" where
  "separator_free rule \<longleftrightarrow> list_all (\<lambda>v. CHR 0x1E \<notin> set v \<and> CHR 0x1F \<notin> set v) (rule_values rule)"

lemma delimited_prefix: "c \<notin> set s \<Longrightarrow> c \<notin> set t \<Longrightarrow> s @ c # r = t @ c # r' \<longleftrightarrow> s = t \<and> r = r'"
proof (induction s arbitrary: t)
  case Nil
  then show ?case by (cases t) auto
next
  case (Cons x s)
  then show ?case by (cases t) auto
qed

lemma delimited_values:
  assumes "list_all (\<lambda>v. c \<notin> set v) vs" and "list_all (\<lambda>v. c \<notin> set v) ws" and "length vs = length ws"
    and "concat (map (\<lambda>v. v @ [c]) vs) @ r = concat (map (\<lambda>v. v @ [c]) ws) @ r'"
  shows "vs = ws \<and> r = r'"
  using assms(3,1,2,4)
proof (induction vs ws rule: list_induct2)
  case (Cons v vs w ws)
  then show ?case
    using delimited_prefix [of c v w "concat (map (\<lambda>v. v @ [c]) vs) @ r" "concat (map (\<lambda>v. v @ [c]) ws) @ r'"]
    by simp
qed simp

lemma rule_values_inj: "rule_values a = rule_values b \<longleftrightarrow> a = b"
  by (cases a; cases b) (simp add: rule_values_def)

lemma rule_payload_prefix:
  assumes "separator_free a" and "separator_free b" and "rule_payload a @ r = rule_payload b @ r'"
  shows "a = b \<and> r = r'"
proof -
  have "length (rule_values a) = length (rule_values b)" by (simp add: rule_values_def)
  moreover have "concat (map (\<lambda>v. v @ [CHR 0x1F]) (rule_values a)) @ (CHR 0x1E # r) =
      concat (map (\<lambda>v. v @ [CHR 0x1F]) (rule_values b)) @ (CHR 0x1E # r')"
    using assms(3) by (simp add: rule_payload_def)
  moreover have "list_all (\<lambda>v. CHR 0x1F \<notin> set v) (rule_values c)" if "separator_free c" for c
    using that by (simp add: separator_free_def list_all_iff)
  ultimately show ?thesis
    using delimited_values [of "CHR 0x1F" "rule_values a" "rule_values b" "CHR 0x1E # r" "CHR 0x1E # r'"] assms(1,2)
    by (simp add: rule_values_inj)
qed

lemma rule_payload_not_Nil [simp]: "rule_payload rule \<noteq> []"
  by (simp add: rule_payload_def)

lemma payload_inj:
  "list_all separator_free rules \<Longrightarrow> list_all separator_free others \<Longrightarrow> payload rules = payload others \<Longrightarrow>
     rules = others"
proof (induction rules arbitrary: others)
  case Nil
  then show ?case by (cases others) (auto simp: payload_def)
next
  case (Cons rule rules)
  obtain other rest where o: "others = other # rest"
    using Cons.prems(3) by (cases others) (auto simp: payload_def)
  have "rule = other \<and> payload rules = payload rest"
    using rule_payload_prefix [of rule other "payload rules" "payload rest"] Cons.prems o
    by (simp add: payload_def)
  moreover from this have "rules = rest"
    using Cons.IH [of rest] Cons.prems(1,2) o by simp
  ultimately show ?case using o by simp
qed

text \<open>
  The seal covers every text of every rule: it is the digest of one text made of them, and as
  long as no text holds one of the two separator characters, that text determines the rules, so a
  change to the rules can only keep the seal through a collision of the digest.
\<close>

theorem seal_covers_rules:
  assumes "list_all separator_free rules" and "list_all separator_free others"
  shows "sealRules rules = seal_of_text (payload rules) \<and> (payload rules = payload others \<longleftrightarrow> rules = others)"
  using seal_payload payload_inj [OF assms] by blast

definition demo_rule :: "string \<Rightarrow> Rule" where
  "demo_rule rid = \<lparr>ru_id = rid, ru_authority = ''adr.0077'', ru_title = ''every manifest is listed once'',
     ru_subjectKind = ''manifest'', ru_severity = ''finding'', ru_landsWith = ''now''\<rparr>"

lemma seal_covers_rules_witness:
  "payload [demo_rule ''RA1002''] \<noteq> payload [demo_rule ''RA1002'', demo_rule ''RA1003''] \<and>
   sealRules [demo_rule ''RA1002''] = seal_of_text (payload [demo_rule ''RA1002''])"
  using seal_covers_rules [of "[demo_rule ''RA1002'']" "[demo_rule ''RA1002'', demo_rule ''RA1003'']"]
  by (simp add: separator_free_def rule_values_def demo_rule_def)

text \<open>Two rules written as one, the second inside the title of the first.\<close>

definition merged :: "Rule \<Rightarrow> Rule \<Rightarrow> Rule" where
  "merged a b = b\<lparr>ru_id := ru_id a, ru_authority := ru_authority a,
     ru_title := ru_title a @ [CHR 0x1F] @ ru_subjectKind a @ [CHR 0x1F] @ ru_severity a @ [CHR 0x1F] @
       ru_landsWith a @ [CHR 0x1F, CHR 0x1E] @ ru_id b @ [CHR 0x1F] @ ru_authority b @ [CHR 0x1F] @ ru_title b\<rparr>"

lemma merged_wf: "rule_wf a \<Longrightarrow> rule_wf b \<Longrightarrow> rule_wf (merged a b)"
  by (simp add: rule_wf_def merged_def)

lemma merged_payload: "rule_payload (merged a b) = rule_payload a @ rule_payload b"
  by (simp add: merged_def rule_payload_def rule_values_def)

lemma merged_rules_wf: "rules_wf (xs @ a # b # ys) \<Longrightarrow> rules_wf (xs @ merged a b # ys)"
  by (auto simp: rules_wf_def sorted_wrt_append merged_wf) (auto simp: merged_def)

text \<open>
  Nothing keeps the separators out of a title: in any corpus the loader accepts, two
  neighbouring rules can be replaced by one that carries the second inside its title, and the result
  is a corpus the loader accepts with the very same seal and one rule less.
\<close>

theorem title_can_swallow_a_rule:
  assumes "corpus_wf corpus" and "rc_rules corpus = xs @ a # b # ys"
  shows "let forged = corpus\<lparr>rc_rules := xs @ merged a b # ys\<rparr> in
    parseRuleCorpus (corpus_node forged) = Inr forged \<and> sealRules (rc_rules forged) = sealRules (rc_rules corpus) \<and>
    length (rc_rules forged) + 1 = length (rc_rules corpus)"
proof -
  let ?forged = "corpus\<lparr>rc_rules := xs @ merged a b # ys\<rparr>"
  have "corpus_wf ?forged"
    using assms merged_rules_wf [of xs a b ys] by (simp add: corpus_wf_def)
  then have "parseRuleCorpus (corpus_node ?forged) = Inr ?forged" by (rule parse_corpus_node)
  moreover have "payload (xs @ merged a b # ys) = payload (rc_rules corpus)"
    by (simp add: payload_def merged_payload assms(2))
  ultimately show ?thesis
    by (simp add: Let_def seal_payload assms(2))
qed

definition demo_corpus :: RuleCorpus where
  "demo_corpus = \<lparr>rc_policyVersion = 1, rc_ruleSetSeal = ''fnv1a64:0'',
     rc_policyHistory = [\<lparr>ph_policyVersion = 1, ph_ruleSetSeal = ''fnv1a64:0''\<rparr>],
     rc_rules = [demo_rule ''RA1002'', demo_rule ''RA1003'']\<rparr>"

lemma demo_corpus_wf: "corpus_wf demo_corpus"
proof -
  have "rule_wf (demo_rule ''RA1002'')" "rule_wf (demo_rule ''RA1003'')"
    by (simp_all add: rule_wf_def demo_rule_def isRuleId_def isAuthorityIdentifier_def isLandsWith_def
        kSubjectKinds_def is_digit_def starts_with_def nth_Cons' less_char_def)
  then show ?thesis
    by (simp add: corpus_wf_def demo_corpus_def wf_single int64_min_def int64_max_def kMaximumRules_def rules_wf_def)
      (simp add: demo_rule_def less_char_def)
qed

lemma title_can_swallow_a_rule_witness:
  "\<exists>forged. parseRuleCorpus (corpus_node forged) = Inr forged \<and>
     sealRules (rc_rules forged) = sealRules (rc_rules demo_corpus) \<and> length (rc_rules forged) = 1"
  using title_can_swallow_a_rule [OF demo_corpus_wf, of "[]" "demo_rule ''RA1002''" "demo_rule ''RA1003''" "[]"]
  by (auto simp: demo_corpus_def Let_def)

end
