(* ===== verification/Arch_Findings.thy ===== *)
theory Arch_Findings
  imports Arch_Rules "HOL-Library.Product_Lexorder"
begin

text \<open>
  \<open>tools/rf_archcheck/src/findings.{h,cpp}\<close>: the sink every check reports to, the order of the
  findings and the findings document.  A check is modelled by the calls it makes on the sink, in
  order; nothing a check does depends on what the sink answers.
\<close>

section \<open>Findings\<close>

definition kToolVersion :: string where "kToolVersion = ''1.0.0''"

type_synonym Position = "nat \<times> nat"

definition position_present :: "Position \<Rightarrow> bool" where
  "position_present p \<longleftrightarrow> fst p \<noteq> 0 \<and> snd p \<noteq> 0"

record Finding =
  fi_ruleId :: string
  fi_authority :: string
  fi_subject :: string
  fi_position :: Position
  fi_detail :: string

text \<open>A call on the sink: rule, subject, position and detail.\<close>

type_synonym SinkCall = "string \<times> string \<times> Position \<times> string"

definition report :: "string \<Rightarrow> string \<Rightarrow> string \<Rightarrow> SinkCall" where
  "report ruleId subject detail = (ruleId, subject, (0, 0), detail)"

definition reportAt :: "string \<Rightarrow> string \<Rightarrow> Position \<Rightarrow> string \<Rightarrow> SinkCall" where
  "reportAt ruleId subject position detail = (ruleId, subject, position, detail)"

record FindingSink =
  si_findings :: "Finding list"
  si_overflowed :: bool
  si_unknownRule :: bool

definition newSink :: FindingSink where
  "newSink = \<lparr>si_findings = [], si_overflowed = False, si_unknownRule = False\<rparr>"

definition sinkReport :: "RuleCorpus \<Rightarrow> FindingSink \<Rightarrow> SinkCall \<Rightarrow> FindingSink" where
  "sinkReport corpus sink = (\<lambda>(ruleId, subject, position, detail).
     case find_rule corpus ruleId of
       None \<Rightarrow> sink\<lparr>si_unknownRule := True\<rparr>
     | Some rule \<Rightarrow>
         if kMaximumFindings \<le> length (si_findings sink) then sink\<lparr>si_overflowed := True\<rparr>
         else sink\<lparr>si_findings := si_findings sink @
           [\<lparr>fi_ruleId = ru_id rule, fi_authority = ru_authority rule, fi_subject = subject,
             fi_position = position, fi_detail = detail\<rparr>]\<rparr>)"

definition findingPrecedes :: "Finding \<Rightarrow> Finding \<Rightarrow> bool" where
  "findingPrecedes left right =
     (if fi_ruleId left \<noteq> fi_ruleId right then fi_ruleId left < fi_ruleId right
      else if fi_subject left \<noteq> fi_subject right then fi_subject left < fi_subject right
      else if fst (fi_position left) \<noteq> fst (fi_position right)
      then fst (fi_position left) < fst (fi_position right)
      else if snd (fi_position left) \<noteq> snd (fi_position right)
      then snd (fi_position left) < snd (fi_position right)
      else fi_detail left < fi_detail right)"

definition sortFindings :: "Finding list \<Rightarrow> Finding list" where
  "sortFindings findings = sort_by findingPrecedes findings"

definition findingEntry :: "Finding \<Rightarrow> ManifestNode" where
  "findingEntry finding = MObject
     ([(''ruleId'', MString (fi_ruleId finding)), (''authority'', MString (fi_authority finding)),
       (''subject'', MString (fi_subject finding))] @
      (if position_present (fi_position finding)
       then [(''position'', MObject [(''line'', makeNumber (int (fst (fi_position finding)))),
                                     (''column'', makeNumber (int (snd (fi_position finding))))])]
       else []) @
      [(''detail'', MString (fi_detail finding))])"

definition findingsDocument :: "int \<Rightarrow> Finding list \<Rightarrow> ManifestNode" where
  "findingsDocument policyVersion findings = MObject
     [(''$schema'', MString ''../../schemas/archcheck-findings-v1.schema.json''),
      (''schemaVersion'', makeNumber 1), (''policyVersion'', makeNumber policyVersion),
      (''toolVersion'', MString kToolVersion), (''findingCount'', makeNumber (int (length findings))),
      (''findings'', MArray (map findingEntry findings))]"

definition renderFindingsDocument :: "int \<Rightarrow> Finding list \<Rightarrow> string" where
  "renderFindingsDocument policyVersion findings =
     serializeMaintainedForm (findingsDocument policyVersion findings) @ [CHR 0x0A]"

section \<open>The sink and the order of the checks\<close>

definition runSink :: "RuleCorpus \<Rightarrow> SinkCall list \<Rightarrow> FindingSink" where
  "runSink corpus calls = foldl (sinkReport corpus) newSink calls"

text \<open>The finding a call asks for, when the corpus carries its rule.\<close>

definition called_finding :: "RuleCorpus \<Rightarrow> SinkCall \<Rightarrow> Finding option" where
  "called_finding corpus = (\<lambda>(ruleId, subject, position, detail).
     map_option (\<lambda>rule. \<lparr>fi_ruleId = ru_id rule, fi_authority = ru_authority rule, fi_subject = subject,
       fi_position = position, fi_detail = detail\<rparr>) (find_rule corpus ruleId))"

definition called_findings :: "RuleCorpus \<Rightarrow> SinkCall list \<Rightarrow> Finding list" where
  "called_findings corpus calls = List.map_filter (called_finding corpus) calls"

lemma called_findings_snoc [simp]:
  "called_findings corpus [] = []"
  "called_findings corpus (calls @ [call]) =
     called_findings corpus calls @ (case called_finding corpus call of None \<Rightarrow> [] | Some f \<Rightarrow> [f])"
  by (auto simp: called_findings_def map_filter_def split: option.splits)

lemma sinkReport_called:
  "sinkReport corpus sink call =
     (case called_finding corpus call of
        None \<Rightarrow> sink\<lparr>si_unknownRule := True\<rparr>
      | Some f \<Rightarrow> if kMaximumFindings \<le> length (si_findings sink) then sink\<lparr>si_overflowed := True\<rparr>
                  else sink\<lparr>si_findings := si_findings sink @ [f]\<rparr>)"
  by (cases call) (auto simp: sinkReport_def called_finding_def split: option.splits)

lemma runSink_result:
  "si_findings (runSink corpus calls) = take kMaximumFindings (called_findings corpus calls)"
  "si_overflowed (runSink corpus calls) \<longleftrightarrow> kMaximumFindings < length (called_findings corpus calls)"
  "si_unknownRule (runSink corpus calls) \<longleftrightarrow> (\<exists>call\<in>set calls. called_finding corpus call = None)"
proof (induction calls rule: rev_induct)
  case Nil
  {
    case 1 show ?case by (simp add: runSink_def newSink_def)
  next
    case 2 show ?case by (simp add: runSink_def newSink_def)
  next
    case 3 show ?case by (simp add: runSink_def newSink_def)
  }
next
  case (snoc call calls)
  have step: "runSink corpus (calls @ [call]) = sinkReport corpus (runSink corpus calls) call"
    by (simp add: runSink_def)
  {
    case 1 show ?case
      using snoc(1) by (auto simp: step sinkReport_called split: option.splits)
  next
    case 2 show ?case
      using snoc(1,2) by (auto simp: step sinkReport_called split: option.splits)
  next
    case 3 show ?case
      using snoc(3) by (auto simp: step sinkReport_called split: option.splits)
  }
qed

text \<open>What the engine makes of the sink: nothing after an unknown rule or an overflow.\<close>

definition published :: "RuleCorpus \<Rightarrow> SinkCall list \<Rightarrow> Finding list option" where
  "published corpus calls =
     (let sink = runSink corpus calls
      in if si_unknownRule sink \<or> si_overflowed sink then None else Some (sortFindings (si_findings sink)))"

definition finding_key :: "Finding \<Rightarrow> string \<times> string \<times> nat \<times> nat \<times> string" where
  "finding_key f = (fi_ruleId f, fi_subject f, fst (fi_position f), snd (fi_position f), fi_detail f)"

lemma findingPrecedes_key: "findingPrecedes a b \<longleftrightarrow> finding_key a < finding_key b"
  by (auto simp: findingPrecedes_def finding_key_def)

lemma insert_by_key: "insert_by (\<lambda>a b. key a < (key b :: 'k::linorder)) x xs = insort_key key x xs"
  by (induction xs) auto

lemma sort_by_key: "sort_by (\<lambda>a b. key a < (key b :: 'k::linorder)) xs = sort_key key xs"
  by (induction xs) (simp_all add: insert_by_key)

lemma sortFindings_key: "sortFindings fs = sort_key finding_key fs"
proof -
  have "findingPrecedes = (\<lambda>a b. finding_key a < finding_key b)"
    by (intro ext) (rule findingPrecedes_key)
  then show ?thesis using sort_by_key [of finding_key fs] by (simp add: sortFindings_def)
qed

text \<open>The authority of a finding follows from its rule, so the order has no ties.\<close>

lemma called_finding_authority:
  assumes "called_finding corpus call = Some f"
  shows "fi_authority f = ru_authority (the (find_rule corpus (fi_ruleId f)))"
proof -
  obtain ruleId subject position detail where call: "call = (ruleId, subject, position, detail)"
    by (metis surj_pair)
  with assms obtain rule where rule: "find_rule corpus ruleId = Some rule"
    and f: "fi_ruleId f = ru_id rule" "fi_authority f = ru_authority rule"
    by (auto simp: called_finding_def)
  moreover have "ru_id rule = ruleId" using find_rule_id [OF rule] by simp
  ultimately show ?thesis by simp
qed

lemma called_findings_member: "f \<in> set (called_findings corpus calls) \<Longrightarrow> \<exists>call. called_finding corpus call = Some f"
  by (force simp: called_findings_def map_filter_def)

lemma called_keys_inj: "inj_on finding_key (set (called_findings corpus calls))"
proof (rule inj_onI)
  fix f g
  assume "f \<in> set (called_findings corpus calls)" and "g \<in> set (called_findings corpus calls)"
    and key: "finding_key f = finding_key g"
  then have "fi_authority f = ru_authority (the (find_rule corpus (fi_ruleId f)))"
    and "fi_authority g = ru_authority (the (find_rule corpus (fi_ruleId g)))"
    using called_finding_authority called_findings_member by blast+
  then show "f = g"
    using key by (cases f; cases g) (simp add: finding_key_def prod_eq_iff)
qed

lemma called_findings_mset:
  assumes "mset calls = mset others"
  shows "mset (called_findings corpus calls) = mset (called_findings corpus others)"
proof -
  have "mset (called_findings corpus cs) =
      image_mset (the \<circ> called_finding corpus) {#c \<in># mset cs. called_finding corpus c \<noteq> None#}" for cs
    by (simp add: called_findings_def map_filter_def)
  then show ?thesis by (simp add: assms)
qed

lemma sort_permuted:
  assumes "mset xs = mset ys" and "inj_on (key :: 'a \<Rightarrow> 'k::linorder) (set xs)"
  shows "sort_key key xs = sort_key key ys"
  by (rule sort_key_inj_key_eq) (use assms in simp_all)

lemma published_permuted:
  assumes "mset calls = mset others"
  shows "published corpus calls = published corpus others"
proof -
  have calls: "mset (called_findings corpus calls) = mset (called_findings corpus others)"
    using assms by (rule called_findings_mset)
  have "set calls = set others" using assms by (rule mset_eq_setD)
  moreover have "length (called_findings corpus calls) = length (called_findings corpus others)"
    using calls by (rule mset_eq_length)
  ultimately show ?thesis
    using sort_permuted [OF calls called_keys_inj]
    by (auto simp: published_def Let_def runSink_result sortFindings_key)
qed

text \<open>
  The findings do not depend on the order in which the checks ran or walked the repository:
  whatever sequence the same calls on the sink come in, the outcome is the same sorted list, or the
  same refusal when a call names an unknown rule or there are too many.
\<close>

theorem findings_ignore_report_order:
  assumes "mset calls = mset others"
  shows "published corpus calls = published corpus others"
  using assms by (rule published_permuted)

lemma findings_ignore_report_order_witness:
  "published demo_corpus [report ''RA1003'' ''a'' ''x'', report ''RA1002'' ''b'' ''y''] =
   published demo_corpus [report ''RA1002'' ''b'' ''y'', report ''RA1003'' ''a'' ''x'']"
  by (rule findings_ignore_report_order) simp

section \<open>The findings document says what was found\<close>

text \<open>A finding as the document shows it: a position that is not present is left out.\<close>

definition shown :: "Finding \<Rightarrow> Finding" where
  "shown f = (if position_present (fi_position f) then f else f\<lparr>fi_position := (0, 0)\<rparr>)"

lemma plain_findingEntry [simp]: "plain_numbers (findingEntry f)"
  by (simp add: findingEntry_def)

lemma plain_findingsDocument [simp]: "plain_numbers (findingsDocument v fs)"
  by (simp add: findingsDocument_def list_all_iff)

lemma findingEntry_inj: "findingEntry f = findingEntry g \<longleftrightarrow> shown f = shown g"
proof -
  have not_zero: "\<not> position_present (0, 0)" by (simp add: position_present_def)
  then show ?thesis
    by (cases f; cases g) (auto simp: findingEntry_def shown_def prod_eq_iff)
qed

lemma map_eq_by:
  assumes "\<And>x y. f x = f y \<longleftrightarrow> g x = g y"
  shows "map f xs = map f ys \<longleftrightarrow> map g xs = map g ys"
proof (induction xs arbitrary: ys)
  case (Cons x xs)
  then show ?case using assms by (cases ys) auto
qed auto

text \<open>
  The findings document tells everything it is made from: two documents are the same bytes
  exactly when they state the same policy version and, in the same order, the same findings, where a
  position without a line and a column counts as none.
\<close>

theorem findings_document_is_faithful:
  "renderFindingsDocument v fs = renderFindingsDocument w gs \<longleftrightarrow> v = w \<and> map shown fs = map shown gs"
proof -
  have "renderFindingsDocument v fs = renderFindingsDocument w gs \<longleftrightarrow> findingsDocument v fs = findingsDocument w gs"
    using serializeMaintainedForm_inj [of "findingsDocument v fs" "findingsDocument w gs"]
    by (auto simp: renderFindingsDocument_def)
  also have "\<dots> \<longleftrightarrow> v = w \<and> map findingEntry fs = map findingEntry gs"
    by (auto simp: findingsDocument_def dest: map_eq_imp_length_eq)
  also have "map findingEntry fs = map findingEntry gs \<longleftrightarrow> map shown fs = map shown gs"
    by (rule map_eq_by) (rule findingEntry_inj)
  finally show ?thesis .
qed

end
