(* ===== verification/Arch_Text.thy ===== *)
theory Arch_Text
  imports Arch_Findings
begin

text \<open>
  \<open>tools/rf_archcheck/src/text_scan.{h,cpp}\<close>: the lexical reading of build files and sources.
  Comments are cut off with the quotation state tracked, command invocations and literals are found
  with their position, and the includes and the generated marker of a file are read line by line.
\<close>

section \<open>Lines and comments\<close>

definition line_feed :: char where "line_feed = CHR 0x0A"

text \<open>The numbered lines of a text; a text that ends with a line feed has an empty last line.\<close>

definition splitLines :: "string \<Rightarrow> (nat \<times> string) list" where
  "splitLines t = List.enumerate 1 (pieces_from line_feed t 0)"

fun stripComment :: "bool \<Rightarrow> char \<Rightarrow> string \<Rightarrow> string" where
  "stripComment quoted comment [] = []"
| "stripComment quoted comment (c # cs) =
     (if c = CHR 0x5C \<and> quoted
      then (case cs of [] \<Rightarrow> [c] | d # ds \<Rightarrow> c # d # stripComment quoted comment ds)
      else if c = CHR 0x22 then c # stripComment (\<not> quoted) comment cs
      else if c = comment \<and> \<not> quoted then []
      else c # stripComment quoted comment cs)"

definition code_of_line :: "string \<Rightarrow> string" where
  "code_of_line line = stripComment False CHR ''#'' line"

definition isIdentifierCharacter :: "char \<Rightarrow> bool" where
  "isIdentifierCharacter c \<longleftrightarrow>
     is_digit c \<or> (CHR ''a'' \<le> c \<and> c \<le> CHR ''z'') \<or> (CHR ''A'' \<le> c \<and> c \<le> CHR ''Z'') \<or> c = CHR ''_''"

definition is_blank_char :: "char \<Rightarrow> bool" where
  "is_blank_char c \<longleftrightarrow> c = CHR '' '' \<or> c = CHR 0x09"

text \<open>The loops that step over blanks from an offset.\<close>

definition skip_blanks :: "string \<Rightarrow> nat \<Rightarrow> nat" where
  "skip_blanks s off = off + length (takeWhile is_blank_char (drop off s))"

section \<open>Invocations and literals\<close>

text \<open>Whether a command that stands at a place of a line of code is invoked there.\<close>

definition invoked_at :: "string \<Rightarrow> string \<Rightarrow> nat \<Rightarrow> bool" where
  "invoked_at command kCode kFound \<longleftrightarrow>
     \<not> (0 < kFound \<and> isIdentifierCharacter (kCode ! (kFound - 1))) \<and>
     (let after = skip_blanks kCode (kFound + length command)
      in after < length kCode \<and> kCode ! after = CHR ''('')"

function invocations_from :: "string \<Rightarrow> string \<Rightarrow> nat \<Rightarrow> nat list" where
  "invocations_from command kCode offset =
     (if offset < length kCode then
        (case find_str_from command kCode offset of
           None \<Rightarrow> []
         | Some kFound \<Rightarrow>
             (if invoked_at command kCode kFound then [kFound] else []) @
             invocations_from command kCode (kFound + 1))
      else [])"
  by pat_completeness auto
termination
  by (relation "measure (\<lambda>(command, kCode, offset). length kCode - offset)")
    (auto simp: find_str_from_def)

declare invocations_from.simps [simp del]

definition findCommandInvocations :: "string \<Rightarrow> string \<Rightarrow> Position list" where
  "findCommandInvocations t command =
     concat (map (\<lambda>(number, line). map (\<lambda>kFound. (number, kFound + 1))
       (invocations_from command (code_of_line line) 0)) (splitLines t))"

function literals_from :: "string \<Rightarrow> string \<Rightarrow> nat \<Rightarrow> nat list" where
  "literals_from needle kCode offset =
     (if needle \<noteq> [] \<and> offset < length kCode then
        (case find_str_from needle kCode offset of
           None \<Rightarrow> []
         | Some kFound \<Rightarrow> kFound # literals_from needle kCode (kFound + length needle))
      else [])"
  by pat_completeness auto
termination
proof (relation "measure (\<lambda>(needle, kCode, offset). length kCode - offset)")
  fix needle kCode :: string and offset kFound
  assume "needle \<noteq> [] \<and> offset < length kCode" and "find_str_from needle kCode offset = Some kFound"
  then have "0 < length needle" and "offset \<le> kFound" and "offset < length kCode"
    by (auto simp: find_str_from_def)
  then have "length kCode - (kFound + length needle) < length kCode - offset" by linarith
  then show "((needle, kCode, kFound + length needle), needle, kCode, offset)
      \<in> measure (\<lambda>(needle, kCode, offset). length kCode - offset)"
    by simp
qed simp

declare literals_from.simps [simp del]

definition findLiteral :: "string \<Rightarrow> string \<Rightarrow> Position list" where
  "findLiteral t needle =
     (if needle = [] then []
      else concat (map (\<lambda>(number, line). map (\<lambda>kFound. (number, kFound + 1))
        (literals_from needle (code_of_line line) 0)) (splitLines t)))"

definition lineAt :: "string \<Rightarrow> nat \<Rightarrow> string" where
  "lineAt t number = (case find (\<lambda>(n, line). n = number) (splitLines t) of None \<Rightarrow> [] | Some (n, line) \<Rightarrow> line)"

section \<open>Includes and the generated marker\<close>

record IncludeDirective =
  in_position :: Position
  in_target :: string
  in_angled :: bool

definition kIncludeWord :: string where "kIncludeWord = ''#include''"

definition includeOfLine :: "nat \<Rightarrow> string \<Rightarrow> IncludeDirective option" where
  "includeOfLine number line =
     (let start = skip_blanks line 0; code = drop start line
      in if \<not> starts_with code kIncludeWord then None
         else let offset = skip_blanks code (length kIncludeWord)
         in if length code \<le> offset then None
            else let kOpen = code ! offset
            in if kOpen \<noteq> CHR ''<'' \<and> kOpen \<noteq> CHR 0x22 then None
               else let kClose = (if kOpen = CHR ''<'' then CHR ''>'' else CHR 0x22)
               in case find_char_from kClose code (offset + 1) of
                    None \<Rightarrow> None
                  | Some kEnd \<Rightarrow> Some \<lparr>in_position = (number, start + offset + 2),
                      in_target = substr code (offset + 1) (kEnd - offset - 1), in_angled = (kOpen = CHR ''<'')\<rparr>)"

definition findIncludes :: "string \<Rightarrow> IncludeDirective list" where
  "findIncludes t = List.map_filter (\<lambda>(number, line). includeOfLine number line) (splitLines t)"

definition kMarkers :: "string list" where
  "kMarkers = [''@generated'', ''DO NOT EDIT'', ''do not edit'', ''Generated by'', ''AUTOGENERATED'']"

text \<open>The first marker of the list that a line holds, and the first line of the first twenty that holds one.\<close>

fun first_marker :: "string \<Rightarrow> string list \<Rightarrow> nat option" where
  "first_marker line [] = None"
| "first_marker line (kMarker # rest) =
     (case index_of_str kMarker line of Some kFound \<Rightarrow> Some kFound | None \<Rightarrow> first_marker line rest)"

fun generated_line :: "(nat \<times> string) list \<Rightarrow> Position option" where
  "generated_line [] = None"
| "generated_line ((number, line) # rest) =
     (case first_marker line kMarkers of
        Some kFound \<Rightarrow> Some (number, kFound + 1)
      | None \<Rightarrow> generated_line rest)"

definition declaresItselfGenerated :: "string \<Rightarrow> Position option" where
  "declaresItselfGenerated t = generated_line (take 20 (splitLines t))"

section \<open>What the scans find\<close>

lemma find_str_from_Some:
  assumes "find_str_from p s off = Some i"
  shows "off \<le> i" and "i \<le> length s" and "starts_with (drop i s) p"
  using assms index_of_str_Some [of p "drop off s" "i - off"]
  by (auto simp: find_str_from_def add.commute split: if_splits)

lemma index_of_str_least: "index_of_str p s = Some i \<Longrightarrow> j < i \<Longrightarrow> \<not> starts_with (drop j s) p"
proof (induction p s arbitrary: i j rule: index_of_str.induct)
  case (2 p x xs)
  then show ?case by (cases j) (auto split: if_splits)
qed (auto split: if_splits)

lemma find_str_from_least:
  assumes "find_str_from p s off = Some i" and "off \<le> j" and "j < i"
  shows "\<not> starts_with (drop j s) p"
proof -
  from assms(1) obtain z where z: "index_of_str p (drop off s) = Some z" and i: "i = off + z"
    by (auto simp: find_str_from_def split: if_splits)
  with assms(2,3) have "j - off < z" by linarith
  from index_of_str_least [OF z this] assms(2) show ?thesis by simp
qed

lemma find_str_from_None:
  assumes "find_str_from p s off = None" and "off \<le> j" and "j \<le> length s"
  shows "\<not> starts_with (drop j s) p"
  using assms index_of_str_None [of p "drop off s"]
  by (auto simp: find_str_from_def split: if_splits) (metis drop_drop le_add_diff_inverse2 diff_le_mono)

definition command_at :: "string \<Rightarrow> string \<Rightarrow> nat \<Rightarrow> bool" where
  "command_at command kCode i \<longleftrightarrow> starts_with (drop i kCode) command \<and> invoked_at command kCode i"

lemma filter_upt_first:
  assumes "a \<le> k" and "k < n" and "\<And>j. a \<le> j \<Longrightarrow> j < k \<Longrightarrow> \<not> P j"
  shows "filter P [a..<n] = (if P k then [k] else []) @ filter P [k + 1..<n]"
proof -
  have "[a..<n] = [a..<k] @ k # [k + 1..<n]"
    using upt_add_eq_append [of a k "n - k"] upt_conv_Cons [of k n] assms(1,2) by simp
  moreover have "filter P [a..<k] = []" using assms(3) by (auto simp: filter_empty_conv)
  ultimately show ?thesis by simp
qed

lemma invocations_from_filter:
  "command \<noteq> [] \<Longrightarrow> invocations_from command kCode off = filter (command_at command kCode) [off..<length kCode]"
proof (induction command kCode off rule: invocations_from.induct)
  case (1 command kCode offset)
  show ?case
  proof (cases "offset < length kCode")
    case in_range: True
    show ?thesis
    proof (cases "find_str_from command kCode offset")
      case None
      then have "\<not> command_at command kCode j" if "offset \<le> j" "j < length kCode" for j
        using find_str_from_None [OF None that(1)] that(2) by (simp add: command_at_def)
      then show ?thesis
        using None by (simp add: invocations_from.simps [of command kCode offset] filter_empty_conv)
    next
      case (Some k)
      have k: "offset \<le> k" "starts_with (drop k kCode) command" "k \<le> length kCode"
        using find_str_from_Some [OF Some] by simp_all
      then have "k < length kCode" using "1.prems" by (cases "k = length kCode") (auto simp: starts_with_iff)
      moreover have "command_at command kCode k = invoked_at command kCode k"
        using k(2) by (simp add: command_at_def)
      moreover have "\<not> command_at command kCode j" if "offset \<le> j" "j < k" for j
        using find_str_from_least [OF Some that] by (simp add: command_at_def)
      ultimately show ?thesis
        using Some in_range k(1) "1.IH" [OF in_range Some "1.prems"]
          filter_upt_first [of offset k "length kCode" "command_at command kCode"]
        by (simp add: invocations_from.simps [of command kCode offset])
    qed
  qed (simp add: invocations_from.simps [of command kCode offset])
qed

lemma starts_with_in_range: "starts_with (drop i s) p \<Longrightarrow> p \<noteq> [] \<Longrightarrow> i < length s"
  by (cases "i < length s") (auto simp: starts_with_iff)

lemma mem_splitLines: "(number, line) \<in> set (splitLines t) \<longleftrightarrow>
    1 \<le> number \<and> number \<le> length (split_at_char line_feed t) \<and> line = split_at_char line_feed t ! (number - 1)"
  by (auto simp: splitLines_def pieces_from_start in_set_enumerate_eq)

text \<open>
  A command is reported at exactly the places where it is invoked: where its name stands in the
  part of a line before the comment, is not the end of a longer identifier, and is followed by an
  opening parenthesis after blanks only; and the places come in the order of the text.
\<close>

theorem invocations_found_exactly:
  assumes "command \<noteq> []"
  shows "(number, column) \<in> set (findCommandInvocations t command) \<longleftrightarrow>
    (\<exists>line i. (number, line) \<in> set (splitLines t) \<and> column = i + 1 \<and>
       command_at command (code_of_line line) i)"
  using assms starts_with_in_range
  by (fastforce simp: findCommandInvocations_def invocations_from_filter command_at_def)

lemma invocations_found_exactly_witness:
  "(1, 3) \<in> set (findCommandInvocations ''  file (GLOB x)'' ''file'')"
proof -
  have "(1, ''  file (GLOB x)'') \<in> set (splitLines ''  file (GLOB x)'')"
    by (simp add: mem_splitLines line_feed_def)
  moreover have "command_at ''file'' (code_of_line ''  file (GLOB x)'') 2"
    by (simp add: command_at_def code_of_line_def invoked_at_def isIdentifierCharacter_def is_digit_def
        skip_blanks_def is_blank_char_def nth_Cons' less_eq_char_def)
  ultimately show ?thesis
    using invocations_found_exactly [of "''file''" 1 3 "''  file (GLOB x)''"] by fastforce
qed

definition blanks :: "string \<Rightarrow> bool" where
  "blanks s \<longleftrightarrow> list_all is_blank_char s"

lemma skip_blanks_at:
  assumes "drop off s = b @ c # r" and "blanks b" and "\<not> is_blank_char c"
  shows "skip_blanks s off = off + length b"
  using assms by (simp add: skip_blanks_def blanks_def list_all_iff takeWhile_append)

lemma drop_skip_blanks:
  "\<exists>b. blanks b \<and> drop off s = b @ drop (skip_blanks s off) s \<and> skip_blanks s off = off + length b"
proof (intro exI conjI)
  show "blanks (takeWhile is_blank_char (drop off s))"
    by (auto simp: blanks_def list_all_iff dest: set_takeWhileD)
  have "drop (skip_blanks s off) s = dropWhile is_blank_char (drop off s)"
    unfolding skip_blanks_def by (metis add.commute drop_drop dropWhile_eq_drop)
  then show "drop off s = takeWhile is_blank_char (drop off s) @ drop (skip_blanks s off) s" by simp
qed (simp add: skip_blanks_def)

lemma not_blank_chars [simp]:
  "\<not> is_blank_char CHR ''#''" "\<not> is_blank_char CHR ''<''" "\<not> is_blank_char CHR 0x22"
  by (simp_all add: is_blank_char_def)

definition bracket_pair :: "char \<Rightarrow> char \<Rightarrow> bool" where
  "bracket_pair kOpen kClose \<longleftrightarrow> (kOpen = CHR ''<'' \<and> kClose = CHR ''>'') \<or> (kOpen = CHR 0x22 \<and> kClose = CHR 0x22)"

text \<open>A line that includes: blanks, the word, blanks, and a target between brackets or quotation marks.\<close>

definition includes_at :: "string \<Rightarrow> nat \<Rightarrow> string \<Rightarrow> bool \<Rightarrow> bool" where
  "includes_at line column target angled \<longleftrightarrow>
     (\<exists>b1 b2 kOpen kClose rest. line = b1 @ kIncludeWord @ b2 @ kOpen # target @ kClose # rest \<and>
        blanks b1 \<and> blanks b2 \<and> bracket_pair kOpen kClose \<and> kClose \<notin> set target \<and>
        column = length b1 + length kIncludeWord + length b2 + 2 \<and> angled = (kOpen = CHR ''<''))"

lemma includeOfLine_at:
  assumes "includes_at line column target angled"
  shows "includeOfLine number line = Some \<lparr>in_position = (number, column), in_target = target, in_angled = angled\<rparr>"
proof -
  from assms obtain b1 b2 kOpen kClose rest where
    line: "line = b1 @ kIncludeWord @ b2 @ kOpen # target @ kClose # rest"
    and blank: "blanks b1" "blanks b2" and pair: "bracket_pair kOpen kClose" and close: "kClose \<notin> set target"
    and column: "column = length b1 + length kIncludeWord + length b2 + 2" and angled: "angled = (kOpen = CHR ''<'')"
    unfolding includes_at_def by blast
  let ?code = "kIncludeWord @ b2 @ kOpen # target @ kClose # rest"
  let ?offset = "length kIncludeWord + length b2"
  have start: "skip_blanks line 0 = length b1"
    using skip_blanks_at [of 0 line b1 "CHR ''#''" "''include'' @ b2 @ kOpen # target @ kClose # rest"] blank(1)
    by (simp add: line kIncludeWord_def)
  have offset: "skip_blanks ?code (length kIncludeWord) = ?offset"
    using skip_blanks_at [of "length kIncludeWord" ?code b2 kOpen "target @ kClose # rest"] blank(2) pair
    by (auto simp: bracket_pair_def)
  have opens: "?code ! ?offset = kOpen" by (simp add: nth_append)
  have "drop (?offset + 1) ?code = target @ kClose # rest" by simp
  then have "find_char_from kClose ?code (?offset + 1) = Some (?offset + 1 + length target)"
    and "substr ?code (?offset + 1) (length target) = target"
    using close by (simp_all add: find_char_from_def index_of_append_new substr_def)
  then show ?thesis
    using start offset opens pair angled column
    by (auto simp: includeOfLine_def Let_def line bracket_pair_def)
qed

lemma includeOfLine_Some:
  assumes "includeOfLine number line = Some d"
  shows "\<exists>column target angled. includes_at line column target angled"
proof -
  obtain b1 where b1: "blanks b1" "line = b1 @ drop (skip_blanks line 0) line"
    using drop_skip_blanks [of 0 line] by auto
  let ?code = "drop (skip_blanks line 0) line"
  let ?offset = "skip_blanks ?code (length kIncludeWord)"
  have word: "starts_with ?code kIncludeWord" and range: "?offset < length ?code"
    and opens: "?code ! ?offset = CHR ''<'' \<or> ?code ! ?offset = CHR 0x22"
    using assms by (auto simp: includeOfLine_def Let_def split: if_splits)
  define kClose where "kClose = (if ?code ! ?offset = CHR ''<'' then CHR ''>'' else CHR 0x22)"
  have "find_char_from kClose ?code (?offset + 1) \<noteq> None"
    using assms word range opens by (auto simp: includeOfLine_def Let_def kClose_def split: if_splits option.splits)
  then obtain k where k: "index_of kClose (drop (?offset + 1) ?code) = Some k"
    by (auto simp: find_char_from_def)
  from word obtain after where after: "?code = kIncludeWord @ after" by (auto simp: starts_with_iff)
  obtain b2 where b2: "blanks b2" "drop (length kIncludeWord) ?code = b2 @ drop ?offset ?code"
    using drop_skip_blanks [of "length kIncludeWord" ?code] by auto
  have "?code = kIncludeWord @ b2 @ drop ?offset ?code" using after b2(2) by simp
  also have "drop ?offset ?code = ?code ! ?offset # drop (?offset + 1) ?code"
    using Cons_nth_drop_Suc [OF range] by simp
  also have "drop (?offset + 1) ?code = take k (drop (?offset + 1) ?code) @ kClose # drop (Suc k) (drop (?offset + 1) ?code)"
    using k id_take_nth_drop [of k "drop (?offset + 1) ?code"] by (auto simp: index_of_Some_iff)
  finally have "line = b1 @ kIncludeWord @ b2 @ ?code ! ?offset # take k (drop (?offset + 1) ?code) @
      kClose # drop (Suc k) (drop (?offset + 1) ?code)"
    using b1(2) by metis
  moreover have "kClose \<notin> set (take k (drop (?offset + 1) ?code))" using k by (simp add: index_of_Some_iff)
  moreover have "bracket_pair (?code ! ?offset) kClose" using opens by (auto simp: bracket_pair_def kClose_def)
  ultimately show ?thesis
    using b1(1) b2(1) unfolding includes_at_def by blast
qed

lemma includeOfLine_iff:
  "includeOfLine number line = Some d \<longleftrightarrow>
     includes_at line (snd (in_position d)) (in_target d) (in_angled d) \<and> fst (in_position d) = number"
proof
  assume d: "includeOfLine number line = Some d"
  then obtain column target angled where "includes_at line column target angled"
    using includeOfLine_Some by blast
  with includeOfLine_at [OF this, of number] d
  show "includes_at line (snd (in_position d)) (in_target d) (in_angled d) \<and> fst (in_position d) = number"
    by auto
next
  assume "includes_at line (snd (in_position d)) (in_target d) (in_angled d) \<and> fst (in_position d) = number"
  then show "includeOfLine number line = Some d"
    using includeOfLine_at by (cases d) auto
qed

text \<open>
  The includes reported for a file are exactly its include lines: a directive is reported with a
  line, a column, a target and a kind when and only when that line consists of blanks, the word,
  blanks and, at that column, the target between its brackets or quotation marks, cut at the first
  closing one.
\<close>

theorem includes_found_exactly:
  "d \<in> set (findIncludes t) \<longleftrightarrow>
     (\<exists>line. (fst (in_position d), line) \<in> set (splitLines t) \<and>
        includes_at line (snd (in_position d)) (in_target d) (in_angled d))"
proof -
  have "d \<in> set (findIncludes t) \<longleftrightarrow> (\<exists>(number, line)\<in>set (splitLines t). includeOfLine number line = Some d)"
    by (force simp: findIncludes_def map_filter_def)
  then show ?thesis by (auto simp: includeOfLine_iff)
qed

end
