(* ===== verification/Arch_Edges.thy ===== *)
theory Arch_Edges
  imports Arch_Model Arch_Text
begin

text \<open>
  \<open>tools/rf_archcheck/src/checks_edges.cpp\<close>: the rules about dependency edges.  The modules with
  their declared edges, the owner of an include, the search for a cycle of the production graph, and
  the calls on the sink for the rules RA3001 to RA3005.
\<close>

section \<open>Modules and their edges\<close>

record ModuleManifest =
  mo_manifestPath :: string
  mo_root :: string
  mo_id :: string
  mo_edges :: "(string, string list) omap"

definition kEdgeCategories :: "string list" where
  "kEdgeCategories = [''public'', ''private'', ''test'', ''tool'', ''hostOnly'']"

definition readEdges :: "ManifestNode \<Rightarrow> (string, string list) omap" where
  "readEdges dependencies =
     fold (\<lambda>kCategory. omap_put kCategory (stringArray dependencies kCategory)) kEdgeCategories []"

definition readModule :: "LoadedManifest \<Rightarrow> ModuleManifest" where
  "readModule manifest =
     \<lparr>mo_manifestPath = lm_path manifest, mo_root = parentDirectory (lm_path manifest),
      mo_id = text_or_empty (manifest_root manifest) ''id'',
      mo_edges = (case mfind (manifest_root manifest) ''dependencies'' of
                    None \<Rightarrow> [] | Some dependencies \<Rightarrow> readEdges dependencies)\<rparr>"

definition collectModules :: "RepositoryModel \<Rightarrow> ModuleManifest list" where
  "collectModules model =
     map readModule (filter (\<lambda>m. lm_present m \<and> ends_with (lm_path m) ''/module.json'') (rm_manifests model))"

text \<open>The directory an include of a module begins with.\<close>

definition include_prefix :: "string \<Rightarrow> string" where
  "include_prefix identity =
     (let pre = ''rawframe/'' @ map (\<lambda>c. if c = CHR ''.'' then CHR ''/'' else c) identity
      in (case find_char_from CHR ''/'' pre (length ''rawframe/'') of
            None \<Rightarrow> pre
          | Some kSecond \<Rightarrow> ''rawframe/'' @ drop (kSecond + 1) pre) @ ''/'')"

definition betterOwner :: "string \<Rightarrow> string \<Rightarrow> ModuleManifest \<Rightarrow> string" where
  "betterOwner target best module =
     (let pre = include_prefix (mo_id module)
      in if starts_with target pre \<and> length best < length pre then mo_id module else best)"

definition moduleOfInclude :: "string \<Rightarrow> ModuleManifest list \<Rightarrow> string" where
  "moduleOfInclude target modules =
     (if \<not> starts_with target ''rawframe/'' then [] else foldl (betterOwner target) [] modules)"

definition declares :: "ModuleManifest \<Rightarrow> string \<Rightarrow> bool" where
  "declares module identity \<longleftrightarrow> list_ex (\<lambda>(category, targets). identity \<in> set targets) (mo_edges module)"

definition edges_in :: "ModuleManifest \<Rightarrow> string \<Rightarrow> string list" where
  "edges_in module category = omap_at [] (mo_edges module) category"

section \<open>The search for a cycle\<close>

definition production_edges :: "ModuleManifest \<Rightarrow> string list" where
  "production_edges module =
     concat (map snd (filter (\<lambda>(category, targets). category \<noteq> ''test'' \<and> category \<noteq> ''tool'') (mo_edges module)))"

definition addEdge :: "string \<Rightarrow> (string, string list) omap \<Rightarrow> string \<Rightarrow> (string, string list) omap" where
  "addEdge identity graph edge = omap_put identity (omap_at [] graph identity @ [edge]) graph"

definition productionGraph :: "ModuleManifest list \<Rightarrow> (string, string list) omap" where
  "productionGraph modules = foldl (\<lambda>graph module. foldl (addEdge (mo_id module)) graph (production_edges module)) [] modules"

record CycleSearch =
  cs_visiting :: "string list"
  cs_done :: "string list"
  cs_cycleAt :: string

text \<open>Trying one node after another until a cycle is found.\<close>

fun search_any :: "('a \<Rightarrow> 's \<Rightarrow> bool \<times> 's) \<Rightarrow> 'a list \<Rightarrow> 's \<Rightarrow> bool \<times> 's" where
  "search_any visit [] st = (False, st)"
| "search_any visit (x # xs) st =
     (case visit x st of (found, st') \<Rightarrow> if found then (True, st') else search_any visit xs st')"

text \<open>Nested calls are on distinct nodes, so fuel beyond the number of nodes is never used up.\<close>

fun visitNode :: "(string, string list) omap \<Rightarrow> nat \<Rightarrow> string \<Rightarrow> CycleSearch \<Rightarrow> bool \<times> CycleSearch" where
  "visitNode graph 0 node st = (False, st)"
| "visitNode graph (Suc fuel) node st =
     (if node \<in> set (cs_done st) then (False, st)
      else if node \<in> set (cs_visiting st) then (True, st\<lparr>cs_cycleAt := node\<rparr>)
      else case search_any (visitNode graph fuel) (omap_at [] graph node)
             (st\<lparr>cs_visiting := insort_insert node (cs_visiting st)\<rparr>) of
           (found, st') \<Rightarrow>
             if found then (True, st')
             else (False, st'\<lparr>cs_visiting := filter (\<lambda>n. n \<noteq> node) (cs_visiting st'),
                             cs_done := insort_insert node (cs_done st')\<rparr>))"

definition graph_nodes :: "(string, string list) omap \<Rightarrow> ModuleManifest list \<Rightarrow> string list" where
  "graph_nodes graph modules = map mo_id modules @ concat (map snd graph)"

definition hasCycle :: "ModuleManifest list \<Rightarrow> bool \<times> string" where
  "hasCycle modules =
     (let graph = productionGraph modules;
          (found, st) = search_any (visitNode graph (Suc (length (graph_nodes graph modules)))) (map mo_id modules)
            \<lparr>cs_visiting = [], cs_done = [], cs_cycleAt = []\<rparr>
      in (found, cs_cycleAt st))"

section \<open>The checks\<close>

text \<open>RA3001 and RA3002 for one include of one file of a module.\<close>

definition checkInclude :: "ModuleManifest list \<Rightarrow> ModuleManifest \<Rightarrow> string \<Rightarrow> IncludeDirective \<Rightarrow> SinkCall list" where
  "checkInclude modules module path include =
     (let kOwner = moduleOfInclude (in_target include) modules;
          kIsTest = contains_str path ''/tests/''; kIsPublicHeader = contains_str path ''/include/''
      in if kOwner = [] \<or> kOwner = mo_id module then []
         else if \<not> declares module kOwner
         then [reportAt ''RA3001'' path (in_position include)
                (''the source includes '' @ in_target include @ '', owned by '' @ kOwner @
                 '', and the manifest declares no edge to it'')]
         else
           (if kIsPublicHeader \<and> kOwner \<notin> set (edges_in module ''public'')
            then [reportAt ''RA3002'' path (in_position include)
                   (''a public header includes '' @ in_target include @ '' through a non-public edge to '' @ kOwner)]
            else []) @
           (if \<not> kIsTest \<and> kOwner \<in> set (edges_in module ''test'') \<and> kOwner \<notin> set (edges_in module ''public'')
            then [reportAt ''RA3002'' path (in_position include)
                   (''non-test source includes '' @ in_target include @ '' through a test edge to '' @ kOwner)]
            else []))"

definition checkModuleFile :: "ArchFiles \<Rightarrow> RepositoryModel \<Rightarrow> ModuleManifest list \<Rightarrow> ModuleManifest \<Rightarrow> string
    \<Rightarrow> SinkCall list" where
  "checkModuleFile fs model modules module path =
     (if \<not> starts_with path (mo_root module @ ''/'') \<or> \<not> isFirstPartySource path then []
      else case model_text fs model path of
        None \<Rightarrow> []
      | Some t \<Rightarrow> concat (map (checkInclude modules module path) (findIncludes t)))"

text \<open>RA3003.\<close>

definition checkCycle :: "ModuleManifest list \<Rightarrow> SinkCall list" where
  "checkCycle modules =
     (let (found, cycleAt) = hasCycle modules
      in if found then [report ''RA3003'' cycleAt (''the production module graph is not acyclic at: '' @ cycleAt)] else [])"

text \<open>RA3004: the link name of a module, and the links of one build file to one other module.\<close>

definition link_name :: "string \<Rightarrow> string" where
  "link_name identity =
     ''rawframe::'' @ (case index_of CHR ''.'' identity of None \<Rightarrow> identity | Some kDot \<Rightarrow> drop (kDot + 1) identity)"

definition checkLinks :: "ModuleManifest \<Rightarrow> string \<Rightarrow> string \<Rightarrow> ModuleManifest \<Rightarrow> SinkCall list" where
  "checkLinks module kBuildFile t other =
     (if mo_id other = mo_id module then []
      else concat (map (\<lambda>position.
        if declares module (mo_id other) then []
        else [reportAt ''RA3004'' kBuildFile position
               (''the build file links '' @ link_name (mo_id other) @ '' and the manifest declares no edge to ''
                @ mo_id other)])
        (findLiteral t (link_name (mo_id other)))))"

definition checkModuleBuildFile :: "ArchFiles \<Rightarrow> RepositoryModel \<Rightarrow> ModuleManifest list \<Rightarrow> ModuleManifest
    \<Rightarrow> SinkCall list" where
  "checkModuleBuildFile fs model modules module =
     (let kBuildFile = mo_root module @ ''/CMakeLists.txt''
      in if \<not> hasFile (rm_scan model) kBuildFile then []
         else case model_text fs model kBuildFile of
           None \<Rightarrow> []
         | Some t \<Rightarrow> concat (map (checkLinks module kBuildFile t) modules))"

text \<open>RA3005 for one declaring command at one place.\<close>

definition checkDeclaration :: "RepositoryModel \<Rightarrow> ModuleManifest list \<Rightarrow> string \<Rightarrow> string \<Rightarrow> Position \<Rightarrow> SinkCall list" where
  "checkDeclaration model modules path t position =
     (let kLine = lineAt t (fst position)
      in map (\<lambda>entry. reportAt ''RA3005'' path position
             (''the build file declares an edge by the catalog identity '' @ ca_id entry))
           (filter (\<lambda>entry. contains_str kLine (ca_id entry)) (rm_catalog model)) @
         map (\<lambda>module. reportAt ''RA3005'' path position
             (''the build file declares an edge by the module identity '' @ mo_id module))
           (filter (\<lambda>module. contains_str kLine (mo_id module)) modules))"

definition checkLaneFile :: "ArchFiles \<Rightarrow> RepositoryModel \<Rightarrow> ModuleManifest list \<Rightarrow> string \<Rightarrow> SinkCall list" where
  "checkLaneFile fs model modules path =
     (case model_text fs model path of
        None \<Rightarrow> []
      | Some t \<Rightarrow> concat (map (\<lambda>kDeclaring.
          concat (map (checkDeclaration model modules path t) (findCommandInvocations t kDeclaring)))
          [''target_link_libraries'', ''find_package'']))"

definition checkDependencyEdges :: "ArchFiles \<Rightarrow> RepositoryModel \<Rightarrow> SinkCall list" where
  "checkDependencyEdges fs model =
     (let kModules = collectModules model
      in concat (map (\<lambda>module. concat (map (checkModuleFile fs model kModules module) (scanned_paths model))) kModules) @
         checkCycle kModules @
         concat (map (checkModuleBuildFile fs model kModules) kModules) @
         concat (map (checkLaneFile fs model kModules) (rm_buildLane model)))"

section \<open>The cycle search is exact\<close>

text \<open>A node on a cycle of the graph.\<close>

definition on_cycle :: "(string \<Rightarrow> string list) \<Rightarrow> string \<Rightarrow> bool" where
  "on_cycle successors x \<longleftrightarrow> (\<exists>y\<in>set (successors x). reaches successors y x)"

definition leads :: "(string \<Rightarrow> string list) \<Rightarrow> string \<Rightarrow> string \<Rightarrow> bool" where
  "leads successors v x \<longleftrightarrow> (\<exists>y\<in>set (successors v). reaches successors y x)"

lemma leads_step: "leads successors v x \<Longrightarrow> y \<in> set (successors x) \<Longrightarrow> leads successors v y"
  by (auto simp: leads_def intro: reaches.onward)

lemma leads_direct: "y \<in> set (successors x) \<Longrightarrow> leads successors x y"
  by (auto simp: leads_def intro: reaches.start)

text \<open>
  What the search knows between two visits: the nodes it is done with are closed under the edges and
  on no cycle, and they are apart from the nodes it is visiting.
\<close>

definition search_ok :: "(string \<Rightarrow> string list) \<Rightarrow> CycleSearch \<Rightarrow> bool" where
  "search_ok successors st \<longleftrightarrow> set (cs_done st) \<inter> set (cs_visiting st) = {} \<and>
     (\<forall>d\<in>set (cs_done st). set (successors d) \<subseteq> set (cs_done st) \<and> \<not> on_cycle successors d)"

definition search_result :: "(string \<Rightarrow> string list) \<Rightarrow> CycleSearch \<Rightarrow> string set \<Rightarrow> bool \<times> CycleSearch \<Rightarrow> bool" where
  "search_result successors st nodes = (\<lambda>(found, st').
     if found then on_cycle successors (cs_cycleAt st')
     else search_ok successors st' \<and> set (cs_visiting st') = set (cs_visiting st) \<and>
       set (cs_done st) \<union> nodes \<subseteq> set (cs_done st'))"

definition ready :: "(string \<Rightarrow> string list) \<Rightarrow> string set \<Rightarrow> nat \<Rightarrow> CycleSearch \<Rightarrow> string \<Rightarrow> bool" where
  "ready successors N fuel st node \<longleftrightarrow> search_ok successors st \<and> node \<in> N \<and>
     (\<forall>v\<in>set (cs_visiting st). leads successors v node) \<and> card (N - set (cs_visiting st)) < fuel"

lemma search_any_result:
  assumes "\<And>x st. x \<in> set xs \<Longrightarrow> ready successors N fuel st x \<Longrightarrow> search_result successors st {x} (visit x st)"
    and "\<forall>x\<in>set xs. ready successors N fuel st x" and "search_ok successors st"
  shows "search_result successors st (set xs) (search_any visit xs st)"
  using assms
proof (induction xs arbitrary: st)
  case Nil
  then show ?case by (simp add: search_result_def)
next
  case (Cons x xs)
  obtain found st' where v: "visit x st = (found, st')" by (cases "visit x st")
  have r: "search_result successors st {x} (found, st')"
    using Cons.prems(1) [of x st] Cons.prems(2) v by simp
  show ?case
  proof (cases found)
    case True
    then show ?thesis using r v by (simp add: search_result_def)
  next
    case False
    then have st': "search_ok successors st'" "set (cs_visiting st') = set (cs_visiting st)"
      "insert x (set (cs_done st)) \<subseteq> set (cs_done st')"
      using r by (simp_all add: search_result_def)
    have "\<forall>y\<in>set xs. ready successors N fuel st' y"
      using Cons.prems(2) st'(1,2) by (simp add: ready_def)
    with Cons.IH [OF _ this st'(1)] Cons.prems(1)
    have "search_result successors st' (set xs) (search_any visit xs st')" by simp
    then show ?thesis
      using False v st'(2,3) by (auto simp: search_result_def split: prod.splits if_splits)
  qed
qed

text \<open>What holds when the search enters a module, and when it leaves it without having found a cycle.\<close>

lemma search_enters:
  assumes "finite N" and "set (successors node) \<subseteq> N" and "ready successors N (Suc fuel) st node"
    and "node \<notin> set (cs_done st)" and "node \<notin> set (cs_visiting st)"
    and st1: "st1 = st\<lparr>cs_visiting := insort_insert node (cs_visiting st)\<rparr>"
  shows "search_ok successors st1" and "\<forall>y\<in>set (successors node). ready successors N fuel st1 y"
proof -
  have v1: "set (cs_visiting st1) = insert node (set (cs_visiting st))" and d1: "cs_done st1 = cs_done st"
    by (simp_all add: st1 set_insort_insert)
  show ok1: "search_ok successors st1"
    using assms(3-5) by (simp add: ready_def search_ok_def v1 d1)
  have "N - set (cs_visiting st1) = N - set (cs_visiting st) - {node}"
    using v1 by auto
  moreover have "Suc (card (N - set (cs_visiting st) - {node})) = card (N - set (cs_visiting st))"
    using assms(1,3,5) by (intro card_Suc_Diff1) (auto simp: ready_def)
  moreover have "card (N - set (cs_visiting st)) < Suc fuel"
    using assms(3) by (simp add: ready_def)
  ultimately have card: "card (N - set (cs_visiting st1)) < fuel" by simp
  have leads: "leads successors v y" if "v \<in> set (cs_visiting st1)" and "y \<in> set (successors node)" for v y
    using that assms(3) v1 leads_step [of successors v node y] leads_direct [of y successors node] by (auto simp: ready_def)
  have "y \<in> N" if "y \<in> set (successors node)" for y
    using that assms(2) by auto
  then show "\<forall>y\<in>set (successors node). ready successors N fuel st1 y"
    using ok1 card leads by (simp add: ready_def)
qed

lemma search_leaves:
  assumes ok: "search_ok successors st'" and visiting: "set (cs_visiting st') = insert node (set (cs_visiting st))"
    and covered: "set (cs_done st) \<union> set (successors node) \<subseteq> set (cs_done st')" and "node \<notin> set (cs_visiting st)"
    and st2: "st2 = st'\<lparr>cs_visiting := filter (\<lambda>n. n \<noteq> node) (cs_visiting st'), cs_done := insort_insert node (cs_done st')\<rparr>"
  shows "search_result successors st {node} (False, st2)"
proof -
  have apart: "node \<notin> set (cs_done st')"
    using ok visiting by (auto simp: search_ok_def)
  have closed: "\<forall>d\<in>set (cs_done st'). set (successors d) \<subseteq> set (cs_done st')"
    using ok by (simp add: search_ok_def)
  have acyclic: "\<not> on_cycle successors node"
  proof
    assume "on_cycle successors node"
    then obtain y where "y \<in> set (successors node)" and y: "reaches successors y node" by (auto simp: on_cycle_def)
    then have "y \<in> set (cs_done st')" using covered by auto
    from reaches_closed [OF y this closed] apart show False by simp
  qed
  have sets: "set (cs_visiting st2) = set (cs_visiting st') - {node}" "set (cs_done st2) = insert node (set (cs_done st'))"
    by (auto simp: st2 set_insort_insert)
  then have "search_ok successors st2"
    using ok visiting covered acyclic by (auto simp: search_ok_def)
  then show ?thesis
    using visiting covered sets assms(4) by (auto simp: search_result_def)
qed

lemma visitNode_result:
  assumes "finite N" and "\<forall>n\<in>N. set (omap_at [] graph n) \<subseteq> N"
  shows "ready (omap_at [] graph) N fuel st node \<Longrightarrow>
    search_result (omap_at [] graph) st {node} (visitNode graph fuel node st)"
proof (induction fuel arbitrary: st node)
  case 0
  then show ?case by (simp add: ready_def)
next
  case (Suc fuel)
  let ?next = "omap_at [] graph"
  note ready = Suc.prems
  show ?case
  proof (cases "node \<in> set (cs_done st) \<or> node \<in> set (cs_visiting st)")
    case True
    then show ?thesis
      using ready by (auto simp: search_result_def ready_def on_cycle_def leads_def search_ok_def)
  next
    case False
    define st1 where "st1 = st\<lparr>cs_visiting := insort_insert node (cs_visiting st)\<rparr>"
    have "set (?next node) \<subseteq> N" using assms(2) ready by (auto simp: ready_def)
    note entered = search_enters [OF assms(1) this ready _ _ st1_def]
    obtain found st' where run: "search_any (visitNode graph fuel) (?next node) st1 = (found, st')"
      by (cases "search_any (visitNode graph fuel) (?next node) st1")
    have "search_result ?next st1 (set (?next node)) (found, st')"
      using search_any_result [of "?next node" ?next N fuel "visitNode graph fuel" st1] Suc.IH entered False run by metis
    then have r: "if found then on_cycle ?next (cs_cycleAt st')
      else search_ok ?next st' \<and> set (cs_visiting st') = insert node (set (cs_visiting st)) \<and>
        set (cs_done st) \<union> set (?next node) \<subseteq> set (cs_done st')"
      by (cases found) (simp_all add: search_result_def st1_def set_insort_insert)
    show ?thesis
    proof (cases found)
      case True
      then show ?thesis using r run False by (simp add: search_result_def st1_def)
    next
      case not_found: False
      have "visitNode graph (Suc fuel) node st = (False, st'\<lparr>cs_visiting := filter (\<lambda>n. n \<noteq> node) (cs_visiting st'),
          cs_done := insort_insert node (cs_done st')\<rparr>)"
        using run not_found False by (simp add: st1_def)
      then show ?thesis
        using search_leaves [of ?next st' node st, OF _ _ _ _ refl] r not_found False by simp
    qed
  qed
qed

lemma foldl_addEdge:
  "omap_at [] (foldl (addEdge identity) graph edges) n =
     (if n = identity then omap_at [] graph n @ edges else omap_at [] graph n)"
  by (induction edges arbitrary: graph) (auto simp: addEdge_def omap_at_def map_of_omap_put)

lemma productionGraph_edges:
  "set (omap_at [] (productionGraph modules) n) = (\<Union>m\<in>{m\<in>set modules. mo_id m = n}. set (production_edges m))"
proof (induction modules rule: rev_induct)
  case (snoc m ms)
  then show ?case by (auto simp: productionGraph_def foldl_addEdge)
qed (simp add: productionGraph_def omap_at_def)

lemma hasCycle_exact:
  shows "fst (hasCycle modules) \<longleftrightarrow> (\<exists>x. on_cycle (omap_at [] (productionGraph modules)) x)" (is ?exact)
    and "fst (hasCycle modules) \<Longrightarrow> on_cycle (omap_at [] (productionGraph modules)) (snd (hasCycle modules))"
proof -
  let ?graph = "productionGraph modules" and ?st = "\<lparr>cs_visiting = [], cs_done = [], cs_cycleAt = []\<rparr>"
  let ?next = "omap_at [] ?graph" and ?fuel = "Suc (length (graph_nodes (productionGraph modules) modules))"
  let ?N = "set (graph_nodes ?graph modules)"
  obtain found st where run: "search_any (visitNode ?graph ?fuel) (map mo_id modules) ?st = (found, st)"
    by (cases "search_any (visitNode ?graph ?fuel) (map mo_id modules) ?st")
  have closed: "\<forall>n\<in>?N. set (?next n) \<subseteq> ?N"
  proof (intro ballI subsetI)
    fix n x
    assume "x \<in> set (?next n)"
    then obtain targets where "map_of ?graph n = Some targets" and "x \<in> set targets"
      by (cases "map_of ?graph n") (auto simp: omap_at_def)
    then show "x \<in> ?N" by (force simp: graph_nodes_def dest: map_of_SomeD)
  qed
  have "card ?N < ?fuel" using card_length [of "graph_nodes ?graph modules"] by simp
  then have "\<forall>x\<in>set (map mo_id modules). ready ?next ?N ?fuel ?st x" and "search_ok ?next ?st"
    by (auto simp: ready_def search_ok_def graph_nodes_def)
  from search_any_result [where visit = "visitNode ?graph ?fuel", OF visitNode_result [OF _ closed] this] run
  have r: "search_result ?next ?st (mo_id ` set modules) (found, st)" by simp
  have result: "hasCycle modules = (found, cs_cycleAt st)"
    using run by (simp add: hasCycle_def)
  have "\<not> on_cycle ?next x" if "\<not> found" for x
  proof
    assume cycle: "on_cycle ?next x"
    then have "x \<in> mo_id ` set modules"
      using productionGraph_edges [of modules x] by (force simp: on_cycle_def)
    then have "x \<in> set (cs_done st)" using r that by (auto simp: search_result_def)
    then show False using r that cycle by (auto simp: search_result_def search_ok_def)
  qed
  then show ?exact and "fst (hasCycle modules) \<Longrightarrow> on_cycle ?next (snd (hasCycle modules))"
    using r by (auto simp: result search_result_def)
qed

text \<open>
  C36. The search for a cycle is exact: it reports one when and only when the graph of the declared
  edges, the test and tool edges left out, has a cycle, and the module it then names lies on one.
\<close>

theorem cycle_found_exactly:
  "let successors = omap_at [] (productionGraph modules) in
     (fst (hasCycle modules) \<longleftrightarrow> (\<exists>x. on_cycle successors x)) \<and>
     (if fst (hasCycle modules) then on_cycle successors (snd (hasCycle modules)) else True)"
  using hasCycle_exact [of modules] by (simp add: Let_def)

section \<open>The owner of an include\<close>

definition family :: string where "family = ''rawframe.''"

definition dots_to_slashes :: "string \<Rightarrow> string" where
  "dots_to_slashes = map (\<lambda>c. if c = CHR ''.'' then CHR ''/'' else c)"

lemma include_prefix_family:
  "include_prefix (family @ rest) = ''rawframe/'' @ dots_to_slashes rest @ ''/''"
  by (simp add: include_prefix_def family_def find_char_from_def dots_to_slashes_def)

lemma include_prefix_length: "starts_with identity family \<Longrightarrow> length (include_prefix identity) = Suc (length identity)"
  by (auto simp: starts_with_iff include_prefix_family) (simp add: family_def dots_to_slashes_def)

definition owns :: "string \<Rightarrow> ModuleManifest \<Rightarrow> bool" where
  "owns target module \<longleftrightarrow> starts_with target (include_prefix (mo_id module))"

lemma family_not_empty: "starts_with identity family \<Longrightarrow> identity \<noteq> []"
  by (auto simp: family_def)

lemma foldl_betterOwner:
  assumes "\<forall>m\<in>set modules. starts_with (mo_id m) family"
  shows "let best = foldl (betterOwner target) [] modules in
    (best = [] \<and> (\<forall>m\<in>set modules. \<not> owns target m)) \<or>
    (\<exists>m\<in>set modules. best = mo_id m \<and> owns target m \<and>
       (\<forall>n\<in>set modules. owns target n \<longrightarrow> length (include_prefix (mo_id n)) \<le> length (include_prefix (mo_id m))))"
  using assms
proof (induction modules rule: rev_induct)
  case (snoc m ms)
  let ?best = "foldl (betterOwner target) [] ms"
  have m: "length (include_prefix (mo_id m)) = Suc (length (mo_id m))"
    using snoc.prems by (intro include_prefix_length) simp
  have step: "foldl (betterOwner target) [] (ms @ [m]) =
      (if owns target m \<and> length ?best < length (include_prefix (mo_id m)) then mo_id m else ?best)"
    by (simp add: betterOwner_def owns_def Let_def)
  from snoc consider
      (none) "?best = []" "\<forall>n\<in>set ms. \<not> owns target n"
    | (some) b where "b \<in> set ms" "?best = mo_id b" "owns target b"
        "\<forall>n\<in>set ms. owns target n \<longrightarrow> length (include_prefix (mo_id n)) \<le> length (include_prefix (mo_id b))"
    by (auto simp: Let_def)
  then show ?case
  proof cases
    case none
    then show ?thesis unfolding step using m by auto
  next
    case some
    have "length (include_prefix (mo_id b)) = Suc (length (mo_id b))"
      using snoc.prems some(1) by (intro include_prefix_length) simp
    then show ?thesis
      unfolding step Let_def using some m
      by (cases "owns target m \<and> length ?best < length (include_prefix (mo_id m))") (auto intro: le_trans)
  qed
qed simp

text \<open>
  An include belongs to the module deepest in the tree: when the modules have the identities of
  the family, the owner of an include is none exactly when no module's include directory begins its
  target, and otherwise a module whose directory begins it and is at least as long as that of every
  other such module.
\<close>

theorem include_owner_is_deepest:
  assumes "\<forall>m\<in>set modules. starts_with (mo_id m) family" and "starts_with target ''rawframe/''"
  shows "if moduleOfInclude target modules = [] then \<not> list_ex (owns target) modules
    else \<exists>m\<in>set modules. moduleOfInclude target modules = mo_id m \<and> owns target m \<and>
      (\<forall>n\<in>set modules. owns target n \<longrightarrow> length (include_prefix (mo_id n)) \<le> length (include_prefix (mo_id m)))"
proof -
  have named: "mo_id m \<noteq> []" if "m \<in> set modules" for m
    using assms(1) that family_not_empty by blast
  have owner: "moduleOfInclude target modules = foldl (betterOwner target) [] modules"
    using assms(2) by (simp add: moduleOfInclude_def)
  from foldl_betterOwner [OF assms(1), of target] show ?thesis
    unfolding Let_def owner [symmetric]
  proof (elim disjE conjE bexE)
    assume "moduleOfInclude target modules = []" and "\<forall>m\<in>set modules. \<not> owns target m"
    then show ?thesis by (simp add: list_ex_iff)
  next
    fix m
    assume "m \<in> set modules" and "moduleOfInclude target modules = mo_id m" and "owns target m"
      and "\<forall>n\<in>set modules. owns target n \<longrightarrow> length (include_prefix (mo_id n)) \<le> length (include_prefix (mo_id m))"
    then show ?thesis using named [of m] by auto
  qed
qed

definition demo_module :: "string \<Rightarrow> ModuleManifest" where
  "demo_module identity = \<lparr>mo_manifestPath = [], mo_root = [], mo_id = identity, mo_edges = []\<rparr>"

lemma include_owner_is_deepest_witness:
  "moduleOfInclude ''rawframe/world/luau/x.h'' [demo_module ''rawframe.world'', demo_module ''rawframe.world.luau'']
     \<noteq> ''rawframe.world''"
  using include_owner_is_deepest
    [of "[demo_module ''rawframe.world'', demo_module ''rawframe.world.luau'']" "''rawframe/world/luau/x.h''"]
  by (auto simp: demo_module_def family_def owns_def include_prefix_def find_char_from_def split: if_splits)

lemma cycle_found_example:
  "fst (hasCycle [(demo_module ''a'')\<lparr>mo_edges := [(''public'', [''b''])]\<rparr>,
     (demo_module ''b'')\<lparr>mo_edges := [(''private'', [''a'']), (''test'', [''b''])]\<rparr>])"
  by (simp add: hasCycle_def graph_nodes_def productionGraph_def production_edges_def demo_module_def addEdge_def
      omap_at_def insort_insert_key_def)

end
