(* ===== verification/Arch_Closure.thy ===== *)
theory Arch_Closure
  imports Arch_Edges
begin

text \<open>
  \<open>tools/rf_archcheck/src/checks_closure.cpp\<close>: what must not be in the closure of a target (RA4001
  and RA4004), and the booleans of the build lane that decide a link edge (RA4002), with the line by
  line state the code keeps about the guard it is in.
\<close>

section \<open>Closures of targets\<close>

definition kClientOnlyMarkers :: "string list" where
  "kClientOnlyMarkers = [''render'', ''window'', ''ui'', ''input'', ''audio'', ''studio'', ''editor'']"

definition segmentMatches :: "string \<Rightarrow> string \<Rightarrow> bool" where
  "segmentMatches identity marker \<longleftrightarrow> list_ex (\<lambda>segment. segment = marker) (pieces_from CHR ''.'' identity 0)"

definition isTarget :: "LoadedManifest \<Rightarrow> bool" where
  "isTarget manifest \<longleftrightarrow>
     lm_present manifest \<and> (ends_with (lm_path manifest) ''/target.json'' \<or> contains_str (lm_path manifest) ''/targets/'')"

definition checkServerClosure :: "string \<Rightarrow> string list \<Rightarrow> SinkCall list" where
  "checkServerClosure kSubject kClosure =
     map (\<lambda>module. report ''RA4001'' kSubject (''the resolved server closure contains a client-only module: '' @ module))
       (filter (\<lambda>module. list_ex (segmentMatches module) kClientOnlyMarkers) kClosure)"

definition checkPlacement :: "string \<Rightarrow> bool \<Rightarrow> string \<Rightarrow> SinkCall list" where
  "checkPlacement kSubject kIsRemote module =
     (if module = ''rawframe.network.loopback'' \<and> kIsRemote
      then [report ''RA4004'' kSubject (''a remote artifact resolves the loopback provider: '' @ module)] else []) @
     (if module = ''rawframe.schema.compiler''
      then [report ''RA4004'' kSubject (''a runtime artifact resolves the schema compiler: '' @ module)] else [])"

definition checkTarget :: "LoadedManifest \<Rightarrow> SinkCall list" where
  "checkTarget manifest =
     (if \<not> isTarget manifest then []
      else let role = mtext (manifest_root manifest) ''role'';
               kSubject = (case mtext (manifest_root manifest) ''id'' of Some t \<Rightarrow> t | None \<Rightarrow> lm_path manifest);
               kClosure = stringArray (manifest_root manifest) ''resolvedClosure'';
               kIsServer = (case role of Some t \<Rightarrow> contains_str t ''server'' | None \<Rightarrow> False);
               kIsRemote = (case role of Some t \<Rightarrow> \<not> contains_str t ''loopback'' | None \<Rightarrow> True)
           in (if kIsServer then checkServerClosure kSubject kClosure else []) @
              concat (map (checkPlacement kSubject kIsRemote) kClosure))"

section \<open>Booleans that decide a link edge\<close>

definition kOptionCall :: string where "kOptionCall = ''option(''"

definition optionOfLine :: "string \<Rightarrow> string option" where
  "optionOfLine kLine =
     (case index_of_str kOptionCall kLine of
        None \<Rightarrow> None
      | Some kStart \<Rightarrow>
          let name = takeWhile (\<lambda>c. c \<notin> {CHR '' '', CHR 0x22, CHR '')''})
                (dropWhile (\<lambda>c. c \<in> {CHR '' '', CHR 0x22}) (drop (kStart + length kOptionCall) kLine))
          in if name = [] then None else Some name)"

definition laneOptions :: "ArchFiles \<Rightarrow> RepositoryModel \<Rightarrow> string list" where
  "laneOptions fs model =
     sort_unique (concat (map (\<lambda>buildFile. case model_text fs model buildFile of
         None \<Rightarrow> [] | Some t \<Rightarrow> List.map_filter optionOfLine (text_lines t 0)) (rm_buildLane model)))"

record GuardState =
  gs_line :: nat
  gs_guardDepth :: nat
  gs_depth :: nat
  gs_guardName :: string

definition openGuard :: "string list \<Rightarrow> string \<Rightarrow> GuardState \<Rightarrow> GuardState" where
  "openGuard options kLine st =
     (if contains_str kLine ''if(''
      then let st = st\<lparr>gs_depth := gs_depth st + 1\<rparr>
      in if gs_guardDepth st = 0
         then case find (contains_str kLine) options of
           None \<Rightarrow> st
         | Some name \<Rightarrow> st\<lparr>gs_guardDepth := gs_depth st, gs_guardName := name\<rparr>
         else st
      else st)"

definition closeGuard :: "string \<Rightarrow> GuardState \<Rightarrow> GuardState" where
  "closeGuard kLine st =
     (if contains_str kLine ''endif(''
      then let st = (if gs_depth st = gs_guardDepth st then st\<lparr>gs_guardDepth := 0, gs_guardName := []\<rparr> else st)
      in st\<lparr>gs_depth := gs_depth st - 1\<rparr>
      else st)"

definition guardStep :: "string list \<Rightarrow> string \<Rightarrow> GuardState \<times> SinkCall list \<Rightarrow> string \<Rightarrow> GuardState \<times> SinkCall list" where
  "guardStep options buildFile = (\<lambda>(st, calls) kLine.
     let st = openGuard options kLine (st\<lparr>gs_line := gs_line st + 1\<rparr>);
         calls = calls @ (if gs_guardDepth st \<noteq> 0 \<and> contains_str kLine ''target_link_libraries''
            then [reportAt ''RA4002'' buildFile (gs_line st, 1)
                   (''the boolean '' @ gs_guardName st @ '' decides a link edge'')] else [])
     in (closeGuard kLine st, calls))"

definition guardStart :: GuardState where
  "guardStart = \<lparr>gs_line = 0, gs_guardDepth = 0, gs_depth = 0, gs_guardName = []\<rparr>"

definition checkGuards :: "ArchFiles \<Rightarrow> RepositoryModel \<Rightarrow> string list \<Rightarrow> string \<Rightarrow> SinkCall list" where
  "checkGuards fs model options buildFile =
     (case model_text fs model buildFile of
        None \<Rightarrow> []
      | Some t \<Rightarrow> snd (foldl (guardStep options buildFile) (guardStart, []) (text_lines t 0)))"

definition checkNegativeClosures :: "ArchFiles \<Rightarrow> RepositoryModel \<Rightarrow> SinkCall list" where
  "checkNegativeClosures fs model =
     concat (map checkTarget (rm_manifests model)) @
     concat (map (checkGuards fs model (laneOptions fs model)) (rm_buildLane model))"

section \<open>The guard is never left\<close>

text \<open>A line that ends a conditional also reads as one that begins one.\<close>

lemma endif_contains_if: "contains_str kLine ''endif('' \<Longrightarrow> contains_str kLine ''if(''"
proof -
  assume "contains_str kLine ''endif(''"
  then obtain u v where "kLine = u @ ''endif('' @ v" by (auto simp: contains_str_iff)
  then have "kLine = (u @ ''end'') @ ''if('' @ v" by simp
  then show ?thesis unfolding contains_str_iff by blast
qed

definition guarded :: "string \<Rightarrow> GuardState \<Rightarrow> bool" where
  "guarded name st \<longleftrightarrow> gs_guardDepth st \<noteq> 0 \<and> gs_guardDepth st \<le> gs_depth st \<and> gs_guardName st = name"

lemma guardStep_guarded:
  assumes "guarded name st"
  shows "guarded name (fst (guardStep options buildFile (st, calls) kLine))"
    and "gs_line (fst (guardStep options buildFile (st, calls) kLine)) = Suc (gs_line st)"
    and "snd (guardStep options buildFile (st, calls) kLine) = calls @
      (if contains_str kLine ''target_link_libraries''
       then [reportAt ''RA4002'' buildFile (Suc (gs_line st), 1) (''the boolean '' @ name @ '' decides a link edge'')]
       else [])"
  using assms endif_contains_if [of kLine]
  by (auto simp: guardStep_def openGuard_def closeGuard_def guarded_def Let_def)

text \<open>The calls for every line of a list that links, with the number and the name given.\<close>

fun link_calls :: "string \<Rightarrow> string \<Rightarrow> nat \<Rightarrow> string list \<Rightarrow> SinkCall list" where
  "link_calls buildFile name n [] = []"
| "link_calls buildFile name n (kLine # rest) =
     (if contains_str kLine ''target_link_libraries''
      then [reportAt ''RA4002'' buildFile (Suc n, 1) (''the boolean '' @ name @ '' decides a link edge'')] else []) @
     link_calls buildFile name (Suc n) rest"

lemma guarded_forever:
  "guarded name st \<Longrightarrow>
     snd (foldl (guardStep options buildFile) (st, calls) rest) = calls @ link_calls buildFile name (gs_line st) rest"
proof (induction rest arbitrary: st calls)
  case (Cons kLine rest)
  obtain st' calls' where step: "guardStep options buildFile (st, calls) kLine = (st', calls')"
    by (cases "guardStep options buildFile (st, calls) kLine")
  with guardStep_guarded [OF Cons.prems, of options buildFile calls kLine] Cons.IH [of st' calls']
  show ?case by auto
qed simp

text \<open>
  Once the check of a build file has seen one condition that names an option, every later line of
  the file that links is reported as decided by that option, whether or not the conditional has
  ended: the end of a conditional is counted as the beginning of another one first, so the guard is
  never left.
\<close>

theorem option_guard_never_closes:
  assumes "contains_str kLine ''if(''" and "find (contains_str kLine) options = Some name"
    and "gs_guardDepth st = 0"
    and "\<not> contains_str kLine ''endif(''"
  shows "snd (foldl (guardStep options buildFile) (st, calls) (kLine # rest)) =
    calls @ link_calls buildFile name (gs_line st) (kLine # rest)"
proof -
  let ?st = "st\<lparr>gs_line := gs_line st + 1, gs_depth := gs_depth st + 1, gs_guardDepth := gs_depth st + 1, gs_guardName := name\<rparr>"
  have "guardStep options buildFile (st, calls) kLine = (?st, calls @ link_calls buildFile name (gs_line st) [kLine])"
    using assms by (simp add: guardStep_def openGuard_def closeGuard_def Let_def)
  moreover have "guarded name ?st" by (simp add: guarded_def)
  ultimately show ?thesis using guarded_forever [of name ?st options buildFile] by simp
qed

text \<open>A conditional that guards nothing, and a link edge after its end.\<close>

lemma option_guard_never_closes_witness:
  "snd (foldl (guardStep [''WITH_X''] ''CMakeLists.txt'') (guardStart, [])
      [''if(WITH_X)'', ''endif()'', ''target_link_libraries(a b)'']) =
    [reportAt ''RA4002'' ''CMakeLists.txt'' (3, 1) ''the boolean WITH_X decides a link edge'']"
proof -
  have lines: "contains_str ''if(WITH_X)'' ''if(''" "contains_str ''if(WITH_X)'' ''WITH_X''"
    "\<not> contains_str ''if(WITH_X)'' ''endif(''" "\<not> contains_str ''if(WITH_X)'' ''target_link_libraries''"
    "\<not> contains_str ''endif()'' ''target_link_libraries''"
    "contains_str ''target_link_libraries(a b)'' ''target_link_libraries''"
    by (simp_all add: contains_str_def)
  then have named: "find (contains_str ''if(WITH_X)'') [''WITH_X''] = Some ''WITH_X''" by simp
  from option_guard_never_closes [OF lines(1) named _ lines(3), of guardStart "''CMakeLists.txt''" "[]"
      "[''endif()'', ''target_link_libraries(a b)'']"]
  show ?thesis using lines by (simp add: guardStart_def numeral_eq_Suc)
qed

end
