(* ===== verification/Arch_Hygiene.thy ===== *)
theory Arch_Hygiene
  imports Arch_Edges
begin

text \<open>
  \<open>tools/rf_archcheck/src/checks_source.cpp\<close> and \<open>checks_separation.cpp\<close>: what build files and
  source directories may hold (RA5001 to RA5005), and the separation of generated and vendored
  material from the maintained tree (RA6001 to RA6004).
\<close>

section \<open>Source hygiene\<close>

definition kAdmittedSourceExtensions :: "string list" where
  "kAdmittedSourceExtensions = [''.cpp'', ''.h'']"

definition kAcquisitionCommands :: "string list" where
  "kAcquisitionCommands =
     [''FetchContent_Declare'', ''FetchContent_MakeAvailable'', ''FetchContent_Populate'', ''ExternalProject_Add'']"

definition kBuildArtifactNames :: "string list" where
  "kBuildArtifactNames = [''CMakeCache.txt'', ''cmake_install.cmake'', ''compile_commands.json'']"

definition kBuildArtifactExtensions :: "string list" where
  "kBuildArtifactExtensions =
     [''.vcxproj'', ''.sln'', ''.xcodeproj'', ''.o'', ''.obj'', ''.pdb'', ''.ilk'', ''.exp'', ''.suo'']"

definition kDevelopmentEnvironmentRoots :: "string list" where
  "kDevelopmentEnvironmentRoots = [''.vs/'', ''.idea/'', ''.vscode/'']"

definition isMaintainedSourceDirectory :: "string \<Rightarrow> bool" where
  "isMaintainedSourceDirectory path =
     (if \<not> starts_with path ''source/'' \<and> \<not> starts_with path ''tools/'' then False
      else if contains_str path ''/tests/'' then False
      else contains_str path ''/src/'' \<or> contains_str path ''/include/'')"

definition catalogToken :: "string \<Rightarrow> string" where
  "catalogToken identity = (case index_of CHR ''.'' identity of None \<Rightarrow> identity | Some kDot \<Rightarrow> drop (kDot + 1) identity)"

text \<open>Whether an include target is a header of a catalogued library.\<close>

definition includes_library :: "string \<Rightarrow> CatalogEntry \<Rightarrow> bool" where
  "includes_library target entry \<longleftrightarrow>
     target = catalogToken (ca_id entry) @ ''.h'' \<or> starts_with target (catalogToken (ca_id entry) @ ''/'')"

definition checkFileCommand :: "string \<Rightarrow> string \<Rightarrow> Position \<Rightarrow> SinkCall list" where
  "checkFileCommand buildFile t position =
     (let kLine = lineAt t (fst position)
      in (if contains_str kLine ''GLOB''
          then [reportAt ''RA5001'' buildFile position ''the build file globs its sources''] else []) @
         (if contains_str kLine ''DOWNLOAD'' \<or> contains_str kLine ''UPLOAD''
          then [reportAt ''RA5003'' buildFile position ''the build file transfers content at configure time''] else []))"

definition checkBuildFile :: "ArchFiles \<Rightarrow> RepositoryModel \<Rightarrow> string \<Rightarrow> SinkCall list" where
  "checkBuildFile fs model buildFile =
     (case model_text fs model buildFile of
        None \<Rightarrow> []
      | Some t \<Rightarrow>
          concat (map (checkFileCommand buildFile t) (findCommandInvocations t ''file'')) @
          concat (map (\<lambda>kCommand. map (\<lambda>position.
              reportAt ''RA5003'' buildFile position (''the build file acquires content with '' @ kCommand))
            (findCommandInvocations t kCommand)) kAcquisitionCommands))"

definition checkExtension :: "string \<Rightarrow> SinkCall list" where
  "checkExtension path =
     (if \<not> isMaintainedSourceDirectory path then []
      else let kExtension = fileExtension path
      in if kExtension \<in> set kAdmittedSourceExtensions then []
         else [report ''RA5002'' path
                (''the maintained source directory holds an extension the dialect does not admit: ''
                 @ (if kExtension = [] then ''(none)'' else kExtension))])"

definition checkToolInclude :: "RepositoryModel \<Rightarrow> ToolManifest \<Rightarrow> string \<Rightarrow> IncludeDirective \<Rightarrow> SinkCall list" where
  "checkToolInclude model tool path include =
     (if \<not> in_angled include then []
      else map (\<lambda>entry. reportAt ''RA5004'' path (in_position include)
             (''the source includes '' @ in_target include @ '' and the manifest does not declare '' @ ca_id entry))
        (filter (\<lambda>entry. includes_library (in_target include) entry \<and> ca_id entry \<notin> set (tm_thirdParty tool))
          (rm_catalog model)))"

definition checkToolFile :: "ArchFiles \<Rightarrow> RepositoryModel \<Rightarrow> ToolManifest \<Rightarrow> string \<Rightarrow> SinkCall list" where
  "checkToolFile fs model tool path =
     (if \<not> starts_with path (tm_root tool @ ''/'') \<or> \<not> isMaintainedSourceDirectory path then []
      else case model_text fs model path of
        None \<Rightarrow> []
      | Some t \<Rightarrow> concat (map (checkToolInclude model tool path) (findIncludes t)))"

definition checkArtifact :: "string \<Rightarrow> SinkCall list" where
  "checkArtifact path =
     (if lastSegment path \<in> set kBuildArtifactNames \<or> fileExtension path \<in> set kBuildArtifactExtensions
      then [report ''RA5005'' path ''a build artifact is committed in the maintained tree'']
      else if list_ex (starts_with path) kDevelopmentEnvironmentRoots
      then [report ''RA5005'' path ''a development-environment project is committed in the maintained tree'']
      else [])"

definition checkDirectory :: "string \<Rightarrow> SinkCall list" where
  "checkDirectory directory =
     (if lastSegment directory \<noteq> ''CMakeFiles'' then []
      else [report ''RA5005'' directory ''an in-source build directory exists in the maintained tree''])"

definition checkSourceHygiene :: "ArchFiles \<Rightarrow> RepositoryModel \<Rightarrow> SinkCall list" where
  "checkSourceHygiene fs model =
     concat (map (checkBuildFile fs model) (rm_buildLane model)) @
     concat (map checkExtension (scanned_paths model)) @
     concat (map (\<lambda>tool. concat (map (checkToolFile fs model tool) (scanned_paths model))) (rm_tools model)) @
     concat (map checkArtifact (scanned_paths model)) @
     concat (map checkDirectory (sc_directories (rm_scan model)))"

section \<open>Generated and vendored material\<close>

definition kGeneratedRoot :: string where "kGeneratedRoot = ''out/''"

definition kVendorOriginMembers :: "string list" where
  "kVendorOriginMembers = [''catalogId'', ''upstreamProject'', ''version'', ''revision'', ''sourceUrl'', ''sha256'',
     ''licenseReference'', ''importedPaths'', ''importProcedure'', ''patches'']"

definition kInspectableExtensions :: "string list" where
  "kInspectableExtensions = [''.cpp'', ''.h'', ''.cmake'', ''.json'', ''.luau'', ''.txt'']"

definition checkGenerated :: "ArchFiles \<Rightarrow> RepositoryModel \<Rightarrow> string \<Rightarrow> SinkCall list" where
  "checkGenerated fs model path =
     (if fileExtension path \<notin> set kInspectableExtensions \<or> starts_with path ''third_party/'' then []
      else case model_text fs model path of
        None \<Rightarrow> []
      | Some t \<Rightarrow>
          (case declaresItselfGenerated t of
             None \<Rightarrow> []
           | Some position \<Rightarrow> [reportAt ''RA6001'' path position
               (''the file declares itself generated and is outside the generated root '' @ kGeneratedRoot)]))"

definition isVendored :: "CatalogEntry \<Rightarrow> bool" where
  "isVendored entry \<longleftrightarrow> ca_acquisitionClass entry = ''vendored_source''"

definition checkVendored :: "(string \<Rightarrow> sj_document) \<Rightarrow> ArchFiles \<Rightarrow> RepositoryModel \<Rightarrow> CatalogEntry \<Rightarrow> SinkCall list" where
  "checkVendored iterate fs model entry =
     (if \<not> isVendored entry then []
      else if ca_providerType entry \<noteq> ''vendor_origin''
      then [report ''RA6002'' (ca_id entry)
             (''the vendored entry names provider type '' @ ca_providerType entry @ '' instead of an origin record'')]
      else let kRecordPath = ca_providerReference entry
      in if kRecordPath = [] \<or> \<not> hasFile (rm_scan model) kRecordPath
         then [report ''RA6002'' (ca_id entry) (''the vendored entry names an origin record that is absent: '' @ kRecordPath)]
         else case model_document iterate fs model kRecordPath of
           Inl failure \<Rightarrow> [report ''RA6002'' kRecordPath (''the origin record cannot be read: '' @ af_message failure)]
         | Inr record' \<Rightarrow>
             map (\<lambda>kMember. report ''RA6002'' kRecordPath (''the origin record is missing the member '' @ kMember))
               (filter (\<lambda>kMember. mfind (jd_root record') kMember = None) kVendorOriginMembers))"

definition withSlash :: "string \<Rightarrow> string" where
  "withSlash path = (if ends_with path ''/'' then path else path @ ''/'')"

definition vendoredRoots :: "(string \<Rightarrow> sj_document) \<Rightarrow> ArchFiles \<Rightarrow> RepositoryModel \<Rightarrow> string list" where
  "vendoredRoots iterate fs model =
     concat (map (\<lambda>entry.
       if \<not> isVendored entry \<or> ca_providerReference entry = [] then []
       else case model_document iterate fs model (ca_providerReference entry) of
         Inl _ \<Rightarrow> []
       | Inr record' \<Rightarrow> map withSlash (stringArray (jd_root record') ''importedPaths'')) (rm_catalog model))"

definition maintainedPaths :: "RepositoryModel \<Rightarrow> string list" where
  "maintainedPaths model =
     listed_entries (rm_membership model) @
     (if rm_evidenceIndexPath model \<noteq> [] then [rm_evidenceIndexPath model] else []) @
     (if rm_corpusPath model \<noteq> [] then [rm_corpusPath model] else [])"

definition checkMaintainedPath :: "string list \<Rightarrow> string \<Rightarrow> SinkCall list" where
  "checkMaintainedPath roots path =
     (if starts_with path kGeneratedRoot
      then [report ''RA6003'' path ''a maintained authority resolves beneath the generated root'']
      else case find (starts_with path) roots of
        None \<Rightarrow> []
      | Some root \<Rightarrow> [report ''RA6003'' path (''a maintained authority resolves beneath the vendored root '' @ root)])"

definition checkPublicInclude :: "RepositoryModel \<Rightarrow> string \<Rightarrow> IncludeDirective \<Rightarrow> SinkCall list" where
  "checkPublicInclude model path include =
     (if \<not> in_angled include then []
      else map (\<lambda>entry. reportAt ''RA6004'' path (in_position include)
             (''a public header exposes the vendor header '' @ in_target include))
        (filter (includes_library (in_target include)) (rm_catalog model)))"

definition checkPublicHeader :: "ArchFiles \<Rightarrow> RepositoryModel \<Rightarrow> string \<Rightarrow> SinkCall list" where
  "checkPublicHeader fs model path =
     (if \<not> contains_str path ''/include/'' \<or> fileExtension path \<noteq> ''.h'' then []
      else case model_text fs model path of
        None \<Rightarrow> []
      | Some t \<Rightarrow> concat (map (checkPublicInclude model path) (findIncludes t)))"

definition checkGeneratedAndVendoredSeparation ::
  "(string \<Rightarrow> sj_document) \<Rightarrow> ArchFiles \<Rightarrow> RepositoryModel \<Rightarrow> SinkCall list" where
  "checkGeneratedAndVendoredSeparation iterate fs model =
     concat (map (checkGenerated fs model) (scanned_paths model)) @
     concat (map (checkVendored iterate fs model) (rm_catalog model)) @
     concat (map (checkMaintainedPath (vendoredRoots iterate fs model)) (maintainedPaths model)) @
     concat (map (checkPublicHeader fs model) (scanned_paths model))"

section \<open>What a silent check means\<close>

lemma concat_map_Nil: "concat (map f xs) = [] \<longleftrightarrow> (\<forall>x\<in>set xs. f x = [])"
  by simp

lemma checkMaintainedPath_silent:
  "checkMaintainedPath roots path = [] \<longleftrightarrow> \<not> starts_with path kGeneratedRoot \<and> \<not> list_ex (starts_with path) roots"
  using find_None_iff [of "starts_with path" roots]
  by (cases "find (starts_with path) roots") (auto simp: checkMaintainedPath_def list_ex_iff)

text \<open>What the includes of a file reach: the catalogued libraries among them.\<close>

definition reaches_library :: "RepositoryModel \<Rightarrow> string \<Rightarrow> CatalogEntry \<Rightarrow> bool" where
  "reaches_library model t entry \<longleftrightarrow> entry \<in> set (rm_catalog model) \<and>
     (\<exists>include\<in>set (findIncludes t). in_angled include \<and> includes_library (in_target include) entry)"

lemma checkToolInclude_silent:
  "checkToolInclude model tool path include = [] \<longleftrightarrow> (in_angled include \<longrightarrow>
     (\<forall>entry\<in>set (rm_catalog model). includes_library (in_target include) entry \<longrightarrow> ca_id entry \<in> set (tm_thirdParty tool)))"
  by (auto simp: checkToolInclude_def filter_empty_conv)

lemma checkToolFile_silent:
  "checkToolFile fs model tool path = [] \<longleftrightarrow>
     (starts_with path (tm_root tool @ ''/'') \<and> isMaintainedSourceDirectory path \<longrightarrow>
        (\<forall>t entry. model_text fs model path = Some t \<longrightarrow> reaches_library model t entry \<longrightarrow>
           ca_id entry \<in> set (tm_thirdParty tool)))"
  by (cases "model_text fs model path")
    (auto simp: checkToolFile_def checkToolInclude_silent reaches_library_def)

lemma checkPublicInclude_silent:
  "checkPublicInclude model path include = [] \<longleftrightarrow> (in_angled include \<longrightarrow>
     (\<forall>entry\<in>set (rm_catalog model). \<not> includes_library (in_target include) entry))"
  by (auto simp: checkPublicInclude_def filter_empty_conv)

lemma checkPublicHeader_silent:
  "checkPublicHeader fs model path = [] \<longleftrightarrow>
     (contains_str path ''/include/'' \<and> fileExtension path = ''.h'' \<longrightarrow>
        (\<forall>t entry. model_text fs model path = Some t \<longrightarrow> \<not> reaches_library model t entry))"
  by (cases "model_text fs model path")
    (auto simp: checkPublicHeader_def checkPublicInclude_silent reaches_library_def)

end
