(* ===== verification/Arch_Manifest.thy ===== *)
theory Arch_Manifest
  imports Arch_Model Arch_Text
begin

text \<open>
  \<open>tools/rf_archcheck/src/checks_manifest.cpp\<close>, \<open>checks_membership.cpp\<close> and
  \<open>checks_projection.cpp\<close>: the stored form and the contents of manifests and the index (RA1002 to
  RA1006), the agreement of the index with the tree (RA2001 to RA2006), and the projections of
  manifests (RA7001 and RA7002).
\<close>

section \<open>Manifests and the index\<close>

definition looksLikeManifestPath :: "string \<Rightarrow> bool" where
  "looksLikeManifestPath entry \<longleftrightarrow> ends_with entry ''.json'' \<and> \<not> contains_char entry CHR ''*'' \<and>
     \<not> contains_char entry CHR ''?'' \<and> \<not> contains_str entry ''..''"

definition kSuspectSubstrings :: "string list" where
  "kSuspectSubstrings = [''http://'', ''https://'', ''git://'', ''ssh://'', ''file://'']"

definition kFloatingTags :: "string list" where
  "kFloatingTags = [''latest'', ''HEAD'', ''master'', ''main'', ''nightly'', ''trunk'']"

definition kCredentialKeys :: "string list" where
  "kCredentialKeys = [''password'', ''secret'', ''token'', ''apiKey'', ''credential'']"

definition kRangeMarkers :: "string list" where
  "kRangeMarkers = [''>='', ''<='', ''^'', ''~'', ''.x'', ''.*'']"

definition looksLikeVersionRange :: "string \<Rightarrow> bool" where
  "looksLikeVersionRange given \<longleftrightarrow>
     given \<noteq> [] \<and> list_ex (\<lambda>kMarker. contains_str given kMarker \<and> list_ex is_digit given) kRangeMarkers"

definition kCredentialDenials :: "string list" where
  "kCredentialDenials = [''none'', ''denied'', ''forbidden'', ''no'', ''false'', ''unused'', ''prohibited'']"

fun carriesCredential :: "ManifestNode \<Rightarrow> bool" where
  "carriesCredential (MBoolean b) = b"
| "carriesCredential (MString t) = (t \<noteq> [] \<and> t \<notin> set kCredentialDenials)"
| "carriesCredential _ = False"

definition looksLikeLocalPath :: "string \<Rightarrow> bool" where
  "looksLikeLocalPath given =
     (if starts_with given ''/'' \<or> starts_with given [CHR 0x5C, CHR 0x5C] then True
      else if 3 \<le> length given \<and> given ! 1 = CHR '':'' \<and> (given ! 2 = CHR ''/'' \<or> given ! 2 = CHR 0x5C) then True
      else starts_with given ''~/'')"

text \<open>RA1005 for one string: the first thing that is wrong with it.\<close>

definition inspectText :: "string \<Rightarrow> string \<Rightarrow> string \<Rightarrow> SinkCall list" where
  "inspectText manifestPath keyPath t =
     (let refuse = (\<lambda>what. [report ''RA1005'' manifestPath (''member '' @ keyPath @ '' carries '' @ what @ '': '' @ t)])
      in if list_ex (contains_str t) kSuspectSubstrings then refuse ''a URL''
         else if keyPath \<noteq> ''$schema'' \<and> looksLikeLocalPath t then refuse ''a local path''
         else if looksLikeVersionRange t then refuse ''a version range''
         else if t \<in> set kFloatingTags then refuse ''a floating tag''
         else [])"

definition memberKeyPath :: "string \<Rightarrow> string \<Rightarrow> string" where
  "memberKeyPath keyPath name = (if keyPath = [] then name else keyPath @ ''.'' @ name)"

definition inspectCredential :: "string \<Rightarrow> string \<Rightarrow> string \<Rightarrow> ManifestNode \<Rightarrow> SinkCall list" where
  "inspectCredential manifestPath keyPath name member =
     (if list_ex (\<lambda>kKey. contains_str name kKey \<and> carriesCredential member) kCredentialKeys
      then [report ''RA1005'' manifestPath (''member '' @ keyPath @ ''.'' @ name @ '' carries a credential value'')]
      else [])"

fun inspectStrings :: "string \<Rightarrow> string \<Rightarrow> ManifestNode \<Rightarrow> SinkCall list"
  and inspectElements :: "string \<Rightarrow> string \<Rightarrow> nat \<Rightarrow> ManifestNode list \<Rightarrow> SinkCall list"
  and inspectMembers :: "string \<Rightarrow> string \<Rightarrow> (string \<times> ManifestNode) list \<Rightarrow> SinkCall list"
where
  "inspectStrings manifestPath keyPath (MString t) = inspectText manifestPath keyPath t"
| "inspectStrings manifestPath keyPath (MArray es) = inspectElements manifestPath keyPath 0 es"
| "inspectStrings manifestPath keyPath (MObject ms) = inspectMembers manifestPath keyPath ms"
| "inspectStrings manifestPath keyPath MNull = []"
| "inspectStrings manifestPath keyPath (MBoolean b) = []"
| "inspectStrings manifestPath keyPath (MNumber n) = []"
| "inspectElements manifestPath keyPath index [] = []"
| "inspectElements manifestPath keyPath index (e # es) =
     inspectStrings manifestPath (keyPath @ ''['' @ nat_to_string index @ '']'') e @
     inspectElements manifestPath keyPath (Suc index) es"
| "inspectMembers manifestPath keyPath [] = []"
| "inspectMembers manifestPath keyPath ((name, member) # ms) =
     inspectCredential manifestPath keyPath name member @
     inspectStrings manifestPath (memberKeyPath keyPath name) member @
     inspectMembers manifestPath keyPath ms"

text \<open>RA1002: where the stored bytes leave the maintained form, as an index, a line and a column.\<close>

fun firstDifference :: "string \<Rightarrow> string \<Rightarrow> nat \<Rightarrow> nat \<Rightarrow> nat \<Rightarrow> nat \<times> nat \<times> nat" where
  "firstDifference (e # expected) (b # bytes) index line column =
     (if e \<noteq> b then (index, line, column)
      else if b = CHR 0x0A then firstDifference expected bytes (index + 1) (line + 1) 1
      else firstDifference expected bytes (index + 1) line (column + 1))"
| "firstDifference _ _ index line column = (index, line, column)"

definition checkStoredForm :: "LoadedManifest \<Rightarrow> SinkCall list" where
  "checkStoredForm manifest =
     (let expected = serializeMaintainedForm (manifest_root manifest) @ [CHR 0x0A];
          bytes = jd_bytes (lm_document manifest)
      in if \<not> lm_present manifest \<or> expected = bytes then []
         else let (index, line, column) = firstDifference expected bytes 0 1 1
         in [reportAt ''RA1002'' (lm_path manifest) (line, column)
              (''the stored bytes and the maintained form first differ at byte '' @ nat_to_string index)])"

definition checkMembershipEntry :: "RepositoryModel \<Rightarrow> MembershipArray \<Rightarrow> string \<Rightarrow> SinkCall list" where
  "checkMembershipEntry model array kEntry =
     (if \<not> looksLikeManifestPath kEntry
      then [report ''RA1003'' ''repository.json'' (''membership array '' @ ma_name array @
             '' carries an entry that is not one explicit manifest path: '' @ kEntry)]
      else if 1 < count_list (ma_entries array) kEntry
      then [report ''RA1003'' ''repository.json'' (''membership array '' @ ma_name array @
             '' lists the same manifest twice: '' @ kEntry)]
      else if \<not> hasFile (rm_scan model) kEntry
      then [report ''RA1003'' ''repository.json'' (''membership array '' @ ma_name array @
             '' lists a manifest that is absent: '' @ kEntry)]
      else [])"

definition checkMembershipArray :: "RepositoryModel \<Rightarrow> MembershipArray \<Rightarrow> SinkCall list" where
  "checkMembershipArray model array =
     (if ma_name array = ''tools'' then [] else concat (map (checkMembershipEntry model array) (ma_entries array)))"

definition checkToolEntry :: "RepositoryModel \<Rightarrow> string list \<Rightarrow> string \<Rightarrow> SinkCall list" where
  "checkToolEntry model entries entry =
     (if 1 < count_list entries entry
      then [report ''RA1004'' ''repository.json'' (''the tools array lists the same manifest twice: '' @ entry)]
      else if \<not> looksLikeManifestPath entry \<or> \<not> ends_with entry ''/tool.json''
      then [report ''RA1004'' ''repository.json''
             (''the tools array carries an entry that is not one tool manifest path: '' @ entry)]
      else if \<not> hasFile (rm_scan model) entry
      then [report ''RA1004'' ''repository.json'' (''the tools array lists a manifest that is absent: '' @ entry)]
      else [])"

definition checkToolManifest :: "RepositoryModel \<Rightarrow> ToolManifest \<Rightarrow> SinkCall list" where
  "checkToolManifest model tool =
     (if 1 < length (filter (\<lambda>other. tm_id other = tm_id tool) (rm_tools model))
      then [report ''RA1004'' (tm_manifestPath tool)
             (''the tool identity is claimed by more than one manifest: '' @ tm_id tool)] else []) @
     (let kExpected = tm_root tool @ ''/tool.json''
      in if kExpected \<noteq> tm_manifestPath tool
         then [report ''RA1004'' (tm_manifestPath tool)
                (''the tool manifest is not the one manifest of its root: expected '' @ kExpected)] else [])"

definition checkTools :: "RepositoryModel \<Rightarrow> SinkCall list" where
  "checkTools model =
     (case membershipArray model ''tools'' of
        None \<Rightarrow> []
      | Some entries \<Rightarrow>
          concat (map (checkToolEntry model entries) entries) @ concat (map (checkToolManifest model) (rm_tools model)))"

text \<open>RA1006: the seal and the history of the corpus.\<close>

definition checkSeal :: "RepositoryModel \<Rightarrow> RuleCorpus \<Rightarrow> SinkCall list" where
  "checkSeal model corpus =
     (let kSeal = sealRules (rc_rules corpus)
      in (if kSeal \<noteq> rc_ruleSetSeal corpus
          then [report ''RA1006'' (rm_corpusPath model)
                 (''the rules changed without the seal following them: the rules seal to '' @ kSeal @
                  '' and the corpus records '' @ rc_ruleSetSeal corpus)] else []) @
         (if rc_policyHistory corpus = [] then []
          else let kCurrent = last (rc_policyHistory corpus)
          in (if ph_policyVersion kCurrent \<noteq> rc_policyVersion corpus
              then [report ''RA1006'' (rm_corpusPath model)
                     (''the policy history ends at version '' @ int_to_string (ph_policyVersion kCurrent) @
                      '' and the corpus declares version '' @ int_to_string (rc_policyVersion corpus))] else []) @
             (if ph_ruleSetSeal kCurrent \<noteq> rc_ruleSetSeal corpus
              then [report ''RA1006'' (rm_corpusPath model)
                     (''the policy history records seal '' @ ph_ruleSetSeal kCurrent @
                      '' for the current version and the corpus records '' @ rc_ruleSetSeal corpus)] else []) @
             map (\<lambda>entry. report ''RA1006'' (rm_corpusPath model)
                   (''the current rules already sealed to '' @ rc_ruleSetSeal corpus @ '' at policy version '' @
                    int_to_string (ph_policyVersion entry)))
               (filter (\<lambda>entry. ph_ruleSetSeal entry = rc_ruleSetSeal corpus) (butlast (rc_policyHistory corpus)))))"

definition checkManifestAndIndex :: "RepositoryModel \<Rightarrow> RuleCorpus \<Rightarrow> SinkCall list" where
  "checkManifestAndIndex model corpus =
     concat (map checkStoredForm (rm_manifests model)) @
     concat (map (checkMembershipArray model) (rm_membership model)) @
     checkTools model @
     concat (map (\<lambda>manifest. if lm_present manifest
       then inspectStrings (lm_path manifest) [] (manifest_root manifest) else []) (rm_manifests model)) @
     checkSeal model corpus"

section \<open>The index and the tree\<close>

definition kAcceptedModules :: "string list" where
  "kAcceptedModules = [''rawframe.base'', ''rawframe.result'', ''rawframe.diagnostics'', ''rawframe.execution'',
     ''rawframe.composition'', ''rawframe.schema'', ''rawframe.world'', ''rawframe.content'', ''rawframe.luau'',
     ''rawframe.network'', ''rawframe.world.snapshot'', ''rawframe.world.luau'', ''rawframe.world.replication'',
     ''rawframe.network.loopback'', ''rawframe.network.quic'', ''rawframe.schema.compiler'',
     ''rawframe.host.dedicated_server'']"

definition kForbiddenNames :: "string list" where
  "kForbiddenNames = [''core'', ''common'', ''shared'', ''misc'', ''helpers'', ''utils'', ''util'', ''managers'',
     ''manager'', ''engine'']"

definition kDiscoveryCommands :: "string list" where
  "kDiscoveryCommands = [''aux_source_directory'', ''subdirs'']"

definition lastIdentitySegment :: "string \<Rightarrow> string" where
  "lastIdentitySegment identifier =
     (case rindex_of CHR ''.'' identifier of None \<Rightarrow> identifier | Some kDot \<Rightarrow> drop (kDot + 1) identifier)"

definition checkModuleRoot :: "RepositoryModel \<Rightarrow> string \<Rightarrow> SinkCall list" where
  "checkModuleRoot model entry =
     (let kRoot = parentDirectory entry
      in if kRoot = [] \<or> \<not> hasDirectory (rm_scan model) kRoot
         then [report ''RA2001'' entry (''the listed module root is absent from the tree: '' @ kRoot)] else [])"

definition entries_of :: "RepositoryModel \<Rightarrow> string \<Rightarrow> string list" where
  "entries_of model name = (case membershipArray model name of None \<Rightarrow> [] | Some entries \<Rightarrow> entries)"

definition checkUnlistedModule :: "RepositoryModel \<Rightarrow> string \<Rightarrow> SinkCall list" where
  "checkUnlistedModule model path =
     (if \<not> ends_with path ''/module.json'' \<or> path \<in> set (entries_of model ''modules'') then []
      else [report ''RA2002'' path ''a module manifest exists that the root index does not list''])"

definition checkDiscovery :: "ArchFiles \<Rightarrow> RepositoryModel \<Rightarrow> string \<Rightarrow> SinkCall list" where
  "checkDiscovery fs model buildFile =
     (case model_text fs model buildFile of
        None \<Rightarrow> []
      | Some t \<Rightarrow> concat (map (\<lambda>kCommand. map (\<lambda>position.
          reportAt ''RA2003'' buildFile position (''the build file discovers its subjects with '' @ kCommand))
          (findCommandInvocations t kCommand)) kDiscoveryCommands))"

definition checkModuleIdentity :: "LoadedManifest \<Rightarrow> SinkCall list" where
  "checkModuleIdentity manifest =
     (if \<not> lm_present manifest \<or> \<not> ends_with (lm_path manifest) ''/module.json'' then []
      else case mtext (manifest_root manifest) ''id'' of
        None \<Rightarrow> []
      | Some identity \<Rightarrow>
          (if identity \<notin> set kAcceptedModules
           then [report ''RA2004'' (lm_path manifest)
                  (''the module identity is outside the accepted first inventory: '' @ identity)] else []) @
          (if lastIdentitySegment identity \<in> set kForbiddenNames
           then [report ''RA2005'' (lm_path manifest)
                  (''the module name is a catch-all: '' @ lastIdentitySegment identity)] else []))"

definition checkUnlistedTool :: "RepositoryModel \<Rightarrow> string \<Rightarrow> SinkCall list" where
  "checkUnlistedTool model path =
     (if \<not> ends_with path ''/tool.json'' \<or> \<not> starts_with path ''tools/'' \<or> path \<in> set (entries_of model ''tools'')
      then []
      else [report ''RA2006'' path ''a tool manifest exists that the root index does not list''])"

definition checkMembershipReality :: "ArchFiles \<Rightarrow> RepositoryModel \<Rightarrow> SinkCall list" where
  "checkMembershipReality fs model =
     concat (map (checkModuleRoot model) (entries_of model ''modules'')) @
     concat (map (checkUnlistedModule model) (scanned_paths model)) @
     concat (map (checkDiscovery fs model) (rm_buildLane model)) @
     concat (map checkModuleIdentity (rm_manifests model)) @
     concat (map (checkUnlistedTool model) (scanned_paths model))"

section \<open>Projections\<close>

definition checkRegistrar :: "(string \<Rightarrow> sj_document) \<Rightarrow> ArchFiles \<Rightarrow> RepositoryModel \<Rightarrow> string \<Rightarrow> ManifestNode
    \<Rightarrow> SinkCall list" where
  "checkRegistrar iterate fs model manifestPath registrar =
     (case mtext registrar ''path'' of
        None \<Rightarrow> [report ''RA7001'' manifestPath ''the registrar-table projection names no table path'']
      | Some path \<Rightarrow>
          if \<not> hasFile (rm_scan model) path
          then [report ''RA7001'' path ''the registrar table the manifest projects is absent'']
          else case model_document iterate fs model path of
            Inl failure \<Rightarrow> [report ''RA7001'' path (''the registrar table cannot be read: '' @ af_message failure)]
          | Inr table \<Rightarrow>
              let kPresent = stringArray (jd_root table) ''entries''; kProjected = stringArray registrar ''entries''
              in if kPresent \<noteq> kProjected
                 then [report ''RA7001'' path
                        (''the registrar table is not the re-derivation of its manifest projection: it holds '' @
                         nat_to_string (length kPresent) @ '' entries against '' @ nat_to_string (length kProjected))]
                 else [])"

definition schemasOnDisk :: "RepositoryModel \<Rightarrow> string \<Rightarrow> string list" where
  "schemasOnDisk model kRoot =
     sort (filter (\<lambda>path. starts_with path (kRoot @ ''/'') \<and> ends_with path ''.component.luau'') (scanned_paths model))"

definition checkSchemas :: "RepositoryModel \<Rightarrow> LoadedManifest \<Rightarrow> SinkCall list" where
  "checkSchemas model manifest =
     (case mfind (manifest_root manifest) ''componentSchemas'' of
        Some (MArray es) \<Rightarrow>
          let declared = sort (stringArray (manifest_root manifest) ''componentSchemas'');
              onDisk = schemasOnDisk model (parentDirectory (lm_path manifest))
          in map (\<lambda>entry. report ''RA7002'' (lm_path manifest)
                   (''the projection declares a schema that is not present: '' @ entry))
               (filter (\<lambda>entry. entry \<notin> set onDisk) declared) @
             map (\<lambda>entry. report ''RA7002'' entry ''a component schema exists that the projection does not cover'')
               (filter (\<lambda>entry. entry \<notin> set declared) onDisk)
      | _ \<Rightarrow> [])"

definition checkProjection :: "(string \<Rightarrow> sj_document) \<Rightarrow> ArchFiles \<Rightarrow> RepositoryModel \<Rightarrow> LoadedManifest
    \<Rightarrow> SinkCall list" where
  "checkProjection iterate fs model manifest =
     (if \<not> lm_present manifest then []
      else (case mfind (manifest_root manifest) ''registrarTable'' of
              None \<Rightarrow> []
            | Some registrar \<Rightarrow> checkRegistrar iterate fs model (lm_path manifest) registrar) @
           checkSchemas model manifest)"

definition checkManifestProjections :: "(string \<Rightarrow> sj_document) \<Rightarrow> ArchFiles \<Rightarrow> RepositoryModel \<Rightarrow> SinkCall list" where
  "checkManifestProjections iterate fs model = concat (map (checkProjection iterate fs model) (rm_manifests model))"

section \<open>The stored form\<close>

lemma checkStoredForm_silent:
  "checkStoredForm manifest = [] \<longleftrightarrow> \<not> lm_present manifest \<or>
     jd_bytes (lm_document manifest) = serializeMaintainedForm (manifest_root manifest) @ [CHR 0x0A]"
  by (auto simp: checkStoredForm_def Let_def split: prod.splits)

text \<open>
  Once the stored form of two manifests passes the check, their bytes say whether they are the same
  document: two present manifests without a finding are stored as the same bytes exactly when they
  hold the same members, in the same order, with the same values.
\<close>

theorem stored_form_identifies_manifest:
  assumes "lm_present a" and "lm_present b" and "checkStoredForm a = []" and "checkStoredForm b = []"
    and "plain_numbers (manifest_root a)" and "plain_numbers (manifest_root b)"
  shows "jd_bytes (lm_document a) = jd_bytes (lm_document b) \<longleftrightarrow> manifest_root a = manifest_root b"
  using assms serializeMaintainedForm_inj [of "manifest_root a" "manifest_root b"]
  by (auto simp: checkStoredForm_silent)

definition demo_manifest :: "string \<Rightarrow> LoadedManifest" where
  "demo_manifest identity =
     (let root = MObject [(''id'', MString identity)]
      in \<lparr>lm_path = ''module.json'', lm_present = True, lm_readFailure = [],
          lm_document = \<lparr>jd_bytes = serializeMaintainedForm root @ [CHR 0x0A], jd_root = root\<rparr>\<rparr>)"

lemma stored_form_identifies_manifest_witness:
  "jd_bytes (lm_document (demo_manifest ''a'')) \<noteq> jd_bytes (lm_document (demo_manifest ''b''))"
  using stored_form_identifies_manifest [of "demo_manifest ''a''" "demo_manifest ''b''"]
  by (simp add: checkStoredForm_silent demo_manifest_def manifest_root_def Let_def)

text \<open>The line and the column after some bytes.\<close>

definition line_after :: "string \<Rightarrow> nat" where
  "line_after s = Suc (count_list s CHR 0x0A)"

definition column_after :: "string \<Rightarrow> nat" where
  "column_after s = Suc (length (takeWhile (\<lambda>c. c \<noteq> CHR 0x0A) (rev s)))"

lemma position_after_snoc:
  "line_after (s @ [CHR 0x0A]) = Suc (line_after s)" "column_after (s @ [CHR 0x0A]) = 1"
  "c \<noteq> CHR 0x0A \<Longrightarrow> line_after (s @ [c]) = line_after s"
  "c \<noteq> CHR 0x0A \<Longrightarrow> column_after (s @ [c]) = Suc (column_after s)"
  by (simp_all add: line_after_def column_after_def)

lemma firstDifference_split:
  "\<exists>k. firstDifference expected bytes (length before) (line_after before) (column_after before) =
      (length before + k, line_after (before @ take k bytes), column_after (before @ take k bytes)) \<and>
    take k expected = take k bytes \<and> k \<le> length expected \<and> k \<le> length bytes \<and>
    (k < length expected \<and> k < length bytes \<longrightarrow> expected ! k \<noteq> bytes ! k)"
proof (induction expected bytes "length before" "line_after before" "column_after before" arbitrary: before
    rule: firstDifference.induct)
  case (1 e expected b bytes)
  show ?case
  proof (cases "e = b")
    case False
    then show ?thesis by (intro exI [of _ 0]) simp
  next
    case True
    have "\<exists>k. firstDifference expected bytes (length (before @ [b])) (line_after (before @ [b])) (column_after (before @ [b])) =
        (length (before @ [b]) + k, line_after ((before @ [b]) @ take k bytes), column_after ((before @ [b]) @ take k bytes)) \<and>
      take k expected = take k bytes \<and> k \<le> length expected \<and> k \<le> length bytes \<and>
      (k < length expected \<and> k < length bytes \<longrightarrow> expected ! k \<noteq> bytes ! k)"
      using 1 [of "before @ [b]"] True by (cases "b = CHR 0x0A") (simp_all add: position_after_snoc)
    then obtain k where "firstDifference expected bytes (length (before @ [b])) (line_after (before @ [b])) (column_after (before @ [b])) =
        (length (before @ [b]) + k, line_after ((before @ [b]) @ take k bytes), column_after ((before @ [b]) @ take k bytes))"
      "take k expected = take k bytes" "k \<le> length expected" "k \<le> length bytes"
      "k < length expected \<and> k < length bytes \<longrightarrow> expected ! k \<noteq> bytes ! k"
      by blast
    then show ?thesis
      using True by (intro exI [of _ "Suc k"]) (cases "b = CHR 0x0A"; simp add: position_after_snoc)
  qed
qed (intro exI [of _ 0], simp)+

text \<open>
  The place a stored manifest is reported at is where it leaves its maintained form: the bytes
  agree up to the index in the report, differ there or end there, and line and column are those of
  that index in the stored file.
\<close>

theorem difference_position_exact:
  "\<exists>k. firstDifference expected bytes 0 1 1 = (k, line_after (take k bytes), column_after (take k bytes)) \<and>
    take k expected = take k bytes \<and> k \<le> min (length expected) (length bytes) \<and>
    (k = min (length expected) (length bytes) \<or> expected ! k \<noteq> bytes ! k)"
proof -
  have "line_after [] = 1" and "column_after [] = 1" by (simp_all add: line_after_def column_after_def)
  with firstDifference_split [of expected bytes "[]"] obtain k where
    "firstDifference expected bytes 0 1 1 = (k, line_after (take k bytes), column_after (take k bytes))"
    "take k expected = take k bytes" "k \<le> length expected" "k \<le> length bytes"
    "k < length expected \<and> k < length bytes \<longrightarrow> expected ! k \<noteq> bytes ! k"
    by auto
  then show ?thesis by (intro exI [of _ k]) auto
qed

section \<open>What silent checks of the index mean\<close>

lemma distinct_counts: "distinct xs \<longleftrightarrow> (\<forall>x\<in>set xs. \<not> 1 < count_list xs x)"
proof -
  have "count_list xs x = count (mset xs) x" for x
    by (induction xs) auto
  then show ?thesis
    by (auto simp: distinct_count_atmost_1 not_less count_eq_zero_iff le_Suc_eq)
qed

lemma checkMembershipEntry_silent:
  "checkMembershipEntry model array kEntry = [] \<longleftrightarrow> looksLikeManifestPath kEntry \<and>
     \<not> 1 < count_list (ma_entries array) kEntry \<and> hasFile (rm_scan model) kEntry"
  by (simp add: checkMembershipEntry_def)

lemma checkMembershipArray_silent:
  "checkMembershipArray model array = [] \<longleftrightarrow> ma_name array = ''tools'' \<or>
     (distinct (ma_entries array) \<and>
      (\<forall>entry\<in>set (ma_entries array). looksLikeManifestPath entry \<and> hasFile (rm_scan model) entry))"
proof -
  have "concat (map (checkMembershipEntry model array) (ma_entries array)) = [] \<longleftrightarrow>
      (\<forall>entry\<in>set (ma_entries array). looksLikeManifestPath entry \<and>
        \<not> 1 < count_list (ma_entries array) entry \<and> hasFile (rm_scan model) entry)"
    by (simp add: checkMembershipEntry_silent del: One_nat_def)
  then show ?thesis
    unfolding checkMembershipArray_def distinct_counts by metis
qed

lemma checkSchemas_silent:
  "checkSchemas model manifest = [] \<longleftrightarrow>
     (\<forall>es. mfind (manifest_root manifest) ''componentSchemas'' = Some (MArray es) \<longrightarrow>
        set (stringArray (manifest_root manifest) ''componentSchemas'') =
        set (schemasOnDisk model (parentDirectory (lm_path manifest))))"
  by (auto simp: checkSchemas_def Let_def filter_empty_conv split: option.splits ManifestNode.splits)

end
