(* ===== verification/Arch_Command.thy ===== *)
theory Arch_Command
  imports Arch_Closure Arch_Hygiene Arch_Manifest
begin

text \<open>
  \<open>tools/rf_archcheck/src/engine.cpp\<close>, \<open>command.cpp\<close> and \<open>main.cpp\<close>: the engine that runs every check
  over one repository, the population each rule walks, and the command layer with its options, its
  three operations and its four exit classes.  What surrounds the tool is the record
  \<open>ArchSurroundings\<close>: the JSON parser, the file system, and what the disk answers when a report is
  written.
\<close>

section \<open>The engine\<close>

definition isModuleManifest :: "string \<Rightarrow> bool" where
  "isModuleManifest path \<longleftrightarrow> ends_with path ''/module.json''"

definition isToolManifest :: "string \<Rightarrow> bool" where
  "isToolManifest path \<longleftrightarrow> ends_with path ''/tool.json''"

definition isPublicHeader :: "string \<Rightarrow> bool" where
  "isPublicHeader path \<longleftrightarrow> contains_str path ''/include/'' \<and> ends_with path ''.h''"

definition isMaintainedSource :: "string \<Rightarrow> bool" where
  "isMaintainedSource path =
     (if starts_with path ''source/'' then \<not> contains_str path ''/tests/''
      else starts_with path ''tools/'' \<and> contains_str path ''/src/'')"

definition countManifests :: "RepositoryModel \<Rightarrow> nat" where
  "countManifests model = length (filter lm_present (rm_manifests model))"

definition countMatching :: "RepositoryModel \<Rightarrow> (string \<Rightarrow> bool) \<Rightarrow> nat" where
  "countMatching model predicate = length (filter predicate (scanned_paths model))"

definition membershipEntries :: "RepositoryModel \<Rightarrow> string \<Rightarrow> nat" where
  "membershipEntries model name = (case membershipArray model name of None \<Rightarrow> 0 | Some entries \<Rightarrow> length entries)"

definition kPopulations :: "RepositoryModel \<Rightarrow> (string \<times> nat) list" where
  "kPopulations model =
     (let kManifests = countManifests model; kModules = countMatching model isModuleManifest;
          kTools = countMatching model isToolManifest; kBuildFiles = length (rm_buildLane model);
          kSources = countMatching model isMaintainedSource; kPublicHeaders = countMatching model isPublicHeader;
          kTargets = membershipEntries model ''targets'';
          kVendored = length (filter isVendored (rm_catalog model))
      in [(''RA1002'', kManifests), (''RA1003'', length (rm_membership model)),
          (''RA1004'', membershipEntries model ''tools''), (''RA1005'', kManifests), (''RA1006'', 1),
          (''RA2001'', membershipEntries model ''modules''), (''RA2002'', kModules), (''RA2003'', kBuildFiles),
          (''RA2004'', kModules), (''RA2005'', kModules), (''RA2006'', kTools), (''RA3001'', kSources),
          (''RA3002'', kSources), (''RA3003'', kModules), (''RA3004'', kModules), (''RA3005'', kBuildFiles),
          (''RA4001'', kTargets), (''RA4002'', kBuildFiles), (''RA4004'', kTargets), (''RA5001'', kBuildFiles),
          (''RA5002'', kSources), (''RA5003'', kBuildFiles), (''RA5004'', kSources),
          (''RA5005'', length (sc_files (rm_scan model))), (''RA6001'', kSources), (''RA6002'', kVendored),
          (''RA6003'', kManifests), (''RA6004'', kPublicHeaders), (''RA7001'', kTargets), (''RA7002'', kModules)])"

record SubjectCount =
  sb_ruleId :: string
  sb_subjects :: nat

definition countSubjects :: "RepositoryModel \<Rightarrow> RuleCorpus \<Rightarrow> SubjectCount list" where
  "countSubjects model corpus =
     map (\<lambda>rule. \<lparr>sb_ruleId = ru_id rule,
       sb_subjects = (case map_of (kPopulations model) (ru_id rule) of None \<Rightarrow> 0 | Some n \<Rightarrow> n)\<rparr>) (rc_rules corpus)"

record EngineOutcome =
  co_policyVersion :: int
  co_findings :: "Finding list"
  co_subjectCounts :: "SubjectCount list"

text \<open>The calls all checks make on the sink, in order.\<close>

definition allCalls :: "(string \<Rightarrow> sj_document) \<Rightarrow> ArchFiles \<Rightarrow> RepositoryModel \<Rightarrow> RuleCorpus \<Rightarrow> SinkCall list" where
  "allCalls iterate fs model corpus =
     checkManifestAndIndex model corpus @
     checkMembershipReality fs model @
     checkDependencyEdges fs model @
     checkNegativeClosures fs model @
     checkSourceHygiene fs model @
     checkGeneratedAndVendoredSeparation iterate fs model @
     checkManifestProjections iterate fs model"

definition checkRepository :: "(string \<Rightarrow> sj_document) \<Rightarrow> ArchFiles \<Rightarrow> string \<Rightarrow> string \<Rightarrow> string
    \<Rightarrow> EngineOutcome AResult" where
  "checkRepository iterate fs root corpusPath corpusRelativePath =
     rbind (loadRuleCorpus iterate fs corpusPath) (\<lambda>corpus.
     rbind (loadRepositoryModel iterate fs root corpusRelativePath) (\<lambda>model.
       let sink = runSink corpus (allCalls iterate fs model corpus)
       in if si_unknownRule sink
          then archReject AfInvalidCorpus corpusRelativePath
            ''a check reported against a rule the corpus does not carry''
          else if si_overflowed sink
          then archReject AfLimitExceeded root
            ''the repository produced more findings than the ceiling admits''
          else Inr \<lparr>co_policyVersion = rc_policyVersion corpus, co_findings = sortFindings (si_findings sink),
                    co_subjectCounts = countSubjects model corpus\<rparr>))"

section \<open>Arguments\<close>

datatype ExitClass = ExitClean | ExitFindings | ExitUsageError | ExitInternalError

fun exit_status :: "ExitClass \<Rightarrow> nat" where
  "exit_status ExitClean = 0"
| "exit_status ExitFindings = 1"
| "exit_status ExitUsageError = 2"
| "exit_status ExitInternalError = 3"

record CommandOutput =
  cm_exitClass :: ExitClass
  cm_standardOutput :: string
  cm_standardError :: string

definition kDefaultCorpusPath :: string where
  "kDefaultCorpusPath = ''tools/rf_archcheck/rules/architecture-rules.json''"

definition kUsage :: string where
  "kUsage =
     ''usage:'' @ [CHR 0x0A] @
     ''  rf-archcheck check_repository --root <path> [--corpus <repository-relative path>] [--report <path>]'' @ [CHR 0x0A] @
     ''  rf-archcheck explain_rule --root <path> --rule <RAnnnn> [--corpus <repository-relative path>]'' @ [CHR 0x0A] @
     ''  rf-archcheck list_rules --root <path> [--corpus <repository-relative path>]'' @ [CHR 0x0A]"

definition usageError :: "string \<Rightarrow> CommandOutput" where
  "usageError message =
     \<lparr>cm_exitClass = ExitUsageError, cm_standardOutput = [], cm_standardError = message @ CHR 0x0A # kUsage\<rparr>"

definition internalError :: "ArchFailure \<Rightarrow> CommandOutput" where
  "internalError failure =
     \<lparr>cm_exitClass = ExitInternalError, cm_standardOutput = [],
      cm_standardError = ''rf-archcheck: '' @ archFailureName (af_code failure) @ '': '' @
        (if af_path failure = [] then ''(no path)'' else af_path failure) @ '': '' @ af_message failure @ [CHR 0x0A]\<rparr>"

record ArchOptions =
  ao_root :: string
  ao_corpus :: string
  ao_rule :: string
  ao_report :: string
  ao_hasReport :: bool

text \<open>
  \<open>takeValue\<close>: nothing when the current argument is not the option; otherwise its value, the empty text
  when the option ends the command line, and the arguments after it.
\<close>

definition takeValue :: "string list \<Rightarrow> string \<Rightarrow> (string \<times> string list) option" where
  "takeValue arguments name =
     (case arguments of
        [] \<Rightarrow> None
      | current # following \<Rightarrow>
          if current \<noteq> name then None
          else case following of [] \<Rightarrow> Some ([], []) | target # rest \<Rightarrow> Some (target, rest))"

text \<open>One turn of the loop over the arguments: the options it leaves and the arguments that remain.\<close>

definition takeOneOption :: "string list \<Rightarrow> ArchOptions \<Rightarrow> (ArchOptions \<times> string list) option" where
  "takeOneOption arguments options =
     (case takeValue arguments ''--root'' of Some (v, rest) \<Rightarrow> Some (options\<lparr>ao_root := v\<rparr>, rest)
      | None \<Rightarrow>
     (case takeValue arguments ''--corpus'' of Some (v, rest) \<Rightarrow> Some (options\<lparr>ao_corpus := v\<rparr>, rest)
      | None \<Rightarrow>
     (case takeValue arguments ''--rule'' of Some (v, rest) \<Rightarrow> Some (options\<lparr>ao_rule := v\<rparr>, rest)
      | None \<Rightarrow>
     (case takeValue arguments ''--report'' of
        Some (v, rest) \<Rightarrow> Some (options\<lparr>ao_report := v, ao_hasReport := True\<rparr>, rest)
      | None \<Rightarrow> None))))"

lemma takeValue_shorter: "takeValue arguments name = Some (v, rest) \<Longrightarrow> length rest < length arguments"
  by (auto simp: takeValue_def split: list.splits if_splits)

lemma takeOneOption_shorter: "takeOneOption arguments options = Some (options', rest) \<Longrightarrow> length rest < length arguments"
  by (auto simp: takeOneOption_def split: option.splits dest: takeValue_shorter)

function takeOptions :: "string list \<Rightarrow> ArchOptions \<Rightarrow> string + ArchOptions" where
  "takeOptions arguments options =
     (if arguments = [] then Inr options
      else case takeOneOption arguments options of
        None \<Rightarrow> Inl (''unknown option: '' @ hd arguments)
      | Some (options', rest) \<Rightarrow> takeOptions rest options')"
  by pat_completeness auto
termination
  by (relation "measure (\<lambda>(arguments, options). length arguments)") (auto dest: takeOneOption_shorter)

declare takeOptions.simps [simp del]

definition startOptions :: ArchOptions where
  "startOptions = \<lparr>ao_root = [], ao_corpus = kDefaultCorpusPath, ao_rule = [], ao_report = [], ao_hasReport = False\<rparr>"

text \<open>The options of a command line, or the message of the usage error.\<close>

definition readOptions :: "string list \<Rightarrow> string + ArchOptions" where
  "readOptions arguments =
     rbind (takeOptions arguments startOptions) (\<lambda>options.
       if ao_root options = [] then Inl ''--root is required and takes a value''
       else if ao_corpus options = [] then Inl ''--corpus takes a value''
       else if ao_hasReport options \<and> ao_report options = [] then Inl ''--report takes a value''
       else Inr options)"

section \<open>The operations\<close>

definition escapeForReport :: "string \<Rightarrow> string" where
  "escapeForReport t = map (\<lambda>kCharacter. if kCharacter = CHR 0x0A \<or> kCharacter = CHR 0x0D then CHR '' '' else kCharacter) t"

text \<open>
  What the disk answers: whether a directory can be created, whether a file can be opened for writing,
  and whether all bytes were written to it.
\<close>

record ReportDisk =
  rd_create :: "string \<Rightarrow> bool"
  rd_open :: "string \<Rightarrow> bool"
  rd_write :: "string \<Rightarrow> string \<Rightarrow> bool"

definition writeReport :: "ReportDisk \<Rightarrow> string \<Rightarrow> string \<Rightarrow> unit AResult" where
  "writeReport disk path bytes =
     (if parent_path path \<noteq> [] \<and> \<not> rd_create disk (parent_path path)
      then archReject AfIoFailure path ''cannot create the report directory''
      else if \<not> rd_open disk path then archReject AfIoFailure path ''cannot open the report''
      else if \<not> rd_write disk path bytes then archReject AfIoFailure path ''cannot write the report''
      else Inr ())"

record ArchSurroundings =
  an_iterate :: "string \<Rightarrow> sj_document"
  an_files :: ArchFiles
  an_disk :: ReportDisk

definition corpus_path :: "ArchOptions \<Rightarrow> string" where
  "corpus_path options = path_under (ao_root options) (ao_corpus options)"

definition finishCheck :: "EngineOutcome \<Rightarrow> string \<Rightarrow> CommandOutput" where
  "finishCheck outcome kDocument =
     \<lparr>cm_exitClass = (if co_findings outcome = [] then ExitClean else ExitFindings),
      cm_standardOutput = kDocument, cm_standardError = []\<rparr>"

definition runCheckRepository :: "ArchSurroundings \<Rightarrow> ArchOptions \<Rightarrow> CommandOutput" where
  "runCheckRepository env options =
     (case checkRepository (an_iterate env) (an_files env) (ao_root options) (corpus_path options) (ao_corpus options) of
        Inl failure \<Rightarrow> internalError failure
      | Inr outcome \<Rightarrow>
          let kDocument = renderFindingsDocument (co_policyVersion outcome) (co_findings outcome)
          in if ao_hasReport options
             then (case writeReport (an_disk env) (ao_report options) kDocument of
                     Inl failure \<Rightarrow> internalError failure
                   | Inr _ \<Rightarrow> finishCheck outcome kDocument)
             else finishCheck outcome kDocument)"

definition ruleLine :: "SubjectCount list \<Rightarrow> Rule \<Rightarrow> string" where
  "ruleLine kCounts rule =
     (let kSubjects = (case find (\<lambda>c. sb_ruleId c = ru_id rule) kCounts of None \<Rightarrow> 0 | Some c \<Rightarrow> sb_subjects c)
      in ru_id rule @ '' '' @ ru_authority rule @ '' '' @ ru_landsWith rule @ '' subjects='' @
         nat_to_string kSubjects @ '' '' @ escapeForReport (ru_title rule) @ [CHR 0x0A])"

definition runListRules :: "ArchSurroundings \<Rightarrow> ArchOptions \<Rightarrow> CommandOutput" where
  "runListRules env options =
     (case loadRuleCorpus (an_iterate env) (an_files env) (corpus_path options) of
        Inl failure \<Rightarrow> internalError failure
      | Inr corpus \<Rightarrow>
     (case loadRepositoryModel (an_iterate env) (an_files env) (ao_root options) (ao_corpus options) of
        Inl failure \<Rightarrow> internalError failure
      | Inr model \<Rightarrow>
          \<lparr>cm_exitClass = ExitClean,
           cm_standardOutput =
             ''policyVersion '' @ int_to_string (rc_policyVersion corpus) @ [CHR 0x0A] @
             ''ruleSetSeal '' @ rc_ruleSetSeal corpus @ [CHR 0x0A] @
             concat (map (ruleLine (countSubjects model corpus)) (rc_rules corpus)),
           cm_standardError = []\<rparr>))"

definition runExplainRule :: "ArchSurroundings \<Rightarrow> ArchOptions \<Rightarrow> CommandOutput" where
  "runExplainRule env options =
     (case loadRuleCorpus (an_iterate env) (an_files env) (corpus_path options) of
        Inl failure \<Rightarrow> internalError failure
      | Inr corpus \<Rightarrow>
     (case find_rule corpus (ao_rule options) of
        None \<Rightarrow> usageError (''no such rule in the corpus: '' @ ao_rule options)
      | Some rule \<Rightarrow>
          \<lparr>cm_exitClass = ExitClean,
           cm_standardOutput =
             ''id '' @ ru_id rule @ [CHR 0x0A] @
             ''authority '' @ ru_authority rule @ [CHR 0x0A] @
             ''subjectKind '' @ ru_subjectKind rule @ [CHR 0x0A] @
             ''severity '' @ ru_severity rule @ [CHR 0x0A] @
             ''landsWith '' @ ru_landsWith rule @ [CHR 0x0A] @
             ''policyVersion '' @ int_to_string (rc_policyVersion corpus) @ [CHR 0x0A] @
             ''title '' @ escapeForReport (ru_title rule) @ [CHR 0x0A],
           cm_standardError = []\<rparr>))"

definition runArchCommand :: "ArchSurroundings \<Rightarrow> string list \<Rightarrow> CommandOutput" where
  "runArchCommand env arguments =
     (if arguments = [] then usageError ''no operation was named''
      else case readOptions (tl arguments) of
        Inl message \<Rightarrow> usageError message
      | Inr options \<Rightarrow>
          let kOperation = hd arguments
          in if kOperation = ''check_repository'' then runCheckRepository env options
             else if kOperation = ''list_rules'' then runListRules env options
             else if kOperation = ''explain_rule''
             then (if ao_rule options = [] then usageError ''--rule is required and takes a value''
                   else runExplainRule env options)
             else usageError (''unknown operation: '' @ kOperation))"

text \<open>\<open>main\<close>: what the process writes and its exit status.\<close>

definition archMain :: "ArchSurroundings \<Rightarrow> string list \<Rightarrow> nat \<times> string \<times> string" where
  "archMain env arguments =
     (let kOutput = runArchCommand env arguments
      in (exit_status (cm_exitClass kOutput), cm_standardOutput kOutput, cm_standardError kOutput))"

section \<open>What the exit class states\<close>

lemma published_result:
  "published corpus calls = Some fs \<Longrightarrow> fs = [] \<longleftrightarrow> calls = []"
proof -
  assume published: "published corpus calls = Some fs"
  then have known: "\<forall>call\<in>set calls. called_finding corpus call \<noteq> None"
    and few: "length (called_findings corpus calls) \<le> kMaximumFindings"
    and fs: "fs = sortFindings (called_findings corpus calls)"
    by (auto simp: published_def Let_def runSink_result split: if_splits)
  have "length (called_findings corpus calls) = length calls"
    using known by (simp add: called_findings_def map_filter_def)
  then show ?thesis by (metis fs sortFindings_key length_0_conv length_sort)
qed

lemma checkRepository_result:
  "checkRepository iterate fs root corpusPath corpusRelativePath = Inr outcome \<longleftrightarrow>
     (\<exists>corpus model. loadRuleCorpus iterate fs corpusPath = Inr corpus \<and>
        loadRepositoryModel iterate fs root corpusRelativePath = Inr model \<and>
        published corpus (allCalls iterate fs model corpus) = Some (co_findings outcome) \<and>
        co_policyVersion outcome = rc_policyVersion corpus \<and> co_subjectCounts outcome = countSubjects model corpus)"
proof (cases "loadRuleCorpus iterate fs corpusPath")
  case (Inr corpus)
  then show ?thesis
    by (cases "loadRepositoryModel iterate fs root corpusRelativePath"; cases outcome)
      (auto simp: checkRepository_def published_def Let_def)
qed (simp add: checkRepository_def)

lemma usageError_class [simp]: "cm_exitClass (usageError m) = ExitUsageError"
  by (simp add: usageError_def)

lemma internalError_class [simp]: "cm_exitClass (internalError f) = ExitInternalError"
  by (simp add: internalError_def)

text \<open>What the report file must answer for the run to be allowed to conclude.\<close>

definition report_delivered :: "ArchSurroundings \<Rightarrow> ArchOptions \<Rightarrow> string \<Rightarrow> bool" where
  "report_delivered env options document \<longleftrightarrow>
     (if ao_hasReport options then is_ok (writeReport (an_disk env) (ao_report options) document) else True)"

lemma run_check_concludes:
  "cm_exitClass (runCheckRepository env options) \<in> {ExitClean, ExitFindings} \<longleftrightarrow>
     (\<exists>outcome. checkRepository (an_iterate env) (an_files env) (ao_root options) (corpus_path options)
          (ao_corpus options) = Inr outcome \<and>
        report_delivered env options (renderFindingsDocument (co_policyVersion outcome) (co_findings outcome)))"
  by (auto simp: runCheckRepository_def finishCheck_def report_delivered_def Let_def split: sum.splits)

lemma run_check_output:
  assumes "checkRepository (an_iterate env) (an_files env) (ao_root options) (corpus_path options)
      (ao_corpus options) = Inr outcome"
    and "report_delivered env options (renderFindingsDocument (co_policyVersion outcome) (co_findings outcome))"
  shows "runCheckRepository env options =
    finishCheck outcome (renderFindingsDocument (co_policyVersion outcome) (co_findings outcome))"
  using assms by (auto simp: runCheckRepository_def report_delivered_def Let_def split: sum.splits)

lemma rendered_not_Nil [simp]: "renderFindingsDocument v fs \<noteq> []" "[] \<noteq> renderFindingsDocument v fs"
  by (simp_all add: renderFindingsDocument_def)

lemma internalError_text [simp]:
  "cm_standardError (internalError f) \<noteq> []" "cm_standardOutput (internalError f) = []"
  by (simp_all add: internalError_def)

lemma run_check_internal:
  assumes "\<not> (\<exists>outcome. checkRepository (an_iterate env) (an_files env) (ao_root options) (corpus_path options)
          (ao_corpus options) = Inr outcome \<and>
        report_delivered env options (renderFindingsDocument (co_policyVersion outcome) (co_findings outcome)))"
  shows "\<exists>failure. runCheckRepository env options = internalError failure"
  using assms by (auto simp: runCheckRepository_def report_delivered_def Let_def split: sum.splits if_splits)


end
