(* ===== verification/Arch_Conclusions.thy ===== *)
theory Arch_Conclusions
  imports Arch_Command
begin

text \<open>
  What the conclusion of a run of \<open>tools/rf_archcheck\<close> says: the meaning of a clean exit for the
  repository, across every check, and the rules the checks report.
\<close>

section \<open>What a clean run says of the repository\<close>

text \<open>The corpus carries the seal of its rules, and the history ends with it and had it never before.\<close>

definition seal_conforms :: "RuleCorpus \<Rightarrow> bool" where
  "seal_conforms corpus \<longleftrightarrow>
     sealRules (rc_rules corpus) = rc_ruleSetSeal corpus \<and>
     (\<exists>earlier. rc_policyHistory corpus =
        earlier @ [\<lparr>ph_policyVersion = rc_policyVersion corpus, ph_ruleSetSeal = rc_ruleSetSeal corpus\<rparr>] \<and>
        rc_ruleSetSeal corpus \<notin> ph_ruleSetSeal ` set earlier)"

text \<open>
  The index and the tree say the same: every array lists present manifests, each once; every module
  manifest of the tree and every tool manifest is listed; loaded manifests are stored in the maintained
  form; no maintained path lies below the generated root.
\<close>

definition index_conforms :: "RepositoryModel \<Rightarrow> bool" where
  "index_conforms model \<longleftrightarrow>
     (\<forall>array\<in>set (rm_membership model). ma_name array = ''tools'' \<or> (distinct (ma_entries array) \<and>
        (\<forall>entry\<in>set (ma_entries array). looksLikeManifestPath entry \<and> hasFile (rm_scan model) entry))) \<and>
     distinct (entries_of model ''tools'') \<and>
     (\<forall>entry\<in>set (entries_of model ''tools''). ends_with entry ''/tool.json'' \<and> hasFile (rm_scan model) entry) \<and>
     (\<forall>path\<in>set (scanned_paths model). ends_with path ''/module.json'' \<longrightarrow> path \<in> set (entries_of model ''modules'')) \<and>
     (\<forall>path\<in>set (scanned_paths model). ends_with path ''/tool.json'' \<and> starts_with path ''tools/'' \<longrightarrow>
        path \<in> set (entries_of model ''tools'')) \<and>
     (\<forall>m\<in>set (rm_manifests model). lm_present m \<longrightarrow>
        jd_bytes (lm_document m) = serializeMaintainedForm (manifest_root m) @ [CHR 0x0A]) \<and>
     (\<forall>path\<in>set (maintainedPaths model). \<not> starts_with path kGeneratedRoot)"

text \<open>
  The declared edges are the ones the sources have, and the production graph they make is acyclic;
  the libraries the sources of a tool and the public headers reach are the declared ones.
\<close>

definition edges_conform :: "ArchFiles \<Rightarrow> RepositoryModel \<Rightarrow> bool" where
  "edges_conform fs model \<longleftrightarrow>
     (let modules = collectModules model
      in (\<nexists>x. on_cycle (omap_at [] (productionGraph modules)) x) \<and>
         (\<forall>module\<in>set modules. \<forall>path\<in>set (scanned_paths model). \<forall>t. \<forall>include\<in>set (findIncludes t).
            starts_with path (mo_root module @ ''/'') \<and> isFirstPartySource path \<and> model_text fs model path = Some t \<longrightarrow>
            moduleOfInclude (in_target include) modules \<in> {[], mo_id module} \<or>
            declares module (moduleOfInclude (in_target include) modules)))"

definition libraries_conform :: "ArchFiles \<Rightarrow> RepositoryModel \<Rightarrow> bool" where
  "libraries_conform fs model \<longleftrightarrow>
     (\<forall>path\<in>set (scanned_paths model). \<forall>t entry. model_text fs model path = Some t \<and> reaches_library model t entry \<longrightarrow>
        \<not> (contains_str path ''/include/'' \<and> fileExtension path = ''.h'') \<and>
        (\<forall>tool\<in>set (rm_tools model). starts_with path (tm_root tool @ ''/'') \<and> isMaintainedSourceDirectory path \<longrightarrow>
           ca_id entry \<in> set (tm_thirdParty tool)))"

lemma checkSeal_silent:
  assumes "checkSeal model corpus = []" and "rc_policyHistory corpus \<noteq> []"
  shows "seal_conforms corpus"
proof -
  from assms have sealed: "sealRules (rc_rules corpus) = rc_ruleSetSeal corpus"
    and current: "ph_policyVersion (last (rc_policyHistory corpus)) = rc_policyVersion corpus"
      "ph_ruleSetSeal (last (rc_policyHistory corpus)) = rc_ruleSetSeal corpus"
    and earlier: "\<forall>entry\<in>set (butlast (rc_policyHistory corpus)). ph_ruleSetSeal entry \<noteq> rc_ruleSetSeal corpus"
    by (auto simp: checkSeal_def Let_def filter_empty_conv split: if_splits)
  moreover from current have "last (rc_policyHistory corpus) =
      \<lparr>ph_policyVersion = rc_policyVersion corpus, ph_ruleSetSeal = rc_ruleSetSeal corpus\<rparr>"
    by simp
  ultimately show ?thesis
    using append_butlast_last_id [OF assms(2)] unfolding seal_conforms_def
    by (metis (no_types, lifting) image_iff)
qed

lemma checkToolEntry_silent:
  "checkToolEntry model entries entry = [] \<longleftrightarrow> \<not> 1 < count_list entries entry \<and> looksLikeManifestPath entry \<and>
     ends_with entry ''/tool.json'' \<and> hasFile (rm_scan model) entry"
  unfolding checkToolEntry_def by (simp del: One_nat_def) blast

lemma checkTools_silent:
  assumes "checkTools model = []"
  shows "distinct (entries_of model ''tools'') \<and>
    (\<forall>entry\<in>set (entries_of model ''tools''). ends_with entry ''/tool.json'' \<and> hasFile (rm_scan model) entry)"
proof (cases "membershipArray model ''tools''")
  case (Some entries)
  with assms have "\<forall>entry\<in>set entries. checkToolEntry model entries entry = []"
    by (simp add: checkTools_def)
  then show ?thesis
    unfolding checkToolEntry_silent distinct_counts by (simp add: Some entries_of_def)
qed (simp add: entries_of_def)

lemma index_silent:
  assumes "checkManifestAndIndex model corpus = []" and "checkMembershipReality fs model = []"
    and "checkGeneratedAndVendoredSeparation iterate fs model = []"
  shows "index_conforms model"
proof -
  have tools: "checkTools model = []" using assms(1) by (simp add: checkManifestAndIndex_def)
  have stored: "\<forall>m\<in>set (rm_manifests model). checkStoredForm m = []"
    and arrays: "\<forall>array\<in>set (rm_membership model). checkMembershipArray model array = []"
    using assms(1) by (simp_all add: checkManifestAndIndex_def)
  have listed: "\<forall>path\<in>set (scanned_paths model). checkUnlistedModule model path = []"
    "\<forall>path\<in>set (scanned_paths model). checkUnlistedTool model path = []"
    using assms(2) by (simp_all add: checkMembershipReality_def)
  have maintained: "\<forall>path\<in>set (maintainedPaths model). checkMaintainedPath (vendoredRoots iterate fs model) path = []"
    using assms(3) by (simp add: checkGeneratedAndVendoredSeparation_def)
  have "ends_with path ''/module.json'' \<longrightarrow> path \<in> set (entries_of model ''modules'')"
    if "path \<in> set (scanned_paths model)" for path
    using listed(1) that by (auto simp: checkUnlistedModule_def split: if_splits)
  moreover have "ends_with path ''/tool.json'' \<and> starts_with path ''tools/'' \<longrightarrow> path \<in> set (entries_of model ''tools'')"
    if "path \<in> set (scanned_paths model)" for path
    using listed(2) that by (auto simp: checkUnlistedTool_def split: if_splits)
  ultimately show ?thesis
    using checkTools_silent [OF tools] arrays stored maintained
    unfolding index_conforms_def checkMembershipArray_silent checkStoredForm_silent checkMaintainedPath_silent by blast
qed

lemma checkInclude_silent:
  "checkInclude modules module path include = [] \<Longrightarrow>
     moduleOfInclude (in_target include) modules \<in> {[], mo_id module} \<or>
     declares module (moduleOfInclude (in_target include) modules)"
  by (auto simp: checkInclude_def Let_def split: if_splits)

lemma edges_silent:
  assumes "checkDependencyEdges fs model = []"
  shows "edges_conform fs model"
  unfolding edges_conform_def Let_def
proof (intro conjI ballI allI impI)
  have "checkCycle (collectModules model) = []"
    using assms by (simp add: checkDependencyEdges_def Let_def)
  then have "\<not> fst (hasCycle (collectModules model))"
    by (simp add: checkCycle_def split: prod.splits if_splits)
  then show "\<nexists>x. on_cycle (omap_at [] (productionGraph (collectModules model))) x"
    using hasCycle_exact(1) [of "collectModules model"] by simp
next
  fix module path t inc
  assume "module \<in> set (collectModules model)" and "path \<in> set (scanned_paths model)"
    and inc: "inc \<in> set (findIncludes t)"
    and read: "starts_with path (mo_root module @ ''/'') \<and> isFirstPartySource path \<and> model_text fs model path = Some t"
  then have "checkModuleFile fs model (collectModules model) module path = []"
    using assms by (simp add: checkDependencyEdges_def Let_def)
  then have "checkInclude (collectModules model) module path inc = []"
    using read inc by (simp add: checkModuleFile_def)
  then show "moduleOfInclude (in_target inc) (collectModules model) \<in> {[], mo_id module} \<or>
      declares module (moduleOfInclude (in_target inc) (collectModules model))"
    by (rule checkInclude_silent)
qed

lemma libraries_silent:
  assumes "checkSourceHygiene fs model = []" and "checkGeneratedAndVendoredSeparation iterate fs model = []"
  shows "libraries_conform fs model"
proof -
  have "\<forall>tool\<in>set (rm_tools model). \<forall>path\<in>set (scanned_paths model). checkToolFile fs model tool path = []"
    using assms(1) by (simp add: checkSourceHygiene_def)
  moreover have "\<forall>path\<in>set (scanned_paths model). checkPublicHeader fs model path = []"
    using assms(2) by (simp add: checkGeneratedAndVendoredSeparation_def)
  ultimately show ?thesis
    unfolding libraries_conform_def checkToolFile_silent checkPublicHeader_silent by blast
qed

lemma loadRuleCorpus_wf:
  "loadRuleCorpus iterate fs path = Inr corpus \<Longrightarrow> corpus_wf corpus"
  using parseRuleCorpus_wf by (auto simp: loadRuleCorpus_def)


section \<open>A clean repository\<close>

text \<open>The answers of the JSON parser for a document that holds a given node.\<close>

fun node_value :: "ManifestNode \<Rightarrow> sj_value" where
  "node_value MNull = SjNull"
| "node_value (MBoolean b) = SjBool b"
| "node_value (MNumber t) = SjNumber t"
| "node_value (MString t) = SjString t"
| "node_value (MArray es) = SjArray (map (\<lambda>e. SjElement (node_value e)) es)"
| "node_value (MObject ms) = SjObject (map (\<lambda>m. SjField (fst m) (node_value (snd m))) ms)"

definition sealed_corpus :: RuleCorpus where
  "sealed_corpus =
     (let rules = [demo_rule ''RA1002'']
      in \<lparr>rc_policyVersion = 1, rc_ruleSetSeal = sealRules rules,
          rc_policyHistory = [\<lparr>ph_policyVersion = 1, ph_ruleSetSeal = sealRules rules\<rparr>], rc_rules = rules\<rparr>)"

text \<open>A tree that holds an empty index, and the corpus outside it.\<close>

definition demo_files :: ArchFiles where
  "demo_files =
     \<lparr>ad_status = (\<lambda>p. if p = ''/r/repository.json'' \<or> p = ''/c.json'' then Some RegularFile else None),
      ad_size = (\<lambda>p. if p = ''/c.json'' then Some 6 else Some 3),
      ad_read = (\<lambda>p n. if p = ''/c.json'' then Contents ''corpus'' else Contents (''{}'' @ [CHR 0x0A])),
      ad_directory = (\<lambda>_. True), ad_entries = (\<lambda>d. Some [''repository.json''])\<rparr>"

definition demo_parser :: "string \<Rightarrow> sj_document" where
  "demo_parser bytes =
     (if bytes = ''corpus'' then SjDocument (node_value (corpus_node sealed_corpus)) True
      else SjDocument (SjObject []) True)"

definition demo_env :: ArchSurroundings where
  "demo_env = \<lparr>an_iterate = demo_parser, an_files = demo_files,
     an_disk = \<lparr>rd_create = (\<lambda>_. True), rd_open = (\<lambda>_. True), rd_write = (\<lambda>_ _. True)\<rparr>\<rparr>"

lemma sealRules_length: "length (sealRules rules) = 24"
  by (simp add: sealRules_def Let_def)

lemma sealed_corpus_wf: "corpus_wf sealed_corpus"
proof -
  have "rule_wf (demo_rule ''RA1002'')"
    by (simp add: rule_wf_def demo_rule_def isRuleId_def isAuthorityIdentifier_def isLandsWith_def
        kSubjectKinds_def is_digit_def starts_with_def nth_Cons' less_char_def)
  then show ?thesis
    by (simp add: corpus_wf_def sealed_corpus_def wf_single int64_min_def int64_max_def kMaximumRules_def rules_wf_def Let_def)
qed

lemma one_text: "int_to_string 1 = ''1''"
  by code_simp

lemma sealed_corpus_read:
  "\<exists>n. buildManifest 0 (node_value (corpus_node sealed_corpus)) 0 = Inr (corpus_node sealed_corpus, n)"
  using sealRules_length [of "[demo_rule ''RA1002'']"] one_text
  by (simp add: sealed_corpus_def corpus_node_def Let_def buildManifest.simps admitMemberName_def history_node_def
      rule_node_def kMemberNames_def rule_values_def demo_rule_def makeNumber_def trimManifestNumber_def
      kMaximumManifestDepth_def kMaximumJsonElements_def kMaximumJsonMembers_def kMaximumStringLength_def after_number_def)

lemma demo_corpus_loaded: "loadRuleCorpus demo_parser demo_files ''/c.json'' = Inr sealed_corpus"
proof -
  obtain n where "buildManifest 0 (node_value (corpus_node sealed_corpus)) 0 = Inr (corpus_node sealed_corpus, n)"
    using sealed_corpus_read by blast
  then have "parseManifest demo_parser ''corpus'' = Inr (corpus_node sealed_corpus)"
    by (simp add: parseManifest_def demo_parser_def kMaximumFileBytes_def)
  then show ?thesis
    by (simp add: loadRuleCorpus_def readJsonDocument_def demo_files_def readSized_def kMaximumFileBytes_def
        parse_corpus_node [OF sealed_corpus_wf])
qed

definition demo_index :: LoadedManifest where
  "demo_index = \<lparr>lm_path = ''repository.json'', lm_present = True, lm_readFailure = [],
     lm_document = \<lparr>jd_bytes = ''{}'' @ [CHR 0x0A], jd_root = MObject []\<rparr>\<rparr>"

definition demo_model :: RepositoryModel where
  "demo_model =
     \<lparr>rm_root = ''/r'',
      rm_scan = \<lparr>sc_files = [\<lparr>sf_path = ''repository.json'', sf_bytes = 3\<rparr>], sc_directories = []\<rparr>,
      rm_index = demo_index, rm_membership = map (\<lambda>kName. \<lparr>ma_name = kName, ma_entries = []\<rparr>) kMembershipNames,
      rm_evidenceIndexPath = [], rm_manifests = [demo_index], rm_tools = [], rm_catalog = [],
      rm_buildLane = [''CMakeLists.txt''], rm_corpusPath = ''/c.json''\<rparr>"

lemma demo_scanned: "scanRepository demo_files ''/r'' = Inr (rm_scan demo_model)"
proof -
  have "classifyEntry demo_files ''/r'' [] ''repository.json'' = Inr AddFile"
    by (simp add: classifyEntry_def demo_files_def isUnwalked_def kUnwalkedRoots_def isAdmissibleName_def
        admissible_char_def kMaximumPathLength_def path_under_def)
  moreover have "ad_entries demo_files ''/r'' = Some [''repository.json'']" "ad_directory demo_files ''/r''"
    "ad_size demo_files (path_under ''/r'' ''repository.json'') = Some 3"
    by (simp_all add: demo_files_def path_under_def)
  ultimately show ?thesis
    by (simp add: scanRepository_def walk.simps [of demo_files "''/r''"] visitEntry_def addFile_def
        kMaximumScannedFiles_def demo_model_def)
qed

lemma demo_index_loaded: "loadManifest demo_parser demo_files ''/r'' ''repository.json'' = demo_index"
  by (simp add: loadManifest_def readJsonDocument_def readSized_def demo_files_def kMaximumFileBytes_def path_under_def
      parseManifest_def demo_parser_def demo_index_def buildManifest.simps kMaximumManifestDepth_def
      kMaximumJsonElements_def kMaximumJsonMembers_def)

lemma demo_nothing_else:
  "lane_successors demo_files ''/r'' ''CMakeLists.txt'' = []" "readCatalog demo_parser demo_files ''/r'' = []"
  by (simp_all add: lane_successors_def readTextFile_def readCatalog_def readJsonDocument_def demo_files_def path_under_def
      archReject_def)

lemma demo_lane: "buildLane demo_files ''/r'' = [''CMakeLists.txt'']"
proof -
  have "\<not> kMaximumScannedFiles \<le> 0" by (simp add: kMaximumScannedFiles_def)
  then show ?thesis by (simp add: buildLane_def demo_nothing_else)
qed

lemma demo_model_loaded: "loadRepositoryModel demo_parser demo_files ''/r'' ''/c.json'' = Inr demo_model"
proof -
  have membership: "readMembership (manifest_root demo_index) = rm_membership demo_model"
    by (simp add: readMembership_def manifest_root_def demo_index_def demo_model_def stringArray_def mfind_def kMembershipNames_def)
  have "listed_entries (rm_membership demo_model) = []"
    by (simp add: listed_entries_def demo_model_def kMembershipNames_def)
  moreover have "readTools (rm_membership demo_model) [demo_index] = []"
    by (simp add: readTools_def isToolEntry_def demo_model_def kMembershipNames_def)
  moreover have "lm_present demo_index" "text_or_empty (manifest_root demo_index) ''evidenceIndex'' = []"
    by (simp_all add: demo_index_def text_or_empty_def manifest_root_def mtext_def mfind_def)
  ultimately show ?thesis
    by (simp add: loadRepositoryModel_def demo_scanned demo_index_loaded membership demo_lane demo_nothing_else Let_def)
      (simp add: demo_model_def hasFile_def)
qed

lemma demo_silent: "allCalls demo_parser demo_files demo_model sealed_corpus = []"
proof -
  have unread: "model_text demo_files demo_model ''CMakeLists.txt'' = None"
    by (simp add: model_text_def readTextFile_def demo_files_def demo_model_def path_under_def archReject_def)
  have paths: "scanned_paths demo_model = [''repository.json'']"
    by (simp add: scanned_paths_def demo_model_def)
  have arrays: "entries_of demo_model name = []" "membershipArray demo_model ''tools'' = Some []" for name
    by (auto simp: entries_of_def membershipArray_def demo_model_def kMembershipNames_def split: option.splits)
  have model: "rm_manifests demo_model = [demo_index]" "rm_tools demo_model = []" "rm_catalog demo_model = []"
    "rm_buildLane demo_model = [''CMakeLists.txt'']" "sc_directories (rm_scan demo_model) = []"
    by (simp_all add: demo_model_def)
  have names: "\<not> ends_with ''repository.json'' ''/target.json''" "\<not> contains_str ''repository.json'' ''/targets/''"
    "\<not> ends_with ''repository.json'' ''/module.json''" "\<not> ends_with ''repository.json'' ''/tool.json''"
    "\<not> starts_with ''repository.json'' ''third_party/''" "\<not> contains_str ''repository.json'' ''/include/''"
    by code_simp+
  have "\<forall>array\<in>set (rm_membership demo_model). checkMembershipArray demo_model array = []"
    by (simp add: demo_model_def checkMembershipArray_def)
  moreover have "checkStoredForm demo_index = []" "inspectStrings (lm_path demo_index) [] (manifest_root demo_index) = []"
    by (simp_all add: checkStoredForm_silent demo_index_def manifest_root_def serializeMaintainedForm_def bracketed_def)
  moreover have "checkSeal demo_model sealed_corpus = []"
    by (simp add: checkSeal_def sealed_corpus_def Let_def)
  ultimately have index: "checkManifestAndIndex demo_model sealed_corpus = []"
    by (simp add: checkManifestAndIndex_def model checkTools_def arrays)
  have membership: "checkMembershipReality demo_files demo_model = []"
    by (simp add: checkMembershipReality_def arrays paths model checkUnlistedModule_def checkUnlistedTool_def
        checkDiscovery_def checkModuleIdentity_def unread names demo_index_def)
  have "collectModules demo_model = []"
    by (simp add: collectModules_def model names demo_index_def)
  then have edges: "checkDependencyEdges demo_files demo_model = []"
    by (simp add: checkDependencyEdges_def Let_def checkCycle_def hasCycle_def checkLaneFile_def model unread)
  have closures: "checkNegativeClosures demo_files demo_model = []"
    by (simp add: checkNegativeClosures_def model checkTarget_def isTarget_def checkGuards_def unread names demo_index_def)
  have "checkExtension ''repository.json'' = []" "checkArtifact ''repository.json'' = []"
    by code_simp+
  then have hygiene: "checkSourceHygiene demo_files demo_model = []"
    by (simp add: checkSourceHygiene_def model paths checkBuildFile_def unread)
  have "model_text demo_files demo_model ''repository.json'' = Some (''{}'' @ [CHR 0x0A])"
    by (simp add: model_text_def readTextFile_def demo_files_def demo_model_def path_under_def readSized_def kMaximumFileBytes_def)
  moreover have "declaresItselfGenerated (''{}'' @ [CHR 0x0A]) = None" by code_simp
  moreover have "checkMaintainedPath [] ''/c.json'' = []" by code_simp
  then have "concat (map (checkMaintainedPath (vendoredRoots demo_parser demo_files demo_model)) (maintainedPaths demo_model)) = []"
    by (simp add: vendoredRoots_def model maintainedPaths_def)
      (simp add: demo_model_def listed_entries_def kMembershipNames_def)
  ultimately have separation: "checkGeneratedAndVendoredSeparation demo_parser demo_files demo_model = []"
    by (simp add: checkGeneratedAndVendoredSeparation_def model paths checkGenerated_def checkPublicHeader_def names)
  have "checkManifestProjections demo_parser demo_files demo_model = []"
    by (simp add: checkManifestProjections_def model checkProjection_def checkSchemas_def demo_index_def manifest_root_def mfind_def)
  then show ?thesis by (simp add: allCalls_def index membership edges closures hygiene separation)
qed


section \<open>Every rule a check reports has a population\<close>

definition rules_of :: "SinkCall list \<Rightarrow> string set" where
  "rules_of calls = fst ` set calls"

lemma rules_of_simps [simp]:
  "rules_of [] = {}" "rules_of (c # cs) = insert (fst c) (rules_of cs)" "rules_of (cs @ ds) = rules_of cs \<union> rules_of ds"
  "fst (report rid s d) = rid" "fst (reportAt rid s p d) = rid"
  by (auto simp: rules_of_def report_def reportAt_def)

lemma rules_of_concat [simp]: "rules_of (concat (map f xs)) = (\<Union>x\<in>set xs. rules_of (f x))"
  by (induction xs) auto

lemma rules_of_if [simp]: "rules_of (if c then a else b) = (if c then rules_of a else rules_of b)"
  by simp

named_theorems check_rules

lemma index_check_rules [check_rules]:
  "rules_of (checkStoredForm m) \<subseteq> {''RA1002''}"
  "rules_of (checkMembershipArray model array) \<subseteq> {''RA1003''}"
  "rules_of (checkToolEntry model es e) \<subseteq> {''RA1004''}"
  "rules_of (checkToolManifest model tool) \<subseteq> {''RA1004''}"
  "rules_of (checkSeal model corpus) \<subseteq> {''RA1006''}"
  by (auto simp: checkStoredForm_def checkMembershipArray_def checkMembershipEntry_def checkToolEntry_def
      checkToolManifest_def checkSeal_def Let_def rules_of_def report_def reportAt_def split: if_splits)

lemma inspect_rules:
  "rules_of (inspectStrings path keyPath node) \<subseteq> {''RA1005''}"
  "rules_of (inspectElements path keyPath index es) \<subseteq> {''RA1005''}"
  "rules_of (inspectMembers path keyPath ms) \<subseteq> {''RA1005''}"
  by (induction path keyPath node and path keyPath index es and path keyPath ms
      rule: inspectStrings_inspectElements_inspectMembers.induct)
    (auto simp: inspectText_def inspectCredential_def Let_def)

lemma membership_check_rules [check_rules]:
  "rules_of (checkModuleRoot model e) \<subseteq> {''RA2001''}"
  "rules_of (checkUnlistedModule model p) \<subseteq> {''RA2002''}"
  "rules_of (checkDiscovery fs model p) \<subseteq> {''RA2003''}"
  "rules_of (checkModuleIdentity m) \<subseteq> {''RA2004'', ''RA2005''}"
  "rules_of (checkUnlistedTool model p) \<subseteq> {''RA2006''}"
  by (auto simp: checkModuleRoot_def checkUnlistedModule_def checkDiscovery_def checkModuleIdentity_def
      checkUnlistedTool_def Let_def rules_of_def report_def reportAt_def split: option.splits if_splits)

lemma edge_check_rules [check_rules]:
  "rules_of (checkModuleFile fs model modules module p) \<subseteq> {''RA3001'', ''RA3002''}"
  "rules_of (checkCycle modules) \<subseteq> {''RA3003''}"
  "rules_of (checkModuleBuildFile fs model modules module) \<subseteq> {''RA3004''}"
  "rules_of (checkLaneFile fs model modules p) \<subseteq> {''RA3005''}"
  by (auto simp: checkModuleFile_def checkInclude_def checkCycle_def checkModuleBuildFile_def checkLinks_def
      checkLaneFile_def checkDeclaration_def Let_def rules_of_def report_def reportAt_def
      split: option.splits if_splits prod.splits)

lemma guardStep_rules:
  "rules_of calls \<subseteq> {''RA4002''} \<Longrightarrow> rules_of (snd (guardStep options p (st, calls) line)) \<subseteq> {''RA4002''}"
  by (auto simp: guardStep_def Let_def)

lemma guards_rules:
  "rules_of (snd st) \<subseteq> {''RA4002''} \<Longrightarrow> rules_of (snd (foldl (guardStep options p) st lines)) \<subseteq> {''RA4002''}"
proof (induction lines arbitrary: st)
  case (Cons line lines)
  then show ?case using guardStep_rules [of "snd st" options p "fst st" line] by simp
qed simp

lemma target_check_rules [check_rules]: "rules_of (checkTarget m) \<subseteq> {''RA4001'', ''RA4004''}"
  by (auto simp: checkTarget_def checkServerClosure_def checkPlacement_def Let_def rules_of_def report_def split: if_splits)

lemma guard_check_rules [check_rules]: "rules_of (checkGuards fs model options p) \<subseteq> {''RA4002''}"
  using guards_rules [of "(guardStart, [])" options p] by (cases "model_text fs model p") (simp_all add: checkGuards_def)

lemma source_check_rules [check_rules]:
  "rules_of (checkBuildFile fs model p) \<subseteq> {''RA5001'', ''RA5003''}"
  "rules_of (checkExtension p) \<subseteq> {''RA5002''}"
  "rules_of (checkToolFile fs model tool p) \<subseteq> {''RA5004''}"
  "rules_of (checkArtifact p) \<subseteq> {''RA5005''}"
  "rules_of (checkDirectory p) \<subseteq> {''RA5005''}"
  "rules_of (checkGenerated fs model p) \<subseteq> {''RA6001''}"
  "rules_of (checkVendored iterate fs model entry) \<subseteq> {''RA6002''}"
  "rules_of (checkMaintainedPath roots p) \<subseteq> {''RA6003''}"
  "rules_of (checkPublicHeader fs model p) \<subseteq> {''RA6004''}"
  by (auto simp: checkBuildFile_def checkFileCommand_def checkExtension_def checkToolFile_def checkToolInclude_def
      checkArtifact_def checkDirectory_def checkGenerated_def checkVendored_def checkMaintainedPath_def
      checkPublicHeader_def checkPublicInclude_def Let_def rules_of_def report_def reportAt_def
      split: option.splits if_splits sum.splits)

lemma registrar_rules: "rules_of (checkRegistrar iterate fs model p registrar) \<subseteq> {''RA7001''}"
  by (cases "mtext registrar ''path''"; cases "model_document iterate fs model (the (mtext registrar ''path''))")
    (auto simp: checkRegistrar_def Let_def)

lemma schemas_rules: "rules_of (checkSchemas model m) \<subseteq> {''RA7002''}"
  by (auto simp: checkSchemas_def Let_def rules_of_def report_def split: option.splits ManifestNode.splits)

lemma projection_check_rules [check_rules]: "rules_of (checkProjection iterate fs model m) \<subseteq> {''RA7001'', ''RA7002''}"
  by (cases "mfind (manifest_root m) ''registrarTable''")
    (auto simp: checkProjection_def dest!: registrar_rules [THEN subsetD] schemas_rules [THEN subsetD])

lemma part_rules:
  "rules_of (checkManifestAndIndex model corpus) \<subseteq> {''RA1002'', ''RA1003'', ''RA1004'', ''RA1005'', ''RA1006''}"
  "rules_of (checkMembershipReality fs model) \<subseteq> {''RA2001'', ''RA2002'', ''RA2003'', ''RA2004'', ''RA2005'', ''RA2006''}"
  "rules_of (checkDependencyEdges fs model) \<subseteq> {''RA3001'', ''RA3002'', ''RA3003'', ''RA3004'', ''RA3005''}"
  "rules_of (checkNegativeClosures fs model) \<subseteq> {''RA4001'', ''RA4002'', ''RA4004''}"
  "rules_of (checkSourceHygiene fs model) \<subseteq> {''RA5001'', ''RA5002'', ''RA5003'', ''RA5004'', ''RA5005''}"
  "rules_of (checkGeneratedAndVendoredSeparation iterate fs model) \<subseteq> {''RA6001'', ''RA6002'', ''RA6003'', ''RA6004''}"
  "rules_of (checkManifestProjections iterate fs model) \<subseteq> {''RA7001'', ''RA7002''}"
proof -
  have "rules_of (checkTools model) \<subseteq> {''RA1004''}"
    by (cases "membershipArray model ''tools''") (auto simp: checkTools_def dest!: check_rules [THEN subsetD])
  then show "rules_of (checkManifestAndIndex model corpus) \<subseteq> {''RA1002'', ''RA1003'', ''RA1004'', ''RA1005'', ''RA1006''}"
    unfolding checkManifestAndIndex_def
    by (auto dest!: check_rules [THEN subsetD] inspect_rules(1) [THEN subsetD] split: if_splits)
  show "rules_of (checkMembershipReality fs model) \<subseteq>
      {''RA2001'', ''RA2002'', ''RA2003'', ''RA2004'', ''RA2005'', ''RA2006''}"
    unfolding checkMembershipReality_def by (auto dest!: check_rules [THEN subsetD])
  show "rules_of (checkDependencyEdges fs model) \<subseteq> {''RA3001'', ''RA3002'', ''RA3003'', ''RA3004'', ''RA3005''}"
    unfolding checkDependencyEdges_def by (auto simp: Let_def dest!: check_rules [THEN subsetD])
  show "rules_of (checkNegativeClosures fs model) \<subseteq> {''RA4001'', ''RA4002'', ''RA4004''}"
    unfolding checkNegativeClosures_def by (auto dest!: check_rules [THEN subsetD])
  show "rules_of (checkSourceHygiene fs model) \<subseteq> {''RA5001'', ''RA5002'', ''RA5003'', ''RA5004'', ''RA5005''}"
    unfolding checkSourceHygiene_def by (auto dest!: check_rules [THEN subsetD])
  show "rules_of (checkGeneratedAndVendoredSeparation iterate fs model) \<subseteq>
      {''RA6001'', ''RA6002'', ''RA6003'', ''RA6004''}"
    unfolding checkGeneratedAndVendoredSeparation_def by (auto dest!: check_rules [THEN subsetD])
  show "rules_of (checkManifestProjections iterate fs model) \<subseteq> {''RA7001'', ''RA7002''}"
    unfolding checkManifestProjections_def by (auto dest!: check_rules [THEN subsetD])
qed

lemma all_rules: "rules_of (allCalls iterate fs model corpus) \<subseteq> fst ` set (kPopulations model)"
  unfolding allCalls_def kPopulations_def Let_def
  by (auto dest!: part_rules [THEN subsetD])

text \<open>
  No check reports a rule of its own making: every call any check makes on the sink, over any
  repository, names one of the thirty rules that have a population, so a corpus that carries those
  rules can never make a run fail for an unknown rule.
\<close>

theorem checks_report_known_rules:
  assumes "fst ` set (kPopulations model) \<subseteq> ru_id ` set (rc_rules corpus)"
  shows "\<not> si_unknownRule (runSink corpus (allCalls iterate fs model corpus))"
proof -
  have "called_finding corpus call \<noteq> None" if "call \<in> set (allCalls iterate fs model corpus)" for call
  proof -
    have "fst call \<in> ru_id ` set (rc_rules corpus)"
      using that all_rules assms by (fastforce simp: rules_of_def)
    then have "find_rule corpus (fst call) \<noteq> None"
      by (auto simp: find_rule_def find_None_iff)
    then show ?thesis by (cases call) (auto simp: called_finding_def)
  qed
  then show ?thesis by (auto simp: runSink_result)
qed

definition thirty_rules :: RuleCorpus where
  "thirty_rules = sealed_corpus\<lparr>rc_rules := map (\<lambda>p. demo_rule (fst p)) (kPopulations demo_model)\<rparr>"

lemma population_names: "fst ` set (kPopulations model) = fst ` set (kPopulations other)"
  by (simp add: kPopulations_def Let_def)

lemma checks_report_known_rules_witness:
  "let model = demo_model\<lparr>rm_corpusPath := ''out/rules.json''\<rparr>
   in \<not> si_unknownRule (runSink thirty_rules (allCalls demo_parser demo_files model thirty_rules))"
proof -
  let ?model = "demo_model\<lparr>rm_corpusPath := ''out/rules.json''\<rparr>"
  have "fst ` set (kPopulations ?model) \<subseteq> ru_id ` set (rc_rules thirty_rules)"
    unfolding population_names [of ?model demo_model] by (force simp: thirty_rules_def demo_rule_def image_iff)
  from checks_report_known_rules [OF this] show ?thesis by (simp add: Let_def)
qed

end
