(* ===== verification/Spec2Isabelle.thy ===== *)
theory Spec2Isabelle
  imports Evidence_Bundle Evidence_Windows Evidence_Handles Evidence_Command Base_Bits128 Base_Assert Verify_Command Arch_Conclusions
begin

text \<open>
  Verification development of the Rawframe foundation: the base library under
  \<open>source/base\<close> and the tools under \<open>tools\<close> that produce and judge engineering evidence.

  The program and its parts.

  \<^item> \<open>source/base\<close>: the 128-bit identity type and its canonical text, and the fatal path that ends
    the process after reporting once.
  \<^item> \<open>tools/rf_evidence\<close>: an evidence pipeline. Run records are strict canonical JSON, content is
    addressed by digests and descriptors, an assembler joins the attempts of a plan into one
    evidence set, and an evaluator decides the checks of a policy on that set. Each step reads only
    what the step before it wrote and verifies the descriptor on the way.
  \<^item> \<open>tools/rf_verify\<close>: the verification reports. It reads a coverage export, a change as a unified
    diff, tier declarations and test results, and writes the floor report, the coverage summary or
    the requirements report, with an exit code that states the conclusion.
  \<^item> \<open>tools/rf_archcheck\<close>: the architecture checks. It loads a corpus of rules, walks the repository,
    loads the manifests its index lists and the build files its root build file reaches, runs every
    check over that one model, and publishes the findings in a fixed order.

  Theories and what they model.

  \<^item> \<open>Prelude\<close>, \<open>Numbers\<close>, \<open>Containers\<close>: the failure sum and its bind, folds and their invariants,
    decimal and hexadecimal texts at their width, ordered maps (\<open>std::map\<close>) as sorted association
    lists behind a locale of laws, sorted lists as sets (\<open>std::set\<close>), and maps of sets.
  \<^item> \<open>Base_Bits128\<close> (\<open>bits128.h\<close>) and \<open>Base_Fatal\<close> (\<open>fatal.cpp\<close>): identities at two 64-bit words;
    the handler slot, the default handler with its bounded buffer, and the concurrent fatal path as
    an inductive step relation with reachable states. \<open>Base_Assert\<close> (\<open>assert.h\<close>): the assertion macros at
    the two levels, and that removing the assertions changes nothing of a run in which none fails.
  \<^item> \<open>Simdjson\<close>: the type of answers the third-party JSON parser gives. The parser itself is a
    parameter everywhere, and nothing is assumed of it unless a theorem says so.
  \<^item> \<open>Evidence_Utf\<close>, \<open>Evidence_Json\<close> (\<open>canonical_json.cpp\<close>): strict UTF-8, the UTF-16 key order,
    the strict parser, the canonical writer and the ingest gate.
  \<^item> \<open>Evidence_Sha256\<close>, \<open>Evidence_Descriptor\<close>: digest streams over an OpenSSL parameter, descriptors,
    producer authority, media-type generations and raw receipts.
  \<^item> \<open>Evidence_Metrics\<close>, \<open>Evidence_Policy\<close>, \<open>Evidence_Set\<close>, \<open>Evidence_Evaluator\<close>: the metric
    registry with exact rescaling, the policy and its binding, evidence-set assembly with retry
    chains, and the evaluation in phases. The blob store is a parameter with its lookup.
  \<^item> \<open>Evidence_Blob\<close> (\<open>file_security.cpp\<close>, \<open>blob_store.cpp\<close>): the content-addressed store over an
    explicit disk, one turn of the host per system call, with the calls the operating system fails and
    the acts of other processes between the calls as parameters. \<open>Evidence_Store\<close>: what holds under all
    of them. \<open>Evidence_Roundtrip\<close>: that a put succeeds and is read back on a quiet host. A hard link is
    two files with the same content, a link to a directory is a link that cannot be read, and the copy
    of a source reads it whole before it writes. \<open>Evidence_Handles\<close>: the exclusive file with its handle on
    both platforms, whose loop of partial writes refines the one write call the store takes it for.
  \<^item> \<open>Evidence_Files\<close> (\<open>file_reader.cpp\<close>), \<open>Evidence_Attestation\<close> (\<open>attestation.cpp\<close>),
    \<open>Evidence_Bundle\<close>, \<open>Evidence_Trust\<close> (\<open>trust_policy.cpp\<close>): the claim of a record about its provenance,
    the decoding of the bundle, the policy that compares them and the trust class that follows.
    \<open>Evidence_Baseline\<close> (\<open>baseline_record.cpp\<close>): the reader of a baseline and the promotions it refuses.
  \<^item> \<open>Simdjson_Dom\<close>, \<open>Evidence_Paths\<close> (\<open>diagnostic.cpp\<close>, \<open>path_policy.cpp\<close>, \<open>json_policy.cpp\<close>,
    \<open>schema_oracle.cpp\<close>): the tree the second JSON parser answers with, what a command prints, which path an
    argument may name, and the site: everything a command asks of its surroundings.
  \<^item> \<open>Evidence_Dependencies\<close> (\<open>dependency_authority.cpp\<close>), \<open>Evidence_Repository\<close>
    (\<open>repository_validator.cpp\<close>): the dependency authorities against each other, and the validation of a
    repository with its tools and its evidence.
  \<^item> \<open>Evidence_Licenses\<close> (\<open>license_review.cpp\<close>), \<open>Evidence_Sources\<close> (\<open>source_inspector.cpp\<close>),
    \<open>Evidence_Shipping\<close> (\<open>shipping_closure.cpp\<close>), \<open>Evidence_PathAudit\<close> (\<open>path_audit.cpp\<close>), \<open>Evidence_Offline\<close>
    (\<open>offline_verifier.cpp\<close>): the audits, each a function of the site. A recursive iteration is the list
    of the entries it visits; where the code stops the recursion, what lies deeper is dropped.
  \<^item> \<open>Evidence_Process\<close> (\<open>process_runner.cpp\<close>): the bounded run of a child on POSIX, over the answers of the
    operating system at each poll, and the quoting of a Windows command line with its inverse.
    \<open>Evidence_Windows\<close>: the run on Windows, suspended until its job limits it.
  \<^item> \<open>Evidence_Reports\<close> (\<open>report_writer.cpp\<close>): the reports as texts, each the writing of one value, and their
    publication over the disk of the host. \<open>Evidence_Records\<close> (\<open>record_command.cpp\<close>): the record operations.
    \<open>Evidence_Command\<close> (\<open>store_command.cpp\<close>, \<open>command.cpp\<close>, \<open>main.cpp\<close>): the store operations, the options,
    the audits with their reports, and the dispatch. A command maps the host to its exit code, its two
    outputs and the host it leaves.
  \<^item> \<open>Verify_Paths\<close>, \<open>Verify_Diff\<close>, \<open>Verify_Json\<close>: failures and ceilings, path containment, the
    line-driven diff reader as a state machine, and the bounded copy of a JSON document.
  \<^item> \<open>Verify_Coverage\<close>, \<open>Verify_Floors\<close>, \<open>Verify_Requirements\<close>: the coverage export record by
    record with the MC/DC judgement, the tiers and the floor gate, the whole-tree summary, and the
    traceability report.
  \<^item> \<open>Verify_Report\<close>, \<open>Verify_Command\<close>: the streaming JSON writer with its nesting stack, the
    options, the three operations and the exit codes.
  \<^item> \<open>Escaping\<close>: what a text writer that escapes must satisfy, as a locale; the canonical writer and
    the maintained-form writer are its two interpretations.
  \<^item> \<open>Arch_Json\<close>, \<open>Arch_Rules\<close>, \<open>Arch_Findings\<close>, \<open>Arch_Text\<close>: the manifest reader and writer, the rule
    corpus with its grammar and its seal, the sink and the order of findings, and the line scanner.
  \<^item> \<open>Arch_Scan\<close>, \<open>Arch_Model\<close>: the walk of the tree over a record of file-system answers, and the
    repository model with its membership, manifests, tools, catalogue and build lane.
  \<^item> \<open>Arch_Edges\<close>, \<open>Arch_Closure\<close>, \<open>Arch_Hygiene\<close>, \<open>Arch_Manifest\<close>: the checks. Each is a function
    from the model to the calls it makes on the sink, in the order the code makes them.
  \<^item> \<open>Arch_Command\<close>, \<open>Arch_Conclusions\<close>: the engine, the populations, the options, the operations with
    their exit classes, and what a clean exit says of the repository.

  How state and operations correspond. A struct is a record with a short field prefix, an enum a
  datatype, a failure-or-value result the sum type with the failure on the left, an out-parameter a
  returned value, a loop a recursive function or a fold over the sequence it walks. Operations keep
  the names of the functions they translate. What the process reads from its surroundings (files,
  directory listings, canonical paths, external tools) is a function argument, so every theorem
  holds whatever those answer.

  What the lemmas show. Per component: the functional behaviour on every branch, failures included;
  the invariant its operations keep; and, where the code is an optimised form of something simpler,
  the equivalence with that form (retry chains against reachability, the MC/DC judgement against the
  unique-cause definition, the streaming writer against the pretty-printer of a tree, the key order
  against the order of UTF-16 code units). Across components: what a verdict of the evaluator means
  for the runs on disk and what the exit code of the evaluation says of that verdict, which commands of
  the evidence tool can change the disk at all, what an exit code of the verification tool means for the
  change, and what a clean exit of the architecture tool means for the repository.

  Bounds and fuel. Numbers keep their width: 64-bit words where the code shifts, int with the
  wrap-around or the saturation written out elsewhere. Loops whose recursion is not structural have
  a measure. The retry-chain walk takes fuel for one step more than there are attempts; the chain
  theorem shows that this is enough, since a chain without a repetition is not longer. The JSON
  readers need no fuel: they recurse on the finite document they were given, and the ceilings on
  depth, nodes and bytes are theorems about what is accepted.

  Where a sort of the library may reorder equal keys, the model keeps their order; the keys are distinct
  wherever a theorem speaks of positions. An exception that a file-system call without an error code throws
  ends the process and is not modelled.

  Not modelled. What the operating system does behind its calls: the models of the child runs, the files and
  the handles are over the answers it gives. The store and the commands are those of the POSIX build; of the
  Windows one there are the exclusive file, the classification, the move and the run of a child. Signals and
  the thread scheduler; the signature tool and the schema validator, whose answers are parameters; the
  build system, CI images and JSON schemas, which are not written in the implementation language; the
  third-party libraries. The record operations read files as the site answers, while the store is read on
  the disk of the host: that a file put in the store is seen by a later read of the site is not stated.
\<close>

end
